(* ===== verification/Py_Prelude.thy ===== *)
theory Py_Prelude
  imports Complex_Main "HOL-Library.AList" "HOL-Library.Char_ord" "HOL-Library.List_Lexorder"
    "HOL-Library.Monad_Syntax"
begin

text \<open>
  Shared material of the development: the Python values the program exchanges, results with
  exceptions as values, dictionaries, the text classes of the program's patterns, and the
  generic lemmas the component theories rest on.

  A Python \<open>str\<close> is a \<open>string\<close>, one \<open>char\<close> per code point (the code points below 256; every
  pattern of the program is an ASCII pattern, and lengths count code points). A \<open>dict\<close> is an
  association list with distinct keys, in insertion order; a \<open>MappingProxyType\<close> and a \<open>tuple\<close>
  are the frozen forms of a \<open>dict\<close> and a \<open>list\<close> and have constructors of their own, because the
  program tests \<open>type(value) is dict\<close> and \<open>type(value) is list\<close>. A finite \<open>float\<close> is the rational
  number it denotes. Every other Python object, a dict with a key that is no \<open>str\<close> among them, is
  \<open>VOpaque\<close>: the program rejects all of them in the same branch.
\<close>

named_theorems py_defs \<open>definitions of the shared Python layer that proofs unfold together\<close>

section \<open>Values\<close>

datatype pyfloat = Fin rat | PosInf | NegInf | NaN

datatype pyv =
    VNone
  | VBool bool
  | VInt int
  | VFloat pyfloat
  | VStr string
  | VList "pyv list"
  | VTuple "pyv list"
  | VDict "(string \<times> pyv) list"
  | VProxy "(string \<times> pyv) list"
  | VOpaque

type_synonym bag = "(string \<times> pyv) list"

lemma size_snd_less [termination_simp]:
  "(k, v) \<in> set kvs \<Longrightarrow> size (v::pyv) < Suc (size_list (size_prod (\<lambda>x. 0) size) kvs)"
  by (induction kvs) auto

subsection \<open>Results with exceptions as values\<close>

definition bind_res :: "'e + 'a \<Rightarrow> ('a \<Rightarrow> 'e + 'b) \<Rightarrow> 'e + 'b" where
  "bind_res r f = (case r of Inl e \<Rightarrow> Inl e | Inr v \<Rightarrow> f v)"

lemma bind_res_Inl [simp]: "bind_res (Inl e) f = Inl e"
  by (simp add: bind_res_def)

lemma bind_res_Inr [simp]: "bind_res (Inr v) f = f v"
  by (simp add: bind_res_def)

lemma bind_res_eq_Inr [simp]: "bind_res r f = Inr v \<longleftrightarrow> (\<exists>u. r = Inr u \<and> f u = Inr v)"
  by (cases r) (auto simp: bind_res_def)

fun first_error :: "'e option list \<Rightarrow> 'e option" where
  "first_error [] = None"
| "first_error (None # es) = first_error es"
| "first_error (Some e # es) = Some e"

lemma first_error_None [simp]: "first_error es = None \<longleftrightarrow> (\<forall>e \<in> set es. e = None)"
  by (induction es rule: first_error.induct) auto

lemma first_error_cong [fundef_cong]: "es = es' \<Longrightarrow> first_error es = first_error es'"
  by simp

section \<open>Dictionaries\<close>

text \<open>
  \<open>d[k] = v\<close> keeps the position of an old key and appends a new one, which is \<^const>\<open>AList.update\<close>;
  \<open>d.pop(k)\<close> is \<^const>\<open>AList.delete\<close>; \<open>d.get(k)\<close> is \<^const>\<open>map_of\<close>.
\<close>

definition keys :: "('k \<times> 'v) list \<Rightarrow> 'k list" where
  "keys d = map fst d"

lemma set_keys: "set (keys d) = dom (map_of d)"
  by (simp add: keys_def dom_map_of_conv_image_fst)

lemma distinct_keys_update [simp]:
  "distinct (keys (AList.update k v d)) \<longleftrightarrow> distinct (keys d)"
  by (induction d) (auto simp: keys_def update_keys)

lemma map_of_AList_update [simp]: "map_of (AList.update k v d) = (map_of d)(k \<mapsto> v)"
  by (simp add: update_conv')

lemma map_of_AList_delete [simp]: "map_of (AList.delete k d) = (map_of d)(k := None)"
  by (simp add: delete_conv')

section \<open>JSON values\<close>

text \<open>Finite JSON data: the exact types \<open>json.loads\<close> builds, with finite floats only.\<close>

fun json_ok :: "pyv \<Rightarrow> bool" where
  "json_ok VNone = True"
| "json_ok (VBool b) = True"
| "json_ok (VInt i) = True"
| "json_ok (VStr s) = True"
| "json_ok (VFloat f) = (case f of Fin r \<Rightarrow> True | _ \<Rightarrow> False)"
| "json_ok (VList vs) = list_all json_ok vs"
| "json_ok (VDict kvs) = list_all (\<lambda>(k, v). json_ok v) kvs"
| "json_ok (VTuple vs) = False"
| "json_ok (VProxy kvs) = False"
| "json_ok VOpaque = False"

text \<open>The recursive copies: \<open>_freeze\<close> to tuples and mapping proxies, \<open>_thaw\<close> back to lists and dicts.\<close>

fun freeze :: "pyv \<Rightarrow> pyv" where
  "freeze (VDict kvs) = VProxy (map (\<lambda>(k, v). (k, freeze v)) kvs)"
| "freeze (VList vs) = VTuple (map freeze vs)"
| "freeze v = v"

fun thaw :: "pyv \<Rightarrow> pyv" where
  "thaw (VDict kvs) = VDict (map (\<lambda>(k, v). (k, thaw v)) kvs)"
| "thaw (VProxy kvs) = VDict (map (\<lambda>(k, v). (k, thaw v)) kvs)"
| "thaw (VList vs) = VList (map thaw vs)"
| "thaw (VTuple vs) = VList (map thaw vs)"
| "thaw v = v"

definition freeze_bag :: "bag \<Rightarrow> bag" where
  "freeze_bag kvs = map (\<lambda>(k, v). (k, freeze v)) kvs"

definition thaw_bag :: "bag \<Rightarrow> bag" where
  "thaw_bag kvs = map (\<lambda>(k, v). (k, thaw v)) kvs"

text \<open>
  \<open>json.dumps(value, sort_keys=True)\<close> writes the keys of every object in order and keeps
  everything else, so two values have the same text exactly when their \<open>canon\<close> forms are equal.
\<close>

fun canon :: "pyv \<Rightarrow> pyv" where
  "canon (VDict kvs) = VDict (sort_key fst (map (\<lambda>(k, v). (k, canon v)) kvs))"
| "canon (VList vs) = VList (map canon vs)"
| "canon v = v"

definition canon_items :: "bag \<Rightarrow> bag" where
  "canon_items d = map (\<lambda>(k, v). (k, canon v)) d"

fun items :: "pyv \<Rightarrow> bag" where
  "items (VDict d) = d"
| "items (VProxy d) = d"
| "items _ = []"

text \<open>A dict has no key twice; the predicate says so at every level of a value.\<close>

fun dicts_ok :: "pyv \<Rightarrow> bool" where
  "dicts_ok (VDict kvs) = (distinct (map fst kvs) \<and> list_all (\<lambda>(k, v). dicts_ok v) kvs)"
| "dicts_ok (VProxy kvs) = (distinct (map fst kvs) \<and> list_all (\<lambda>(k, v). dicts_ok v) kvs)"
| "dicts_ok (VList vs) = list_all dicts_ok vs"
| "dicts_ok (VTuple vs) = list_all dicts_ok vs"
| "dicts_ok v = True"

section \<open>Text\<close>

definition code :: "char \<Rightarrow> nat" where
  "code c = of_char c"

definition is_digit :: "char \<Rightarrow> bool" where
  "is_digit c \<longleftrightarrow> 48 \<le> code c \<and> code c \<le> 57"

definition is_alnum :: "char \<Rightarrow> bool" where
  "is_alnum c \<longleftrightarrow> is_digit c \<or> (65 \<le> code c \<and> code c \<le> 90) \<or> (97 \<le> code c \<and> code c \<le> 122)"

text \<open>The identifier pattern \<open>[A-Za-z0-9][A-Za-z0-9_.:-]{0,127}\<close>, matched against the whole string.\<close>

definition is_id_char :: "char \<Rightarrow> bool" where
  "is_id_char c \<longleftrightarrow> is_alnum c \<or> c \<in> set ''_.:-''"

definition id_pattern :: "string \<Rightarrow> bool" where
  "id_pattern s \<longleftrightarrow> s \<noteq> [] \<and> length s \<le> 128 \<and> is_alnum (hd s) \<and> list_all is_id_char (tl s)"

text \<open>The digest pattern \<open>[0-9a-f]{64}\<close>.\<close>

definition hex64_pattern :: "string \<Rightarrow> bool" where
  "hex64_pattern s \<longleftrightarrow> length s = 64 \<and> list_all (\<lambda>c. is_digit c \<or> (97 \<le> code c \<and> code c \<le> 102)) s"

text \<open>The code points \<open>str.strip\<close> removes.\<close>

definition is_space :: "char \<Rightarrow> bool" where
  "is_space c \<longleftrightarrow> (9 \<le> code c \<and> code c \<le> 13) \<or> (28 \<le> code c \<and> code c \<le> 32)
     \<or> code c = 133 \<or> code c = 160"

definition strip :: "string \<Rightarrow> string" where
  "strip s = rev (dropWhile is_space (rev (dropWhile is_space s)))"

lemma strip_eq_Nil: "strip s = [] \<longleftrightarrow> list_all is_space s"
proof
  assume "strip s = []"
  then have "\<forall>c \<in> set (dropWhile is_space s). is_space c"
    by (simp add: strip_def dropWhile_eq_Nil_conv)
  then have "dropWhile is_space s = []"
    by (metis hd_dropWhile hd_in_set)
  then show "list_all is_space s" by (simp add: dropWhile_eq_Nil_conv list_all_iff)
next
  assume "list_all is_space s"
  then have "dropWhile is_space s = []" by (simp only: dropWhile_eq_Nil_conv list_all_iff)
  then show "strip s = []" by (simp only: strip_def rev.simps dropWhile.simps)
qed

lemmas text_defs [py_defs] = code_def is_digit_def is_alnum_def is_id_char_def id_pattern_def
  hex64_pattern_def is_space_def

section \<open>Laws of the recursive copies\<close>

lemma freeze_bag_Nil [simp]: "freeze_bag [] = []"
  by (simp add: freeze_bag_def)

lemma map_of_freeze_bag [simp]: "map_of (freeze_bag d) k = map_option freeze (map_of d k)"
  by (induction d) (auto simp: freeze_bag_def)

lemma keys_freeze_bag [simp]: "keys (freeze_bag d) = keys d"
  by (simp add: keys_def freeze_bag_def case_prod_beta comp_def)

lemma thaw_freeze: "json_ok v \<Longrightarrow> thaw (freeze v) = v"
  by (induction v rule: freeze.induct) (fastforce simp: list_all_iff intro: map_idI)+

lemma thaw_json_ok: "json_ok v \<Longrightarrow> thaw v = v"
  by (induction v rule: thaw.induct) (fastforce simp: list_all_iff intro: map_idI)+

lemma thaw_thaw: "thaw (thaw v) = thaw v"
  by (induction v rule: thaw.induct) auto

lemma thaw_freeze_thaw: "thaw (freeze (thaw v)) = thaw v"
  by (induction v rule: thaw.induct) auto

lemma canon_idem: "canon (canon v) = canon v"
proof (induction v rule: canon.induct)
  case (1 kvs)
  let ?m = "map (\<lambda>(k, v). (k, canon v)) kvs"
  have eq: "map (\<lambda>(k, v). (k, canon v)) (sort_key fst ?m) = sort_key fst ?m"
    using 1 by (intro map_idI) auto
  show ?case by (simp add: eq sort_key_id_if_sorted)
qed auto

lemma json_ok_canon: "json_ok (canon v) = json_ok v"
  by (induction v rule: canon.induct) (auto simp: list_all_iff)

lemma thaw_bag_freeze_bag: "json_ok (VDict d) \<Longrightarrow> thaw_bag (freeze_bag d) = d"
  by (auto simp: thaw_bag_def freeze_bag_def list_all_iff intro!: map_idI thaw_freeze)

lemma json_ok_lookup: "json_ok (VDict d) \<Longrightarrow> map_of d k = Some v \<Longrightarrow> json_ok v"
  by (auto simp: list_all_iff dest: map_of_SomeD)

lemma dicts_ok_lookup: "dicts_ok (VDict d) \<Longrightarrow> map_of d k = Some v \<Longrightarrow> dicts_ok v"
  by (auto simp: list_all_iff dest: map_of_SomeD)

section \<open>Sorted dictionaries\<close>

lemma fst_canon_items [simp]: "map fst (canon_items d) = map fst d"
  by (induction d) (auto simp: canon_items_def)

lemma map_of_canon_items [simp]: "map_of (canon_items d) k = map_option canon (map_of d k)"
  by (induction d) (auto simp: canon_items_def)

lemma canon_VDict: "canon (VDict d) = VDict (sort_key fst (canon_items d))"
  by (simp add: canon_items_def)

lemma distinct_fst_sort_key [simp]: "distinct (map fst (sort_key fst d)) \<longleftrightarrow> distinct (map fst d)"
  by (metis distinct_map distinct_sort set_sort)

lemma map_of_sort_key [simp]: "distinct (map fst d) \<Longrightarrow> map_of (sort_key fst d) = map_of d"
  by (simp add: map_of_inject_set)

lemma sort_key_fst_unique:
  assumes "distinct (map fst a)" and "distinct (map fst b)" and "map_of a = map_of b"
  shows "sort_key fst a = sort_key fst b"
proof (rule map_sorted_distinct_set_unique)
  have set: "set a = set b" using assms by (simp add: map_of_inject_set)
  then show "inj_on fst (set (sort_key fst a) \<union> set (sort_key fst b))"
    using assms(2) by (simp add: distinct_map)
  show "set (sort_key fst a) = set (sort_key fst b)" using set by simp
qed (simp_all add: assms)

lemma map_of_canon:
  "distinct (map fst d) \<Longrightarrow> map_of (items (canon (VDict d))) k = map_option canon (map_of d k)"
  by (simp add: canon_VDict del: canon.simps)

text \<open>Two dicts have the same sorted text when the first lists every key with an equal value.\<close>

lemma canon_VDict_eqI:
  assumes "distinct (map fst a)" and "distinct (map fst d)" and "fst ` set d \<subseteq> fst ` set a"
    and fields: "list_all (\<lambda>(k, v). map_option canon (map_of d k) = Some (canon v)) a"
  shows "canon (VDict a) = canon (VDict d)"
proof -
  have "map_of (canon_items a) = map_of (canon_items d)"
  proof
    fix k
    show "map_of (canon_items a) k = map_of (canon_items d) k"
    proof (cases "map_of a k")
      case None
      then have "map_of d k = None" using assms(3) by (metis map_of_eq_None_iff subsetD)
      with None show ?thesis by simp
    next
      case (Some v)
      then have "(k, v) \<in> set a" by (rule map_of_SomeD)
      with fields show ?thesis using Some by (auto simp: list_all_iff)
    qed
  qed
  with assms(1,2) show ?thesis by (simp add: canon_VDict sort_key_fst_unique del: canon.simps)
qed

lemma bind_eq_Some: "Option.bind m f = Some y \<longleftrightarrow> (\<exists>x. m = Some x \<and> f x = Some y)"
  by (cases m) auto

lemma canon_eq_VStr [simp]: "canon v = VStr s \<longleftrightarrow> v = VStr s"
  by (cases v) auto

lemma canon_eq_VNone [simp]: "canon v = VNone \<longleftrightarrow> v = VNone"
  by (cases v) auto

end
