(* ===== verification/Contract_Schema.thy ===== *)
theory Contract_Schema
  imports Py_Prelude
begin

text \<open>
  The schema validator of \<open>src/runtime/contracts.py\<close> (\<open>_json\<close>, \<open>_validate\<close>) and the schema
  tables of \<open>src/schemas/contracts-v1.json\<close> it reads. A schema is a term of the keywords the
  bundled file uses; every node but \<open>anyOf\<close> and \<open>$ref\<close> has a \<open>type\<close> there, so the type is the
  constructor and the other keywords its arguments. A \<open>$ref\<close> is resolved where it stands: the
  constant of the named schema is written in its place.
\<close>

section \<open>Schemas\<close>

datatype kindt = TObject | TArray | TString | TInteger | TNumber | TBoolean | TNull

datatype pattern = PatId | PatHex64

datatype schema =
    SAnyOf "schema list"
  | SObject "(string \<times> schema) list" "string list" "schema option" additional
  | SArray schema bool
  | SString "string option" "string list option" nat "pattern option"
  | SInteger "int option" "int option"
  | SNumber "int option"
  | SBoolean
  | SNull
and additional = AnyField | NoField | FieldSchema schema

fun matches :: "pattern \<Rightarrow> string \<Rightarrow> bool" where
  "matches PatId s = id_pattern s"
| "matches PatHex64 s = hex64_pattern s"

text \<open>One constructor per \<open>raise ContractError\<close>; the path in the message is left out.\<close>

datatype contract_error =
    NotJson
  | UnknownKind
  | NoShape
  | Expected kindt
  | UnsupportedConst
  | UnsupportedValue
  | MissingField
  | UnknownField string
  | DuplicateItems
  | InvalidString
  | BelowMinimum
  | ErrorRequired
  | ErrorForbidden
  | EventDisagrees
  | VoiceDisagrees
  | UnknownRecord
  | ExpectedRecord string
  | CanceledNotBool

section \<open>Validation\<close>

text \<open>\<open>properties.get(key, schema.get("additionalProperties", True))\<close>.\<close>

definition rule_for :: "(string \<times> schema) list \<Rightarrow> additional \<Rightarrow> string \<Rightarrow> additional" where
  "rule_for props addl k = (case map_of props k of Some s \<Rightarrow> FieldSchema s | None \<Rightarrow> addl)"

definition below :: "int option \<Rightarrow> pyv \<Rightarrow> bool" where
  "below mn v = (case mn of None \<Rightarrow> False | Some m \<Rightarrow>
     (case v of VInt i \<Rightarrow> i < m
      | VFloat (Fin r) \<Rightarrow> r < of_int m
      | VFloat NegInf \<Rightarrow> True
      | _ \<Rightarrow> False))"

lemma rule_for_size [termination_simp]:
  "rule_for props addl k = FieldSchema s \<Longrightarrow>
   size s < Suc (size_list (size_prod (\<lambda>x. 0) size) props + (size_option size names + size addl))"
proof -
  assume "rule_for props addl k = FieldSchema s"
  then have "(k, s) \<in> set props \<or> addl = FieldSchema s"
    by (auto simp: rule_for_def dest: map_of_SomeD split: option.splits)
  moreover have "(k, s) \<in> set props \<Longrightarrow> size s \<le> size_list (size_prod (\<lambda>x. 0) size) props"
    by (induction props) auto
  ultimately show ?thesis by auto
qed

fun validate :: "schema \<Rightarrow> pyv \<Rightarrow> contract_error option" where
  "validate (SAnyOf alts) v =
     (if list_ex (\<lambda>s. validate s v = None) alts then None else Some NoShape)"
| "validate (SObject props req names addl) v =
     (case v of
        VDict kvs \<Rightarrow>
          (if \<not> set req \<subseteq> set (map fst kvs) then Some MissingField
           else first_error (map (\<lambda>(k, x). first_error
             [case names of None \<Rightarrow> None | Some s \<Rightarrow> validate s (VStr k),
              case rule_for props addl k of
                NoField \<Rightarrow> Some (UnknownField k)
              | FieldSchema s \<Rightarrow> validate s x
              | AnyField \<Rightarrow> None]) kvs))
      | _ \<Rightarrow> Some (Expected TObject))"
| "validate (SArray item unique) v =
     (case v of
        VList vs \<Rightarrow>
          first_error (map (validate item) vs @
            [if unique \<and> \<not> distinct (map canon vs) then Some DuplicateItems else None])
      | _ \<Rightarrow> Some (Expected TArray))"
| "validate (SString const enum minlen pat) v =
     (case v of
        VStr s \<Rightarrow>
          (if (case const of None \<Rightarrow> False | Some c \<Rightarrow> s \<noteq> c) then Some UnsupportedConst
           else if (case enum of None \<Rightarrow> False | Some es \<Rightarrow> s \<notin> set es) then Some UnsupportedValue
           else if length s < minlen \<or> (case pat of None \<Rightarrow> False | Some p \<Rightarrow> \<not> matches p s)
             then Some InvalidString
           else None)
      | _ \<Rightarrow> Some (Expected TString))"
| "validate (SInteger const mn) v =
     (case v of
        VInt i \<Rightarrow>
          (if (case const of None \<Rightarrow> False | Some c \<Rightarrow> i \<noteq> c) then Some UnsupportedConst
           else if below mn v then Some BelowMinimum else None)
      | _ \<Rightarrow> Some (Expected TInteger))"
| "validate (SNumber mn) v =
     (if (case v of VInt _ \<Rightarrow> True | VFloat _ \<Rightarrow> True | _ \<Rightarrow> False)
      then (if below mn v then Some BelowMinimum else None)
      else Some (Expected TNumber))"
| "validate SBoolean v = (case v of VBool _ \<Rightarrow> None | _ \<Rightarrow> Some (Expected TBoolean))"
| "validate SNull v = (if v = VNone then None else Some (Expected TNull))"

section \<open>The schema tables\<close>

text \<open>
  \<open>closed_object\<close> is an object schema whose \<open>required\<close> list names every property and whose
  \<open>additionalProperties\<close> is \<open>false\<close>, the shape of every record of the file.
\<close>

definition closed_object :: "(string \<times> schema) list \<Rightarrow> schema" where
  "closed_object props = SObject props (map fst props) None NoField"

definition const_string :: "string \<Rightarrow> schema" where
  "const_string c = SString (Some c) None 0 None"

definition enum_string :: "string list \<Rightarrow> schema" where
  "enum_string es = SString None (Some es) 0 None"

definition schema_id :: schema where
  "schema_id = SString None None 0 (Some PatId)"

definition schema_bag :: schema where
  "schema_bag = SObject [] [] None AnyField"

definition schema_context :: schema where
  "schema_context = closed_object
    [(''session_id'', schema_id),
     (''profile_id'', schema_id),
     (''lane_id'', SAnyOf [schema_id, SNull]),
     (''agent_id'', SAnyOf [schema_id, SNull]),
     (''source'', enum_string [''voice'', ''panel'', ''keyboard'', ''terminal'', ''mcp'', ''test'', ''runtime'']),
     (''provider_id'', SAnyOf [schema_id, SNull]),
     (''model_version'', SAnyOf [SString None None 1 None, SNull]),
     (''provenance'', SString None None 1 None),
     (''sensitivity'', enum_string [''public'', ''private'', ''secret''])]"

definition schema_command :: schema where
  "schema_command = closed_object
    [(''kind'', const_string ''command''),
     (''version'', SInteger (Some 1) None),
     (''command_id'', schema_id),
     (''correlation_id'', schema_id),
     (''capability_id'', schema_id),
     (''catalog_version'', SInteger None (Some 1)),
     (''requested_at_ms'', SInteger None (Some 0)),
     (''arguments'', schema_bag),
     (''context'', schema_context)]"

definition schema_error :: schema where
  "schema_error = closed_object
    [(''kind'', const_string ''error''),
     (''version'', SInteger (Some 1) None),
     (''code'', schema_id),
     (''message'', SString None None 1 None),
     (''retryable'', SBoolean)]"

definition schema_result :: schema where
  "schema_result = closed_object
    [(''kind'', const_string ''result''),
     (''version'', SInteger (Some 1) None),
     (''result_id'', schema_id),
     (''command_id'', schema_id),
     (''correlation_id'', schema_id),
     (''status'', enum_string [''success'', ''blocked'', ''failed'', ''canceled'', ''uncertain'']),
     (''output'', schema_bag),
     (''error'', SAnyOf [schema_error, SNull])]"

definition schema_event :: schema where
  "schema_event = closed_object
    [(''kind'', const_string ''event''),
     (''version'', SInteger (Some 1) None),
     (''event_id'', schema_id),
     (''command_id'', schema_id),
     (''correlation_id'', schema_id),
     (''event_type'', enum_string [''command.started'', ''command.finished'']),
     (''timestamp_ms'', SInteger None (Some 0)),
     (''status'', enum_string [''success'', ''blocked'', ''failed'', ''canceled'', ''uncertain'', ''pending'']),
     (''capability_id'', schema_id),
     (''catalog_version'', SInteger None (Some 1)),
     (''policy_revision'', SInteger None (Some 1)),
     (''duration_ms'', SNumber (Some 0)),
     (''context'', schema_context),
     (''details'', schema_bag)]"

definition schema_capability :: schema where
  "schema_capability = closed_object
    [(''kind'', const_string ''capability''),
     (''version'', SInteger (Some 1) None),
     (''capability_id'', schema_id),
     (''catalog_version'', SInteger None (Some 1)),
     (''enabled'', SBoolean),
     (''risk'', enum_string [''safe'', ''confirm'', ''blocked'']),
     (''arguments'', SObject [] [] (Some schema_id) (FieldSchema (enum_string [''string'', ''integer'', ''number'', ''boolean'']))),
     (''provenance'', SString None None 1 None)]"

definition schema_policy :: schema where
  "schema_policy = closed_object
    [(''kind'', const_string ''policy''),
     (''version'', SInteger (Some 1) None),
     (''policy_id'', schema_id),
     (''revision'', SInteger None (Some 1)),
     (''enabled'', SBoolean),
     (''allowed_capabilities'', SArray schema_id True),
     (''confirmation_required'', SArray schema_id True)]"

definition schema_profile :: schema where
  "schema_profile = closed_object
    [(''kind'', const_string ''profile''),
     (''version'', SInteger (Some 1) None),
     (''profile_id'', schema_id),
     (''policy_id'', schema_id),
     (''enabled'', SBoolean),
     (''voice_enabled'', SBoolean)]"

definition schema_provider :: schema where
  "schema_provider = closed_object
    [(''kind'', const_string ''provider''),
     (''version'', SInteger (Some 1) None),
     (''provider_id'', schema_id),
     (''placement'', enum_string [''vm'', ''host'']),
     (''model_version'', SString None None 1 None),
     (''enabled'', SBoolean),
     (''health'', enum_string [''healthy'', ''degraded'', ''unavailable'']),
     (''capabilities'', SArray schema_id True)]"

definition schema_voice_observation :: schema where
  "schema_voice_observation = closed_object
    [(''kind'', const_string ''voice-observation''),
     (''version'', SInteger (Some 1) None),
     (''event_id'', schema_id),
     (''session_id'', schema_id),
     (''activation_id'', schema_id),
     (''correlation_id'', schema_id),
     (''timestamp_ms'', SInteger None (Some 0)),
     (''context'', schema_context),
     (''phase'', enum_string [''capture.started'', ''capture.stopped'', ''capture.canceled'', ''transcription.started'', ''transcription.finished'', ''owner.faulted'']),
     (''status'', enum_string [''recording'', ''processing'', ''idle'', ''success'', ''failed'', ''canceled'', ''uncertain'']),
     (''code'', enum_string [''capture.started'', ''capture.silence'', ''capture.max-duration'', ''capture.initial-silence'', ''capture.invalid-frame'', ''capture.device-error'', ''capture.canceled'', ''transcription.started'', ''transcription.ok'', ''transcription.failed'', ''transcription.canceled'', ''transcription.cleanup-unproven'', ''owner.cleanup-unproven'', ''journal.unavailable'', ''context.stale''])]"

definition schema_interaction :: schema where
  "schema_interaction = closed_object
    [(''kind'', const_string ''interaction''),
     (''version'', SInteger (Some 1) None),
     (''event_id'', schema_id),
     (''interaction_id'', schema_id),
     (''correlation_id'', schema_id),
     (''timestamp_ms'', SInteger None (Some 0)),
     (''context'', schema_context),
     (''phase'', enum_string [''voice.preview'', ''voice.confirmation'', ''voice.clarification'', ''voice.blocked'']),
     (''details'', schema_bag)]"

lemmas schema_defs = schema_id_def
  schema_bag_def
  schema_context_def
  schema_command_def
  schema_error_def
  schema_result_def
  schema_event_def
  schema_capability_def
  schema_policy_def
  schema_profile_def
  schema_provider_def
  schema_voice_observation_def
  schema_interaction_def

section \<open>What validation accepts\<close>

lemma validate_const_string [simp]: "validate (const_string c) v = None \<longleftrightarrow> v = VStr c"
  by (auto simp: const_string_def split: pyv.splits if_splits)

lemma validate_enum_string [simp]:
  "validate (enum_string es) v = None \<longleftrightarrow> (\<exists>s. v = VStr s \<and> s \<in> set es)"
  by (auto simp: enum_string_def split: pyv.splits if_splits)

lemma validate_min_string [simp]:
  "validate (SString None None n None) v = None \<longleftrightarrow> (\<exists>s. v = VStr s \<and> n \<le> length s)"
  by (auto split: pyv.splits if_splits)

lemma validate_id [simp]: "validate schema_id v = None \<longleftrightarrow> (\<exists>s. v = VStr s \<and> id_pattern s)"
  by (auto simp: schema_id_def split: pyv.splits if_splits)

lemma validate_integer [simp]:
  "validate (SInteger c m) v = None \<longleftrightarrow>
     (\<exists>i. v = VInt i \<and> (\<forall>x. c = Some x \<longrightarrow> i = x) \<and> (\<forall>x. m = Some x \<longrightarrow> x \<le> i))"
  by (auto simp: below_def split: pyv.splits if_splits option.splits)

lemma validate_boolean [simp]: "validate SBoolean v = None \<longleftrightarrow> (\<exists>b. v = VBool b)"
  by (auto split: pyv.splits)

lemma validate_null [simp]: "validate SNull v = None \<longleftrightarrow> v = VNone"
  by auto

lemma validate_bag [simp]: "validate schema_bag v = None \<longleftrightarrow> (\<exists>kvs. v = VDict kvs)"
  by (auto simp: schema_bag_def rule_for_def split: pyv.splits)

lemma validate_anyOf [simp]:
  "validate (SAnyOf alts) v = None \<longleftrightarrow> (\<exists>s \<in> set alts. validate s v = None)"
  by (auto simp: list_ex_iff)

text \<open>A closed object: every property present, every item valid, and no other key.\<close>

lemma validate_closed_object:
  "validate (closed_object props) (VDict kvs) = None \<longleftrightarrow>
    fst ` set props \<subseteq> fst ` set kvs \<and>
    (\<forall>(k, x) \<in> set kvs. \<exists>s. map_of props k = Some s \<and> validate s x = None)"
proof -
  have field: "(case rule_for props NoField k of NoField \<Rightarrow> Some (UnknownField k)
      | FieldSchema s \<Rightarrow> validate s x | AnyField \<Rightarrow> None) = None
    \<longleftrightarrow> (\<exists>s. map_of props k = Some s \<and> validate s x = None)" for k x
    by (simp add: rule_for_def split: option.split)
  show ?thesis
    by (simp add: closed_object_def case_prod_beta field image_subset_iff)
qed

lemma validate_closed_object_VDict: "validate (closed_object props) v = None \<Longrightarrow> \<exists>kvs. v = VDict kvs"
  by (auto simp: closed_object_def split: pyv.splits)

lemma closed_object_field:
  assumes "validate (closed_object props) (VDict kvs) = None" and "map_of props k = Some s"
  shows "\<exists>x. map_of kvs k = Some x \<and> validate s x = None"
proof -
  have "k \<in> fst ` set kvs"
    using assms by (force simp: validate_closed_object dest: map_of_SomeD)
  then obtain x where x: "map_of kvs k = Some x"
    by (metis map_of_eq_None_iff not_None_eq)
  then show ?thesis
    using assms by (fastforce simp: validate_closed_object dest: map_of_SomeD)
qed

declare validate.simps [simp del]

lemma closed_object_keys:
  "validate (closed_object props) (VDict d) = None \<Longrightarrow> fst ` set d \<subseteq> fst ` set props"
proof -
  assume "validate (closed_object props) (VDict d) = None"
  then have "\<forall>(k, x) \<in> set d. map_of props k \<noteq> None" by (auto simp: validate_closed_object)
  then show ?thesis by (auto simp: map_of_eq_None_iff)
qed

lemma closed_object_fields:
  assumes "distinct (map fst props)" and "validate (closed_object props) (VDict d) = None"
  shows "list_all (\<lambda>(k, s). \<exists>x. map_of d k = Some x \<and> validate s x = None) props"
  using assms closed_object_field by (auto simp: list_all_iff)

lemma validate_number: "validate (SNumber m) v = None \<Longrightarrow> (\<exists>i. v = VInt i) \<or> (\<exists>f. v = VFloat f)"
  by (auto simp: validate.simps split: pyv.splits if_splits)

lemma validate_canon: "validate s (canon v) = None \<longleftrightarrow> validate s v = None"
proof (induction s v rule: validate.induct)
  case (1 alts v)
  then show ?case by simp
next
  case (2 props req names addl v)
  show ?case
  proof (cases v)
    case (VDict kvs)
    then show ?thesis using 2
      by (auto simp: validate.simps case_prod_beta image_comp comp_def split: additional.splits option.splits)
  qed (simp_all add: validate.simps)
next
  case (3 item unique v)
  then show ?case
    by (cases v) (auto simp: validate.simps canon_idem comp_def)
next
  case (4 c e m p v)
  show ?case by (cases v) (simp_all add: validate.simps)
next
  case (5 c m v)
  show ?case by (cases v) simp_all
next
  case (6 m v)
  show ?case by (cases v) (simp_all add: validate.simps below_def)
next
  case (7 v)
  show ?case by (cases v) simp_all
next
  case (8 v)
  show ?case by (cases v) simp_all
qed

end
