(* ===== verification/Contracts.thy ===== *)
theory Contracts
  imports Contract_Schema
begin

text \<open>
  The wire records of \<open>src/runtime/contracts.py\<close> and their codecs. A dataclass is a
  \<open>record\<close> with the fields of the source, each prefixed by a short tag of its class, since field
  names are global here; \<open>rec\<close> is the union of the ten record classes (\<open>_TYPES\<close>). A \<open>Mapping\<close> field
  is the list of its items. \<open>thaw_rec\<close> is \<open>_thaw\<close> of a record, \<open>decode\<close> and \<open>encode\<close> the two codecs,
  \<open>snapshot\<close> is \<open>decode(encode(value))\<close>, and \<open>wire\<close> the sorted JSON text the journals store.
\<close>

section \<open>Records\<close>

record command =
  cmd_version :: int
  cmd_command_id :: string
  cmd_correlation_id :: string
  cmd_capability_id :: string
  cmd_catalog_version :: int
  cmd_requested_at_ms :: int
  cmd_arguments :: bag
  cmd_context :: bag

record error =
  err_version :: int
  err_code :: string
  err_message :: string
  err_retryable :: bool

record result =
  res_version :: int
  res_result_id :: string
  res_command_id :: string
  res_correlation_id :: string
  res_status :: string
  res_output :: bag
  res_error :: "error option"

record event =
  evt_version :: int
  evt_event_id :: string
  evt_command_id :: string
  evt_correlation_id :: string
  evt_event_type :: string
  evt_timestamp_ms :: int
  evt_status :: string
  evt_capability_id :: string
  evt_catalog_version :: int
  evt_policy_revision :: int
  evt_duration_ms :: pyv
  evt_context :: bag
  evt_details :: bag

record capability =
  cap_version :: int
  cap_capability_id :: string
  cap_catalog_version :: int
  cap_enabled :: bool
  cap_risk :: string
  cap_arguments :: bag
  cap_provenance :: string

record interaction =
  ia_version :: int
  ia_event_id :: string
  ia_interaction_id :: string
  ia_correlation_id :: string
  ia_timestamp_ms :: int
  ia_context :: bag
  ia_phase :: string
  ia_details :: bag

record voice_observation =
  vo_version :: int
  vo_event_id :: string
  vo_session_id :: string
  vo_activation_id :: string
  vo_correlation_id :: string
  vo_timestamp_ms :: int
  vo_context :: bag
  vo_phase :: string
  vo_status :: string
  vo_code :: string

record policy =
  pol_version :: int
  pol_policy_id :: string
  pol_revision :: int
  pol_enabled :: bool
  pol_allowed_capabilities :: "string list"
  pol_confirmation_required :: "string list"

record profile =
  pro_version :: int
  pro_profile_id :: string
  pro_policy_id :: string
  pro_enabled :: bool
  pro_voice_enabled :: bool

record provider =
  prv_version :: int
  prv_provider_id :: string
  prv_placement :: string
  prv_model_version :: string
  prv_enabled :: bool
  prv_health :: string
  prv_capabilities :: "string list"

datatype rec =
    RCommand command
  | RError error
  | RResult result
  | REvent event
  | RCapability capability
  | RInteraction interaction
  | RVoiceObservation voice_observation
  | RPolicy policy
  | RProfile profile
  | RProvider provider

fun kind_of :: "rec \<Rightarrow> string" where
  "kind_of (RCommand r) = ''command''"
| "kind_of (RError r) = ''error''"
| "kind_of (RResult r) = ''result''"
| "kind_of (REvent r) = ''event''"
| "kind_of (RCapability r) = ''capability''"
| "kind_of (RInteraction r) = ''interaction''"
| "kind_of (RVoiceObservation r) = ''voice-observation''"
| "kind_of (RPolicy r) = ''policy''"
| "kind_of (RProfile r) = ''profile''"
| "kind_of (RProvider r) = ''provider''"

section \<open>From records to JSON\<close>

definition thaw_error :: "error \<Rightarrow> pyv" where
  "thaw_error e = VDict
    [(''kind'', VStr ''error''), (''version'', VInt (err_version e)), (''code'', VStr (err_code e)),
     (''message'', VStr (err_message e)), (''retryable'', VBool (err_retryable e))]"

definition thaw_error_opt :: "error option \<Rightarrow> pyv" where
  "thaw_error_opt e = (case e of None \<Rightarrow> VNone | Some x \<Rightarrow> thaw_error x)"

fun thaw_rec :: "rec \<Rightarrow> pyv" where
  "thaw_rec (RCommand r) = VDict
     [(''kind'', VStr ''command''), (''version'', VInt (cmd_version r)),
      (''command_id'', VStr (cmd_command_id r)),
      (''correlation_id'', VStr (cmd_correlation_id r)),
      (''capability_id'', VStr (cmd_capability_id r)),
      (''catalog_version'', VInt (cmd_catalog_version r)),
      (''requested_at_ms'', VInt (cmd_requested_at_ms r)),
      (''arguments'', VDict (thaw_bag (cmd_arguments r))),
      (''context'', VDict (thaw_bag (cmd_context r)))]"
| "thaw_rec (RError r) = thaw_error r"
| "thaw_rec (RResult r) = VDict
     [(''kind'', VStr ''result''), (''version'', VInt (res_version r)),
      (''result_id'', VStr (res_result_id r)), (''command_id'', VStr (res_command_id r)),
      (''correlation_id'', VStr (res_correlation_id r)), (''status'', VStr (res_status r)),
      (''output'', VDict (thaw_bag (res_output r))), (''error'', thaw_error_opt (res_error r))]"
| "thaw_rec (REvent r) = VDict
     [(''kind'', VStr ''event''), (''version'', VInt (evt_version r)),
      (''event_id'', VStr (evt_event_id r)), (''command_id'', VStr (evt_command_id r)),
      (''correlation_id'', VStr (evt_correlation_id r)),
      (''event_type'', VStr (evt_event_type r)), (''timestamp_ms'', VInt (evt_timestamp_ms r)),
      (''status'', VStr (evt_status r)), (''capability_id'', VStr (evt_capability_id r)),
      (''catalog_version'', VInt (evt_catalog_version r)),
      (''policy_revision'', VInt (evt_policy_revision r)),
      (''duration_ms'', evt_duration_ms r), (''context'', VDict (thaw_bag (evt_context r))),
      (''details'', VDict (thaw_bag (evt_details r)))]"
| "thaw_rec (RCapability r) = VDict
     [(''kind'', VStr ''capability''), (''version'', VInt (cap_version r)),
      (''capability_id'', VStr (cap_capability_id r)),
      (''catalog_version'', VInt (cap_catalog_version r)),
      (''enabled'', VBool (cap_enabled r)), (''risk'', VStr (cap_risk r)),
      (''arguments'', VDict (thaw_bag (cap_arguments r))),
      (''provenance'', VStr (cap_provenance r))]"
| "thaw_rec (RInteraction r) = VDict
     [(''kind'', VStr ''interaction''), (''version'', VInt (ia_version r)),
      (''event_id'', VStr (ia_event_id r)), (''interaction_id'', VStr (ia_interaction_id r)),
      (''correlation_id'', VStr (ia_correlation_id r)),
      (''timestamp_ms'', VInt (ia_timestamp_ms r)),
      (''context'', VDict (thaw_bag (ia_context r))), (''phase'', VStr (ia_phase r)),
      (''details'', VDict (thaw_bag (ia_details r)))]"
| "thaw_rec (RVoiceObservation r) = VDict
     [(''kind'', VStr ''voice-observation''), (''version'', VInt (vo_version r)),
      (''event_id'', VStr (vo_event_id r)), (''session_id'', VStr (vo_session_id r)),
      (''activation_id'', VStr (vo_activation_id r)),
      (''correlation_id'', VStr (vo_correlation_id r)),
      (''timestamp_ms'', VInt (vo_timestamp_ms r)),
      (''context'', VDict (thaw_bag (vo_context r))), (''phase'', VStr (vo_phase r)),
      (''status'', VStr (vo_status r)), (''code'', VStr (vo_code r))]"
| "thaw_rec (RPolicy r) = VDict
     [(''kind'', VStr ''policy''), (''version'', VInt (pol_version r)),
      (''policy_id'', VStr (pol_policy_id r)), (''revision'', VInt (pol_revision r)),
      (''enabled'', VBool (pol_enabled r)),
      (''allowed_capabilities'', VList (map VStr (pol_allowed_capabilities r))),
      (''confirmation_required'', VList (map VStr (pol_confirmation_required r)))]"
| "thaw_rec (RProfile r) = VDict
     [(''kind'', VStr ''profile''), (''version'', VInt (pro_version r)),
      (''profile_id'', VStr (pro_profile_id r)), (''policy_id'', VStr (pro_policy_id r)),
      (''enabled'', VBool (pro_enabled r)), (''voice_enabled'', VBool (pro_voice_enabled r))]"
| "thaw_rec (RProvider r) = VDict
     [(''kind'', VStr ''provider''), (''version'', VInt (prv_version r)),
      (''provider_id'', VStr (prv_provider_id r)), (''placement'', VStr (prv_placement r)),
      (''model_version'', VStr (prv_model_version r)), (''enabled'', VBool (prv_enabled r)),
      (''health'', VStr (prv_health r)),
      (''capabilities'', VList (map VStr (prv_capabilities r)))]"

section \<open>From JSON to records\<close>

text \<open>
  The constructor call \<open>_TYPES[kind](**values)\<close> with frozen field values. A getter that finds
  another shape answers \<open>None\<close>; the validation before it rules that out
  (\<open>build_total\<close> below).
\<close>

definition get_int :: "bag \<Rightarrow> string \<Rightarrow> int option" where
  "get_int d k = (case map_of d k of Some (VInt i) \<Rightarrow> Some i | _ \<Rightarrow> None)"

definition get_str :: "bag \<Rightarrow> string \<Rightarrow> string option" where
  "get_str d k = (case map_of d k of Some (VStr s) \<Rightarrow> Some s | _ \<Rightarrow> None)"

definition get_bool :: "bag \<Rightarrow> string \<Rightarrow> bool option" where
  "get_bool d k = (case map_of d k of Some (VBool b) \<Rightarrow> Some b | _ \<Rightarrow> None)"

definition get_bag :: "bag \<Rightarrow> string \<Rightarrow> bag option" where
  "get_bag d k = (case map_of d k of Some (VDict kvs) \<Rightarrow> Some (freeze_bag kvs) | _ \<Rightarrow> None)"

definition get_num :: "bag \<Rightarrow> string \<Rightarrow> pyv option" where
  "get_num d k = (case map_of d k of Some (VInt i) \<Rightarrow> Some (VInt i)
     | Some (VFloat f) \<Rightarrow> Some (VFloat f) | _ \<Rightarrow> None)"

fun strs_of :: "pyv list \<Rightarrow> string list option" where
  "strs_of [] = Some []"
| "strs_of (VStr s # vs) = map_option ((#) s) (strs_of vs)"
| "strs_of (_ # vs) = None"

definition get_strs :: "bag \<Rightarrow> string \<Rightarrow> string list option" where
  "get_strs d k = (case map_of d k of Some (VList vs) \<Rightarrow> strs_of vs | _ \<Rightarrow> None)"

definition mk_error :: "bag \<Rightarrow> error option" where
  "mk_error d = do {
       x_version \<leftarrow> get_int d ''version'';
       x_code \<leftarrow> get_str d ''code'';
       x_message \<leftarrow> get_str d ''message'';
       x_retryable \<leftarrow> get_bool d ''retryable'';
       Some \<lparr>err_version = x_version, err_code = x_code, err_message = x_message,
           err_retryable = x_retryable\<rparr> }"

text \<open>
  The field \<open>error\<close> of a result: \<open>None\<close>, or the record \<open>decode(payload["error"])\<close> builds. That
  payload has passed the error schema, so the inner \<open>decode\<close> can only build an error record
  (\<open>decode_nested_error\<close> below).
\<close>

definition get_error :: "bag \<Rightarrow> string \<Rightarrow> error option option" where
  "get_error d k = (case map_of d k of
     Some VNone \<Rightarrow> Some None
   | Some (VDict e) \<Rightarrow> map_option Some (mk_error e)
   | _ \<Rightarrow> None)"

definition mk_command :: "bag \<Rightarrow> command option" where
  "mk_command d = do {
       x_version \<leftarrow> get_int d ''version'';
       x_command_id \<leftarrow> get_str d ''command_id'';
       x_correlation_id \<leftarrow> get_str d ''correlation_id'';
       x_capability_id \<leftarrow> get_str d ''capability_id'';
       x_catalog_version \<leftarrow> get_int d ''catalog_version'';
       x_requested_at_ms \<leftarrow> get_int d ''requested_at_ms'';
       x_arguments \<leftarrow> get_bag d ''arguments'';
       x_context \<leftarrow> get_bag d ''context'';
       Some \<lparr>cmd_version = x_version, cmd_command_id = x_command_id,
           cmd_correlation_id = x_correlation_id, cmd_capability_id = x_capability_id,
           cmd_catalog_version = x_catalog_version, cmd_requested_at_ms = x_requested_at_ms,
           cmd_arguments = x_arguments, cmd_context = x_context\<rparr> }"

definition mk_result :: "bag \<Rightarrow> result option" where
  "mk_result d = do {
       x_version \<leftarrow> get_int d ''version'';
       x_result_id \<leftarrow> get_str d ''result_id'';
       x_command_id \<leftarrow> get_str d ''command_id'';
       x_correlation_id \<leftarrow> get_str d ''correlation_id'';
       x_status \<leftarrow> get_str d ''status'';
       x_output \<leftarrow> get_bag d ''output'';
       x_error \<leftarrow> get_error d ''error'';
       Some \<lparr>res_version = x_version, res_result_id = x_result_id, res_command_id = x_command_id,
           res_correlation_id = x_correlation_id, res_status = x_status, res_output = x_output,
           res_error = x_error\<rparr> }"

definition mk_event :: "bag \<Rightarrow> event option" where
  "mk_event d = do {
       x_version \<leftarrow> get_int d ''version'';
       x_event_id \<leftarrow> get_str d ''event_id'';
       x_command_id \<leftarrow> get_str d ''command_id'';
       x_correlation_id \<leftarrow> get_str d ''correlation_id'';
       x_event_type \<leftarrow> get_str d ''event_type'';
       x_timestamp_ms \<leftarrow> get_int d ''timestamp_ms'';
       x_status \<leftarrow> get_str d ''status'';
       x_capability_id \<leftarrow> get_str d ''capability_id'';
       x_catalog_version \<leftarrow> get_int d ''catalog_version'';
       x_policy_revision \<leftarrow> get_int d ''policy_revision'';
       x_duration_ms \<leftarrow> get_num d ''duration_ms'';
       x_context \<leftarrow> get_bag d ''context'';
       x_details \<leftarrow> get_bag d ''details'';
       Some \<lparr>evt_version = x_version, evt_event_id = x_event_id, evt_command_id = x_command_id,
           evt_correlation_id = x_correlation_id, evt_event_type = x_event_type,
           evt_timestamp_ms = x_timestamp_ms, evt_status = x_status,
           evt_capability_id = x_capability_id, evt_catalog_version = x_catalog_version,
           evt_policy_revision = x_policy_revision, evt_duration_ms = x_duration_ms,
           evt_context = x_context, evt_details = x_details\<rparr> }"

definition mk_capability :: "bag \<Rightarrow> capability option" where
  "mk_capability d = do {
       x_version \<leftarrow> get_int d ''version'';
       x_capability_id \<leftarrow> get_str d ''capability_id'';
       x_catalog_version \<leftarrow> get_int d ''catalog_version'';
       x_enabled \<leftarrow> get_bool d ''enabled'';
       x_risk \<leftarrow> get_str d ''risk'';
       x_arguments \<leftarrow> get_bag d ''arguments'';
       x_provenance \<leftarrow> get_str d ''provenance'';
       Some \<lparr>cap_version = x_version, cap_capability_id = x_capability_id,
           cap_catalog_version = x_catalog_version, cap_enabled = x_enabled, cap_risk = x_risk,
           cap_arguments = x_arguments, cap_provenance = x_provenance\<rparr> }"

definition mk_interaction :: "bag \<Rightarrow> interaction option" where
  "mk_interaction d = do {
       x_version \<leftarrow> get_int d ''version'';
       x_event_id \<leftarrow> get_str d ''event_id'';
       x_interaction_id \<leftarrow> get_str d ''interaction_id'';
       x_correlation_id \<leftarrow> get_str d ''correlation_id'';
       x_timestamp_ms \<leftarrow> get_int d ''timestamp_ms'';
       x_context \<leftarrow> get_bag d ''context'';
       x_phase \<leftarrow> get_str d ''phase'';
       x_details \<leftarrow> get_bag d ''details'';
       Some \<lparr>ia_version = x_version, ia_event_id = x_event_id,
           ia_interaction_id = x_interaction_id, ia_correlation_id = x_correlation_id,
           ia_timestamp_ms = x_timestamp_ms, ia_context = x_context, ia_phase = x_phase,
           ia_details = x_details\<rparr> }"

definition mk_voice_observation :: "bag \<Rightarrow> voice_observation option" where
  "mk_voice_observation d = do {
       x_version \<leftarrow> get_int d ''version'';
       x_event_id \<leftarrow> get_str d ''event_id'';
       x_session_id \<leftarrow> get_str d ''session_id'';
       x_activation_id \<leftarrow> get_str d ''activation_id'';
       x_correlation_id \<leftarrow> get_str d ''correlation_id'';
       x_timestamp_ms \<leftarrow> get_int d ''timestamp_ms'';
       x_context \<leftarrow> get_bag d ''context'';
       x_phase \<leftarrow> get_str d ''phase'';
       x_status \<leftarrow> get_str d ''status'';
       x_code \<leftarrow> get_str d ''code'';
       Some \<lparr>vo_version = x_version, vo_event_id = x_event_id, vo_session_id = x_session_id,
           vo_activation_id = x_activation_id, vo_correlation_id = x_correlation_id,
           vo_timestamp_ms = x_timestamp_ms, vo_context = x_context, vo_phase = x_phase,
           vo_status = x_status, vo_code = x_code\<rparr> }"

definition mk_policy :: "bag \<Rightarrow> policy option" where
  "mk_policy d = do {
       x_version \<leftarrow> get_int d ''version'';
       x_policy_id \<leftarrow> get_str d ''policy_id'';
       x_revision \<leftarrow> get_int d ''revision'';
       x_enabled \<leftarrow> get_bool d ''enabled'';
       x_allowed_capabilities \<leftarrow> get_strs d ''allowed_capabilities'';
       x_confirmation_required \<leftarrow> get_strs d ''confirmation_required'';
       Some \<lparr>pol_version = x_version, pol_policy_id = x_policy_id, pol_revision = x_revision,
           pol_enabled = x_enabled, pol_allowed_capabilities = x_allowed_capabilities,
           pol_confirmation_required = x_confirmation_required\<rparr> }"

definition mk_profile :: "bag \<Rightarrow> profile option" where
  "mk_profile d = do {
       x_version \<leftarrow> get_int d ''version'';
       x_profile_id \<leftarrow> get_str d ''profile_id'';
       x_policy_id \<leftarrow> get_str d ''policy_id'';
       x_enabled \<leftarrow> get_bool d ''enabled'';
       x_voice_enabled \<leftarrow> get_bool d ''voice_enabled'';
       Some \<lparr>pro_version = x_version, pro_profile_id = x_profile_id, pro_policy_id = x_policy_id,
           pro_enabled = x_enabled, pro_voice_enabled = x_voice_enabled\<rparr> }"

definition mk_provider :: "bag \<Rightarrow> provider option" where
  "mk_provider d = do {
       x_version \<leftarrow> get_int d ''version'';
       x_provider_id \<leftarrow> get_str d ''provider_id'';
       x_placement \<leftarrow> get_str d ''placement'';
       x_model_version \<leftarrow> get_str d ''model_version'';
       x_enabled \<leftarrow> get_bool d ''enabled'';
       x_health \<leftarrow> get_str d ''health'';
       x_capabilities \<leftarrow> get_strs d ''capabilities'';
       Some \<lparr>prv_version = x_version, prv_provider_id = x_provider_id,
           prv_placement = x_placement, prv_model_version = x_model_version,
           prv_enabled = x_enabled, prv_health = x_health, prv_capabilities = x_capabilities\<rparr> }"

definition build :: "string \<Rightarrow> bag \<Rightarrow> rec option" where
  "build kind d =
    (if kind = ''command'' then map_option RCommand (mk_command d)
     else if kind = ''error'' then map_option RError (mk_error d)
     else if kind = ''result'' then map_option RResult (mk_result d)
     else if kind = ''event'' then map_option REvent (mk_event d)
     else if kind = ''capability'' then map_option RCapability (mk_capability d)
     else if kind = ''interaction'' then map_option RInteraction (mk_interaction d)
     else if kind = ''voice-observation'' then map_option RVoiceObservation (mk_voice_observation d)
     else if kind = ''policy'' then map_option RPolicy (mk_policy d)
     else if kind = ''profile'' then map_option RProfile (mk_profile d)
     else if kind = ''provider'' then map_option RProvider (mk_provider d)
     else None)"

definition record_schemas :: "(string \<times> schema) list" where
  "record_schemas =
    [(''command'', schema_command),
     (''error'', schema_error),
     (''result'', schema_result),
     (''event'', schema_event),
     (''capability'', schema_capability),
     (''interaction'', schema_interaction),
     (''voice-observation'', schema_voice_observation),
     (''policy'', schema_policy),
     (''profile'', schema_profile),
     (''provider'', schema_provider)]"

text \<open>The checks across fields that follow the schema, per record kind.\<close>

definition voice_statuses :: "string \<Rightarrow> string list" where
  "voice_statuses phase =
    (if phase = ''capture.started'' then [''recording'']
     else if phase = ''capture.stopped'' then [''idle'', ''processing'', ''failed'']
     else if phase = ''capture.canceled'' then [''canceled'', ''failed'']
     else if phase = ''transcription.started'' then [''processing'']
     else if phase = ''transcription.finished''
       then [''success'', ''failed'', ''canceled'', ''uncertain'']
     else if phase = ''owner.faulted'' then [''uncertain'']
     else [])"

definition fields_agree :: "string \<Rightarrow> bag \<Rightarrow> contract_error option" where
  "fields_agree kind d =
    (if kind = ''result'' then
       (if get_str d ''status'' \<in> Some ` {''blocked'', ''failed'', ''uncertain''}
           \<and> map_of d ''error'' = Some VNone then Some ErrorRequired
        else if get_str d ''status'' = Some ''success'' \<and> map_of d ''error'' \<noteq> Some VNone
          then Some ErrorForbidden
        else None)
     else if kind = ''event'' then
       (if (get_str d ''event_type'' = Some ''command.started'')
           \<noteq> (get_str d ''status'' = Some ''pending'') then Some EventDisagrees else None)
     else if kind = ''voice-observation'' then
       (case (get_str d ''phase'', get_str d ''status'') of
          (Some phase, Some status) \<Rightarrow>
            if status \<notin> set (voice_statuses phase) then Some VoiceDisagrees else None
        | _ \<Rightarrow> Some VoiceDisagrees)
     else None)"

definition decode :: "pyv \<Rightarrow> contract_error + rec" where
  "decode payload =
    (if \<not> json_ok payload then Inl NotJson
     else case payload of
       VDict d \<Rightarrow>
         (case map_of d ''kind'' of
            Some (VStr kind) \<Rightarrow>
              (case map_of record_schemas kind of
                 None \<Rightarrow> Inl UnknownKind
               | Some sch \<Rightarrow>
                   (case validate sch payload of
                      Some e \<Rightarrow> Inl e
                    | None \<Rightarrow>
                        (case fields_agree kind d of
                           Some e \<Rightarrow> Inl e
                         | None \<Rightarrow>
                             (case build kind d of Some r \<Rightarrow> Inr r | None \<Rightarrow> Inl UnknownRecord))))
          | _ \<Rightarrow> Inl UnknownKind)
     | _ \<Rightarrow> Inl UnknownKind)"

definition encode :: "rec \<Rightarrow> contract_error + pyv" where
  "encode r = (case decode (thaw_rec r) of Inl e \<Rightarrow> Inl e | Inr _ \<Rightarrow> Inr (thaw_rec r))"

definition snapshot :: "rec \<Rightarrow> contract_error + rec" where
  "snapshot r = bind_res (encode r) decode"

subsection \<open>Parsing\<close>

text \<open>
  \<open>json.loads\<close> with the two hooks of \<open>loads\<close>. The syntax of JSON is the library's: the parameter
  \<open>parse\<close> answers the parse tree, an object as the list of its pairs in the order of the text,
  \<open>JConst\<close> for \<open>NaN\<close>, \<open>Infinity\<close> and \<open>-Infinity\<close>, and \<open>None\<close> when the text is not a document.
\<close>

datatype jdoc =
    JNull
  | JBool bool
  | JInt int
  | JFloat pyfloat
  | JConst string
  | JStr string
  | JList "jdoc list"
  | JObject "(string \<times> jdoc) list"

datatype load_error = DuplicateKey | NonFinite | InvalidDocument | Contract contract_error

lemma jdoc_size_snd_less [termination_simp]:
  "(k, v) \<in> set kvs \<Longrightarrow> size (v::jdoc) < Suc (size_list (size_prod (\<lambda>x. 0) size) kvs)"
  by (induction kvs) auto

fun doc_ok :: "jdoc \<Rightarrow> load_error option" where
  "doc_ok (JConst c) = Some NonFinite"
| "doc_ok (JList js) = first_error (map doc_ok js)"
| "doc_ok (JObject kvs) = first_error (map (\<lambda>(k, j). doc_ok j) kvs @
     [if distinct (map fst kvs) then None else Some DuplicateKey])"
| "doc_ok j = None"

fun doc_value :: "jdoc \<Rightarrow> pyv" where
  "doc_value JNull = VNone"
| "doc_value (JBool b) = VBool b"
| "doc_value (JInt i) = VInt i"
| "doc_value (JFloat f) = VFloat f"
| "doc_value (JConst c) = VOpaque"
| "doc_value (JStr s) = VStr s"
| "doc_value (JList js) = VList (map doc_value js)"
| "doc_value (JObject kvs) = VDict (map (\<lambda>(k, j). (k, doc_value j)) kvs)"

definition loads :: "(string \<Rightarrow> jdoc option) \<Rightarrow> string \<Rightarrow> load_error + rec" where
  "loads parse text =
    (case parse text of
       None \<Rightarrow> Inl InvalidDocument
     | Some doc \<Rightarrow>
         (case doc_ok doc of
            Some e \<Rightarrow> Inl e
          | None \<Rightarrow> (case decode (doc_value doc) of Inl e \<Rightarrow> Inl (Contract e) | Inr r \<Rightarrow> Inr r)))"

text \<open>The text \<open>json.dumps(encode(event), sort_keys=True)\<close>, as the sorted value it spells.\<close>

definition wire :: "rec \<Rightarrow> pyv" where
  "wire r = canon (thaw_rec r)"

text \<open>
  The record with the mappings \<open>_freeze\<close> builds: what a record becomes when it is encoded and
  decoded again.
\<close>

definition refreeze :: "bag \<Rightarrow> bag" where
  "refreeze d = freeze_bag (thaw_bag d)"

fun freeze_rec :: "rec \<Rightarrow> rec" where
  "freeze_rec (RCommand r) = RCommand (r\<lparr>cmd_arguments := refreeze (cmd_arguments r),
     cmd_context := refreeze (cmd_context r)\<rparr>)"
| "freeze_rec (RResult r) = RResult (r\<lparr>res_output := refreeze (res_output r)\<rparr>)"
| "freeze_rec (REvent r) = REvent (r\<lparr>evt_context := refreeze (evt_context r),
     evt_details := refreeze (evt_details r)\<rparr>)"
| "freeze_rec (RCapability r) = RCapability (r\<lparr>cap_arguments := refreeze (cap_arguments r)\<rparr>)"
| "freeze_rec (RInteraction r) = RInteraction (r\<lparr>ia_context := refreeze (ia_context r),
     ia_details := refreeze (ia_details r)\<rparr>)"
| "freeze_rec (RVoiceObservation r) = RVoiceObservation (r\<lparr>vo_context := refreeze (vo_context r)\<rparr>)"
| "freeze_rec r = r"

lemmas get_defs = get_int_def get_str_def get_bool_def get_bag_def get_num_def get_strs_def
  get_error_def
lemmas mk_defs = mk_command_def mk_error_def mk_result_def mk_event_def mk_capability_def mk_interaction_def mk_voice_observation_def mk_policy_def mk_profile_def mk_provider_def

section \<open>Reading fields\<close>

lemma get_simps [simp]:
  "get_int d k = Some i \<longleftrightarrow> map_of d k = Some (VInt i)"
  "get_str d k = Some s \<longleftrightarrow> map_of d k = Some (VStr s)"
  "get_bool d k = Some b \<longleftrightarrow> map_of d k = Some (VBool b)"
  "get_bag d k = Some g \<longleftrightarrow> (\<exists>kvs. map_of d k = Some (VDict kvs) \<and> g = freeze_bag kvs)"
  by (auto simp: get_defs split: option.splits pyv.splits)

lemma strs_of_eq_Some [simp]: "strs_of vs = Some ss \<longleftrightarrow> vs = map VStr ss"
  by (induction vs arbitrary: ss rule: strs_of.induct) auto

lemma get_strs_eq [simp]: "get_strs d k = Some ss \<longleftrightarrow> map_of d k = Some (VList (map VStr ss))"
  by (auto simp: get_strs_def split: option.splits pyv.splits)

lemma get_num_eq [simp]:
  "get_num d k = Some v \<longleftrightarrow> map_of d k = Some v \<and> ((\<exists>i. v = VInt i) \<or> (\<exists>f. v = VFloat f))"
  by (auto simp: get_num_def split: option.splits pyv.splits)

lemma thaw_bag_lookup [simp]:
  "json_ok (VDict d) \<Longrightarrow> map_of d k = Some (VDict kvs) \<Longrightarrow> thaw_bag (freeze_bag kvs) = kvs"
  by (intro thaw_bag_freeze_bag) (rule json_ok_lookup)

lemma thaw_rec_VDict: "thaw_rec r = VDict (items (thaw_rec r))"
  by (cases r) (simp_all add: thaw_error_def)

lemma kind_thaw [simp]: "map_of (items (thaw_rec r)) ''kind'' = Some (VStr (kind_of r))"
  by (cases r) (simp_all add: thaw_error_def)

lemma distinct_thaw_rec [simp]: "distinct (map fst (items (thaw_rec r)))"
  by (cases r) (simp_all add: thaw_error_def)

section \<open>Encoding and decoding again\<close>

lemma decode_eq_Inr:
  "decode p = Inr r \<longleftrightarrow> json_ok p \<and> (\<exists>d k s. p = VDict d \<and> map_of d ''kind'' = Some (VStr k)
     \<and> map_of record_schemas k = Some s \<and> validate s p = None \<and> fields_agree k d = None
     \<and> build k d = Some r)"
  by (cases p) (auto simp: decode_def split: option.splits pyv.splits if_splits)

lemma mk_error_thaw [simp]: "mk_error (items (thaw_error e)) = Some e"
  by (simp add: thaw_error_def mk_error_def get_defs)

lemma get_error_thaw: "map_of d k = Some (thaw_error_opt e) \<Longrightarrow> get_error d k = Some e"
  using mk_error_thaw by (cases e) (simp_all add: thaw_error_opt_def get_error_def thaw_error_def)

lemma strs_of_map_VStr [simp]: "strs_of (map VStr ss) = Some ss"
  by (induction ss) auto

lemma build_thaw:
  assumes num: "\<And>e. r = REvent e \<Longrightarrow>
    get_num (items (thaw_rec r)) ''duration_ms'' = Some (evt_duration_ms e)"
  shows "build (kind_of r) (items (thaw_rec r)) = Some (freeze_rec r)"
proof (cases r)
  case (REvent e)
  with num have "get_num (items (thaw_rec (REvent e))) ''duration_ms'' = Some (evt_duration_ms e)"
    by blast
  with REvent show ?thesis
    by (auto simp: build_def mk_event_def get_int_def get_str_def get_bag_def get_num_def
        refreeze_def[symmetric])
qed (simp_all add: build_def mk_defs get_int_def get_str_def get_bool_def get_bag_def get_strs_def
      get_error_thaw thaw_error_def refreeze_def[symmetric])

lemma validated_duration:
  assumes "validate schema_event (VDict d) = None"
  shows "\<exists>v. get_num d ''duration_ms'' = Some v"
proof -
  obtain x where "map_of d ''duration_ms'' = Some x" "validate (SNumber (Some 0)) x = None"
    using closed_object_field[OF assms[unfolded schema_event_def], of "''duration_ms''"] by auto
  then show ?thesis by (auto simp: get_num_eq dest: validate_number)
qed

lemma decode_thaw: "decode (thaw_rec r) = Inr r' \<Longrightarrow> r' = freeze_rec r"
proof -
  let ?d = "items (thaw_rec r)"
  assume "decode (thaw_rec r) = Inr r'"
  then obtain s where s: "map_of record_schemas (kind_of r) = Some s" "validate s (VDict ?d) = None"
    and b: "build (kind_of r) ?d = Some r'"
    by (subst (asm) thaw_rec_VDict) (auto simp: decode_eq_Inr)
  have "get_num ?d ''duration_ms'' = Some (evt_duration_ms e)" if "r = REvent e" for e
    using s that validated_duration[of ?d] by (auto simp: record_schemas_def)
  from build_thaw[OF this] b show ?thesis by simp
qed

section \<open>Decoding and encoding again\<close>

lemma error_canon:
  assumes "validate schema_error (VDict d) = None" and "dicts_ok (VDict d)" and "mk_error d = Some e"
  shows "canon (thaw_error e) = canon (VDict d)"
proof -
  note valid = assms(1)[unfolded schema_error_def]
  have "fst ` set d \<subseteq> fst ` set (items (thaw_error e))"
    using closed_object_keys[OF valid] by (simp add: thaw_error_def)
  moreover have "list_all (\<lambda>(k, v). map_option canon (map_of d k) = Some (canon v))
      (items (thaw_error e))"
    using closed_object_field[OF valid, of "''kind''"] assms(3)
    by (auto simp: thaw_error_def mk_error_def bind_eq_Some)
  ultimately show ?thesis
    using assms(2) canon_VDict_eqI[of "items (thaw_error e)" d] by (simp add: thaw_error_def)
qed

lemma result_error_canon:
  assumes "validate schema_result (VDict d) = None" and "dicts_ok (VDict d)"
    and "get_error d ''error'' = Some e"
  shows "map_option canon (map_of d ''error'') = Some (canon (thaw_error_opt e))"
proof -
  obtain x where x: "map_of d ''error'' = Some x" "validate (SAnyOf [schema_error, SNull]) x = None"
    using closed_object_field[OF assms(1)[unfolded schema_result_def], of "''error''"] by auto
  show ?thesis
  proof (cases x)
    case (VDict de)
    then have "validate schema_error (VDict de) = None" using x(2) by simp
    moreover obtain y where "mk_error de = Some y" "e = Some y"
      using x(1) VDict assms(3) by (auto simp: get_error_def)
    ultimately show ?thesis
      using x(1) VDict error_canon dicts_ok_lookup[OF assms(2) x(1)]
      by (simp add: thaw_error_opt_def del: canon.simps)
  qed (use x assms(3) in \<open>auto simp: get_error_def thaw_error_opt_def\<close>)
qed

text \<open>The fields of the record that was built are the fields of the payload.\<close>

lemma build_fields:
  assumes "build k d = Some r" and "map_of record_schemas k = Some s"
    and "validate s (VDict d) = None" and "json_ok (VDict d)" and "dicts_ok (VDict d)"
    and "map_of d ''kind'' = Some (VStr k)"
  shows "list_all (\<lambda>(k, v). map_option canon (map_of d k) = Some (canon v)) (items (thaw_rec r))"
  using assms result_error_canon[of d]
  by (auto simp: build_def record_schemas_def mk_defs bind_eq_Some thaw_error_def
      simp del: canon.simps json_ok.simps dicts_ok.simps split: if_splits)

lemma build_schema:
  assumes "build k d = Some r" and "map_of record_schemas k = Some s"
  shows "kind_of r = k \<and> (\<exists>props. s = closed_object props
    \<and> distinct (map fst props) \<and> fst ` set props \<subseteq> fst ` set (items (thaw_rec r)))"
  using assms
  by (auto simp: build_def record_schemas_def schema_defs thaw_error_def split: if_splits)

text \<open>A decoded payload and the record's own JSON have the same sorted text.\<close>

lemma decode_wire:
  assumes "decode p = Inr r" and "dicts_ok p"
  shows "wire r = canon p"
proof -
  obtain d k s where d: "p = VDict d" "json_ok p" "map_of d ''kind'' = Some (VStr k)"
    and s: "map_of record_schemas k = Some s" "validate s p = None" and b: "build k d = Some r"
    using assms(1) by (auto simp: decode_eq_Inr)
  obtain props where props: "s = closed_object props"
      "fst ` set props \<subseteq> fst ` set (items (thaw_rec r))"
    using build_schema[OF b s(1)] by blast
  have "fst ` set d \<subseteq> fst ` set (items (thaw_rec r))"
    using closed_object_keys[of props d] props s(2) d(1) by auto
  moreover have "list_all (\<lambda>(k, v). map_option canon (map_of d k) = Some (canon v))
      (items (thaw_rec r))"
    using build_fields[OF b s(1)] s(2) d(2,3) assms(2) unfolding d(1) by blast
  moreover have "distinct (map fst d)" using assms(2) d(1) by simp
  ultimately have "canon (VDict (items (thaw_rec r))) = canon (VDict d)"
    by (intro canon_VDict_eqI) simp_all
  then show ?thesis using d(1) thaw_rec_VDict[of r] by (simp add: wire_def)
qed

lemma fields_agree_cong:
  assumes eq: "\<And>x. map_option canon (map_of a x) = map_option canon (map_of b x)"
  shows "fields_agree k a = fields_agree k b"
proof -
  have "get_str a x = Some s \<longleftrightarrow> get_str b x = Some s" for x s
    using eq[of x] by (cases "map_of a x"; cases "map_of b x") (auto dest: sym)
  then have str: "get_str a x = get_str b x" for x
    by (cases "get_str b x") (metis not_None_eq, metis)
  have "map_of a x = Some VNone \<longleftrightarrow> map_of b x = Some VNone" for x
    using eq[of x] by (cases "map_of a x"; cases "map_of b x") (auto dest: sym)
  then show ?thesis by (simp only: fields_agree_def str)
qed

lemma map_of_wire: "map_of (items (wire r)) x = map_option canon (map_of (items (thaw_rec r)) x)"
  using map_of_canon[OF distinct_thaw_rec, of r x] thaw_rec_VDict[of r] by (simp add: wire_def)

lemma decode_encode_thaw:
  assumes "decode p = Inr r" and "dicts_ok p"
  shows "decode (thaw_rec r) = Inr (freeze_rec r)"
proof -
  obtain d k s where d: "p = VDict d" "json_ok p" "map_of d ''kind'' = Some (VStr k)"
    and s: "map_of record_schemas k = Some s" "validate s p = None"
    and f: "fields_agree k d = None" and b: "build k d = Some r"
    using assms(1) by (auto simp: decode_eq_Inr)
  have k: "kind_of r = k" using build_schema[OF b s(1)] by blast
  have w: "canon (thaw_rec r) = canon p" using decode_wire[OF assms] by (simp add: wire_def)
  have "validate s (thaw_rec r) = None"
    using s(2) w validate_canon by metis
  moreover have "json_ok (thaw_rec r)" using d(2) w json_ok_canon by metis
  moreover have "map_option canon (map_of (items (thaw_rec r)) x) = map_option canon (map_of d x)" for x
    using assms(2) d(1) w map_of_wire[of r x] map_of_canon[of d x]
    by (simp add: wire_def del: canon.simps)
  then have "fields_agree k (items (thaw_rec r)) = None"
    using f fields_agree_cong[of "items (thaw_rec r)" d] by simp
  moreover have "get_num (items (thaw_rec r)) ''duration_ms'' = Some (evt_duration_ms e)"
    if "r = REvent e" for e
    using validated_duration[of "items (thaw_rec r)"] s(1) k calculation(1) that thaw_rec_VDict[of r]
    by (auto simp: record_schemas_def)
  then have "build k (items (thaw_rec r)) = Some (freeze_rec r)"
    using build_thaw k by blast
  ultimately show ?thesis
    using s(1) k kind_thaw[of r] thaw_rec_VDict[of r] by (auto simp: decode_eq_Inr)
qed

section \<open>Validated payloads build records\<close>

lemma validate_strs:
  "validate (SArray schema_id u) v = None \<Longrightarrow> \<exists>ss. v = VList (map VStr ss)"
proof (cases v)
  case (VList vs)
  moreover assume "validate (SArray schema_id u) v = None"
  ultimately have "\<forall>x \<in> set vs. \<exists>s. x = VStr s" by (auto simp: validate.simps)
  then have "\<exists>ss. vs = map VStr ss" by (metis ex_map_conv)
  with VList show ?thesis by auto
qed (auto simp: validate.simps)

lemma validate_context: "validate schema_context v = None \<Longrightarrow> \<exists>d. v = VDict d"
  by (auto simp: schema_context_def dest: validate_closed_object_VDict)

lemma validate_SObject: "validate (SObject a b c e) v = None \<Longrightarrow> \<exists>d. v = VDict d"
  by (cases v) (auto simp: validate.simps)

lemma build_error_total: "validate schema_error (VDict d) = None \<Longrightarrow> \<exists>e. mk_error d = Some e"
  unfolding schema_error_def
  by (drule closed_object_fields[rotated]) (auto simp: mk_error_def bind_eq_Some)

lemma closed_object_inject [simp]: "closed_object a = closed_object b \<longleftrightarrow> a = b"
  by (auto simp: closed_object_def)

lemma validate_error_opt:
  assumes "validate schema_error x = None \<or> x = VNone" and "map_of d k = Some x"
  shows "\<exists>e. get_error d k = Some e"
proof (cases "x = VNone")
  case True
  with assms(2) show ?thesis by (auto simp: get_error_def)
next
  case False
  then have valid: "validate schema_error x = None" using assms(1) by blast
  then obtain c where "x = VDict c"
    using validate_closed_object_VDict by (auto simp: schema_error_def)
  with valid assms(2) build_error_total[of c] show ?thesis by (auto simp: get_error_def)
qed

lemma validate_enum_VStr: "validate (enum_string es) v = None \<Longrightarrow> \<exists>s. v = VStr s"
  by auto

lemma build_total:
  assumes "map_of record_schemas k = Some s" and "validate s (VDict d) = None"
  shows "\<exists>r. build k d = Some r"
proof -
  obtain props where props: "s = closed_object props" "distinct (map fst props)"
    using assms(1) by (auto simp: record_schemas_def schema_defs split: if_splits)
  note fields = closed_object_fields[OF props(2) assms(2)[unfolded props(1)]]
  consider "s = schema_result" "k = ''result''" | "s = schema_event" "k = ''event''"
    | "s = schema_command" "k = ''command''" | "s = schema_error" "k = ''error''"
    | "s = schema_capability" "k = ''capability''" | "s = schema_interaction" "k = ''interaction''"
    | "s = schema_voice_observation" "k = ''voice-observation''" | "s = schema_policy" "k = ''policy''"
    | "s = schema_profile" "k = ''profile''" | "s = schema_provider" "k = ''provider''"
    using assms(1) by (auto simp: record_schemas_def split: if_splits)
  then show ?thesis
  proof cases
    case 1
    then show ?thesis using fields props(1)
      by (auto simp: schema_result_def build_def mk_result_def bind_eq_Some simp del: validate_enum_string
        dest!: validate_enum_VStr validate_error_opt[where d = d])
  next
    case 2
    then show ?thesis using fields props(1)
      by (auto simp: schema_event_def build_def mk_event_def bind_eq_Some simp del: validate_enum_string
        dest!: validate_enum_VStr validate_context validate_number)
  next
    case 3
    then show ?thesis using fields props(1)
      by (auto simp: schema_command_def build_def mk_command_def bind_eq_Some simp del: validate_enum_string
        dest!: validate_enum_VStr validate_context)
  next
    case 4
    then show ?thesis using fields props(1)
      by (auto simp: schema_error_def build_def mk_error_def bind_eq_Some simp del: validate_enum_string
        dest!: validate_enum_VStr)
  next
    case 5
    then show ?thesis using fields props(1)
      by (auto simp: schema_capability_def build_def mk_capability_def bind_eq_Some simp del: validate_enum_string
        dest!: validate_enum_VStr validate_SObject)
  next
    case 6
    then show ?thesis using fields props(1)
      by (auto simp: schema_interaction_def build_def mk_interaction_def bind_eq_Some simp del: validate_enum_string
        dest!: validate_enum_VStr validate_context)
  next
    case 7
    then show ?thesis using fields props(1)
      by (auto simp: schema_voice_observation_def build_def mk_voice_observation_def bind_eq_Some simp del: validate_enum_string
        dest!: validate_enum_VStr validate_context)
  next
    case 8
    then show ?thesis using fields props(1)
      by (auto simp: schema_policy_def build_def mk_policy_def bind_eq_Some dest!: validate_strs) blast
  next
    case 9
    then show ?thesis using fields props(1)
      by (auto simp: schema_profile_def build_def mk_profile_def bind_eq_Some simp del: validate_enum_string
        dest!: validate_enum_VStr)
  next
    case 10
    then show ?thesis using fields props(1)
      by (auto simp: schema_provider_def build_def mk_provider_def bind_eq_Some
        simp del: validate_enum_string dest!: validate_enum_VStr validate_strs)
  qed
qed


section \<open>Frozen records\<close>

lemma refreeze_freeze [simp]: "json_ok (VDict d) \<Longrightarrow> refreeze (freeze_bag d) = freeze_bag d"
  by (simp add: refreeze_def thaw_bag_freeze_bag)

lemma build_frozen:
  assumes "build k d = Some r" and "json_ok (VDict d)"
  shows "freeze_rec r = r"
  using assms json_ok_lookup[OF assms(2)]
  by (auto simp: build_def mk_defs bind_eq_Some simp del: json_ok.simps split: if_splits)

lemma decode_frozen: "decode p = Inr r \<Longrightarrow> freeze_rec r = r"
  by (auto simp: decode_eq_Inr intro: build_frozen simp del: json_ok.simps)

lemma thaw_bag_refreeze [simp]: "thaw_bag (refreeze d) = thaw_bag d"
  by (simp add: refreeze_def freeze_bag_def thaw_bag_def thaw_freeze_thaw case_prod_beta)

lemma thaw_freeze_rec [simp]: "thaw_rec (freeze_rec r) = thaw_rec r"
  by (cases r) simp_all

lemma wire_freeze_rec [simp]: "wire (freeze_rec r) = wire r"
  by (simp add: wire_def)

lemma encode_eq_Inr: "encode r = Inr q \<longleftrightarrow> q = thaw_rec r \<and> decode q = Inr (freeze_rec r)"
  by (auto simp: encode_def dest: decode_thaw split: sum.splits)

lemma snapshot_eq_Inr: "snapshot r = Inr r' \<longleftrightarrow> r' = freeze_rec r \<and> decode (thaw_rec r) = Inr r'"
  by (auto simp: snapshot_def encode_eq_Inr)

lemma freeze_rec_idem [simp]: "freeze_rec (freeze_rec r) = freeze_rec r"
  by (cases r) (simp_all add: refreeze_def freeze_bag_def thaw_bag_def thaw_freeze_thaw case_prod_beta)

lemma snapshot_idem: "snapshot r = Inr r' \<Longrightarrow> snapshot r' = Inr r' \<and> wire r' = wire r"
  by (auto simp: snapshot_eq_Inr)

lemma snapshot_decoded: "decode p = Inr r \<Longrightarrow> dicts_ok p \<Longrightarrow> snapshot r = Inr r"
  using decode_encode_thaw decode_frozen by (fastforce simp: snapshot_eq_Inr)

lemma doc_value_dicts_ok: "doc_ok j = None \<Longrightarrow> dicts_ok (doc_value j)"
proof (induction j rule: doc_value.induct)
  case (8 kvs)
  then have "distinct (map fst kvs)" "\<forall>x \<in> set kvs. doc_ok (snd x) = None"
    by (auto split: if_splits)
  with 8 show ?case by (auto simp: list_all_iff comp_def case_prod_beta)
qed (auto simp: list_all_iff)

section \<open>Correctness of the codecs\<close>

text \<open>C7: Decoding and encoding are inverse. When \<open>decode\<close> accepts a payload, \<open>encode\<close> of the record
  succeeds, its JSON text with sorted keys is the text of the payload, and decoding that JSON gives
  the same record back: nothing is lost, added or changed on the way through the typed records.\<close>

theorem decode_encode_roundtrip:
  assumes "decode p = Inr r" and "dicts_ok p"
  shows "\<exists>q. encode r = Inr q \<and> canon q = canon p \<and> decode q = Inr r"
  using decode_encode_thaw[OF assms] decode_frozen[OF assms(1)] decode_wire[OF assms]
  by (auto simp: encode_eq_Inr wire_def)

definition sample_policy :: pyv where
  "sample_policy = VDict [(''kind'', VStr ''policy''), (''version'', VInt 1), (''policy_id'', VStr ''p''),
     (''revision'', VInt 3), (''enabled'', VBool True),
     (''allowed_capabilities'', VList [VStr ''a'']), (''confirmation_required'', VList [])]"

theorem decode_encode_roundtrip_witness:
  "\<exists>r q. decode sample_policy = Inr r \<and> encode r = Inr q \<and> canon q = canon sample_policy"
proof -
  have "decode sample_policy = Inr (RPolicy \<lparr>pol_version = 1, pol_policy_id = ''p'', pol_revision = 3,
    pol_enabled = True, pol_allowed_capabilities = [''a''], pol_confirmation_required = []\<rparr>)"
    by code_simp
  moreover have "dicts_ok sample_policy" by code_simp
  ultimately show ?thesis using decode_encode_roundtrip by blast
qed

text \<open>C10: A validated payload always becomes a record: \<open>decode\<close> succeeds exactly on finite JSON
  objects whose \<open>kind\<close> names a schema, which that schema accepts and whose fields agree, so the
  constructor call at its end can never fail.\<close>

theorem decode_total:
  "(\<exists>r. decode p = Inr r) \<longleftrightarrow> json_ok p \<and> (\<exists>d k s. p = VDict d \<and> map_of d ''kind'' = Some (VStr k)
     \<and> map_of record_schemas k = Some s \<and> validate s p = None \<and> fields_agree k d = None)"
  using build_total by (auto simp: decode_eq_Inr)

text \<open>A direct constructor cannot bypass the contract: \<open>encode\<close> answers the JSON of a record only
  when that JSON decodes, and the snapshot of a record is the record with its mappings frozen, has
  the same JSON text, and is its own snapshot.\<close>

theorem snapshot_stable:
  assumes "snapshot r = Inr r'"
  shows "r' = freeze_rec r \<and> snapshot r' = Inr r' \<and> encode r = Inr (thaw_rec r) \<and> wire r' = wire r"
  using assms snapshot_idem[OF assms] by (auto simp: snapshot_eq_Inr encode_eq_Inr)

theorem snapshot_stable_witness:
  "\<exists>r'. snapshot (RProfile \<lparr>pro_version = 1, pro_profile_id = ''p'', pro_policy_id = ''q'',
     pro_enabled = True, pro_voice_enabled = False\<rparr>) = Inr r' \<and> snapshot r' = Inr r'"
proof -
  let ?r = "RProfile \<lparr>pro_version = 1, pro_profile_id = ''p'', pro_policy_id = ''q'',
     pro_enabled = True, pro_voice_enabled = False\<rparr>"
  have "snapshot ?r = Inr ?r" by code_simp
  with snapshot_stable show ?thesis by blast
qed

text \<open>The fields of a decoded record agree with each other: a result that is blocked, failed or
  uncertain carries an error and a successful one none, an event is pending exactly when it
  announces a start, and the status of a voice observation is one its phase allows.\<close>

theorem decoded_fields_agree:
  assumes "decode p = Inr r"
  shows "case r of
      RResult x \<Rightarrow> (res_status x \<in> {''blocked'', ''failed'', ''uncertain''} \<longrightarrow> res_error x \<noteq> None)
        \<and> (res_status x = ''success'' \<longrightarrow> res_error x = None)
    | REvent x \<Rightarrow> evt_event_type x = ''command.started'' \<longleftrightarrow> evt_status x = ''pending''
    | RVoiceObservation x \<Rightarrow> vo_status x \<in> set (voice_statuses (vo_phase x))
    | _ \<Rightarrow> True"
proof -
  obtain d k where f: "fields_agree k d = None" and b: "build k d = Some r"
    using assms by (auto simp: decode_eq_Inr)
  show ?thesis
    using f b unfolding build_def fields_agree_def
    by (auto simp: mk_defs get_error_def bind_eq_Some split: if_splits option.splits pyv.splits)
qed

theorem decoded_fields_agree_witness:
  "\<exists>r. decode (thaw_rec (RResult \<lparr>res_version = 1, res_result_id = ''r'', res_command_id = ''c'',
      res_correlation_id = ''c'', res_status = ''success'', res_output = [], res_error = None\<rparr>)) = Inr (RResult r)
    \<and> (res_status r = ''success'' \<longrightarrow> res_error r = None)"
proof -
  let ?x = "\<lparr>res_version = 1, res_result_id = ''r'', res_command_id = ''c'',
      res_correlation_id = ''c'', res_status = ''success'', res_output = [], res_error = None\<rparr>"
  have d: "decode (thaw_rec (RResult ?x)) = Inr (RResult ?x)" by code_simp
  from decoded_fields_agree[OF d] d show ?thesis by auto
qed

text \<open>\<open>loads\<close> accepts only documents without a repeated key at any depth, and the record it
  answers has the JSON text of the document.\<close>

theorem loads_faithful:
  assumes "loads parse text = Inr r"
  shows "\<exists>doc. parse text = Some doc \<and> dicts_ok (doc_value doc) \<and> wire r = canon (doc_value doc)"
proof -
  obtain doc where doc: "parse text = Some doc" "doc_ok doc = None" "decode (doc_value doc) = Inr r"
    using assms by (auto simp: loads_def split: option.splits sum.splits)
  with doc_value_dicts_ok[OF doc(2)] decode_wire show ?thesis by blast
qed

definition sample_doc :: jdoc where
  "sample_doc = JObject [(''version'', JInt 1), (''kind'', JStr ''error''), (''code'', JStr ''x''),
     (''message'', JStr ''m''), (''retryable'', JBool False)]"

theorem loads_faithful_witness:
  "\<exists>r. loads (\<lambda>_. Some sample_doc) ''doc'' = Inr r \<and> wire r = canon (doc_value sample_doc)"
proof -
  have "\<exists>r. loads (\<lambda>_. Some sample_doc) ''doc'' = Inr r"
    by (rule exI[of _ "RError \<lparr>err_version = 1, err_code = ''x'', err_message = ''m'', err_retryable = False\<rparr>"])
      code_simp
  with loads_faithful[of "\<lambda>_. Some sample_doc" "''doc''"] show ?thesis by auto
qed

end
