(* ===== verification/Journal.thy ===== *)
theory Journal
  imports Contracts
begin

text \<open>
  The journals of \<open>src/runtime/journal.py\<close>: \<open>MemoryJournal\<close>, the in-memory adapter, and
  \<open>SQLiteJournal\<close>, the file adapter. The state of the lock is the owning process and the process
  that calls; the mutex itself never shows, because every operation runs to its end under it. The
  rows of the database hold the sorted JSON text of an event as the value it spells; every
  statement the adapter runs may fail (\<open>sq_fault\<close>), also at the commit, where the row may have
  reached the file.

  The locale \<open>journal_adapter\<close> is the contract the control plane relies on: an append-only log of
  JSON texts that \<open>append\<close> extends by at most one entry and \<open>read\<close> answers in full. Both adapters
  are interpreted in it.
\<close>

section \<open>Entries and errors\<close>

datatype journal_error =
    NotJournalRecord
  | BadCursor
  | WrongProcess
  | JournalClosed
  | EventConflict
  | CannotAppend
  | IdentityMismatch
  | CannotRead
  | CannotOpen
  | BadParent
  | NotPrivateFile
  | UnknownDatabase
  | PathChanged
  | JContract contract_error

fun is_entry :: "rec \<Rightarrow> bool" where
  "is_entry (REvent e) = True"
| "is_entry (RInteraction e) = True"
| "is_entry (RVoiceObservation e) = True"
| "is_entry r = False"

fun event_id :: "rec \<Rightarrow> string" where
  "event_id (REvent e) = evt_event_id e"
| "event_id (RInteraction e) = ia_event_id e"
| "event_id (RVoiceObservation e) = vo_event_id e"
| "event_id r = []"

definition journal_event :: "rec \<Rightarrow> journal_error + rec" where
  "journal_event r =
    (if \<not> is_entry r then Inl NotJournalRecord
     else case snapshot r of Inl e \<Rightarrow> Inl (JContract e) | Inr s \<Rightarrow> Inr s)"

definition cursor_error :: "pyv \<Rightarrow> journal_error option" where
  "cursor_error after = (case after of VInt n \<Rightarrow> (if n < 0 then Some BadCursor else None) | _ \<Rightarrow> Some BadCursor)"

definition cursor_nat :: "pyv \<Rightarrow> nat" where
  "cursor_nat after = (case after of VInt n \<Rightarrow> nat n | _ \<Rightarrow> 0)"

record process_lock =
  lk_owner :: nat
  lk_pid :: nat

definition check_owner :: "process_lock \<Rightarrow> journal_error option" where
  "check_owner l = (if lk_pid l \<noteq> lk_owner l then Some WrongProcess else None)"

section \<open>The memory journal\<close>

record memory_journal =
  mj_lock :: process_lock
  mj_events :: "(nat \<times> rec) list"
  mj_ids :: "(string \<times> nat \<times> rec) list"
  mj_closed :: bool

definition memory_init :: "nat \<Rightarrow> memory_journal" where
  "memory_init pid = \<lparr>mj_lock = \<lparr>lk_owner = pid, lk_pid = pid\<rparr>, mj_events = [], mj_ids = [],
     mj_closed = False\<rparr>"

definition memory_open :: "memory_journal \<Rightarrow> journal_error option" where
  "memory_open j = first_error [check_owner (mj_lock j), if mj_closed j then Some JournalClosed else None]"

definition memory_append :: "memory_journal \<Rightarrow> rec \<Rightarrow> (journal_error + nat) \<times> memory_journal" where
  "memory_append j event =
    (case journal_event event of
       Inl e \<Rightarrow> (Inl e, j)
     | Inr event \<Rightarrow>
         (case memory_open j of
            Some e \<Rightarrow> (Inl e, j)
          | None \<Rightarrow>
              (case map_of (mj_ids j) (event_id event) of
                 Some (sequence, existing) \<Rightarrow>
                   (if wire existing \<noteq> wire event then (Inl EventConflict, j)
                    else (Inr sequence, j))
               | None \<Rightarrow>
                   (let sequence = length (mj_events j) + 1
                    in (Inr sequence,
                        j\<lparr>mj_events := mj_events j @ [(sequence, event)],
                          mj_ids := AList.update (event_id event) (sequence, event) (mj_ids j)\<rparr>)))))"

definition memory_read :: "memory_journal \<Rightarrow> pyv \<Rightarrow> (journal_error + (nat \<times> rec) list) \<times> memory_journal" where
  "memory_read j after =
    (case first_error [cursor_error after, memory_open j] of
       Some e \<Rightarrow> (Inl e, j)
     | None \<Rightarrow> (Inr (drop (cursor_nat after) (mj_events j)), j))"

text \<open>\<open>replay\<close> feeds the entries after the cursor to a consumer, in order; a consumer that raises
  stops it.\<close>

fun feed :: "('s \<Rightarrow> nat \<times> rec \<Rightarrow> 'e + 's) \<Rightarrow> 's \<Rightarrow> (nat \<times> rec) list \<Rightarrow> 'e + 's" where
  "feed consume s [] = Inr s"
| "feed consume s (e # es) = bind_res (consume s e) (\<lambda>s'. feed consume s' es)"

definition memory_replay ::
  "memory_journal \<Rightarrow> ('s \<Rightarrow> nat \<times> rec \<Rightarrow> 'e + 's) \<Rightarrow> pyv \<Rightarrow> 's \<Rightarrow> journal_error + 'e + 's" where
  "memory_replay j consume after s =
    (case fst (memory_read j after) of Inl e \<Rightarrow> Inl e | Inr es \<Rightarrow> Inr (feed consume s es))"

definition memory_close :: "memory_journal \<Rightarrow> journal_error option \<times> memory_journal" where
  "memory_close j =
    (case check_owner (mj_lock j) of
       Some e \<Rightarrow> (Some e, j)
     | None \<Rightarrow> (None, j\<lparr>mj_closed := True\<rparr>))"

section \<open>The SQLite journal\<close>

text \<open>How one call into the database ends; \<open>FailsCommitted\<close> is a failure reported after the write
  reached the file.\<close>

datatype fault = Works | Fails | FailsCommitted

record sqlite_journal =
  sq_lock :: process_lock
  sq_rows :: "(nat \<times> string \<times> pyv) list"
  sq_fault :: "nat \<Rightarrow> fault"
  sq_calls :: nat
  sq_closed :: bool

definition sqlite_open :: "sqlite_journal \<Rightarrow> journal_error option" where
  "sqlite_open j = first_error [check_owner (sq_lock j), if sq_closed j then Some JournalClosed else None]"

text \<open>The key \<open>AUTOINCREMENT\<close> gives the next row.\<close>

definition next_sequence :: "(nat \<times> string \<times> pyv) list \<Rightarrow> nat" where
  "next_sequence rows = Suc (foldr max (map fst rows) 0)"

definition select_id :: "(nat \<times> string \<times> pyv) list \<Rightarrow> string \<Rightarrow> (nat \<times> pyv) option" where
  "select_id rows i = map_option (\<lambda>(n, _, p). (n, p)) (find (\<lambda>(n, k, p). k = i) rows)"

definition sqlite_append :: "sqlite_journal \<Rightarrow> rec \<Rightarrow> (journal_error + nat) \<times> sqlite_journal" where
  "sqlite_append j event =
    (case journal_event event of
       Inl e \<Rightarrow> (Inl e, j)
     | Inr event \<Rightarrow>
         (let payload = wire event in
          case sqlite_open j of
            Some e \<Rightarrow> (Inl e, j)
          | None \<Rightarrow>
              (let outcome = sq_fault j (sq_calls j); j = j\<lparr>sq_calls := Suc (sq_calls j)\<rparr> in
               if outcome = Fails then (Inl CannotAppend, j)
               else case select_id (sq_rows j) (event_id event) of
                 Some (sequence, stored) \<Rightarrow>
                   (if stored \<noteq> payload then (Inl EventConflict, j)
                    else if outcome = Works then (Inr sequence, j) else (Inl CannotAppend, j))
               | None \<Rightarrow>
                   (let sequence = next_sequence (sq_rows j);
                        j = j\<lparr>sq_rows := sq_rows j @ [(sequence, event_id event, payload)]\<rparr>
                    in if outcome = Works then (Inr sequence, j) else (Inl CannotAppend, j)))))"

fun load_rows :: "(nat \<times> string \<times> pyv) list \<Rightarrow> journal_error + (nat \<times> rec) list" where
  "load_rows [] = Inr []"
| "load_rows ((sequence, identifier, payload) # rows) =
    (if \<not> dicts_ok payload then Inl CannotRead
     else case decode payload of
       Inl e \<Rightarrow> Inl CannotRead
     | Inr event \<Rightarrow>
         (if \<not> is_entry event \<or> event_id event \<noteq> identifier then Inl IdentityMismatch
          else bind_res (load_rows rows) (\<lambda>result. Inr ((sequence, event) # result))))"

definition sqlite_read :: "sqlite_journal \<Rightarrow> pyv \<Rightarrow> (journal_error + (nat \<times> rec) list) \<times> sqlite_journal" where
  "sqlite_read j after =
    (case first_error [cursor_error after, sqlite_open j] of
       Some e \<Rightarrow> (Inl e, j)
     | None \<Rightarrow>
         (let outcome = sq_fault j (sq_calls j); j = j\<lparr>sq_calls := Suc (sq_calls j)\<rparr> in
          if outcome \<noteq> Works then (Inl CannotRead, j)
          else (load_rows (filter (\<lambda>(sequence, _). cursor_nat after < sequence) (sq_rows j)), j)))"

definition sqlite_close :: "sqlite_journal \<Rightarrow> journal_error option \<times> sqlite_journal" where
  "sqlite_close j =
    (case check_owner (sq_lock j) of
       Some e \<Rightarrow> (Some e, j)
     | None \<Rightarrow> (None, j\<lparr>sq_closed := True\<rparr>))"

subsection \<open>Opening the database file\<close>

text \<open>
  What the constructor sees of the file system: the metadata of the parent and of the opened file,
  whether \<open>os.open\<close> created it, whether the advisory lock was free, the header of an existing
  database, and the device and inode of the path afterwards. \<open>None\<close> stands for a call that raises. The masks 18 and 63 are the octal \<open>022\<close> and \<open>077\<close>.
\<close>

record file_view =
  fv_euid :: nat
  fv_parent :: "(bool \<times> nat \<times> nat) option"
  fv_opened :: "(bool \<times> bool \<times> nat \<times> nat \<times> nat \<times> nat \<times> nat) option"
  fv_lock_free :: bool
  fv_header :: "(nat \<times> nat) option"
  fv_current :: "(nat \<times> nat) option"
  fv_connects :: bool
  fv_rows :: "(nat \<times> string \<times> pyv) list"

definition journal_version :: nat where
  "journal_version = 1"

definition application_id :: nat where
  "application_id = 0x4152474A"

definition sqlite_init :: "nat \<Rightarrow> (nat \<Rightarrow> fault) \<Rightarrow> file_view \<Rightarrow> journal_error + sqlite_journal" where
  "sqlite_init pid faults v =
    (case fv_parent v of
       None \<Rightarrow> Inl CannotOpen
     | Some (parent_is_dir, parent_uid, parent_mode) \<Rightarrow>
         (if \<not> parent_is_dir \<or> parent_uid \<noteq> fv_euid v \<or> and parent_mode 18 \<noteq> 0 then Inl BadParent
          else case fv_opened v of
            None \<Rightarrow> Inl CannotOpen
          | Some (created, regular, uid, mode, nlink, dev, ino) \<Rightarrow>
              (if \<not> regular \<or> uid \<noteq> fv_euid v \<or> and mode 63 \<noteq> 0 \<or> nlink \<noteq> 1 then Inl NotPrivateFile
               else if \<not> fv_lock_free v then Inl CannotOpen
               else case (if created then Inr () else
                   case fv_header v of
                     None \<Rightarrow> Inl CannotOpen
                   | Some (version, application) \<Rightarrow>
                       if version \<noteq> journal_version \<or> application \<noteq> application_id
                       then Inl UnknownDatabase else Inr ()) of
                 Inl e \<Rightarrow> Inl e
               | Inr _ \<Rightarrow>
                   (case fv_current v of
                      None \<Rightarrow> Inl CannotOpen
                    | Some now \<Rightarrow>
                        (if now \<noteq> (dev, ino) then Inl PathChanged
                         else if \<not> fv_connects v then Inl CannotOpen
                         else Inr \<lparr>sq_lock = \<lparr>lk_owner = pid, lk_pid = pid\<rparr>,
                             sq_rows = (if created then [] else fv_rows v), sq_fault = faults,
                             sq_calls = 0, sq_closed = False\<rparr>)))))"

section \<open>The contract of a journal\<close>

record 'j journal_ops =
  jo_enter :: "'j \<Rightarrow> journal_error option"
  jo_append :: "'j \<Rightarrow> rec \<Rightarrow> (journal_error + nat) \<times> 'j"
  jo_read :: "'j \<Rightarrow> pyv \<Rightarrow> (journal_error + (nat \<times> rec) list) \<times> 'j"

locale journal_adapter =
  fixes ops :: "'j journal_ops"
    and log :: "'j \<Rightarrow> pyv list"
    and inv :: "'j \<Rightarrow> bool"
  assumes append_inv: "inv j \<Longrightarrow> jo_append ops j r = (x, j') \<Longrightarrow> inv j'"
    and read_inv: "inv j \<Longrightarrow> jo_read ops j c = (y, j') \<Longrightarrow> inv j'"
    and append_ok: "inv j \<Longrightarrow> jo_append ops j r = (Inr n, j') \<Longrightarrow>
      \<exists>s. snapshot r = Inr s \<and> is_entry s \<and>
        (log j' = log j @ [wire s] \<or> log j' = log j \<and> wire s \<in> set (log j))"
    and append_error: "inv j \<Longrightarrow> jo_append ops j r = (Inl e, j') \<Longrightarrow>
      log j' = log j \<or> (\<exists>s. snapshot r = Inr s \<and> is_entry s \<and> log j' = log j @ [wire s])"
    and read_ok: "inv j \<Longrightarrow> jo_read ops j (VInt 0) = (Inr es, j') \<Longrightarrow>
      log j' = log j \<and> map (wire \<circ> snd) es = log j"
    and read_error: "inv j \<Longrightarrow> jo_read ops j (VInt 0) = (Inl e, j') \<Longrightarrow> log j' = log j"
begin

lemma append_extends:
  assumes "inv j" and "jo_append ops j r = (x, j')"
  shows "\<exists>ws. log j' = log j @ ws \<and> length ws \<le> 1 \<and> (\<forall>w \<in> set ws. \<exists>s. snapshot r = Inr s \<and> w = wire s)"
proof (cases x)
  case (Inl e)
  from append_error[OF assms[unfolded Inl]] show ?thesis
  proof
    assume "log j' = log j"
    then show ?thesis by (intro exI[of _ "[]"]) simp
  next
    assume "\<exists>s. snapshot r = Inr s \<and> is_entry s \<and> log j' = log j @ [wire s]"
    then obtain s where "snapshot r = Inr s" "log j' = log j @ [wire s]" by blast
    then show ?thesis by (intro exI[of _ "[wire s]"]) simp
  qed
next
  case (Inr n)
  obtain s where s: "snapshot r = Inr s" "log j' = log j @ [wire s] \<or> log j' = log j"
    using append_ok[OF assms[unfolded Inr]] by blast
  then show ?thesis
    by (elim disjE) (rule exI[of _ "[wire s]"], simp, rule exI[of _ "[]"], simp)
qed

lemma append_keeps: "inv j \<Longrightarrow> jo_append ops j r = (x, j') \<Longrightarrow> set (log j) \<subseteq> set (log j')"
  using append_extends by fastforce

lemma append_persists:
  "inv j \<Longrightarrow> jo_append ops j r = (Inr n, j') \<Longrightarrow> \<exists>s. snapshot r = Inr s \<and> wire s \<in> set (log j')"
  using append_ok by fastforce

lemma read_keeps: "inv j \<Longrightarrow> jo_read ops j (VInt 0) = (y, j') \<Longrightarrow> log j' = log j"
  using read_ok read_error by (cases y) blast+

lemma read_after_append:
  assumes "inv j" and "jo_append ops j r = (Inr n, j')" and "jo_read ops j' (VInt 0) = (Inr es, j'')"
  shows "\<exists>s x. snapshot r = Inr s \<and> x \<in> set es \<and> wire (snd x) = wire s"
proof -
  obtain s where s: "snapshot r = Inr s" "wire s \<in> set (log j')"
    using append_persists[OF assms(1,2)] by blast
  moreover have "map (wire \<circ> snd) es = log j'"
    using read_ok[OF append_inv[OF assms(1,2)] assms(3)] by blast
  ultimately have "wire s \<in> set (map (wire \<circ> snd) es)" by simp
  then obtain x where "x \<in> set es" "wire (snd x) = wire s" by auto
  with s(1) show ?thesis by blast
qed

end

section \<open>The memory journal keeps the contract\<close>

definition memory_ops :: "memory_journal journal_ops" where
  "memory_ops = \<lparr>jo_enter = (\<lambda>j. check_owner (mj_lock j)), jo_append = memory_append, jo_read = memory_read\<rparr>"

definition memory_log :: "memory_journal \<Rightarrow> pyv list" where
  "memory_log j = map (wire \<circ> snd) (mj_events j)"

text \<open>Sequences count from one, the index has every entry under its identifier, and entries are
  frozen records.\<close>

definition memory_inv :: "memory_journal \<Rightarrow> bool" where
  "memory_inv j \<longleftrightarrow> map fst (mj_events j) = [1..<Suc (length (mj_events j))]
     \<and> mj_ids j = map (\<lambda>x. (event_id (snd x), x)) (mj_events j)
     \<and> distinct (map (event_id \<circ> snd) (mj_events j))
     \<and> (\<forall>x \<in> set (mj_events j). is_entry (snd x) \<and> snapshot (snd x) = Inr (snd x))"

lemma is_entry_freeze [simp]: "is_entry (freeze_rec r) = is_entry r"
  by (cases r) simp_all

lemma event_id_freeze [simp]: "event_id (freeze_rec r) = event_id r"
  by (cases r) simp_all

lemma journal_event_Inr:
  "journal_event r = Inr s \<longleftrightarrow> is_entry r \<and> snapshot r = Inr s"
  by (auto simp: journal_event_def split: sum.splits)

lemma snapshot_event:
  "snapshot r = Inr s \<Longrightarrow> is_entry s = is_entry r" "snapshot r = Inr s \<Longrightarrow> event_id s = event_id r"
  by (auto simp: snapshot_eq_Inr)

lemma update_new_key: "k \<notin> set (map fst d) \<Longrightarrow> AList.update k v d = d @ [(k, v)]"
  by (induction d) auto

lemma memory_append_new:
  assumes "memory_inv j" and "snapshot r = Inr s" and "is_entry r"
    and new: "map_of (mj_ids j) (event_id r) = None"
  shows "memory_inv (j\<lparr>mj_events := mj_events j @ [(Suc (length (mj_events j)), s)],
    mj_ids := AList.update (event_id r) (Suc (length (mj_events j)), s) (mj_ids j)\<rparr>)"
proof -
  have "event_id r \<notin> set (map fst (mj_ids j))"
    using new by (simp add: map_of_eq_None_iff)
  then show ?thesis
    using assms snapshot_idem[OF assms(2)] snapshot_event[OF assms(2)]
    by (auto simp: memory_inv_def update_new_key comp_def image_image)
qed

lemma memory_append_inv: "memory_inv j \<Longrightarrow> memory_append j r = (x, j') \<Longrightarrow> memory_inv j'"
  by (auto simp: memory_append_def journal_event_Inr Let_def snapshot_event intro: memory_append_new
      split: sum.splits option.splits if_splits)

lemma memory_id_lookup:
  assumes "memory_inv j" and "map_of (mj_ids j) k = Some (n, e)"
  shows "(n, e) \<in> set (mj_events j) \<and> event_id e = k"
proof -
  have "mj_ids j = map (\<lambda>x. (event_id (snd x), x)) (mj_events j)"
    using assms(1) by (simp add: memory_inv_def)
  with map_of_SomeD[OF assms(2)] show ?thesis by auto
qed

lemma memory_append_ok:
  assumes "memory_inv j" and "memory_append j r = (Inr n, j')"
  shows "\<exists>s. snapshot r = Inr s \<and> is_entry s \<and>
    (memory_log j' = memory_log j @ [wire s] \<or> memory_log j' = memory_log j \<and> wire s \<in> set (memory_log j))"
proof -
  obtain s where s: "is_entry r" "snapshot r = Inr s"
    using assms(2) by (auto simp: memory_append_def journal_event_Inr split: sum.splits)
  show ?thesis
  proof (cases "map_of (mj_ids j) (event_id s)")
    case None
    then have "memory_log j' = memory_log j @ [wire s]"
      using assms(2) s by (auto simp: memory_append_def journal_event_def memory_log_def Let_def
          split: option.splits)
    with s snapshot_event[OF s(2)] show ?thesis by simp
  next
    case (Some x)
    then have "wire (snd x) = wire s" "j' = j"
      using assms(2) s by (auto simp: memory_append_def journal_event_def split: option.splits prod.splits if_splits)
    moreover have "x \<in> set (mj_events j)"
      using memory_id_lookup[OF assms(1)] Some by (cases x) blast
    ultimately have "wire s \<in> set (memory_log j)" by (force simp: memory_log_def)
    with s snapshot_event[OF s(2)] \<open>j' = j\<close> show ?thesis by simp
  qed
qed

lemma memory_append_error: "memory_append j r = (Inl e, j') \<Longrightarrow> j' = j"
  by (auto simp: memory_append_def Let_def split: sum.splits option.splits if_splits)

lemma memory_read_state: "memory_read j c = (y, j') \<Longrightarrow> j' = j"
  by (auto simp: memory_read_def split: option.splits)

lemma memory_read_ok: "memory_read j (VInt 0) = (Inr es, j') \<Longrightarrow> es = mj_events j"
  by (auto simp: memory_read_def cursor_error_def cursor_nat_def split: option.splits)

interpretation mj: journal_adapter memory_ops memory_log memory_inv
proof unfold_locales
qed (auto simp: memory_ops_def memory_log_def dest: memory_append_inv memory_append_error
    memory_read_state memory_read_ok memory_append_ok[unfolded memory_log_def])

section \<open>The SQLite journal keeps the contract\<close>

definition sqlite_ops :: "sqlite_journal journal_ops" where
  "sqlite_ops = \<lparr>jo_enter = (\<lambda>j. check_owner (sq_lock j)), jo_append = sqlite_append, jo_read = sqlite_read\<rparr>"

definition sqlite_log :: "sqlite_journal \<Rightarrow> pyv list" where
  "sqlite_log j = map (\<lambda>x. snd (snd x)) (sq_rows j)"

definition sqlite_inv :: "sqlite_journal \<Rightarrow> bool" where
  "sqlite_inv j \<longleftrightarrow> sorted_wrt (<) (0 # map fst (sq_rows j)) \<and> (\<forall>p \<in> set (sqlite_log j). canon p = p)"

lemma canon_wire [simp]: "canon (wire r) = wire r"
  by (simp add: wire_def canon_idem)

lemma foldr_max_ge: "x \<in> set xs \<Longrightarrow> x \<le> foldr max xs (0::nat)"
  by (induction xs) auto

lemma next_sequence_greater: "(n, i, p) \<in> set rows \<Longrightarrow> n < next_sequence rows"
  using foldr_max_ge[of n "map fst rows"] by (force simp: next_sequence_def less_Suc_eq_le)

lemma select_id_Some: "select_id rows i = Some (n, p) \<Longrightarrow> (n, i, p) \<in> set rows"
  by (auto simp: select_id_def find_Some_iff in_set_conv_nth)

lemma sqlite_inv_insert:
  assumes "sqlite_inv j"
  shows "sqlite_inv (j\<lparr>sq_calls := c, sq_rows := sq_rows j @ [(next_sequence (sq_rows j), i, wire s)]\<rparr>)"
proof -
  have "n < next_sequence (sq_rows j)" if "n \<in> set (map fst (sq_rows j))" for n
    using that next_sequence_greater by fastforce
  moreover have "0 < next_sequence (sq_rows j)" by (simp add: next_sequence_def)
  ultimately show ?thesis
    using assms by (auto simp: sqlite_inv_def sqlite_log_def sorted_wrt_append)
qed

lemma sqlite_inv_calls [simp]: "sqlite_inv (j\<lparr>sq_calls := c\<rparr>) = sqlite_inv j"
  by (simp add: sqlite_inv_def sqlite_log_def)

lemma sqlite_append_inv: "sqlite_inv j \<Longrightarrow> sqlite_append j r = (x, j') \<Longrightarrow> sqlite_inv j'"
  by (auto simp: sqlite_append_def Let_def sqlite_inv_insert
      split: sum.splits option.splits if_splits)

lemma sqlite_append_ok:
  assumes "sqlite_append j r = (Inr n, j')"
  shows "\<exists>s. snapshot r = Inr s \<and> is_entry s \<and>
    (sqlite_log j' = sqlite_log j @ [wire s] \<or> sqlite_log j' = sqlite_log j \<and> wire s \<in> set (sqlite_log j))"
  using assms
  by (auto simp: sqlite_append_def journal_event_Inr Let_def sqlite_log_def snapshot_event
      dest!: select_id_Some intro!: image_eqI split: sum.splits option.splits if_splits)

lemma sqlite_append_error:
  assumes "sqlite_append j r = (Inl e, j')"
  shows "sqlite_log j' = sqlite_log j \<or>
    (\<exists>s. snapshot r = Inr s \<and> is_entry s \<and> sqlite_log j' = sqlite_log j @ [wire s])"
  using assms
  by (auto simp: sqlite_append_def journal_event_Inr Let_def sqlite_log_def snapshot_event
      split: sum.splits option.splits if_splits)

lemma load_rows_wire:
  assumes "load_rows rows = Inr es" and "\<forall>x \<in> set rows. canon (snd (snd x)) = snd (snd x)"
  shows "map (wire \<circ> snd) es = map (\<lambda>x. snd (snd x)) rows \<and> map fst es = map fst rows"
  using assms
  by (induction rows arbitrary: es rule: load_rows.induct)
    (auto simp: decode_wire split: sum.splits if_splits)

lemma sqlite_read_rows: "sqlite_read j c = (y, j') \<Longrightarrow> sq_rows j' = sq_rows j"
  by (auto simp: sqlite_read_def Let_def split: option.splits if_splits)

lemma sqlite_read_inv: "sqlite_inv j \<Longrightarrow> sqlite_read j c = (y, j') \<Longrightarrow> sqlite_inv j'"
  using sqlite_read_rows by (simp add: sqlite_inv_def sqlite_log_def)

lemma positive_rows:
  "sqlite_inv j \<Longrightarrow> filter (\<lambda>(sequence, _). 0 < sequence) (sq_rows j) = sq_rows j"
  by (auto simp: sqlite_inv_def filter_id_conv)

lemma sqlite_read_ok:
  assumes "sqlite_inv j" and "sqlite_read j (VInt 0) = (Inr es, j')"
  shows "map (wire \<circ> snd) es = sqlite_log j"
proof -
  have "load_rows (sq_rows j) = Inr es"
    using assms positive_rows[OF assms(1)]
    by (auto simp: sqlite_read_def Let_def cursor_error_def cursor_nat_def split: option.splits if_splits)
  then show ?thesis
    using load_rows_wire[of "sq_rows j" es] assms(1) by (auto simp: sqlite_inv_def sqlite_log_def)
qed

interpretation sq: journal_adapter sqlite_ops sqlite_log sqlite_inv
proof unfold_locales
qed (auto simp: sqlite_ops_def dest: sqlite_append_inv sqlite_read_inv sqlite_append_ok
    sqlite_append_error sqlite_read_ok, auto simp: sqlite_log_def dest: sqlite_read_rows)

section \<open>The SQLite journal refines the memory journal\<close>

lemma dicts_ok_canon [simp]: "dicts_ok (canon v) = dicts_ok v"
  by (induction v rule: canon.induct) (auto simp: list_all_iff comp_def case_prod_beta)

lemma event_id_wire: "is_entry r \<Longrightarrow> map_of (items (wire r)) ''event_id'' = Some (VStr (event_id r))"
  by (cases r) (simp_all add: map_of_wire)

lemma kind_wire: "map_of (items (wire r)) ''kind'' = Some (VStr (kind_of r))"
  by (simp add: map_of_wire)

lemma is_entry_kind: "is_entry r \<longleftrightarrow> kind_of r \<in> {''event'', ''interaction'', ''voice-observation''}"
  by (cases r) simp_all

lemma same_wire_entry:
  assumes "wire r = wire s" and "is_entry s"
  shows "is_entry r \<and> event_id r = event_id s"
proof -
  have "kind_of r = kind_of s" using kind_wire[of r] kind_wire[of s] assms(1) by simp
  then have "is_entry r" using assms(2) is_entry_kind by metis
  then show ?thesis using event_id_wire[of r] event_id_wire[of s] assms by simp
qed

lemma decode_canon:
  assumes "decode p = Inr r" and "dicts_ok p"
  shows "\<exists>r'. decode (canon p) = Inr r' \<and> wire r' = wire r"
proof -
  obtain d k s where d: "p = VDict d" "json_ok p" "map_of d ''kind'' = Some (VStr k)"
    and s: "map_of record_schemas k = Some s" "validate s p = None" "fields_agree k d = None"
    using assms(1) by (auto simp: decode_eq_Inr)
  let ?c = "items (canon p)"
  have c: "canon p = VDict ?c" using d(1) by simp
  have look: "map_of ?c x = map_option canon (map_of d x)" for x
    using map_of_canon[of d x] assms(2) d(1) by simp
  have "map_option canon (map_of ?c x) = map_option canon (map_of d x)" for x
    by (simp add: look option.map_comp comp_def canon_idem)
  then have "fields_agree k ?c = None" using s(3) fields_agree_cong[of ?c d] by simp
  then have "\<exists>r'. decode (canon p) = Inr r'"
    unfolding decode_total using c d s(1,2) look[of "''kind''"]
    by (auto simp: json_ok_canon validate_canon simp del: canon.simps)
  then obtain r' where r': "decode (canon p) = Inr r'" by blast
  have "wire r' = canon p" using decode_wire[OF r'] assms(2) by (simp add: canon_idem)
  with r' show ?thesis using decode_wire[OF assms] by auto
qed

definition row_of :: "nat \<times> rec \<Rightarrow> nat \<times> string \<times> pyv" where
  "row_of x = (fst x, event_id (snd x), wire (snd x))"

text \<open>The two journals hold the same entries: one as records with an index, the other as rows.\<close>

definition same_journal :: "memory_journal \<Rightarrow> sqlite_journal \<Rightarrow> bool" where
  "same_journal m q \<longleftrightarrow> mj_lock m = sq_lock q \<and> mj_closed m = sq_closed q \<and> memory_inv m
     \<and> sq_rows q = map row_of (mj_events m) \<and> (\<forall>x \<in> set (mj_events m). dicts_ok (wire (snd x)))"

lemma decode_wire_entry:
  assumes "is_entry e" and "snapshot e = Inr e" and "dicts_ok (wire e)"
  shows "\<exists>e'. decode (wire e) = Inr e' \<and> is_entry e' \<and> event_id e' = event_id e \<and> wire e' = wire e"
proof -
  have "decode (thaw_rec e) = Inr e" "dicts_ok (thaw_rec e)"
    using assms(2,3) by (auto simp: snapshot_eq_Inr wire_def)
  then obtain e' where "decode (wire e) = Inr e'" "wire e' = wire e"
    using decode_canon by (auto simp: wire_def)
  with same_wire_entry[OF this(2) assms(1)] show ?thesis by blast
qed

lemma load_rows_entries:
  assumes "\<forall>x \<in> set xs. is_entry (snd x) \<and> snapshot (snd x) = Inr (snd x) \<and> dicts_ok (wire (snd x))"
  shows "\<exists>es. load_rows (map row_of xs) = Inr es \<and> map (\<lambda>x. (fst x, wire (snd x))) es
    = map (\<lambda>x. (fst x, wire (snd x))) xs"
  using assms
proof (induction xs)
  case (Cons x xs)
  obtain e' where "decode (wire (snd x)) = Inr e'" "is_entry e'"
      "event_id e' = event_id (snd x)" "wire e' = wire (snd x)"
    using decode_wire_entry[of "snd x"] Cons.prems by (metis list.set_intros(1))
  moreover obtain es where "load_rows (map row_of xs) = Inr es"
      "map (\<lambda>x. (fst x, wire (snd x))) es = map (\<lambda>x. (fst x, wire (snd x))) xs"
    using Cons.IH Cons.prems by auto
  moreover have "dicts_ok (wire (snd x))" using Cons.prems by simp
  ultimately show ?case by (auto simp: row_of_def[of x])
qed simp

lemma same_journal_open: "same_journal m q \<Longrightarrow> sqlite_open q = memory_open m"
  by (simp add: same_journal_def sqlite_open_def memory_open_def)

lemma find_row: "find (\<lambda>(n, k, p). k = i) (map row_of xs) = map_option row_of (find (\<lambda>x. event_id (snd x) = i) xs)"
  by (induction xs) (auto simp: row_of_def)

lemma map_of_find: "map_of (map (\<lambda>x. (f x, x)) xs) i = find (\<lambda>x. f x = i) xs"
  by (induction xs) auto

lemma same_journal_select:
  assumes "same_journal m q"
  shows "select_id (sq_rows q) i = map_option (\<lambda>x. (fst x, wire (snd x))) (map_of (mj_ids m) i)"
proof -
  have ids: "mj_ids m = map (\<lambda>x. (event_id (snd x), x)) (mj_events m)"
    and rows: "sq_rows q = map row_of (mj_events m)"
    using assms by (simp_all add: same_journal_def memory_inv_def)
  show ?thesis
    by (cases "find (\<lambda>x. event_id (snd x) = i) (mj_events m)")
      (simp_all add: ids rows select_id_def find_row map_of_find[of "\<lambda>x. event_id (snd x)"] row_of_def)
qed

lemma foldr_max_upt: "foldr max [1..<Suc n] 0 = n"
proof (rule antisym)
  have "\<forall>x \<in> set xs. x \<le> n \<Longrightarrow> foldr max xs 0 \<le> n" for xs by (induction xs) auto
  then show "foldr max [1..<Suc n] 0 \<le> n" by (metis atLeastLessThan_iff less_Suc_eq_le set_upt)
  show "n \<le> foldr max [1..<Suc n] 0"
    using foldr_max_ge[of n "[1..<Suc n]"] by (cases n) auto
qed

lemma same_journal_next:
  assumes "same_journal m q"
  shows "next_sequence (sq_rows q) = Suc (length (mj_events m))"
proof -
  have "map fst (mj_events m) = [1..<Suc (length (mj_events m))]"
    using assms unfolding same_journal_def memory_inv_def by blast
  moreover have "map fst (sq_rows q) = map fst (mj_events m)"
    using assms by (simp add: same_journal_def row_of_def)
  ultimately show ?thesis by (simp only: next_sequence_def foldr_max_upt)
qed

lemma same_journal_append:
  assumes same: "same_journal m q" and "sq_fault q (sq_calls q) = Works" and "dicts_ok (thaw_rec r)"
    and "memory_append m r = (x, m')" and "sqlite_append q r = (y, q')"
  shows "y = x \<and> same_journal m' q'"
proof (cases "journal_event r")
  case (Inl e)
  then show ?thesis using assms by (simp add: memory_append_def sqlite_append_def)
next
  case (Inr s)
  then have s: "snapshot r = Inr s" "is_entry r" by (simp_all add: journal_event_Inr)
  have ok: "dicts_ok (wire s)"
    using s(1) assms(3) snapshot_idem[OF s(1)] by (simp add: wire_def)
  note facts = memory_append_def sqlite_append_def Inr Let_def same_journal_open[OF same]
    same_journal_select[OF same] same_journal_next[OF same]
  have calls: "same_journal m (q\<lparr>sq_calls := c\<rparr>)" for c using same by (simp add: same_journal_def)
  show ?thesis
  proof (cases "map_of (mj_ids m) (event_id s)")
    case None
    have "same_journal (m\<lparr>mj_events := mj_events m @ [(Suc (length (mj_events m)), s)],
        mj_ids := AList.update (event_id r) (Suc (length (mj_events m)), s) (mj_ids m)\<rparr>)
      (q\<lparr>sq_calls := c, sq_rows := sq_rows q @ [(Suc (length (mj_events m)), event_id r, wire s)]\<rparr>)" for c
      using same ok memory_append_new[of m r s] None s snapshot_event[OF s(1)]
      by (auto simp: same_journal_def row_of_def)
    with None assms snapshot_event[OF s(1)] calls show ?thesis
      by (auto simp: facts split: option.splits)
  next
    case (Some z)
    with assms calls show ?thesis
      by (auto simp: facts split: option.splits prod.splits if_splits)
  qed
qed

lemma drop_rows:
  assumes "map fst (xs :: (nat \<times> rec) list) = [1..<Suc (length xs)]"
  shows "filter (\<lambda>(sequence, _). n < sequence) (map row_of xs) = map row_of (drop n xs)"
proof -
  have nth: "fst (xs ! i) = Suc i" if "i < length xs" for i
    using assms nth_map[OF that, of fst] that by (simp only: nth_upt)
  have "filter (\<lambda>x. n < fst x) ys = drop (n - k) ys"
    if "\<forall>i < length ys. fst (ys ! i) = Suc (k + i)" for k and ys :: "(nat \<times> rec) list"
    using that
  proof (induction ys arbitrary: k)
    case (Cons y ys)
    then have "fst y = Suc k" "\<forall>i < length ys. fst (ys ! i) = Suc (Suc k + i)" by auto
    with Cons.IH[of "Suc k"] show ?case by (cases "n \<le> k") (auto simp: drop_Cons' Suc_diff_le)
  qed simp
  from this[of xs 0] nth have "filter (\<lambda>x. n < fst x) xs = drop n xs" by simp
  then show ?thesis by (simp add: filter_map row_of_def comp_def case_prod_beta)
qed

lemma same_journal_read:
  assumes same: "same_journal m q" and "sq_fault q (sq_calls q) = Works"
    and "memory_read m c = (x, m')" and "sqlite_read q c = (y, q')"
  shows "same_journal m' q' \<and> rel_sum (=) (\<lambda>es fs. map (\<lambda>x. (fst x, wire (snd x))) es = map (\<lambda>x. (fst x, wire (snd x))) fs) x y"
proof (cases "first_error [cursor_error c, memory_open m]")
  case None
  have upt: "map fst (mj_events m) = [1..<Suc (length (mj_events m))]"
    and rows: "sq_rows q = map row_of (mj_events m)"
    using same unfolding same_journal_def memory_inv_def by blast+
  have "\<forall>x \<in> set (drop n (mj_events m)). is_entry (snd x) \<and> snapshot (snd x) = Inr (snd x) \<and> dicts_ok (wire (snd x))" for n
    using same unfolding same_journal_def memory_inv_def by (meson in_set_dropD)
  from load_rows_entries[OF this] obtain es where
    "load_rows (map row_of (drop (cursor_nat c) (mj_events m))) = Inr es"
    "map (\<lambda>x. (fst x, wire (snd x))) es = map (\<lambda>x. (fst x, wire (snd x))) (drop (cursor_nat c) (mj_events m))"
    by blast
  moreover from this have "sqlite_read q c = (Inr es, q\<lparr>sq_calls := Suc (sq_calls q)\<rparr>)"
    using assms(2) None same_journal_open[OF same]
    by (simp add: sqlite_read_def rows drop_rows[OF upt] Let_def)
  moreover have "memory_read m c = (Inr (drop (cursor_nat c) (mj_events m)), m)"
    using None by (simp add: memory_read_def)
  moreover have "same_journal m (q\<lparr>sq_calls := Suc (sq_calls q)\<rparr>)"
    using same by (simp add: same_journal_def)
  ultimately show ?thesis using assms(3,4) by simp
next
  case (Some e)
  then show ?thesis
    using assms same_journal_open[OF same] by (auto simp: memory_read_def sqlite_read_def)
qed

section \<open>Scripts of journal calls\<close>

datatype jcall = JAppend rec | JRead pyv

datatype jreply = Appended "journal_error + nat" | ReadBack "journal_error + (nat \<times> pyv) list"

definition texts :: "journal_error + (nat \<times> rec) list \<Rightarrow> journal_error + (nat \<times> pyv) list" where
  "texts x = map_sum id (map (\<lambda>e. (fst e, wire (snd e)))) x"

fun run_calls :: "'j journal_ops \<Rightarrow> jcall list \<Rightarrow> 'j \<Rightarrow> jreply list \<times> 'j" where
  "run_calls ops [] j = ([], j)"
| "run_calls ops (JAppend r # cs) j =
    (let (x, j1) = jo_append ops j r; (rs, j2) = run_calls ops cs j1 in (Appended x # rs, j2))"
| "run_calls ops (JRead c # cs) j =
    (let (x, j1) = jo_read ops j c; (rs, j2) = run_calls ops cs j1 in (ReadBack (texts x) # rs, j2))"

fun call_ok :: "jcall \<Rightarrow> bool" where
  "call_ok (JAppend r) = dicts_ok (thaw_rec r)"
| "call_ok (JRead c) = True"

lemma sqlite_keeps_faults:
  "sqlite_append q r = (x, q') \<Longrightarrow> sq_fault q' = sq_fault q"
  "sqlite_read q c = (y, q') \<Longrightarrow> sq_fault q' = sq_fault q"
  by (auto simp: sqlite_append_def sqlite_read_def Let_def split: sum.splits option.splits if_splits)

lemma rel_texts:
  "rel_sum (=) (\<lambda>es fs. map (\<lambda>x. (fst x, wire (snd x))) es = map (\<lambda>x. (fst x, wire (snd x))) fs) x y
    \<Longrightarrow> texts x = texts y"
  by (cases x; cases y) (simp_all add: texts_def)

lemma run_calls_same:
  assumes "same_journal m q" and "\<forall>n. sq_fault q n = Works" and "list_all call_ok cs"
  shows "fst (run_calls sqlite_ops cs q) = fst (run_calls memory_ops cs m)
    \<and> same_journal (snd (run_calls memory_ops cs m)) (snd (run_calls sqlite_ops cs q))"
  using assms
proof (induction cs arbitrary: m q)
  case (Cons c cs)
  show ?case
  proof (cases c)
    case (JAppend r)
    obtain x m' y q' where ops: "memory_append m r = (x, m')" "sqlite_append q r = (y, q')"
      by (metis surj_pair)
    have "y = x \<and> same_journal m' q'"
      using same_journal_append[OF Cons.prems(1) _ _ ops] Cons.prems JAppend by simp
    with Cons.IH[of m' q'] Cons.prems ops JAppend sqlite_keeps_faults(1)[OF ops(2)] show ?thesis
      by (simp add: memory_ops_def sqlite_ops_def case_prod_beta)
  next
    case (JRead k)
    obtain x m' y q' where ops: "memory_read m k = (x, m')" "sqlite_read q k = (y, q')"
      by (metis surj_pair)
    have "same_journal m' q'" "texts x = texts y"
      using same_journal_read[OF Cons.prems(1) _ ops] Cons.prems(2) rel_texts by auto
    with Cons.IH[of m' q'] Cons.prems ops JRead sqlite_keeps_faults(2)[OF ops(2)] show ?thesis
      by (simp add: memory_ops_def sqlite_ops_def case_prod_beta)
  qed
qed simp

definition empty_database :: "nat \<Rightarrow> (nat \<Rightarrow> fault) \<Rightarrow> sqlite_journal" where
  "empty_database pid faults = \<lparr>sq_lock = \<lparr>lk_owner = pid, lk_pid = pid\<rparr>, sq_rows = [],
     sq_fault = faults, sq_calls = 0, sq_closed = False\<rparr>"


definition sample_context :: bag where
  "sample_context = [(''session_id'', VStr ''s''), (''profile_id'', VStr ''p''), (''lane_id'', VNone),
     (''agent_id'', VNone), (''source'', VStr ''panel''), (''provider_id'', VNone),
     (''model_version'', VNone), (''provenance'', VStr ''t''), (''sensitivity'', VStr ''public'')]"

definition sample_interaction :: "string \<Rightarrow> string \<Rightarrow> rec" where
  "sample_interaction i p = RInteraction \<lparr>ia_version = 1, ia_event_id = i, ia_interaction_id = ''c'',
     ia_correlation_id = ''k'', ia_timestamp_ms = 5, ia_context = sample_context, ia_phase = p,
     ia_details = []\<rparr>"

definition sample_script :: "jcall list" where
  "sample_script = [JAppend (sample_interaction ''a'' ''voice.preview''), JRead (VInt 0),
     JAppend (sample_interaction ''a'' ''voice.blocked''), JAppend (sample_interaction ''a'' ''voice.preview'')]"


section \<open>Append-only and idempotent\<close>

definition unique_ids :: "sqlite_journal \<Rightarrow> bool" where
  "unique_ids q \<longleftrightarrow> distinct (map (fst \<circ> snd) (sq_rows q))"

lemma sqlite_append_rows:
  assumes "sqlite_append q r = (x, q')"
  shows "\<exists>new. sq_rows q' = sq_rows q @ new \<and> (unique_ids q \<longrightarrow>
    unique_ids q')"
proof -
  have "i \<notin> set (map (fst \<circ> snd) rows)" if "select_id rows i = None" for rows i
    using that by (induction rows) (auto simp: select_id_def split: if_splits)
  then show ?thesis
    using assms by (fastforce simp: unique_ids_def sqlite_append_def Let_def split: sum.splits option.splits if_splits)
qed

lemma run_calls_rows:
  "\<exists>new. sq_rows (snd (run_calls sqlite_ops cs q)) = sq_rows q @ new \<and>
    (unique_ids q \<longrightarrow>
     unique_ids (snd (run_calls sqlite_ops cs q)))"
proof (induction cs arbitrary: q)
  case (Cons c cs)
  show ?case
  proof (cases c)
    case (JAppend r)
    obtain x q' where q': "sqlite_append q r = (x, q')" by (metis surj_pair)
    from sqlite_append_rows[OF q'] Cons.IH[of q'] q' JAppend show ?thesis
      by (auto simp: sqlite_ops_def case_prod_beta)
  next
    case (JRead k)
    obtain x q' where q': "sqlite_read q k = (x, q')" by (metis surj_pair)
    have "unique_ids q' = unique_ids q" using sqlite_read_rows[OF q'] by (simp add: unique_ids_def)
    with sqlite_read_rows[OF q'] Cons.IH[of q'] q' JRead show ?thesis
      by (auto simp: sqlite_ops_def case_prod_beta)
  qed
qed simp

lemma run_calls_inv: "sqlite_inv q \<Longrightarrow> sqlite_inv (snd (run_calls sqlite_ops cs q))"
proof (induction cs arbitrary: q)
  case (Cons c cs)
  then show ?case
    by (cases c) (auto simp: sqlite_ops_def case_prod_beta
        intro: Cons.IH sqlite_append_inv[OF _ surjective_pairing] sqlite_read_inv[OF _ surjective_pairing])
qed simp

text \<open>The database is append-only and holds an event identifier at most once, whatever fails:
  after any sequence of calls, with statements and commits failing in any pattern, the old rows
  are still the first rows, no identifier occurs twice, and the sequences increase.\<close>

theorem sqlite_append_only:
  assumes "q' = snd (run_calls sqlite_ops cs (snd (run_calls sqlite_ops before (empty_database pid faults))))"
  shows "\<exists>new. sq_rows q' = sq_rows (snd (run_calls sqlite_ops before (empty_database pid faults))) @ new
    \<and> distinct (map (fst \<circ> snd) (sq_rows q')) \<and> sorted_wrt (<) (0 # map fst (sq_rows q'))"
proof -
  let ?q = "snd (run_calls sqlite_ops before (empty_database pid faults))"
  have "unique_ids ?q"
    using run_calls_rows[of before "empty_database pid faults"] by (simp add: empty_database_def unique_ids_def)
  moreover have "sqlite_inv (empty_database pid faults)"
    by (simp add: sqlite_inv_def empty_database_def sqlite_log_def)
  then have "sqlite_inv q'" using assms run_calls_inv by blast
  ultimately show ?thesis
    using run_calls_rows[of cs ?q] assms by (auto simp: sqlite_inv_def unique_ids_def)
qed

theorem sqlite_append_only_witness:
  "distinct (map (fst \<circ> snd) (sq_rows (snd (run_calls sqlite_ops sample_script
     (snd (run_calls sqlite_ops [] (empty_database 7 (\<lambda>n. if n = 0 then FailsCommitted else Works))))))))"
  using sqlite_append_only by blast

text \<open>Appending is idempotent. When an append succeeded, repeating it changes nothing and answers
  the same sequence, and a different record under the same identifier is a conflict that changes
  nothing.\<close>

theorem memory_append_idempotent:
  assumes "memory_inv j" and "memory_append j r = (Inr n, j')"
  shows "memory_append j' r = (Inr n, j') \<and>
    (\<forall>r'. is_entry r' \<and> event_id r' = event_id r \<and> (\<exists>s. snapshot r' = Inr s) \<and> wire r' \<noteq> wire r \<longrightarrow>
       memory_append j' r' = (Inl EventConflict, j'))"
proof -
  obtain s where s: "journal_event r = Inr s" "snapshot r = Inr s" and "open": "memory_open j = None"
    using assms(2) by (auto simp: memory_append_def journal_event_Inr split: sum.splits option.splits)
  have "\<exists>e. map_of (mj_ids j') (event_id r) = Some (n, e) \<and> wire e = wire s"
    using assms(2) s snapshot_event[OF s(2)] "open"
    by (auto simp: memory_append_def Let_def split: option.splits if_splits)
  moreover have "memory_open j' = None"
    using assms(2) s "open" by (auto simp: memory_append_def Let_def memory_open_def split: option.splits if_splits)
  moreover have "wire s = wire r" using snapshot_idem[OF s(2)] by blast
  ultimately show ?thesis
    using s snapshot_event snapshot_idem by (fastforce simp: memory_append_def journal_event_def)
qed

theorem memory_append_idempotent_witness:
  "\<exists>j'. memory_append (memory_init 7) (sample_interaction ''a'' ''voice.preview'') = (Inr 1, j')
    \<and> memory_append j' (sample_interaction ''a'' ''voice.preview'') = (Inr 1, j')"
proof -
  have "fst (memory_append (memory_init 7) (sample_interaction ''a'' ''voice.preview'')) = Inr 1"
    by code_simp
  then obtain j' where "memory_append (memory_init 7) (sample_interaction ''a'' ''voice.preview'') = (Inr 1, j')"
    by (metis prod.collapse)
  moreover have "memory_inv (memory_init 7)" by (simp add: memory_inv_def memory_init_def)
  ultimately show ?thesis using memory_append_idempotent by blast
qed

text \<open>A journal that opens is private: its file grants nothing to group and others and has one
  link, its directory is not writable by group and others, both belong to the effective user, and
  a database that existed carries the version and application of this program.\<close>

theorem sqlite_init_private:
  assumes "sqlite_init pid faults v = Inr j"
  shows "\<exists>parent_mode created mode dev ino.
    fv_parent v = Some (True, fv_euid v, parent_mode) \<and> \<not> bit parent_mode 1 \<and> \<not> bit parent_mode 4
    \<and> fv_opened v = Some (created, True, fv_euid v, mode, 1, dev, ino) \<and> (\<forall>k < 6. \<not> bit mode k)
    \<and> (created \<or> fv_header v = Some (journal_version, application_id)) \<and> fv_current v = Some (dev, ino)
    \<and> sqlite_open j = None"
proof -
  have group: "\<not> bit m k" if "and m 63 = 0" "k < 6" for m k :: nat
  proof -
    have "(63::nat) = mask 6" by (simp add: mask_eq_exp_minus_1)
    then have "bit (63::nat) k" using that(2) by (simp only: bit_mask_iff possible_bit_nat)
    then show ?thesis using that(1) by (metis bit_0_eq bit_and_iff bot_apply bot_bool_def)
  qed
  have dir: "\<not> bit m 1 \<and> \<not> bit m 4" if "and m 18 = 0" for m :: nat
  proof -
    have "bit (18::nat) 1" "bit (18::nat) 4" by (simp_all add: bit_iff_odd)
    then show ?thesis using that by (metis bit_0_eq bit_and_iff bot_apply bot_bool_def)
  qed
  show ?thesis
    using assms group dir
    by (auto simp: sqlite_init_def sqlite_open_def check_owner_def
        split: option.splits if_splits sum.splits)
qed

theorem sqlite_init_private_witness:
  "\<exists>j. sqlite_init 7 (\<lambda>_. Works) \<lparr>fv_euid = 5, fv_parent = Some (True, 5, 448),
     fv_opened = Some (True, True, 5, 384, 1, 2, 3), fv_lock_free = True, fv_header = None,
     fv_current = Some (2, 3), fv_connects = True, fv_rows = []\<rparr> = Inr j \<and> (\<forall>k < 6. \<not> bit (384::nat) k)"
proof -
  let ?v = "\<lparr>fv_euid = 5, fv_parent = Some (True, 5, 448),
     fv_opened = Some (True, True, 5, 384, 1, 2, 3), fv_lock_free = True, fv_header = None,
     fv_current = Some (2, 3), fv_connects = True, fv_rows = []\<rparr>"
  have "sqlite_init 7 (\<lambda>_. Works) ?v = Inr (empty_database 7 (\<lambda>_. Works))"
    by (simp add: sqlite_init_def empty_database_def)
  with sqlite_init_private[OF this] show ?thesis by auto
qed

end
