(* ===== verification/Control_Plane.thy ===== *)
theory Control_Plane
  imports Journal
begin

text \<open>
  The control plane of \<open>src/runtime/core.py\<close>: authorization, confirmation and dispatch of commands.
  \<open>plane\<close> holds the fields of a \<open>ControlPlane\<close> object; \<open>world\<close> holds what several objects share
  or call: the journal, the number of clock, identifier and token calls so far, the number of guard
  calls, and, as a ghost, the list of commands handed to the executor. The environment gives the
  answers: the clock, the identifiers, the \<open>uuid4\<close> tokens and the executor, which may depend on
  everything executed before and may raise. A guard answers true or not at each of its calls.
  Every operation runs to its end under the dispatch lock, and callbacks do not call back into the
  plane.
\<close>

section \<open>State\<close>

record outcome =
  oc_status :: string
  oc_output :: bag
  oc_error :: "error option"

text \<open>What the executor does: it raises, returns something else than an \<open>Outcome\<close>, or returns one.\<close>

datatype exec_reply = ExecRaises | ExecOther | ExecReturns outcome

record env =
  en_clock :: "nat \<Rightarrow> int"
  en_identifiers :: "nat \<Rightarrow> string"
  en_tokens :: "nat \<Rightarrow> string"
  en_executor :: "command list \<Rightarrow> command \<Rightarrow> exec_reply"

type_synonym guard = "(nat \<Rightarrow> bool) option"

record confirmation =
  cf_token :: string
  cf_command :: command
  cf_expires_at_ms :: int

record plane =
  pl_catalog :: "(string \<times> capability) list"
  pl_catalog_version :: int
  pl_catalog_users :: nat
  pl_policy :: policy
  pl_profile :: profile
  pl_seen :: "string set"
  pl_confirmations :: "(string \<times> confirmation \<times> string) list"

record 'j world =
  wd_journal :: 'j
  wd_clocks :: nat
  wd_ids :: nat
  wd_tokens :: nat
  wd_guards :: nat
  wd_executed :: "command list"

datatype exc =
    EContract contract_error
  | EJournal journal_error
  | EConfirmation string
  | EValue string
  | EKey string

section \<open>Snapshots\<close>

definition snapshot_command :: "rec \<Rightarrow> exc + command" where
  "snapshot_command r = (case snapshot r of
     Inl e \<Rightarrow> Inl (EContract e)
   | Inr (RCommand c) \<Rightarrow> Inr c
   | Inr _ \<Rightarrow> Inl (EContract (ExpectedRecord ''Command'')))"

definition snapshot_capability :: "rec \<Rightarrow> exc + capability" where
  "snapshot_capability r = (case snapshot r of
     Inl e \<Rightarrow> Inl (EContract e)
   | Inr (RCapability c) \<Rightarrow> Inr c
   | Inr _ \<Rightarrow> Inl (EContract (ExpectedRecord ''Capability'')))"

definition snapshot_policy :: "rec \<Rightarrow> exc + policy" where
  "snapshot_policy r = (case snapshot r of
     Inl e \<Rightarrow> Inl (EContract e)
   | Inr (RPolicy c) \<Rightarrow> Inr c
   | Inr _ \<Rightarrow> Inl (EContract (ExpectedRecord ''Policy'')))"

definition snapshot_profile :: "rec \<Rightarrow> exc + profile" where
  "snapshot_profile r = (case snapshot r of
     Inl e \<Rightarrow> Inl (EContract e)
   | Inr (RProfile c) \<Rightarrow> Inr c
   | Inr _ \<Rightarrow> Inl (EContract (ExpectedRecord ''Profile'')))"

definition snapshot_result :: "result \<Rightarrow> exc + result" where
  "snapshot_result r = (case snapshot (RResult r) of
     Inl e \<Rightarrow> Inl (EContract e)
   | Inr (RResult s) \<Rightarrow> Inr s
   | Inr _ \<Rightarrow> Inl (EContract (ExpectedRecord ''Result'')))"

definition snapshot_event_record :: "event \<Rightarrow> exc + event" where
  "snapshot_event_record r = (case snapshot (REvent r) of
     Inl e \<Rightarrow> Inl (EContract e)
   | Inr (REvent s) \<Rightarrow> Inr s
   | Inr _ \<Rightarrow> Inl (EContract (ExpectedRecord ''Event'')))"

definition snapshot_interaction :: "interaction \<Rightarrow> exc + interaction" where
  "snapshot_interaction r = (case snapshot (RInteraction r) of
     Inl e \<Rightarrow> Inl (EContract e)
   | Inr (RInteraction s) \<Rightarrow> Inr s
   | Inr _ \<Rightarrow> Inl (EContract (ExpectedRecord ''Interaction'')))"

definition guard_denial :: "guard \<Rightarrow> 'j world \<Rightarrow> string option \<times> 'j world" where
  "guard_denial guard w = (case guard of
     None \<Rightarrow> (None, w)
   | Some g \<Rightarrow> (if g (wd_guards w) then None else Some ''context.stale'',
               w\<lparr>wd_guards := Suc (wd_guards w)\<rparr>))"

section \<open>The catalog\<close>

fun snapshot_all :: "rec list \<Rightarrow> exc + capability list" where
  "snapshot_all [] = Inr []"
| "snapshot_all (r # rs) = bind_res (snapshot_capability r) (\<lambda>c.
     bind_res (snapshot_all rs) (\<lambda>cs. Inr (c # cs)))"

definition catalog_snapshot :: "rec list \<Rightarrow> exc + (string \<times> capability) list \<times> int option" where
  "catalog_snapshot catalog =
    bind_res (snapshot_all (take 257 catalog)) (\<lambda>entries.
      if length entries > 256 then Inl (EValue ''catalog.oversize'')
      else if \<not> distinct (map cap_capability_id entries) then Inl (EValue ''duplicate capability IDs'')
      else if length (remdups (map cap_catalog_version entries)) > 1 then Inl (EValue ''catalog.mixed-revisions'')
      else Inr (map (\<lambda>c. (cap_capability_id c, c)) entries,
                case entries of [] \<Rightarrow> None | c # _ \<Rightarrow> Some (cap_catalog_version c)))"

definition plane_init :: "rec list \<Rightarrow> rec \<Rightarrow> rec \<Rightarrow> exc + plane" where
  "plane_init catalog policy profile =
    bind_res (catalog_snapshot catalog) (\<lambda>(entries, revision).
    bind_res (snapshot_policy policy) (\<lambda>pol.
    bind_res (snapshot_profile profile) (\<lambda>pro.
      Inr \<lparr>pl_catalog = entries, pl_catalog_version = (case revision of None \<Rightarrow> 1 | Some v \<Rightarrow> v),
           pl_catalog_users = 0, pl_policy = pol, pl_profile = pro, pl_seen = {},
           pl_confirmations = []\<rparr>)))"

definition catalog_version :: "'j journal_ops \<Rightarrow> plane \<Rightarrow> 'j world \<Rightarrow> exc + int" where
  "catalog_version ops p w = (case jo_enter ops (wd_journal w) of
     Some e \<Rightarrow> Inl (EJournal e) | None \<Rightarrow> Inr (pl_catalog_version p))"

definition version_arg :: "pyv \<Rightarrow> int option" where
  "version_arg v = (case v of VInt n \<Rightarrow> (if n < 1 then None else Some n) | _ \<Rightarrow> None)"

definition replace_catalog ::
  "'j journal_ops \<Rightarrow> rec list \<Rightarrow> pyv \<Rightarrow> pyv \<Rightarrow> plane \<Rightarrow> 'j world \<Rightarrow> (exc + int) \<times> plane" where
  "replace_catalog ops catalog expected_version new_version p w =
    (case (version_arg expected_version, version_arg new_version) of
       (Some expected, Some new) \<Rightarrow>
         (case catalog_snapshot catalog of
            Inl e \<Rightarrow> (Inl e, p)
          | Inr (replacement, revision) \<Rightarrow>
              (if revision \<noteq> None \<and> revision \<noteq> Some new then (Inl (EValue ''catalog.version''), p)
               else case jo_enter ops (wd_journal w) of
                 Some e \<Rightarrow> (Inl (EJournal e), p)
               | None \<Rightarrow>
                   (if pl_catalog_users p \<noteq> 0 then (Inl (EValue ''catalog.in-use''), p)
                    else if expected \<noteq> pl_catalog_version p \<or> new \<le> pl_catalog_version p
                      then (Inl (EValue ''catalog.stale''), p)
                    else (Inr new, p\<lparr>pl_catalog := replacement, pl_catalog_version := new,
                            pl_confirmations := []\<rparr>))))
     | _ \<Rightarrow> (Inl (EValue ''catalog.version''), p))"

text \<open>\<open>_catalog_use\<close>: the lock is taken and the user count is raised while the body runs.\<close>

definition catalog_use ::
  "'j journal_ops \<Rightarrow> (plane \<Rightarrow> 'j world \<Rightarrow> (exc + 'a) \<times> plane \<times> 'j world) \<Rightarrow> plane \<Rightarrow> 'j world
    \<Rightarrow> (exc + 'a) \<times> plane \<times> 'j world" where
  "catalog_use ops body p w =
    (case jo_enter ops (wd_journal w) of
       Some e \<Rightarrow> (Inl (EJournal e), p, w)
     | None \<Rightarrow>
         (case body (p\<lparr>pl_catalog_users := pl_catalog_users p + 1\<rparr>) w of
            (x, p', w') \<Rightarrow> (x, p'\<lparr>pl_catalog_users := pl_catalog_users p' - 1\<rparr>, w')))"

section \<open>Results and events\<close>

definition tick :: "env \<Rightarrow> 'j world \<Rightarrow> int \<times> 'j world" where
  "tick env w = (en_clock env (wd_clocks w), w\<lparr>wd_clocks := Suc (wd_clocks w)\<rparr>)"

definition fresh_id :: "env \<Rightarrow> 'j world \<Rightarrow> string \<times> 'j world" where
  "fresh_id env w = (en_identifiers env (wd_ids w), w\<lparr>wd_ids := Suc (wd_ids w)\<rparr>)"

definition cp_error :: "string \<Rightarrow> string \<Rightarrow> error" where
  "cp_error reason message = \<lparr>err_version = 1, err_code = reason, err_message = message, err_retryable = False\<rparr>"

definition cp_result ::
  "env \<Rightarrow> command \<Rightarrow> string \<Rightarrow> bag \<Rightarrow> error option \<Rightarrow> 'j world \<Rightarrow> (exc + result) \<times> 'j world" where
  "cp_result env command status out error w =
    (let (i, w) = fresh_id env w in
     (snapshot_result \<lparr>res_version = 1, res_result_id = i, res_command_id = cmd_command_id command,
        res_correlation_id = cmd_correlation_id command, res_status = status, res_output = out,
        res_error = error\<rparr>, w))"

definition cp_event ::
  "env \<Rightarrow> plane \<Rightarrow> command \<Rightarrow> result option \<Rightarrow> int \<Rightarrow> 'j world \<Rightarrow> (exc + event) \<times> 'j world" where
  "cp_event env p command result start w =
    (let (now, w) = tick env w; (i, w) = fresh_id env w in
     (snapshot_event_record \<lparr>evt_version = 1, evt_event_id = i, evt_command_id = cmd_command_id command,
        evt_correlation_id = cmd_correlation_id command,
        evt_event_type = (if result \<noteq> None then ''command.finished'' else ''command.started''),
        evt_timestamp_ms = now,
        evt_status = (case result of Some r \<Rightarrow> res_status r | None \<Rightarrow> ''pending''),
        evt_capability_id = cmd_capability_id command,
        evt_catalog_version = cmd_catalog_version command,
        evt_policy_revision = pol_revision (pl_policy p),
        evt_duration_ms = VInt (max 0 (now - start)),
        evt_context = cmd_context command,
        evt_details = (case result of
            Some r \<Rightarrow> [(''result_id'', VStr (res_result_id r)),
              (''error_code'', case res_error r of Some e \<Rightarrow> VStr (err_code e) | None \<Rightarrow> VNone)]
          | None \<Rightarrow> [])\<rparr>, w))"

definition journal_append :: "'j journal_ops \<Rightarrow> rec \<Rightarrow> 'j world \<Rightarrow> (exc + nat) \<times> 'j world" where
  "journal_append ops r w =
    (case jo_append ops (wd_journal w) r of
       (Inl e, j) \<Rightarrow> (Inl (EJournal e), w\<lparr>wd_journal := j\<rparr>)
     | (Inr n, j) \<Rightarrow> (Inr n, w\<lparr>wd_journal := j\<rparr>))"

text \<open>\<open>self._journal.append(self._event(command, result, start))\<close>: true when neither call raises.\<close>

definition append_event ::
  "'j journal_ops \<Rightarrow> env \<Rightarrow> plane \<Rightarrow> command \<Rightarrow> result option \<Rightarrow> int \<Rightarrow> 'j world \<Rightarrow> bool \<times> 'j world" where
  "append_event ops env p command result start w =
    (case cp_event env p command result start w of
       (Inl e, w) \<Rightarrow> (False, w)
     | (Inr event, w) \<Rightarrow>
         (case journal_append ops (REvent event) w of (x, w) \<Rightarrow> (\<not> isl x, w)))"

section \<open>Authorization\<close>

definition argument_type_ok :: "string \<Rightarrow> pyv \<Rightarrow> bool" where
  "argument_type_ok kind v =
    (if kind = ''string'' then (case v of VStr _ \<Rightarrow> True | _ \<Rightarrow> False)
     else if kind = ''integer'' then (case v of VInt _ \<Rightarrow> True | _ \<Rightarrow> False)
     else if kind = ''number'' then (case v of VInt _ \<Rightarrow> True | VFloat _ \<Rightarrow> True | _ \<Rightarrow> False)
     else (case v of VBool _ \<Rightarrow> True | _ \<Rightarrow> False))"

fun arguments_denial :: "bag \<Rightarrow> bag \<Rightarrow> exc + string option" where
  "arguments_denial args [] = Inr None"
| "arguments_denial args ((name, kind) # rest) =
    (case (map_of args name, kind) of
       (Some v, VStr k) \<Rightarrow>
         (if k \<notin> {''string'', ''integer'', ''number'', ''boolean''} then Inl (EKey k)
          else if \<not> argument_type_ok k v then Inr (Some ''arguments.invalid'')
          else arguments_denial args rest)
     | _ \<Rightarrow> Inl (EKey name))"

definition denial :: "plane \<Rightarrow> command \<Rightarrow> bool \<Rightarrow> exc + string option" where
  "denial p command confirmed =
    (let profile = pl_profile p; policy = pl_policy p in
     if \<not> pro_enabled profile \<or> pro_policy_id profile \<noteq> pol_policy_id policy then Inr (Some ''profile.denied'')
     else case map_of (cmd_context command) ''profile_id'' of
       None \<Rightarrow> Inl (EKey ''profile_id'')
     | Some profile_id \<Rightarrow>
     if profile_id \<noteq> VStr (pro_profile_id profile) then Inr (Some ''profile.denied'')
     else case map_of (cmd_context command) ''source'' of
       None \<Rightarrow> Inl (EKey ''source'')
     | Some source \<Rightarrow>
     if source = VStr ''voice'' \<and> \<not> pro_voice_enabled profile then Inr (Some ''voice.disabled'')
     else if \<not> pol_enabled policy \<or> cmd_capability_id command \<notin> set (pol_allowed_capabilities policy)
       then Inr (Some ''policy.denied'')
     else case map_of (pl_catalog p) (cmd_capability_id command) of
       None \<Rightarrow> Inr (Some ''capability.unavailable'')
     | Some capability \<Rightarrow>
     if \<not> cap_enabled capability then Inr (Some ''capability.unavailable'')
     else if cap_catalog_version capability \<noteq> cmd_catalog_version command then Inr (Some ''catalog.stale'')
     else if cap_risk capability = ''blocked'' then Inr (Some ''risk.blocked'')
     else if \<not> confirmed \<and> (cap_risk capability = ''confirm''
         \<or> cmd_capability_id command \<in> set (pol_confirmation_required policy))
       then Inr (Some ''confirmation.required'')
     else if set (keys (cmd_arguments command)) \<noteq> set (keys (cap_arguments capability))
       then Inr (Some ''arguments.invalid'')
     else arguments_denial (cmd_arguments command) (cap_arguments capability))"

section \<open>Observations, confirmation and dispatch\<close>

text \<open>The body of \<open>observe_interaction\<close> under the lock; the command it gets is a snapshot already.\<close>

definition observe_inner ::
  "'j journal_ops \<Rightarrow> env \<Rightarrow> command \<Rightarrow> string \<Rightarrow> bag \<Rightarrow> 'j world \<Rightarrow> exc option \<times> 'j world" where
  "observe_inner ops env command phase details w =
    (case jo_enter ops (wd_journal w) of
       Some e \<Rightarrow> (Some (EJournal e), w)
     | None \<Rightarrow>
         (let (i, w) = fresh_id env w; (now, w) = tick env w in
          case snapshot_interaction \<lparr>ia_version = 1, ia_event_id = i,
              ia_interaction_id = cmd_command_id command,
              ia_correlation_id = cmd_correlation_id command, ia_timestamp_ms = now,
              ia_context = cmd_context command, ia_phase = phase, ia_details = details\<rparr> of
            Inl e \<Rightarrow> (Some e, w)
          | Inr event \<Rightarrow>
              (case journal_append ops (RInteraction event) w of
                 (Inl e, w) \<Rightarrow> (Some e, w)
               | (Inr n, w) \<Rightarrow> (None, w))))"

definition observe_interaction ::
  "'j journal_ops \<Rightarrow> env \<Rightarrow> rec \<Rightarrow> string \<Rightarrow> bag \<Rightarrow> 'j world \<Rightarrow> exc option \<times> 'j world" where
  "observe_interaction ops env command phase details w =
    (case snapshot_command command of
       Inl e \<Rightarrow> (Some e, w)
     | Inr c \<Rightarrow> observe_inner ops env c phase details w)"

definition assess :: "'j journal_ops \<Rightarrow> rec \<Rightarrow> plane \<Rightarrow> 'j world \<Rightarrow> exc + string option" where
  "assess ops command p w =
    bind_res (snapshot_command command) (\<lambda>c.
      case jo_enter ops (wd_journal w) of
        Some e \<Rightarrow> Inl (EJournal e)
      | None \<Rightarrow> denial p c False)"

definition preview_inner ::
  "'j journal_ops \<Rightarrow> env \<Rightarrow> command \<Rightarrow> string \<Rightarrow> plane \<Rightarrow> 'j world \<Rightarrow> (exc + confirmation) \<times> plane \<times> 'j world" where
  "preview_inner ops env c key p w =
    (case denial p c True of
       Inl e \<Rightarrow> (Inl e, p, w)
     | Inr (Some _) \<Rightarrow> (Inl (EConfirmation ''command is not eligible for confirmation''), p, w)
     | Inr None \<Rightarrow>
         (let (now, w) = tick env w;
              p = p\<lparr>pl_confirmations :=
                filter (\<lambda>(t, f, k). cf_expires_at_ms f > now) (pl_confirmations p)\<rparr>
          in if length (pl_confirmations p) \<ge> 128
            then (Inl (EConfirmation ''too many pending confirmations''), p, w)
            else
              (let preview = \<lparr>cf_token = en_tokens env (wd_tokens w), cf_command = c,
                     cf_expires_at_ms = now + 30000\<rparr>;
                   w = w\<lparr>wd_tokens := Suc (wd_tokens w)\<rparr>
               in case observe_interaction ops env (RCommand c) ''voice.preview''
                   [(''capability_id'', VStr (cmd_capability_id c))] w of
                    (Some e, w) \<Rightarrow> (Inl (EConfirmation ''journal unavailable''), p, w)
                  | (None, w) \<Rightarrow>
                      (Inr preview,
                       p\<lparr>pl_confirmations := AList.update (cf_token preview) (preview, key)
                          (pl_confirmations p)\<rparr>, w))))"

definition request_confirmation ::
  "'j journal_ops \<Rightarrow> env \<Rightarrow> rec \<Rightarrow> pyv \<Rightarrow> plane \<Rightarrow> 'j world \<Rightarrow> (exc + confirmation) \<times> plane \<times> 'j world" where
  "request_confirmation ops env command context_key p w =
    (case snapshot_command command of
       Inl e \<Rightarrow> (Inl e, p, w)
     | Inr c \<Rightarrow>
         (case context_key of
            VStr key \<Rightarrow>
              (if key = [] then (Inl (EConfirmation ''invalid context key''), p, w)
               else catalog_use ops (preview_inner ops env c key) p w)
          | _ \<Rightarrow> (Inl (EConfirmation ''invalid context key''), p, w)))"

definition confirmation_blocked ::
  "'j journal_ops \<Rightarrow> env \<Rightarrow> command \<Rightarrow> string \<Rightarrow> plane \<Rightarrow> 'j world \<Rightarrow> (exc + result) \<times> plane \<times> 'j world" where
  "confirmation_blocked ops env command reason p w =
    (let p = p\<lparr>pl_seen := insert (cmd_command_id command) (pl_seen p)\<rparr> in
     case cp_result env command ''blocked'' [] (Some (cp_error reason ''Confirmation was not valid'')) w of
       (Inl e, w) \<Rightarrow> (Inl e, p, w)
     | (Inr result, w) \<Rightarrow>
         (let (now, w) = tick env w in
          case append_event ops env p command (Some result) now w of
            (True, w) \<Rightarrow> (Inr result, p, w)
          | (False, w) \<Rightarrow>
              (case cp_result env command ''blocked'' []
                  (Some (cp_error ''journal.unavailable'' ''Cannot record confirmation rejection'')) w of
                 (x, w) \<Rightarrow> (x, p, w))))"

definition executor_statuses :: "string list" where
  "executor_statuses = [''success'', ''failed'', ''canceled'', ''uncertain'']"

text \<open>The call of the executor with the checks of its outcome.\<close>

definition run_executor :: "env \<Rightarrow> command \<Rightarrow> 'j world \<Rightarrow> (exc + result) \<times> 'j world" where
  "run_executor env command w =
    (let reply = en_executor env (wd_executed w) command;
         w = w\<lparr>wd_executed := wd_executed w @ [command]\<rparr>;
         attempt = (case reply of
             ExecReturns oc \<Rightarrow>
               (if oc_status oc \<in> set executor_statuses
                then cp_result env command (oc_status oc) (oc_output oc) (oc_error oc) w
                else (Inl (EContract UnknownRecord), w))
           | _ \<Rightarrow> (Inl (EContract UnknownRecord), w))
     in case attempt of
          (Inr result, w) \<Rightarrow> (Inr result, w)
        | (Inl _, w) \<Rightarrow> cp_result env command ''uncertain'' []
            (Some (cp_error ''executor.uncertain''
              ''Executor did not produce a valid outcome; reconcile before retry'')) w)"

text \<open>The end of \<open>_dispatch\<close>: record the completion, and do not claim it when that fails.\<close>

definition finish ::
  "'j journal_ops \<Rightarrow> env \<Rightarrow> plane \<Rightarrow> command \<Rightarrow> int \<Rightarrow> bool \<Rightarrow> bool \<Rightarrow> result \<Rightarrow> 'j world \<Rightarrow> (exc + result) \<times> 'j world" where
  "finish ops env p command start denied canceled result w =
    (case append_event ops env p command (Some result) start w of
       (True, w) \<Rightarrow> (Inr result, w)
     | (False, w) \<Rightarrow>
         cp_result env command (if \<not> denied \<and> \<not> canceled then ''uncertain'' else res_status result) []
           (Some (cp_error ''journal.unavailable'' ''Cannot persist completion; reconcile before retry'')) w)"

definition seen_in :: "(nat \<times> rec) list \<Rightarrow> string set" where
  "seen_in history = set (concat (map (\<lambda>(n, r). case r of REvent e \<Rightarrow> [evt_command_id e] | _ \<Rightarrow> []) history))"

definition pending_preview :: "(nat \<times> rec) list \<Rightarrow> command \<Rightarrow> bool" where
  "pending_preview history command = list_ex (\<lambda>(n, r). case r of
     RInteraction i \<Rightarrow> ia_phase i = ''voice.preview'' \<and> ia_interaction_id i = cmd_command_id command
   | _ \<Rightarrow> False) history"

definition first_denial ::
  "plane \<Rightarrow> command \<Rightarrow> bool \<Rightarrow> bool \<Rightarrow> bool \<Rightarrow> guard \<Rightarrow> 'j world \<Rightarrow> (exc + string option) \<times> 'j world" where
  "first_denial p command duplicate pending confirmed guard w =
    (if duplicate then (Inr (Some ''command.duplicate''), w)
     else if pending \<and> \<not> confirmed then (Inr (Some ''confirmation.required''), w)
     else case guard_denial guard w of
       (Some d, w) \<Rightarrow> (Inr (Some d), w)
     | (None, w) \<Rightarrow> (denial p command confirmed, w))"

text \<open>The authorized branch: persist the intent, ask the guard again, run the executor. The answer
  carries whether the intent was persisted and whether the second guard call denied; a failed
  intent ends the dispatch with the result it carries.\<close>

definition execute ::
  "'j journal_ops \<Rightarrow> env \<Rightarrow> plane \<Rightarrow> command \<Rightarrow> int \<Rightarrow> guard \<Rightarrow> 'j world \<Rightarrow> bool \<times> bool \<times> (exc + result) \<times> 'j world" where
  "execute ops env p command start guard w =
    (case append_event ops env p command None start w of
       (False, w) \<Rightarrow> (False, False, cp_result env command ''blocked'' []
           (Some (cp_error ''journal.unavailable'' ''Cannot persist execution intent'')) w)
     | (True, w) \<Rightarrow>
         (case guard_denial guard w of
            (Some d, w) \<Rightarrow> (True, True, cp_result env command ''blocked'' []
              (Some (cp_error d ''Current state no longer authorizes execution'')) w)
          | (None, w) \<Rightarrow> (True, False, run_executor env command w)))"

text \<open>The three branches after the denial is known, each ending in \<open>finish\<close>.\<close>

definition settle ::
  "'j journal_ops \<Rightarrow> env \<Rightarrow> plane \<Rightarrow> command \<Rightarrow> int \<Rightarrow> string option \<Rightarrow> bool \<Rightarrow> bool \<Rightarrow> guard \<Rightarrow> 'j world
    \<Rightarrow> (exc + result) \<times> 'j world" where
  "settle ops env p command start denied canceled duplicate guard w =
    (if canceled \<and> \<not> duplicate then
       (case cp_result env command ''canceled'' [] None w of
          (Inl e, w) \<Rightarrow> (Inl e, w)
        | (Inr result, w) \<Rightarrow> finish ops env p command start (denied \<noteq> None) canceled result w)
     else case denied of
       Some reason \<Rightarrow>
         (case cp_result env command ''blocked'' []
             (Some (cp_error reason ''VM policy did not authorize execution'')) w of
            (Inl e, w) \<Rightarrow> (Inl e, w)
          | (Inr result, w) \<Rightarrow> finish ops env p command start True canceled result w)
     | None \<Rightarrow>
         (case execute ops env p command start guard w of
            (False, _, x, w) \<Rightarrow> (x, w)
          | (True, stopped, Inl e, w) \<Rightarrow> (Inl e, w)
          | (True, stopped, Inr result, w) \<Rightarrow> finish ops env p command start stopped canceled result w))"

definition dispatch_inner ::
  "'j journal_ops \<Rightarrow> env \<Rightarrow> command \<Rightarrow> bool \<Rightarrow> bool \<Rightarrow> guard \<Rightarrow> plane \<Rightarrow> 'j world \<Rightarrow> (exc + result) \<times> plane \<times> 'j world" where
  "dispatch_inner ops env command canceled confirmed guard p w =
    (case jo_read ops (wd_journal w) (VInt 0) of
       (Inl e, j) \<Rightarrow>
         (case cp_result env command ''blocked'' []
             (Some (cp_error ''journal.unavailable'' ''Cannot read execution history'')) (w\<lparr>wd_journal := j\<rparr>) of
            (x, w) \<Rightarrow> (x, p, w))
     | (Inr history, j) \<Rightarrow>
         (let p = p\<lparr>pl_seen := pl_seen p \<union> seen_in history\<rparr>;
              pending = pending_preview history command;
              (start, w) = tick env (w\<lparr>wd_journal := j\<rparr>);
              duplicate = cmd_command_id command \<in> pl_seen p;
              p = p\<lparr>pl_seen := insert (cmd_command_id command) (pl_seen p)\<rparr>
          in case first_denial p command duplicate pending confirmed guard w of
               (Inl e, w) \<Rightarrow> (Inl e, p, w)
             | (Inr denied, w) \<Rightarrow>
                 (case settle ops env p command start denied canceled duplicate guard w of (x, w) \<Rightarrow> (x, p, w))))"

definition dispatch ::
  "'j journal_ops \<Rightarrow> env \<Rightarrow> rec \<Rightarrow> pyv \<Rightarrow> guard \<Rightarrow> plane \<Rightarrow> 'j world \<Rightarrow> (exc + result) \<times> plane \<times> 'j world" where
  "dispatch ops env command canceled guard p w =
    (case snapshot_command command of
       Inl e \<Rightarrow> (Inl e, p, w)
     | Inr c \<Rightarrow>
         (case canceled of
            VBool b \<Rightarrow> catalog_use ops (dispatch_inner ops env c b False guard) p w
          | _ \<Rightarrow> (Inl (EContract CanceledNotBool), p, w)))"

definition confirm_inner ::
  "'j journal_ops \<Rightarrow> env \<Rightarrow> pyv \<Rightarrow> string \<Rightarrow> string \<Rightarrow> pyv \<Rightarrow> guard \<Rightarrow> plane \<Rightarrow> 'j world
    \<Rightarrow> (exc + result) \<times> plane \<times> 'j world" where
  "confirm_inner ops env token channel context_key approved guard p w =
    (case (case token of VStr t \<Rightarrow> map_option (Pair t) (map_of (pl_confirmations p) t) | _ \<Rightarrow> None) of
       None \<Rightarrow> (Inl (EConfirmation ''unknown or already consumed confirmation''), p, w)
     | Some (t, preview, original_key) \<Rightarrow>
         (let p = p\<lparr>pl_confirmations := AList.delete t (pl_confirmations p)\<rparr>;
              command = cf_command preview in
          if channel \<notin> {''panel'', ''keyboard'', ''voice''} \<or> \<not> (case approved of VBool _ \<Rightarrow> True | _ \<Rightarrow> False)
            then confirmation_blocked ops env command ''confirmation.invalid'' p w
          else if context_key \<noteq> original_key then confirmation_blocked ops env command ''context.stale'' p w
          else let (now, w) = tick env w in
          if now \<ge> cf_expires_at_ms preview then confirmation_blocked ops env command ''confirmation.expired'' p w
          else case guard_denial guard w of
            (Some d, w) \<Rightarrow> confirmation_blocked ops env command d p w
          | (None, w) \<Rightarrow>
              (case observe_interaction ops env (RCommand command) ''voice.confirmation''
                  [(''channel'', VStr channel), (''approved'', approved)] w of
                 (Some e, w) \<Rightarrow> confirmation_blocked ops env command ''journal.unavailable'' p w
               | (None, w) \<Rightarrow>
                   dispatch_inner ops env command (approved \<noteq> VBool True) (approved = VBool True) guard p w)))"

definition confirm ::
  "'j journal_ops \<Rightarrow> env \<Rightarrow> pyv \<Rightarrow> string \<Rightarrow> string \<Rightarrow> pyv \<Rightarrow> guard \<Rightarrow> plane \<Rightarrow> 'j world
    \<Rightarrow> (exc + result) \<times> plane \<times> 'j world" where
  "confirm ops env token channel context_key approved guard p w =
    catalog_use ops (confirm_inner ops env token channel context_key approved guard) p w"

end
