(* ===== verification/Dispatch_Safety.thy ===== *)
theory Dispatch_Safety
  imports Control_Plane
begin

text \<open>
  What dispatch guarantees on any journal that keeps the contract \<open>journal_adapter\<close>: a command is
  executed at most once, its intent is in the journal before the executor runs, a success is
  reported only when its completion is in the journal, and only authorized commands run. The
  contract's client lemmas are proved once inside the locale; the memory and the file journal get
  them through their interpretations.
\<close>

section \<open>The ledger a dispatcher refines\<close>

text \<open>
  The abstract specification: a set of command identifiers that were used and the list of those
  that ran. A step uses more identifiers, or runs one that was not used and uses it.
\<close>

type_synonym ledger = "string set \<times> string list"

inductive ledger_step :: "ledger \<Rightarrow> ledger \<Rightarrow> bool" where
  note_ids: "U \<subseteq> U' \<Longrightarrow> ledger_step (U, R) (U', R)"
| run_id: "i \<notin> U \<Longrightarrow> insert i U \<subseteq> U' \<Longrightarrow> ledger_step (U, R) (U', R @ [i])"

definition ledger_inv :: "ledger \<Rightarrow> bool" where
  "ledger_inv l \<longleftrightarrow> distinct (snd l) \<and> set (snd l) \<subseteq> fst l"

lemma ledger_step_inv: "ledger_step l l' \<Longrightarrow> ledger_inv l \<Longrightarrow> ledger_inv l'"
  by (induction rule: ledger_step.induct) (auto simp: ledger_inv_def)

section \<open>What the journal says of commands\<close>

definition command_of :: "pyv \<Rightarrow> string option" where
  "command_of v = (if map_of (items v) ''kind'' = Some (VStr ''event'')
     then get_str (items v) ''command_id'' else None)"

definition used_ids :: "pyv list \<Rightarrow> string set" where
  "used_ids lg = {i. \<exists>v \<in> set lg. command_of v = Some i}"

lemma command_of_wire: "command_of (wire r) = (case r of REvent e \<Rightarrow> Some (evt_command_id e) | _ \<Rightarrow> None)"
proof -
  have str: "get_str (items (wire r)) ''command_id'' = Some s \<longleftrightarrow>
      map_of (items (thaw_rec r)) ''command_id'' = Some (VStr s)" for s
    by (simp add: map_of_wire)
  show ?thesis
    using str by (cases r) (auto simp: command_of_def kind_wire)
qed

lemma used_ids_append [simp]: "used_ids (a @ b) = used_ids a \<union> used_ids b"
  by (auto simp: used_ids_def)

lemma seen_in_used: "seen_in es = used_ids (map (wire \<circ> snd) es)"
proof (induction es)
  case (Cons x es)
  have "seen_in (x # es) = (case snd x of REvent e \<Rightarrow> {evt_command_id e} | _ \<Rightarrow> {}) \<union> seen_in es"
    by (cases "snd x") (auto simp: seen_in_def case_prod_beta)
  moreover have "used_ids (wire r # l) = (case r of REvent e \<Rightarrow> {evt_command_id e} | _ \<Rightarrow> {}) \<union> used_ids l" for r l
    by (cases r) (auto simp: used_ids_def command_of_wire)
  ultimately show ?case using Cons by simp
qed (simp add: seen_in_def used_ids_def)

definition ledger_of :: "('j \<Rightarrow> pyv list) \<Rightarrow> 'j world \<Rightarrow> ledger" where
  "ledger_of lg w = (used_ids (lg (wd_journal w)), map cmd_command_id (wd_executed w))"

text \<open>A part of an operation that runs no command: the journal keeps its invariant and only grows.\<close>

definition quiet :: "('j \<Rightarrow> pyv list) \<Rightarrow> ('j \<Rightarrow> bool) \<Rightarrow> 'j world \<Rightarrow> 'j world \<Rightarrow> bool" where
  "quiet lg iv w w' \<longleftrightarrow> iv (wd_journal w') \<and> wd_executed w' = wd_executed w
     \<and> (\<exists>new. lg (wd_journal w') = lg (wd_journal w) @ new)"

lemma quiet_refl: "iv (wd_journal w) \<Longrightarrow> quiet lg iv w w"
  by (simp add: quiet_def)

lemma quiet_same:
  "iv (wd_journal w) \<Longrightarrow> wd_journal w' = wd_journal w \<Longrightarrow> wd_executed w' = wd_executed w \<Longrightarrow> quiet lg iv w w'"
  by (simp add: quiet_def)

lemma quiet_trans: "quiet lg iv u v \<Longrightarrow> quiet lg iv v w \<Longrightarrow> quiet lg iv u w"
  by (auto simp: quiet_def)

lemma quiet_inv: "quiet lg iv w w' \<Longrightarrow> iv (wd_journal w')"
  by (simp add: quiet_def)

lemma quiet_ledger: "quiet lg iv w w' \<Longrightarrow> ledger_step (ledger_of lg w) (ledger_of lg w')"
  by (auto simp: quiet_def ledger_of_def intro!: note_ids)

text \<open>The parts that touch neither the journal nor the executor.\<close>

lemma tick_world [simp]:
  "wd_journal (snd (tick env w)) = wd_journal w" "wd_executed (snd (tick env w)) = wd_executed w"
  by (simp_all add: tick_def)

lemma guard_denial_world:
  "guard_denial g w = (d, w') \<Longrightarrow> wd_journal w' = wd_journal w \<and> wd_executed w' = wd_executed w"
  by (auto simp: guard_denial_def split: option.splits)

lemma cp_result_world:
  "cp_result env c s out err w = (x, w') \<Longrightarrow> wd_journal w' = wd_journal w \<and> wd_executed w' = wd_executed w"
  by (auto simp: cp_result_def fresh_id_def)

lemma cp_event_world:
  "cp_event env p c r start w = (x, w') \<Longrightarrow> wd_journal w' = wd_journal w \<and> wd_executed w' = wd_executed w"
  by (auto simp: cp_event_def fresh_id_def tick_def)

lemma first_denial_world:
  "first_denial p c dup pend conf g w = (x, w') \<Longrightarrow> wd_journal w' = wd_journal w \<and> wd_executed w' = wd_executed w"
  by (auto simp: first_denial_def guard_denial_def split: if_splits option.splits)

lemma snapshot_result_fields:
  "snapshot_result r = Inr s \<Longrightarrow> s = r\<lparr>res_output := refreeze (res_output r)\<rparr>"
  by (auto simp: snapshot_result_def snapshot_eq_Inr split: sum.splits rec.splits)

lemma snapshot_event_fields:
  "snapshot_event_record e = Inr s \<Longrightarrow>
    s = e\<lparr>evt_context := refreeze (evt_context e), evt_details := refreeze (evt_details e)\<rparr>"
  by (auto simp: snapshot_event_record_def snapshot_eq_Inr split: sum.splits rec.splits)

lemma cp_result_fields:
  "cp_result env c s out err w = (Inr r, w') \<Longrightarrow> res_status r = s \<and> res_error r = err
    \<and> res_command_id r = cmd_command_id c \<and> res_output r = refreeze out"
  by (auto simp: cp_result_def fresh_id_def dest!: snapshot_result_fields)

definition is_completion :: "command \<Rightarrow> result \<Rightarrow> rec \<Rightarrow> bool" where
  "is_completion c r x = (case x of
     REvent e \<Rightarrow> evt_event_type e = ''command.finished'' \<and> evt_command_id e = cmd_command_id c
       \<and> evt_status e = res_status r \<and> map_of (evt_details e) ''result_id'' = Some (VStr (res_result_id r))
   | _ \<Rightarrow> False)"

definition is_intent :: "command \<Rightarrow> rec \<Rightarrow> bool" where
  "is_intent c x = (case x of
     REvent e \<Rightarrow> evt_event_type e = ''command.started'' \<and> evt_status e = ''pending''
       \<and> evt_command_id e = cmd_command_id c
   | _ \<Rightarrow> False)"

lemma cp_event_fields:
  assumes "cp_event env p c r start w = (Inr e, w')"
  shows "case r of Some x \<Rightarrow> is_completion c x (REvent e) | None \<Rightarrow> is_intent c (REvent e)"
  using assms
  by (auto simp: cp_event_def fresh_id_def tick_def is_completion_def is_intent_def refreeze_def
      thaw_bag_def freeze_bag_def dest!: snapshot_event_fields split: option.splits)

lemma command_of_completion:
  "is_completion c r x \<or> is_intent c x \<Longrightarrow> command_of (wire x) = Some (cmd_command_id c)"
  by (cases x) (auto simp: is_completion_def is_intent_def command_of_wire)

text \<open>The append law of the journal returns the snapshot of the event, which is the event itself.\<close>

lemma cp_event_snapshot:
  "cp_event env p c r start w = (Inr e, w') \<Longrightarrow> snapshot (REvent e) = Inr (REvent e)"
  by (auto simp: cp_event_def fresh_id_def tick_def snapshot_event_record_def
      dest: snapshot_idem split: sum.splits rec.splits)

text \<open>The previews the journal shows, which restrict dispatch to confirmed commands.\<close>

definition preview_of :: "pyv \<Rightarrow> string option" where
  "preview_of v = (if map_of (items v) ''kind'' = Some (VStr ''interaction'')
       \<and> map_of (items v) ''phase'' = Some (VStr ''voice.preview'')
     then get_str (items v) ''interaction_id'' else None)"

lemma preview_of_wire: "preview_of (wire r) = Some i \<longleftrightarrow> (\<exists>x. r = RInteraction x
    \<and> ia_phase x = ''voice.preview'' \<and> ia_interaction_id x = i)"
  by (cases r) (simp_all add: preview_of_def map_of_wire thaw_error_def)

definition previewed :: "pyv list \<Rightarrow> string \<Rightarrow> bool" where
  "previewed lg i \<longleftrightarrow> (\<exists>v \<in> set lg. preview_of v = Some i)"

lemma pending_previewed: "pending_preview es c = previewed (map (wire \<circ> snd) es) (cmd_command_id c)"
  by (induction es) (auto simp: pending_preview_def previewed_def preview_of_wire split: rec.splits)

definition guard_ok :: "guard \<Rightarrow> nat \<Rightarrow> bool" where
  "guard_ok g n = (case g of None \<Rightarrow> True | Some f \<Rightarrow> f n \<and> f (Suc n))"

text \<open>The effect of running one command: the executor got it once, and the journal has its intent
  as the first new entry.\<close>

definition runs :: "('j \<Rightarrow> pyv list) \<Rightarrow> ('j \<Rightarrow> bool) \<Rightarrow> command \<Rightarrow> 'j world \<Rightarrow> 'j world \<Rightarrow> bool" where
  "runs lg iv c w w' \<longleftrightarrow> iv (wd_journal w') \<and> wd_executed w' = wd_executed w @ [c]
     \<and> (\<exists>e new. is_intent c (REvent e) \<and> lg (wd_journal w') = lg (wd_journal w) @ wire (REvent e) # new)"

lemma runs_quiet: "runs lg iv c u v \<Longrightarrow> quiet lg iv v w \<Longrightarrow> runs lg iv c u w"
  by (fastforce simp: runs_def quiet_def)

lemma quiet_runs:
  "lg (wd_journal v) = lg (wd_journal u) \<Longrightarrow> wd_executed v = wd_executed u \<Longrightarrow> runs lg iv c v w \<Longrightarrow> runs lg iv c u w"
  by (auto simp: runs_def)

lemma denial_seen [simp]: "denial (p\<lparr>pl_seen := s\<rparr>) c conf = denial p c conf"
  by (simp add: denial_def Let_def cong: if_cong option.case_cong)

lemma denial_confirmations [simp]: "denial (p\<lparr>pl_confirmations := s\<rparr>) c conf = denial p c conf"
  by (simp add: denial_def Let_def cong: if_cong option.case_cong)

lemma denial_users [simp]: "denial (p\<lparr>pl_catalog_users := n\<rparr>) c conf = denial p c conf"
  by (simp add: denial_def Let_def cong: if_cong option.case_cong)

lemma run_executor_world:
  "run_executor env c w = (x, w') \<Longrightarrow> wd_journal w' = wd_journal w \<and> wd_executed w' = wd_executed w @ [c]"
  by (auto simp: run_executor_def Let_def dest!: cp_result_world
      split: exec_reply.splits if_splits sum.splits prod.splits)

lemma append_event_guards:
  "append_event ops env p c r start w = (b, w') \<Longrightarrow> wd_guards w' = wd_guards w"
  by (auto simp: append_event_def cp_event_def journal_append_def tick_def fresh_id_def
      split: prod.splits sum.splits)

lemma guard_denial_None:
  "guard_denial g w = (None, w') \<Longrightarrow> (case g of None \<Rightarrow> wd_guards w' = wd_guards w
     | Some f \<Rightarrow> f (wd_guards w) \<and> wd_guards w' = Suc (wd_guards w))"
  by (auto simp: guard_denial_def split: option.splits if_splits)

lemma first_denial_None:
  "first_denial p c dup pend conf g w = (Inr None, w') \<Longrightarrow>
    \<not> dup \<and> (pend \<longrightarrow> conf) \<and> denial p c conf = Inr None \<and> guard_denial g w = (None, w')"
  by (auto simp: first_denial_def split: if_splits prod.splits option.splits)

text \<open>\<open>_dispatch\<close> after a history that could be read.\<close>

lemma dispatch_inner_history:
  assumes "jo_read ops (wd_journal w) (VInt 0) = (Inr es, j)"
    and "dispatch_inner ops env c canceled confirmed g p w = (x, p', w')"
    and "dup = (cmd_command_id c \<in> pl_seen p \<union> seen_in es)"
  shows "\<exists>p2 start w1 f w2. first_denial p2 c dup (pending_preview es c) confirmed g w1 = (f, w2)
    \<and> denial p2 c confirmed = denial p c confirmed
    \<and> wd_guards w1 = wd_guards w \<and> wd_journal w2 = j \<and> wd_executed w2 = wd_executed w
    \<and> (case f of Inl e \<Rightarrow> x = Inl e \<and> w' = w2 | Inr denied \<Rightarrow> settle ops env p2 c start denied canceled dup g w2 = (x, w'))"
proof -
  let ?p2 = "p\<lparr>pl_seen := insert (cmd_command_id c) (pl_seen p \<union> seen_in es)\<rparr>"
  obtain start w1 where t: "tick env (w\<lparr>wd_journal := j\<rparr>) = (start, w1)" by (metis surj_pair)
  obtain f w2 where fd: "first_denial ?p2 c dup (pending_preview es c) confirmed g w1 = (f, w2)"
    by (metis surj_pair)
  have "wd_guards w1 = wd_guards w" "wd_journal w2 = j" "wd_executed w2 = wd_executed w"
    using first_denial_world[OF fd] t by (auto simp: tick_def)
  moreover have "case f of Inl e \<Rightarrow> x = Inl e \<and> w' = w2
      | Inr denied \<Rightarrow> settle ops env ?p2 c start denied canceled dup g w2 = (x, w')"
    using assms fd t by (auto simp: dispatch_inner_def Let_def split: sum.splits prod.splits)
  ultimately show ?thesis using fd denial_seen by blast
qed

section \<open>Operations over a journal that keeps its contract\<close>

context journal_adapter
begin

lemma journal_append_quiet:
  assumes "inv (wd_journal w)" and "journal_append ops r w = (x, w')"
  shows "quiet log inv w w'"
proof -
  obtain y j where j: "jo_append ops (wd_journal w) r = (y, j)" by (metis surj_pair)
  then have "w' = w\<lparr>wd_journal := j\<rparr>"
    using assms(2) by (auto simp: journal_append_def split: sum.splits)
  moreover have "\<exists>new. log j = log (wd_journal w) @ new"
    using append_extends[OF assms(1) j] by blast
  ultimately show ?thesis using append_inv[OF assms(1) j] by (simp add: quiet_def)
qed

lemma append_event_quiet:
  assumes "inv (wd_journal w)" and "append_event ops env p c r start w = (b, w')"
  shows "quiet log inv w w'"
proof -
  obtain x w1 where e: "cp_event env p c r start w = (x, w1)" by (metis surj_pair)
  have w1: "quiet log inv w w1" using cp_event_world[OF e] assms(1) by (intro quiet_same) auto
  show ?thesis
  proof (cases x)
    case (Inl a)
    with e assms(2) w1 show ?thesis by (simp add: append_event_def)
  next
    case (Inr ev)
    then obtain y where "journal_append ops (REvent ev) w1 = (y, w')"
      using e assms(2) by (auto simp: append_event_def split: prod.splits)
    with w1 quiet_inv journal_append_quiet quiet_trans show ?thesis by metis
  qed
qed

text \<open>A recorded event is the last thing in the log; only an event of another run can be there already.\<close>

lemma append_event_recorded:
  assumes "inv (wd_journal w)" and "append_event ops env p c r start w = (True, w')"
  shows "\<exists>e. (case r of Some x \<Rightarrow> is_completion c x (REvent e) | None \<Rightarrow> is_intent c (REvent e))
    \<and> (log (wd_journal w') = log (wd_journal w) @ [wire (REvent e)]
       \<or> log (wd_journal w') = log (wd_journal w) \<and> wire (REvent e) \<in> set (log (wd_journal w)))"
proof -
  obtain ev w1 where e: "cp_event env p c r start w = (Inr ev, w1)"
    using assms(2) by (cases "cp_event env p c r start w") (auto simp: append_event_def split: sum.splits)
  then obtain n j where j: "jo_append ops (wd_journal w1) (REvent ev) = (Inr n, j)" "w' = w1\<lparr>wd_journal := j\<rparr>"
    using assms(2) by (auto simp: append_event_def journal_append_def split: prod.splits sum.splits)
  have "wd_journal w1 = wd_journal w" using cp_event_world[OF e] by blast
  with append_ok[OF _ j(1)] assms(1) cp_event_snapshot[OF e] j(2) cp_event_fields[OF e] show ?thesis
    by auto
qed

lemma finish_quiet:
  assumes "inv (wd_journal w)" and "finish ops env p c start d can r w = (x, w')"
  shows "quiet log inv w w'"
proof -
  obtain b w1 where a: "append_event ops env p c (Some r) start w = (b, w1)" by (metis surj_pair)
  have q: "quiet log inv w w1" by (rule append_event_quiet[OF assms(1) a])
  show ?thesis
  proof (cases b)
    case True
    with a q assms(2) show ?thesis by (simp add: finish_def)
  next
    case False
    with a assms(2) have "wd_journal w' = wd_journal w1 \<and> wd_executed w' = wd_executed w1"
      by (auto simp: finish_def dest: cp_result_world)
    with q show ?thesis by (simp add: quiet_def)
  qed
qed

lemma execute_effect:
  assumes "inv (wd_journal w)" and "execute ops env p c start g w = (ok, denied, x, w')"
    and new: "cmd_command_id c \<notin> used_ids (log (wd_journal w))"
  shows "quiet log inv w w' \<or> (runs log inv c w w' \<and> ok \<and> \<not> denied
    \<and> (\<exists>w1 w2. append_event ops env p c None start w = (True, w1) \<and> guard_denial g w1 = (None, w2)
       \<and> run_executor env c w2 = (x, w')))"
proof -
  obtain b w1 where a: "append_event ops env p c None start w = (b, w1)" by (metis surj_pair)
  obtain d w2 where gd: "guard_denial g w1 = (d, w2)" by (metis surj_pair)
  have q: "quiet log inv w w1" by (rule append_event_quiet[OF assms(1) a])
  show ?thesis
  proof (cases "b \<and> d = None")
    case False
    then have "quiet log inv w1 w'"
      using a gd assms(2) guard_denial_world[OF gd] quiet_inv[OF q]
      by (intro quiet_same) (auto simp: execute_def dest!: cp_result_world split: option.splits bool.splits)
    with q quiet_trans show ?thesis by blast
  next
    case True
    then have run: "run_executor env c w2 = (x, w')" "ok" "\<not> denied"
      using a gd assms(2) by (auto simp: execute_def)
    obtain e where "is_intent c (REvent e)" and l: "log (wd_journal w1) = log (wd_journal w) @ [wire (REvent e)]
        \<or> wire (REvent e) \<in> set (log (wd_journal w))"
      using append_event_recorded[OF assms(1), of env p c None start w1] a True by auto
    then have e: "is_intent c (REvent e)" "log (wd_journal w1) = log (wd_journal w) @ [wire (REvent e)]"
      using new command_of_completion[of c _ "REvent e"] by (auto simp: used_ids_def)
    have "runs log inv c w w'"
      using e run_executor_world[OF run(1)] guard_denial_world[OF gd] q by (auto simp: runs_def quiet_def)
    with run True a gd show ?thesis by auto
  qed
qed

lemma settle_effect:
  assumes iv: "inv (wd_journal w)"
    and s: "settle ops env p c start denied canceled dup g w = (x, w')"
    and new: "denied = None \<longrightarrow> cmd_command_id c \<notin> used_ids (log (wd_journal w)) \<and> \<not> dup"
  shows "quiet log inv w w' \<or> (runs log inv c w w' \<and> \<not> canceled \<and> denied = None
    \<and> (\<exists>w1 w2. append_event ops env p c None start w = (True, w1) \<and> guard_denial g w1 = (None, w2)))"
proof (cases "denied = None \<and> \<not> canceled")
  case True
  obtain ok stopped y w1 where e: "execute ops env p c start g w = (ok, stopped, y, w1)"
    by (metis prod_cases4)
  have "quiet log inv w1 w'" if "inv (wd_journal w1)"
    using s True e that finish_quiet quiet_refl
    by (auto simp: settle_def split: bool.splits sum.splits)
  moreover have "inv (wd_journal w1)"
    using execute_effect[OF iv e] new True by (auto simp: quiet_def runs_def)
  ultimately show ?thesis
    using execute_effect[OF iv e] new True quiet_trans runs_quiet by metis
next
  case False
  have keep: "quiet log inv w w'"
    if "cp_result env c st out err w = (Inr r, w1)" "finish ops env p c start b canceled r w1 = (x, w')"
    for st out err r w1 b
    using cp_result_world[OF that(1)] iv finish_quiet[OF _ that(2)] by (auto simp: quiet_def)
  have stop: "quiet log inv w w'" if "cp_result env c st out err w = (Inl e, w')" for st out err e
    using cp_result_world[OF that] iv by (intro quiet_same) auto
  have "quiet log inv w w'"
  proof (cases "canceled \<and> \<not> dup")
    case True
    then show ?thesis
      using s keep stop by (cases "cp_result env c ''canceled'' [] None w") (auto simp: settle_def split: sum.splits)
  next
    case dup: False
    then obtain reason where "denied = Some reason" using False new by auto
    then show ?thesis
      using s keep stop dup
      by (cases "cp_result env c ''blocked'' [] (Some (cp_error reason ''VM policy did not authorize execution'')) w")
        (auto simp: settle_def split: sum.splits)
  qed
  then show ?thesis by blast
qed

lemma authorized_effect:
  assumes iv: "inv (wd_journal w)"
    and fd: "first_denial p c dup pend confirmed g w1 = (Inr denied, w)"
    and st: "settle ops env p c start denied canceled dup g w = (x, w')"
    and dup: "cmd_command_id c \<in> used_ids (log (wd_journal w)) \<Longrightarrow> dup"
  shows "quiet log inv w w' \<or> (runs log inv c w w' \<and> \<not> canceled \<and> \<not> dup
    \<and> denial p c confirmed = Inr None \<and> (pend \<longrightarrow> confirmed) \<and> guard_ok g (wd_guards w1))"
proof -
  have free: "\<not> dup \<and> (pend \<longrightarrow> confirmed) \<and> denial p c confirmed = Inr None
      \<and> guard_denial g w1 = (None, w)" if "denied = None"
    using first_denial_None fd that by blast
  then have "denied = None \<longrightarrow> cmd_command_id c \<notin> used_ids (log (wd_journal w)) \<and> \<not> dup"
    using dup by blast
  from settle_effect[OF iv st this] show ?thesis
  proof (elim disjE conjE exE)
    fix w2 w3
    assume run: "runs log inv c w w'" "\<not> canceled" "denied = None"
      and g: "append_event ops env p c None start w = (True, w2)" "guard_denial g w2 = (None, w3)"
    have "guard_ok g (wd_guards w1)"
      using guard_denial_None[of g w1 w] guard_denial_None[OF g(2)] append_event_guards[OF g(1)]
        free run(3) by (auto simp: guard_ok_def split: option.splits)
    with run free show ?thesis by blast
  qed blast
qed

text \<open>One \<open>_dispatch\<close> either runs nothing or runs the command with everything that authorizes it.\<close>

lemma dispatch_inner_effect:
  assumes iv: "inv (wd_journal w)"
    and d: "dispatch_inner ops env c canceled confirmed g p w = (x, p', w')"
  shows "quiet log inv w w' \<or> (runs log inv c w w' \<and> \<not> canceled \<and> denial p c confirmed = Inr None
    \<and> cmd_command_id c \<notin> used_ids (log (wd_journal w)) \<union> pl_seen p
    \<and> (previewed (log (wd_journal w)) (cmd_command_id c) \<longrightarrow> confirmed) \<and> guard_ok g (wd_guards w))"
proof -
  obtain y j where r: "jo_read ops (wd_journal w) (VInt 0) = (y, j)" by (metis surj_pair)
  have lj: "log j = log (wd_journal w)" "inv j" using read_keeps[OF iv r] read_inv[OF iv r] by auto
  show ?thesis
  proof (cases y)
    case (Inl e)
    then have "wd_journal w' = j \<and> wd_executed w' = wd_executed w"
      using d r by (auto simp: dispatch_inner_def dest!: cp_result_world split: prod.splits)
    with lj show ?thesis by (simp add: quiet_def)
  next
    case (Inr es)
    define dup where "dup = (cmd_command_id c \<in> pl_seen p \<union> seen_in es)"
    obtain p2 start w1 f w2 where h: "first_denial p2 c dup (pending_preview es c) confirmed g w1 = (f, w2)"
        "denial p2 c confirmed = denial p c confirmed" "wd_guards w1 = wd_guards w" "wd_journal w2 = j"
        "wd_executed w2 = wd_executed w" "case f of Inl e \<Rightarrow> x = Inl e \<and> w' = w2
          | Inr denied \<Rightarrow> settle ops env p2 c start denied canceled dup g w2 = (x, w')"
      using dispatch_inner_history[OF r[unfolded Inr] d dup_def] by blast
    have seen: "seen_in es = used_ids (log j)"
      "pending_preview es c = previewed (log j) (cmd_command_id c)"
      using read_ok[OF iv r[unfolded Inr]] lj seen_in_used pending_previewed by simp_all
    have lift: "quiet log inv w v" if "quiet log inv w2 v" for v
      using that h(4,5) lj by (simp add: quiet_def)
    show ?thesis
    proof (cases f)
      case (Inl e)
      with h(4-6) lj show ?thesis by (simp add: quiet_def)
    next
      case (Inr denied)
      have "cmd_command_id c \<in> used_ids (log (wd_journal w2)) \<Longrightarrow> dup"
        using seen(1) h(4) by (simp add: dup_def)
      from authorized_effect[OF _ h(1)[unfolded Inr] _ this] h(4,6) Inr lj(2)
      have "quiet log inv w2 w' \<or> (runs log inv c w2 w' \<and> \<not> canceled \<and> \<not> dup \<and> denial p c confirmed = Inr None
          \<and> (pending_preview es c \<longrightarrow> confirmed) \<and> guard_ok g (wd_guards w))"
        using h(2,3) by auto
      then show ?thesis
        using lift quiet_runs[of log w2 w inv c w'] h(4,5) lj(1) seen by (auto simp: dup_def)
    qed
  qed
qed

lemma observe_inner_quiet:
  assumes "inv (wd_journal w)" and "observe_inner ops env c phase details w = (x, w')"
  shows "quiet log inv w w'"
proof -
  have "quiet log inv w v" if "journal_append ops r u = (y, v)" "wd_journal u = wd_journal w"
    "wd_executed u = wd_executed w" for r u y v
    using journal_append_quiet[OF _ that(1)] that(2,3) assms(1) by (auto simp: quiet_def)
  with assms show ?thesis
    by (auto simp: observe_inner_def fresh_id_def tick_def quiet_same
        split: option.splits sum.splits prod.splits)
qed

lemma observe_quiet:
  "inv (wd_journal w) \<Longrightarrow> observe_interaction ops env c phase details w = (x, w') \<Longrightarrow> quiet log inv w w'"
  using observe_inner_quiet by (auto simp: observe_interaction_def quiet_refl split: sum.splits)

lemma preview_quiet:
  assumes "inv (wd_journal w)" and "preview_inner ops env c key p w = (x, p', w')"
  shows "quiet log inv w w'"
proof -
  have "quiet log inv w v" if "observe_interaction ops env r phase details u = (y, v)"
    "wd_journal u = wd_journal w" "wd_executed u = wd_executed w" for r phase details u y v
    using observe_quiet[OF _ that(1)] that(2,3) assms(1) by (auto simp: quiet_def)
  with assms show ?thesis
    by (auto simp: preview_inner_def tick_def quiet_same Let_def
        split: option.splits sum.splits prod.splits if_splits)
qed

lemma confirmation_blocked_quiet:
  assumes "inv (wd_journal w)" and "confirmation_blocked ops env c reason p w = (x, p', w')"
  shows "quiet log inv w w'"
proof -
  let ?p = "p\<lparr>pl_seen := insert (cmd_command_id c) (pl_seen p)\<rparr>"
  obtain y w1 where r: "cp_result env c ''blocked'' [] (Some (cp_error reason ''Confirmation was not valid'')) w = (y, w1)"
    by (metis surj_pair)
  have w1: "wd_journal w1 = wd_journal w" "wd_executed w1 = wd_executed w" using cp_result_world[OF r] by auto
  show ?thesis
  proof (cases y)
    case (Inl e)
    with assms r w1 show ?thesis by (simp add: confirmation_blocked_def quiet_same)
  next
    case (Inr res)
    obtain now w2 where t: "tick env w1 = (now, w2)" by (metis surj_pair)
    obtain b w3 where a: "append_event ops env ?p c (Some res) now w2 = (b, w3)" by (metis surj_pair)
    have w2: "wd_journal w2 = wd_journal w" "wd_executed w2 = wd_executed w"
      using t w1 by (auto simp: tick_def)
    then have q: "quiet log inv w w3"
      using append_event_quiet[OF _ a] assms(1) by (auto simp: quiet_def)
    have "wd_journal w' = wd_journal w3 \<and> wd_executed w' = wd_executed w3"
      using assms(2) r Inr t a
      by (auto simp: confirmation_blocked_def Let_def dest!: cp_result_world split: bool.splits prod.splits)
    with q show ?thesis by (simp add: quiet_def)
  qed
qed

lemma dispatch_effect:
  assumes "inv (wd_journal w)" and "dispatch ops env r canceled g p w = (x, p', w')"
  shows "quiet log inv w w' \<or> (\<exists>c. snapshot_command r = Inr c \<and> runs log inv c w w'
    \<and> canceled = VBool False \<and> denial p c False = Inr None
    \<and> cmd_command_id c \<notin> used_ids (log (wd_journal w)) \<union> pl_seen p
    \<and> \<not> previewed (log (wd_journal w)) (cmd_command_id c) \<and> guard_ok g (wd_guards w))"
proof -
  have "?thesis" if "snapshot_command r = Inr c" "canceled = VBool b"
      "dispatch_inner ops env c b False g (p\<lparr>pl_catalog_users := pl_catalog_users p + 1\<rparr>) w = (x, q, w')" for c b q
    using dispatch_inner_effect[OF assms(1) that(3)] that(1,2) by auto
  then show ?thesis
    using assms
    by (auto simp: dispatch_def catalog_use_def quiet_refl split: sum.splits pyv.splits option.splits prod.splits)
qed

lemma confirm_inner_effect:
  assumes iv: "inv (wd_journal w)"
    and c: "confirm_inner ops env token channel key approved g p w = (x, p', w')"
  shows "quiet log inv w w' \<or> (\<exists>t preview. token = VStr t \<and> map_of (pl_confirmations p) t = Some (preview, key)
    \<and> (\<exists>u. quiet log inv w u \<and> runs log inv (cf_command preview) u w')
    \<and> approved = VBool True \<and> en_clock env (wd_clocks w) < cf_expires_at_ms preview
    \<and> cmd_command_id (cf_command preview) \<notin> used_ids (log (wd_journal w)) \<union> pl_seen p
    \<and> denial p (cf_command preview) True = Inr None)"
proof -
  have blocked: "quiet log inv w w'" if "confirmation_blocked ops env cm reason q u = (x, p', w')" "quiet log inv w u"
    for cm reason q u
    using confirmation_blocked_quiet[OF quiet_inv[OF that(2)] that(1)] that(2) quiet_trans by blast
  have ticked: "quiet log inv w (snd (tick env w))" using iv by (intro quiet_same) auto
  have guarded: "quiet log inv w v" if "guard_denial g (snd (tick env w)) = (d, v)" for d v
    using guard_denial_world[OF that] ticked by (simp add: quiet_def)
  have observed: "quiet log inv w u" if "guard_denial g (snd (tick env w)) = (d, v)"
    "observe_interaction ops env r phase details v = (y, u)" for d v r phase details y u
    using guarded[OF that(1)] observe_quiet[OF _ that(2)] quiet_inv quiet_trans by metis
  show ?thesis
  proof (cases "\<exists>t preview k. token = VStr t \<and> map_of (pl_confirmations p) t = Some (preview, k)")
    case False
    with c iv show ?thesis by (auto simp: confirm_inner_def quiet_refl split: pyv.splits option.splits)
  next
    case True
    then obtain t preview k where t: "token = VStr t" "map_of (pl_confirmations p) t = Some (preview, k)" by blast
    let ?p = "p\<lparr>pl_confirmations := AList.delete t (pl_confirmations p)\<rparr>" and ?c = "cf_command preview"
    obtain d v where d: "guard_denial g (snd (tick env w)) = (d, v)" by (metis surj_pair)
    obtain y u where y: "observe_interaction ops env (RCommand ?c) ''voice.confirmation''
        [(''channel'', VStr channel), (''approved'', approved)] v = (y, u)" by (metis surj_pair)
    have u: "quiet log inv w u" by (rule observed[OF d y])
    show ?thesis
    proof (cases "(\<exists>b. approved = VBool b) \<and> key = k \<and> fst (tick env w) < cf_expires_at_ms preview \<and> d = None
        \<and> y = None \<and> dispatch_inner ops env ?c (approved \<noteq> VBool True) (approved = VBool True) g ?p u = (x, p', w')")
      case True
      with dispatch_inner_effect[OF quiet_inv[OF u], of env ?c "approved \<noteq> VBool True" "approved = VBool True" g ?p x p' w']
      show ?thesis using u quiet_trans[OF u] t by (auto simp: quiet_def tick_def)
    next
      case False
      then have "quiet log inv w w'"
        using c t d y u guarded[OF d] ticked iv
        by (auto simp: confirm_inner_def Let_def case_prod_beta intro: quiet_refl dest: blocked
            split: if_splits option.splits pyv.splits)
      then show ?thesis by blast
    qed
  qed
qed

lemma confirm_effect:
  assumes "inv (wd_journal w)" and "confirm ops env token channel key approved g p w = (x, p', w')"
  shows "quiet log inv w w' \<or> (\<exists>t preview. token = VStr t \<and> map_of (pl_confirmations p) t = Some (preview, key)
    \<and> (\<exists>u. quiet log inv w u \<and> runs log inv (cf_command preview) u w')
    \<and> approved = VBool True \<and> en_clock env (wd_clocks w) < cf_expires_at_ms preview
    \<and> cmd_command_id (cf_command preview) \<notin> used_ids (log (wd_journal w)) \<union> pl_seen p
    \<and> denial p (cf_command preview) True = Inr None)"
proof -
  have "?thesis" if "confirm_inner ops env token channel key approved g
      (p\<lparr>pl_catalog_users := pl_catalog_users p + 1\<rparr>) w = (x, q, w')" for q
    using confirm_inner_effect[OF assms(1) that] by simp
  then show ?thesis
    using assms by (auto simp: confirm_def catalog_use_def quiet_refl split: option.splits prod.splits)
qed

lemma request_quiet:
  "inv (wd_journal w) \<Longrightarrow> request_confirmation ops env r key p w = (x, p', w') \<Longrightarrow> quiet log inv w w'"
  using preview_quiet
  by (auto simp: request_confirmation_def catalog_use_def quiet_refl
      split: sum.splits pyv.splits option.splits if_splits prod.splits)

text \<open>A success is reported only after its completion was recorded.\<close>

lemma finish_reports:
  assumes "inv (wd_journal w)" and "finish ops env p c start d can r w = (Inr s, w')"
  shows "(s = r \<and> (\<exists>e. is_completion c r (REvent e) \<and> wire (REvent e) \<in> set (log (wd_journal w'))))
    \<or> res_status s = (if \<not> d \<and> \<not> can then ''uncertain'' else res_status r)"
proof -
  obtain b w1 where a: "append_event ops env p c (Some r) start w = (b, w1)" by (metis surj_pair)
  show ?thesis
  proof (cases b)
    case True
    with a assms(2) have "s = r" "w' = w1" by (simp_all add: finish_def)
    moreover obtain e where "is_completion c r (REvent e)" "wire (REvent e) \<in> set (log (wd_journal w1))"
      using append_event_recorded[OF assms(1)] a True by fastforce
    ultimately show ?thesis by blast
  next
    case False
    with a assms(2) show ?thesis by (auto simp: finish_def dest!: cp_result_fields)
  qed
qed

lemma execute_inv:
  assumes "inv (wd_journal w)" and "execute ops env p c start g w = (ok, stopped, x, w')"
  shows "inv (wd_journal w')"
proof -
  obtain b w1 where a: "append_event ops env p c None start w = (b, w1)" by (metis surj_pair)
  obtain d w2 where gd: "guard_denial g w1 = (d, w2)" by (metis surj_pair)
  have "inv (wd_journal w1)" using append_event_quiet[OF assms(1) a] by (simp add: quiet_def)
  then show ?thesis
    using a gd assms(2) guard_denial_world[OF gd]
    by (auto simp: execute_def dest!: cp_result_world run_executor_world split: bool.splits option.splits)
qed

lemma execute_reports:
  assumes "inv (wd_journal w)" and "execute ops env p c start g w = (ok, stopped, Inr r, w')"
    and "res_status r = ''success''"
  shows "ok \<and> \<not> stopped \<and> wd_executed w' = wd_executed w @ [c] \<and> inv (wd_journal w')"
proof -
  obtain b w1 where a: "append_event ops env p c None start w = (b, w1)" by (metis surj_pair)
  obtain d w2 where gd: "guard_denial g w1 = (d, w2)" by (metis surj_pair)
  have q: "quiet log inv w w1" by (rule append_event_quiet[OF assms(1) a])
  show ?thesis
    using a gd q assms(2,3) guard_denial_world[OF gd]
    by (auto simp: execute_def quiet_def dest!: cp_result_fields run_executor_world
        split: bool.splits option.splits)
qed

lemma settle_success_path:
  assumes iv: "inv (wd_journal w)"
    and s: "settle ops env p c start denied canceled dup g w = (Inr r, w')"
    and "res_status r = ''success''" and new: "denied = None \<Longrightarrow> \<not> dup"
  shows "denied = None \<and> \<not> canceled"
proof -
  have no: False if "cp_result env c st out err w = (Inr q, v)" "st \<noteq> ''success''" "b \<or> can"
      "finish ops env p c start b can q v = (Inr r, w')" for st out err q v b can
    using finish_reports[OF _ that(4)] cp_result_world[OF that(1)] cp_result_fields[OF that(1)] iv assms(3) that(2,3)
    by auto
  show ?thesis
  proof (rule ccontr)
    assume "\<not> ?thesis"
    then consider "canceled" "\<not> dup" | reason where "denied = Some reason" "\<not> (canceled \<and> \<not> dup)"
      using new by (cases denied) auto
    then show False
    proof cases
      case 1
      obtain y v where y: "cp_result env c ''canceled'' [] None w = (y, v)" by (metis surj_pair)
      with 1 s obtain q where "y = Inr q" "finish ops env p c start (denied \<noteq> None) True q v = (Inr r, w')"
        by (cases y) (simp_all add: settle_def)
      with y no[of "''canceled''" "[]" None q v "denied \<noteq> None" True] show False by simp
    next
      case 2
      let ?e = "Some (cp_error reason ''VM policy did not authorize execution'')"
      obtain y v where y: "cp_result env c ''blocked'' [] ?e w = (y, v)" by (metis surj_pair)
      with 2 s obtain q where "y = Inr q" "finish ops env p c start True canceled q v = (Inr r, w')"
        by (cases y) (auto simp: settle_def simp del: not_None_eq)
      with y no[of "''blocked''" "[]" ?e q v True canceled] show False by simp
    qed
  qed
qed

lemma settle_success:
  assumes iv: "inv (wd_journal w)"
    and s: "settle ops env p c start denied canceled dup g w = (Inr r, w')"
    and "res_status r = ''success''" and new: "denied = None \<Longrightarrow> \<not> dup"
  shows "wd_executed w' = wd_executed w @ [c] \<and>
    (\<exists>e. is_completion c r (REvent e) \<and> wire (REvent e) \<in> set (log (wd_journal w')))"
proof -
  note ok = settle_success_path[OF assms]
  obtain saved stopped y w1 where e: "execute ops env p c start g w = (saved, stopped, y, w1)"
    by (metis prod_cases4)
  obtain q where q: "y = Inr q"
    using s e ok by (cases y) (auto simp: settle_def split: bool.splits)
  show ?thesis
  proof (cases "saved")
    case False
    with s e ok q have "y = Inr r" "w1 = w'" by (auto simp: settle_def)
    with execute_reports[OF iv] e assms(3) False show ?thesis by blast
  next
    case True
    then have f: "finish ops env p c start stopped canceled q w1 = (Inr r, w')"
      using s e ok q by (auto simp: settle_def)
    have iv1: "inv (wd_journal w1)" by (rule execute_inv[OF iv e])
    have good: "res_status q = ''success'' \<Longrightarrow> \<not> stopped \<and> wd_executed w1 = wd_executed w @ [c]"
      using execute_reports[OF iv e[unfolded q]] by blast
    have "r = q" "\<exists>e. is_completion c q (REvent e) \<and> wire (REvent e) \<in> set (log (wd_journal w'))"
      using finish_reports[OF iv1 f] assms(3) ok good by (auto split: if_splits)
    moreover have "wd_executed w' = wd_executed w1"
      using finish_quiet[OF iv1 f] by (simp add: quiet_def)
    ultimately show ?thesis using good assms(3) by simp
  qed
qed

lemma dispatch_inner_success:
  assumes iv: "inv (wd_journal w)"
    and d: "dispatch_inner ops env c canceled confirmed g p w = (Inr r, p', w')"
    and ok: "res_status r = ''success''"
  shows "wd_executed w' = wd_executed w @ [c] \<and>
    (\<exists>e. is_completion c r (REvent e) \<and> wire (REvent e) \<in> set (log (wd_journal w')))"
proof -
  obtain y j where r: "jo_read ops (wd_journal w) (VInt 0) = (y, j)" by (metis surj_pair)
  have lj: "inv j" by (rule read_inv[OF iv r])
  show ?thesis
  proof (cases y)
    case (Inl e)
    then have False
      using d r ok by (auto simp: dispatch_inner_def dest!: cp_result_fields split: prod.splits)
    then show ?thesis ..
  next
    case (Inr es)
    define dup where "dup = (cmd_command_id c \<in> pl_seen p \<union> seen_in es)"
    obtain p2 start w1 f w2 where h: "first_denial p2 c dup (pending_preview es c) confirmed g w1 = (f, w2)"
        "wd_journal w2 = j" "wd_executed w2 = wd_executed w" "case f of Inl e \<Rightarrow> Inr r = Inl e \<and> w' = w2
          | Inr denied \<Rightarrow> settle ops env p2 c start denied canceled dup g w2 = (Inr r, w')"
      using dispatch_inner_history[OF r[unfolded Inr] d dup_def] by blast
    then obtain denied where f: "f = Inr denied" "settle ops env p2 c start denied canceled dup g w2 = (Inr r, w')"
      by (auto split: sum.splits)
    have "denied = None \<Longrightarrow> \<not> dup" using h(1) f(1) first_denial_None by blast
    from settle_success[OF _ f(2) ok this] show ?thesis using h(2,3) lj by simp
  qed
qed

lemma dispatch_success:
  assumes "inv (wd_journal w)" and "dispatch ops env x canceled g p w = (Inr r, p', w')"
    and "res_status r = ''success''"
  shows "\<exists>c e. snapshot_command x = Inr c \<and> wd_executed w' = wd_executed w @ [c]
    \<and> is_completion c r (REvent e) \<and> wire (REvent e) \<in> set (log (wd_journal w'))"
proof -
  have ?thesis if "snapshot_command x = Inr c"
      "dispatch_inner ops env c b False g q w = (Inr r, q', w')" for c b q q'
    using dispatch_inner_success[OF assms(1) that(2) assms(3)] that(1) by blast
  then show ?thesis
    using assms(2) by (auto simp: dispatch_def catalog_use_def split: sum.splits pyv.splits option.splits prod.splits)
qed

end

section \<open>A system of control planes over one journal\<close>

text \<open>
  Several control planes share one journal and one executor. A step is one operation of one plane
  with any environment, arguments and guard; the construction of a plane; the loss of one (a
  restart is a loss and a construction, which forgets the plane's memory of commands and its
  previews); a record appended or a log read by someone else; or the journal reopened with the log
  it had.
\<close>

record 'j system =
  sy_planes :: "plane list"
  sy_world :: "'j world"

inductive sys_step ::
  "'j journal_ops \<Rightarrow> ('j \<Rightarrow> pyv list) \<Rightarrow> ('j \<Rightarrow> bool) \<Rightarrow> 'j system \<Rightarrow> 'j system \<Rightarrow> bool"
  for ops lg iv where
  sys_create: "plane_init catalog pol pro = Inr p \<Longrightarrow>
    sys_step ops lg iv s (s\<lparr>sy_planes := sy_planes s @ [p]\<rparr>)"
| sys_lose: "sys_step ops lg iv s (s\<lparr>sy_planes := take i (sy_planes s) @ drop (Suc i) (sy_planes s)\<rparr>)"
| sys_dispatch: "i < length (sy_planes s) \<Longrightarrow>
    dispatch ops env r canceled g (sy_planes s ! i) (sy_world s) = (x, p', w') \<Longrightarrow>
    sys_step ops lg iv s \<lparr>sy_planes = (sy_planes s)[i := p'], sy_world = w'\<rparr>"
| sys_confirm: "i < length (sy_planes s) \<Longrightarrow>
    confirm ops env token channel key approved g (sy_planes s ! i) (sy_world s) = (x, p', w') \<Longrightarrow>
    sys_step ops lg iv s \<lparr>sy_planes = (sy_planes s)[i := p'], sy_world = w'\<rparr>"
| sys_request: "i < length (sy_planes s) \<Longrightarrow>
    request_confirmation ops env r key' (sy_planes s ! i) (sy_world s) = (y, p', w') \<Longrightarrow>
    sys_step ops lg iv s \<lparr>sy_planes = (sy_planes s)[i := p'], sy_world = w'\<rparr>"
| sys_observe: "observe_interaction ops env r phase details (sy_world s) = (z, w') \<Longrightarrow>
    sys_step ops lg iv s (s\<lparr>sy_world := w'\<rparr>)"
| sys_replace: "i < length (sy_planes s) \<Longrightarrow>
    replace_catalog ops catalog expected new (sy_planes s ! i) (sy_world s) = (v, p') \<Longrightarrow>
    sys_step ops lg iv s (s\<lparr>sy_planes := (sy_planes s)[i := p']\<rparr>)"
| sys_append: "journal_append ops r (sy_world s) = (a, w') \<Longrightarrow>
    sys_step ops lg iv s (s\<lparr>sy_world := w'\<rparr>)"
| sys_reopen: "iv j \<Longrightarrow> lg j = lg (wd_journal (sy_world s)) \<Longrightarrow>
    sys_step ops lg iv s (s\<lparr>sy_world := (sy_world s)\<lparr>wd_journal := j\<rparr>\<rparr>)"

inductive sys_reach ::
  "'j journal_ops \<Rightarrow> ('j \<Rightarrow> pyv list) \<Rightarrow> ('j \<Rightarrow> bool) \<Rightarrow> 'j system \<Rightarrow> bool"
  for ops lg iv where
  sys_start: "iv (wd_journal w) \<Longrightarrow> wd_executed w = [] \<Longrightarrow> sys_reach ops lg iv \<lparr>sy_planes = [], sy_world = w\<rparr>"
| sys_next: "sys_reach ops lg iv s \<Longrightarrow> sys_step ops lg iv s s' \<Longrightarrow> sys_reach ops lg iv s'"

lemma runs_ledger:
  assumes "quiet lg iv w u" and "runs lg iv c u w'" and "cmd_command_id c \<notin> used_ids (lg (wd_journal w))"
  shows "ledger_step (ledger_of lg w) (ledger_of lg w')"
proof -
  obtain e new where e: "is_intent c (REvent e)" "lg (wd_journal w') = lg (wd_journal u) @ wire (REvent e) # new"
    using assms(2) by (auto simp: runs_def)
  then have "cmd_command_id c \<in> used_ids (lg (wd_journal w'))"
    using command_of_completion[of c _ "REvent e"] by (auto simp: used_ids_def)
  moreover have "used_ids (lg (wd_journal w)) \<subseteq> used_ids (lg (wd_journal w'))"
    using assms(1) e(2) by (auto simp: quiet_def used_ids_def)
  ultimately show ?thesis
    using assms by (auto simp: ledger_of_def runs_def quiet_def intro!: run_id)
qed

context journal_adapter
begin

text \<open>Every step of the system is a step of the ledger.\<close>

lemma sys_step_refines:
  assumes "sys_step ops log inv s s'" and iv: "inv (wd_journal (sy_world s))"
  shows "inv (wd_journal (sy_world s')) \<and>
    ledger_step (ledger_of log (sy_world s)) (ledger_of log (sy_world s'))"
proof -
  let ?w = "sy_world s"
  have still: "ledger_step l l" for l by (cases l) (simp add: note_ids)
  have quiet: ?thesis if "quiet log inv ?w (sy_world s')"
    using quiet_ledger[OF that] quiet_inv[OF that] by blast
  have ran: ?thesis if "quiet log inv ?w u" "runs log inv c u (sy_world s')"
      "cmd_command_id c \<notin> used_ids (log (wd_journal ?w))" for u c
    using runs_ledger[OF that] that(2) by (simp add: runs_def)
  from assms(1) show ?thesis
  proof cases
    case (sys_dispatch i env r canceled g x p' w')
    then show ?thesis
      using dispatch_effect[OF iv sys_dispatch(3)] quiet ran[OF quiet_refl] iv by auto
  next
    case (sys_confirm i env token channel key approved g x p' w')
    then show ?thesis
      using confirm_effect[OF iv sys_confirm(3)] quiet ran by auto
  next
    case (sys_reopen j)
    then show ?thesis using iv still by (simp add: ledger_of_def)
  qed (use iv still quiet request_quiet observe_quiet journal_append_quiet in auto)
qed

lemma sys_reach_ledger:
  "sys_reach ops log inv s \<Longrightarrow> inv (wd_journal (sy_world s)) \<and> distinct (map cmd_command_id (wd_executed (sy_world s)))
    \<and> set (map cmd_command_id (wd_executed (sy_world s))) \<subseteq> used_ids (log (wd_journal (sy_world s)))"
proof (induction rule: sys_reach.induct)
  case (sys_next s s')
  then have "ledger_inv (ledger_of log (sy_world s))" by (simp add: ledger_inv_def ledger_of_def)
  with sys_step_refines[OF sys_next(2)] sys_next.IH ledger_step_inv
  have "inv (wd_journal (sy_world s')) \<and> ledger_inv (ledger_of log (sy_world s'))" by blast
  then show ?case by (simp add: ledger_inv_def ledger_of_def)
qed simp

end

section \<open>Samples\<close>

text \<open>One plane with one safe capability and one that needs a confirmation, over an empty database.\<close>

definition sample_capability :: "string \<Rightarrow> string \<Rightarrow> capability" where
  "sample_capability i risk = \<lparr>cap_version = 1, cap_capability_id = i, cap_catalog_version = 1,
     cap_enabled = True, cap_risk = risk, cap_arguments = [(''n'', VStr ''integer'')], cap_provenance = ''t''\<rparr>"

definition sample_plane :: plane where
  "sample_plane = \<lparr>pl_catalog = [(''open'', sample_capability ''open'' ''safe''), (''wipe'', sample_capability ''wipe'' ''confirm'')],
     pl_catalog_version = 1, pl_catalog_users = 0,
     pl_policy = \<lparr>pol_version = 1, pol_policy_id = ''q'', pol_revision = 1, pol_enabled = True,
       pol_allowed_capabilities = [''open'', ''wipe''], pol_confirmation_required = []\<rparr>,
     pl_profile = \<lparr>pro_version = 1, pro_profile_id = ''p'', pro_policy_id = ''q'', pro_enabled = True,
       pro_voice_enabled = False\<rparr>,
     pl_seen = {}, pl_confirmations = []\<rparr>"

definition sample_command :: "string \<Rightarrow> command" where
  "sample_command capability = \<lparr>cmd_version = 1, cmd_command_id = ''c1'', cmd_correlation_id = ''k1'',
     cmd_capability_id = capability, cmd_catalog_version = 1, cmd_requested_at_ms = 0,
     cmd_arguments = [(''n'', VInt 3)], cmd_context = freeze_bag sample_context\<rparr>"

definition sample_env :: env where
  "sample_env = \<lparr>en_clock = (\<lambda>n. 1000 + int n), en_identifiers = (\<lambda>n. CHR ''i'' # replicate n CHR ''x''),
     en_tokens = (\<lambda>n. CHR ''t'' # replicate n CHR ''x''),
     en_executor = (\<lambda>_ _. ExecReturns \<lparr>oc_status = ''success'', oc_output = [], oc_error = None\<rparr>)\<rparr>"

definition sample_world :: "(nat \<Rightarrow> fault) \<Rightarrow> sqlite_journal world" where
  "sample_world faults = \<lparr>wd_journal = empty_database 7 faults, wd_clocks = 0, wd_ids = 0, wd_tokens = 0,
     wd_guards = 0, wd_executed = []\<rparr>"

definition sample_init :: "exc + plane" where
  "sample_init = plane_init [RCapability (sample_capability ''open'' ''safe''), RCapability (sample_capability ''wipe'' ''confirm'')]
     (RPolicy (pl_policy sample_plane)) (RProfile (pl_profile sample_plane))"

definition sample_dispatch :: "(exc + result) \<times> plane \<times> sqlite_journal world" where
  "sample_dispatch = dispatch sqlite_ops sample_env (RCommand (sample_command ''open'')) (VBool False) None
     sample_plane (sample_world (\<lambda>_. Works))"

lemma sample_init_plane: "sample_init = Inr sample_plane"
  by code_simp

lemma sample_dispatch_runs: "wd_executed (snd (snd sample_dispatch)) = [sample_command ''open'']"
  by code_simp

lemma sample_dispatch_result: "map_sum id res_status (fst sample_dispatch) = Inr ''success''"
  by code_simp

lemma sample_world_inv: "sqlite_inv (wd_journal (sample_world faults))"
  by (simp add: sample_world_def empty_database_def sqlite_inv_def sqlite_log_def)

lemma sample_reach:
  "sys_reach sqlite_ops sqlite_log sqlite_inv
    \<lparr>sy_planes = [fst (snd sample_dispatch)], sy_world = snd (snd sample_dispatch)\<rparr>"
proof -
  let ?s0 = "\<lparr>sy_planes = [], sy_world = sample_world (\<lambda>_. Works)\<rparr>"
  let ?s1 = "\<lparr>sy_planes = [sample_plane], sy_world = sample_world (\<lambda>_. Works)\<rparr>"
  have "sys_reach sqlite_ops sqlite_log sqlite_inv ?s0"
    using sample_world_inv[of "\<lambda>_. Works"] by (intro sys_start) (simp_all add: sample_world_def)
  moreover have "sys_step sqlite_ops sqlite_log sqlite_inv ?s0 ?s1"
    using sys_create[OF sample_init_plane[unfolded sample_init_def], of _ _ _ ?s0] by simp
  moreover have "sys_step sqlite_ops sqlite_log sqlite_inv ?s1
      \<lparr>sy_planes = [fst (snd sample_dispatch)], sy_world = snd (snd sample_dispatch)\<rparr>"
    using sys_dispatch[of 0 ?s1 sqlite_ops sample_env "RCommand (sample_command ''open'')" "VBool False" None
        "fst sample_dispatch" "fst (snd sample_dispatch)" "snd (snd sample_dispatch)"]
    by (simp add: sample_dispatch_def)
  ultimately show ?thesis using sys_next by blast
qed

section \<open>Properties of dispatch\<close>

text \<open>C1: No command is executed twice. Over the file journal, whatever its statements and commits do,
  for any number of control planes that share it, any sequence of dispatches, confirmations,
  previews, catalog changes, restarts and reopenings, and any executor, clock, identifiers and
  guards: the commands handed to the executor have pairwise different identifiers, and each of them
  is in the journal.\<close>

theorem at_most_once:
  assumes "sys_reach sqlite_ops sqlite_log sqlite_inv s"
  shows "distinct (map cmd_command_id (wd_executed (sy_world s))) \<and>
    set (map cmd_command_id (wd_executed (sy_world s))) \<subseteq> used_ids (sqlite_log (wd_journal (sy_world s)))"
  using sq.sys_reach_ledger[OF assms] by blast

theorem at_most_once_witness:
  "\<exists>s. sys_reach sqlite_ops sqlite_log sqlite_inv s \<and> map cmd_command_id (wd_executed (sy_world s)) = [''c1'']
    \<and> ''c1'' \<in> used_ids (sqlite_log (wd_journal (sy_world s)))"
proof -
  let ?s = "\<lparr>sy_planes = [fst (snd sample_dispatch)], sy_world = snd (snd sample_dispatch)\<rparr>"
  have "map cmd_command_id (wd_executed (sy_world ?s)) = [''c1'']"
    by (simp add: sample_dispatch_runs sample_command_def)
  with at_most_once[OF sample_reach] sample_reach show ?thesis by (intro exI[of _ ?s]) auto
qed

text \<open>C5: Every step of a system of control planes over the file journal is a step of the ledger:
  it adds identifiers to those the journal shows as used, or runs one command whose identifier was
  not used and uses it.\<close>

theorem system_refines_ledger:
  assumes "sys_step sqlite_ops sqlite_log sqlite_inv s s'" and "sqlite_inv (wd_journal (sy_world s))"
  shows "sqlite_inv (wd_journal (sy_world s')) \<and>
    ledger_step (ledger_of sqlite_log (sy_world s)) (ledger_of sqlite_log (sy_world s'))"
  by (rule sq.sys_step_refines[OF assms])

theorem system_refines_ledger_witness:
  "ledger_step (ledger_of sqlite_log (sample_world (\<lambda>_. Works))) (ledger_of sqlite_log (snd (snd sample_dispatch)))"
proof -
  let ?s = "\<lparr>sy_planes = [sample_plane], sy_world = sample_world (\<lambda>_. Works)\<rparr>"
  have "sys_step sqlite_ops sqlite_log sqlite_inv ?s
      \<lparr>sy_planes = [fst (snd sample_dispatch)], sy_world = snd (snd sample_dispatch)\<rparr>"
    using sys_dispatch[of 0 ?s sqlite_ops sample_env "RCommand (sample_command ''open'')" "VBool False" None
        "fst sample_dispatch" "fst (snd sample_dispatch)" "snd (snd sample_dispatch)"]
    by (simp add: sample_dispatch_def)
  from system_refines_ledger[OF this] show ?thesis by (simp add: sample_world_inv)
qed

text \<open>C2: Dispatch executes only what it authorized, and only after the intent is durable. When a
  dispatch hands anything to the executor, it is the snapshot of its command, once; policy, profile,
  catalog and arguments allow it without confirmation, it was not cancelled, its identifier is
  neither in the journal nor among the seen ones, no preview of it is pending, the guard held both
  before and after, and the first new journal entry is its start event.\<close>

theorem dispatch_executes_authorized:
  assumes "sqlite_inv (wd_journal w)"
    and "dispatch sqlite_ops env r canceled g p w = (x, p', w')"
    and "wd_executed w' \<noteq> wd_executed w"
  shows "\<exists>c. snapshot_command r = Inr c \<and> wd_executed w' = wd_executed w @ [c]
    \<and> canceled = VBool False \<and> denial p c False = Inr None
    \<and> cmd_command_id c \<notin> used_ids (sqlite_log (wd_journal w)) \<union> pl_seen p
    \<and> \<not> previewed (sqlite_log (wd_journal w)) (cmd_command_id c) \<and> guard_ok g (wd_guards w)
    \<and> (\<exists>e new. is_intent c (REvent e)
        \<and> sqlite_log (wd_journal w') = sqlite_log (wd_journal w) @ wire (REvent e) # new)"
  using sq.dispatch_effect[OF assms(1,2)] assms(3) by (auto simp: quiet_def runs_def)

theorem dispatch_executes_authorized_witness:
  "\<exists>c. wd_executed (snd (snd sample_dispatch)) = [c] \<and> denial sample_plane c False = Inr None"
proof -
  have "wd_executed (snd (snd sample_dispatch)) \<noteq> wd_executed (sample_world (\<lambda>_. Works))"
    by (simp add: sample_dispatch_runs sample_world_def)
  moreover have "dispatch sqlite_ops sample_env (RCommand (sample_command ''open'')) (VBool False) None sample_plane
      (sample_world (\<lambda>_. Works)) = (fst sample_dispatch, fst (snd sample_dispatch), snd (snd sample_dispatch))"
    by (simp add: sample_dispatch_def)
  ultimately have "\<exists>c. wd_executed (snd (snd sample_dispatch)) = wd_executed (sample_world (\<lambda>_. Works)) @ [c]
      \<and> denial sample_plane c False = Inr None"
    using dispatch_executes_authorized[OF sample_world_inv] by blast
  then show ?thesis by (simp add: sample_world_def)
qed

text \<open>C3: A success is never claimed without evidence: when dispatch returns a result with status
  success, the executor ran this command, and the journal has the completion event with the
  identifier of that very result.\<close>

theorem dispatch_success_recorded:
  assumes "sqlite_inv (wd_journal w)"
    and "dispatch sqlite_ops env x canceled g p w = (Inr r, p', w')" and "res_status r = ''success''"
  shows "\<exists>c e. snapshot_command x = Inr c \<and> wd_executed w' = wd_executed w @ [c]
    \<and> is_completion c r (REvent e) \<and> wire (REvent e) \<in> set (sqlite_log (wd_journal w'))"
  by (rule sq.dispatch_success[OF assms])

theorem dispatch_success_recorded_witness:
  "\<exists>r e. fst sample_dispatch = Inr r \<and> is_completion (sample_command ''open'') r (REvent e)
    \<and> wire (REvent e) \<in> set (sqlite_log (wd_journal (snd (snd sample_dispatch))))"
proof -
  obtain r where r: "fst sample_dispatch = Inr r" "res_status r = ''success''"
    using sample_dispatch_result by (cases "fst sample_dispatch") auto
  then have "dispatch sqlite_ops sample_env (RCommand (sample_command ''open'')) (VBool False) None sample_plane
      (sample_world (\<lambda>_. Works)) = (Inr r, fst (snd sample_dispatch), snd (snd sample_dispatch))"
    by (metis prod.collapse sample_dispatch_def)
  from dispatch_success_recorded[OF sample_world_inv this r(2)] r(1) sample_dispatch_runs show ?thesis
    by (auto simp: sample_world_def)
qed

text \<open>C4: A confirmation executes only the previewed command: when \<open>confirm\<close> hands anything to the
  executor, the token names a pending preview requested under the same context key, approval was
  given, the preview had not expired, and the policy still allows the command with confirmation.\<close>

theorem confirm_executes_previewed:
  assumes "sqlite_inv (wd_journal w)"
    and "confirm sqlite_ops env token channel key approved g p w = (x, p', w')"
    and "wd_executed w' \<noteq> wd_executed w"
  shows "\<exists>t preview. token = VStr t \<and> map_of (pl_confirmations p) t = Some (preview, key)
    \<and> wd_executed w' = wd_executed w @ [cf_command preview] \<and> approved = VBool True
    \<and> en_clock env (wd_clocks w) < cf_expires_at_ms preview
    \<and> cmd_command_id (cf_command preview) \<notin> used_ids (sqlite_log (wd_journal w)) \<union> pl_seen p
    \<and> denial p (cf_command preview) True = Inr None"
  using sq.confirm_effect[OF assms(1,2)] assms(3) by (auto simp: quiet_def runs_def)

definition sample_preview :: "(exc + confirmation) \<times> plane \<times> sqlite_journal world" where
  "sample_preview = request_confirmation sqlite_ops sample_env (RCommand (sample_command ''wipe'')) (VStr ''k'')
     sample_plane (sample_world (\<lambda>_. Works))"

definition sample_confirm :: "(exc + result) \<times> plane \<times> sqlite_journal world" where
  "sample_confirm = confirm sqlite_ops sample_env (VStr ''t'') ''panel'' ''k'' (VBool True) None
     (fst (snd sample_preview)) (snd (snd sample_preview))"

lemma sample_confirm_runs:
  "wd_executed (snd (snd sample_confirm)) = [sample_command ''wipe''] \<and> wd_executed (snd (snd sample_preview)) = []"
  by code_simp

theorem confirm_executes_previewed_witness:
  "\<exists>preview. map_of (pl_confirmations (fst (snd sample_preview))) ''t'' = Some (preview, ''k'')
    \<and> wd_executed (snd (snd sample_confirm)) = [cf_command preview]"
proof -
  have "sqlite_inv (wd_journal (snd (snd sample_preview)))"
    using sq.request_quiet[OF sample_world_inv, of sample_env "RCommand (sample_command ''wipe'')" "VStr ''k''" sample_plane
        _ "fst sample_preview" "fst (snd sample_preview)" "snd (snd sample_preview)"]
    by (simp add: sample_preview_def quiet_def)
  moreover have "wd_executed (snd (snd sample_confirm)) \<noteq> wd_executed (snd (snd sample_preview))"
    by (simp add: sample_confirm_runs)
  ultimately show ?thesis
    using confirm_executes_previewed[of "snd (snd sample_preview)" sample_env "VStr ''t''" "''panel''" "''k''" "VBool True" None
        "fst (snd sample_preview)" "fst sample_confirm" "fst (snd sample_confirm)" "snd (snd sample_confirm)"]
    by (auto simp: sample_confirm_def[symmetric] sample_confirm_runs)
qed

end
