(* ===== verification/Authorization.thy ===== *)
theory Authorization
  imports Dispatch_Safety
begin

text \<open>
  The authorization decision of \<open>src/runtime/core.py\<close> (\<open>_denial\<close>), the shape of a control plane that
  every operation keeps, the compare-and-swap of the catalog, and the single use of previews.
\<close>

section \<open>The decision\<close>

lemma arguments_denial_None:
  "arguments_denial args kinds = Inr None \<longleftrightarrow> (\<forall>(name, kind) \<in> set kinds. \<exists>v k. map_of args name = Some v
     \<and> kind = VStr k \<and> k \<in> {''string'', ''integer'', ''number'', ''boolean''} \<and> argument_type_ok k v)"
  by (induction args kinds rule: arguments_denial.induct)
    (auto split: option.splits pyv.splits if_splits)

text \<open>The conditions under which a command may run, one per line of \<open>_denial\<close>.\<close>

definition authorized :: "plane \<Rightarrow> command \<Rightarrow> bool \<Rightarrow> bool" where
  "authorized p c confirmed \<longleftrightarrow>
     pro_enabled (pl_profile p) \<and> pro_policy_id (pl_profile p) = pol_policy_id (pl_policy p)
     \<and> map_of (cmd_context c) ''profile_id'' = Some (VStr (pro_profile_id (pl_profile p)))
     \<and> (\<exists>source. map_of (cmd_context c) ''source'' = Some source
          \<and> (source = VStr ''voice'' \<longrightarrow> pro_voice_enabled (pl_profile p)))
     \<and> pol_enabled (pl_policy p) \<and> cmd_capability_id c \<in> set (pol_allowed_capabilities (pl_policy p))
     \<and> (\<exists>capability. map_of (pl_catalog p) (cmd_capability_id c) = Some capability \<and> cap_enabled capability
          \<and> cap_catalog_version capability = cmd_catalog_version c \<and> cap_risk capability \<noteq> ''blocked''
          \<and> (confirmed \<or> cap_risk capability \<noteq> ''confirm''
               \<and> cmd_capability_id c \<notin> set (pol_confirmation_required (pl_policy p)))
          \<and> set (keys (cmd_arguments c)) = set (keys (cap_arguments capability))
          \<and> (\<forall>(name, kind) \<in> set (cap_arguments capability). \<exists>v k. map_of (cmd_arguments c) name = Some v
               \<and> kind = VStr k \<and> k \<in> {''string'', ''integer'', ''number'', ''boolean''} \<and> argument_type_ok k v))"

lemma denial_None_authorized: "denial p c confirmed = Inr None \<longleftrightarrow> authorized p c confirmed"
  unfolding authorized_def arguments_denial_None[symmetric]
  by (simp add: denial_def Let_def split: option.split) blast

section \<open>Well-formed planes\<close>

definition capability_wf :: "capability \<Rightarrow> bool" where
  "capability_wf cap \<longleftrightarrow> snapshot (RCapability cap) = Inr (RCapability cap)"

definition command_wf :: "command \<Rightarrow> bool" where
  "command_wf c \<longleftrightarrow> snapshot (RCommand c) = Inr (RCommand c)"

definition catalog_wf :: "(string \<times> capability) list \<Rightarrow> int \<Rightarrow> bool" where
  "catalog_wf catalog version \<longleftrightarrow> length catalog \<le> 256 \<and> distinct (map fst catalog)
     \<and> (\<forall>(i, cap) \<in> set catalog. cap_capability_id cap = i \<and> cap_catalog_version cap = version \<and> capability_wf cap)"

definition plane_wf :: "plane \<Rightarrow> bool" where
  "plane_wf p \<longleftrightarrow> catalog_wf (pl_catalog p) (pl_catalog_version p) \<and> pl_catalog_users p = 0
     \<and> 1 \<le> pl_catalog_version p \<and> length (pl_confirmations p) \<le> 128
     \<and> (\<forall>(t, preview, key) \<in> set (pl_confirmations p). cf_token preview = t \<and> key \<noteq> [] \<and> command_wf (cf_command preview))"

lemma snapshot_command_wf: "snapshot_command r = Inr c \<Longrightarrow> command_wf c"
  by (auto simp: snapshot_command_def command_wf_def dest: snapshot_idem split: sum.splits rec.splits)

lemma snapshot_capability_wf: "snapshot_capability r = Inr c \<Longrightarrow> capability_wf c"
  by (auto simp: snapshot_capability_def capability_wf_def dest: snapshot_idem split: sum.splits rec.splits)

lemma snapshot_all_wf: "snapshot_all rs = Inr cs \<Longrightarrow> list_all capability_wf cs \<and> length cs = length rs"
  by (induction rs arbitrary: cs) (auto dest: snapshot_capability_wf)

lemma one_version:
  assumes "length (remdups (map f xs)) \<le> 1" and "x \<in> set xs" and "y \<in> set xs"
  shows "f x = f y"
proof -
  have "card (set (map f xs)) \<le> 1" using assms(1) by (metis card_set)
  then show ?thesis using assms(2,3) by (metis List.finite_set card_le_Suc0_iff_eq One_nat_def imageI set_map)
qed

lemma catalog_snapshot_wf:
  assumes "catalog_snapshot catalog = Inr (entries, revision)"
  shows "(case revision of None \<Rightarrow> entries = [] | Some v \<Rightarrow> catalog_wf entries v)"
proof -
  obtain cs where cs: "snapshot_all (take 257 catalog) = Inr cs" "length cs \<le> 256"
      "distinct (map cap_capability_id cs)" "length (remdups (map cap_catalog_version cs)) \<le> 1"
      "entries = map (\<lambda>c. (cap_capability_id c, c)) cs"
      "revision = (case cs of [] \<Rightarrow> None | c # _ \<Rightarrow> Some (cap_catalog_version c))"
    using assms by (auto simp: catalog_snapshot_def not_less split: if_splits)
  show ?thesis
  proof (cases cs)
    case (Cons c ds)
    have "cap_catalog_version x = cap_catalog_version c" if "x \<in> set cs" for x
      using one_version[OF cs(4) that, of c] Cons by simp
    moreover have "list_all capability_wf cs" using snapshot_all_wf[OF cs(1)] by blast
    ultimately have "catalog_wf entries (cap_catalog_version c)"
      using cs(2,3,5) by (auto simp: catalog_wf_def comp_def list_all_iff)
    with cs(6) Cons show ?thesis by simp
  qed (use cs in simp)
qed

lemma capability_version: "capability_wf cap \<Longrightarrow> 1 \<le> cap_catalog_version cap"
proof -
  assume "capability_wf cap"
  then have "validate schema_capability (thaw_rec (RCapability cap)) = None"
    by (auto simp: capability_wf_def snapshot_eq_Inr decode_eq_Inr record_schemas_def)
  from closed_object_field[OF this[unfolded schema_capability_def thaw_rec.simps], of "''catalog_version''"]
  show ?thesis by auto
qed

lemma plane_init_wf:
  assumes "plane_init catalog policy profile = Inr p"
  shows "plane_wf p"
proof -
  obtain entries revision where c: "catalog_snapshot catalog = Inr (entries, revision)"
      and p: "pl_catalog p = entries" "pl_catalog_version p = (case revision of None \<Rightarrow> 1 | Some v \<Rightarrow> v)"
        "pl_catalog_users p = 0" "pl_confirmations p = []"
    using assms by (auto simp: plane_init_def)
  have "1 \<le> v" if r: "revision = Some v" for v
  proof -
    from r have "entries \<noteq> []" using c by (auto simp: catalog_snapshot_def split: if_splits list.splits)
    then obtain i cap where "(i, cap) \<in> set entries" by (cases entries) auto
    moreover have "catalog_wf entries v" using catalog_snapshot_wf[OF c] r by simp
    ultimately have "cap_catalog_version cap = v" "capability_wf cap" by (auto simp: catalog_wf_def)
    then show ?thesis using capability_version by blast
  qed
  with catalog_snapshot_wf[OF c] p show ?thesis
    by (auto simp: plane_wf_def catalog_wf_def split: option.splits)
qed

lemma replace_catalog_wf:
  assumes "replace_catalog ops catalog expected new p w = (x, p')" and "plane_wf p"
  shows "plane_wf p'"
proof (cases x)
  case (Inl e)
  then have "p' = p"
    using assms(1) by (auto simp: replace_catalog_def split: option.splits sum.splits if_splits prod.splits)
  with assms(2) show ?thesis by simp
next
  case (Inr v)
  then obtain entries revision where c: "catalog_snapshot catalog = Inr (entries, revision)"
      and r: "revision = None \<or> revision = Some v" and v: "pl_catalog_version p < v"
      and p': "p' = p\<lparr>pl_catalog := entries, pl_catalog_version := v, pl_confirmations := []\<rparr>"
    using assms(1) by (auto simp: replace_catalog_def split: option.splits sum.splits if_splits prod.splits)
  have "catalog_wf entries v"
    using catalog_snapshot_wf[OF c] r by (auto simp: catalog_wf_def)
  with p' v assms(2) show ?thesis by (auto simp: plane_wf_def)
qed

text \<open>The plane after the parts of dispatch, confirmation and preview.\<close>

lemma dispatch_inner_plane:
  "dispatch_inner ops env c can conf g p w = (x, p', w') \<Longrightarrow> \<exists>s. p' = p\<lparr>pl_seen := s\<rparr>"
  by (auto simp: dispatch_inner_def Let_def split: sum.splits prod.splits) (metis plane.surjective plane.update_convs(6))

lemma confirmation_blocked_plane:
  "confirmation_blocked ops env c reason p w = (x, p', w') \<Longrightarrow> \<exists>s. p' = p\<lparr>pl_seen := s\<rparr>"
  by (auto simp: confirmation_blocked_def Let_def split: sum.splits prod.splits bool.splits)

lemma plane_wf_seen [simp]: "plane_wf (p\<lparr>pl_seen := s\<rparr>) = plane_wf p"
  by (simp add: plane_wf_def)

lemma catalog_use_wf:
  assumes "catalog_use ops body p w = (x, p', w')" and "plane_wf p"
    and "\<And>q y q' u'. body q w = (y, q', u') \<Longrightarrow> pl_catalog_users q = 1 \<Longrightarrow> plane_wf (q\<lparr>pl_catalog_users := 0\<rparr>) \<Longrightarrow>
      plane_wf (q'\<lparr>pl_catalog_users := 0\<rparr>) \<and> pl_catalog_users q' = 1"
  shows "plane_wf p'"
proof (cases "jo_enter ops (wd_journal w)")
  case None
  let ?q = "p\<lparr>pl_catalog_users := pl_catalog_users p + 1\<rparr>"
  obtain y q' u' where b: "body ?q w = (y, q', u')" by (metis prod_cases3)
  have users: "pl_catalog_users p = 0" using assms(2) by (simp add: plane_wf_def)
  then have "p\<lparr>pl_catalog_users := 0\<rparr> = p" by simp
  with assms(3)[OF b] users assms(2) have "plane_wf (q'\<lparr>pl_catalog_users := 0\<rparr>)" "pl_catalog_users q' = 1" by simp_all
  with assms(1) b None show ?thesis by (simp add: catalog_use_def)
qed (use assms in \<open>simp add: catalog_use_def\<close>)

lemma set_update_subset: "set (AList.update k v d) \<subseteq> insert (k, v) (set d)"
  by (induction d) auto

lemma length_update_le: "length (AList.update k v d) \<le> Suc (length d)"
  by (induction d) auto

lemma plane_wf_filter: "plane_wf p \<Longrightarrow> plane_wf (p\<lparr>pl_confirmations := filter P (pl_confirmations p)\<rparr>)"
  using le_trans[OF length_filter_le[of P "pl_confirmations p"], of 128] by (auto simp: plane_wf_def)

lemma plane_wf_delete:
  "plane_wf p \<Longrightarrow> plane_wf (p\<lparr>pl_confirmations := AList.delete t (pl_confirmations p)\<rparr>)"
  using plane_wf_filter[of p "\<lambda>(k, _). t \<noteq> k"] by (simp add: AList.delete_eq)

lemma plane_wf_preview:
  assumes "plane_wf p" and "command_wf c" and "key \<noteq> []" and "length (pl_confirmations p) < 128"
  shows "plane_wf (p\<lparr>pl_confirmations := AList.update t
    (\<lparr>cf_token = t, cf_command = c, cf_expires_at_ms = e\<rparr>, key) (pl_confirmations p)\<rparr>)"
proof -
  let ?v = "(\<lparr>cf_token = t, cf_command = c, cf_expires_at_ms = e\<rparr>, key)"
  have "length (AList.update t ?v (pl_confirmations p)) \<le> 128"
    using length_update_le[of t ?v "pl_confirmations p"] assms(4) by linarith
  moreover have "\<forall>x \<in> set (AList.update t ?v (pl_confirmations p)). x = (t, ?v) \<or> x \<in> set (pl_confirmations p)"
    using set_update_subset[of t ?v "pl_confirmations p"] by auto
  ultimately show ?thesis
    using assms(1-3) by (fastforce simp: plane_wf_def)
qed

lemma plane_users_swap:
  "p\<lparr>pl_confirmations := c, pl_catalog_users := n\<rparr> = p\<lparr>pl_catalog_users := n, pl_confirmations := c\<rparr>"
  "p\<lparr>pl_seen := s, pl_catalog_users := n\<rparr> = p\<lparr>pl_catalog_users := n, pl_seen := s\<rparr>"
  by simp_all

lemma preview_inner_wf:
  assumes "preview_inner ops env c key q w = (y, q', u')" and "command_wf c" and "key \<noteq> []"
    and "pl_catalog_users q = 1" and "plane_wf (q\<lparr>pl_catalog_users := 0\<rparr>)"
  shows "plane_wf (q'\<lparr>pl_catalog_users := 0\<rparr>) \<and> pl_catalog_users q' = 1"
proof -
  let ?q = "q\<lparr>pl_catalog_users := 0\<rparr>"
  define f :: "string \<times> confirmation \<times> string \<Rightarrow> bool" where
    "f = (\<lambda>(t, preview, k). cf_expires_at_ms preview > en_clock env (wd_clocks w))"
  have kept: "plane_wf (?q\<lparr>pl_confirmations := filter f (pl_confirmations q)\<rparr>)"
    using plane_wf_filter[OF assms(5), of f] by simp
  have "q' = q \<or> q' = q\<lparr>pl_confirmations := filter f (pl_confirmations q)\<rparr>
    \<or> length (filter f (pl_confirmations q)) < 128 \<and>
      (\<exists>t e. q' = q\<lparr>pl_confirmations := AList.update t (\<lparr>cf_token = t, cf_command = c, cf_expires_at_ms = e\<rparr>, key)
        (filter f (pl_confirmations q))\<rparr>)"
    using assms(1)
    by (auto simp: preview_inner_def tick_def Let_def f_def split: sum.splits option.splits if_splits prod.splits)
  then show ?thesis
    using assms(4,5) kept plane_wf_preview[OF kept assms(2,3)] by (auto simp: plane_users_swap)
qed

lemma confirm_inner_plane:
  assumes "confirm_inner ops env token channel key approved g q w = (y, q', u')"
  shows "q' = q \<or> (\<exists>t s. token = VStr t \<and> q' = q\<lparr>pl_confirmations := AList.delete t (pl_confirmations q), pl_seen := s\<rparr>)"
  using assms
  by (auto simp: confirm_inner_def Let_def case_prod_beta dest!: dispatch_inner_plane confirmation_blocked_plane
      split: pyv.splits option.splits if_splits)

lemma confirm_inner_wf:
  assumes "confirm_inner ops env token channel key approved g q w = (y, q', u')"
    and "pl_catalog_users q = 1" and "plane_wf (q\<lparr>pl_catalog_users := 0\<rparr>)"
  shows "plane_wf (q'\<lparr>pl_catalog_users := 0\<rparr>) \<and> pl_catalog_users q' = 1"
  using confirm_inner_plane[OF assms(1)] assms(2,3) plane_wf_delete[OF assms(3)]
  by (auto simp: plane_users_swap)

lemma dispatch_wf: "dispatch ops env r can g p w = (x, p', w') \<Longrightarrow> plane_wf p \<Longrightarrow> plane_wf p'"
  by (auto simp: dispatch_def plane_users_swap dest!: dispatch_inner_plane elim!: catalog_use_wf
      split: sum.splits pyv.splits)

lemma confirm_wf:
  "confirm ops env token channel key approved g p w = (x, p', w') \<Longrightarrow> plane_wf p \<Longrightarrow> plane_wf p'"
  unfolding confirm_def by (erule catalog_use_wf) (auto dest: confirm_inner_wf)

lemma request_wf:
  "request_confirmation ops env r key p w = (x, p', w') \<Longrightarrow> plane_wf p \<Longrightarrow> plane_wf p'"
  by (auto simp: request_confirmation_def dest!: snapshot_command_wf elim!: catalog_use_wf
      dest: preview_inner_wf split: sum.splits pyv.splits if_splits)

lemma sys_step_wf:
  assumes "sys_step ops lg iv s s'" and wf: "\<forall>p \<in> set (sy_planes s). plane_wf p"
  shows "\<forall>p \<in> set (sy_planes s'). plane_wf p"
proof -
  have upd: "\<forall>p \<in> set ((sy_planes s)[i := q]). plane_wf p" if "plane_wf q" for i q
    using that wf set_update_subset_insert[of "sy_planes s" i q] by blast
  have nth: "plane_wf (sy_planes s ! i)" if "i < length (sy_planes s)" for i
    using that wf by simp
  from assms(1) show ?thesis
    by cases (use wf upd nth in \<open>auto dest: plane_init_wf dispatch_wf confirm_wf request_wf replace_catalog_wf
        in_set_takeD in_set_dropD\<close>)
qed

lemma sys_reach_wf: "sys_reach ops lg iv s \<Longrightarrow> p \<in> set (sy_planes s) \<Longrightarrow> plane_wf p"
proof (induction arbitrary: p rule: sys_reach.induct)
  case (sys_next s s')
  then show ?case using sys_step_wf by blast
qed simp

section \<open>The decision never raises\<close>

lemma command_context_fields:
  assumes "command_wf c"
  shows "(\<exists>v. map_of (cmd_context c) ''profile_id'' = Some v) \<and> (\<exists>v. map_of (cmd_context c) ''source'' = Some v)"
proof -
  have "validate schema_command (thaw_rec (RCommand c)) = None"
    using assms by (auto simp: command_wf_def snapshot_eq_Inr decode_eq_Inr record_schemas_def)
  from closed_object_field[OF this[unfolded schema_command_def thaw_rec.simps], of "''context''"]
  have "validate schema_context (VDict (thaw_bag (cmd_context c))) = None" by simp
  note field = closed_object_field[OF this[unfolded schema_context_def]]
  have "map_of (thaw_bag d) k = map_option thaw (map_of d k)" for d k
    by (induction d) (auto simp: thaw_bag_def)
  with field[of "''profile_id''"] field[of "''source''"] show ?thesis by auto
qed

lemma capability_argument_kinds:
  assumes "capability_wf cap" and "(name, kind) \<in> set (cap_arguments cap)"
  shows "\<exists>k. kind = VStr k \<and> k \<in> {''string'', ''integer'', ''number'', ''boolean''}"
proof -
  have "validate schema_capability (thaw_rec (RCapability cap)) = None"
    using assms(1) by (auto simp: capability_wf_def snapshot_eq_Inr decode_eq_Inr record_schemas_def)
  from closed_object_field[OF this[unfolded schema_capability_def thaw_rec.simps], of "''arguments''"]
  have "\<forall>(n, v) \<in> set (thaw_bag (cap_arguments cap)).
      validate (enum_string [''string'', ''integer'', ''number'', ''boolean'']) v = None"
    by (auto simp: validate.simps rule_for_def)
  with assms(2) have "\<exists>s. thaw kind = VStr s \<and> s \<in> {''string'', ''integer'', ''number'', ''boolean''}"
    by (fastforce simp: thaw_bag_def)
  then show ?thesis by (cases kind) auto
qed

lemma arguments_denial_total:
  assumes "\<forall>(name, kind) \<in> set kinds. (\<exists>v. map_of args name = Some v)
    \<and> (\<exists>k. kind = VStr k \<and> k \<in> {''string'', ''integer'', ''number'', ''boolean''})"
  shows "\<exists>d. arguments_denial args kinds = Inr d"
  using assms by (induction args kinds rule: arguments_denial.induct) (auto split: if_splits)

lemma denial_total:
  assumes "plane_wf p" and "command_wf c"
  shows "\<exists>d. denial p c confirmed = Inr d"
proof -
  have args: "\<exists>d. arguments_denial (cmd_arguments c) (cap_arguments cap) = Inr d"
    if "map_of (pl_catalog p) i = Some cap" "set (keys (cmd_arguments c)) = set (keys (cap_arguments cap))" for i cap
  proof (rule arguments_denial_total)
    have cap: "capability_wf cap"
      using assms(1) map_of_SomeD[OF that(1)] by (auto simp: plane_wf_def catalog_wf_def)
    have "\<exists>v. map_of (cmd_arguments c) name = Some v" if n: "name \<in> set (keys (cap_arguments cap))" for name
      using n \<open>set (keys (cmd_arguments c)) = _\<close> by (auto simp: set_keys)
    moreover have "name \<in> set (keys (cap_arguments cap))" if "(name, kind) \<in> set (cap_arguments cap)" for name kind
      using that by (force simp: keys_def)
    ultimately show "\<forall>(name, kind) \<in> set (cap_arguments cap). (\<exists>v. map_of (cmd_arguments c) name = Some v)
        \<and> (\<exists>k. kind = VStr k \<and> k \<in> {''string'', ''integer'', ''number'', ''boolean''})"
      using capability_argument_kinds[OF cap] by blast
  qed
  obtain pid src where "map_of (cmd_context c) ''profile_id'' = Some pid" "map_of (cmd_context c) ''source'' = Some src"
    using command_context_fields[OF assms(2)] by blast
  then show ?thesis
    using args[of "cmd_capability_id c"]
    by (cases "map_of (pl_catalog p) (cmd_capability_id c)") (simp_all add: denial_def Let_def)
qed

section \<open>Properties\<close>

text \<open>C9: The decision of \<open>_denial\<close>: it denies nothing exactly when the profile is enabled and bound to
  the policy and to the command, voice is allowed for a voice command, the policy is enabled and
  allows the capability, and the catalog has the capability enabled, in the command's version, not
  blocked, confirmed where a confirmation is required, and with arguments of the declared names and
  types.\<close>

theorem denial_decides: "denial p c confirmed = Inr None \<longleftrightarrow> authorized p c confirmed"
  by (rule denial_None_authorized)

text \<open>C8: Every control plane of a reachable system is well formed: its catalog has at most 256
  snapshots with distinct identifiers, all in the plane's catalog version, no catalog use is open
  between operations, and at most 128 previews are pending, each under its own token, with a
  context key, for a validated command.\<close>

theorem planes_well_formed:
  assumes "sys_reach ops lg iv s" and "p \<in> set (sy_planes s)"
  shows "plane_wf p"
  by (rule sys_reach_wf[OF assms])

theorem planes_well_formed_witness: "plane_wf (fst (snd sample_dispatch))"
  using planes_well_formed[OF sample_reach] by simp

text \<open>C11: The decision is total: for a plane of a reachable system and a command that passed
  \<open>_snapshot\<close>, \<open>_denial\<close> answers a reason or none; the dictionary lookups in it never fail.\<close>

theorem denial_never_raises:
  assumes "sys_reach ops lg iv s" and "p \<in> set (sy_planes s)" and "snapshot_command r = Inr c"
  shows "\<exists>d. denial p c confirmed = Inr d"
  using denial_total[OF sys_reach_wf[OF assms(1,2)] snapshot_command_wf[OF assms(3)]] .

theorem denial_never_raises_witness:
  "\<exists>d. denial (fst (snd sample_dispatch)) (sample_command ''open'') False = Inr d"
proof -
  have "snapshot_command (RCommand (sample_command ''open'')) = Inr (sample_command ''open'')" by code_simp
  from denial_never_raises[OF sample_reach _ this] show ?thesis by simp
qed

text \<open>\<open>replace_catalog\<close> is a compare-and-swap: it succeeds only from the expected version to a
  larger one, then the whole catalog is in the new version and every pending preview is gone; when
  it fails, the plane is unchanged.\<close>

theorem replace_catalog_swaps:
  assumes "replace_catalog ops catalog expected new p w = (x, p')"
  shows "case x of
      Inl e \<Rightarrow> p' = p
    | Inr v \<Rightarrow> expected = VInt (pl_catalog_version p) \<and> new = VInt v \<and> pl_catalog_version p < v
        \<and> pl_catalog_users p = 0 \<and> pl_catalog_version p' = v \<and> pl_confirmations p' = []
        \<and> catalog_wf (pl_catalog p') v \<and> pl_seen p' = pl_seen p \<and> pl_policy p' = pl_policy p"
proof (cases x)
  case (Inl e)
  then show ?thesis
    using assms by (auto simp: replace_catalog_def split: option.splits sum.splits if_splits prod.splits)
next
  case (Inr v)
  then obtain entries revision where c: "catalog_snapshot catalog = Inr (entries, revision)"
      and r: "revision = None \<or> revision = Some v" and v: "pl_catalog_version p < v" "pl_catalog_users p = 0"
      and args: "version_arg expected = Some (pl_catalog_version p)" "version_arg new = Some v"
      and p': "p' = p\<lparr>pl_catalog := entries, pl_catalog_version := v, pl_confirmations := []\<rparr>"
    using assms by (auto simp: replace_catalog_def split: option.splits sum.splits if_splits prod.splits)
  have "catalog_wf entries v"
    using catalog_snapshot_wf[OF c] r by (auto simp: catalog_wf_def)
  with v args p' Inr show ?thesis by (auto simp: version_arg_def split: pyv.splits if_splits)
qed

theorem replace_catalog_swaps_witness:
  "\<exists>p'. replace_catalog sqlite_ops [] (VInt 1) (VInt 2) sample_plane (sample_world (\<lambda>_. Works)) = (Inr 2, p')
    \<and> pl_catalog_version p' = 2"
proof -
  have "fst (replace_catalog sqlite_ops [] (VInt 1) (VInt 2) sample_plane (sample_world (\<lambda>_. Works))) = Inr 2"
    by code_simp
  then obtain p' where "replace_catalog sqlite_ops [] (VInt 1) (VInt 2) sample_plane (sample_world (\<lambda>_. Works)) = (Inr 2, p')"
    by (metis prod.collapse)
  with replace_catalog_swaps[OF this] show ?thesis by simp
qed

text \<open>A preview is used once: after \<open>confirm\<close> with a token, whatever came of it, the same token
  gets the error of an unknown confirmation, and nothing is recorded or executed.\<close>

theorem confirm_once:
  assumes "confirm ops env (VStr t) channel key approved g p w = (x, p', w')"
    and "jo_enter ops (wd_journal w) = None" and "jo_enter ops (wd_journal u) = None"
  shows "\<exists>p''. confirm ops env' (VStr t) channel' key' approved' g' p' u
    = (Inl (EConfirmation ''unknown or already consumed confirmation''), p'', u)"
proof -
  let ?q = "p\<lparr>pl_catalog_users := pl_catalog_users p + 1\<rparr>"
  obtain q' where q': "confirm_inner ops env (VStr t) channel key approved g ?q w = (x, q', w')"
      "p' = q'\<lparr>pl_catalog_users := pl_catalog_users q' - 1\<rparr>"
    using assms(1,2) by (auto simp: confirm_def catalog_use_def split: prod.splits)
  have "map_of (pl_confirmations q') t = None"
  proof (cases "map_of (pl_confirmations p) t")
    case None
    with q'(1) show ?thesis by (auto simp: confirm_inner_def)
  next
    case (Some v)
    then have "pl_confirmations q' = AList.delete t (pl_confirmations p)"
      using q'(1) by (auto simp: confirm_inner_def Let_def case_prod_beta
          dest!: dispatch_inner_plane confirmation_blocked_plane split: option.splits if_splits)
    then show ?thesis by simp
  qed
  then have "map_of (pl_confirmations p') t = None" using q'(2) by simp
  with assms(3) show ?thesis by (simp add: confirm_def catalog_use_def confirm_inner_def)
qed

theorem confirm_once_witness:
  "\<exists>p''. confirm sqlite_ops sample_env (VStr ''t'') ''panel'' ''k'' (VBool True) None
    (fst (snd sample_confirm)) (sample_world (\<lambda>_. Works))
    = (Inl (EConfirmation ''unknown or already consumed confirmation''), p'', sample_world (\<lambda>_. Works))"
proof -
  have "jo_enter sqlite_ops (wd_journal (snd (snd sample_preview))) = None" by code_simp
  moreover have "jo_enter sqlite_ops (wd_journal (sample_world (\<lambda>_. Works))) = None" by code_simp
  moreover have "confirm sqlite_ops sample_env (VStr ''t'') ''panel'' ''k'' (VBool True) None (fst (snd sample_preview))
      (snd (snd sample_preview)) = (fst sample_confirm, fst (snd sample_confirm), snd (snd sample_confirm))"
    by (simp add: sample_confirm_def)
  ultimately show ?thesis using confirm_once by blast
qed

end
