(* ===== verification/Evaluation.thy ===== *)
theory Evaluation
  imports Py_Prelude
begin

text \<open>
  The promotion gates of \<open>src/runtime/evaluation.py\<close>: \<open>ReplayRun\<close>, with the checks of its
  constructor, and \<open>promotion\<close>, which compares a candidate run with the active one. A \<open>ValueError\<close> is
  \<open>Inl\<close> of its message. A frozen set of labels is given as the tuple of its elements.
\<close>

record replay_run =
  rr_version :: string
  rr_source :: string
  rr_bundle_id :: string
  rr_pinned :: bool
  rr_deterministic :: bool
  rr_independently_evaluated :: bool
  rr_outcomes :: "(string \<times> string) list"
  rr_evaluator_consensus :: bool

fun outcome_items :: "(string \<times> pyv) list \<Rightarrow> (string \<times> string) list option" where
  "outcome_items [] = Some []"
| "outcome_items ((k, v) # kvs) =
    (case v of
       VStr s \<Rightarrow> (if k \<noteq> [] \<and> s \<in> {''pass'', ''fail''} then map_option ((#) (k, s)) (outcome_items kvs) else None)
     | _ \<Rightarrow> None)"

definition replay_run_init ::
  "pyv \<Rightarrow> pyv \<Rightarrow> pyv \<Rightarrow> pyv \<Rightarrow> pyv \<Rightarrow> pyv \<Rightarrow> pyv \<Rightarrow> pyv \<Rightarrow> string + replay_run" where
  "replay_run_init version source bundle_id pinned deterministic independently outcomes consensus =
    (case source of
       VStr src \<Rightarrow>
         (if src \<notin> {''synthetic'', ''recorded'', ''live''} then Inl ''unsupported replay source''
          else case (pinned, deterministic, independently, consensus) of
            (VBool p, VBool d, VBool i, VBool c) \<Rightarrow>
              (case version of
                 VStr v \<Rightarrow>
                   (if v = [] then Inl ''version must be nonempty text''
                    else case bundle_id of
                      VStr b \<Rightarrow>
                        (if b = [] then Inl ''bundle ID must be nonempty text''
                         else case outcomes of
                           VDict kvs \<Rightarrow>
                             (case (if kvs = [] then None else outcome_items kvs) of
                                Some cases \<Rightarrow> Inr \<lparr>rr_version = v, rr_source = src, rr_bundle_id = b, rr_pinned = p,
                                  rr_deterministic = d, rr_independently_evaluated = i, rr_outcomes = cases,
                                  rr_evaluator_consensus = c\<rparr>
                              | None \<Rightarrow> Inl ''outcomes must map case IDs to pass or fail'')
                         | _ \<Rightarrow> Inl ''outcomes must map case IDs to pass or fail'')
                    | _ \<Rightarrow> Inl ''bundle ID must be nonempty text'')
               | _ \<Rightarrow> Inl ''version must be nonempty text'')
          | _ \<Rightarrow> Inl ''replay evidence flags must be booleans'')
     | _ \<Rightarrow> Inl ''unsupported replay source'')"

definition regressions :: "replay_run \<Rightarrow> replay_run \<Rightarrow> string list" where
  "regressions active candidate =
    map fst (filter (\<lambda>(case_id, r). r = ''pass'' \<and> map_of (rr_outcomes candidate) case_id \<noteq> Some ''pass'') (rr_outcomes active))"

definition hold_reasons :: "replay_run \<Rightarrow> replay_run \<Rightarrow> string list \<Rightarrow> bool \<Rightarrow> string list" where
  "hold_reasons active candidate labels rollback_ready =
    map snd (filter fst
     [(\<not> rr_pinned active, ''baseline-pinned-replay-required''),
      (\<not> rr_deterministic active, ''baseline-deterministic-replay-required''),
      (\<not> rr_independently_evaluated active, ''baseline-independent-evaluation-required''),
      (\<not> rr_evaluator_consensus active, ''baseline-independent-evaluator-disagreement''),
      (\<not> rr_pinned candidate, ''pinned-replay-required''),
      (\<not> rr_deterministic candidate, ''deterministic-replay-required''),
      (\<not> rr_independently_evaluated candidate, ''independent-evaluation-required''),
      (\<not> rr_evaluator_consensus candidate, ''independent-evaluator-disagreement''),
      (rr_bundle_id candidate \<noteq> rr_bundle_id active, ''replay-bundle-mismatch''),
      (rr_source candidate \<noteq> rr_source active, ''replay-source-mismatch''),
      (set (keys (rr_outcomes candidate)) \<noteq> set (keys (rr_outcomes active)), ''replay-coverage-incomplete''),
      (regressions active candidate \<noteq> [], ''replay-regression''),
      (''fail'' \<in> set (map snd (rr_outcomes candidate)), ''candidate-failure''),
      (''approved'' \<notin> set labels, ''manual-approval-required''),
      (\<not> rollback_ready, ''rollback-readiness-required''),
      (''rejected'' \<in> set labels, ''manual-rejection'')])"

fun label_items :: "pyv list \<Rightarrow> string list option" where
  "label_items [] = Some []"
| "label_items (v # vs) =
    (case v of
       VStr s \<Rightarrow> (if s \<in> {''approved'', ''rejected''} then map_option ((#) s) (label_items vs) else None)
     | _ \<Rightarrow> None)"

record promotion_decision =
  pd_decision :: string
  pd_regressions :: "string list"
  pd_reasons :: "string list"

definition promotion :: "replay_run \<Rightarrow> replay_run \<Rightarrow> pyv \<Rightarrow> pyv \<Rightarrow> string + promotion_decision" where
  "promotion active candidate labels rollback_ready =
    (case (case labels of VTuple vs \<Rightarrow> label_items vs | _ \<Rightarrow> None) of
       None \<Rightarrow> Inl ''labels must be an exact approved/rejected collection''
     | Some ls \<Rightarrow>
         (case rollback_ready of
            VBool ready \<Rightarrow>
              (let reasons = hold_reasons active candidate ls ready
               in Inr \<lparr>pd_decision = (if reasons = [] then ''promote'' else ''hold''),
                       pd_regressions = regressions active candidate, pd_reasons = reasons\<rparr>)
          | _ \<Rightarrow> Inl ''rollback readiness must be boolean''))"

section \<open>What promotion means\<close>

lemma outcome_items_values: "outcome_items kvs = Some cs \<Longrightarrow> \<forall>(k, s) \<in> set cs. s = ''pass'' \<or> s = ''fail''"
proof (induction kvs arbitrary: cs)
  case (Cons x kvs)
  then show ?case by (cases x; cases "snd x") (auto split: if_splits)
qed simp

lemma replay_run_values:
  "replay_run_init v s b p d i oc c = Inr r \<Longrightarrow> \<forall>x \<in> set (map snd (rr_outcomes r)). x = ''pass'' \<or> x = ''fail''"
  by (auto simp: replay_run_init_def dest!: outcome_items_values split: pyv.splits if_splits option.splits)

text \<open>A candidate is promoted only on complete evidence: when \<open>promotion\<close> decides to promote, both
  runs are pinned, deterministic and independently evaluated with consensus, over the same bundle
  and source, an approval and no rejection is among the labels, a rollback is ready, and the
  candidate passes every case of the active run and fails none.\<close>

theorem promotion_requires_evidence:
  assumes "replay_run_init v s b p d i oc con = Inr candidate"
    and "promotion active candidate labels ready = Inr decision"
    and "pd_decision decision = ''promote''"
  shows "(\<forall>run \<in> {active, candidate}. rr_pinned run \<and> rr_deterministic run \<and> rr_independently_evaluated run
        \<and> rr_evaluator_consensus run)
    \<and> rr_bundle_id candidate = rr_bundle_id active \<and> rr_source candidate = rr_source active
    \<and> ready = VBool True \<and> (\<exists>vs. labels = VTuple vs \<and> VStr ''approved'' \<in> set vs \<and> VStr ''rejected'' \<notin> set vs)
    \<and> (\<forall>k \<in> set (keys (rr_outcomes active)). map_of (rr_outcomes candidate) k = Some ''pass'')
    \<and> pd_regressions decision = []"
proof -
  have items: "vs = map VStr ls" if "label_items vs = Some ls" for vs ls
    using that
  proof (induction vs arbitrary: ls)
    case (Cons x vs)
    then show ?case by (cases x) (auto split: if_splits)
  qed simp
  obtain vs ls r where l: "labels = VTuple vs" "label_items vs = Some ls" "ready = VBool r"
      and dec: "decision = \<lparr>pd_decision = (if hold_reasons active candidate ls r = [] then ''promote'' else ''hold''),
        pd_regressions = regressions active candidate, pd_reasons = hold_reasons active candidate ls r\<rparr>"
    using assms(2) by (auto simp: promotion_def Let_def split: pyv.splits option.splits)
  have none: "hold_reasons active candidate ls r = []" using assms(3) dec by (simp split: if_splits)
  have pass: "map_of (rr_outcomes candidate) k = Some ''pass''" if "k \<in> set (keys (rr_outcomes active))" for k
  proof -
    have "k \<in> set (keys (rr_outcomes candidate))" using that none by (auto simp: hold_reasons_def split: if_splits)
    then obtain x where x: "map_of (rr_outcomes candidate) k = Some x" by (auto simp: set_keys)
    then have "x \<in> set (map snd (rr_outcomes candidate))" by (force dest: map_of_SomeD)
    moreover have "''fail'' \<notin> set (map snd (rr_outcomes candidate))"
      using none by (auto simp: hold_reasons_def split: if_splits)
    ultimately show ?thesis using replay_run_values[OF assms(1)] x by metis
  qed
  have "VStr ''approved'' \<in> set vs \<and> VStr ''rejected'' \<notin> set vs"
    using none items[OF l(2)] by (auto simp: hold_reasons_def split: if_splits)
  moreover have "regressions active candidate = []" "r"
    using none by (simp_all add: hold_reasons_def split: if_splits)
  ultimately show ?thesis
    using none l dec pass by (auto simp: hold_reasons_def split: if_splits)
qed

definition sample_run :: "string \<Rightarrow> replay_run" where
  "sample_run v = \<lparr>rr_version = v, rr_source = ''recorded'', rr_bundle_id = ''b'', rr_pinned = True,
     rr_deterministic = True, rr_independently_evaluated = True, rr_outcomes = [(''a'', ''pass'')],
     rr_evaluator_consensus = True\<rparr>"

theorem promotion_requires_evidence_witness:
  "\<exists>decision. promotion (sample_run ''1'') (sample_run ''2'') (VTuple [VStr ''approved'']) (VBool True) = Inr decision
    \<and> pd_decision decision = ''promote'' \<and> pd_regressions decision = []"
proof -
  have run: "replay_run_init (VStr ''2'') (VStr ''recorded'') (VStr ''b'') (VBool True) (VBool True) (VBool True)
      (VDict [(''a'', VStr ''pass'')]) (VBool True) = Inr (sample_run ''2'')"
    by code_simp
  let ?d = "\<lparr>pd_decision = ''promote'', pd_regressions = [], pd_reasons = []\<rparr>"
  have "promotion (sample_run ''1'') (sample_run ''2'') (VTuple [VStr ''approved'']) (VBool True) = Inr ?d"
    by code_simp
  with promotion_requires_evidence[OF run this] show ?thesis by auto
qed

end
