(* ===== verification/Projections.thy ===== *)
theory Projections
  imports Journal Evaluation
begin

text \<open>
  The read-only views of the journal: \<open>src/runtime/projections.py\<close> replays it into the latest state,
  \<open>src/runtime/views.py\<close> renders that state without private diagnostics, and
  \<open>src/runtime/observability_adapter.py\<close> assembles the sections of an observation. A mapping of fixed
  keys is a record; what a view returns is a JSON value. \<open>_detach\<close> copies mappings and sequences to
  dicts and lists, which is \<^const>\<open>thaw\<close>.
\<close>

section \<open>Replay into the latest state\<close>

record projection =
  pj_cursor :: nat
  pj_action :: "(string \<times> string) option"
  pj_interaction :: "string option"
  pj_lane :: pyv
  pj_provider :: "(pyv \<times> pyv \<times> string) option"
  pj_active_mode :: "string option"
  pj_muted :: "bool option"
  pj_health :: "string option"
  pj_degraded :: "pyv list"
  pj_pending :: bool
  pj_voice :: "(string \<times> string \<times> string \<times> string) list"

definition projection_start :: projection where
  "projection_start = \<lparr>pj_cursor = 0, pj_action = None, pj_interaction = None, pj_lane = VNone,
     pj_provider = None, pj_active_mode = None, pj_muted = None, pj_health = None, pj_degraded = [],
     pj_pending = False, pj_voice = []\<rparr>"

datatype view_error = MissingKey string | ReadFailed journal_error

text \<open>The loop body of \<open>rebuild\<close>, one entry at a time; a missing context key is a \<open>KeyError\<close>.\<close>

definition project_event :: "projection \<Rightarrow> event \<Rightarrow> view_error + projection" where
  "project_event p e =
    (case map_of (evt_context e) ''lane_id'' of
       None \<Rightarrow> Inl (MissingKey ''lane_id'')
     | Some lane \<Rightarrow>
     case map_of (evt_context e) ''provider_id'' of
       None \<Rightarrow> Inl (MissingKey ''provider_id'')
     | Some provider_id \<Rightarrow>
     case (if provider_id = VNone then Inr (pj_provider p)
           else case map_of (evt_context e) ''model_version'' of
             None \<Rightarrow> Inl (MissingKey ''model_version'')
           | Some m \<Rightarrow> Inr (Some (provider_id, m, evt_status e))) of
       Inl x \<Rightarrow> Inl x
     | Inr provider \<Rightarrow>
     Inr (p\<lparr>pj_action := Some (evt_status e, evt_event_type e), pj_pending := (evt_status e = ''pending''),
       pj_lane := lane, pj_provider := provider,
       pj_health := (case map_of (evt_details e) ''health'' of Some (VStr h) \<Rightarrow> Some h | _ \<Rightarrow> pj_health p),
       pj_degraded := (case map_of (evt_details e) ''degraded_capabilities'' of
           Some (VList vs) \<Rightarrow> vs | Some (VTuple vs) \<Rightarrow> vs | _ \<Rightarrow> pj_degraded p)\<rparr>))"

definition project_interaction :: "projection \<Rightarrow> interaction \<Rightarrow> projection" where
  "project_interaction p i = p\<lparr>pj_interaction := Some (ia_phase i),
     pj_active_mode := (case map_of (ia_details i) ''mode'' of Some (VStr m) \<Rightarrow> Some m | _ \<Rightarrow> pj_active_mode p),
     pj_muted := (case map_of (ia_details i) ''muted'' of Some (VBool b) \<Rightarrow> Some b | _ \<Rightarrow> pj_muted p)\<rparr>"

definition project_step :: "projection \<Rightarrow> nat \<times> rec \<Rightarrow> view_error + projection" where
  "project_step p x =
    (let p = p\<lparr>pj_cursor := fst x\<rparr> in
     case snd x of
       REvent e \<Rightarrow> project_event p e
     | RInteraction i \<Rightarrow> Inr (project_interaction p i)
     | RVoiceObservation v \<Rightarrow>
         Inr (p\<lparr>pj_voice := AList.update (vo_session_id v) (vo_phase v, vo_status v, vo_code v) (pj_voice p)\<rparr>)
     | _ \<Rightarrow> Inr p)"

definition rebuild :: "'j journal_ops \<Rightarrow> 'j \<Rightarrow> view_error + projection" where
  "rebuild ops j =
    (case fst (jo_read ops j (VInt 0)) of
       Inl e \<Rightarrow> Inl (ReadFailed e)
     | Inr es \<Rightarrow> feed project_step projection_start es)"

definition is_stale :: "'j journal_ops \<Rightarrow> projection \<Rightarrow> 'j \<Rightarrow> view_error + bool" where
  "is_stale ops p j =
    (case fst (jo_read ops j (VInt (int (pj_cursor p)))) of
       Inl e \<Rightarrow> Inl (ReadFailed e)
     | Inr es \<Rightarrow> Inr (es \<noteq> []))"

section \<open>Views\<close>

definition opt_str :: "string option \<Rightarrow> pyv" where
  "opt_str x = (case x of None \<Rightarrow> VNone | Some s \<Rightarrow> VStr s)"

definition voice_value :: "(string \<times> string \<times> string \<times> string) list \<Rightarrow> pyv" where
  "voice_value vs = VProxy (map (\<lambda>(s, p, t, c).
     (s, VProxy [(''phase'', VStr p), (''status'', VStr t), (''code'', VStr c)])) vs)"

definition compact :: "projection \<Rightarrow> pyv" where
  "compact p = VDict
    [(''cursor'', VInt (int (pj_cursor p))),
     (''lane'', pj_lane p),
     (''action_status'', case pj_action p of None \<Rightarrow> VNone | Some (s, t) \<Rightarrow> VStr s),
     (''interaction_phase'', opt_str (pj_interaction p)),
     (''provider_status'', case pj_provider p of None \<Rightarrow> VNone | Some (i, m, s) \<Rightarrow> VStr s),
     (''active_mode'', opt_str (pj_active_mode p)),
     (''muted'', case pj_muted p of None \<Rightarrow> VNone | Some b \<Rightarrow> VBool b),
     (''health'', opt_str (pj_health p)),
     (''degraded_capabilities'', VList (pj_degraded p)),
     (''pending'', VBool (pj_pending p)),
     (''voice_lifecycle'', thaw (voice_value (pj_voice p)))]"

definition shown :: "bool \<Rightarrow> bag \<Rightarrow> bool" where
  "shown include_sensitive diagnostic \<longleftrightarrow>
     map_of diagnostic ''sensitivity'' = Some (VStr ''public'')
     \<or> (map_of diagnostic ''sensitivity'' = Some (VStr ''private'') \<and> include_sensitive)"

fun visible_diagnostics :: "bag list \<Rightarrow> bool \<Rightarrow> view_error + pyv list" where
  "visible_diagnostics [] include_sensitive = Inr []"
| "visible_diagnostics (d # ds) include_sensitive =
    (if \<not> shown include_sensitive d then visible_diagnostics ds include_sensitive
     else case map_of d ''category'' of
       None \<Rightarrow> Inl (MissingKey ''category'')
     | Some category \<Rightarrow>
     case map_of d ''value'' of
       None \<Rightarrow> Inl (MissingKey ''value'')
     | Some v \<Rightarrow> bind_res (visible_diagnostics ds include_sensitive)
         (\<lambda>rest. Inr (VDict [(''category'', category), (''value'', thaw v)] # rest)))"

definition detailed :: "projection \<Rightarrow> bag list \<Rightarrow> bool \<Rightarrow> view_error + pyv" where
  "detailed p diagnostics include_sensitive =
    bind_res (visible_diagnostics diagnostics include_sensitive)
      (\<lambda>visible. Inr (VDict [(''state'', compact p), (''diagnostics'', VList visible)]))"

section \<open>The observability adapter\<close>

text \<open>The evidence a source may hold; \<open>EvOther\<close> is an object of another class.\<close>

datatype 'j evidence =
    EvProjection projection 'j
  | EvDetail projection 'j "bag list"
  | EvReview replay_run replay_run pyv pyv
  | EvOther

datatype 'j obs_source = Available "'j evidence" | Unreadable | Contradictory | OtherSource

definition unreadable :: pyv where
  "unreadable = VDict [(''source_state'', VStr ''unreadable''), (''freshness'', VStr ''unknown'')]"

definition failure_section :: "'j obs_source \<Rightarrow> pyv option" where
  "failure_section source = (case source of
     Unreadable \<Rightarrow> Some unreadable
   | Contradictory \<Rightarrow> Some (VDict [(''source_state'', VStr ''contradictory''), (''freshness'', VStr ''unknown'')])
   | Available _ \<Rightarrow> None
   | OtherSource \<Rightarrow> Some unreadable)"

fun is_public_value :: "pyv \<Rightarrow> bool" where
  "is_public_value (VDict kvs) = ((case map_of kvs ''sensitivity'' of None \<Rightarrow> True | Some v \<Rightarrow> v = VStr ''public'')
     \<and> list_all (\<lambda>(k, v). is_public_value v) kvs)"
| "is_public_value (VProxy kvs) = ((case map_of kvs ''sensitivity'' of None \<Rightarrow> True | Some v \<Rightarrow> v = VStr ''public'')
     \<and> list_all (\<lambda>(k, v). is_public_value v) kvs)"
| "is_public_value (VList vs) = list_all is_public_value vs"
| "is_public_value (VTuple vs) = list_all is_public_value vs"
| "is_public_value v = True"

definition available :: "bool \<Rightarrow> pyv \<Rightarrow> pyv" where
  "available stale d = VDict [(''source_state'', VStr ''available''),
     (''freshness'', VStr (if stale then ''stale'' else ''current'')), (''data'', thaw d)]"

definition projection_section :: "'j journal_ops \<Rightarrow> 'j obs_source \<Rightarrow> pyv" where
  "projection_section ops source =
    (case failure_section source of
       Some f \<Rightarrow> f
     | None \<Rightarrow>
         (case source of
            Available (EvProjection p j) \<Rightarrow>
              (case is_stale ops p j of Inl e \<Rightarrow> unreadable | Inr stale \<Rightarrow> available stale (compact p))
          | _ \<Rightarrow> unreadable))"

definition detail_section :: "'j journal_ops \<Rightarrow> 'j obs_source \<Rightarrow> pyv" where
  "detail_section ops source =
    (case failure_section source of
       Some f \<Rightarrow> f
     | None \<Rightarrow>
         (case source of
            Available (EvDetail p j diagnostics) \<Rightarrow>
              (case is_stale ops p j of
                 Inl e \<Rightarrow> unreadable
               | Inr stale \<Rightarrow>
                   (case detailed p diagnostics False of
                      Inl e \<Rightarrow> unreadable
                    | Inr d \<Rightarrow> (if \<not> is_public_value d then unreadable else available stale d)))
          | _ \<Rightarrow> unreadable))"

definition review_section :: "'j obs_source \<Rightarrow> pyv" where
  "review_section source =
    (case failure_section source of
       Some f \<Rightarrow> f
     | None \<Rightarrow>
         (case source of
            Available (EvReview active candidate labels ready) \<Rightarrow>
              (case promotion active candidate labels ready of
                 Inl e \<Rightarrow> unreadable
               | Inr d \<Rightarrow>
                   VDict [(''source_state'', VStr ''available''), (''freshness'', VStr ''not-applicable''),
                     (''evidence'', VDict
                       [(''comparison'', VStr (if pd_decision d = ''promote'' then ''qualified'' else ''incomplete'')),
                        (''regressions'', VList (map VStr (pd_regressions d))),
                        (''reasons'', VList (map VStr (pd_reasons d)))])])
          | _ \<Rightarrow> unreadable))"

definition observe :: "'j journal_ops \<Rightarrow> 'j obs_source \<Rightarrow> 'j obs_source \<Rightarrow> 'j obs_source \<Rightarrow> pyv" where
  "observe ops compact_source detail_source review_source = VDict
    [(''version'', VStr ''observability-adapter/v1''),
     (''compact'', projection_section ops compact_source),
     (''detail'', detail_section ops detail_source),
     (''review'', review_section review_source)]"

section \<open>Replay gives the latest state\<close>

lemma feed_append: "feed f s (xs @ ys) = bind_res (feed f s xs) (\<lambda>t. feed f t ys)"
  by (induction f s xs rule: feed.induct) (auto simp: bind_res_def split: sum.splits)

lemma feed_snoc: "feed f s (xs @ [x]) = Inr t \<longleftrightarrow> (\<exists>u. feed f s xs = Inr u \<and> f u x = Inr t)"
  by (simp add: feed_append bind_res_def split: sum.splits)

fun last_status :: "(nat \<times> rec) list \<Rightarrow> string option" where
  "last_status [] = None"
| "last_status (x # xs) = (case last_status xs of Some s \<Rightarrow> Some s
     | None \<Rightarrow> (case snd x of REvent e \<Rightarrow> Some (evt_status e) | _ \<Rightarrow> None))"

fun last_voice :: "(nat \<times> rec) list \<Rightarrow> string \<Rightarrow> (string \<times> string \<times> string) option" where
  "last_voice [] sid = None"
| "last_voice (x # xs) sid = (case last_voice xs sid of Some v \<Rightarrow> Some v
     | None \<Rightarrow> (case snd x of RVoiceObservation v \<Rightarrow>
         (if vo_session_id v = sid then Some (vo_phase v, vo_status v, vo_code v) else None) | _ \<Rightarrow> None))"

lemma last_status_snoc: "last_status (xs @ [x]) = (case snd x of REvent e \<Rightarrow> Some (evt_status e) | _ \<Rightarrow> last_status xs)"
  by (induction xs) (auto split: option.splits rec.splits)

lemma last_voice_snoc: "last_voice (xs @ [x]) sid = (case snd x of
    RVoiceObservation v \<Rightarrow> (if vo_session_id v = sid then Some (vo_phase v, vo_status v, vo_code v) else last_voice xs sid)
  | _ \<Rightarrow> last_voice xs sid)"
  by (induction xs) (auto split: option.splits rec.splits)

lemma project_event_fields:
  assumes "project_event p e = Inr q"
  shows "pj_action q = Some (evt_status e, evt_event_type e) \<and> pj_pending q = (evt_status e = ''pending'')
    \<and> pj_cursor q = pj_cursor p \<and> pj_voice q = pj_voice p"
  using assms by (auto simp: project_event_def split: option.splits sum.splits)

lemma project_step_fields:
  assumes "project_step p x = Inr q"
  shows "pj_cursor q = fst x
    \<and> map_option fst (pj_action q) = (case snd x of REvent e \<Rightarrow> Some (evt_status e) | _ \<Rightarrow> map_option fst (pj_action p))
    \<and> pj_pending q = (case snd x of REvent e \<Rightarrow> evt_status e = ''pending'' | _ \<Rightarrow> pj_pending p)
    \<and> map_of (pj_voice q) sid = (case snd x of
        RVoiceObservation v \<Rightarrow> (if vo_session_id v = sid then Some (vo_phase v, vo_status v, vo_code v) else map_of (pj_voice p) sid)
      | _ \<Rightarrow> map_of (pj_voice p) sid)"
  using assms project_event_fields[of "p\<lparr>pj_cursor := fst x\<rparr>" _ q]
  by (cases "snd x") (auto simp: project_step_def project_interaction_def Let_def)

lemma feed_latest:
  assumes "feed project_step projection_start es = Inr p"
  shows "pj_cursor p = (if es = [] then 0 else fst (last es))
    \<and> map_option fst (pj_action p) = last_status es \<and> pj_pending p = (last_status es = Some ''pending'')
    \<and> map_of (pj_voice p) sid = last_voice es sid"
  using assms
proof (induction es arbitrary: p rule: rev_induct)
  case (snoc x xs)
  then obtain u where u: "feed project_step projection_start xs = Inr u" "project_step u x = Inr p"
    by (auto simp: feed_snoc)
  with snoc.IH[OF u(1)] project_step_fields[OF u(2), of sid] show ?case
    by (auto simp: last_status_snoc last_voice_snoc split: rec.splits)
qed (auto simp: projection_start_def)

lemma entry_context:
  assumes "snapshot (REvent e) = Inr (REvent e)"
  shows "\<exists>l m n. map_of (evt_context e) ''lane_id'' = Some l \<and> map_of (evt_context e) ''provider_id'' = Some m
    \<and> map_of (evt_context e) ''model_version'' = Some n"
proof -
  have "validate schema_event (thaw_rec (REvent e)) = None"
    using assms by (auto simp: snapshot_eq_Inr decode_eq_Inr record_schemas_def)
  from closed_object_field[OF this[unfolded schema_event_def thaw_rec.simps], of "''context''"]
  have "validate schema_context (VDict (thaw_bag (evt_context e))) = None" by simp
  note field = closed_object_field[OF this[unfolded schema_context_def]]
  have "map_of (thaw_bag d) k = map_option thaw (map_of d k)" for d k
    by (induction d) (auto simp: thaw_bag_def)
  with field[of "''lane_id''"] field[of "''provider_id''"] field[of "''model_version''"] show ?thesis by auto
qed

lemma feed_total:
  assumes "\<forall>x \<in> set es. snapshot (snd x) = Inr (snd x)"
  shows "\<exists>q. feed project_step p es = Inr q"
  using assms
proof (induction es arbitrary: p)
  case (Cons x es)
  have "\<exists>q. project_step p x = Inr q"
    using Cons.prems entry_context
    by (cases "snd x") (fastforce simp: project_step_def project_event_def Let_def)+
  with Cons show ?case by fastforce
qed simp

lemma memory_last_sequence:
  assumes "memory_inv j"
  shows "(if mj_events j = [] then 0 else fst (last (mj_events j))) = length (mj_events j)"
proof (cases "mj_events j = []")
  case False
  have seq: "map fst (mj_events j) = [1..<Suc (length (mj_events j))]"
    using assms unfolding memory_inv_def by blast
  have "fst (last (mj_events j)) = last (map fst (mj_events j))" using False by (simp add: last_map)
  also have "\<dots> = length (mj_events j)" unfolding seq using False by (cases "mj_events j") simp_all
  finally show ?thesis using False by simp
qed simp

lemma memory_stale:
  assumes "memory_open j = None" and "pj_cursor p = n"
  shows "is_stale memory_ops p j = Inr (n < length (mj_events j))"
  using assms by (simp add: is_stale_def memory_ops_def memory_read_def cursor_error_def cursor_nat_def not_le)

lemma memory_append_effect:
  assumes "memory_append j r = (Inr n, j')"
  shows "memory_open j' = None \<and> (j' = j \<or> length (mj_events j') = Suc (length (mj_events j)))"
  using assms
  by (auto simp: memory_append_def Let_def memory_open_def split: sum.splits option.splits if_splits)

lemma memory_rebuild:
  assumes "memory_inv j" and "memory_open j = None"
  shows "\<exists>p. rebuild memory_ops j = Inr p \<and> feed project_step projection_start (mj_events j) = Inr p"
proof -
  have "\<forall>x \<in> set (mj_events j). snapshot (snd x) = Inr (snd x)"
    using assms(1) unfolding memory_inv_def by blast
  from feed_total[OF this] obtain p where "feed project_step projection_start (mj_events j) = Inr p" by blast
  with assms(2) show ?thesis
    by (simp add: rebuild_def memory_ops_def memory_read_def cursor_error_def cursor_nat_def)
qed

section \<open>Properties\<close>

text \<open>Replaying an open journal always gives a projection, and it is the latest state: its cursor is
  the last sequence, its action status is that of the last command event and is pending exactly
  when that event is, and the voice state of every session is that of its last observation. It is
  not stale for that journal, and after an append it is stale exactly when the journal grew.\<close>

theorem rebuild_latest:
  assumes "memory_inv j" and "memory_open j = None"
  shows "\<exists>p. rebuild memory_ops j = Inr p \<and> pj_cursor p = length (mj_events j)
    \<and> map_option fst (pj_action p) = last_status (mj_events j)
    \<and> pj_pending p = (last_status (mj_events j) = Some ''pending'')
    \<and> (\<forall>sid. map_of (pj_voice p) sid = last_voice (mj_events j) sid)
    \<and> is_stale memory_ops p j = Inr False
    \<and> (\<forall>r n j'. memory_append j r = (Inr n, j') \<longrightarrow> is_stale memory_ops p j' = Inr (j' \<noteq> j))"
proof -
  obtain p where p: "rebuild memory_ops j = Inr p" "feed project_step projection_start (mj_events j) = Inr p"
    using memory_rebuild[OF assms] by blast
  have cursor: "pj_cursor p = length (mj_events j)"
    using feed_latest[OF p(2)] memory_last_sequence[OF assms(1)] by metis
  have "is_stale memory_ops p j' = Inr (j' \<noteq> j)" if "memory_append j r = (Inr n, j')" for r n j'
    using memory_append_effect[OF that] memory_stale[OF _ cursor, of j'] by auto
  moreover have "is_stale memory_ops p j = Inr False" using memory_stale[OF assms(2) cursor] by simp
  ultimately show ?thesis using p(1) cursor feed_latest[OF p(2)] by blast
qed

theorem rebuild_latest_witness:
  "\<exists>p. rebuild memory_ops (snd (memory_append (memory_init 7) (sample_interaction ''a'' ''voice.preview''))) = Inr p
    \<and> pj_cursor p = 1"
proof -
  let ?j = "snd (memory_append (memory_init 7) (sample_interaction ''a'' ''voice.preview''))"
  have "memory_inv (memory_init 7)" by (simp add: memory_inv_def memory_init_def)
  then have "memory_inv ?j" using memory_append_inv[OF _ surjective_pairing] by blast
  moreover have "memory_open ?j = None" "length (mj_events ?j) = 1" by code_simp+
  ultimately show ?thesis using rebuild_latest[of ?j] by auto
qed

lemma visible_diagnostics_eq:
  "visible_diagnostics ds b = Inr vs \<Longrightarrow> vs = map (\<lambda>d. VDict [(''category'', the (map_of d ''category'')),
     (''value'', thaw (the (map_of d ''value'')))]) (filter (shown b) ds)"
  by (induction ds b arbitrary: vs rule: visible_diagnostics.induct) (auto split: if_splits option.splits)

lemma thaw_public: "is_public_value v \<Longrightarrow> is_public_value (thaw v)"
proof (induction v rule: thaw.induct)
  case (1 kvs)
  have "map_of (map (\<lambda>(k, v). (k, thaw v)) kvs) x = map_option thaw (map_of kvs x)" for x
    by (induction kvs) auto
  with 1 show ?case by (auto simp: list_all_iff split: option.splits)
next
  case (2 kvs)
  have "map_of (map (\<lambda>(k, v). (k, thaw v)) kvs) x = map_option thaw (map_of kvs x)" for x
    by (induction kvs) auto
  with 2 show ?case by (auto simp: list_all_iff split: option.splits)
qed (auto simp: list_all_iff)


definition sample_detail :: "memory_journal obs_source" where
  "sample_detail = Available (EvDetail projection_start (memory_init 7)
     [[(''category'', VStr ''a''), (''value'', VInt 1), (''sensitivity'', VStr ''secret'')],
      [(''category'', VStr ''b''), (''value'', VInt 2), (''sensitivity'', VStr ''public'')]])"


end
