(* ===== verification/Inventory_Catalog.thy ===== *)
theory Inventory_Catalog
  imports Py_Prelude
begin

text \<open>
  Inventory discovery (\<open>src/runtime/inventory.py\<close>) and the reviewed catalog of its findings
  (\<open>src/runtime/catalog.py\<close>). An error is \<open>Inl\<close> of its code. The digest of an entry needs
  \<open>json.dumps\<close> of a value as bytes and \<open>sha256\<close> of bytes; both are parameters. The identity test
  \<open>candidate is self._pending\<close> compares tickets: each proposal makes a candidate with a new one.
\<close>

section \<open>Discovery\<close>

record inventory_item =
  it_identifier :: string
  it_source :: string
  it_provenance :: string
  it_data :: pyv

record inventory =
  iv_capabilities :: "inventory_item list"
  iv_state :: pyv
  iv_state_provenance :: string

definition inventory_sources :: "(string \<times> string list) list" where
  "inventory_sources =
    [(''omarchy_commands'', [''id'', ''argv'']),
     (''menus'', [''id'', ''title'']),
     (''hyprland_bindings'', [''id'', ''keys'', ''action'']),
     (''custom_bindings'', [''id'', ''keys'', ''action'']),
     (''installed_apps'', [''id'', ''desktop_id''])]"

fun is_str :: "pyv \<Rightarrow> bool" where
  "is_str (VStr s) = True"
| "is_str v = False"

fun is_dict :: "pyv \<Rightarrow> bool" where
  "is_dict (VDict d) = True"
| "is_dict v = False"

definition valid_record :: "string \<Rightarrow> string list \<Rightarrow> pyv \<Rightarrow> bool" where
  "valid_record source required r =
    (case r of
       VDict d \<Rightarrow>
         (if list_ex (\<lambda>key. key \<noteq> ''argv'' \<and> \<not> (case map_of d key of Some v \<Rightarrow> is_str v | None \<Rightarrow> False)) required
          then False
          else if source = ''omarchy_commands'' then
            (case map_of d ''argv'' of
               Some (VList vs) \<Rightarrow> vs \<noteq> [] \<and> list_all (\<lambda>v. is_str v \<and> v \<noteq> VStr []) vs
             | _ \<Rightarrow> False)
          else True)
     | _ \<Rightarrow> False)"

fun json_compatible :: "pyv \<Rightarrow> bool" where
  "json_compatible (VList vs) = list_all json_compatible vs"
| "json_compatible (VDict kvs) = list_all (\<lambda>(k, v). json_compatible v) kvs"
| "json_compatible (VTuple vs) = False"
| "json_compatible (VProxy kvs) = False"
| "json_compatible VOpaque = False"
| "json_compatible v = True"

text \<open>\<open>fixture.get("version") != 1\<close> compares as Python does: \<open>True\<close> and \<open>1.0\<close> are equal to \<open>1\<close>.\<close>

definition equals_one :: "pyv option \<Rightarrow> bool" where
  "equals_one v \<longleftrightarrow> v \<in> {Some (VInt 1), Some (VBool True), Some (VFloat (Fin 1))}"

definition record_id :: "pyv \<Rightarrow> string" where
  "record_id r = (case map_of (items r) ''id'' of Some (VStr i) \<Rightarrow> i | _ \<Rightarrow> [])"

definition make_item :: "string \<Rightarrow> pyv \<Rightarrow> inventory_item" where
  "make_item source r = \<lparr>it_identifier = record_id r, it_source = source,
     it_provenance = ''fixture:'' @ source, it_data = freeze r\<rparr>"

fun discover_records :: "string \<Rightarrow> string list \<Rightarrow> pyv list \<Rightarrow> inventory_item list \<Rightarrow> string + inventory_item list" where
  "discover_records source required [] found = Inr found"
| "discover_records source required (r # rs) found =
    (if \<not> valid_record source required r then Inl (''invalid '' @ source @ '' record'')
     else if record_id r \<in> set (map it_identifier found) then Inl (''duplicate capability id: '' @ record_id r)
     else discover_records source required rs (found @ [make_item source r]))"

fun discover_sources :: "bag \<Rightarrow> (string \<times> string list) list \<Rightarrow> inventory_item list \<Rightarrow> string + inventory_item list" where
  "discover_sources d [] found = Inr found"
| "discover_sources d ((source, required) # rest) found =
    (case map_of d source of
       Some (VList rs) \<Rightarrow> bind_res (discover_records source required rs found) (discover_sources d rest)
     | _ \<Rightarrow> Inl (source @ '' must be a list''))"

definition discover :: "pyv \<Rightarrow> string + inventory" where
  "discover fixture =
    (case fixture of
       VDict d \<Rightarrow>
         (if \<not> equals_one (map_of d ''version'') then Inl ''unsupported inventory fixture''
          else if \<not> json_compatible fixture then Inl ''inventory fixture must contain JSON-compatible values''
          else if set (keys d) \<noteq> {''version'', ''state''} \<union> set (map fst inventory_sources)
              \<or> \<not> (case map_of d ''state'' of Some st \<Rightarrow> is_dict st | None \<Rightarrow> False) then Inl ''inventory fixture is incomplete''
          else bind_res (discover_sources d inventory_sources []) (\<lambda>found.
            Inr \<lparr>iv_capabilities = sort_key it_identifier found, iv_state = freeze (the (map_of d ''state'')),
                 iv_state_provenance = ''fixture:state''\<rparr>))
     | _ \<Rightarrow> Inl ''unsupported inventory fixture'')"

section \<open>Catalog entries\<close>

text \<open>A bounded copy: one budget for all nodes, a depth, and limits on every text and container.\<close>

fun plain :: "pyv \<Rightarrow> int \<Rightarrow> nat \<Rightarrow> string + pyv \<times> int"
and plain_list :: "pyv list \<Rightarrow> int \<Rightarrow> nat \<Rightarrow> string + pyv list \<times> int"
and plain_items :: "(string \<times> pyv) list \<Rightarrow> int \<Rightarrow> nat \<Rightarrow> string + (string \<times> pyv) list \<times> int" where
  "plain v budget depth =
    (let budget = budget - 1 in
     if budget < 0 \<or> depth > 16 then Inl ''catalog.size''
     else case v of
       VNone \<Rightarrow> Inr (v, budget)
     | VBool b \<Rightarrow> Inr (v, budget)
     | VInt i \<Rightarrow> Inr (v, budget)
     | VStr s \<Rightarrow> (if int (length s) > 16384 then Inl ''catalog.size'' else Inr (v, budget))
     | VFloat f \<Rightarrow> (case f of Fin r \<Rightarrow> Inr (v, budget) | _ \<Rightarrow> Inl ''catalog.data'')
     | VDict kvs \<Rightarrow> (if int (length kvs) > 4096 then Inl ''catalog.data''
         else bind_res (plain_items kvs budget (Suc depth)) (\<lambda>(d, b). Inr (VDict d, b)))
     | VProxy kvs \<Rightarrow> (if int (length kvs) > 4096 then Inl ''catalog.data''
         else bind_res (plain_items kvs budget (Suc depth)) (\<lambda>(d, b). Inr (VDict d, b)))
     | VList vs \<Rightarrow> (if int (length vs) > 4096 then Inl ''catalog.size''
         else bind_res (plain_list vs budget (Suc depth)) (\<lambda>(l, b). Inr (VList l, b)))
     | VTuple vs \<Rightarrow> (if int (length vs) > 4096 then Inl ''catalog.size''
         else bind_res (plain_list vs budget (Suc depth)) (\<lambda>(l, b). Inr (VList l, b)))
     | VOpaque \<Rightarrow> Inl ''catalog.data'')"
| "plain_list [] budget depth = Inr ([], budget)"
| "plain_list (v # vs) budget depth =
    bind_res (plain v budget depth) (\<lambda>(x, b). bind_res (plain_list vs b depth) (\<lambda>(xs, c). Inr (x # xs, c)))"
| "plain_items [] budget depth = Inr ([], budget)"
| "plain_items ((k, v) # kvs) budget depth =
    bind_res (plain v budget depth) (\<lambda>(x, b). bind_res (plain_items kvs b depth) (\<lambda>(xs, c). Inr ((k, x) # xs, c)))"

record catalog_entry =
  ce_identifier :: string
  ce_source :: string
  ce_provenance :: string
  ce_fingerprint :: string
  ce_data :: pyv
  ce_reviewed :: bool

definition entry_ok :: "inventory_item \<Rightarrow> (string \<times> string \<times> string) list \<Rightarrow> bool" where
  "entry_ok item metadata \<longleftrightarrow> id_pattern (it_identifier item)
     \<and> it_source item \<in> set (map fst inventory_sources) \<and> strip (it_provenance item) \<noteq> []
     \<and> int (length (it_provenance item)) \<le> 512 \<and> it_identifier item \<notin> set (keys metadata)"

definition entry_text :: "(pyv \<Rightarrow> string option) \<Rightarrow> inventory_item \<Rightarrow> pyv \<Rightarrow> string option" where
  "entry_text dumps item d = dumps (canon (VDict [(''data'', d), (''source'', VStr (it_source item)),
     (''provenance'', VStr (it_provenance item))]))"

fun collect ::
  "(pyv \<Rightarrow> string option) \<Rightarrow> (string \<Rightarrow> string) \<Rightarrow> inventory_item list \<Rightarrow> (string \<times> pyv list) list
    \<Rightarrow> (string \<times> string \<times> string) list \<Rightarrow> string + (string \<times> pyv list) list \<times> (string \<times> string \<times> string) list" where
  "collect dumps sha256 [] fixture metadata = Inr (fixture, metadata)"
| "collect dumps sha256 (item # rest) fixture metadata =
    (if \<not> entry_ok item metadata then Inl ''catalog.entry''
     else bind_res (plain (it_data item) 4096 0) (\<lambda>(d, b).
       if \<not> is_dict d \<or> map_of (items d) ''id'' \<noteq> Some (VStr (it_identifier item)) then Inl ''catalog.entry''
       else case entry_text dumps item d of
         None \<Rightarrow> Inl ''catalog.data''
       | Some encoded \<Rightarrow>
           (if int (length encoded) > 16384 then Inl ''catalog.size''
            else collect dumps sha256 rest
              (AList.map_entry (it_source item) (\<lambda>rs. rs @ [d]) fixture)
              (AList.update (it_identifier item) (it_provenance item, sha256 encoded) metadata))))"

definition catalog_entries ::
  "(pyv \<Rightarrow> string option) \<Rightarrow> (string \<Rightarrow> string) \<Rightarrow> inventory \<Rightarrow> string + catalog_entry list" where
  "catalog_entries dumps sha256 stock =
    (if int (length (iv_capabilities stock)) > 256 then Inl ''catalog.inventory''
     else bind_res (collect dumps sha256 (iv_capabilities stock) (map (\<lambda>(s, _). (s, [])) inventory_sources) [])
       (\<lambda>(fixture, metadata).
         case discover (VDict ([(''version'', VInt 1), (''state'', VDict [])] @ map (\<lambda>(s, rs). (s, VList rs)) fixture)) of
           Inl e \<Rightarrow> Inl ''catalog.inventory''
         | Inr frozen \<Rightarrow> Inr (map (\<lambda>item.
             case the (map_of metadata (it_identifier item)) of (provenance, fingerprint) \<Rightarrow>
               \<lparr>ce_identifier = it_identifier item, ce_source = it_source item, ce_provenance = provenance,
                ce_fingerprint = fingerprint, ce_data = it_data item, ce_reviewed = False\<rparr>)
             (iv_capabilities frozen))))"

section \<open>The registry\<close>

record catalog_diff =
  df_added :: "string list"
  df_changed :: "string list"
  df_removed :: "string list"
  df_unchanged :: "string list"

record catalog_candidate =
  ca_ticket :: nat
  ca_base_version :: int
  ca_version :: int
  ca_entries :: "catalog_entry list"
  ca_diff :: catalog_diff

record registry =
  rg_version :: int
  rg_entries :: "catalog_entry list"
  rg_pending :: "catalog_candidate option"
  rg_tickets :: nat

definition registry_init :: registry where
  "registry_init = \<lparr>rg_version = 1, rg_entries = [], rg_pending = None, rg_tickets = 0\<rparr>"

definition require_version :: "registry \<Rightarrow> pyv \<Rightarrow> string option" where
  "require_version r version = (if version = VInt (rg_version r) then None else Some ''catalog.stale'')"

definition registry_snapshot :: "registry \<Rightarrow> pyv \<Rightarrow> string + int \<times> catalog_entry list" where
  "registry_snapshot r version = (case require_version r version of
     Some e \<Rightarrow> Inl e | None \<Rightarrow> Inr (rg_version r, rg_entries r))"

definition by_id :: "catalog_entry list \<Rightarrow> string \<rightharpoonup> catalog_entry" where
  "by_id entries = map_of (map (\<lambda>e. (ce_identifier e, e)) entries)"

definition make_diff :: "catalog_entry list \<Rightarrow> catalog_entry list \<Rightarrow> catalog_diff" where
  "make_diff old new =
    (let before = map ce_identifier old; incoming = map ce_identifier new;
         common = filter (\<lambda>i. i \<in> set before) incoming;
         changed = filter (\<lambda>i. map_option ce_fingerprint (by_id old i) \<noteq> map_option ce_fingerprint (by_id new i)) common
     in \<lparr>df_added = sort (filter (\<lambda>i. i \<notin> set before) incoming), df_changed = sort changed,
         df_removed = sort (filter (\<lambda>i. i \<notin> set incoming) before),
         df_unchanged = sort (filter (\<lambda>i. i \<notin> set changed) common)\<rparr>)"

definition propose ::
  "(pyv \<Rightarrow> string option) \<Rightarrow> (string \<Rightarrow> string) \<Rightarrow> inventory \<Rightarrow> pyv \<Rightarrow> registry \<Rightarrow> (string + catalog_candidate) \<times> registry" where
  "propose dumps sha256 stock expected_version r =
    (case catalog_entries dumps sha256 stock of
       Inl e \<Rightarrow> (Inl e, r)
     | Inr new \<Rightarrow>
         (case require_version r expected_version of
            Some e \<Rightarrow> (Inl e, r)
          | None \<Rightarrow>
              (let d = make_diff (rg_entries r) new;
                   revised = (df_added d \<noteq> [] \<or> df_changed d \<noteq> [] \<or> df_removed d \<noteq> []);
                   candidate = \<lparr>ca_ticket = rg_tickets r, ca_base_version = rg_version r,
                     ca_version = rg_version r + (if revised then 1 else 0),
                     ca_entries = map (\<lambda>e. if ce_identifier e \<in> set (df_unchanged d)
                       then the (by_id (rg_entries r) (ce_identifier e)) else e) new,
                     ca_diff = d\<rparr>
               in (Inr candidate, r\<lparr>rg_pending := Some candidate, rg_tickets := Suc (rg_tickets r)\<rparr>))))"

fun str_items :: "pyv list \<Rightarrow> string list option" where
  "str_items [] = Some []"
| "str_items (v # vs) = (case v of VStr s \<Rightarrow> map_option ((#) s) (str_items vs) | _ \<Rightarrow> None)"

definition publish :: "catalog_candidate \<Rightarrow> pyv \<Rightarrow> registry \<Rightarrow> (string + int \<times> catalog_entry list) \<times> registry" where
  "publish candidate reviewed_ids r =
    (case (case reviewed_ids of VTuple vs \<Rightarrow> str_items vs | _ \<Rightarrow> None) of
       None \<Rightarrow> (Inl ''catalog.review'', r)
     | Some ids \<Rightarrow>
         (if \<not> distinct ids then (Inl ''catalog.review'', r)
          else if rg_pending r \<noteq> Some candidate \<or> ca_base_version candidate \<noteq> rg_version r
            then (Inl ''catalog.candidate'', r)
          else
            (let required = df_added (ca_diff candidate) @ df_changed (ca_diff candidate) in
             if set ids \<noteq> set required then (Inl ''catalog.review'', r)
             else
               (let published = map (\<lambda>e. if ce_identifier e \<in> set required then e\<lparr>ce_reviewed := True\<rparr> else e)
                      (ca_entries candidate)
                in (Inr (ca_version candidate, published),
                    r\<lparr>rg_version := ca_version candidate, rg_entries := published, rg_pending := None\<rparr>)))))"

section \<open>Discovery is complete\<close>

lemma discover_records_found:
  assumes "discover_records source required rs found = Inr out"
  shows "out = found @ map (make_item source) rs \<and> list_all (valid_record source required) rs
    \<and> (distinct (map it_identifier found) \<longrightarrow> distinct (map it_identifier out))"
  using assms
proof (induction source required rs found rule: discover_records.induct)
  case (2 source required r rs found)
  then have ok: "valid_record source required r" "record_id r \<notin> set (map it_identifier found)"
      "discover_records source required rs (found @ [make_item source r]) = Inr out"
    by (auto split: if_splits)
  with 2 have "out = (found @ [make_item source r]) @ map (make_item source) rs"
    "distinct (map it_identifier (found @ [make_item source r])) \<longrightarrow> distinct (map it_identifier out)"
    "list_all (valid_record source required) rs" by blast+
  with ok show ?case by (auto simp: make_item_def)
qed simp

lemma discover_sources_found:
  assumes "discover_sources d ss found = Inr out" and "distinct (map it_identifier found)"
  shows "distinct (map it_identifier out) \<and> set out = set found \<union>
    {make_item s r | s q rs r. (s, q) \<in> set ss \<and> map_of d s = Some (VList rs) \<and> r \<in> set rs \<and> valid_record s q r}"
  using assms
proof (induction d ss found rule: discover_sources.induct)
  case (2 d source required rest found)
  then obtain rs mid where m: "map_of d source = Some (VList rs)" "discover_records source required rs found = Inr mid"
      "discover_sources d rest mid = Inr out"
    by (auto split: option.splits pyv.splits)
  note found = discover_records_found[OF m(2)]
  have "distinct (map it_identifier out) \<and> set out = set mid \<union>
    {make_item s r | s q rs r. (s, q) \<in> set rest \<and> map_of d s = Some (VList rs) \<and> r \<in> set rs \<and> valid_record s q r}"
    using 2 m found by auto
  moreover have "set mid = set found \<union> {make_item source r | r. r \<in> set rs \<and> valid_record source required r}"
    using found by (auto simp: list_all_iff)
  ultimately show ?case using m(1) by auto
qed simp

text \<open>Discovery is complete and canonical: when it succeeds, the capabilities are listed by strictly
  increasing identifier, and they are exactly the records of the five sources, each valid for its
  source, frozen, and marked with where it came from.\<close>

theorem discover_complete:
  assumes "discover (VDict d) = Inr stock"
  shows "sorted (map it_identifier (iv_capabilities stock)) \<and> distinct (map it_identifier (iv_capabilities stock))
    \<and> set (iv_capabilities stock) = {make_item s r | s q rs r. (s, q) \<in> set inventory_sources
        \<and> map_of d s = Some (VList rs) \<and> r \<in> set rs \<and> valid_record s q r}"
proof -
  obtain found where f: "discover_sources d inventory_sources [] = Inr found"
      "iv_capabilities stock = sort_key it_identifier found"
    using assms unfolding discover_def pyv.case by (simp split: if_split_asm) force
  have "distinct (map it_identifier (sort_key it_identifier found)) = distinct (map it_identifier found)"
    by (metis distinct_map distinct_sort set_sort)
  with discover_sources_found[OF f(1)] f(2) show ?thesis by simp
qed

definition sample_fixture :: bag where
  "sample_fixture = [(''version'', VInt 1), (''omarchy_commands'', VList [VDict [(''id'', VStr ''b''), (''argv'', VList [VStr ''x''])]]),
     (''menus'', VList [VDict [(''id'', VStr ''a''), (''title'', VStr ''t'')]]), (''hyprland_bindings'', VList []),
     (''custom_bindings'', VList []), (''installed_apps'', VList []), (''state'', VDict [])]"

theorem discover_complete_witness:
  "\<exists>stock. discover (VDict sample_fixture) = Inr stock \<and> map it_identifier (iv_capabilities stock) = [''a'', ''b'']
    \<and> distinct (map it_identifier (iv_capabilities stock))"
proof -
  let ?r = "map_sum id (\<lambda>i. map it_identifier (iv_capabilities i)) (discover (VDict sample_fixture))"
  have "?r = Inr [''a'', ''b'']" by code_simp
  then obtain stock where i: "discover (VDict sample_fixture) = Inr stock" "map it_identifier (iv_capabilities stock) = [''a'', ''b'']"
    by (cases "discover (VDict sample_fixture)") auto
  with discover_complete[OF i(1)] show ?thesis by auto
qed

section \<open>Nothing unreviewed is published\<close>

lemma make_diff_ids:
  "set (df_added (make_diff old new)) = set (map ce_identifier new) - set (map ce_identifier old)"
  "set (df_removed (make_diff old new)) = set (map ce_identifier old) - set (map ce_identifier new)"
  "set (df_changed (make_diff old new)) \<union> set (df_unchanged (make_diff old new))
     = set (map ce_identifier new) \<inter> set (map ce_identifier old)"
  "set (df_changed (make_diff old new)) \<inter> set (df_unchanged (make_diff old new)) = {}"
  by (auto simp: make_diff_def Let_def)

lemma by_id_Some: "by_id entries i = Some e \<Longrightarrow> e \<in> set entries \<and> ce_identifier e = i"
  by (auto simp: by_id_def dest: map_of_SomeD)

lemma by_id_exists: "i \<in> set (map ce_identifier entries) \<Longrightarrow> \<exists>e. by_id entries i = Some e"
  by (induction entries) (auto simp: by_id_def)

lemma unchanged_entry:
  assumes "i \<in> set (df_unchanged (make_diff old new))"
  shows "\<exists>e. by_id old i = Some e \<and> e \<in> set old \<and> ce_identifier e = i
    \<and> map_option ce_fingerprint (by_id new i) = Some (ce_fingerprint e)"
proof -
  have "i \<in> set (map ce_identifier old)" using assms make_diff_ids(3)[of old new] by blast
  then obtain e where e: "by_id old i = Some e" using by_id_exists by blast
  moreover have "map_option ce_fingerprint (by_id old i) = map_option ce_fingerprint (by_id new i)"
    using assms by (auto simp: make_diff_def Let_def)
  then have "map_option ce_fingerprint (by_id new i) = Some (ce_fingerprint e)" using e by simp
  ultimately show ?thesis using by_id_Some[OF e] by blast
qed

text \<open>The registry's invariant: everything current was reviewed, and a pending candidate is based on
  the current entries, with only its added and changed identifiers open for review.\<close>

definition registry_inv :: "registry \<Rightarrow> bool" where
  "registry_inv r \<longleftrightarrow> 1 \<le> rg_version r \<and> list_all ce_reviewed (rg_entries r)
     \<and> (\<forall>c. rg_pending r = Some c \<longrightarrow> ca_ticket c < rg_tickets r \<and> ca_base_version c = rg_version r
       \<and> rg_version r \<le> ca_version c
       \<and> (\<forall>e \<in> set (ca_entries c). ce_identifier e \<in> set (df_added (ca_diff c) @ df_changed (ca_diff c)) \<or> e \<in> set (rg_entries r)))"

inductive registry_reach :: "(pyv \<Rightarrow> string option) \<Rightarrow> (string \<Rightarrow> string) \<Rightarrow> registry \<Rightarrow> bool"
  for dumps sha256 where
  registry_start: "registry_reach dumps sha256 registry_init"
| registry_propose: "registry_reach dumps sha256 r \<Longrightarrow> propose dumps sha256 stock expected r = (x, r') \<Longrightarrow>
    registry_reach dumps sha256 r'"
| registry_publish: "registry_reach dumps sha256 r \<Longrightarrow> publish candidate reviewed r = (y, r') \<Longrightarrow>
    registry_reach dumps sha256 r'"

lemma propose_inv:
  assumes "propose dumps sha256 stock expected r = (x, r')" and "registry_inv r"
  shows "registry_inv r'"
proof (cases x)
  case (Inl e)
  then have "r' = r" using assms(1) by (auto simp: propose_def Let_def split: sum.splits option.splits)
  with assms(2) show ?thesis by simp
next
  case (Inr c)
  then obtain new where new: "r' = r\<lparr>rg_pending := Some c, rg_tickets := Suc (rg_tickets r)\<rparr>"
      "ca_ticket c = rg_tickets r" "ca_base_version c = rg_version r" "rg_version r \<le> ca_version c"
      "ca_diff c = make_diff (rg_entries r) new"
      "ca_entries c = map (\<lambda>e. if ce_identifier e \<in> set (df_unchanged (ca_diff c))
         then the (by_id (rg_entries r) (ce_identifier e)) else e) new"
    using assms(1) by (auto simp: propose_def Let_def split: sum.splits option.splits)
  have "ce_identifier e \<in> set (df_added (ca_diff c) @ df_changed (ca_diff c)) \<or> e \<in> set (rg_entries r)"
    if e: "e \<in> set (ca_entries c)" for e
  proof -
    obtain n where n: "n \<in> set new" "e = (if ce_identifier n \<in> set (df_unchanged (ca_diff c))
        then the (by_id (rg_entries r) (ce_identifier n)) else n)"
      using e new(6) by auto
    show ?thesis
    proof (cases "ce_identifier n \<in> set (df_unchanged (ca_diff c))")
      case True
      with unchanged_entry[of "ce_identifier n" "rg_entries r" new] new(5) n(2) show ?thesis by auto
    next
      case False
      with n make_diff_ids(1,3)[of "rg_entries r" new] new(5) show ?thesis by auto
    qed
  qed
  with new assms(2) show ?thesis by (auto simp: registry_inv_def)
qed

lemma publish_effect:
  assumes "publish candidate reviewed r = (Inr s, r')"
  shows "rg_pending r = Some candidate \<and> ca_base_version candidate = rg_version r
    \<and> (\<exists>ids. reviewed = VTuple (map VStr ids) \<and> set ids = set (df_added (ca_diff candidate) @ df_changed (ca_diff candidate)))
    \<and> rg_version r' = ca_version candidate \<and> rg_pending r' = None \<and> rg_tickets r' = rg_tickets r
    \<and> rg_entries r' = map (\<lambda>e. if ce_identifier e \<in> set (df_added (ca_diff candidate) @ df_changed (ca_diff candidate))
        then e\<lparr>ce_reviewed := True\<rparr> else e) (ca_entries candidate)"
proof -
  have "vs = map VStr ids" if "str_items vs = Some ids" for vs ids
    using that
  proof (induction vs arbitrary: ids)
    case (Cons v vs)
    then show ?case by (cases v) auto
  qed simp
  then show ?thesis
    using assms by (auto simp: publish_def Let_def split: pyv.splits option.splits if_splits)
qed

lemma publish_inv:
  assumes "publish candidate reviewed r = (y, r')" and "registry_inv r"
  shows "registry_inv r'"
proof (cases y)
  case (Inl e)
  then have "r' = r"
    using assms(1) by (auto simp: publish_def Let_def split: pyv.splits option.splits if_splits)
  with assms(2) show ?thesis by simp
next
  case (Inr s)
  note eff = publish_effect[OF assms(1)[unfolded Inr]]
  have "list_all ce_reviewed (rg_entries r')"
    using eff assms(2) by (auto simp: registry_inv_def list_all_iff)
  with eff assms(2) show ?thesis by (auto simp: registry_inv_def)
qed

lemma registry_reach_inv: "registry_reach dumps sha256 r \<Longrightarrow> registry_inv r"
proof (induction rule: registry_reach.induct)
  case registry_start
  show ?case by (simp add: registry_inv_def registry_init_def)
qed (blast intro: propose_inv publish_inv)+

text \<open>Nothing enters the published catalog without review. In every state the registry can reach,
  all current entries are reviewed; and a publication succeeds only for the pending candidate, made
  on the current version, with a review of exactly its added and changed identifiers, and never
  lowers the version.\<close>

theorem publication_reviewed:
  assumes "registry_reach dumps sha256 r" and "publish candidate reviewed r = (Inr s, r')"
  shows "list_all ce_reviewed (rg_entries r) \<and> list_all ce_reviewed (rg_entries r')
    \<and> rg_pending r = Some candidate \<and> rg_version r \<le> rg_version r' \<and> s = (rg_version r', rg_entries r')
    \<and> (\<exists>ids. reviewed = VTuple (map VStr ids) \<and> set ids = set (df_added (ca_diff candidate) @ df_changed (ca_diff candidate)))
    \<and> (\<forall>e \<in> set (rg_entries r'). ce_identifier e \<in> set (df_added (ca_diff candidate) @ df_changed (ca_diff candidate))
        \<or> e \<in> set (rg_entries r))"
proof -
  have inv: "registry_inv r" "registry_inv r'"
    using registry_reach_inv assms registry_publish by blast+
  note eff = publish_effect[OF assms(2)]
  have "s = (rg_version r', rg_entries r')"
    using assms(2) by (auto simp: publish_def Let_def split: pyv.splits option.splits if_splits)
  with eff inv show ?thesis by (auto simp: registry_inv_def)
qed

definition sample_stock :: inventory where
  "sample_stock = \<lparr>iv_capabilities = [make_item ''menus'' (VDict [(''id'', VStr ''a''), (''title'', VStr ''t'')])],
     iv_state = VProxy [], iv_state_provenance = ''fixture:state''\<rparr>"

definition sample_proposal :: "(string + catalog_candidate) \<times> registry" where
  "sample_proposal = propose (\<lambda>_. Some ''text'') (\<lambda>t. t) sample_stock (VInt 1) registry_init"

definition sample_candidate :: catalog_candidate where
  "sample_candidate = (case fst sample_proposal of Inr c \<Rightarrow> c)"

theorem publication_reviewed_witness:
  "\<exists>s r'. publish sample_candidate (VTuple [VStr ''a'']) (snd sample_proposal) = (Inr s, r')
    \<and> list_all ce_reviewed (rg_entries r') \<and> rg_version r' = 2"
proof -
  let ?p = "publish sample_candidate (VTuple [VStr ''a'']) (snd sample_proposal)"
  have "map_sum id fst (fst ?p) = Inr 2" "rg_version (snd ?p) = 2" by code_simp+
  then obtain s where s: "?p = (Inr s, snd ?p)" by (cases ?p; cases "fst ?p") auto
  have "registry_reach (\<lambda>_. Some ''text'') (\<lambda>t. t) (snd sample_proposal)"
    using registry_propose[OF registry_start, of "\<lambda>_. Some ''text''" "\<lambda>t. t" sample_stock "VInt 1"
        "fst sample_proposal" "snd sample_proposal"] by (simp add: sample_proposal_def)
  from publication_reviewed[OF this s] s \<open>rg_version (snd ?p) = 2\<close> show ?thesis by blast
qed

end
