(* ===== verification/Voice_Candidates.thy ===== *)
theory Voice_Candidates
  imports Py_Prelude
begin

text \<open>
  Synthetic voice candidates and the cloning workflow of \<open>src/runtime/voice_candidates.py\<close> and
  \<open>src/runtime/voice_cloning.py\<close>. The classes are records whose constructors check what the source's
  \<open>__post_init__\<close> checks; the type tests of parsed fields hold by typing here. A \<open>ValueError\<close> is \<open>Inl\<close>
  of its message. A frozen set of sample identifiers is a finite set given by the list of its
  elements; the empty identifiers its constructor refuses are checked.
\<close>

section \<open>Candidates\<close>

datatype authority_state = SyntheticAuthorized | AuthorityDenied | AuthorityUnknown

datatype quality_state = SyntheticAccepted | QualityRejected | QualityIncomplete | QualityUnknown

definition rejection_reasons :: "string list" where
  "rejection_reasons = [''authority-missing'', ''authority-unknown'', ''authority-denied'', ''quality-missing'',
     ''quality-unknown'', ''quality-rejected'', ''quality-incomplete'']"

text \<open>A version with the versions it descends from, the nearest first.\<close>

datatype candidate_version = CandidateVersion string int "candidate_version option"

fun cv_id :: "candidate_version \<Rightarrow> string" where
  "cv_id (CandidateVersion i v p) = i"

fun cv_version :: "candidate_version \<Rightarrow> int" where
  "cv_version (CandidateVersion i v p) = v"

fun cv_parent :: "candidate_version \<Rightarrow> candidate_version option" where
  "cv_parent (CandidateVersion i v p) = p"

definition candidate_version_init :: "pyv \<Rightarrow> pyv \<Rightarrow> candidate_version option \<Rightarrow> string + candidate_version" where
  "candidate_version_init candidate_id version parent =
    (case candidate_id of
       VStr i \<Rightarrow>
         (if i = [] then Inl ''candidate ID must be nonempty text''
          else case version of
            VInt v \<Rightarrow>
              (if v < 1 then Inl ''candidate version must be a positive integer''
               else case parent of
                 None \<Rightarrow> Inr (CandidateVersion i v None)
               | Some p \<Rightarrow>
                   (if cv_id p \<noteq> i \<or> cv_version p \<ge> v
                    then Inl ''candidate lineage contradicts identity or version order''
                    else Inr (CandidateVersion i v (Some p))))
          | _ \<Rightarrow> Inl ''candidate version must be a positive integer'')
     | _ \<Rightarrow> Inl ''candidate ID must be nonempty text'')"

record provenance =
  pv_reference_id :: string
  pv_digest :: string

definition provenance_init :: "pyv \<Rightarrow> pyv \<Rightarrow> string + provenance" where
  "provenance_init reference_id digest =
    (case (reference_id, digest) of
       (VStr r, VStr d) \<Rightarrow>
         (if r = [] \<or> d = [] then Inl ''provenance requires nonempty reference and digest''
          else Inr \<lparr>pv_reference_id = r, pv_digest = d\<rparr>)
     | _ \<Rightarrow> Inl ''provenance requires nonempty reference and digest'')"

record candidate_binding =
  cb_version :: candidate_version
  cb_provenance :: provenance

record authority_evidence =
  ae_binding :: candidate_binding
  ae_state :: authority_state

record quality_evidence =
  qe_binding :: candidate_binding
  qe_state :: quality_state

datatype candidate_result = VoiceCandidate candidate_binding | CandidateRejection "string list"

definition candidate_rejection :: "string list \<Rightarrow> string + candidate_result" where
  "candidate_rejection reasons =
    (if reasons = [] \<or> \<not> set reasons \<subseteq> set rejection_reasons then Inl ''rejection requires immutable known reasons''
     else Inr (CandidateRejection reasons))"

text \<open>The request is its binding, which is the only field of \<open>CandidateRequest\<close>.\<close>

definition match_binding :: "candidate_binding \<Rightarrow> candidate_binding option \<Rightarrow> string option" where
  "match_binding request evidence = (case evidence of
     None \<Rightarrow> None
   | Some b \<Rightarrow> if request \<noteq> b then Some ''candidate evidence binding contradicts request'' else None)"

definition represent_candidate ::
  "candidate_binding \<Rightarrow> authority_evidence option \<Rightarrow> quality_evidence option \<Rightarrow> string + candidate_result" where
  "represent_candidate request authority quality =
    (case first_error [match_binding request (map_option ae_binding authority),
         match_binding request (map_option qe_binding quality)] of
       Some e \<Rightarrow> Inl e
     | None \<Rightarrow>
     case authority of
       None \<Rightarrow> candidate_rejection [''authority-missing'']
     | Some a \<Rightarrow>
     if ae_state a = AuthorityUnknown then candidate_rejection [''authority-unknown'']
     else if ae_state a = AuthorityDenied then candidate_rejection [''authority-denied'']
     else case quality of
       None \<Rightarrow> candidate_rejection [''quality-missing'']
     | Some q \<Rightarrow>
     if qe_state q = QualityUnknown then candidate_rejection [''quality-unknown'']
     else if qe_state q = QualityRejected then candidate_rejection [''quality-rejected'']
     else if qe_state q = QualityIncomplete then candidate_rejection [''quality-incomplete'']
     else Inr (VoiceCandidate request))"

section \<open>The cloning workflow\<close>

record synthetic_descriptor =
  sd_binding :: candidate_binding
  sd_required :: "string list"
  sd_supplied :: "string list"

definition sample_ids :: "string list \<Rightarrow> string \<Rightarrow> string + string list" where
  "sample_ids value name =
    (if [] \<in> set value then Inl (name @ '' requires a frozen set of nonempty sample IDs'') else Inr value)"

definition synthetic_descriptor_init ::
  "candidate_binding \<Rightarrow> string list \<Rightarrow> string list \<Rightarrow> string + synthetic_descriptor" where
  "synthetic_descriptor_init binding required supplied =
    bind_res (sample_ids required ''required samples'') (\<lambda>r.
    bind_res (sample_ids supplied ''supplied samples'') (\<lambda>s.
      Inr \<lparr>sd_binding = binding, sd_required = r, sd_supplied = s\<rparr>))"

definition missing_sample_ids :: "synthetic_descriptor \<Rightarrow> string list" where
  "missing_sample_ids d = sort (remdups (filter (\<lambda>i. i \<notin> set (sd_supplied d)) (sd_required d)))"

record cloning_request =
  cr_request :: candidate_binding
  cr_descriptor :: synthetic_descriptor

definition cloning_request_init :: "candidate_binding \<Rightarrow> synthetic_descriptor \<Rightarrow> string + cloning_request" where
  "cloning_request_init request descriptor =
    (if request \<noteq> sd_binding descriptor then Inl ''descriptor binding contradicts request''
     else Inr \<lparr>cr_request = request, cr_descriptor = descriptor\<rparr>)"

datatype failure_reason = EvaluatorUnavailable | EvaluatorInvalidResponse

datatype evaluator_result =
    QualityDecision cloning_request quality_evidence
  | EvaluatorFailure cloning_request failure_reason

fun er_request :: "evaluator_result \<Rightarrow> cloning_request" where
  "er_request (QualityDecision r e) = r"
| "er_request (EvaluatorFailure r x) = r"

definition quality_decision_init :: "cloning_request \<Rightarrow> quality_evidence \<Rightarrow> string + evaluator_result" where
  "quality_decision_init request evidence =
    (if cr_request request \<noteq> qe_binding evidence then Inl ''quality decision binding contradicts request''
     else Inr (QualityDecision request evidence))"

datatype cloning_outcome =
    CloningCandidate candidate_result
  | MissingSamples cloning_request "string list"
  | CloningFailure evaluator_result

definition missing_samples :: "cloning_request \<Rightarrow> string list \<Rightarrow> string + cloning_outcome" where
  "missing_samples request ids =
    (if ids = [] \<or> [] \<in> set ids then Inl ''missing samples require a nonempty immutable tuple''
     else if ids \<noteq> missing_sample_ids (cr_descriptor request)
       then Inl ''missing samples must equal request-derived missing IDs''
     else Inr (MissingSamples request ids))"

definition parse_workflow_inputs ::
  "cloning_request \<Rightarrow> authority_evidence option \<Rightarrow> evaluator_result option \<Rightarrow> string option" where
  "parse_workflow_inputs request authority evaluator =
    first_error
     [case authority of None \<Rightarrow> None | Some a \<Rightarrow>
        if ae_binding a \<noteq> cr_request request then Some ''authority binding contradicts request'' else None,
      case evaluator of None \<Rightarrow> None | Some e \<Rightarrow>
        if er_request e \<noteq> request then Some ''evaluator result contradicts request'' else None]"

definition evaluate_cloning_request ::
  "cloning_request \<Rightarrow> authority_evidence option \<Rightarrow> evaluator_result option \<Rightarrow> string + cloning_outcome" where
  "evaluate_cloning_request request authority evaluator =
    (case parse_workflow_inputs request authority evaluator of
       Some e \<Rightarrow> Inl e
     | None \<Rightarrow>
         (let missing = missing_sample_ids (cr_descriptor request) in
          if missing \<noteq> [] then missing_samples request missing
          else case evaluator of
            Some (EvaluatorFailure r x) \<Rightarrow> Inr (CloningFailure (EvaluatorFailure r x))
          | _ \<Rightarrow>
              (let quality = (case evaluator of Some (QualityDecision r e) \<Rightarrow> Some e | _ \<Rightarrow> None)
               in bind_res (represent_candidate (cr_request request) authority quality)
                    (\<lambda>c. Inr (CloningCandidate c)))))"

section \<open>Eligibility\<close>

lemma represent_candidate_iff:
  "represent_candidate request authority quality = Inr (VoiceCandidate b) \<longleftrightarrow> b = request
     \<and> (\<exists>a. authority = Some a \<and> ae_binding a = request \<and> ae_state a = SyntheticAuthorized)
     \<and> (\<exists>q. quality = Some q \<and> qe_binding q = request \<and> qe_state q = SyntheticAccepted)"
  by (cases authority; cases quality; cases "ae_state (the authority)"; cases "qe_state (the quality)")
    (auto simp: represent_candidate_def match_binding_def candidate_rejection_def rejection_reasons_def)

lemma represent_candidate_result:
  assumes "represent_candidate request authority quality = Inr (CandidateRejection rs)"
  shows "\<exists>r \<in> set rejection_reasons. rs = [r]"
  using assms
  by (auto simp: represent_candidate_def candidate_rejection_def rejection_reasons_def
      split: option.splits if_splits)

lemma missing_sample_ids_set: "set (missing_sample_ids d) = set (sd_required d) - set (sd_supplied d)"
  by (auto simp: missing_sample_ids_def)

text \<open>Descriptors, requests and decisions as their constructors admit them.\<close>

definition descriptor_wf :: "synthetic_descriptor \<Rightarrow> bool" where
  "descriptor_wf d \<longleftrightarrow> synthetic_descriptor_init (sd_binding d) (sd_required d) (sd_supplied d) = Inr d"

definition complete :: "cloning_request \<Rightarrow> bool" where
  "complete request \<longleftrightarrow> set (sd_required (cr_descriptor request)) \<subseteq> set (sd_supplied (cr_descriptor request))"

lemma complete_iff: "complete request \<longleftrightarrow> missing_sample_ids (cr_descriptor request) = []"
  using missing_sample_ids_set[of "cr_descriptor request"] by (auto simp: complete_def simp flip: set_empty)

lemma incomplete_outcome:
  assumes "descriptor_wf (cr_descriptor request)" and "\<not> complete request"
    and "parse_workflow_inputs request authority evaluator = None"
  shows "evaluate_cloning_request request authority evaluator
    = Inr (MissingSamples request (missing_sample_ids (cr_descriptor request)))"
proof -
  have "[] \<notin> set (sd_required (cr_descriptor request))"
    using assms(1) by (auto simp: descriptor_wf_def synthetic_descriptor_init_def sample_ids_def split: if_splits)
  then have "[] \<notin> set (missing_sample_ids (cr_descriptor request))" by (auto simp: missing_sample_ids_set)
  with assms(2,3) show ?thesis
    by (auto simp: evaluate_cloning_request_def missing_samples_def Let_def complete_iff)
qed

lemma decision_outcome:
  assumes "complete request" and parsed: "parse_workflow_inputs request authority evaluator = None"
    and quality: "evaluator = map_option (QualityDecision request) quality"
    and bound: "\<forall>q. quality = Some q \<longrightarrow> qe_binding q = cr_request request"
  shows "\<exists>c. represent_candidate (cr_request request) authority quality = Inr c
    \<and> evaluate_cloning_request request authority evaluator = Inr (CloningCandidate c)"
proof -
  have "match_binding (cr_request request) (map_option ae_binding authority) = None"
    using parsed by (auto simp: parse_workflow_inputs_def match_binding_def split: option.splits if_splits)
  moreover have "match_binding (cr_request request) (map_option qe_binding quality) = None"
    using bound by (auto simp: match_binding_def split: option.splits)
  ultimately have "\<exists>c. represent_candidate (cr_request request) authority quality = Inr c"
    by (cases authority; cases quality)
      (simp_all add: represent_candidate_def candidate_rejection_def rejection_reasons_def)
  then obtain c where "represent_candidate (cr_request request) authority quality = Inr c" by blast
  moreover from this have "evaluate_cloning_request request authority evaluator = Inr (CloningCandidate c)"
    using assms by (cases quality) (simp_all add: evaluate_cloning_request_def complete_iff)
  ultimately show ?thesis by blast
qed

text \<open>The workflow is total and exact. For a well-formed request and evidence bound to it, the
  evaluation answers: the exact sorted list of missing samples when any required sample is missing,
  else the evaluator's failure when there is one, and a candidate only when every required sample
  is supplied and both the authority and the quality evidence for this very binding are positive;
  otherwise one of the known rejection reasons.\<close>

theorem cloning_workflow_outcome:
  assumes "descriptor_wf (cr_descriptor request)"
    and parsed: "parse_workflow_inputs request authority evaluator = None"
    and bound: "\<forall>r e. evaluator = Some (QualityDecision r e) \<longrightarrow> qe_binding e = cr_request request"
  shows "\<exists>out. evaluate_cloning_request request authority evaluator = Inr out \<and>
    (case out of
       MissingSamples r ids \<Rightarrow> r = request \<and> sorted ids \<and> distinct ids \<and> ids \<noteq> []
         \<and> set ids = set (sd_required (cr_descriptor request)) - set (sd_supplied (cr_descriptor request))
     | CloningFailure e \<Rightarrow> evaluator = Some e \<and> complete request
     | CloningCandidate (VoiceCandidate b) \<Rightarrow> b = cr_request request \<and> complete request
         \<and> (\<exists>a. authority = Some a \<and> ae_binding a = b \<and> ae_state a = SyntheticAuthorized)
         \<and> (\<exists>q. evaluator = Some (QualityDecision request q) \<and> qe_binding q = b \<and> qe_state q = SyntheticAccepted)
     | CloningCandidate (CandidateRejection rs) \<Rightarrow> \<exists>r \<in> set rejection_reasons. rs = [r])"
proof (cases "complete request")
  case False
  then have "missing_sample_ids (cr_descriptor request) \<noteq> []" by (simp add: complete_iff)
  with incomplete_outcome[OF assms(1) False parsed] show ?thesis
    by (simp add: missing_sample_ids_set) (simp add: missing_sample_ids_def)
next
  case True
  show ?thesis
  proof (cases "\<exists>r x. evaluator = Some (EvaluatorFailure r x)")
    case fails: True
    then show ?thesis
      using True parsed by (auto simp: evaluate_cloning_request_def complete_iff)
  next
    case False
    then obtain quality where q: "evaluator = map_option (QualityDecision request) quality"
    proof (cases evaluator)
      case (Some e)
      then obtain r x where "evaluator = Some (QualityDecision r x)" using False by (cases e) auto
      with parsed that[of "Some x"] show ?thesis by (auto simp: parse_workflow_inputs_def split: if_splits)
    qed auto
    then obtain c where c: "represent_candidate (cr_request request) authority quality = Inr c"
        "evaluate_cloning_request request authority evaluator = Inr (CloningCandidate c)"
      using decision_outcome[OF True parsed q] bound by auto
    then show ?thesis
      using True q represent_candidate_iff[of "cr_request request" authority quality] represent_candidate_result[of "cr_request request" authority quality]
      by (cases c) auto
  qed
qed

definition sample_binding :: candidate_binding where
  "sample_binding = \<lparr>cb_version = CandidateVersion ''v'' 1 None,
     cb_provenance = \<lparr>pv_reference_id = ''r'', pv_digest = ''d''\<rparr>\<rparr>"

definition sample_request :: "string list \<Rightarrow> cloning_request" where
  "sample_request supplied = \<lparr>cr_request = sample_binding,
     cr_descriptor = \<lparr>sd_binding = sample_binding, sd_required = [''b'', ''a''], sd_supplied = supplied\<rparr>\<rparr>"

theorem cloning_workflow_outcome_witness:
  "\<exists>out. evaluate_cloning_request (sample_request []) None None = Inr out \<and> out = MissingSamples (sample_request []) [''a'', ''b'']"
proof -
  have "descriptor_wf (cr_descriptor (sample_request []))" by code_simp
  moreover have "parse_workflow_inputs (sample_request []) None None = None" by code_simp
  ultimately have "\<exists>out. evaluate_cloning_request (sample_request []) None None = Inr out"
    using cloning_workflow_outcome[of "sample_request []" None None] by blast
  moreover have "evaluate_cloning_request (sample_request []) None None = Inr (MissingSamples (sample_request []) [''a'', ''b''])"
    by code_simp
  ultimately show ?thesis by simp
qed

text \<open>A version line descends: every ancestor of a version its constructor admits has the same
  identifier and a smaller version.\<close>

fun ancestors :: "candidate_version \<Rightarrow> candidate_version list" where
  "ancestors (CandidateVersion i v None) = []"
| "ancestors (CandidateVersion i v (Some p)) = p # ancestors p"

inductive admitted :: "candidate_version \<Rightarrow> bool" where
  admitted_root: "candidate_version_init i v None = Inr c \<Longrightarrow> admitted c"
| admitted_child: "admitted p \<Longrightarrow> candidate_version_init i v (Some p) = Inr c \<Longrightarrow> admitted c"

lemma admitted_positive: "admitted c \<Longrightarrow> 1 \<le> cv_version c"
  by (induction rule: admitted.induct) (auto simp: candidate_version_init_def split: pyv.splits if_splits)

lemma admitted_lineage:
  "admitted c \<Longrightarrow> \<forall>a \<in> set (ancestors c). cv_id a = cv_id c \<and> cv_version a < cv_version c"
proof (induction rule: admitted.induct)
  case (admitted_root i v c)
  then show ?case by (auto simp: candidate_version_init_def split: pyv.splits if_splits)
next
  case (admitted_child p i v c)
  then obtain n m where "c = CandidateVersion n m (Some p)" "cv_id p = n" "cv_version p < m"
    by (auto simp: candidate_version_init_def split: pyv.splits if_splits)
  with admitted_child.IH show ?case by fastforce
qed

end
