(* ===== verification/Voice_Session.thy ===== *)
theory Voice_Session
  imports Py_Prelude
begin

text \<open>
  Admission of voice sessions, \<open>SessionOwner\<close> of \<open>src/runtime/voice/session.py\<close>. A method is a function
  from the arguments and the state to a result and the state it leaves; the lock makes each one
  atomic, so that an interleaving of callers is a sequence of calls. Generations are Python integers;
  an argument of another type is a \<^typ>\<open>pyv\<close> that is no \<^const>\<open>VInt\<close>.
\<close>

section \<open>The session owner\<close>

datatype owner_state = Idle | Owned | Canceling | Faulted

record session_owner =
  so_session_id :: string
  so_generation :: int
  so_owner :: "int option"
  so_state :: owner_state

datatype session_error = InvalidMode | InvalidGeneration | Busy | SessionFaulted | StaleOwner

definition session_init :: "string \<Rightarrow> session_owner" where
  "session_init i = \<lparr>so_session_id = i, so_generation = 0, so_owner = None, so_state = Idle\<rparr>"

definition session_begin :: "pyv \<Rightarrow> session_owner \<Rightarrow> (session_error + int) \<times> session_owner" where
  "session_begin mode s =
    (if mode \<notin> {VStr ''command'', VStr ''dictation'', VStr ''conversation''} then (Inl InvalidMode, s)
     else if so_state s = Faulted then (Inl SessionFaulted, s)
     else if so_state s \<noteq> Idle then (Inl Busy, s)
     else
       (let g = so_generation s + 1
        in (Inr g, s\<lparr>so_generation := g, so_owner := Some g, so_state := Owned\<rparr>)))"

definition positive :: "pyv \<Rightarrow> int option" where
  "positive v = (case v of VInt n \<Rightarrow> (if n \<le> 0 then None else Some n) | _ \<Rightarrow> None)"

text \<open>\<open>generation=None\<close> cancels globally.\<close>

definition session_cancel :: "pyv \<Rightarrow> session_owner \<Rightarrow> (session_error + int) \<times> session_owner" where
  "session_cancel generation s =
    (if generation \<noteq> VNone \<and> positive generation = None then (Inl InvalidGeneration, s)
     else if generation \<noteq> VNone \<and> positive generation \<noteq> so_owner s then (Inr (so_generation s), s)
     else
       (let g = so_generation s + 1
        in (Inr g, s\<lparr>so_generation := g, so_state := (if so_state s = Owned then Canceling else so_state s)\<rparr>)))"

definition session_accepts :: "pyv \<Rightarrow> session_owner \<Rightarrow> bool" where
  "session_accepts generation s =
    (case positive generation of None \<Rightarrow> False | Some g \<Rightarrow> so_state s = Owned \<and> so_owner s = Some g)"

definition session_release :: "pyv \<Rightarrow> pyv \<Rightarrow> session_owner \<Rightarrow> session_error option \<times> session_owner" where
  "session_release generation cleaned s =
    (case (positive generation, cleaned) of
       (Some g, VBool clean) \<Rightarrow>
         (if so_state s = Faulted then (Some SessionFaulted, s)
          else if so_owner s \<noteq> Some g then (Some StaleOwner, s)
          else if \<not> clean then (None, s\<lparr>so_state := Faulted\<rparr>)
          else (None, s\<lparr>so_owner := None, so_state := Idle\<rparr>))
     | _ \<Rightarrow> (Some InvalidGeneration, s))"

section \<open>Calls and their order\<close>

datatype session_call = Begin pyv | Cancel pyv | Release pyv pyv

fun session_step :: "session_call \<Rightarrow> session_owner \<Rightarrow> session_owner" where
  "session_step (Begin mode) s = snd (session_begin mode s)"
| "session_step (Cancel g) s = snd (session_cancel g s)"
| "session_step (Release g c) s = snd (session_release g c s)"

definition session_run :: "session_call list \<Rightarrow> session_owner \<Rightarrow> session_owner" where
  "session_run cs s = fold session_step cs s"

lemma session_run_simps [simp]:
  "session_run [] s = s" "session_run (c # cs) s = session_run cs (session_step c s)"
  "session_run (as @ bs) s = session_run bs (session_run as s)"
  by (simp_all add: session_run_def)

text \<open>An owner exists exactly while resources are held, and its generation is not in the future; a
  cancelled owner is older than the generation.\<close>

definition session_inv :: "session_owner \<Rightarrow> bool" where
  "session_inv s \<longleftrightarrow> 0 \<le> so_generation s
     \<and> (case so_owner s of None \<Rightarrow> so_state s = Idle | Some g \<Rightarrow> so_state s \<noteq> Idle \<and> 0 < g \<and> g \<le> so_generation s)"

lemma positive_eq_Some [simp]: "positive v = Some g \<longleftrightarrow> v = VInt g \<and> 0 < g"
  by (auto simp: positive_def split: pyv.splits)

lemma session_step_inv: "session_inv s \<Longrightarrow> session_inv (session_step c s)"
  by (cases c) (auto simp: session_inv_def session_begin_def session_cancel_def session_release_def Let_def
      split: option.splits pyv.splits)

lemma session_run_inv: "session_inv s \<Longrightarrow> session_inv (session_run cs s)"
  by (induction cs arbitrary: s) (auto intro: session_step_inv)

lemma session_step_generation: "so_generation s \<le> so_generation (session_step c s)"
  by (cases c) (auto simp: session_begin_def session_cancel_def session_release_def Let_def
      split: option.splits pyv.splits)

lemma session_run_generation: "so_generation s \<le> so_generation (session_run cs s)"
proof (induction cs arbitrary: s)
  case (Cons c cs)
  show ?case using session_step_generation[of s c] Cons.IH[of "session_step c s"] by simp
qed simp

lemma session_step_faulted:
  "so_state s = Faulted \<Longrightarrow> so_state (session_step c s) = Faulted \<and> so_owner (session_step c s) = so_owner s"
  by (cases c) (auto simp: session_begin_def session_cancel_def session_release_def Let_def
      split: option.splits pyv.splits)

lemma session_run_faulted:
  "so_state s = Faulted \<Longrightarrow> so_state (session_run cs s) = Faulted \<and> so_owner (session_run cs s) = so_owner s"
  by (induction cs arbitrary: s) (use session_step_faulted in auto)

text \<open>Once a generation is not the accepted owner any more, it never is again.\<close>

definition spent :: "int \<Rightarrow> session_owner \<Rightarrow> bool" where
  "spent g s \<longleftrightarrow> g \<le> so_generation s \<and> \<not> (so_state s = Owned \<and> so_owner s = Some g)"

lemma session_step_spent: "session_inv s \<Longrightarrow> spent g s \<Longrightarrow> spent g (session_step c s)"
  by (cases c) (auto simp: spent_def session_inv_def session_begin_def session_cancel_def session_release_def Let_def
      split: option.splits pyv.splits if_splits)

lemma session_run_spent: "session_inv s \<Longrightarrow> spent g s \<Longrightarrow> spent g (session_run cs s)"
  by (induction cs arbitrary: s) (auto intro: session_step_inv session_step_spent)

section \<open>Properties\<close>

text \<open>A generation is granted once. In every history of calls, a session that \<open>begin\<close> grants gets a
  generation no earlier \<open>begin\<close> got, is accepted until it is cancelled or released, and once it is
  not accepted any more, no later sequence of calls makes the owner accept it again.\<close>

theorem session_generation_unique:
  assumes "session_begin mode (session_run cs (session_init i)) = (Inr g, s)"
  shows "so_generation (session_run cs (session_init i)) < g \<and> session_accepts (VInt g) s
    \<and> (\<forall>ds es. \<not> session_accepts (VInt g) (session_run ds s) \<longrightarrow> \<not> session_accepts (VInt g) (session_run es (session_run ds s)))
    \<and> (\<forall>ds mode' g' s'. session_begin mode' (session_run ds s) = (Inr g', s') \<longrightarrow> g < g')"
proof -
  let ?s = "session_run cs (session_init i)"
  have inv: "session_inv ?s" by (intro session_run_inv) (simp add: session_inv_def session_init_def)
  have g: "g = so_generation ?s + 1" "s = ?s\<lparr>so_generation := g, so_owner := Some g, so_state := Owned\<rparr>"
    using assms by (auto simp: session_begin_def Let_def split: if_splits)
  then have inv': "session_inv s" using inv by (auto simp: session_inv_def)
  have pos: "0 < g" using inv g(1) by (auto simp: session_inv_def)
  have again: "\<not> session_accepts (VInt g) (session_run es u)"
    if "u = session_run ds s" "\<not> session_accepts (VInt g) u" for ds es u
  proof -
    have "g \<le> so_generation u" using session_run_generation[of s ds] g that(1) by simp
    then have "spent g u" using that(2) pos by (auto simp: spent_def session_accepts_def positive_def)
    from session_run_spent[OF session_run_inv[OF inv', of ds, folded that(1)] this, of es]
    show ?thesis by (auto simp: spent_def session_accepts_def positive_def split: if_splits)
  qed
  have "g < g'" if "session_begin mode' (session_run ds s) = (Inr g', s')" for ds mode' g' s'
    using that session_run_generation[of s ds] g by (auto simp: session_begin_def Let_def split: if_splits)
  with g pos again show ?thesis by (auto simp: session_accepts_def positive_def)
qed

theorem session_generation_unique_witness:
  "\<exists>s. session_begin (VStr ''command'') (session_run [Cancel VNone] (session_init ''s'')) = (Inr 2, s)
    \<and> session_accepts (VInt 2) s"
proof -
  have "fst (session_begin (VStr ''command'') (session_run [Cancel VNone] (session_init ''s''))) = Inr 2"
    by code_simp
  then obtain s where "session_begin (VStr ''command'') (session_run [Cancel VNone] (session_init ''s'')) = (Inr 2, s)"
    by (metis prod.collapse)
  with session_generation_unique[OF this] show ?thesis by blast
qed

text \<open>C13: Unproven cleanup is final. After a release reports that resources were not cleaned, every
  later history leaves the owner faulted: no session begins, no release succeeds, and no generation
  is accepted.\<close>

theorem session_fault_latched:
  assumes "session_release (VInt g) (VBool False) (session_run cs (session_init i)) = (None, s)"
  shows "so_state (session_run ds s) = Faulted \<and> \<not> session_accepts h (session_run ds s)
    \<and> (\<exists>e. fst (session_begin mode (session_run ds s)) = Inl e)
    \<and> fst (session_release h c (session_run ds s)) \<noteq> None"
proof -
  have "so_state s = Faulted"
    using assms by (auto simp: session_release_def split: option.splits if_splits)
  then have f: "so_state (session_run ds s) = Faulted" using session_run_faulted by blast
  then show ?thesis
    by (auto simp: session_accepts_def session_begin_def session_release_def split: option.splits pyv.splits)
qed

theorem session_fault_latched_witness:
  "\<exists>s. session_release (VInt 1) (VBool False) (session_run [Begin (VStr ''command'')] (session_init ''s'')) = (None, s)
    \<and> so_state (session_run [Cancel VNone] s) = Faulted"
proof -
  have "fst (session_release (VInt 1) (VBool False) (session_run [Begin (VStr ''command'')] (session_init ''s''))) = None"
    by code_simp
  then obtain s where "session_release (VInt 1) (VBool False) (session_run [Begin (VStr ''command'')] (session_init ''s'')) = (None, s)"
    by (metis prod.collapse)
  with session_fault_latched[OF this, where ds = "[Cancel VNone]"] show ?thesis by blast
qed

end
