(* ===== verification/Voice_Audio.thy ===== *)
theory Voice_Audio
  imports Py_Prelude "HOL-Library.Word"
begin

text \<open>
  Audio framing and command capture: \<open>PcmFramer\<close> and \<open>EnergyVad\<close> of \<open>src/runtime/voice/pcm.py\<close>, and
  \<open>CommandCapture\<close> of \<open>src/runtime/voice/capture.py\<close>. A byte is an \<open>8 word\<close>, a sample the signed value
  of two of them. The float expression \<open>math.sqrt(energy / 320) / 32768\<close> is the parameter \<open>rms\<close>.
  An operation of the capture notifies its observer at most once; the argument \<open>ok\<close> says whether
  that call returns. A call back from inside the observer meets the flag \<open>cc_notifying\<close>.
\<close>

type_synonym byte = "8 word"

section \<open>Framing\<close>

datatype framer_state = FOpen | FFailed | FFinished

record pcm_framer =
  pf_remainder :: "byte list"
  pf_state :: framer_state

definition framer_init :: pcm_framer where
  "framer_init = \<lparr>pf_remainder = [], pf_state = FOpen\<rparr>"

text \<open>\<open>[combined[index:index + 640] for index in range(0, end, 640)]\<close>\<close>

definition frames_of :: "byte list \<Rightarrow> byte list list" where
  "frames_of combined = map (\<lambda>i. take 640 (drop (640 * i) combined)) [0..<length combined div 640]"

text \<open>The argument is \<open>None\<close> when it is no \<open>bytes\<close> object.\<close>

definition framer_feed :: "byte list option \<Rightarrow> pcm_framer \<Rightarrow> (string + byte list list) \<times> pcm_framer" where
  "framer_feed chunk f =
    (if pf_state f \<noteq> FOpen then (Inl ''PCM stream is closed'', f)
     else case chunk of
       None \<Rightarrow> (Inl ''PCM chunk must be bounded immutable bytes'', f\<lparr>pf_remainder := [], pf_state := FFailed\<rparr>)
     | Some bs \<Rightarrow>
         (if int (length bs) > 65536
          then (Inl ''PCM chunk must be bounded immutable bytes'', f\<lparr>pf_remainder := [], pf_state := FFailed\<rparr>)
          else
            (let combined = pf_remainder f @ bs; last = length combined div 640 * 640
             in (Inr (frames_of combined), f\<lparr>pf_remainder := drop last combined\<rparr>))))"

definition framer_finish :: "pcm_framer \<Rightarrow> string option \<times> pcm_framer" where
  "framer_finish f =
    (if pf_state f = FFailed then (Some ''PCM stream failed'', f)
     else if pf_remainder f \<noteq> []
       then (Some ''PCM stream ends with an incomplete frame'', f\<lparr>pf_remainder := [], pf_state := FFailed\<rparr>)
     else (None, f\<lparr>pf_state := FFinished\<rparr>))"

fun feed_all :: "byte list list \<Rightarrow> pcm_framer \<Rightarrow> (string + byte list list) \<times> pcm_framer" where
  "feed_all [] f = (Inr [], f)"
| "feed_all (c # cs) f =
    (case framer_feed (Some c) f of
       (Inl e, f) \<Rightarrow> (Inl e, f)
     | (Inr fs, f) \<Rightarrow> (case feed_all cs f of (Inl e, f) \<Rightarrow> (Inl e, f) | (Inr gs, f) \<Rightarrow> (Inr (fs @ gs), f)))"

section \<open>Energy\<close>

definition sample :: "byte \<Rightarrow> byte \<Rightarrow> int" where
  "sample lo hi = sint (word_cat hi lo :: 16 word)"

fun samples :: "byte list \<Rightarrow> int list" where
  "samples (lo # hi # rest) = sample lo hi # samples rest"
| "samples _ = []"

definition energy :: "byte list \<Rightarrow> int" where
  "energy pcm = sum_list (map (\<lambda>s. s * s) (samples pcm))"

record energy_vad =
  ev_threshold :: pyv

definition energy_vad_init :: "pyv \<Rightarrow> string + energy_vad" where
  "energy_vad_init threshold =
    (if (case threshold of VInt i \<Rightarrow> 0 < i \<and> i < 1 | VFloat (Fin r) \<Rightarrow> 0 < r \<and> r < 1 | _ \<Rightarrow> False)
     then Inr \<lparr>ev_threshold = threshold\<rparr>
     else Inl ''RMS threshold must be finite and strictly between zero and one'')"

definition is_speech :: "(int \<Rightarrow> rat) \<Rightarrow> energy_vad \<Rightarrow> byte list option \<Rightarrow> string + bool" where
  "is_speech rms v pcm =
    (case pcm of
       Some bs \<Rightarrow>
         (if length bs \<noteq> 640 then Inl ''VAD requires one immutable 20 ms s16le frame''
          else Inr (case ev_threshold v of VFloat (Fin r) \<Rightarrow> r \<le> rms (energy bs) | VInt i \<Rightarrow> of_int i \<le> rms (energy bs) | _ \<Rightarrow> False))
     | None \<Rightarrow> Inl ''VAD requires one immutable 20 ms s16le frame'')"

section \<open>Command capture\<close>

record frame =
  fr_pcm :: "byte list"
  fr_speech :: bool

definition frame_init :: "byte list option \<Rightarrow> pyv \<Rightarrow> string + frame" where
  "frame_init pcm speech =
    (case pcm of
       Some bs \<Rightarrow>
         (if bs = [] \<or> length bs mod 32 \<noteq> 0 then Inl ''PCM must be nonempty whole milliseconds of bytes''
          else case speech of
            VBool b \<Rightarrow> Inr \<lparr>fr_pcm = bs, fr_speech = b\<rparr>
          | _ \<Rightarrow> Inl ''speech must be boolean'')
     | None \<Rightarrow> Inl ''PCM must be nonempty whole milliseconds of bytes'')"

record capture_config =
  cc_max_ms :: nat
  cc_initial_silence_ms :: nat
  cc_short_silence_ms :: nat
  cc_long_silence_ms :: nat
  cc_long_utterance_ms :: nat

definition pos_nat :: "pyv \<Rightarrow> nat option" where
  "pos_nat v = (case v of VInt i \<Rightarrow> (if i \<le> 0 then None else Some (nat i)) | _ \<Rightarrow> None)"

definition capture_config_init :: "pyv \<Rightarrow> pyv \<Rightarrow> pyv \<Rightarrow> pyv \<Rightarrow> pyv \<Rightarrow> string + capture_config" where
  "capture_config_init max_ms initial short long utterance =
    (case (pos_nat max_ms, pos_nat initial, pos_nat short, pos_nat long, pos_nat utterance) of
       (Some m, Some i, Some s, Some l, Some u) \<Rightarrow>
         (if m < i \<or> m < s \<or> m < l \<or> m < u then Inl ''capture bounds cannot exceed max_ms''
          else Inr \<lparr>cc_max_ms = m, cc_initial_silence_ms = i, cc_short_silence_ms = s,
            cc_long_silence_ms = l, cc_long_utterance_ms = u\<rparr>)
     | _ \<Rightarrow> Inl ''capture bounds must be positive integers'')"

datatype capture_state = CIdle | CRecording | CProcessing

record capture_result =
  cr_status :: string
  cr_reason :: string
  cr_token :: "string option"
  cr_audio :: "byte list"

record command_capture =
  cc_config :: capture_config
  cc_state :: capture_state
  cc_token :: "string option"
  cc_buffer :: "byte list"
  cc_speech_ms :: nat
  cc_silence_ms :: nat
  cc_heard_speech :: bool
  cc_notifying :: bool

definition capture_init :: "capture_config \<Rightarrow> command_capture" where
  "capture_init config = \<lparr>cc_config = config, cc_state = CIdle, cc_token = None, cc_buffer = [],
     cc_speech_ms = 0, cc_silence_ms = 0, cc_heard_speech = False, cc_notifying = False\<rparr>"

definition state_name :: "capture_state \<Rightarrow> string" where
  "state_name s = (case s of CIdle \<Rightarrow> ''idle'' | CRecording \<Rightarrow> ''recording'' | CProcessing \<Rightarrow> ''processing'')"

definition plain_result :: "string \<Rightarrow> string \<Rightarrow> string option \<Rightarrow> capture_result" where
  "plain_result status reason token = \<lparr>cr_status = status, cr_reason = reason, cr_token = token, cr_audio = []\<rparr>"

definition capture_result_of :: "command_capture \<Rightarrow> string \<Rightarrow> string \<Rightarrow> byte list \<Rightarrow> capture_result" where
  "capture_result_of c status reason audio =
    \<lparr>cr_status = status, cr_reason = reason, cr_token = cc_token c, cr_audio = audio\<rparr>"

definition discard :: "command_capture \<Rightarrow> command_capture" where
  "discard c = c\<lparr>cc_state := CIdle, cc_token := None, cc_buffer := [], cc_speech_ms := 0, cc_silence_ms := 0,
     cc_heard_speech := False\<rparr>"

definition blocked :: "command_capture \<Rightarrow> string \<Rightarrow> capture_result" where
  "blocked c reason = capture_result_of c ''blocked'' reason []"

text \<open>\<open>_observed\<close>: the result when the observer accepts the notice, else a discarded capture.\<close>

definition observed :: "bool \<Rightarrow> capture_result \<Rightarrow> command_capture \<Rightarrow> capture_result \<times> command_capture" where
  "observed ok r c = (if ok then (r, c) else (plain_result ''failed'' ''observation-failed'' (cr_token r), discard c))"

definition key_equal :: "string \<Rightarrow> bool \<Rightarrow> command_capture \<Rightarrow> capture_result \<times> command_capture" where
  "key_equal fresh ok c =
    (if cc_notifying c then (blocked c ''capture.busy'', c)
     else if cc_state c \<noteq> CIdle then (blocked c ''capture.busy'', c)
     else
       (let c = c\<lparr>cc_state := CRecording, cc_token := Some fresh\<rparr>
        in observed ok (capture_result_of c ''recording'' ''started'' []) c))"

definition capture_finish :: "bool \<Rightarrow> string \<Rightarrow> command_capture \<Rightarrow> capture_result \<times> command_capture" where
  "capture_finish ok reason c =
    (if \<not> cc_heard_speech c then observed ok (plain_result ''idle'' ''initial-silence'' (cc_token c)) (discard c)
     else
       (let c = c\<lparr>cc_state := CProcessing\<rparr>
        in observed ok (capture_result_of c ''processing'' reason (cc_buffer c)) c))"

definition absorb :: "frame \<Rightarrow> command_capture \<Rightarrow> command_capture" where
  "absorb f c =
    (let remaining = cc_max_ms (cc_config c) * 32 - length (cc_buffer c);
         included = take remaining (fr_pcm f);
         elapsed_ms = length included div 32;
         c = c\<lparr>cc_buffer := cc_buffer c @ included\<rparr>
     in if fr_speech f
        then c\<lparr>cc_heard_speech := True, cc_speech_ms := cc_speech_ms c + elapsed_ms, cc_silence_ms := 0\<rparr>
        else c\<lparr>cc_silence_ms := cc_silence_ms c + elapsed_ms\<rparr>)"

definition capture_feed :: "frame option \<Rightarrow> bool \<Rightarrow> command_capture \<Rightarrow> capture_result \<times> command_capture" where
  "capture_feed fo ok c =
    (if cc_notifying c then (blocked c ''capture.busy'', c)
     else case fo of
       None \<Rightarrow> (plain_result ''failed'' ''invalid-frame'' (cc_token c),
               if cc_state c \<in> {CRecording, CProcessing} then discard c else c)
     | Some f \<Rightarrow>
         (if cc_state c \<noteq> CRecording then (blocked c (''capture.'' @ state_name (cc_state c)), c)
          else
            (let c = absorb f c; config = cc_config c in
             if length (cc_buffer c) = cc_max_ms config * 32 then capture_finish ok ''max-duration'' c
             else if \<not> cc_heard_speech c \<and> cc_silence_ms c \<ge> cc_initial_silence_ms config
               then observed ok (plain_result ''idle'' ''initial-silence'' (cc_token c)) (discard c)
             else if cc_heard_speech c \<and> cc_silence_ms c \<ge>
                 (if cc_speech_ms c \<ge> cc_long_utterance_ms config then cc_long_silence_ms config
                  else cc_short_silence_ms config)
               then capture_finish ok ''silence'' c
             else observed ok (capture_result_of c ''recording'' ''recording'' []) c)))"

definition capture_cancel :: "bool \<Rightarrow> command_capture \<Rightarrow> capture_result \<times> command_capture" where
  "capture_cancel ok c =
    (if cc_notifying c then (blocked c ''capture.busy'', c)
     else if cc_state c \<notin> {CRecording, CProcessing} then (blocked c (''capture.'' @ state_name (cc_state c)), c)
     else observed ok (plain_result ''canceled'' ''canceled'' (cc_token c)) (discard c))"

definition capture_complete :: "string option \<Rightarrow> bool \<Rightarrow> command_capture \<Rightarrow> capture_result \<times> command_capture" where
  "capture_complete token ok c =
    (if cc_notifying c then (blocked c ''capture.busy'', c)
     else if cc_state c \<noteq> CProcessing \<or> token \<noteq> cc_token c then (blocked c ''stale-token'', c)
     else observed ok (plain_result ''idle'' ''completed'' (cc_token c)) (discard c))"

section \<open>Framing loses nothing\<close>

lemma frames_of_length: "f \<in> set (frames_of bs) \<Longrightarrow> length f = 640"
proof -
  assume "f \<in> set (frames_of bs)"
  then obtain i where i: "i < length bs div 640" "f = take 640 (drop (640 * i) bs)"
    by (auto simp: frames_of_def)
  have "640 * Suc i \<le> 640 * (length bs div 640)" using i(1) by (intro mult_le_mono2) simp
  also have "\<dots> \<le> length bs" by simp
  finally show ?thesis using i(2) by simp
qed

lemma concat_slices: "concat (map (\<lambda>i. take k (drop (k * i) xs)) [0..<n]) = take (k * n) xs"
proof (induction n)
  case (Suc n)
  have "take (k * n) xs @ take k (drop (k * n) xs) = take (k * n + k) xs" by (simp add: take_add)
  with Suc show ?case by (simp add: add.commute)
qed simp

lemma frames_of_concat: "concat (frames_of bs) @ drop (length bs div 640 * 640) bs = bs"
  unfolding frames_of_def concat_slices by (subst mult.commute) simp

lemma framer_feed_ok:
  assumes "framer_feed (Some c) f = (Inr fs, f')"
  shows "pf_state f = FOpen \<and> pf_state f' = FOpen \<and> concat fs @ pf_remainder f' = pf_remainder f @ c
    \<and> length (pf_remainder f') < 640 \<and> (\<forall>x \<in> set fs. length x = 640)"
proof -
  have f: "pf_state f = FOpen" "fs = frames_of (pf_remainder f @ c)"
      "f' = f\<lparr>pf_remainder := drop (length (pf_remainder f @ c) div 640 * 640) (pf_remainder f @ c)\<rparr>"
    using assms by (auto simp: framer_feed_def Let_def split: if_splits)
  define xs where "xs = pf_remainder f @ c"
  have "length (drop (length xs div 640 * 640) xs) < 640"
    by (simp add: minus_div_mult_eq_mod)
  then show ?thesis
    using f frames_of_concat[of xs] frames_of_length by (auto simp flip: xs_def)
qed

lemma feed_all_ok:
  assumes "feed_all cs g = (Inr gs, f)" and "pf_state g = FOpen" and "length (pf_remainder g) < 640"
  shows "pf_state f = FOpen \<and> concat gs @ pf_remainder f = pf_remainder g @ concat cs
    \<and> (\<forall>x \<in> set gs. length x = 640) \<and> length (pf_remainder f) < 640"
  using assms
proof (induction cs arbitrary: g gs f)
  case (Cons c cs)
  then obtain fs1 g1 gs1 where s: "framer_feed (Some c) g = (Inr fs1, g1)" "feed_all cs g1 = (Inr gs1, f)"
      "gs = fs1 @ gs1"
    by (auto split: prod.splits sum.splits)
  note one = framer_feed_ok[OF s(1)]
  have rest: "pf_state f = FOpen \<and> concat gs1 @ pf_remainder f = pf_remainder g1 @ concat cs
      \<and> (\<forall>x \<in> set gs1. length x = 640) \<and> length (pf_remainder f) < 640"
    using Cons.IH[OF s(2)] one by blast
  have "concat gs @ pf_remainder f = concat fs1 @ pf_remainder g1 @ concat cs" using rest s(3) by simp
  also have "\<dots> = pf_remainder g @ concat (c # cs)" using one by (metis append_assoc concat.simps(2))
  finally show ?case using rest one s(3) by auto
qed simp

text \<open>Framing loses nothing and invents nothing. For any sequence of accepted chunks from a new
  framer, the frames in order followed by the remainder are the bytes fed, every frame has 640
  bytes and the remainder fewer, and the stream finishes without error exactly when the bytes are
  whole frames.\<close>

theorem framer_faithful:
  assumes "feed_all cs framer_init = (Inr fs, f)"
  shows "concat fs @ pf_remainder f = concat cs \<and> (\<forall>x \<in> set fs. length x = 640) \<and> length (pf_remainder f) < 640
    \<and> (fst (framer_finish f) = None \<longleftrightarrow> 640 dvd length (concat cs))"
proof -
  have f: "pf_state f = FOpen" "concat fs @ pf_remainder f = concat cs" "\<forall>x \<in> set fs. length x = 640"
      "length (pf_remainder f) < 640"
    using feed_all_ok[OF assms] by (simp_all add: framer_init_def)
  have whole: "length (concat fs) = 640 * length fs"
    using f(3) by (induction fs) auto
  have "640 dvd length (concat cs) \<longleftrightarrow> 640 dvd length (pf_remainder f)"
    using whole unfolding f(2)[symmetric] length_append by (simp add: dvd_add_right_iff)
  also have "\<dots> \<longleftrightarrow> pf_remainder f = []" using f(4) nat_dvd_not_less by (cases "pf_remainder f") fastforce+
  finally show ?thesis using f by (auto simp: framer_finish_def)
qed

theorem framer_faithful_witness:
  "\<exists>fs f. feed_all [[1, 2], [3]] framer_init = (Inr fs, f) \<and> concat fs @ pf_remainder f = [1, 2, 3]"
proof -
  have "feed_all [[1, 2], [3]] framer_init = (Inr [], \<lparr>pf_remainder = [1, 2, 3], pf_state = FOpen\<rparr>)"
    by (simp add: framer_init_def framer_feed_def frames_of_def Let_def)
  with framer_faithful[OF this] show ?thesis by auto
qed

section \<open>Energy is bounded\<close>

lemma sample_bounds: "- 32768 \<le> sample lo hi \<and> sample lo hi < 32768"
  using sint_ge[of "word_cat hi lo :: 16 word"] sint_lt[of "word_cat hi lo :: 16 word"] by (simp add: sample_def)

lemma square_bound: "- 32768 \<le> (x::int) \<Longrightarrow> x < 32768 \<Longrightarrow> 0 \<le> x * x \<and> x * x \<le> 1073741824"
proof -
  assume "- 32768 \<le> x" "x < 32768"
  then have "\<bar>x\<bar> * \<bar>x\<bar> \<le> 32768 * 32768" by (intro mult_mono) auto
  then show ?thesis by simp
qed

lemma energy_bounds: "0 \<le> energy bs \<and> energy bs \<le> int (length bs div 2) * 1073741824"
proof (induction bs rule: samples.induct)
  case (1 lo hi rest)
  have "energy (lo # hi # rest) = sample lo hi * sample lo hi + energy rest" by (simp add: energy_def)
  moreover have "0 \<le> sample lo hi * sample lo hi \<and> sample lo hi * sample lo hi \<le> 1073741824"
    using sample_bounds square_bound by blast
  ultimately show ?case using 1 by (simp add: algebra_simps)
qed (simp_all add: energy_def)

text \<open>The level of a frame is normalized: the energy of a 640-byte frame is between zero and
  320 times the square of 32768, so that the root mean square over 32768 is between zero and one
  and can be compared with a threshold strictly between them.\<close>

theorem vad_energy_bounds:
  assumes "is_speech rms v (Some bs) = Inr b"
  shows "0 \<le> energy bs \<and> energy bs \<le> 320 * 32768 ^ 2"
proof -
  have "length bs = 640" using assms by (auto simp: is_speech_def split: if_splits)
  with energy_bounds[of bs] show ?thesis by simp
qed

theorem vad_energy_bounds_witness:
  "is_speech (\<lambda>e. of_int e) \<lparr>ev_threshold = VFloat (Fin (1 / 2))\<rparr> (Some (replicate 640 0)) = Inr False
    \<or> energy (replicate 640 0) \<le> 320 * 32768 ^ 2"
proof -
  obtain b where "is_speech (\<lambda>e. of_int e) \<lparr>ev_threshold = VFloat (Fin (1 / 2))\<rparr> (Some (replicate 640 0)) = Inr b"
    by (simp add: is_speech_def)
  from vad_energy_bounds[OF this] show ?thesis by blast
qed

section \<open>Capture is bounded and ends\<close>

definition config_wf :: "capture_config \<Rightarrow> bool" where
  "config_wf k \<longleftrightarrow> 0 < cc_max_ms k \<and> 0 < cc_initial_silence_ms k \<and> 0 < cc_short_silence_ms k
     \<and> 0 < cc_long_silence_ms k \<and> 0 < cc_long_utterance_ms k"

definition frame_wf :: "frame \<Rightarrow> bool" where
  "frame_wf f \<longleftrightarrow> fr_pcm f \<noteq> [] \<and> 32 dvd length (fr_pcm f)"

lemma frame_init_wf: "frame_init pcm speech = Inr f \<Longrightarrow> frame_wf f"
  by (auto simp: frame_init_def frame_wf_def mod_eq_0_iff_dvd split: option.splits if_splits pyv.splits)

lemma capture_config_init_wf: "capture_config_init a b c d e = Inr k \<Longrightarrow> config_wf k"
  by (auto simp: capture_config_init_def config_wf_def pos_nat_def split: option.splits pyv.splits if_splits)

definition capture_inv :: "command_capture \<Rightarrow> bool" where
  "capture_inv c \<longleftrightarrow> config_wf (cc_config c) \<and> \<not> cc_notifying c
     \<and> 32 dvd length (cc_buffer c) \<and> length (cc_buffer c) \<le> cc_max_ms (cc_config c) * 32
     \<and> (case cc_state c of
          CIdle \<Rightarrow> cc_token c = None \<and> cc_buffer c = [] \<and> cc_speech_ms c = 0 \<and> cc_silence_ms c = 0 \<and> \<not> cc_heard_speech c
        | CRecording \<Rightarrow> cc_token c \<noteq> None \<and> length (cc_buffer c) < cc_max_ms (cc_config c) * 32
        | CProcessing \<Rightarrow> cc_token c \<noteq> None \<and> cc_heard_speech c)"

datatype capture_call = KeyEqual string bool | FeedFrame frame bool | FeedOther bool | CancelCapture bool
  | CompleteCapture "string option" bool

fun capture_step :: "capture_call \<Rightarrow> command_capture \<Rightarrow> capture_result \<times> command_capture" where
  "capture_step (KeyEqual t ok) c = key_equal t ok c"
| "capture_step (FeedFrame f ok) c = capture_feed (Some f) ok c"
| "capture_step (FeedOther ok) c = capture_feed None ok c"
| "capture_step (CancelCapture ok) c = capture_cancel ok c"
| "capture_step (CompleteCapture t ok) c = capture_complete t ok c"

fun call_wf :: "capture_call \<Rightarrow> bool" where
  "call_wf (FeedFrame f ok) = frame_wf f"
| "call_wf _ = True"

definition capture_run :: "capture_call list \<Rightarrow> command_capture \<Rightarrow> command_capture" where
  "capture_run cs c = fold (\<lambda>k c. snd (capture_step k c)) cs c"

lemma discard_inv: "capture_inv c \<Longrightarrow> capture_inv (discard c)"
  by (auto simp: capture_inv_def discard_def)

lemma absorb_fields:
  "cc_config (absorb f c) = cc_config c" "cc_state (absorb f c) = cc_state c" "cc_token (absorb f c) = cc_token c"
  "cc_notifying (absorb f c) = cc_notifying c"
  "cc_buffer (absorb f c) = cc_buffer c @ take (cc_max_ms (cc_config c) * 32 - length (cc_buffer c)) (fr_pcm f)"
  by (simp_all add: absorb_def Let_def)

lemma absorb_buffer:
  assumes "capture_inv c" and "frame_wf f"
  shows "32 dvd length (cc_buffer (absorb f c)) \<and> length (cc_buffer (absorb f c)) \<le> cc_max_ms (cc_config c) * 32"
proof -
  have "32 dvd min (length (fr_pcm f)) (cc_max_ms (cc_config c) * 32 - length (cc_buffer c))"
    using assms by (auto simp: capture_inv_def frame_wf_def min_def intro: dvd_diff_nat)
  with assms show ?thesis by (auto simp: absorb_fields capture_inv_def)
qed

lemma observed_inv: "capture_inv c \<Longrightarrow> capture_inv (snd (observed ok r c))"
  by (simp add: observed_def discard_inv)

lemma capture_finish_inv:
  assumes "capture_inv (c\<lparr>cc_state := CProcessing, cc_heard_speech := True\<rparr>)"
  shows "capture_inv (snd (capture_finish ok reason c))"
proof (cases "cc_heard_speech c")
  case True
  with assms have "capture_inv (c\<lparr>cc_state := CProcessing\<rparr>)" by (simp add: capture_inv_def)
  with True show ?thesis by (simp add: capture_finish_def Let_def observed_inv)
next
  case False
  have "capture_inv (discard c)" using assms by (auto simp: capture_inv_def discard_def)
  with False show ?thesis by (simp add: capture_finish_def observed_inv)
qed

lemma capture_feed_inv:
  assumes c: "capture_inv c" and f: "frame_wf f"
  shows "capture_inv (snd (capture_feed (Some f) ok c))"
proof (cases "cc_state c = CRecording")
  case False
  with c show ?thesis by (simp add: capture_feed_def)
next
  case True
  let ?c = "absorb f c"
  have keep: "capture_inv (?c\<lparr>cc_state := CProcessing, cc_heard_speech := True\<rparr>)" "capture_inv (discard ?c)"
    using c True absorb_buffer[OF c f] by (auto simp: capture_inv_def absorb_fields discard_def)
  have "capture_inv ?c" if "length (cc_buffer ?c) \<noteq> cc_max_ms (cc_config c) * 32"
    using c True that absorb_buffer[OF c f] by (auto simp: capture_inv_def absorb_fields simp del: length_append)
  with keep True c show ?thesis
    by (auto simp: capture_feed_def Let_def absorb_fields(1) capture_inv_def[of c]
        intro!: observed_inv capture_finish_inv)
qed

lemma capture_step_inv: "capture_inv c \<Longrightarrow> call_wf k \<Longrightarrow> capture_inv (snd (capture_step k c))"
proof (cases k)
  case (FeedFrame f ok)
  moreover assume "capture_inv c" "call_wf k"
  ultimately show ?thesis using capture_feed_inv by simp
next
  case (KeyEqual t ok)
  moreover assume c: "capture_inv c"
  moreover have "capture_inv (c\<lparr>cc_state := CRecording, cc_token := Some t\<rparr>)" if "cc_state c = CIdle"
    using c that by (auto simp: capture_inv_def config_wf_def)
  ultimately show ?thesis by (auto simp: key_equal_def Let_def intro!: observed_inv)
qed (auto simp: capture_feed_def capture_cancel_def capture_complete_def discard_inv intro!: observed_inv)

lemma capture_run_inv: "capture_inv c \<Longrightarrow> list_all call_wf cs \<Longrightarrow> capture_inv (capture_run cs c)"
  by (induction cs arbitrary: c) (auto simp: capture_run_def capture_step_inv)

text \<open>C14: Capture is bounded. From a new capture with valid bounds, after any sequence of keys, frames,
  cancellations and completions, whether or not the observer fails, at most \<open>max_ms\<close> milliseconds of
  whole samples are buffered, an idle capture holds no audio and no token, and a result carries
  audio only while the capture is processing: the whole buffer of an utterance with speech.\<close>

theorem capture_bounded:
  assumes "capture_config_init a b c d e = Inr config" and "list_all call_wf cs" and "call_wf k"
  shows "capture_inv (capture_run cs (capture_init config)) \<and>
    (case capture_step k (capture_run cs (capture_init config)) of (r, s) \<Rightarrow>
       cr_audio r \<noteq> [] \<longrightarrow> cc_state s = CProcessing \<and> cr_audio r = cc_buffer s \<and> cc_heard_speech s
         \<and> length (cr_audio r) \<le> cc_max_ms config * 32)"
proof -
  let ?s = "capture_run cs (capture_init config)"
  have "capture_inv (capture_init config)"
    using capture_config_init_wf[OF assms(1)] by (simp add: capture_inv_def capture_init_def)
  then have inv: "capture_inv ?s" using assms(2) by (rule capture_run_inv)
  obtain r s where rs: "capture_step k ?s = (r, s)" by (metis surj_pair)
  then have inv': "capture_inv s" using capture_step_inv[OF inv assms(3)] by simp
  have config: "cc_config s = config"
  proof -
    have "cc_config (snd (capture_step k c)) = cc_config c" for k c
      by (cases k) (auto simp: key_equal_def capture_feed_def capture_cancel_def capture_complete_def capture_finish_def
          observed_def discard_def absorb_fields Let_def split: option.splits)
    then have "cc_config (capture_run cs c) = cc_config c" for c
      by (induction cs arbitrary: c) (simp_all add: capture_run_def)
    with rs show ?thesis by (metis \<open>\<And>k c. cc_config (snd (capture_step k c)) = cc_config c\<close> capture_init_def
          command_capture.select_convs(1) snd_conv)
  qed
  have audio: "cr_audio r \<noteq> [] \<longrightarrow> cc_state s = CProcessing \<and> cr_audio r = cc_buffer s"
    using rs by (cases k) (auto simp: key_equal_def capture_feed_def capture_cancel_def capture_complete_def
        capture_finish_def observed_def blocked_def plain_result_def capture_result_of_def discard_def Let_def
        split: if_splits option.splits)
  with inv inv' rs config show ?thesis by (auto simp: capture_inv_def)
qed

definition sample_frame :: "bool \<Rightarrow> frame" where
  "sample_frame b = \<lparr>fr_pcm = replicate 32 0, fr_speech = b\<rparr>"

theorem capture_bounded_witness:
  "\<exists>config r s. capture_config_init (VInt 2) (VInt 1) (VInt 1) (VInt 1) (VInt 1) = Inr config
    \<and> capture_step (FeedFrame (sample_frame False) True)
        (capture_run [KeyEqual ''t'' True, FeedFrame (sample_frame True) True] (capture_init config)) = (r, s)
    \<and> cr_audio r \<noteq> [] \<and> cc_state s = CProcessing"
proof -
  let ?k = "\<lparr>cc_max_ms = 2, cc_initial_silence_ms = 1, cc_short_silence_ms = 1, cc_long_silence_ms = 1,
    cc_long_utterance_ms = 1\<rparr>"
  let ?cs = "[KeyEqual ''t'' True, FeedFrame (sample_frame True) True]"
  have k: "capture_config_init (VInt 2) (VInt 1) (VInt 1) (VInt 1) (VInt 1) = Inr ?k" by code_simp
  have wf: "list_all call_wf ?cs" "call_wf (FeedFrame (sample_frame False) True)" by code_simp+
  obtain r s where rs: "capture_step (FeedFrame (sample_frame False) True) (capture_run ?cs (capture_init ?k)) = (r, s)"
    by (metis surj_pair)
  have "cr_audio (fst (capture_step (FeedFrame (sample_frame False) True) (capture_run ?cs (capture_init ?k)))) \<noteq> []"
    by code_simp
  with rs capture_bounded[OF k wf] k show ?thesis by auto
qed

lemma feed_not_recording:
  assumes "cc_state c \<noteq> CRecording"
  shows "cc_state (snd (capture_feed (Some f) ok c)) \<noteq> CRecording"
  using assms by (simp add: capture_feed_def)

lemma feed_progress:
  assumes "capture_inv c" and "cc_state (snd (capture_feed (Some f) ok c)) = CRecording"
  shows "length (cc_buffer (snd (capture_feed (Some f) ok c))) = length (cc_buffer c) + length (fr_pcm f)
    \<and> cc_config (snd (capture_feed (Some f) ok c)) = cc_config c"
proof -
  let ?c = "absorb f c"
  have r: "cc_state c = CRecording" using assms(2) feed_not_recording by blast
  then have "snd (capture_feed (Some f) ok c) = ?c \<and> length (cc_buffer ?c) \<noteq> cc_max_ms (cc_config c) * 32"
    using assms by (auto simp: capture_feed_def capture_inv_def Let_def observed_def discard_def capture_finish_def
        absorb_fields(1) split: if_splits)
  moreover have "length (cc_buffer c) \<le> cc_max_ms (cc_config c) * 32" using assms(1) by (simp add: capture_inv_def)
  ultimately show ?thesis by (auto simp: absorb_fields min_def split: if_splits)
qed

text \<open>A recording always ends: feeding valid frames with at least \<open>max_ms\<close> milliseconds of audio in
  all brings a capture out of the recording state, whatever the frames hold and whatever the
  observer does.\<close>

theorem capture_ends:
  assumes "capture_inv c" and "\<forall>(f, ok) \<in> set fs. frame_wf f"
    and "cc_max_ms (cc_config c) * 32 \<le> length (cc_buffer c) + sum_list (map (\<lambda>(f, ok). length (fr_pcm f)) fs)"
  shows "cc_state (capture_run (map (\<lambda>(f, ok). FeedFrame f ok) fs) c) \<noteq> CRecording"
proof -
  have stay: "cc_state (capture_run (map (\<lambda>(f, ok). FeedFrame f ok) gs) d) \<noteq> CRecording" if "cc_state d \<noteq> CRecording" for gs d
    using that
  proof (induction gs arbitrary: d)
    case (Cons x gs)
    then show ?case
      using Cons.IH[of "snd (capture_feed (Some (fst x)) (snd x) d)"] feed_not_recording[of d "fst x" "snd x"]
      by (simp add: capture_run_def case_prod_beta)
  qed (simp add: capture_run_def)
  show ?thesis using assms
  proof (induction fs arbitrary: c)
    case Nil
    then show ?case by (auto simp: capture_run_def capture_inv_def)
  next
    case (Cons x fs)
    obtain f ok where x: "x = (f, ok)" by force
    let ?d = "snd (capture_feed (Some f) ok c)"
    have run: "capture_run (map (\<lambda>(f, ok). FeedFrame f ok) (x # fs)) c = capture_run (map (\<lambda>(f, ok). FeedFrame f ok) fs) ?d"
      by (simp add: capture_run_def x)
    show ?case
    proof (cases "cc_state ?d = CRecording")
      case True
      have "capture_inv ?d" using Cons.prems x capture_feed_inv by simp
      then show ?thesis
        using Cons.IH[of ?d] Cons.prems feed_progress[OF Cons.prems(1) True] x run by auto
    next
      case False
      then show ?thesis unfolding run by (rule stay)
    qed
  qed
qed

theorem capture_ends_witness:
  "cc_state (capture_run [FeedFrame (sample_frame True) True, FeedFrame (sample_frame True) True]
    (capture_run [KeyEqual ''t'' True] (capture_init \<lparr>cc_max_ms = 2, cc_initial_silence_ms = 1, cc_short_silence_ms = 1,
      cc_long_silence_ms = 1, cc_long_utterance_ms = 1\<rparr>))) \<noteq> CRecording"
proof -
  let ?k = "\<lparr>cc_max_ms = 2, cc_initial_silence_ms = 1, cc_short_silence_ms = 1, cc_long_silence_ms = 1,
    cc_long_utterance_ms = 1\<rparr>"
  let ?c = "capture_run [KeyEqual ''t'' True] (capture_init ?k)"
  have "capture_inv ?c"
    by (rule capture_run_inv) (simp_all add: capture_inv_def capture_init_def config_wf_def)
  moreover have "\<forall>(f, ok) \<in> set [(sample_frame True, True), (sample_frame True, True)]. frame_wf f"
    by (simp add: sample_frame_def frame_wf_def)
  moreover have "cc_max_ms (cc_config ?c) * 32 \<le> length (cc_buffer ?c)
      + sum_list (map (\<lambda>(f, ok). length (fr_pcm f)) [(sample_frame True, True), (sample_frame True, True)])"
    by (simp add: capture_run_def capture_init_def key_equal_def observed_def sample_frame_def Let_def)
  ultimately show ?thesis
    using capture_ends[of ?c "[(sample_frame True, True), (sample_frame True, True)]"] by simp
qed

end
