(* ===== verification/Voice_Process.thy ===== *)
theory Voice_Process
  imports Voice_Audio
begin

text \<open>
  Ownership of a worker process: \<open>OwnedProcess\<close> of \<open>src/runtime/voice/process.py\<close>. What the operating
  system answers (the spawn, the signals, the selector, the clock, the exit status) is an argument of
  the definitions; the supervisor thread is the function \<open>process_run\<close> over the iterations of its
  loop, and publishing its result is a step of its own, so that it may fall before, into or after a
  call of the owner. Clock readings and deadlines are exact rational numbers.
\<close>

text \<open>What an injected callback does: it raises, returns an object of another class, or returns a value.\<close>

datatype 'a reply = Raises | Other | Gives 'a

record process_result =
  pr_status :: string
  pr_stdout :: "byte list"
  pr_code :: string

definition process_result_of :: "string \<Rightarrow> byte list \<Rightarrow> string \<Rightarrow> process_result" where
  "process_result_of status out c = \<lparr>pr_status = status, pr_stdout = out, pr_code = c\<rparr>"

section \<open>Construction\<close>

datatype consumer_arg = NoConsumer | Callable | NotCallable

record process_config =
  pc_argv :: "string list"
  pc_max_output :: int
  pc_timeout :: rat
  pc_consumer :: bool
  pc_max_stdout :: int
  pc_idle :: "rat option"

record owned_process =
  op_config :: process_config
  op_creator :: int
  op_started :: bool
  op_running :: bool
  op_cancel :: bool
  op_result :: "process_result option"

text \<open>The number of an \<open>int\<close> or a finite \<open>float\<close>; a comparison with any other value is false.\<close>

fun num_of :: "pyv \<Rightarrow> rat option" where
  "num_of (VInt i) = Some (of_int i)"
| "num_of (VFloat (Fin r)) = Some r"
| "num_of _ = None"

fun argv_of :: "pyv list \<Rightarrow> string list option" where
  "argv_of [] = Some []"
| "argv_of (VStr s # vs) = (if s = [] \<or> CHR 0x00 \<in> set s then None else map_option (Cons s) (argv_of vs))"
| "argv_of (_ # vs) = None"

definition argv_ok :: "pyv \<Rightarrow> string list option" where
  "argv_ok v =
    (case v of
       VTuple vs \<Rightarrow>
         (case argv_of vs of
            Some (a # as) \<Rightarrow>
              (if hd a \<noteq> CHR ''/'' \<or> sum_list (map (int \<circ> length) (a # as)) > 8192 then None else Some (a # as))
          | _ \<Rightarrow> None)
     | _ \<Rightarrow> None)"

definition int_within :: "int \<Rightarrow> pyv \<Rightarrow> int option" where
  "int_within most v = (case v of VInt i \<Rightarrow> (if 0 < i \<and> i \<le> most then Some i else None) | _ \<Rightarrow> None)"

definition num_within :: "rat \<Rightarrow> pyv \<Rightarrow> rat option" where
  "num_within most v = (case num_of v of Some r \<Rightarrow> (if 0 < r \<and> r \<le> most then Some r else None) | None \<Rightarrow> None)"

definition process_init ::
  "int \<Rightarrow> pyv \<Rightarrow> pyv \<Rightarrow> pyv \<Rightarrow> consumer_arg \<Rightarrow> pyv \<Rightarrow> pyv \<Rightarrow> string + owned_process" where
  "process_init pid argv max_output timeout_s consumer max_stdout idle =
    (case argv_ok argv of None \<Rightarrow> Inl ''requires bounded, fixed absolute executable argv'' | Some args \<Rightarrow>
     case int_within 65536 max_output of None \<Rightarrow> Inl ''invalid process output bound'' | Some mo \<Rightarrow>
     case num_within 30 timeout_s of None \<Rightarrow> Inl ''invalid process deadline'' | Some ts \<Rightarrow>
     if consumer = NotCallable then Inl ''stream consumer must be trusted callable''
     else if max_stdout \<noteq> VNone \<and> (consumer = NoConsumer \<or> int_within 480000 max_stdout = None)
       then Inl ''invalid streaming output bound''
     else if idle \<noteq> VNone \<and> (consumer = NoConsumer \<or> num_within ts idle = None)
       then Inl ''invalid streaming idle deadline''
     else Inr \<lparr>op_config = \<lparr>pc_argv = args, pc_max_output = mo, pc_timeout = ts, pc_consumer = (consumer = Callable),
             pc_max_stdout = (case int_within 480000 max_stdout of Some m \<Rightarrow> m | None \<Rightarrow> mo),
             pc_idle = (if idle = VNone then None else num_within ts idle)\<rparr>,
           op_creator = pid, op_started = False, op_running = False, op_cancel = False, op_result = None\<rparr>)"

section \<open>Cleanup\<close>

datatype kill_reply = Signaled | NoSuchGroup | KillError

record cleanup_io =
  ci_term :: kill_reply
  ci_kill :: kill_reply
  ci_waited :: bool
  ci_probe :: kill_reply
  ci_closed :: "bool list"

text \<open>The signals may meet a group that is gone; the probe after the reaping must meet one.\<close>

definition process_cleanup :: "cleanup_io \<Rightarrow> bool" where
  "process_cleanup ci \<longleftrightarrow> ci_term ci \<noteq> KillError \<and> ci_kill ci \<noteq> KillError \<and> ci_waited ci
     \<and> ci_probe ci = NoSuchGroup \<and> list_all id (ci_closed ci)"

section \<open>The supervisor\<close>

text \<open>One ready stream: what \<open>os.write\<close> or \<open>os.read\<close> does, with the clock read after a chunk of the
  standard output. An empty read is the end of the stream.\<close>

datatype ready =
    StdinWrote nat
  | ReadOut "byte list" rat
  | ReadErr "byte list"
  | WouldBlock
  | ReadyFails

datatype exit_view = StillRunning | Exited bool | WaitFails

record iteration =
  it_cancel :: bool
  it_now :: rat
  it_idle_now :: rat
  it_ready :: "ready list"
  it_exit :: exit_view

record run_state =
  rs_data :: "byte list"
  rs_offset :: nat
  rs_output :: "byte list"
  rs_out_count :: int
  rs_err_count :: int
  rs_last_stdout :: rat
  rs_stdin :: bool
  rs_stdout :: bool
  rs_stderr :: bool

datatype verdict = Going | Overflow | Broken

text \<open>The selector reports registered streams only: a report of another stream does not occur and is
  skipped. The consumer is a function on its own state that says whether it returned.\<close>

definition process_ready ::
  "process_config \<Rightarrow> ('c \<Rightarrow> byte list \<Rightarrow> bool \<times> 'c) \<Rightarrow> ready \<Rightarrow> run_state \<times> 'c \<Rightarrow> verdict \<times> run_state \<times> 'c" where
  "process_ready cfg consume e sc =
    (case sc of (s, c) \<Rightarrow>
     case e of
       StdinWrote n \<Rightarrow>
         if \<not> rs_stdin s then (Going, s, c)
         else let s' = s\<lparr>rs_offset := rs_offset s + n\<rparr>
           in (Going, if rs_offset s' = length (rs_data s) then s'\<lparr>rs_stdin := False, rs_data := []\<rparr> else s', c)
     | ReadOut chunk now \<Rightarrow>
         if \<not> rs_stdout s then (Going, s, c)
         else if chunk = [] then (Going, s\<lparr>rs_stdout := False\<rparr>, c)
         else let s' = s\<lparr>rs_out_count := rs_out_count s + int (length chunk)\<rparr>
           in if rs_out_count s' > pc_max_stdout cfg then (Overflow, s', c)
              else let s'' = s'\<lparr>rs_last_stdout := now\<rparr>
                in if pc_consumer cfg
                   then (case consume c chunk of (ok, c') \<Rightarrow> (if ok then Going else Broken, s'', c'))
                   else (Going, s''\<lparr>rs_output := rs_output s @ chunk\<rparr>, c)
     | ReadErr chunk \<Rightarrow>
         if \<not> rs_stderr s then (Going, s, c)
         else if chunk = [] then (Going, s\<lparr>rs_stderr := False\<rparr>, c)
         else let s' = s\<lparr>rs_err_count := rs_err_count s + int (length chunk)\<rparr>
           in (if rs_err_count s' > pc_max_output cfg then Overflow else Going, s', c)
     | WouldBlock \<Rightarrow> (Going, s, c)
     | ReadyFails \<Rightarrow> (Broken, s, c))"

fun process_select ::
  "process_config \<Rightarrow> ('c \<Rightarrow> byte list \<Rightarrow> bool \<times> 'c) \<Rightarrow> ready list \<Rightarrow> run_state \<times> 'c \<Rightarrow> verdict \<times> run_state \<times> 'c" where
  "process_select cfg consume [] sc = (Going, sc)"
| "process_select cfg consume (e # es) sc =
    (case process_ready cfg consume e sc of
       (Going, sc') \<Rightarrow> process_select cfg consume es sc'
     | (v, sc') \<Rightarrow> (v, sc'))"

text \<open>The loop: \<open>None\<close> while the given iterations do not end it.\<close>

fun process_loop ::
  "process_config \<Rightarrow> ('c \<Rightarrow> byte list \<Rightarrow> bool \<times> 'c) \<Rightarrow> rat \<Rightarrow> iteration list \<Rightarrow> run_state \<times> 'c
    \<Rightarrow> (string \<times> string) option \<times> run_state \<times> 'c" where
  "process_loop cfg consume deadline [] sc = (None, sc)"
| "process_loop cfg consume deadline (it # its) sc =
    (if it_cancel it then (Some (''canceled'', ''process.canceled''), sc)
     else if it_now it \<ge> deadline then (Some (''failed'', ''process.timeout''), sc)
     else if (case pc_idle cfg of None \<Rightarrow> False | Some idle \<Rightarrow> it_idle_now it - rs_last_stdout (fst sc) \<ge> idle)
       then (Some (''failed'', ''process.stalled''), sc)
     else case process_select cfg consume (it_ready it) sc of
       (Overflow, sc') \<Rightarrow> (Some (''failed'', ''process.output-limit''), sc')
     | (Broken, sc') \<Rightarrow> (Some (''failed'', ''process.io-failed''), sc')
     | (Going, sc') \<Rightarrow>
         (case it_exit it of
            WaitFails \<Rightarrow> (Some (''failed'', ''process.io-failed''), sc')
          | StillRunning \<Rightarrow> process_loop cfg consume deadline its sc'
          | Exited zero \<Rightarrow>
              if rs_stdin (fst sc') \<or> rs_stdout (fst sc') \<or> rs_stderr (fst sc')
              then process_loop cfg consume deadline its sc'
              else (Some (if zero then (''success'', ''process.ok'') else (''failed'', ''process.exit'')), sc')))"

record run_io =
  ri_ready :: bool
  ri_begin :: rat
  ri_last :: rat
  ri_iterations :: "iteration list"
  ri_closed :: bool
  ri_cleanup :: cleanup_io

definition run_start :: "byte list \<Rightarrow> rat \<Rightarrow> run_state" where
  "run_start data now = \<lparr>rs_data = data, rs_offset = 0, rs_output = [], rs_out_count = 0, rs_err_count = 0,
     rs_last_stdout = now, rs_stdin = (data \<noteq> []), rs_stdout = True, rs_stderr = True\<rparr>"

text \<open>\<open>_run\<close>: the loop, the closing of the selector, the cleanup, and the result that is published.\<close>

definition process_run ::
  "process_config \<Rightarrow> ('c \<Rightarrow> byte list \<Rightarrow> bool \<times> 'c) \<Rightarrow> byte list \<Rightarrow> run_io \<Rightarrow> 'c \<Rightarrow> process_result option \<times> 'c" where
  "process_run cfg consume data io c =
    (case (if ri_ready io
           then process_loop cfg consume (ri_begin io + pc_timeout cfg) (ri_iterations io) (run_start data (ri_last io), c)
           else (Some (''failed'', ''process.io-failed''), run_start data (ri_last io), c)) of
       (None, s, c') \<Rightarrow> (None, c')
     | (Some (status, cd), s, c') \<Rightarrow>
         (let (status, cd) =
            (if \<not> process_cleanup (ri_cleanup io) then (''uncertain'', ''process.cleanup-unproven'')
             else if \<not> ri_closed io then (''failed'', ''process.io-failed'')
             else (status, cd))
          in (Some (process_result_of status (if status = ''success'' then rs_output s else []) cd), c')))"

section \<open>The operations of the owner\<close>

datatype spawn_reply = SpawnFails | Spawned

record start_io =
  si_pid :: int
  si_spawn :: spawn_reply
  si_thread :: bool
  si_cleanup :: cleanup_io

text \<open>\<open>start\<close>; the input is \<open>None\<close>, or some bytes, or (\<open>Some None\<close>) an object that is no \<open>bytes\<close>.\<close>

definition process_start :: "byte list option option \<Rightarrow> start_io \<Rightarrow> owned_process \<Rightarrow> string option \<times> owned_process" where
  "process_start data io p =
    (if si_pid io \<noteq> op_creator p then (Some ''process adapter cannot be inherited across fork'', p)
     else if (case data of None \<Rightarrow> False | Some None \<Rightarrow> True | Some (Some bs) \<Rightarrow> int (length bs) > 480044)
       then (Some ''input must be bounded immutable bytes'', p)
     else if op_started p \<or> op_result p \<noteq> None then (Some ''owned process is single-use'', p)
     else let p = p\<lparr>op_started := True\<rparr>
       in if si_spawn io = SpawnFails
          then (None, p\<lparr>op_result := Some (process_result_of ''failed'' [] ''process.start-failed'')\<rparr>)
          else if si_thread io then (None, p\<lparr>op_running := True\<rparr>)
          else (None, p\<lparr>op_result := Some
            (if process_cleanup (si_cleanup io) then process_result_of ''failed'' [] ''process.start-failed''
             else process_result_of ''uncertain'' [] ''process.cleanup-unproven'')\<rparr>))"

definition process_publish :: "process_result \<Rightarrow> owned_process \<Rightarrow> owned_process" where
  "process_publish r p = (if op_result p = None then p\<lparr>op_result := Some r\<rparr> else p)"

datatype worker_reply = WRaises | WNone | WOther | WResult process_result

definition process_poll :: "int \<Rightarrow> owned_process \<Rightarrow> worker_reply \<times> owned_process" where
  "process_poll pid p =
    (if pid \<noteq> op_creator p then (WRaises, p)
     else (case op_result p of None \<Rightarrow> WNone | Some r \<Rightarrow> WResult r, p))"

text \<open>\<open>cancel\<close> joins the supervisor for a bounded time; \<open>joined\<close> is what it publishes meanwhile.\<close>

definition process_cancel :: "process_result option \<Rightarrow> int \<Rightarrow> owned_process \<Rightarrow> worker_reply \<times> owned_process" where
  "process_cancel joined pid p =
    (if pid \<noteq> op_creator p then (WRaises, p)
     else case op_result p of
       Some r \<Rightarrow> (WResult r, p)
     | None \<Rightarrow>
         let p = (if \<not> op_started p then process_publish (process_result_of ''canceled'' [] ''process.canceled'') p
                  else let p = p\<lparr>op_cancel := True\<rparr>;
                           p = (case joined of None \<Rightarrow> p | Some r \<Rightarrow> process_publish r p)
                    in process_publish (process_result_of ''uncertain'' [] ''process.cleanup-unproven'') p)
         in (case op_result p of Some r \<Rightarrow> WResult r | None \<Rightarrow> WNone, p))"


section \<open>What the supervisor guarantees\<close>

text \<open>The bytes of the standard output that the supervisor took over from the ready streams: it
  stops at the end of the stream.\<close>

fun out_chunks :: "ready list \<Rightarrow> byte list list" where
  "out_chunks [] = []"
| "out_chunks (ReadOut chunk now # es) = (if chunk = [] then [] else chunk # out_chunks es)"
| "out_chunks (_ # es) = out_chunks es"

definition run_chunks :: "run_io \<Rightarrow> byte list list" where
  "run_chunks io = out_chunks (concat (map it_ready (ri_iterations io)))"

text \<open>The state of the loop agrees with the bytes taken over so far: they are counted, they are the
  output where no consumer gets them, and they are within the bound while the loop goes on.\<close>

definition taken :: "process_config \<Rightarrow> byte list list \<Rightarrow> run_state \<Rightarrow> bool" where
  "taken cfg cs s \<longleftrightarrow> rs_out_count s = int (length (concat cs))
     \<and> rs_output s = (if pc_consumer cfg then [] else concat cs)"

definition reads :: "bool \<Rightarrow> ready list \<Rightarrow> byte list list" where
  "reads from_here es = (if from_here then out_chunks es else [])"

lemma reads_simps [simp]:
  "reads b [] = []" "reads False es = []"
  "reads b (StdinWrote n # es) = reads b es" "reads b (ReadErr c # es) = reads b es"
  "reads b (WouldBlock # es) = reads b es" "reads b (ReadyFails # es) = reads b es"
  "reads b (ReadOut [] now # es) = []"
  "c \<noteq> [] \<Longrightarrow> reads True (ReadOut c now # es) = c # reads True es"
  by (auto simp: reads_def)

lemma process_ready_taken:
  assumes "process_ready cfg consume e (s, c) = (Going, s', c')" and "taken cfg cs s"
    and "int (length (concat cs)) \<le> pc_max_stdout cfg"
  shows "\<exists>ds. taken cfg (cs @ ds) s' \<and> int (length (concat (cs @ ds))) \<le> pc_max_stdout cfg
    \<and> (\<forall>es. cs @ reads (rs_stdout s) (e # es) = cs @ ds @ reads (rs_stdout s') es)"
proof (cases e)
  case (ReadOut chunk now)
  show ?thesis
  proof (cases "rs_stdout s \<and> chunk \<noteq> []")
    case True
    with ReadOut assms have "taken cfg (cs @ [chunk]) s' \<and> int (length (concat (cs @ [chunk]))) \<le> pc_max_stdout cfg
        \<and> rs_stdout s'"
      by (auto simp: process_ready_def Let_def taken_def split: if_splits prod.splits)
    with True ReadOut show ?thesis by (intro exI[of _ "[chunk]"]) simp
  next
    case False
    with ReadOut assms show ?thesis
      by (intro exI[of _ "[]"]) (cases "rs_stdout s"; auto simp: process_ready_def taken_def)
  qed
qed (use assms in \<open>auto simp: process_ready_def taken_def Let_def split: if_splits intro!: exI[of _ "[]"]\<close>)

lemma process_select_taken:
  assumes "process_select cfg consume es (s, c) = (Going, s', c')" and "taken cfg cs s"
    and "int (length (concat cs)) \<le> pc_max_stdout cfg"
  shows "\<exists>ds. taken cfg (cs @ ds) s' \<and> int (length (concat (cs @ ds))) \<le> pc_max_stdout cfg
    \<and> (\<forall>fs. cs @ reads (rs_stdout s) (es @ fs) = cs @ ds @ reads (rs_stdout s') fs)"
  using assms
proof (induction es arbitrary: s c cs)
  case Nil
  then show ?case by (intro exI[of _ "[]"]) simp
next
  case (Cons e es)
  then obtain s1 c1 where e: "process_ready cfg consume e (s, c) = (Going, s1, c1)"
    and es: "process_select cfg consume es (s1, c1) = (Going, s', c')"
    by (auto split: prod.splits verdict.splits)
  from process_ready_taken[OF e Cons.prems(2,3)] obtain ds where ds: "taken cfg (cs @ ds) s1"
      "int (length (concat (cs @ ds))) \<le> pc_max_stdout cfg"
      "\<forall>es. cs @ reads (rs_stdout s) (e # es) = cs @ ds @ reads (rs_stdout s1) es" by blast
  from Cons.IH[OF es ds(1,2)] obtain ds' where "taken cfg ((cs @ ds) @ ds') s'"
      "int (length (concat ((cs @ ds) @ ds'))) \<le> pc_max_stdout cfg"
      "\<forall>fs. (cs @ ds) @ reads (rs_stdout s1) (es @ fs) = (cs @ ds) @ ds' @ reads (rs_stdout s') fs" by blast
  with ds(3) show ?case by (intro exI[of _ "ds @ ds'"]) simp
qed

text \<open>On success every byte the child wrote until the end of its output was taken over.\<close>

lemma process_loop_success:
  assumes "process_loop cfg consume deadline its (s, c) = (Some (''success'', cd), s', c')" and "taken cfg cs s"
    and "int (length (concat cs)) \<le> pc_max_stdout cfg"
  shows "taken cfg (cs @ reads (rs_stdout s) (concat (map it_ready its))) s'
    \<and> int (length (concat (cs @ reads (rs_stdout s) (concat (map it_ready its))))) \<le> pc_max_stdout cfg"
  using assms
proof (induction its arbitrary: s c cs)
  case (Cons it its)
  obtain s1 c1 where sel: "process_select cfg consume (it_ready it) (s, c) = (Going, s1, c1)"
    using Cons.prems(1) by (auto split: if_splits prod.splits verdict.splits)
  from process_select_taken[OF sel Cons.prems(2,3)] obtain ds where ds: "taken cfg (cs @ ds) s1"
      "int (length (concat (cs @ ds))) \<le> pc_max_stdout cfg"
      "\<forall>fs. cs @ reads (rs_stdout s) (it_ready it @ fs) = cs @ ds @ reads (rs_stdout s1) fs" by blast
  show ?case
  proof (cases "process_loop cfg consume deadline its (s1, c1) = (Some (''success'', cd), s', c')")
    case True
    from Cons.IH[OF True ds(1,2)] ds(3) show ?thesis by simp
  next
    case False
    with Cons.prems(1) sel have "s' = s1" "\<not> rs_stdout s1"
      by (auto split: if_splits exit_view.splits)
    with ds show ?thesis by simp
  qed
qed simp

lemma process_loop_status:
  "process_loop cfg consume deadline its sc = (Some (status, cd), sc')
    \<Longrightarrow> status \<in> {''success'', ''failed'', ''canceled''}"
  by (induction its arbitrary: sc) (auto split: if_splits prod.splits verdict.splits exit_view.splits)

text \<open>An iteration whose clock has reached the deadline ends the loop, if nothing ended it before.\<close>

lemma process_loop_ends:
  assumes "it \<in> set its" and "deadline \<le> it_now it"
  shows "\<exists>r sc'. process_loop cfg consume deadline its sc = (Some r, sc')"
  using assms(1)
proof (induction its arbitrary: sc)
  case (Cons i its)
  show ?case
  proof (cases "deadline \<le> it_now i")
    case False
    with Cons.prems assms(2) have "it \<in> set its" by auto
    then have "\<exists>r sc'. process_loop cfg consume deadline its sc1 = (Some r, sc')" for sc1 by (rule Cons.IH)
    then show ?thesis by (auto split: prod.splits verdict.splits exit_view.splits)
  qed simp
qed simp


lemma process_init_bounds:
  "process_init pid argv mo ts consumer ms idle = Inr p
    \<Longrightarrow> 0 < pc_max_stdout (op_config p) \<and> op_result p = None \<and> \<not> op_started p \<and> op_creator p = pid"
  by (auto simp: process_init_def int_within_def split: option.splits if_splits pyv.splits)

lemma run_start_taken [simp]: "taken cfg [] (run_start data now)" "rs_stdout (run_start data now)"
  by (simp_all add: taken_def run_start_def)

section \<open>Properties\<close>

text \<open>C15: A supervised process always ends with an honest, bounded result. If the clock of some iteration
  reaches the deadline, the supervisor publishes a result; its status is uncertain exactly when the
  cleanup of the process group could not be proven; output is returned on success only, it is within
  the configured bound, and without a stream consumer it is exactly what the child wrote before it
  closed its standard output.\<close>

theorem process_run_honest:
  assumes "process_init pid argv mo ts consumer ms idle = Inr p"
    and "it \<in> set (ri_iterations io)" and "ri_begin io + pc_timeout (op_config p) \<le> it_now it"
  shows "\<exists>r c'. process_run (op_config p) consume data io c = (Some r, c')
    \<and> pr_status r \<in> {''success'', ''failed'', ''canceled'', ''uncertain''}
    \<and> (pr_status r = ''uncertain'' \<longleftrightarrow> \<not> process_cleanup (ri_cleanup io))
    \<and> (pr_status r \<noteq> ''success'' \<longrightarrow> pr_stdout r = [])
    \<and> int (length (pr_stdout r)) \<le> pc_max_stdout (op_config p)
    \<and> (pr_status r = ''success'' \<longrightarrow> pr_stdout r = (if pc_consumer (op_config p) then [] else concat (run_chunks io)))"
proof -
  let ?cfg = "op_config p" let ?s = "run_start data (ri_last io)"
  have pos: "0 < pc_max_stdout ?cfg" using process_init_bounds[OF assms(1)] by simp
  obtain status cd s' c' where loop:
    "(if ri_ready io then process_loop ?cfg consume (ri_begin io + pc_timeout ?cfg) (ri_iterations io) (?s, c)
      else (Some (''failed'', ''process.io-failed''), ?s, c)) = (Some (status, cd), s', c')"
  proof (cases "ri_ready io")
    case True
    from process_loop_ends[OF assms(2,3), of ?cfg consume "(?s, c)"] show ?thesis
      using that True by fastforce
  qed (use that in simp)
  then have status: "status \<in> {''success'', ''failed'', ''canceled''}"
    using process_loop_status by (fastforce split: if_splits)
  have out: "taken ?cfg (run_chunks io) s' \<and> int (length (concat (run_chunks io))) \<le> pc_max_stdout ?cfg"
    if "status = ''success''"
    using loop that pos process_loop_success[of ?cfg consume _ "ri_iterations io" ?s c cd s' c' "[]"]
    by (auto split: if_splits simp: run_chunks_def reads_def)
  have run: "process_run ?cfg consume data io c =
    (Some (if \<not> process_cleanup (ri_cleanup io) then process_result_of ''uncertain'' [] ''process.cleanup-unproven''
           else if \<not> ri_closed io then process_result_of ''failed'' [] ''process.io-failed''
           else process_result_of status (if status = ''success'' then rs_output s' else []) cd), c')"
    by (simp add: process_run_def loop)
  show ?thesis unfolding run using status out pos
    by (auto simp: process_result_of_def taken_def)
qed

definition sample_worker :: "string + owned_process" where
  "sample_worker = process_init 7 (VTuple [VStr ''/usr/bin/stt'']) (VInt 4096) (VInt 10) NoConsumer VNone VNone"

definition sample_run_io :: run_io where
  "sample_run_io = \<lparr>ri_ready = True, ri_begin = 0, ri_last = 0,
     ri_iterations =
       [\<lparr>it_cancel = False, it_now = 1, it_idle_now = 1, it_ready = [ReadOut [72, 105] 1, ReadErr []], it_exit = StillRunning\<rparr>,
        \<lparr>it_cancel = False, it_now = 2, it_idle_now = 2, it_ready = [ReadOut [33] 2, ReadOut [] 2], it_exit = Exited True\<rparr>,
        \<lparr>it_cancel = False, it_now = 10, it_idle_now = 10, it_ready = [], it_exit = StillRunning\<rparr>],
     ri_closed = True,
     ri_cleanup = \<lparr>ci_term = Signaled, ci_kill = NoSuchGroup, ci_waited = True, ci_probe = NoSuchGroup,
       ci_closed = [True, True, True]\<rparr>\<rparr>"

theorem process_run_honest_witness:
  "\<exists>p r. sample_worker = Inr p
    \<and> process_run (op_config p) (\<lambda>c b. (True, c)) [] sample_run_io () = (Some r, ()) \<and> pr_stdout r = [72, 105, 33]"
proof -
  have "case sample_worker of Inr p \<Rightarrow>
      list_ex (\<lambda>it. ri_begin sample_run_io + pc_timeout (op_config p) \<le> it_now it) (ri_iterations sample_run_io)
      \<and> \<not> pc_consumer (op_config p)
      \<and> (case process_run (op_config p) (\<lambda>c b. (True, c)) [] sample_run_io () of (Some r, u) \<Rightarrow> pr_status r = ''success'' | _ \<Rightarrow> False)
    | _ \<Rightarrow> False"
    by code_simp
  then obtain p it where p: "sample_worker = Inr p" "it \<in> set (ri_iterations sample_run_io)"
      "ri_begin sample_run_io + pc_timeout (op_config p) \<le> it_now it" "\<not> pc_consumer (op_config p)"
      "case process_run (op_config p) (\<lambda>c b. (True, c)) [] sample_run_io () of (Some r, u) \<Rightarrow> pr_status r = ''success'' | _ \<Rightarrow> False"
    by (auto simp: list_ex_iff split: sum.splits)
  have "concat (run_chunks sample_run_io) = [72, 105, 33]" by code_simp
  with process_run_honest[OF p(1)[unfolded sample_worker_def] p(2,3), of "\<lambda>c b. (True, c)" "[]" "()"] p
  show ?thesis by auto
qed

end
