(* ===== verification/Voice_Workers.thy ===== *)
theory Voice_Workers
  imports Voice_Process
begin

text \<open>
  The two clients of a worker process: \<open>TranscriptionJob\<close> of \<open>src/runtime/voice/transcription.py\<close> and
  \<open>PipeWireCapture\<close> of \<open>src/runtime/voice/device.py\<close>. They reach the worker through \<open>start\<close>, \<open>poll\<close> and
  \<open>cancel\<close> only; the record \<open>worker_ops\<close> holds these, the locale \<open>worker_contract\<close> states what the
  clients rely on, and \<open>OwnedProcess\<close> is shown to keep it. Between two locked regions of a client
  another thread may cancel; the arguments \<open>mid\<close> say whether it does.
\<close>

record ('w, 'io) worker_ops =
  w_start :: "byte list option \<Rightarrow> 'io \<Rightarrow> 'w \<Rightarrow> bool \<times> 'w"
  w_poll :: "'io \<Rightarrow> 'w \<Rightarrow> worker_reply \<times> 'w"
  w_cancel :: "'io \<Rightarrow> 'w \<Rightarrow> worker_reply \<times> 'w"

definition is_clean :: "process_result \<Rightarrow> bool" where
  "is_clean r \<longleftrightarrow> pr_status r \<in> {''success'', ''failed'', ''canceled''}"

definition clean_reply :: "worker_reply \<Rightarrow> bool" where
  "clean_reply w = (case w of WResult r \<Rightarrow> is_clean r | _ \<Rightarrow> False)"

section \<open>Text of a transcript\<close>

text \<open>
  A transcript may hold any code point, so its text is a list of code points. \<open>utf8\<close> is the strict
  decoder: no overlong form, no surrogate, nothing above \<open>0x10FFFF\<close>.
\<close>

type_synonym codepoints = "int list"

definition cont :: "int \<Rightarrow> bool" where
  "cont b \<longleftrightarrow> 128 \<le> b \<and> b < 192"

fun utf8 :: "int list \<Rightarrow> codepoints option" where
  "utf8 [] = Some []"
| "utf8 (b # bs) =
    (if b < 128 then map_option (Cons b) (utf8 bs)
     else if 194 \<le> b \<and> b < 224 then
       (case bs of
          c # bs \<Rightarrow> if cont c then map_option (Cons ((b - 192) * 64 + (c - 128))) (utf8 bs) else None
        | _ \<Rightarrow> None)
     else if 224 \<le> b \<and> b < 240 then
       (case bs of
          c # d # bs \<Rightarrow>
            if cont c \<and> cont d \<and> (b = 224 \<longrightarrow> 160 \<le> c) \<and> (b = 237 \<longrightarrow> c < 160)
            then map_option (Cons ((b - 224) * 4096 + (c - 128) * 64 + (d - 128))) (utf8 bs) else None
        | _ \<Rightarrow> None)
     else if 240 \<le> b \<and> b < 245 then
       (case bs of
          c # d # e # bs \<Rightarrow>
            if cont c \<and> cont d \<and> cont e \<and> (b = 240 \<longrightarrow> 144 \<le> c) \<and> (b = 244 \<longrightarrow> c < 144)
            then map_option (Cons ((b - 240) * 262144 + (c - 128) * 4096 + (d - 128) * 64 + (e - 128))) (utf8 bs)
            else None
        | _ \<Rightarrow> None)
     else None)"

definition is_space_cp :: "int \<Rightarrow> bool" where
  "is_space_cp c \<longleftrightarrow> (9 \<le> c \<and> c \<le> 13) \<or> (28 \<le> c \<and> c \<le> 32) \<or> (8192 \<le> c \<and> c \<le> 8202)
     \<or> c \<in> {133, 160, 5760, 8232, 8233, 8239, 8287, 12288}"

definition strip_cp :: "codepoints \<Rightarrow> codepoints" where
  "strip_cp t = rev (dropWhile is_space_cp (rev (dropWhile is_space_cp t)))"

definition transcript_of :: "byte list \<Rightarrow> codepoints option" where
  "transcript_of out =
    (if out = [] \<or> int (length out) > 16384 then None
     else case utf8 (map uint out) of
       None \<Rightarrow> None
     | Some t \<Rightarrow>
         (let t = strip_cp t
          in if t = [] \<or> list_ex (\<lambda>c. c < 32 \<and> c \<noteq> 9 \<and> c \<noteq> 10) t then None else Some t))"

section \<open>The WAV stream\<close>

definition le16 :: "nat \<Rightarrow> byte list" where
  "le16 n = [of_nat n, of_nat (n div 256)]"

definition le32 :: "nat \<Rightarrow> byte list" where
  "le32 n = le16 n @ le16 (n div 65536)"

definition ascii :: "string \<Rightarrow> byte list" where
  "ascii s = map (of_nat \<circ> code) s"

definition wav :: "byte list \<Rightarrow> byte list" where
  "wav pcm = ascii ''RIFF'' @ le32 (36 + length pcm) @ ascii ''WAVEfmt '' @ le32 16 @ le16 1 @ le16 1
     @ le32 16000 @ le32 32000 @ le16 2 @ le16 16 @ ascii ''data'' @ le32 (length pcm) @ pcm"

section \<open>Transcription\<close>

record transcript_result =
  tr_generation :: "int option"
  tr_status :: string
  tr_text :: "codepoints option"
  tr_code :: string

definition transcript_result_of :: "int option \<Rightarrow> string \<Rightarrow> codepoints option \<Rightarrow> string \<Rightarrow> transcript_result" where
  "transcript_result_of g status t cd = \<lparr>tr_generation = g, tr_status = status, tr_text = t, tr_code = cd\<rparr>"

record 'w transcription_job =
  tj_started :: bool
  tj_closed :: bool
  tj_worker :: "'w option"
  tj_pending :: "transcript_result option"
  tj_generation :: "int option"
  tj_cleaned :: "bool option"

definition job_init :: "'w transcription_job" where
  "job_init = \<lparr>tj_started = False, tj_closed = False, tj_worker = None, tj_pending = None,
     tj_generation = None, tj_cleaned = None\<rparr>"

definition cleanup_proven :: "'w transcription_job \<Rightarrow> bool" where
  "cleanup_proven j \<longleftrightarrow> tj_cleaned j = Some True"

definition job_cancel :: "('w, 'io) worker_ops \<Rightarrow> 'io \<Rightarrow> 'w transcription_job \<Rightarrow> 'w transcription_job" where
  "job_cancel W io j =
    (let j = j\<lparr>tj_closed := True, tj_pending := None\<rparr>
     in if tj_cleaned j \<noteq> None then j
        else case tj_worker j of
          None \<Rightarrow> if tj_started j then j else j\<lparr>tj_cleaned := Some True\<rparr>
        | Some w \<Rightarrow> (case w_cancel W io w of (reply, w) \<Rightarrow>
            j\<lparr>tj_worker := Some w, tj_cleaned := Some (clean_reply reply)\<rparr>))"

definition interrupted :: "('w, 'io) worker_ops \<Rightarrow> 'io option \<Rightarrow> 'w transcription_job \<Rightarrow> 'w transcription_job" where
  "interrupted W mid j = (case mid of None \<Rightarrow> j | Some io \<Rightarrow> job_cancel W io j)"

text \<open>\<open>factory\<close> is the worker the factory returns, \<open>None\<close> when it raises; \<open>mid\<close> and \<open>mid2\<close> are
  cancellations that come before the worker is stored and before it is started.\<close>

definition job_start_failed :: "('w, 'io) worker_ops \<Rightarrow> 'io \<Rightarrow> int \<Rightarrow> 'w transcription_job \<Rightarrow> 'w transcription_job" where
  "job_start_failed W io g j =
    (let j = job_cancel W io j
     in j\<lparr>tj_pending := Some (transcript_result_of (Some g) (if tj_cleaned j = Some True then ''failed'' else ''uncertain'')
           None ''transcription.start-failed'')\<rparr>)"

definition job_launch ::
  "('w, 'io) worker_ops \<Rightarrow> byte list \<Rightarrow> int \<Rightarrow> 'w option \<Rightarrow> 'io option \<Rightarrow> 'io \<Rightarrow> 'io
    \<Rightarrow> 'w transcription_job \<Rightarrow> 'w transcription_job" where
  "job_launch W pcm g factory mid2 io_start io_cancel j =
    (case factory of
       None \<Rightarrow> job_start_failed W io_cancel g j
     | Some w \<Rightarrow>
         (let j = j\<lparr>tj_worker := Some w\<rparr>
          in if tj_closed j then job_cancel W io_cancel j
             else let j = interrupted W mid2 j
               in case tj_worker j of
                    None \<Rightarrow> j
                  | Some w \<Rightarrow> (case w_start W (Some (wav pcm)) io_start w of (ok, w) \<Rightarrow>
                      let j = j\<lparr>tj_worker := Some w\<rparr>
                      in if ok then j else job_start_failed W io_cancel g j)))"

definition job_start ::
  "('w, 'io) worker_ops \<Rightarrow> byte list option \<Rightarrow> pyv \<Rightarrow> 'w option \<Rightarrow> 'io option \<Rightarrow> 'io option \<Rightarrow> 'io \<Rightarrow> 'io
    \<Rightarrow> 'w transcription_job \<Rightarrow> string option \<times> 'w transcription_job" where
  "job_start W pcm generation factory mid mid2 io_start io_cancel j =
    (case pcm of
       None \<Rightarrow> (Some ''requires bounded whole-frame PCM'', j)
     | Some bs \<Rightarrow>
         if bs = [] \<or> length bs mod 640 \<noteq> 0 \<or> int (length bs) > 480000
         then (Some ''requires bounded whole-frame PCM'', j)
         else case generation of
           VInt g \<Rightarrow>
             if g \<le> 0 then (Some ''requires positive integer generation'', j)
             else if tj_started j \<or> tj_closed j then (Some ''transcription job is single-use'', j)
             else (None, job_launch W bs g factory mid2 io_start io_cancel
                     (interrupted W mid (j\<lparr>tj_started := True, tj_generation := Some g\<rparr>)))
         | _ \<Rightarrow> (Some ''requires positive integer generation'', j))"

definition job_poll ::
  "('w, 'io) worker_ops \<Rightarrow> 'io \<Rightarrow> 'io option \<Rightarrow> 'io \<Rightarrow> 'w transcription_job
    \<Rightarrow> transcript_result option \<times> 'w transcription_job" where
  "job_poll W io_poll mid io_cancel j =
    (case tj_pending j of
       Some r \<Rightarrow> (Some r, j\<lparr>tj_pending := None\<rparr>)
     | None \<Rightarrow>
         if tj_closed j then (None, j)
         else case tj_worker j of
           None \<Rightarrow> (None, j)
         | Some w \<Rightarrow>
             (case w_poll W io_poll w of (reply, w) \<Rightarrow>
              let j = interrupted W mid (j\<lparr>tj_worker := Some w\<rparr>)
              in case reply of
                WRaises \<Rightarrow>
                  (Some (transcript_result_of (tj_generation j) ''uncertain'' None ''transcription.worker-failed''),
                   job_cancel W io_cancel j)
              | WNone \<Rightarrow> (None, j)
              | _ \<Rightarrow>
                  if tj_closed j then (None, j)
                  else let t = (case reply of WResult r \<Rightarrow>
                                  if pr_status r = ''success'' then transcript_of (pr_stdout r) else None | _ \<Rightarrow> None);
                           clean = clean_reply reply;
                           result = (if \<not> clean then transcript_result_of (tj_generation j) ''uncertain'' t ''transcription.cleanup-unproven''
                             else if t \<noteq> None then transcript_result_of (tj_generation j) ''success'' t ''transcription.ok''
                             else transcript_result_of (tj_generation j) ''failed'' None ''transcription.failed'')
                    in (Some result, j\<lparr>tj_closed := True, tj_cleaned := Some clean\<rparr>)))"

section \<open>Capture from PipeWire\<close>

record 'w pipewire_capture =
  pw_framer :: pcm_framer
  pw_queue :: "byte list list"
  pw_started :: bool
  pw_closed :: bool
  pw_cleaned :: "bool option"
  pw_worker :: "'w option"
  pw_error :: "string option"
  pw_total :: int

definition pipewire_init :: "'w pipewire_capture" where
  "pipewire_init = \<lparr>pw_framer = framer_init, pw_queue = [], pw_started = False, pw_closed = False,
     pw_cleaned = None, pw_worker = None, pw_error = None, pw_total = 0\<rparr>"

text \<open>The node pattern \<open>[A-Za-z0-9_][A-Za-z0-9_.:-]{0,127}\<close>, without the two implicit nodes.\<close>

definition node_ok :: "pyv \<Rightarrow> string option" where
  "node_ok v =
    (case v of
       VStr s \<Rightarrow>
         if s \<in> {''default'', ''0''} \<or> s = [] \<or> length s > 128 \<or> \<not> (is_alnum (hd s) \<or> hd s = CHR ''_'')
           \<or> \<not> list_all is_id_char (tl s)
         then None else Some s
     | _ \<Rightarrow> None)"

definition pw_argv :: "string \<Rightarrow> string list" where
  "pw_argv source = [''/usr/bin/pw-record'', ''--rate'', ''16000'', ''--channels'', ''1'', ''--format'', ''s16'',
     ''--raw'', ''--target'', source, ''--sample-count'', ''240000'', ''-'']"

definition pw_cancel :: "('w, 'io) worker_ops \<Rightarrow> 'io \<Rightarrow> 'w pipewire_capture \<Rightarrow> bool \<times> 'w pipewire_capture" where
  "pw_cancel W io c =
    (let c = c\<lparr>pw_closed := True, pw_queue := []\<rparr>
     in case pw_cleaned c of
       Some b \<Rightarrow> (b, c)
     | None \<Rightarrow>
         (case pw_worker c of
            None \<Rightarrow> (\<not> pw_started c, c)
          | Some w \<Rightarrow> (case w_cancel W io w of (reply, w) \<Rightarrow>
              (clean_reply reply, c\<lparr>pw_worker := Some w, pw_cleaned := Some (clean_reply reply)\<rparr>))))"

definition pw_interrupted :: "('w, 'io) worker_ops \<Rightarrow> 'io option \<Rightarrow> 'w pipewire_capture \<Rightarrow> 'w pipewire_capture" where
  "pw_interrupted W mid c = (case mid of None \<Rightarrow> c | Some io \<Rightarrow> snd (pw_cancel W io c))"

definition pw_start_failed :: "('w, 'io) worker_ops \<Rightarrow> 'io \<Rightarrow> 'w pipewire_capture \<Rightarrow> string option \<times> 'w pipewire_capture" where
  "pw_start_failed W io c =
    (Some ''capture.start-failed'', snd (pw_cancel W io (c\<lparr>pw_error := Some ''capture.start-failed''\<rparr>)))"

text \<open>The worker is built by the factory for \<^const>\<open>pw_argv\<close>. A cancellation before the worker is stored
  cancels it and raises inside the handled region, which reports a failed start.\<close>

definition pw_launch ::
  "('w, 'io) worker_ops \<Rightarrow> 'w option \<Rightarrow> 'io option \<Rightarrow> 'io \<Rightarrow> 'io
    \<Rightarrow> 'w pipewire_capture \<Rightarrow> string option \<times> 'w pipewire_capture" where
  "pw_launch W worker mid2 io_start io_cancel c =
    (case worker of
       None \<Rightarrow> pw_start_failed W io_cancel c
     | Some w \<Rightarrow>
         (let c = c\<lparr>pw_worker := Some w\<rparr>
          in if pw_closed c then pw_start_failed W io_cancel (snd (pw_cancel W io_cancel c))
             else let c = pw_interrupted W mid2 c
               in case pw_worker c of
                    None \<Rightarrow> (None, c)
                  | Some w \<Rightarrow> (case w_start W None io_start w of (ok, w) \<Rightarrow>
                      let c = c\<lparr>pw_worker := Some w\<rparr>
                      in if ok then (None, c) else pw_start_failed W io_cancel c)))"

definition pw_start ::
  "('w, 'io) worker_ops \<Rightarrow> pyv \<Rightarrow> (string list \<Rightarrow> 'w option) \<Rightarrow> 'io option \<Rightarrow> 'io option \<Rightarrow> 'io \<Rightarrow> 'io
    \<Rightarrow> 'w pipewire_capture \<Rightarrow> string option \<times> 'w pipewire_capture" where
  "pw_start W source factory mid mid2 io_start io_cancel c =
    (case node_ok source of
       None \<Rightarrow> (Some ''explicit approved PipeWire node required'', c)
     | Some node \<Rightarrow>
         if pw_started c \<or> pw_closed c then (Some ''capture.single-use'', c)
         else pw_launch W (factory (pw_argv node)) mid2 io_start io_cancel
           (pw_interrupted W mid (c\<lparr>pw_started := True\<rparr>)))"

definition pw_receive :: "byte list option \<Rightarrow> 'w pipewire_capture \<Rightarrow> string option \<times> 'w pipewire_capture" where
  "pw_receive chunk c =
    (let invalid = (\<lambda>c. (Some ''capture.invalid-stream'', c\<lparr>pw_queue := [], pw_error := Some ''capture.invalid-stream''\<rparr>))
     in if pw_closed c \<or> pw_error c \<noteq> None then (Some ''capture.closed'', c)
        else case chunk of
          None \<Rightarrow> invalid c
        | Some bs \<Rightarrow>
            if bs = [] \<or> pw_total c + int (length bs) > 480000 then invalid c
            else case framer_feed (Some bs) (pw_framer c) of
              (Inl e, f) \<Rightarrow> invalid (c\<lparr>pw_framer := f\<rparr>)
            | (Inr frames, f) \<Rightarrow>
                if length (pw_queue c) + length frames > 16 then invalid (c\<lparr>pw_framer := f\<rparr>)
                else (None, c\<lparr>pw_framer := f, pw_queue := pw_queue c @ frames, pw_total := pw_total c + int (length bs)\<rparr>))"

text \<open>What \<open>poll\<close> makes of the worker's answer while it holds the lock.\<close>

definition pw_settle :: "worker_reply \<Rightarrow> 'w pipewire_capture \<Rightarrow> 'w pipewire_capture" where
  "pw_settle reply c =
    (if reply = WNone \<or> pw_error c \<noteq> None then c
     else if (case reply of WResult r \<Rightarrow> pr_status r \<noteq> ''success'' | _ \<Rightarrow> True)
       then c\<lparr>pw_error := Some ''capture.worker-failed''\<rparr>
     else case framer_finish (pw_framer c) of
       (e, f) \<Rightarrow>
         (let c = c\<lparr>pw_framer := f\<rparr>
          in if e \<noteq> None \<or> pw_total c = 0 then c\<lparr>pw_error := Some ''capture.incomplete-stream''\<rparr>
             else c\<lparr>pw_closed := True, pw_cleaned := Some True\<rparr>))"

definition pw_poll ::
  "('w, 'io) worker_ops \<Rightarrow> 'io \<Rightarrow> 'io option \<Rightarrow> 'io \<Rightarrow> 'w pipewire_capture
    \<Rightarrow> (string + byte list list) \<times> 'w pipewire_capture" where
  "pw_poll W io_poll mid io_cancel c =
    (if pw_closed c \<and> pw_error c = None then (Inr [], c)
     else let (reply, c) = (case pw_worker c of
                              None \<Rightarrow> (WNone, c)
                            | Some w \<Rightarrow> (case w_poll W io_poll w of (reply, w) \<Rightarrow> (reply, c\<lparr>pw_worker := Some w\<rparr>)));
              c = pw_settle reply (pw_interrupted W mid c);
              frames = pw_queue c; c = c\<lparr>pw_queue := []\<rparr>
       in case pw_error c of
            Some e \<Rightarrow> (Inl e, snd (pw_cancel W io_cancel c))
          | None \<Rightarrow> (Inr frames, c))"

section \<open>The contract of a worker\<close>

text \<open>
  \<open>outcome\<close> is the published result of a worker and \<open>advance\<close> what its supervisor does on its own. A
  result is final: no operation and no step of the supervisor replaces it; and a result that \<open>poll\<close> or
  \<open>cancel\<close> returns is the published one.
\<close>

locale worker_contract =
  fixes W :: "('w, 'io) worker_ops"
    and outcome :: "'w \<Rightarrow> process_result option"
    and advance :: "'ev \<Rightarrow> 'w \<Rightarrow> 'w"
  assumes start_latched: "outcome w = Some r \<Longrightarrow> outcome (snd (w_start W d io w)) = Some r"
    and poll_latched: "outcome w = Some r \<Longrightarrow> outcome (snd (w_poll W io w)) = Some r"
    and cancel_latched: "outcome w = Some r \<Longrightarrow> outcome (snd (w_cancel W io w)) = Some r"
    and advance_latched: "outcome w = Some r \<Longrightarrow> outcome (advance ev w) = Some r"
    and poll_outcome: "fst (w_poll W io w) = WResult r \<Longrightarrow> outcome (snd (w_poll W io w)) = Some r"
    and cancel_outcome: "fst (w_cancel W io w) = WResult r \<Longrightarrow> outcome (snd (w_cancel W io w)) = Some r"
begin

definition ended :: "'w option \<Rightarrow> bool \<Rightarrow> bool" where
  "ended w started \<longleftrightarrow> (case w of None \<Rightarrow> \<not> started | Some w \<Rightarrow> \<exists>r. outcome w = Some r \<and> is_clean r)"

lemma ended_cancel: "clean_reply (fst (w_cancel W io w)) \<Longrightarrow> ended (Some (snd (w_cancel W io w))) st"
  by (auto simp: ended_def clean_reply_def split: worker_reply.splits dest: cancel_outcome)

lemma ended_poll: "clean_reply (fst (w_poll W io w)) \<Longrightarrow> ended (Some (snd (w_poll W io w))) st"
  by (auto simp: ended_def clean_reply_def split: worker_reply.splits dest: poll_outcome)

lemma ended_start: "ended (Some w) st \<Longrightarrow> ended (Some (snd (w_start W d io w))) st'"
  by (auto simp: ended_def dest: start_latched)

lemma ended_polled: "ended (Some w) st \<Longrightarrow> ended (Some (snd (w_poll W io w))) st'"
  by (auto simp: ended_def dest: poll_latched)

lemma ended_canceled: "ended (Some w) st \<Longrightarrow> ended (Some (snd (w_cancel W io w))) st'"
  by (auto simp: ended_def dest: cancel_latched)

lemma ended_advance: "ended w st \<Longrightarrow> ended (map_option (advance ev) w) st"
  by (auto simp: ended_def split: option.splits dest: advance_latched)

subsection \<open>The transcription job\<close>

text \<open>A job claims that its worker is cleaned up only when the worker has published a clean result, or
  when there is no worker because nothing was started; a job that was never started is open or has
  been closed without a worker.\<close>

definition job_inv :: "'w transcription_job \<Rightarrow> bool" where
  "job_inv j \<longleftrightarrow> (tj_cleaned j = Some True \<longrightarrow> ended (tj_worker j) (tj_started j))
     \<and> (tj_worker j = None \<and> tj_started j \<longrightarrow> tj_cleaned j = None)
     \<and> (tj_worker j \<noteq> None \<longrightarrow> tj_started j)
     \<and> (tj_cleaned j \<noteq> None \<longrightarrow> tj_closed j)"

lemma job_inv_init: "job_inv job_init"
  by (simp add: job_inv_def job_init_def)

lemma job_inv_cancel:
  assumes "job_inv j"
  shows "job_inv (job_cancel W io j) \<and> tj_started (job_cancel W io j) = tj_started j
    \<and> (tj_worker (job_cancel W io j) = None \<longleftrightarrow> tj_worker j = None)"
proof (cases "tj_worker j")
  case (Some w)
  show ?thesis using assms Some ended_cancel[of io w]
    by (cases "w_cancel W io w") (auto simp: job_cancel_def Let_def job_inv_def)
qed (use assms in \<open>auto simp: job_cancel_def Let_def job_inv_def ended_def\<close>)

lemma job_inv_interrupted:
  assumes "job_inv j"
  shows "job_inv (interrupted W mid j) \<and> tj_started (interrupted W mid j) = tj_started j
    \<and> (tj_worker (interrupted W mid j) = None \<longleftrightarrow> tj_worker j = None)"
  using job_inv_cancel[OF assms] assms by (cases mid) (simp_all add: interrupted_def)

lemma job_inv_pending: "job_inv (j\<lparr>tj_pending := x\<rparr>) = job_inv j"
  by (simp add: job_inv_def)

lemma job_inv_start_failed: "job_inv j \<Longrightarrow> job_inv (job_start_failed W io g j)"
  using job_inv_cancel[of j io] by (simp add: job_start_failed_def Let_def job_inv_pending)

lemma job_inv_restart:
  "job_inv j \<Longrightarrow> tj_worker j = Some w \<Longrightarrow> job_inv (j\<lparr>tj_worker := Some (snd (w_start W d io w))\<rparr>)"
  by (auto simp: job_inv_def dest: ended_start)

lemma job_inv_repoll:
  "job_inv j \<Longrightarrow> tj_worker j = Some w \<Longrightarrow> job_inv (j\<lparr>tj_worker := Some (snd (w_poll W io w))\<rparr>)"
  by (auto simp: job_inv_def dest: ended_polled)

lemma job_inv_launch:
  assumes "job_inv j" and "tj_cleaned j = None" and "tj_started j"
  shows "job_inv (job_launch W pcm g factory mid2 io_start io_cancel j)"
proof (cases factory)
  case None
  with job_inv_start_failed[OF assms(1)] show ?thesis by (simp add: job_launch_def)
next
  case (Some w)
  let ?j = "interrupted W mid2 (j\<lparr>tj_worker := Some w\<rparr>)"
  have stored: "job_inv (j\<lparr>tj_worker := Some w\<rparr>)" using assms by (auto simp: job_inv_def)
  then obtain w' where j: "job_inv ?j" "tj_worker ?j = Some w'"
    using job_inv_interrupted[of "j\<lparr>tj_worker := Some w\<rparr>" mid2] by auto
  obtain ok w'' where s: "w_start W (Some (wav pcm)) io_start w' = (ok, w'')" by fastforce
  have "job_inv (?j\<lparr>tj_worker := Some w''\<rparr>)" using job_inv_restart[OF j, of "Some (wav pcm)" io_start] s by simp
  then show ?thesis
    using Some j(2) s stored job_inv_cancel[of "j\<lparr>tj_worker := Some w\<rparr>"] job_inv_start_failed
    by (simp add: job_launch_def Let_def)
qed

lemma job_inv_start:
  assumes "job_inv j"
  shows "job_inv (snd (job_start W pcm generation factory mid mid2 io_start io_cancel j))"
proof (cases "tj_started j \<or> tj_closed j")
  case False
  have "job_inv (interrupted W mid (j\<lparr>tj_started := True, tj_generation := Some g\<rparr>))
      \<and> tj_cleaned (interrupted W mid (j\<lparr>tj_started := True, tj_generation := Some g\<rparr>)) = None
      \<and> tj_started (interrupted W mid (j\<lparr>tj_started := True, tj_generation := Some g\<rparr>))" for g
    using False assms
    by (cases mid) (auto simp: interrupted_def job_cancel_def Let_def job_inv_def split: option.splits)
  then have "job_inv (job_launch W bs g factory mid2 io_start io_cancel
      (interrupted W mid (j\<lparr>tj_started := True, tj_generation := Some g\<rparr>)))" for bs g
    by (simp add: job_inv_launch)
  then show ?thesis using assms by (simp add: job_start_def split: option.splits pyv.splits)
qed (use assms in \<open>auto simp: job_start_def split: option.splits pyv.splits\<close>)

lemma job_inv_poll:
  assumes "job_inv j"
  shows "job_inv (snd (job_poll W io_poll mid io_cancel j))"
proof (cases "tj_pending j = None \<and> \<not> tj_closed j \<and> tj_worker j \<noteq> None")
  case True
  then obtain w where w: "tj_worker j = Some w" by auto
  obtain reply w' where p: "w_poll W io_poll w = (reply, w')" by fastforce
  let ?j = "interrupted W mid (j\<lparr>tj_worker := Some w'\<rparr>)"
  have polled: "job_inv (j\<lparr>tj_worker := Some w'\<rparr>)" using job_inv_repoll[OF assms w, of io_poll] p by simp
  then have inv: "job_inv ?j" using job_inv_interrupted by blast
  have "job_inv (?j\<lparr>tj_closed := True, tj_cleaned := Some (clean_reply reply)\<rparr>)" if "\<not> tj_closed ?j"
  proof -
    have "mid = None" using that by (cases mid) (auto simp: interrupted_def job_cancel_def Let_def split: option.splits prod.splits if_splits)
    then show ?thesis using polled ended_poll[of io_poll w "tj_started j"] p by (auto simp: interrupted_def job_inv_def)
  qed
  then show ?thesis using True w p inv job_inv_cancel[OF inv]
    by (cases reply) (simp_all add: job_poll_def Let_def)
qed (use assms in \<open>auto simp: job_poll_def job_inv_pending split: option.splits\<close>)

lemma job_inv_advance: "job_inv j \<Longrightarrow> job_inv (j\<lparr>tj_worker := map_option (advance ev) (tj_worker j)\<rparr>)"
  by (auto simp: job_inv_def dest: ended_advance[where ev = ev])

subsection \<open>The capture\<close>

definition pw_inv :: "'w pipewire_capture \<Rightarrow> bool" where
  "pw_inv c \<longleftrightarrow> (pw_cleaned c = Some True \<longrightarrow> ended (pw_worker c) (pw_started c))
     \<and> (pw_worker c = None \<longrightarrow> pw_cleaned c = None) \<and> (pw_worker c \<noteq> None \<longrightarrow> pw_started c)
     \<and> (pw_cleaned c \<noteq> None \<longrightarrow> pw_closed c)"

lemma pw_inv_init: "pw_inv pipewire_init"
  by (simp add: pw_inv_def pipewire_init_def)

lemma pw_inv_fields [simp]:
  "pw_inv (c\<lparr>pw_framer := f\<rparr>) = pw_inv c" "pw_inv (c\<lparr>pw_queue := q\<rparr>) = pw_inv c"
  "pw_inv (c\<lparr>pw_error := e\<rparr>) = pw_inv c" "pw_inv (c\<lparr>pw_total := t\<rparr>) = pw_inv c"
  by (simp_all add: pw_inv_def)

lemma pw_inv_cancel:
  assumes "pw_inv c" and "pw_cancel W io c = (b, c')"
  shows "pw_inv c' \<and> pw_started c' = pw_started c \<and> (pw_worker c' = None \<longleftrightarrow> pw_worker c = None)
    \<and> (b \<longrightarrow> ended (pw_worker c') (pw_started c')) \<and> pw_closed c'
    \<and> (ended (pw_worker c) (pw_started c) \<longrightarrow> ended (pw_worker c') (pw_started c'))"
proof (cases "pw_worker c")
  case None
  with assms show ?thesis by (auto simp: pw_cancel_def Let_def pw_inv_def ended_def)
next
  case (Some w)
  with assms ended_cancel[of io w "pw_started c"] ended_canceled[of w "pw_started c" io "pw_started c"] show ?thesis
    by (cases "w_cancel W io w") (auto simp: pw_cancel_def Let_def pw_inv_def split: option.splits)
qed

lemma pw_inv_cancel_snd [simp]: "pw_inv c \<Longrightarrow> pw_inv (snd (pw_cancel W io c))"
  using pw_inv_cancel by (metis prod.collapse)

lemma pw_inv_interrupted:
  assumes "pw_inv c"
  shows "pw_inv (pw_interrupted W mid c) \<and> pw_started (pw_interrupted W mid c) = pw_started c
    \<and> (pw_worker (pw_interrupted W mid c) = None \<longleftrightarrow> pw_worker c = None)
    \<and> (ended (pw_worker c) (pw_started c) \<longrightarrow> ended (pw_worker (pw_interrupted W mid c)) (pw_started c))"
proof (cases mid)
  case (Some io)
  then show ?thesis using pw_inv_cancel[OF assms, of io] by (cases "pw_cancel W io c") (auto simp: pw_interrupted_def)
qed (use assms in \<open>simp add: pw_interrupted_def\<close>)

lemma pw_inv_start_failed: "pw_inv c \<Longrightarrow> pw_inv (snd (pw_start_failed W io c))"
  by (simp add: pw_start_failed_def)

lemma pw_inv_launch:
  assumes "pw_inv c" and "pw_cleaned c = None" and "pw_started c"
  shows "pw_inv (snd (pw_launch W factory mid2 io_start io_cancel c))"
proof (cases factory)
  case None
  with pw_inv_start_failed[OF assms(1)] show ?thesis by (simp add: pw_launch_def)
next
  case (Some w)
  let ?c = "pw_interrupted W mid2 (c\<lparr>pw_worker := Some w\<rparr>)"
  have stored: "pw_inv (c\<lparr>pw_worker := Some w\<rparr>)" using assms by (auto simp: pw_inv_def)
  then obtain w' where c: "pw_inv ?c" "pw_worker ?c = Some w'"
    using pw_inv_interrupted[of "c\<lparr>pw_worker := Some w\<rparr>" mid2] by auto
  obtain ok w'' where s: "w_start W None io_start w' = (ok, w'')" by fastforce
  have "pw_inv (?c\<lparr>pw_worker := Some w''\<rparr>)"
    using c s ended_start[of w' "pw_started ?c" None io_start "pw_started ?c"] by (auto simp: pw_inv_def)
  then show ?thesis
    using Some c(2) s stored pw_inv_start_failed by (simp add: pw_launch_def Let_def)
qed

lemma pw_inv_start:
  assumes "pw_inv c"
  shows "pw_inv (snd (pw_start W source factory mid mid2 io_start io_cancel c))"
proof (cases "pw_started c \<or> pw_closed c")
  case False
  have "pw_inv (pw_interrupted W mid (c\<lparr>pw_started := True\<rparr>))
      \<and> pw_cleaned (pw_interrupted W mid (c\<lparr>pw_started := True\<rparr>)) = None
      \<and> pw_started (pw_interrupted W mid (c\<lparr>pw_started := True\<rparr>))"
    using False assms
    by (cases mid) (auto simp: pw_interrupted_def pw_cancel_def Let_def pw_inv_def split: option.splits)
  then show ?thesis using assms by (simp add: pw_start_def pw_inv_launch split: option.splits)
qed (use assms in \<open>auto simp: pw_start_def split: option.splits\<close>)

lemma pw_inv_receive: "pw_inv c \<Longrightarrow> pw_inv (snd (pw_receive chunk c))"
  by (simp add: pw_receive_def Let_def split: option.splits prod.splits sum.splits)

lemma pw_inv_settle:
  assumes "pw_inv c" and "clean_reply reply \<Longrightarrow> ended (pw_worker c) (pw_started c) \<and> pw_worker c \<noteq> None"
  shows "pw_inv (pw_settle reply c)"
  using assms
  by (cases reply) (auto simp: pw_settle_def Let_def clean_reply_def is_clean_def pw_inv_def split: prod.splits)

lemma pw_inv_poll:
  assumes "pw_inv c"
  shows "pw_inv (snd (pw_poll W io_poll mid io_cancel c))"
proof (cases "pw_worker c")
  case None
  have "pw_inv (pw_settle WNone (pw_interrupted W mid c))"
    using pw_inv_interrupted[OF assms] by (simp add: pw_settle_def)
  with None assms show ?thesis by (simp add: pw_poll_def Let_def split: option.splits)
next
  case (Some w)
  obtain reply w' where p: "w_poll W io_poll w = (reply, w')" by fastforce
  let ?c = "c\<lparr>pw_worker := Some w'\<rparr>"
  have polled: "pw_inv ?c" using assms Some p ended_polled[of w "pw_started c" io_poll "pw_started c"]
    by (auto simp: pw_inv_def)
  have "ended (pw_worker ?c) (pw_started ?c)" if "clean_reply reply" using ended_poll[of io_poll w] p that by simp
  then have "pw_inv (pw_settle reply (pw_interrupted W mid ?c))"
    using pw_inv_interrupted[OF polled, of mid] by (intro pw_inv_settle) auto
  with Some p assms show ?thesis by (simp add: pw_poll_def Let_def split: option.splits)
qed

lemma ended_job_cancel:
  assumes "job_inv j" and "ended (tj_worker j) (tj_started j)"
  shows "ended (tj_worker (job_cancel W io j)) (tj_started (job_cancel W io j))"
proof (cases "tj_worker j")
  case (Some w)
  with assms(2) ended_canceled[of w "tj_started j" io "tj_started j"] show ?thesis
    by (cases "w_cancel W io w") (auto simp: job_cancel_def Let_def)
qed (use assms in \<open>auto simp: job_cancel_def Let_def ended_def\<close>)

lemma pw_inv_advance: "pw_inv c \<Longrightarrow> pw_inv (c\<lparr>pw_worker := map_option (advance ev) (pw_worker c)\<rparr>)"
  by (auto simp: pw_inv_def dest: ended_advance[where ev = ev])

end

section \<open>The process keeps the contract\<close>

record process_io =
  px_pid :: int
  px_spawn :: spawn_reply
  px_thread :: bool
  px_cleanup :: cleanup_io
  px_joined :: "process_result option"

definition process_ops :: "(owned_process, process_io) worker_ops" where
  "process_ops = \<lparr>
     w_start = (\<lambda>d io p.
       case process_start (map_option Some d) \<lparr>si_pid = px_pid io, si_spawn = px_spawn io, si_thread = px_thread io,
           si_cleanup = px_cleanup io\<rparr> p of (e, p) \<Rightarrow> (e = None, p)),
     w_poll = (\<lambda>io. process_poll (px_pid io)),
     w_cancel = (\<lambda>io. process_cancel (px_joined io) (px_pid io))\<rparr>"

interpretation op: worker_contract process_ops op_result process_publish
  by unfold_locales
    (auto simp: process_ops_def process_start_def process_poll_def process_cancel_def process_publish_def Let_def
      split: option.splits if_splits prod.splits)

text \<open>A client's process is settled: it never was started, or its published result proves the cleanup.\<close>

definition settled :: "owned_process option \<Rightarrow> bool \<Rightarrow> bool" where
  "settled w started =
    (case w of None \<Rightarrow> \<not> started | Some p \<Rightarrow> (case op_result p of None \<Rightarrow> False | Some r \<Rightarrow> is_clean r))"

lemma ended_settled: "op.ended w started = settled w started"
  by (auto simp: op.ended_def settled_def split: option.splits)

text \<open>A cancellation that comes while the worker is built is reported as a failed start.\<close>

lemma pw_launch_code: "fst (pw_launch W w mid2 i i2 c) \<in> {None, Some ''capture.start-failed''}"
  by (auto simp: pw_launch_def pw_start_failed_def Let_def split: option.splits prod.splits)

section \<open>Histories of calls\<close>

datatype job_call =
    JobStart "byte list option" pyv "owned_process option" "process_io option" "process_io option" process_io process_io
  | JobPoll process_io "process_io option" process_io
  | JobCancel process_io
  | JobSupervisor process_result

fun job_step :: "job_call \<Rightarrow> owned_process transcription_job \<Rightarrow> owned_process transcription_job" where
  "job_step (JobStart pcm g f m m2 i i2) j = snd (job_start process_ops pcm g f m m2 i i2 j)"
| "job_step (JobPoll i m i2) j = snd (job_poll process_ops i m i2 j)"
| "job_step (JobCancel i) j = job_cancel process_ops i j"
| "job_step (JobSupervisor r) j = j\<lparr>tj_worker := map_option (process_publish r) (tj_worker j)\<rparr>"

definition job_run :: "job_call list \<Rightarrow> owned_process transcription_job" where
  "job_run cs = fold job_step cs job_init"

lemma job_run_inv: "op.job_inv (job_run cs)"
proof -
  have "op.job_inv (fold job_step cs j)" if "op.job_inv j" for j
    using that
  proof (induction cs arbitrary: j)
    case (Cons c cs)
    have "op.job_inv (job_step c j)" using Cons.prems op.job_inv_cancel
      by (cases c) (simp_all add: op.job_inv_start op.job_inv_poll op.job_inv_advance)
    with Cons.IH show ?case by simp
  qed simp
  then show ?thesis by (simp add: job_run_def op.job_inv_init)
qed

datatype pw_call =
    PwStart pyv "owned_process option" "process_io option" "process_io option" process_io process_io
  | PwReceive "byte list option"
  | PwPoll process_io "process_io option" process_io
  | PwCancel process_io
  | PwSupervisor process_result

text \<open>A capture with the bytes it accepted and the frames it handed out.\<close>

record pw_history =
  ph_capture :: "owned_process pipewire_capture"
  ph_got :: "byte list"
  ph_given :: "byte list list"

fun pw_step :: "pw_call \<Rightarrow> pw_history \<Rightarrow> pw_history" where
  "pw_step (PwStart src w m m2 i i2) h =
    h\<lparr>ph_capture := snd (pw_start process_ops src (\<lambda>argv. w) m m2 i i2 (ph_capture h))\<rparr>"
| "pw_step (PwReceive chunk) h =
    (case pw_receive chunk (ph_capture h) of (e, c) \<Rightarrow>
      h\<lparr>ph_capture := c, ph_got := ph_got h @ (case chunk of Some bs \<Rightarrow> if e = None then bs else [] | None \<Rightarrow> [])\<rparr>)"
| "pw_step (PwPoll i m i2) h =
    (case pw_poll process_ops i m i2 (ph_capture h) of (r, c) \<Rightarrow>
      h\<lparr>ph_capture := c, ph_given := ph_given h @ (case r of Inl e \<Rightarrow> [] | Inr fs \<Rightarrow> fs)\<rparr>)"
| "pw_step (PwCancel i) h = h\<lparr>ph_capture := snd (pw_cancel process_ops i (ph_capture h))\<rparr>"
| "pw_step (PwSupervisor r) h =
    h\<lparr>ph_capture := (ph_capture h)\<lparr>pw_worker := map_option (process_publish r) (pw_worker (ph_capture h))\<rparr>\<rparr>"

definition pw_run :: "pw_call list \<Rightarrow> pw_history" where
  "pw_run cs = fold pw_step cs \<lparr>ph_capture = pipewire_init, ph_got = [], ph_given = []\<rparr>"

lemma pw_run_inv: "op.pw_inv (ph_capture (pw_run cs))"
proof -
  have "op.pw_inv (ph_capture (fold pw_step cs h))" if "op.pw_inv (ph_capture h)" for h
    using that
  proof (induction cs arbitrary: h)
    case (Cons c cs)
    have "op.pw_inv (ph_capture (pw_step c h))" using Cons.prems
      by (cases c) (simp_all add: op.pw_inv_start op.pw_inv_advance op.pw_inv_receive op.pw_inv_poll case_prod_beta)
    with Cons.IH show ?case by simp
  qed simp
  then show ?thesis by (simp add: pw_run_def op.pw_inv_init)
qed

section \<open>The stream of a capture\<close>

text \<open>The bounds of a capture: at most 16 whole frames wait, and at most 480000 bytes were accepted.\<close>

definition pw_bounded :: "pw_history \<Rightarrow> bool" where
  "pw_bounded h \<longleftrightarrow> length (pw_queue (ph_capture h)) \<le> 16
     \<and> (\<forall>f \<in> set (pw_queue (ph_capture h)) \<union> set (ph_given h). length f = 640)
     \<and> int (length (ph_got h)) = pw_total (ph_capture h) \<and> pw_total (ph_capture h) \<le> 480000"

lemma pw_cancel_fields [simp]:
  "pw_queue (snd (pw_cancel W io c)) = []" "pw_total (snd (pw_cancel W io c)) = pw_total c"
  "pw_framer (snd (pw_cancel W io c)) = pw_framer c" "pw_error (snd (pw_cancel W io c)) = pw_error c"
  by (simp_all add: pw_cancel_def Let_def split: option.splits prod.splits)

lemma pw_interrupted_fields [simp]:
  "pw_total (pw_interrupted W mid c) = pw_total c" "pw_framer (pw_interrupted W mid c) = pw_framer c"
  "pw_error (pw_interrupted W mid c) = pw_error c"
  "pw_queue (pw_interrupted W mid c) = (if mid = None then pw_queue c else [])"
  by (cases mid; simp add: pw_interrupted_def)+

lemma pw_launch_fields [simp]:
  "pw_total (snd (pw_launch W w m i i2 c)) = pw_total c"
  "pw_framer (snd (pw_launch W w m i i2 c)) = pw_framer c"
  "pw_queue (snd (pw_launch W w m i i2 c)) \<in> {[], pw_queue c}"
  by (auto simp: pw_launch_def pw_start_failed_def Let_def split: option.splits prod.splits)

lemma pw_start_fields:
  "pw_total (snd (pw_start W s f m m2 i i2 c)) = pw_total c"
  "pw_framer (snd (pw_start W s f m m2 i i2 c)) = pw_framer c"
  "pw_queue (snd (pw_start W s f m m2 i i2 c)) \<in> {[], pw_queue c}"
proof -
  let ?c = "pw_interrupted W m (c\<lparr>pw_started := True\<rparr>)"
  have "pw_queue (snd (pw_launch W w m2 i i2 ?c)) \<in> {[], pw_queue c}" for w
    using pw_launch_fields(3)[of W w m2 i i2 ?c] by (simp split: if_splits)
  then show "pw_queue (snd (pw_start W s f m m2 i i2 c)) \<in> {[], pw_queue c}"
    by (simp add: pw_start_def split: option.splits)
qed (simp_all add: pw_start_def split: option.splits)

lemma pw_settle_fields [simp]:
  "pw_total (pw_settle r c) = pw_total c" "pw_queue (pw_settle r c) = pw_queue c"
  by (simp_all add: pw_settle_def Let_def split: prod.splits)

lemma pw_poll_fields:
  assumes "pw_poll W i m i2 c = (r, c')"
  shows "pw_total c' = pw_total c \<and> (pw_queue c' = [] \<or> c' = c)
    \<and> (\<forall>fs. r = Inr fs \<longrightarrow> set fs \<subseteq> set (pw_queue c))"
  using assms by (auto simp: pw_poll_def Let_def case_prod_beta split: option.splits if_splits)

lemma pw_bounded_step: "pw_bounded h \<Longrightarrow> pw_bounded (pw_step c h)"
proof (induction c h rule: pw_step.induct)
  case (1 src w m m2 i i2 h)
  then show ?case using pw_start_fields[of process_ops src "\<lambda>argv. w" m m2 i i2 "ph_capture h"]
    by (auto simp: pw_bounded_def)
next
  case (2 chunk h)
  show ?case
    using 2 by (auto simp: pw_bounded_def pw_receive_def Let_def split: option.splits prod.splits sum.splits if_splits
        dest: framer_feed_ok)
next
  case (3 i m i2 h)
  obtain r c where p: "pw_poll process_ops i m i2 (ph_capture h) = (r, c)" by fastforce
  from pw_poll_fields[OF p] 3 p show ?case by (cases r) (auto simp: pw_bounded_def)
qed (auto simp: pw_bounded_def)

text \<open>While nobody cancels and no error is recorded, the frames handed out, the frames that wait and the
  unfinished frame are the accepted bytes in order.\<close>

fun undisturbed :: "pw_call \<Rightarrow> bool" where
  "undisturbed (PwStart src w m m2 i i2) \<longleftrightarrow> m = None \<and> m2 = None"
| "undisturbed (PwPoll i m i2) \<longleftrightarrow> m = None"
| "undisturbed (PwCancel i) \<longleftrightarrow> False"
| "undisturbed _ \<longleftrightarrow> True"

definition pw_lossless :: "pw_history \<Rightarrow> bool" where
  "pw_lossless h \<longleftrightarrow> pw_error (ph_capture h) = None \<longrightarrow>
     concat (ph_given h) @ concat (pw_queue (ph_capture h)) @ pf_remainder (pw_framer (ph_capture h)) = ph_got h"

lemma pw_start_quiet:
  assumes "pw_start W s f None None i i2 c = (e, c')" and "pw_error c' = None"
  shows "pw_queue c' = pw_queue c \<and> pw_framer c' = pw_framer c \<and> pw_error c = None"
  using assms
  by (auto simp: pw_start_def pw_launch_def pw_start_failed_def pw_interrupted_def Let_def
      split: option.splits if_splits prod.splits)

lemma framer_finish_ok: "framer_finish f = (None, f') \<Longrightarrow> pf_remainder f' = [] \<and> pf_remainder f = []"
  by (auto simp: framer_finish_def split: if_splits)

lemma pw_settle_quiet:
  assumes "pw_error (pw_settle reply c) = None"
  shows "pf_remainder (pw_framer (pw_settle reply c)) = pf_remainder (pw_framer c) \<and> pw_error c = None"
  using assms by (auto simp: pw_settle_def Let_def split: prod.splits if_splits worker_reply.splits dest: framer_finish_ok)

lemma pw_poll_quiet:
  assumes "pw_poll W i None i2 c = (r, c')" and "pw_error c' = None"
  shows "pw_error c = None \<and> pf_remainder (pw_framer c') = pf_remainder (pw_framer c)
    \<and> (\<exists>fs. r = Inr fs \<and> concat fs @ concat (pw_queue c') = concat (pw_queue c))"
proof (cases "pw_closed c \<and> pw_error c = None")
  case False
  define p where "p = (case pw_worker c of None \<Rightarrow> (WNone, c)
    | Some w \<Rightarrow> (case w_poll W i w of (reply, w) \<Rightarrow> (reply, c\<lparr>pw_worker := Some w\<rparr>)))"
  let ?c = "pw_settle (fst p) (snd p)"
  have same: "pw_queue (snd p) = pw_queue c" "pw_error (snd p) = pw_error c" "pw_framer (snd p) = pw_framer c"
    by (auto simp: p_def split: option.splits prod.splits)
  have poll: "pw_poll W i None i2 c = (case pw_error ?c of
      Some e \<Rightarrow> (Inl e, snd (pw_cancel W i2 (?c\<lparr>pw_queue := []\<rparr>)))
    | None \<Rightarrow> (Inr (pw_queue ?c), ?c\<lparr>pw_queue := []\<rparr>))"
    using False by (auto simp: pw_poll_def Let_def p_def[symmetric] case_prod_beta pw_interrupted_def)
  then have "pw_error ?c = None" using assms by (auto split: option.splits)
  with poll assms(1) pw_settle_quiet[OF this] same show ?thesis by auto
qed (use assms in \<open>auto simp: pw_poll_def\<close>)

lemma pw_lossless_step: "pw_lossless h \<Longrightarrow> undisturbed c \<Longrightarrow> pw_lossless (pw_step c h)"
proof (induction c h rule: pw_step.induct)
  case (1 src w m m2 i i2 h)
  obtain e c where s: "pw_start process_ops src (\<lambda>argv. w) m m2 i i2 (ph_capture h) = (e, c)" by fastforce
  with 1 pw_start_quiet[of process_ops src "\<lambda>argv. w" i i2 "ph_capture h" e c] show ?case
    by (auto simp: pw_lossless_def)
next
  case (2 chunk h)
  show ?case using 2
    by (auto simp: pw_lossless_def pw_receive_def Let_def split: option.splits prod.splits sum.splits
        dest!: framer_feed_ok)
next
  case (3 i m i2 h)
  obtain r c where p: "pw_poll process_ops i None i2 (ph_capture h) = (r, c)" by fastforce
  from pw_poll_quiet[OF p] 3 p show ?case by (auto simp: pw_lossless_def) (metis append_assoc)
qed (auto simp: pw_lossless_def)

lemma pw_run_bounded: "pw_bounded (pw_run cs)"
proof -
  have "pw_bounded (fold pw_step cs h)" if "pw_bounded h" for h
    using that by (induction cs arbitrary: h) (simp_all add: pw_bounded_step)
  moreover have "pw_bounded \<lparr>ph_capture = pipewire_init, ph_got = [], ph_given = []\<rparr>"
    by (simp add: pw_bounded_def pipewire_init_def)
  ultimately show ?thesis unfolding pw_run_def by blast
qed

lemma pw_run_lossless: "list_all undisturbed cs \<Longrightarrow> pw_lossless (pw_run cs)"
proof -
  have "pw_lossless (fold pw_step cs h)" if "pw_lossless h" "list_all undisturbed cs" for h
    using that by (induction cs arbitrary: h) (simp_all add: pw_lossless_step)
  moreover have "pw_lossless \<lparr>ph_capture = pipewire_init, ph_got = [], ph_given = []\<rparr>"
    by (simp add: pw_lossless_def pipewire_init_def framer_init_def)
  ultimately show "list_all undisturbed cs \<Longrightarrow> pw_lossless (pw_run cs)" unfolding pw_run_def by blast
qed

section \<open>What a transcript may hold\<close>

definition scalar :: "int \<Rightarrow> bool" where
  "scalar c \<longleftrightarrow> c < 1114112 \<and> \<not> (55296 \<le> c \<and> c < 57344)"

lemma scalar_two: "b < 224 \<Longrightarrow> cont c \<Longrightarrow> scalar ((b - 192) * 64 + (c - 128))"
  unfolding scalar_def cont_def by auto

lemma scalar_three:
  assumes "224 \<le> b" "b < 240" "cont c" "cont d" "b = 237 \<longrightarrow> c < 160"
  shows "scalar ((b - 224) * 4096 + (c - 128) * 64 + (d - 128))"
proof -
  consider "b \<le> 236" | "b = 237" | "238 \<le> b" by linarith
  then show ?thesis using assms unfolding scalar_def cont_def by cases (linarith | simp)+
qed

lemma scalar_four:
  assumes "240 \<le> b" "b < 245" "cont c" "cont d" "cont e" "b = 240 \<longrightarrow> 144 \<le> c" "b = 244 \<longrightarrow> c < 144"
  shows "scalar ((b - 240) * 262144 + (c - 128) * 4096 + (d - 128) * 64 + (e - 128))"
proof -
  consider "b = 240" | "241 \<le> b" "b \<le> 243" | "b = 244" using assms(1,2) by linarith
  then show ?thesis using assms unfolding scalar_def cont_def by cases (linarith | simp)+
qed

lemma utf8_scalar: "utf8 bs = Some t \<Longrightarrow> list_all scalar t"
proof (induction "length bs" arbitrary: bs t rule: less_induct)
  case less
  show ?case
  proof (cases bs)
    case (Cons b rest)
    have tail: "list_all scalar u" if "utf8 cs = Some u" "length cs \<le> length rest" for cs u
      using less.hyps[of cs u] that Cons by simp
    show ?thesis
    proof (cases "b < 128")
      case True
      then show ?thesis using less.prems Cons tail by (auto simp: scalar_def)
    next
      case False
      show ?thesis using less.prems Cons False tail scalar_two scalar_three scalar_four
        by (auto split: if_splits list.splits)
    qed
  qed (use less.prems in simp)
qed

lemma wav_length: "length (wav pcm) = 44 + length pcm"
  by (simp add: wav_def ascii_def le16_def le32_def)

text \<open>The WAV stream of an accepted recording is within the bound of the process input.\<close>

lemma wav_accepted:
  assumes "int (length pcm) \<le> 480000"
  shows "fst (process_start (Some (Some (wav pcm))) io p) \<noteq> Some ''input must be bounded immutable bytes''"
  using assms by (simp add: process_start_def wav_length Let_def)

section \<open>Properties\<close>

definition sample_process :: owned_process where
  "sample_process = \<lparr>op_config = \<lparr>pc_argv = [''/usr/bin/stt''], pc_max_output = 4096, pc_timeout = 10,
       pc_consumer = False, pc_max_stdout = 4096, pc_idle = None\<rparr>,
     op_creator = 7, op_started = False, op_running = False, op_cancel = False, op_result = None\<rparr>"

definition sample_io :: "process_result option \<Rightarrow> process_io" where
  "sample_io joined = \<lparr>px_pid = 7, px_spawn = Spawned, px_thread = True,
     px_cleanup = \<lparr>ci_term = Signaled, ci_kill = NoSuchGroup, ci_waited = True, ci_probe = NoSuchGroup,
       ci_closed = [True, True, True]\<rparr>,
     px_joined = joined\<rparr>"

definition sample_audio :: "byte list" where
  "sample_audio = replicate 640 1"

text \<open>C16: A claim that a worker is cleaned up is true. After any history of starts, polls, cancels and steps
  of the supervisor, with cancels of another thread falling between the locked regions of a start or
  poll: when a transcription job says its cleanup is proven, and when the cancel of a capture returns
  true, no process was ever started, or the process has published a result that is not uncertain.\<close>

theorem cleanup_claims_sound:
  shows "(cleanup_proven (job_run cs) \<longrightarrow> settled (tj_worker (job_run cs)) (tj_started (job_run cs)))
    \<and> (pw_cancel process_ops io (ph_capture (pw_run ds)) = (True, c) \<longrightarrow> settled (pw_worker c) (pw_started c))"
  using job_run_inv[of cs] op.pw_inv_cancel[OF pw_run_inv[of ds], of io True c]
  by (auto simp: cleanup_proven_def op.job_inv_def ended_settled)

theorem cleanup_claims_sound_witness:
  "settled (tj_worker (job_run [JobStart (Some sample_audio) (VInt 3) (Some sample_process) None (Some (sample_io None))
      (sample_io None) (sample_io None)])) True"
proof -
  let ?cs = "[JobStart (Some sample_audio) (VInt 3) (Some sample_process) None (Some (sample_io None))
      (sample_io None) (sample_io None)]"
  have "cleanup_proven (job_run ?cs) \<and> tj_started (job_run ?cs)"
    by (simp add: cleanup_proven_def job_run_def job_init_def job_start_def job_launch_def interrupted_def
        job_start_failed_def job_cancel_def process_ops_def process_cancel_def process_publish_def process_start_def
        clean_reply_def is_clean_def process_result_of_def sample_audio_def sample_process_def sample_io_def wav_length Let_def)
  with cleanup_claims_sound[of ?cs "sample_io None" "[]"] show ?thesis by simp
qed

text \<open>Captured audio is bounded and complete. After any history of a capture, at most 16 frames wait,
  every frame that waits or was handed out has 640 bytes, and at most 480000 bytes were accepted. As
  long as nobody cancels and no error is recorded, the frames handed out, the frames that wait and the
  unfinished frame are exactly the accepted bytes, in order.\<close>

theorem capture_stream_faithful:
  assumes "pw_run cs = h" and "c = ph_capture h"
  shows "length (pw_queue c) \<le> 16 \<and> (\<forall>f \<in> set (pw_queue c) \<union> set (ph_given h). length f = 640)
    \<and> int (length (ph_got h)) \<le> 480000
    \<and> (list_all undisturbed cs \<and> pw_error c = None \<longrightarrow>
        concat (ph_given h) @ concat (pw_queue c) @ pf_remainder (pw_framer c) = ph_got h)"
  using pw_run_bounded[of cs] pw_run_lossless[of cs] assms by (auto simp: pw_bounded_def pw_lossless_def)

theorem capture_stream_faithful_witness:
  "concat (ph_given (pw_run [PwReceive (Some sample_audio), PwPoll (sample_io None) None (sample_io None), PwReceive (Some [5])])) @ [5]
    = sample_audio @ [5]"
proof -
  let ?h = "pw_run [PwReceive (Some sample_audio), PwPoll (sample_io None) None (sample_io None), PwReceive (Some [5])]"
  have "pw_error (ph_capture ?h) = None \<and> concat (pw_queue (ph_capture ?h)) @ pf_remainder (pw_framer (ph_capture ?h)) = [5]
    \<and> ph_got ?h = sample_audio @ [5]"
    by code_simp
  with capture_stream_faithful[OF refl refl, of "[PwReceive (Some sample_audio), PwPoll (sample_io None) None (sample_io None), PwReceive (Some [5])]"]
  show ?thesis by simp
qed

end
