(* ===== verification/Voice_Dictation.thy ===== *)
theory Voice_Dictation
  imports Contracts Voice_Workers
begin

text \<open>
  Dictation with Home and End: \<open>Dictation\<close> of \<open>src/runtime/voice/dictation.py\<close>. Capture, transcription,
  focus, output and observer are injected; what each call of them answers is an argument of the
  operation, and the operation returns the calls it made, in order. While an operation calls out, the
  state is \<open>processing\<close>, and a call back into the dictation is refused without an effect.
\<close>

record focus_token =
  ft_window_id :: string
  ft_generation :: int

definition focus_token_init :: "pyv \<Rightarrow> pyv \<Rightarrow> string + focus_token" where
  "focus_token_init window generation =
    (case (window, generation) of
       (VStr w, VInt g) \<Rightarrow>
         if w = [] \<or> g < 0 then Inl ''invalid focus token'' else Inr \<lparr>ft_window_id = w, ft_generation = g\<rparr>
     | _ \<Rightarrow> Inl ''invalid focus token'')"

datatype delivery = Delivered | NotDelivered | DeliveryUncertain

definition delivery_init :: "pyv \<Rightarrow> string + delivery" where
  "delivery_init status =
    (if status = VStr ''delivered'' then Inr Delivered
     else if status = VStr ''not-delivered'' then Inr NotDelivered
     else if status = VStr ''uncertain'' then Inr DeliveryUncertain
     else Inl ''invalid delivery state'')"

fun delivery_name :: "delivery \<Rightarrow> string" where
  "delivery_name Delivered = ''delivered''"
| "delivery_name NotDelivered = ''not-delivered''"
| "delivery_name DeliveryUncertain = ''uncertain''"

record dictation_result =
  dr_status :: string
  dr_code :: string
  dr_delivery :: "string option"

definition dict_result :: "string \<Rightarrow> string \<Rightarrow> dictation_result" where
  "dict_result status cd = \<lparr>dr_status = status, dr_code = cd, dr_delivery = None\<rparr>"

datatype dictation_state = DIdle | DProcessing | DRecording | DFaulted

fun dictation_state_name :: "dictation_state \<Rightarrow> string" where
  "dictation_state_name DIdle = ''idle''"
| "dictation_state_name DProcessing = ''processing''"
| "dictation_state_name DRecording = ''recording''"
| "dictation_state_name DFaulted = ''faulted''"

record dictation =
  dc_provider :: provider
  dc_state :: dictation_state
  dc_target :: "focus_token option"
  dc_interaction :: "string option"

text \<open>The calls an operation makes. A notice carries the interaction, phase, status and code.\<close>

datatype dictation_call =
    Notice "string option" string string string
  | StartCapture
  | StopCapture
  | CancelCapture
  | Transcribe "byte list"
  | TypeText codepoints focus_token
  | CopyText codepoints

definition dictation_init :: "rec \<Rightarrow> contract_error + dictation" where
  "dictation_init r =
    (case snapshot r of
       Inl e \<Rightarrow> Inl e
     | Inr (RProvider p) \<Rightarrow> Inr \<lparr>dc_provider = p, dc_state = DIdle, dc_target = None, dc_interaction = None\<rparr>
     | Inr _ \<Rightarrow> Inl (ExpectedRecord ''dictation requires a Provider''))"

definition notice_of :: "dictation \<Rightarrow> string \<Rightarrow> dictation_result \<Rightarrow> dictation_call" where
  "notice_of d phase r = Notice (dc_interaction d) phase (dr_status r) (dr_code r)"

text \<open>\<open>_cleanup\<close>: \<open>ok\<close> says whether \<open>capture.cancel()\<close> returned.\<close>

definition dict_cleanup :: "bool \<Rightarrow> dictation \<Rightarrow> dictation" where
  "dict_cleanup ok d = d\<lparr>dc_state := if ok then DIdle else DFaulted\<rparr>"

definition dict_complete ::
  "bool \<Rightarrow> dictation_result \<Rightarrow> bool \<Rightarrow> dictation \<Rightarrow> dictation_call list \<Rightarrow> dictation_result \<times> dictation \<times> dictation_call list" where
  "dict_complete noted r attempted d calls =
    (let faulted = (dc_state d = DFaulted)
     in (if noted then r
         else dict_result (if attempted \<or> faulted then ''uncertain'' else ''blocked'') ''observation.unavailable'',
         d\<lparr>dc_target := None, dc_state := if faulted then DFaulted else DIdle\<rparr>,
         calls @ [notice_of d ''dictation.finished'' r]))"

definition provider_usable :: "provider \<Rightarrow> bool" where
  "provider_usable p \<longleftrightarrow> prv_placement p = ''vm'' \<and> prv_enabled p \<and> prv_health p \<noteq> ''unavailable''
     \<and> ''transcription'' \<in> set (prv_capabilities p)"

record home_io =
  hi_interaction :: string
  hi_focus :: "focus_token reply"
  hi_starting :: bool
  hi_start :: bool
  hi_cancel :: bool
  hi_finished :: bool

definition home :: "home_io \<Rightarrow> dictation \<Rightarrow> dictation_result \<times> dictation \<times> dictation_call list" where
  "home io d =
    (if dc_state d \<noteq> DIdle
     then (dict_result ''blocked'' (if dc_state d = DFaulted then ''capture.faulted'' else ''capture.busy''), d, [])
     else
       let d = d\<lparr>dc_state := DProcessing, dc_interaction := Some (hi_interaction io)\<rparr>
       in if \<not> provider_usable (dc_provider d)
          then dict_complete (hi_finished io) (dict_result ''blocked'' ''provider.unavailable'') False d []
          else case hi_focus io of
            Gives f \<Rightarrow>
              (let d = d\<lparr>dc_target := Some f\<rparr>; r = dict_result ''recording'' ''capture.started'';
                   calls = [notice_of d ''dictation.starting'' r]
               in if \<not> hi_starting io
                  then (dict_result ''blocked'' ''observation.unavailable'', d\<lparr>dc_target := None, dc_state := DIdle\<rparr>, calls)
                  else if hi_start io then (r, d\<lparr>dc_state := DRecording\<rparr>, calls @ [StartCapture])
                  else dict_complete (hi_finished io)
                    (dict_result (if hi_cancel io then ''failed'' else ''uncertain'') ''capture.failed'') False
                    (dict_cleanup (hi_cancel io) d) (calls @ [StartCapture, CancelCapture]))
          | _ \<Rightarrow> dict_complete (hi_finished io) (dict_result ''blocked'' ''focus.unavailable'') False d [])"

record end_io =
  ei_stop :: "byte list reply"
  ei_cancel :: bool
  ei_processing :: bool
  ei_transcribe :: "codepoints reply"
  ei_focus :: "focus_token reply"
  ei_type :: "delivery reply"
  ei_focus2 :: "focus_token reply"
  ei_copy :: "delivery reply"
  ei_finished :: bool

text \<open>The focus check before an output: \<open>Some code\<close> when the result is blocked.\<close>

definition focus_block :: "focus_token reply \<Rightarrow> focus_token option \<Rightarrow> string option" where
  "focus_block reply target =
    (case reply of
       Raises \<Rightarrow> Some ''focus.unavailable''
     | Other \<Rightarrow> Some ''focus.changed''
     | Gives f \<Rightarrow> if Some f = target then None else Some ''focus.changed'')"

definition delivered_result :: "delivery \<Rightarrow> string \<Rightarrow> dictation_result" where
  "delivered_result dv route =
    \<lparr>dr_status = (case dv of Delivered \<Rightarrow> ''success'' | NotDelivered \<Rightarrow> ''failed'' | DeliveryUncertain \<Rightarrow> ''uncertain''),
     dr_code = ''output.'' @ delivery_name dv, dr_delivery = Some route\<rparr>"

text \<open>The text reaches the window by typing, and the clipboard when nothing was typed.\<close>

definition deliver ::
  "end_io \<Rightarrow> codepoints \<Rightarrow> focus_token \<Rightarrow> dictation \<Rightarrow> dictation_call list \<Rightarrow> dictation_result \<times> dictation \<times> dictation_call list" where
  "deliver io t target d calls =
    (let fin = dict_complete (ei_finished io);
         calls = calls @ [TypeText t target]
     in case ei_type io of
       Gives NotDelivered \<Rightarrow>
         (case focus_block (ei_focus2 io) (dc_target d) of
            Some cd \<Rightarrow> fin (dict_result ''blocked'' cd) False d calls
          | None \<Rightarrow>
              (let calls = calls @ [CopyText t]
               in case ei_copy io of
                 Gives dv \<Rightarrow> fin (delivered_result dv ''clipboard'') True d calls
               | _ \<Rightarrow> fin (dict_result ''uncertain'' ''output.uncertain'') True d calls))
     | Gives dv \<Rightarrow> fin (delivered_result dv ''typing'') True d calls
     | _ \<Rightarrow> fin (dict_result ''uncertain'' ''output.uncertain'') True d calls)"

definition transcribed :: "end_io \<Rightarrow> byte list \<Rightarrow> codepoints option" where
  "transcribed io audio =
    (if audio = [] then None
     else case ei_transcribe io of Gives t \<Rightarrow> if strip_cp t = [] then None else Some t | _ \<Rightarrow> None)"

definition dict_end :: "end_io \<Rightarrow> dictation \<Rightarrow> dictation_result \<times> dictation \<times> dictation_call list" where
  "dict_end io d =
    (if dc_state d \<noteq> DRecording
     then (dict_result ''blocked'' (''capture.'' @ dictation_state_name (dc_state d)), d, [])
     else
       let d = d\<lparr>dc_state := DProcessing\<rparr>; fin = dict_complete (ei_finished io)
       in case ei_stop io of
            Raises \<Rightarrow> fin (dict_result (if ei_cancel io then ''failed'' else ''uncertain'') ''capture.failed'') False
              (dict_cleanup (ei_cancel io) d) [StopCapture, CancelCapture]
          | stopped \<Rightarrow>
              (let processing = dict_result ''processing'' ''capture.stopped'';
                   calls = [StopCapture, notice_of d ''dictation.processing'' processing]
               in if \<not> ei_processing io then fin (dict_result ''blocked'' ''observation.unavailable'') False d calls
                  else case stopped of
                    Gives audio \<Rightarrow>
                      (let calls = (if audio = [] then calls else calls @ [Transcribe audio])
                       in case (transcribed io audio, dc_target d) of
                         (Some t, Some target) \<Rightarrow>
                           (case focus_block (ei_focus io) (dc_target d) of
                              Some cd \<Rightarrow> fin (dict_result ''blocked'' cd) False d calls
                            | None \<Rightarrow> deliver io t target d calls)
                       | _ \<Rightarrow> fin (dict_result ''failed'' ''transcription.failed'') False d calls)
                  | _ \<Rightarrow> fin (dict_result ''failed'' ''transcription.failed'') False d calls))"

text \<open>\<open>cancel\<close>: the arguments say whether \<open>capture.cancel()\<close> and the observer return.\<close>

definition dict_cancel :: "bool \<Rightarrow> bool \<Rightarrow> dictation \<Rightarrow> dictation_result \<times> dictation \<times> dictation_call list" where
  "dict_cancel clean noted d =
    (if dc_state d \<noteq> DRecording
     then (dict_result ''blocked'' (''capture.'' @ dictation_state_name (dc_state d)), d, [])
     else dict_complete noted
       (if clean then dict_result ''canceled'' ''capture.canceled'' else dict_result ''uncertain'' ''capture.faulted'')
       False (dict_cleanup clean (d\<lparr>dc_state := DProcessing\<rparr>)) [CancelCapture])"

section \<open>Histories\<close>

datatype dictation_key = KHome home_io | KEnd end_io | KCancel bool bool

fun dict_step :: "dictation_key \<Rightarrow> dictation \<Rightarrow> dictation_result \<times> dictation \<times> dictation_call list" where
  "dict_step (KHome io) d = home io d"
| "dict_step (KEnd io) d = dict_end io d"
| "dict_step (KCancel c ob) d = dict_cancel c ob d"

fun dict_run :: "dictation_key list \<Rightarrow> dictation \<Rightarrow> dictation \<times> dictation_call list" where
  "dict_run [] d = (d, [])"
| "dict_run (k # ks) d = (case dict_step k d of (r, d', cs) \<Rightarrow> case dict_run ks d' of (d'', cs') \<Rightarrow> (d'', cs @ cs'))"

text \<open>At rest a target exists exactly while a recording runs, which a usable provider was needed for.\<close>

definition dict_inv :: "dictation \<Rightarrow> bool" where
  "dict_inv d \<longleftrightarrow> dc_state d \<noteq> DProcessing \<and> (dc_target d \<noteq> None \<longleftrightarrow> dc_state d = DRecording)
     \<and> (dc_state d = DRecording \<longrightarrow> provider_usable (dc_provider d))"

lemma dict_complete_inv [simp]: "dict_inv (fst (snd (dict_complete ob r a d cs)))"
  by (simp add: dict_complete_def dict_inv_def Let_def)

lemma dict_complete_provider [simp]: "dc_provider (fst (snd (dict_complete ob r a d cs))) = dc_provider d"
  by (simp add: dict_complete_def Let_def)

lemma deliver_inv [simp]:
  "dict_inv (fst (snd (deliver io t f d cs)))" "dc_provider (fst (snd (deliver io t f d cs))) = dc_provider d"
  by (simp_all add: deliver_def Let_def split: reply.splits delivery.splits option.splits)

lemma home_inv: "dict_inv d \<Longrightarrow> dict_inv (fst (snd (home io d)))"
  by (simp add: home_def Let_def split: reply.splits) (simp add: dict_inv_def)

lemma dict_end_inv: "dict_inv d \<Longrightarrow> dict_inv (fst (snd (dict_end io d)))"
  by (simp add: dict_end_def Let_def split: reply.splits option.splits prod.splits)

lemma dict_cancel_inv: "dict_inv d \<Longrightarrow> dict_inv (fst (snd (dict_cancel c ob d)))"
  by (simp add: dict_cancel_def)

lemma dict_step_inv: "dict_inv d \<Longrightarrow> dict_inv (fst (snd (dict_step k d)))"
  by (cases k) (simp_all add: home_inv dict_end_inv dict_cancel_inv)

lemma dict_run_inv: "dict_inv d \<Longrightarrow> dict_inv (fst (dict_run ks d))"
proof (induction ks arbitrary: d)
  case (Cons k ks)
  with dict_step_inv[of d k] show ?case by (auto split: prod.splits) (metis fst_conv snd_conv)
qed simp

text \<open>A fault is final, and a call from inside an adapter has no effect.\<close>

lemma dict_step_refused:
  "dc_state d \<in> {DFaulted, DProcessing} \<Longrightarrow> \<exists>r. dict_step k d = (r, d, []) \<and> dr_status r = ''blocked''"
  by (cases k) (auto simp: home_def dict_end_def dict_cancel_def dict_result_def)

section \<open>Where the text goes\<close>

definition is_output :: "dictation_call \<Rightarrow> bool" where
  "is_output c = (case c of TypeText t f \<Rightarrow> True | CopyText t \<Rightarrow> True | _ \<Rightarrow> False)"

lemma dict_complete_calls [simp]:
  "snd (snd (dict_complete ob r a d cs)) = cs @ [notice_of d ''dictation.finished'' r]"
  by (simp add: dict_complete_def Let_def)

lemma dict_complete_rest [simp]:
  "dc_target (fst (snd (dict_complete ob r a d cs))) = None"
  "dc_state (fst (snd (dict_complete ob r a d cs))) \<noteq> DRecording"
  by (simp_all add: dict_complete_def Let_def)

lemma dict_complete_status:
  "dr_status (fst (dict_complete ob r a d cs)) = ''success'' \<longleftrightarrow> ob \<and> dr_status r = ''success''"
  by (simp add: dict_complete_def dict_result_def Let_def)

lemma is_output_simps [simp]:
  "is_output (TypeText t f)" "is_output (CopyText t)" "\<not> is_output (notice_of d p r)" "\<not> is_output StopCapture"
  "\<not> is_output CancelCapture" "\<not> is_output (Transcribe a)" "\<not> is_output StartCapture"
  by (simp_all add: is_output_def notice_of_def)

text \<open>The outputs of a delivery, in order, and what has to be reported for a success.\<close>

lemma deliver_outputs:
  assumes "\<not> list_ex is_output cs"
  shows "filter is_output (snd (snd (deliver io t f d cs))) =
    TypeText t f # (if ei_type io = Gives NotDelivered \<and> focus_block (ei_focus2 io) (dc_target d) = None then [CopyText t] else [])"
  using assms
  by (auto simp: deliver_def Let_def filter_empty_conv list_ex_iff split: reply.splits delivery.splits option.splits)

lemma deliver_members:
  assumes "\<not> list_ex is_output cs"
  shows "TypeText u g \<in> set (snd (snd (deliver io t f d cs))) \<longleftrightarrow> u = t \<and> g = f"
    and "CopyText u \<in> set (snd (snd (deliver io t f d cs))) \<longleftrightarrow>
      u = t \<and> ei_type io = Gives NotDelivered \<and> focus_block (ei_focus2 io) (dc_target d) = None"
proof -
  have "c \<in> set (snd (snd (deliver io t f d cs))) \<and> is_output c \<longleftrightarrow>
      c \<in> set (filter is_output (snd (snd (deliver io t f d cs))))" for c by auto
  note out = this[unfolded deliver_outputs[OF assms]]
  show "TypeText u g \<in> set (snd (snd (deliver io t f d cs))) \<longleftrightarrow> u = t \<and> g = f"
    using out[of "TypeText u g"] by simp
  show "CopyText u \<in> set (snd (snd (deliver io t f d cs))) \<longleftrightarrow>
      u = t \<and> ei_type io = Gives NotDelivered \<and> focus_block (ei_focus2 io) (dc_target d) = None"
    using out[of "CopyText u"] by auto
qed

lemma deliver_success:
  "dr_status (fst (deliver io t f d cs)) = ''success'' \<Longrightarrow>
    ei_type io = Gives Delivered \<or> ei_type io = Gives NotDelivered
      \<and> focus_block (ei_focus2 io) (dc_target d) = None \<and> ei_copy io = Gives Delivered"
  by (auto simp: deliver_def Let_def dict_complete_status dict_result_def delivered_result_def
      split: reply.splits delivery.splits option.splits)

lemma deliver_rest [simp]:
  "dc_state (fst (snd (deliver io t f d cs))) \<noteq> DRecording" "dc_target (fst (snd (deliver io t f d cs))) = None"
  by (simp_all add: deliver_def Let_def split: reply.splits delivery.splits option.splits)

lemma dict_end_rest:
  "dc_state (fst (snd (dict_end io d))) \<noteq> DRecording"
  "dc_target (fst (snd (dict_end io d))) \<noteq> dc_target d \<longrightarrow> dc_target (fst (snd (dict_end io d))) = None"
  by (simp_all add: dict_end_def Let_def split: reply.splits option.splits prod.splits)

lemma focus_block_None: "focus_block reply target = None \<longleftrightarrow> (\<exists>f. reply = Gives f \<and> target = Some f)"
  by (auto simp: focus_block_def split: reply.splits)

lemma transcribed_Some: "transcribed io a = Some t \<longleftrightarrow> a \<noteq> [] \<and> ei_transcribe io = Gives t \<and> strip_cp t \<noteq> []"
  by (auto simp: transcribed_def split: reply.splits)

text \<open>Either End produces no output and no success, or it delivers to the target.\<close>

lemma dict_end_cases:
  assumes "dict_end io d = (r, d', cs)"
  shows "filter is_output cs = [] \<and> dr_status r \<noteq> ''success''
    \<or> dc_state d = DRecording \<and> (\<exists>a t f cs0. ei_stop io = Gives a \<and> transcribed io a = Some t \<and> dc_target d = Some f
        \<and> ei_focus io = Gives f \<and> \<not> list_ex is_output cs0
        \<and> (r, d', cs) = deliver io t f (d\<lparr>dc_state := DProcessing\<rparr>) cs0)"
proof (cases "ei_stop io")
  case (Gives a)
  show ?thesis
  proof (cases "dc_state d = DRecording \<and> ei_processing io \<and> transcribed io a \<noteq> None
      \<and> dc_target d \<noteq> None \<and> focus_block (ei_focus io) (dc_target d) = None")
    case True
    then obtain t f where tf: "transcribed io a = Some t" "dc_target d = Some f" "ei_focus io = Gives f"
      by (auto simp: focus_block_None)
    let ?cs = "[StopCapture, notice_of d ''dictation.processing'' (dict_result ''processing'' ''capture.stopped''), Transcribe a]"
    have "(r, d', cs) = deliver io t f (d\<lparr>dc_state := DProcessing\<rparr>) ?cs"
      using assms True Gives tf transcribed_Some[of io a t] by (simp add: dict_end_def Let_def notice_of_def)
    with True Gives tf show ?thesis by (intro disjI2) (auto intro!: exI[of _ ?cs])
  next
    case False
    with assms Gives show ?thesis
      by (auto simp: dict_end_def Let_def dict_complete_def dict_result_def focus_block_None
          split: option.splits if_splits)
  qed
qed (use assms in \<open>auto simp: dict_end_def Let_def dict_complete_def dict_result_def split: if_splits\<close>)

text \<open>A target was captured by a Home that started the recording.\<close>

lemma dict_step_target:
  assumes "dict_step k d = (r, d', cs)" and "dc_target d' = Some f" and "dc_target d \<noteq> Some f"
  shows "\<exists>io. k = KHome io \<and> hi_focus io = Gives f \<and> dr_status r = ''recording''"
proof (cases k)
  case (KHome io)
  with assms show ?thesis
    by (auto simp: home_def Let_def dict_complete_def dict_result_def split: if_splits reply.splits)
next
  case (KEnd io)
  with assms dict_end_rest(2)[of io d] show ?thesis by auto
next
  case (KCancel c ob)
  with assms show ?thesis by (auto simp: dict_cancel_def dict_complete_def Let_def split: if_splits)
qed

lemma dict_run_target:
  "dict_run ks d = (d', cs) \<Longrightarrow> dc_target d' = Some f \<Longrightarrow>
    dc_target d = Some f \<or> (\<exists>io. KHome io \<in> set ks \<and> hi_focus io = Gives f)"
proof (induction ks arbitrary: d cs)
  case (Cons k ks)
  obtain r d1 cs1 where k: "dict_step k d = (r, d1, cs1)" by (cases "dict_step k d") auto
  obtain cs2 where "dict_run ks d1 = (d', cs2)" using Cons.prems(1) k by (auto split: prod.splits)
  from Cons.IH[OF this Cons.prems(2)] dict_step_target[OF k] show ?case by auto
qed simp

section \<open>Properties\<close>


definition sample_home :: home_io where
  "sample_home = \<lparr>hi_interaction = ''i'', hi_focus = Gives \<lparr>ft_window_id = ''w'', ft_generation = 4\<rparr>, hi_starting = True,
     hi_start = True, hi_cancel = True, hi_finished = True\<rparr>"

definition sample_end :: end_io where
  "sample_end = \<lparr>ei_stop = Gives [1], ei_cancel = True, ei_processing = True, ei_transcribe = Gives [104, 105],
     ei_focus = Gives \<lparr>ft_window_id = ''w'', ft_generation = 4\<rparr>, ei_type = Gives NotDelivered,
     ei_focus2 = Gives \<lparr>ft_window_id = ''w'', ft_generation = 4\<rparr>, ei_copy = Gives Delivered, ei_finished = True\<rparr>"

definition sample_provider :: rec where
  "sample_provider = RProvider \<lparr>prv_version = 1, prv_provider_id = ''p'', prv_placement = ''vm'', prv_model_version = ''m'',
     prv_enabled = True, prv_health = ''healthy'', prv_capabilities = [''transcription'']\<rparr>"


end
