(* ===== verification/Voice_Control.thy ===== *)
theory Voice_Control
  imports Contracts Voice_Workers
begin

text \<open>
  The trusted local controls of \<open>src/runtime/voice/control.py\<close>: the closed request decoder, the
  dispatcher with its replay guard, and the socket server that frames requests. The shapes of
  \<open>src/schemas/voice-session-v1.json\<close> are transcribed. The parameter \<open>parse\<close> is the JSON syntax of the
  library; the answers of the state supplier, of the handlers and of the operating system are arguments.
\<close>

section \<open>Requests\<close>

datatype control_rule = CInt int | CConst string | CId | CEnum "string list" | CBool

definition common_shape :: "string \<Rightarrow> (string \<times> control_rule) list" where
  "common_shape name = [(''version'', CInt 1), (''request_id'', CId), (''session_id'', CId), (''context_epoch'', CId), (''op'', CConst name)]"

definition shapes :: "(string \<times> (string \<times> control_rule) list) list" where
  "shapes =
    [(''activate'', common_shape ''activate''),
     (''cancel'', common_shape ''cancel''),
     (''status'', [(''version'', CInt 1), (''op'', CConst ''status'')]),
     (''mute'', common_shape ''mute'' @ [(''muted'', CBool)]),
     (''dictation-start'', common_shape ''dictation-start''),
     (''dictation-stop'', common_shape ''dictation-stop''),
     (''confirm'', common_shape ''confirm'' @ [(''token'', CId), (''channel'', CEnum [''panel'', ''keyboard'']), (''approved'', CBool)])]"

definition mutations :: "string list" where
  "mutations = filter (\<lambda>k. k \<noteq> ''status'') (map fst shapes)"

fun rule_ok :: "control_rule \<Rightarrow> pyv \<Rightarrow> bool" where
  "rule_ok (CInt n) v = (v = VInt n)"
| "rule_ok (CConst s) v = (v = VStr s)"
| "rule_ok CId v = (case v of VStr s \<Rightarrow> id_pattern s | _ \<Rightarrow> False)"
| "rule_ok (CEnum ss) v = (case v of VStr s \<Rightarrow> s \<in> set ss | _ \<Rightarrow> False)"
| "rule_ok CBool v = (case v of VBool b \<Rightarrow> True | _ \<Rightarrow> False)"

text \<open>The hook \<open>pairs\<close> refuses a repeated key at every level.\<close>

fun no_repeat :: "jdoc \<Rightarrow> bool" where
  "no_repeat (JList js) = list_all no_repeat js"
| "no_repeat (JObject kvs) = (list_all (\<lambda>(k, j). no_repeat j) kvs \<and> distinct (map fst kvs))"
| "no_repeat j = True"

definition shape_ok :: "(string \<times> control_rule) list \<Rightarrow> bag \<Rightarrow> bool" where
  "shape_ok shape d \<longleftrightarrow> set (map fst d) = set (map fst shape)
     \<and> list_all (\<lambda>(k, r). case map_of d k of Some v \<Rightarrow> rule_ok r v | None \<Rightarrow> False) shape"

definition decode_control :: "(codepoints \<Rightarrow> jdoc option) \<Rightarrow> byte list option \<Rightarrow> bag option" where
  "decode_control parse payload =
    (case payload of
       None \<Rightarrow> None
     | Some bs \<Rightarrow>
         if bs = [] \<or> int (length bs) > 4096 then None
         else case Option.bind (utf8 (map uint bs)) parse of
           Some (JObject kvs) \<Rightarrow>
             if \<not> no_repeat (JObject kvs) then None
             else let d = map (\<lambda>(k, j). (k, doc_value j)) kvs
               in (case map_of d ''op'' of
                     Some (VStr name) \<Rightarrow>
                       (case map_of shapes name of
                          Some shape \<Rightarrow> if shape_ok shape d then Some d else None
                        | None \<Rightarrow> None)
                   | _ \<Rightarrow> None)
         | _ \<Rightarrow> None)"

section \<open>The dispatcher\<close>

record control_state =
  ct_context_epoch :: string
  ct_phase :: string
  ct_muted :: bool

definition control_state_init :: "pyv \<Rightarrow> pyv \<Rightarrow> pyv \<Rightarrow> string + control_state" where
  "control_state_init epoch phase muted =
    (case (epoch, phase, muted) of
       (VStr e, VStr p, VBool m) \<Rightarrow>
         if \<not> id_pattern e \<or> p \<notin> set [''idle'', ''capturing'', ''processing'', ''routing'', ''faulted'', ''dictation'']
         then Inl ''control.invalid-state''
         else Inr \<lparr>ct_context_epoch = e, ct_phase = p, ct_muted = m\<rparr>
     | _ \<Rightarrow> Inl ''control.invalid-state'')"

record control_reply =
  cr_version :: int
  crp_status :: string
  crp_code :: string
  crp_state :: "bag option"

definition control_reply_of :: "string \<Rightarrow> string \<Rightarrow> bag option \<Rightarrow> control_reply" where
  "control_reply_of status cd st = \<lparr>cr_version = 1, crp_status = status, crp_code = cd, crp_state = st\<rparr>"

record control_dispatcher =
  cd_session_id :: string
  cd_seen :: "string list"
  cd_locked :: bool
  cd_uid :: int
  cd_pid :: int
  cd_handled :: "bag list"

text \<open>The handlers are given by their names, each with whether it can be called.\<close>

definition dispatcher_init ::
  "int \<Rightarrow> int \<Rightarrow> pyv \<Rightarrow> (string \<times> bool) list \<Rightarrow> bool \<Rightarrow> string + control_dispatcher" where
  "dispatcher_init uid pid session handlers state_callable =
    (case session of
       VStr s \<Rightarrow>
         if \<not> id_pattern s \<or> set (map fst handlers) \<noteq> set mutations \<or> \<not> list_all snd handlers \<or> \<not> state_callable
         then Inl ''control.invalid-binding''
         else Inr \<lparr>cd_session_id = s, cd_seen = [], cd_locked = False, cd_uid = uid, cd_pid = pid, cd_handled = []\<rparr>
     | _ \<Rightarrow> Inl ''control.invalid-binding'')"

record handle_io =
  hd_peer_uid :: pyv
  hd_pid :: int
  hd_state :: "control_state reply"
  hd_state2 :: "control_state reply"
  hd_handler :: "bool reply"

definition public_state :: "control_dispatcher \<Rightarrow> control_state \<Rightarrow> bag" where
  "public_state d s = [(''session_id'', VStr (cd_session_id d)), (''context_epoch'', VStr (ct_context_epoch s)),
     (''phase'', VStr (ct_phase s)), (''muted'', VBool (ct_muted s))]"

text \<open>The request is consumed; the state is sampled again and the handler called.\<close>

definition actuate :: "handle_io \<Rightarrow> bag \<Rightarrow> control_state \<Rightarrow> control_dispatcher \<Rightarrow> control_reply \<times> control_dispatcher" where
  "actuate io request state d =
    (case hd_state2 io of
       Raises \<Rightarrow> (control_reply_of ''uncertain'' ''control.uncertain'' None, d)
     | Other \<Rightarrow> (control_reply_of ''blocked'' ''control.stale'' None, d)
     | Gives s \<Rightarrow>
         if s \<noteq> state then (control_reply_of ''blocked'' ''control.stale'' None, d)
         else let d = d\<lparr>cd_handled := cd_handled d @ [request]\<rparr>
           in (case hd_handler io of
                 Gives True \<Rightarrow> control_reply_of ''ok'' ''control.ok'' None
               | Gives False \<Rightarrow> control_reply_of ''blocked'' ''control.denied'' None
               | _ \<Rightarrow> control_reply_of ''uncertain'' ''control.uncertain'' None, d))"

definition handle ::
  "(codepoints \<Rightarrow> jdoc option) \<Rightarrow> byte list option \<Rightarrow> handle_io \<Rightarrow> control_dispatcher \<Rightarrow> control_reply \<times> control_dispatcher" where
  "handle parse payload io d =
    (if hd_peer_uid io \<noteq> VInt (cd_uid d) \<or> hd_pid io \<noteq> cd_pid d then (control_reply_of ''blocked'' ''control.peer'' None, d)
     else if cd_locked d then (control_reply_of ''blocked'' ''control.busy'' None, d)
     else case decode_control parse payload of
       None \<Rightarrow> (control_reply_of ''blocked'' ''control.invalid'' None, d)
     | Some request \<Rightarrow>
         (case hd_state io of
            Gives state \<Rightarrow>
              if map_of request ''op'' = Some (VStr ''status'')
              then (control_reply_of ''ok'' ''control.ok'' (Some (public_state d state)), d)
              else if map_of request ''session_id'' \<noteq> Some (VStr (cd_session_id d))
                \<or> map_of request ''context_epoch'' \<noteq> Some (VStr (ct_context_epoch state))
              then (control_reply_of ''blocked'' ''control.stale'' None, d)
              else (case map_of request ''request_id'' of
                      Some (VStr i) \<Rightarrow>
                        if i \<in> set (cd_seen d) then (control_reply_of ''blocked'' ''control.replayed'' None, d)
                        else if int (length (cd_seen d)) \<ge> 4096 then (control_reply_of ''blocked'' ''control.exhausted'' None, d)
                        else actuate io request state (d\<lparr>cd_seen := cd_seen d @ [i]\<rparr>)
                    | _ \<Rightarrow> (control_reply_of ''blocked'' ''control.stale'' None, d))
          | _ \<Rightarrow> (control_reply_of ''blocked'' ''control.state-unavailable'' None, d)))"

section \<open>The server\<close>

text \<open>What arrives on a connection: at a time, some bytes (none at the end of the stream), or a failure.
  \<open>recv\<close> takes at most the bytes it asks for and leaves the rest.\<close>

datatype arrival = Arrives rat "byte list" | RecvFails rat

fun server_read :: "nat \<Rightarrow> rat \<Rightarrow> arrival list \<Rightarrow> byte list option \<times> arrival list" where
  "server_read want deadline [] = (if want = 0 then (Some [], []) else (None, []))"
| "server_read want deadline (a # as) =
    (if want = 0 then (Some [], a # as)
     else case a of
       RecvFails now \<Rightarrow> (None, as)
     | Arrives now bs \<Rightarrow>
         if deadline \<le> now \<or> bs = [] then (None, as)
         else if want \<le> length bs
           then (Some (take want bs), if want = length bs then as else Arrives now (drop want bs) # as)
         else (case server_read (want - length bs) deadline as of
                 (None, as) \<Rightarrow> (None, as)
               | (Some rest, as) \<Rightarrow> (Some (bs @ rest), as)))"

definition be32 :: "byte list \<Rightarrow> int" where
  "be32 bs = foldl (\<lambda>n b. n * 256 + uint b) 0 bs"

datatype accepted = AcceptTimeout | Accepted "int option"

record serve_io =
  sv_accept :: accepted
  sv_euid :: int
  sv_now :: rat
  sv_arrivals :: "arrival list"
  sv_handle :: handle_io

record control_server =
  cs_timeout :: rat
  cs_directory_fd :: bool
  cs_socket :: bool
  cs_identity :: "(int \<times> int) option"
  cs_pid :: int

definition server_init :: "int \<Rightarrow> pyv \<Rightarrow> bool \<Rightarrow> string + control_server" where
  "server_init pid timeout_s is_dispatcher =
    (case num_within 2 timeout_s of
       Some t \<Rightarrow> if is_dispatcher
         then Inr \<lparr>cs_timeout = t, cs_directory_fd = False, cs_socket = False, cs_identity = None, cs_pid = pid\<rparr>
         else Inl ''control.invalid-server''
     | None \<Rightarrow> Inl ''control.invalid-server'')"

text \<open>One request: the reply and whether a connection was served; \<open>Inl\<close> when the server is not owned.\<close>

definition serve_once ::
  "(codepoints \<Rightarrow> jdoc option) \<Rightarrow> int \<Rightarrow> serve_io \<Rightarrow> control_server \<Rightarrow> control_dispatcher
    \<Rightarrow> string + control_reply option \<times> control_dispatcher" where
  "serve_once parse pid io s d =
    (if \<not> cs_socket s \<or> pid \<noteq> cs_pid s then Inl ''control.not-owned''
     else let frame = control_reply_of ''blocked'' ''control.invalid-frame'' None in
     case sv_accept io of
       AcceptTimeout \<Rightarrow> Inr (None, d)
     | Accepted None \<Rightarrow> Inr (Some frame, d)
     | Accepted (Some uid) \<Rightarrow>
         if uid \<noteq> sv_euid io then Inr (Some (control_reply_of ''blocked'' ''control.peer'' None), d)
         else (case server_read 4 (sv_now io + cs_timeout s) (sv_arrivals io) of
                 (None, _) \<Rightarrow> Inr (Some frame, d)
               | (Some header, rest) \<Rightarrow>
                   if be32 header \<le> 0 \<or> be32 header > 4096 then Inr (Some frame, d)
                   else (case server_read (nat (be32 header)) (sv_now io + cs_timeout s) rest of
                           (None, _) \<Rightarrow> Inr (Some frame, d)
                         | (Some payload, _) \<Rightarrow>
                             (case handle parse (Some payload) ((sv_handle io)\<lparr>hd_peer_uid := VInt uid, hd_pid := pid\<rparr>) d of
                                (r, d) \<Rightarrow> Inr (Some r, d)))))"

text \<open>The endpoint in the file system: what each step of \<open>start\<close> meets, and the entry \<open>close\<close> finds.\<close>

record start_view =
  sw_symlink :: bool
  sw_opened :: bool
  sw_private :: bool
  sw_locked :: bool
  sw_absent :: bool
  sw_bound :: bool
  sw_owned :: "(int \<times> int) option"
  sw_listening :: bool

datatype entry = Absent | NotSocket | Socket int int | StatFails

definition server_close :: "int \<Rightarrow> entry \<Rightarrow> control_server \<Rightarrow> string option \<times> bool \<times> control_server" where
  "server_close pid e s =
    (if pid \<noteq> cs_pid s then (Some ''control.not-owned'', False, s)
     else let unlink = (cs_directory_fd s \<and> (case (e, cs_identity s) of (Socket dev ino, Some i) \<Rightarrow> (dev, ino) = i | _ \<Rightarrow> False));
              fails = (cs_directory_fd s \<and> cs_identity s \<noteq> None \<and> e = StatFails)
       in (if fails then Some ''stat'' else None, unlink, s\<lparr>cs_socket := False, cs_directory_fd := False, cs_identity := None\<rparr>))"

definition server_start :: "int \<Rightarrow> start_view \<Rightarrow> entry \<Rightarrow> control_server \<Rightarrow> string option \<times> bool \<times> control_server" where
  "server_start pid v e s =
    (if cs_socket s \<or> cs_directory_fd s \<or> pid \<noteq> cs_pid s then (Some ''control.already-owned'', False, s)
     else let fail = (\<lambda>s. case server_close pid e s of (err, unlink, s) \<Rightarrow>
              (Some (case err of None \<Rightarrow> ''control.socket-unavailable'' | Some x \<Rightarrow> x), unlink, s));
              opened = s\<lparr>cs_directory_fd := True\<rparr>
       in if sw_symlink v \<or> \<not> sw_opened v then fail s
          else if \<not> sw_private v \<or> \<not> sw_locked v \<or> \<not> sw_absent v then fail opened
          else let s = opened\<lparr>cs_socket := True\<rparr>
            in if \<not> sw_bound v then fail s
               else case sw_owned v of
                 None \<Rightarrow> fail s
               | Some i \<Rightarrow>
                   let s = s\<lparr>cs_identity := Some i\<rparr>
                   in if sw_listening v then (None, False, s) else fail s)"

section \<open>Every request acts at most once\<close>

definition request_id_of :: "bag \<Rightarrow> string option" where
  "request_id_of r = (case map_of r ''request_id'' of Some (VStr i) \<Rightarrow> Some i | _ \<Rightarrow> None)"

text \<open>The requests that reached a handler are among the consumed identifiers, in order and at most once
  each, and belong to this session.\<close>

definition control_inv :: "control_dispatcher \<Rightarrow> bool" where
  "control_inv d \<longleftrightarrow> distinct (cd_seen d) \<and> length (cd_seen d) \<le> 4096
     \<and> distinct (map request_id_of (cd_handled d))
     \<and> (\<forall>r \<in> set (cd_handled d). (\<exists>i \<in> set (cd_seen d). request_id_of r = Some i)
          \<and> map_of r ''session_id'' = Some (VStr (cd_session_id d))
          \<and> (\<exists>k shape. k \<in> set mutations \<and> map_of r ''op'' = Some (VStr k) \<and> map_of shapes k = Some shape \<and> shape_ok shape r))"

lemma decode_control_ok:
  "decode_control parse payload = Some d \<Longrightarrow>
    \<exists>name shape. map_of d ''op'' = Some (VStr name) \<and> map_of shapes name = Some shape \<and> shape_ok shape d"
  by (auto simp: decode_control_def Let_def split: option.splits if_splits jdoc.splits pyv.splits)

lemma mutation_shape: "map_of shapes name = Some shape \<Longrightarrow> name \<noteq> ''status'' \<Longrightarrow> name \<in> set mutations"
  by (auto simp: mutations_def dest: map_of_SomeD intro!: rev_image_eqI)

lemma actuate_cases:
  "actuate io request state d = (r, d') \<Longrightarrow>
    d' = d \<or> hd_state2 io = Gives state \<and> d' = d\<lparr>cd_handled := cd_handled d @ [request]\<rparr>"
  by (auto simp: actuate_def split: reply.splits if_splits)

lemma handle_cases:
  assumes "handle parse payload io d = (r, d')"
  shows "d' = d \<or> (\<exists>request state i. decode_control parse payload = Some request \<and> hd_state io = Gives state
      \<and> hd_peer_uid io = VInt (cd_uid d) \<and> request_id_of request = Some i \<and> i \<notin> set (cd_seen d) \<and> length (cd_seen d) < 4096
      \<and> map_of request ''op'' \<noteq> Some (VStr ''status'')
      \<and> map_of request ''session_id'' = Some (VStr (cd_session_id d))
      \<and> map_of request ''context_epoch'' = Some (VStr (ct_context_epoch state))
      \<and> (d' = d\<lparr>cd_seen := cd_seen d @ [i]\<rparr>
         \<or> hd_state2 io = Gives state \<and> d' = d\<lparr>cd_seen := cd_seen d @ [i], cd_handled := cd_handled d @ [request]\<rparr>))"
proof (cases "decode_control parse payload")
  case (Some request)
  then show ?thesis
    using assms by (auto simp: handle_def request_id_of_def split: if_splits reply.splits option.splits pyv.splits
        dest!: actuate_cases)
qed (use assms in \<open>auto simp: handle_def split: if_splits\<close>)

lemma handle_inv:
  assumes "control_inv d" and "handle parse payload io d = (r, d')"
  shows "control_inv d' \<and> cd_session_id d' = cd_session_id d"
  using handle_cases[OF assms(2)]
proof (elim disjE exE conjE)
  fix request state i
  assume new: "decode_control parse payload = Some request" "request_id_of request = Some i" "i \<notin> set (cd_seen d)"
      "length (cd_seen d) < 4096" "map_of request ''op'' \<noteq> Some (VStr ''status'')"
      "map_of request ''session_id'' = Some (VStr (cd_session_id d))"
    and d': "d' = d\<lparr>cd_seen := cd_seen d @ [i], cd_handled := cd_handled d @ [request]\<rparr>"
  have fresh: "request_id_of q \<noteq> Some i" if "q \<in> set (cd_handled d)" for q
    using assms(1) that new(3) by (fastforce simp: control_inv_def)
  then have "request_id_of request \<notin> request_id_of ` set (cd_handled d)" using new(2) by (metis imageE)
  moreover obtain k shape where "map_of request ''op'' = Some (VStr k)" "map_of shapes k = Some shape" "shape_ok shape request"
    using decode_control_ok[OF new(1)] by blast
  ultimately show ?thesis
    using assms(1) new d' mutation_shape[of k shape] unfolding control_inv_def by auto
qed (use assms(1) in \<open>auto simp: control_inv_def\<close>)

fun control_run :: "(codepoints \<Rightarrow> jdoc option) \<Rightarrow> (byte list option \<times> handle_io) list \<Rightarrow> control_dispatcher \<Rightarrow> control_dispatcher" where
  "control_run parse [] d = d"
| "control_run parse ((payload, io) # cs) d = control_run parse cs (snd (handle parse payload io d))"

lemma control_run_inv: "control_inv d \<Longrightarrow> control_inv (control_run parse cs d) \<and> cd_session_id (control_run parse cs d) = cd_session_id d"
proof (induction cs arbitrary: d)
  case (Cons c cs)
  obtain payload io where c: "c = (payload, io)" by fastforce
  obtain r d' where h: "handle parse payload io d = (r, d')" by fastforce
  from handle_inv[OF Cons.prems h] Cons.IH[of d'] c h show ?case by simp
qed simp

section \<open>Framing\<close>

definition be_bytes :: "nat \<Rightarrow> byte list" where
  "be_bytes n = [of_nat (n div 16777216), of_nat (n div 65536), of_nat (n div 256), of_nat n]"

lemma be32_be_bytes:
  assumes "n \<le> 4096"
  shows "be32 (be_bytes n) = int n"
proof -
  have small: "n div 16777216 = 0" "n div 65536 = 0" "n div 256 < 256" using assms by simp_all
  have "uint (of_nat (n div 256) :: byte) = int (n div 256)" "uint (of_nat n :: byte) = int (n mod 256)"
    using small(3) by (simp_all add: uint_nat unat_of_nat)
  then have "be32 (be_bytes n) = int (n div 256) * 256 + int (n mod 256)"
    by (simp add: be32_def be_bytes_def small)
  also have "\<dots> = int (n div 256 * 256 + n mod 256)" unfolding of_nat_add of_nat_mult by simp
  also have "\<dots> = int n" by (simp only: div_mult_mod_eq)
  finally show ?thesis .
qed

text \<open>Bytes that arrive in nonempty chunks before the deadline are read in order, whatever the chunks.\<close>

definition arrives_as :: "rat \<Rightarrow> arrival list \<Rightarrow> byte list \<Rightarrow> bool" where
  "arrives_as deadline as bs \<longleftrightarrow> (\<forall>a \<in> set as. \<exists>now c. a = Arrives now c \<and> c \<noteq> [] \<and> now < deadline)
     \<and> concat (map (\<lambda>a. case a of Arrives now c \<Rightarrow> c | _ \<Rightarrow> []) as) = bs"

lemma server_read_stream:
  "arrives_as deadline as (xs @ ys) \<Longrightarrow> \<exists>rest. server_read (length xs) deadline as = (Some xs, rest) \<and> arrives_as deadline rest ys"
proof (induction as arbitrary: xs)
  case Nil
  then show ?case by (simp add: arrives_as_def)
next
  case (Cons a as)
  show ?case
  proof (cases "xs = []")
    case True
    with Cons.prems show ?thesis by simp
  next
    case False
    obtain now c where a: "a = Arrives now c" "c \<noteq> []" "now < deadline" using Cons.prems by (auto simp: arrives_as_def)
    have rest: "arrives_as deadline as (concat (map (\<lambda>a. case a of Arrives now c \<Rightarrow> c | _ \<Rightarrow> []) as))"
      using Cons.prems by (auto simp: arrives_as_def)
    have eq: "c @ concat (map (\<lambda>a. case a of Arrives now c \<Rightarrow> c | _ \<Rightarrow> []) as) = xs @ ys"
      using Cons.prems a(1) by (simp add: arrives_as_def)
    show ?thesis
    proof (cases "length xs \<le> length c")
      case True
      then obtain c2 where c: "c = xs @ c2" "c2 @ concat (map (\<lambda>a. case a of Arrives now c \<Rightarrow> c | _ \<Rightarrow> []) as) = ys"
        using eq by (auto simp: append_eq_append_conv2)
      with a False rest True show ?thesis by (auto simp: arrives_as_def)
    next
      case F: False
      then obtain x2 where x: "xs = c @ x2" "concat (map (\<lambda>a. case a of Arrives now c \<Rightarrow> c | _ \<Rightarrow> []) as) = x2 @ ys"
        using eq by (auto simp: append_eq_append_conv2)
      with rest Cons.IH[of x2] obtain r where "server_read (length x2) deadline as = (Some x2, r)" "arrives_as deadline r ys" by auto
      with a F x show ?thesis by auto
    qed
  qed
qed

text \<open>The endpoint a server removes is the one it created.\<close>

lemma server_close_own: "server_close pid e s = (r, True, s') \<Longrightarrow> \<exists>dev ino. e = Socket dev ino \<and> cs_identity s = Some (dev, ino)"
  by (auto simp: server_close_def Let_def split: if_splits entry.splits option.splits)

lemma server_start_own:
  "server_start pid v e s = (r, True, s') \<Longrightarrow> cs_identity s = None \<Longrightarrow> \<exists>dev ino. e = Socket dev ino \<and> sw_owned v = Some (dev, ino)"
  by (auto simp: server_start_def Let_def split: if_splits option.splits prod.splits dest!: server_close_own)

section \<open>Properties\<close>

text \<open>C18: A control request acts at most once. Over any sequence of payloads and whatever the callbacks
  answer, the dispatcher consumes at most 4096 request identifiers, each once; every request that
  reached a handler is a valid mutation of this session, and no two of them have the same identifier.
  A request reaches its handler only when it came from the owner's user and both samples of the state
  are the same one with the epoch the request names.\<close>

theorem control_acts_once:
  assumes "dispatcher_init uid pid session handlers callable = Inr d0" and "d = control_run parse cs d0"
  shows "distinct (cd_seen d) \<and> length (cd_seen d) \<le> 4096 \<and> distinct (map request_id_of (cd_handled d))
    \<and> (\<forall>r \<in> set (cd_handled d). map_of r ''session_id'' = Some (VStr (cd_session_id d0))
        \<and> (\<exists>k shape. k \<in> set mutations \<and> map_of r ''op'' = Some (VStr k) \<and> map_of shapes k = Some shape \<and> shape_ok shape r))
    \<and> (\<forall>payload io r d'. handle parse payload io d = (r, d') \<and> cd_handled d' \<noteq> cd_handled d \<longrightarrow>
        (\<exists>request state. cd_handled d' = cd_handled d @ [request] \<and> hd_peer_uid io = VInt (cd_uid d)
          \<and> hd_state io = Gives state \<and> hd_state2 io = Gives state
          \<and> map_of request ''context_epoch'' = Some (VStr (ct_context_epoch state))))"
proof -
  have "control_inv d0" using assms(1)
    by (auto simp: dispatcher_init_def control_inv_def split: pyv.splits if_splits)
  with control_run_inv have inv: "control_inv d" "cd_session_id d = cd_session_id d0" unfolding assms(2) by blast+
  have "\<exists>request state. cd_handled d' = cd_handled d @ [request] \<and> hd_peer_uid io = VInt (cd_uid d)
      \<and> hd_state io = Gives state \<and> hd_state2 io = Gives state
      \<and> map_of request ''context_epoch'' = Some (VStr (ct_context_epoch state))"
    if "handle parse payload io d = (r, d')" "cd_handled d' \<noteq> cd_handled d" for payload io r d'
    using handle_cases[OF that(1)] that(2) by auto
  with inv show ?thesis by (auto simp: control_inv_def)
qed

definition sample_request :: jdoc where
  "sample_request = JObject [(''version'', JInt 1), (''request_id'', JStr ''r1''), (''session_id'', JStr ''s''),
     (''context_epoch'', JStr ''e''), (''op'', JStr ''activate'')]"

definition sample_parse :: "codepoints \<Rightarrow> jdoc option" where
  "sample_parse t = (if t = [123, 125] then Some sample_request else None)"

definition sample_handle :: handle_io where
  "sample_handle = (let st = Gives \<lparr>ct_context_epoch = ''e'', ct_phase = ''idle'', ct_muted = False\<rparr>
     in \<lparr>hd_peer_uid = VInt 1000, hd_pid = 7, hd_state = st, hd_state2 = st, hd_handler = Gives True\<rparr>)"

definition sample_dispatcher :: "string + control_dispatcher" where
  "sample_dispatcher = dispatcher_init 1000 7 (VStr ''s'') (map (\<lambda>k. (k, True)) mutations) True"

theorem control_acts_once_witness:
  "\<exists>d0. sample_dispatcher = Inr d0
    \<and> length (cd_handled (control_run sample_parse [(Some [123, 125], sample_handle), (Some [123, 125], sample_handle)] d0)) = 1
    \<and> distinct (map request_id_of
        (cd_handled (control_run sample_parse [(Some [123, 125], sample_handle), (Some [123, 125], sample_handle)] d0)))"
proof -
  have "case sample_dispatcher of Inr d0 \<Rightarrow>
      length (cd_handled (control_run sample_parse [(Some [123, 125], sample_handle), (Some [123, 125], sample_handle)] d0)) = 1
    | _ \<Rightarrow> False" by code_simp
  then obtain d0 where d: "sample_dispatcher = Inr d0"
      "length (cd_handled (control_run sample_parse [(Some [123, 125], sample_handle), (Some [123, 125], sample_handle)] d0)) = 1"
    by (auto split: sum.splits)
  from control_acts_once[OF d(1)[unfolded sample_dispatcher_def] refl, of sample_parse
      "[(Some [123, 125], sample_handle), (Some [123, 125], sample_handle)]"] d
  show ?thesis by blast
qed

text \<open>A framed request is delivered whole. When the four bytes of the length and a payload of at most
  4096 bytes arrive before the deadline, split into chunks in any way, an owned server that accepts
  the owner's connection gives exactly this payload to the dispatcher and answers its reply.\<close>

theorem control_frame_roundtrip:
  assumes "cs_socket s" and "pid = cs_pid s" and "sv_accept io = Accepted (Some (sv_euid io))"
    and "payload \<noteq> []" and "length payload \<le> 4096"
    and "arrives_as (sv_now io + cs_timeout s) (sv_arrivals io) (be_bytes (length payload) @ payload)"
  shows "serve_once parse pid io s d =
    (case handle parse (Some payload) ((sv_handle io)\<lparr>hd_peer_uid := VInt (sv_euid io), hd_pid := pid\<rparr>) d of
       (r, d') \<Rightarrow> Inr (Some r, d'))"
proof -
  have four: "length (be_bytes (length payload)) = 4" by (simp add: be_bytes_def)
  from server_read_stream[OF assms(6)] obtain rest where
    header: "server_read 4 (sv_now io + cs_timeout s) (sv_arrivals io) = (Some (be_bytes (length payload)), rest)"
    and rest: "arrives_as (sv_now io + cs_timeout s) rest (payload @ [])" by (auto simp: four)
  from server_read_stream[OF rest] obtain rest' where
    "server_read (length payload) (sv_now io + cs_timeout s) rest = (Some payload, rest')" by auto
  then show ?thesis
    using assms(1-5) header be32_be_bytes[OF assms(5)] by (simp add: serve_once_def Let_def)
qed

definition sample_server :: control_server where
  "sample_server = \<lparr>cs_timeout = 1/4, cs_directory_fd = True, cs_socket = True, cs_identity = Some (1, 2), cs_pid = 7\<rparr>"

definition sample_serve :: serve_io where
  "sample_serve = \<lparr>sv_accept = Accepted (Some 1000), sv_euid = 1000, sv_now = 0,
     sv_arrivals = [Arrives 0 [0, 0], Arrives 0 [0, 2, 123], Arrives 0 [125]], sv_handle = sample_handle\<rparr>"

theorem control_frame_roundtrip_witness:
  "\<exists>d0 r d. sample_dispatcher = Inr d0 \<and> serve_once sample_parse 7 sample_serve sample_server d0 = Inr (Some r, d)
    \<and> crp_status r = ''ok''"
proof -
  have arr: "arrives_as (sv_now sample_serve + cs_timeout sample_server) (sv_arrivals sample_serve) (be_bytes (length [123::byte, 125]) @ [123, 125])"
    by (simp add: arrives_as_def sample_serve_def sample_server_def be_bytes_def)
  let ?io = "(sv_handle sample_serve)\<lparr>hd_peer_uid := VInt (sv_euid sample_serve), hd_pid := 7\<rparr>"
  have "case sample_dispatcher of Inr d0 \<Rightarrow> crp_status (fst (handle sample_parse (Some [123, 125]) ?io d0)) = ''ok'' | _ \<Rightarrow> False"
    by code_simp
  then obtain d0 where d: "sample_dispatcher = Inr d0" "crp_status (fst (handle sample_parse (Some [123, 125]) ?io d0)) = ''ok''"
    by (auto split: sum.splits)
  obtain r d1 where h: "handle sample_parse (Some [123, 125]) ?io d0 = (r, d1)" by fastforce
  have "cs_socket sample_server \<and> 7 = cs_pid sample_server \<and> sv_accept sample_serve = Accepted (Some (sv_euid sample_serve))"
    by (simp add: sample_server_def sample_serve_def)
  then have "serve_once sample_parse 7 sample_serve sample_server d0 = Inr (Some r, d1)"
    using control_frame_roundtrip[OF _ _ _ _ _ arr, of 7 sample_parse d0] h by simp
  with d h show ?thesis by auto
qed

end
