(* ===== verification/Voice_Speech.thy ===== *)
theory Voice_Speech
  imports Voice_Workers
begin

text \<open>
  The trusted voice state and the single-slot speech queue: \<open>VoiceState\<close> of
  \<open>src/runtime/voice/router.py\<close>, and \<open>snapshot_state\<close> and \<open>SpeechQueue\<close> of \<open>src/runtime/voice/speech.py\<close>.
  What the state supplier and the backend answer are arguments of an operation. While a callback runs,
  another thread may invalidate the queue (it raises the epoch, then waits for the lock), or the
  callback itself may call \<open>cancel\<close>: an \<open>interlude\<close> says which. The calls of the backend are kept in
  \<open>sq_calls\<close>.
\<close>

section \<open>The voice state\<close>

text \<open>What the supplier returns: an object with any fields. The context is \<open>None\<close> when it is no mapping.\<close>

record raw_state =
  rw_context :: "bag option"
  rw_key :: pyv
  rw_activation_id :: pyv
  rw_muted :: pyv
  rw_mode :: pyv

record voice_state =
  vs_context :: bag
  vs_key :: string
  vs_activation_id :: string
  vs_muted :: bool
  vs_mode :: pyv

text \<open>Equality of Python values: numbers by value, dicts whatever the order. Two opaque objects are not
  known to be equal.\<close>

fun number :: "pyv \<Rightarrow> rat option" where
  "number (VBool b) = Some (if b then 1 else 0)"
| "number (VInt i) = Some (of_int i)"
| "number (VFloat (Fin r)) = Some r"
| "number _ = None"

fun fields :: "pyv \<Rightarrow> bag" where
  "fields (VDict d) = d"
| "fields (VProxy d) = d"
| "fields _ = []"

fun elements :: "pyv \<Rightarrow> pyv list" where
  "elements (VList vs) = vs"
| "elements (VTuple vs) = vs"
| "elements _ = []"

lemma size_zip_less [termination_simp]:
  "(x, y) \<in> set (zip xs ys) \<Longrightarrow> size (x::pyv) < Suc (size_list size xs)"
  by (metis set_zip_leftD size_list_estimation' less_Suc_eq_le order_refl)

fun py_eq :: "pyv \<Rightarrow> pyv \<Rightarrow> bool" where
  "py_eq (VDict d) w \<longleftrightarrow> (case w of VDict _ \<Rightarrow> True | VProxy _ \<Rightarrow> True | _ \<Rightarrow> False) \<and> length d = length (fields w)
     \<and> list_all (\<lambda>(k, v). case map_of (fields w) k of Some u \<Rightarrow> py_eq v u | None \<Rightarrow> False) d"
| "py_eq (VProxy d) w \<longleftrightarrow> (case w of VDict _ \<Rightarrow> True | VProxy _ \<Rightarrow> True | _ \<Rightarrow> False) \<and> length d = length (fields w)
     \<and> list_all (\<lambda>(k, v). case map_of (fields w) k of Some u \<Rightarrow> py_eq v u | None \<Rightarrow> False) d"
| "py_eq (VList vs) w \<longleftrightarrow> (case w of VList _ \<Rightarrow> True | _ \<Rightarrow> False) \<and> length vs = length (elements w)
     \<and> list_all (\<lambda>(x, y). py_eq x y) (zip vs (elements w))"
| "py_eq (VTuple vs) w \<longleftrightarrow> (case w of VTuple _ \<Rightarrow> True | _ \<Rightarrow> False) \<and> length vs = length (elements w)
     \<and> list_all (\<lambda>(x, y). py_eq x y) (zip vs (elements w))"
| "py_eq VOpaque w \<longleftrightarrow> False"
| "py_eq VNone w \<longleftrightarrow> w = VNone"
| "py_eq (VStr s) w \<longleftrightarrow> w = VStr s"
| "py_eq v w \<longleftrightarrow> (if number v = None then v = w \<and> v \<noteq> VFloat NaN else number v = number w)"

definition same_state :: "voice_state \<Rightarrow> voice_state \<Rightarrow> bool" where
  "same_state a b \<longleftrightarrow> py_eq (VDict (vs_context a)) (VDict (vs_context b)) \<and> vs_key a = vs_key b
     \<and> vs_activation_id a = vs_activation_id b \<and> vs_muted a = vs_muted b \<and> py_eq (vs_mode a) (vs_mode b)"

text \<open>\<open>json.loads(json.dumps(value, allow_nan=False))\<close>: a fresh copy with tuples as lists, or an
  exception for a value JSON does not have.\<close>

fun json_copy :: "pyv \<Rightarrow> pyv option" where
  "json_copy (VList vs) = map_option VList (those (map json_copy vs))"
| "json_copy (VTuple vs) = map_option VList (those (map json_copy vs))"
| "json_copy (VDict d) = map_option VDict (those (map (\<lambda>(k, v). map_option (Pair k) (json_copy v)) d))"
| "json_copy (VProxy d) = None"
| "json_copy VOpaque = None"
| "json_copy (VFloat f) = (case f of Fin r \<Rightarrow> Some (VFloat (Fin r)) | _ \<Rightarrow> None)"
| "json_copy v = Some v"

definition snapshot_state :: "raw_state reply \<Rightarrow> voice_state option" where
  "snapshot_state r =
    (case r of
       Gives v \<Rightarrow>
         (case (rw_context v, rw_key v, rw_activation_id v, rw_muted v) of
            (Some c, VStr k, VStr a, VBool m) \<Rightarrow>
              if k = [] \<or> a = [] \<or> \<not> (py_eq (rw_mode v) (VStr ''command'') \<or> py_eq (rw_mode v) (VStr ''dictation'')) then None
              else (case json_copy (VDict c) of
                      Some (VDict d) \<Rightarrow> Some \<lparr>vs_context = d, vs_key = k, vs_activation_id = a, vs_muted = m, vs_mode = rw_mode v\<rparr>
                    | _ \<Rightarrow> None)
          | _ \<Rightarrow> None)
     | _ \<Rightarrow> None)"

section \<open>The speech queue\<close>

definition prompts :: "string list" where
  "prompts = [''Please repeat the command.'', ''Please confirm in the voice panel.'',
     ''Start a new command turn and say yes or no.'']"

datatype backend_call = BStart string | BCancel bool

record speech_queue =
  sq_epoch :: nat
  sq_active :: bool
  sq_busy :: bool
  sq_stopping :: bool
  sq_faulted :: bool
  sq_snapshot :: "voice_state option"
  sq_code :: string
  sq_calls :: "backend_call list"

definition speech_init :: speech_queue where
  "speech_init = \<lparr>sq_epoch = 0, sq_active = False, sq_busy = False, sq_stopping = False, sq_faulted = False,
     sq_snapshot = None, sq_code = ''speech.idle'', sq_calls = []\<rparr>"

definition speech_cleanup_proven :: "speech_queue \<Rightarrow> bool" where
  "speech_cleanup_proven q \<longleftrightarrow> \<not> sq_active q \<and> \<not> sq_faulted q \<and> \<not> sq_stopping q"

definition quiesced :: "worker_reply \<Rightarrow> bool" where
  "quiesced reply = (case reply of
     WResult r \<Rightarrow> pr_status r \<in> {''success'', ''canceled'', ''failed''} \<and> pr_code r \<noteq> ''process.cleanup-unproven''
   | _ \<Rightarrow> False)"

definition speech_stop :: "worker_reply \<Rightarrow> speech_queue \<Rightarrow> speech_queue" where
  "speech_stop reply q =
    (if sq_stopping q then q
     else
       let q = (if sq_active q
                then q\<lparr>sq_active := \<not> quiesced reply, sq_faulted := sq_faulted q \<or> \<not> quiesced reply,
                       sq_calls := sq_calls q @ [BCancel (quiesced reply)]\<rparr>
                else q);
           q = q\<lparr>sq_snapshot := None\<rparr>
       in if sq_faulted q then q\<lparr>sq_code := ''speech.cleanup-unproven''\<rparr> else q)"

definition speech_cancel :: "worker_reply \<Rightarrow> speech_queue \<Rightarrow> speech_queue" where
  "speech_cancel reply q = speech_stop reply (q\<lparr>sq_epoch := Suc (sq_epoch q), sq_code := ''speech.canceled''\<rparr>)"

datatype interlude = Undisturbed | Invalidated | Reentered worker_reply

fun interlude_step :: "interlude \<Rightarrow> speech_queue \<Rightarrow> speech_queue" where
  "interlude_step Undisturbed q = q"
| "interlude_step Invalidated q = q\<lparr>sq_epoch := Suc (sq_epoch q)\<rparr>"
| "interlude_step (Reentered reply) q = speech_cancel reply q"

text \<open>\<open>_current\<close>: \<open>None\<close> when the state supplier or the snapshot raises.\<close>

definition speech_current ::
  "raw_state reply \<times> interlude \<Rightarrow> voice_state \<Rightarrow> nat \<Rightarrow> speech_queue \<Rightarrow> bool option \<times> speech_queue" where
  "speech_current call snap epoch q =
    (let q = interlude_step (snd call) q
     in (map_option (\<lambda>c. same_state c snap \<and> \<not> vs_muted c \<and> vs_mode c = VStr ''command'' \<and> epoch = sq_epoch q)
           (snapshot_state (fst call)), q))"

record say_io =
  sy_state1 :: "raw_state reply \<times> interlude"
  sy_state2 :: "raw_state reply \<times> interlude"
  sy_state3 :: "raw_state reply \<times> interlude"
  sy_start :: "bool \<times> interlude"
  sy_state4 :: "raw_state reply \<times> interlude"
  sy_cancel1 :: worker_reply
  sy_cancel2 :: worker_reply

definition say_stopped :: "string \<Rightarrow> worker_reply \<Rightarrow> speech_queue \<Rightarrow> bool \<times> speech_queue" where
  "say_stopped reason reply q = (False, speech_stop reply (q\<lparr>sq_code := reason\<rparr>))"

text \<open>The backend is started and the state checked once more; the queue owns the cleanup whatever
  happens.\<close>

definition say_start :: "say_io \<Rightarrow> string \<Rightarrow> voice_state \<Rightarrow> nat \<Rightarrow> speech_queue \<Rightarrow> bool \<times> speech_queue" where
  "say_start io prompt snap epoch q =
    (let q = q\<lparr>sq_active := True, sq_snapshot := Some snap, sq_calls := sq_calls q @ [BStart prompt]\<rparr>;
         q = (interlude_step (snd (sy_start io)) q)\<lparr>sq_active := True\<rparr>
     in if \<not> fst (sy_start io) then say_stopped ''speech.unavailable'' (sy_cancel2 io) q
        else case speech_current (sy_state4 io) snap epoch q of
          (None, q) \<Rightarrow> say_stopped ''speech.unavailable'' (sy_cancel2 io) (q\<lparr>sq_active := True\<rparr>)
        | (Some False, q) \<Rightarrow> say_stopped ''speech.stale'' (sy_cancel2 io) q
        | (Some True, q) \<Rightarrow> (True, q\<lparr>sq_code := ''speech.started''\<rparr>))"

definition say_body :: "say_io \<Rightarrow> string \<Rightarrow> pyv \<Rightarrow> speech_queue \<Rightarrow> bool \<times> speech_queue" where
  "say_body io prompt activation q =
    (let epoch = sq_epoch q; q = interlude_step (snd (sy_state1 io)) q
     in case snapshot_state (fst (sy_state1 io)) of
       None \<Rightarrow> say_stopped ''speech.state-unavailable'' (sy_cancel1 io) q
     | Some snap \<Rightarrow>
         (case (if activation = VStr (vs_activation_id snap) then speech_current (sy_state2 io) snap epoch q else (Some False, q)) of
            (None, q) \<Rightarrow> say_stopped ''speech.state-unavailable'' (sy_cancel1 io) q
          | (Some False, q) \<Rightarrow> say_stopped ''speech.stale'' (sy_cancel1 io) q
          | (Some True, q) \<Rightarrow>
              (let q = speech_stop (sy_cancel1 io) q
               in if sq_faulted q then (False, q)
                  else case speech_current (sy_state3 io) snap epoch q of
                    (Some True, q) \<Rightarrow> say_start io prompt snap epoch q
                  | (_, q) \<Rightarrow> (False, q\<lparr>sq_code := ''speech.stale''\<rparr>))))"

definition say :: "say_io \<Rightarrow> pyv \<Rightarrow> pyv \<Rightarrow> speech_queue \<Rightarrow> bool \<times> speech_queue" where
  "say io prompt activation q =
    (if sq_faulted q \<or> sq_busy q \<or> sq_stopping q then (False, q)
     else case prompt of
       VStr s \<Rightarrow>
         if s \<notin> set prompts then (False, q\<lparr>sq_code := ''speech.invalid-prompt''\<rparr>)
         else (case say_body io s activation (q\<lparr>sq_busy := True\<rparr>) of (b, q) \<Rightarrow> (b, q\<lparr>sq_busy := False\<rparr>))
     | _ \<Rightarrow> (False, q\<lparr>sq_code := ''speech.invalid-prompt''\<rparr>))"

text \<open>\<open>poll\<close>; without a snapshot the comparison with \<open>None\<close> is false.\<close>

definition speech_poll :: "raw_state reply \<times> interlude \<Rightarrow> worker_reply \<Rightarrow> speech_queue \<Rightarrow> speech_queue" where
  "speech_poll call reply q =
    (if \<not> sq_active q \<or> sq_busy q \<or> sq_stopping q then q
     else
       let q = q\<lparr>sq_busy := True\<rparr>;
           (current, q) = (case sq_snapshot q of
             Some snap \<Rightarrow> speech_current call snap (sq_epoch q) q
           | None \<Rightarrow> (Some False, interlude_step (snd call) q));
           q = (if current = Some True then q else speech_stop reply (q\<lparr>sq_code := ''speech.stale''\<rparr>))
       in q\<lparr>sq_busy := False\<rparr>)"

section \<open>One prompt at a time\<close>

text \<open>After a start, speech may be playing until a cancel proves that it is quiet. \<open>slots\<close> says that no
  start comes while speech may be playing.\<close>

fun playing :: "bool \<Rightarrow> backend_call list \<Rightarrow> bool" where
  "playing p [] = p"
| "playing p (BStart s # cs) = playing True cs"
| "playing p (BCancel clean # cs) = playing (p \<and> \<not> clean) cs"

fun slots :: "bool \<Rightarrow> backend_call list \<Rightarrow> bool" where
  "slots p [] = True"
| "slots p (BStart s # cs) = (\<not> p \<and> slots True cs)"
| "slots p (BCancel clean # cs) = slots (p \<and> \<not> clean) cs"

lemma playing_append [simp]: "playing p (cs @ ds) = playing (playing p cs) ds"
  by (induction p cs rule: playing.induct) simp_all

lemma slots_append [simp]: "slots p (cs @ ds) = (slots p cs \<and> slots (playing p cs) ds)"
  by (induction p cs rule: playing.induct) simp_all

definition spoken :: "backend_call list \<Rightarrow> bool" where
  "spoken cs = list_all (\<lambda>c. case c of BStart s \<Rightarrow> s \<in> set prompts | BCancel _ \<Rightarrow> True) cs"

lemma spoken_simps [simp]:
  "spoken []" "spoken (cs @ ds) = (spoken cs \<and> spoken ds)" "spoken [BCancel b]" "spoken [BStart s] = (s \<in> set prompts)"
  by (simp_all add: spoken_def)

definition speech_inv :: "speech_queue \<Rightarrow> bool" where
  "speech_inv q \<longleftrightarrow> slots False (sq_calls q) \<and> spoken (sq_calls q) \<and> \<not> sq_stopping q
     \<and> (playing False (sq_calls q) \<longrightarrow> sq_active q)"

lemma speech_inv_fields [simp]:
  "speech_inv (q\<lparr>sq_code := c\<rparr>) = speech_inv q" "speech_inv (q\<lparr>sq_busy := b\<rparr>) = speech_inv q"
  "speech_inv (q\<lparr>sq_epoch := n\<rparr>) = speech_inv q" "speech_inv (q\<lparr>sq_snapshot := x\<rparr>) = speech_inv q"
  "speech_inv q \<Longrightarrow> speech_inv (q\<lparr>sq_active := True\<rparr>)"
  by (simp_all add: speech_inv_def)

lemma speech_stop_inv [simp]: "speech_inv q \<Longrightarrow> speech_inv (speech_stop reply q)"
  by (auto simp: speech_stop_def speech_inv_def Let_def)

lemma speech_stop_idle: "speech_inv q \<Longrightarrow> \<not> sq_faulted (speech_stop reply q) \<Longrightarrow> \<not> sq_active (speech_stop reply q)"
  by (auto simp: speech_stop_def speech_inv_def Let_def split: if_splits)

lemma speech_stop_fields [simp]: "sq_epoch (speech_stop reply q) = sq_epoch q" "sq_busy (speech_stop reply q) = sq_busy q"
  by (simp_all add: speech_stop_def Let_def)

lemma speech_cancel_inv [simp]: "speech_inv q \<Longrightarrow> speech_inv (speech_cancel reply q)"
  by (simp add: speech_cancel_def)

lemma interlude_inv [simp]: "speech_inv q \<Longrightarrow> speech_inv (interlude_step i q)"
  by (cases i) simp_all

lemma interlude_epoch: "sq_epoch (interlude_step i q) = sq_epoch q + (if i = Undisturbed then 0 else 1)"
  by (cases i) (simp_all add: speech_cancel_def)

lemma interlude_idle: "\<not> sq_active q \<Longrightarrow> \<not> sq_active (interlude_step i q)"
  by (cases i) (auto simp: speech_cancel_def speech_stop_def Let_def)

lemma speech_current_keeps:
  "speech_current call snap e q = (b, q') \<Longrightarrow> speech_inv q \<Longrightarrow> speech_inv q' \<and> (\<not> sq_active q \<longrightarrow> \<not> sq_active q')"
  by (auto simp: speech_current_def Let_def interlude_idle)

lemma say_stopped_inv [simp]: "speech_inv q \<Longrightarrow> speech_inv (snd (say_stopped reason reply q))" "\<not> fst (say_stopped reason reply q)"
  by (simp_all add: say_stopped_def)

lemma say_start_inv:
  assumes "speech_inv q" and "\<not> sq_active q" and "prompt \<in> set prompts"
  shows "speech_inv (snd (say_start io prompt snap e q))"
proof -
  let ?q = "q\<lparr>sq_active := True, sq_snapshot := Some snap, sq_calls := sq_calls q @ [BStart prompt]\<rparr>"
  have "speech_inv ?q" using assms by (auto simp: speech_inv_def)
  then show ?thesis
    by (auto simp: say_start_def Let_def split: option.splits bool.splits prod.splits dest: speech_current_keeps)
qed

lemma say_body_inv:
  assumes "speech_inv q" and "prompt \<in> set prompts"
  shows "speech_inv (snd (say_body io prompt act q))"
  using assms
  by (auto simp: say_body_def Let_def split: option.splits bool.splits prod.splits if_splits
      dest!: speech_current_keeps intro!: say_start_inv dest: speech_stop_idle)

lemma say_inv: "speech_inv q \<Longrightarrow> speech_inv (snd (say io prompt act q))"
  using say_body_inv[of "q\<lparr>sq_busy := True\<rparr>"] by (auto simp: say_def case_prod_beta split: pyv.splits)

lemma speech_poll_inv: "speech_inv q \<Longrightarrow> speech_inv (speech_poll call reply q)"
  by (auto simp: speech_poll_def Let_def split: option.splits prod.splits dest!: speech_current_keeps)

text \<open>What the last check of a successful start has established.\<close>

lemma speech_current_True:
  assumes "speech_current call snap e q = (Some True, q')"
  shows "q' = interlude_step (snd call) q \<and> e = sq_epoch q' \<and> (\<exists>now. snapshot_state (fst call) = Some now
    \<and> same_state now snap \<and> \<not> vs_muted now \<and> vs_mode now = VStr ''command'')"
  using assms by (auto simp: speech_current_def Let_def)

lemma say_start_True:
  assumes "say_start io prompt snap e q = (True, q')" and "e \<le> sq_epoch q"
  shows "sq_epoch q = e \<and> snd (sy_start io) = Undisturbed \<and> snd (sy_state4 io) = Undisturbed \<and> fst (sy_start io) \<and> sq_active q'
    \<and> (\<exists>now. snapshot_state (fst (sy_state4 io)) = Some now \<and> same_state now snap \<and> \<not> vs_muted now \<and> vs_mode now = VStr ''command'')"
  using assms
  by (auto simp: say_start_def Let_def say_stopped_def interlude_epoch split: option.splits bool.splits prod.splits if_splits
      dest!: speech_current_True)

lemma say_body_passed:
  assumes "say_body io prompt act q = (True, q')"
  shows "\<exists>snap q1 q2. snapshot_state (fst (sy_state1 io)) = Some snap \<and> act = VStr (vs_activation_id snap)
    \<and> speech_current (sy_state2 io) snap (sq_epoch q) (interlude_step (snd (sy_state1 io)) q) = (Some True, q1)
    \<and> speech_current (sy_state3 io) snap (sq_epoch q) (speech_stop (sy_cancel1 io) q1) = (Some True, q2)
    \<and> say_start io prompt snap (sq_epoch q) q2 = (True, q')"
  using assms
  by (simp add: say_body_def Let_def say_stopped_def split: option.splits bool.splits prod.splits if_splits)

lemma say_body_True:
  assumes "say_body io prompt act q = (True, q')"
  shows "\<exists>snap now. snapshot_state (fst (sy_state1 io)) = Some snap \<and> act = VStr (vs_activation_id snap)
    \<and> snapshot_state (fst (sy_state4 io)) = Some now \<and> same_state now snap \<and> \<not> vs_muted now \<and> vs_mode now = VStr ''command''
    \<and> snd (sy_state1 io) = Undisturbed \<and> snd (sy_start io) = Undisturbed \<and> snd (sy_state4 io) = Undisturbed"
proof -
  from say_body_passed[OF assms] obtain snap q1 q2 where s: "snapshot_state (fst (sy_state1 io)) = Some snap"
      "act = VStr (vs_activation_id snap)"
      and c1: "speech_current (sy_state2 io) snap (sq_epoch q) (interlude_step (snd (sy_state1 io)) q) = (Some True, q1)"
      and c2: "speech_current (sy_state3 io) snap (sq_epoch q) (speech_stop (sy_cancel1 io) q1) = (Some True, q2)"
      and st: "say_start io prompt snap (sq_epoch q) q2 = (True, q')" by blast
  have "sq_epoch q = sq_epoch q1" "sq_epoch q1 = sq_epoch (interlude_step (snd (sy_state2 io)) (interlude_step (snd (sy_state1 io)) q))"
    "sq_epoch q = sq_epoch q2" using speech_current_True[OF c1] speech_current_True[OF c2] by blast+
  then have "snd (sy_state1 io) = Undisturbed" "sq_epoch q \<le> sq_epoch q2" by (simp_all add: interlude_epoch split: if_splits)
  with say_start_True[OF st] s show ?thesis by blast
qed

section \<open>Properties\<close>

datatype speech_call = Say say_io pyv pyv | SpeechCancel worker_reply | SpeechPoll "raw_state reply \<times> interlude" worker_reply

fun speech_step :: "speech_call \<Rightarrow> speech_queue \<Rightarrow> speech_queue" where
  "speech_step (Say io prompt act) q = snd (say io prompt act q)"
| "speech_step (SpeechCancel reply) q = speech_cancel reply q"
| "speech_step (SpeechPoll call reply) q = speech_poll call reply q"

definition speech_run :: "speech_call list \<Rightarrow> speech_queue" where
  "speech_run cs = fold speech_step cs speech_init"

lemma speech_run_inv: "speech_inv (speech_run cs)"
proof -
  have "speech_inv (speech_step c q)" if "speech_inv q" for c q
    using that by (cases c) (simp_all add: say_inv speech_poll_inv)
  then have "speech_inv (fold speech_step cs q)" if "speech_inv q" for q
    using that by (induction cs arbitrary: q) simp_all
  moreover have "speech_inv speech_init" by (simp add: speech_inv_def speech_init_def)
  ultimately show ?thesis unfolding speech_run_def by blast
qed

text \<open>Speech has one slot. In any history, with cancels of other threads and of the callbacks
  themselves, only the fixed prompts are spoken, no prompt is started while an earlier one may still be
  playing, and a queue that claims a proven cleanup is silent. When \<open>say\<close> admits a prompt, the caller's
  activation is the one of the trusted state, the state sampled after the start equals the one sampled
  before it, is not muted and in command mode, and no cancel came in between.\<close>

theorem speech_exclusive:
  shows "slots False (sq_calls (speech_run cs)) \<and> spoken (sq_calls (speech_run cs))
    \<and> (speech_cleanup_proven (speech_run cs) \<longrightarrow> \<not> playing False (sq_calls (speech_run cs)))
    \<and> (\<forall>io prompt act. fst (say io prompt act (speech_run cs)) \<longrightarrow>
        (\<exists>snap now. snapshot_state (fst (sy_state1 io)) = Some snap \<and> act = VStr (vs_activation_id snap)
          \<and> snapshot_state (fst (sy_state4 io)) = Some now \<and> same_state now snap \<and> \<not> vs_muted now \<and> vs_mode now = VStr ''command''
          \<and> snd (sy_state1 io) = Undisturbed \<and> snd (sy_start io) = Undisturbed \<and> snd (sy_state4 io) = Undisturbed))"
proof -
  have inv: "speech_inv (speech_run cs)" by (rule speech_run_inv)
  have "\<exists>snap now. snapshot_state (fst (sy_state1 io)) = Some snap \<and> act = VStr (vs_activation_id snap)
      \<and> snapshot_state (fst (sy_state4 io)) = Some now \<and> same_state now snap \<and> \<not> vs_muted now \<and> vs_mode now = VStr ''command''
      \<and> snd (sy_state1 io) = Undisturbed \<and> snd (sy_start io) = Undisturbed \<and> snd (sy_state4 io) = Undisturbed"
    if say: "fst (say io prompt act (speech_run cs))" for io prompt act
  proof -
    from say obtain s where "fst (say_body io s act (speech_run cs\<lparr>sq_busy := True\<rparr>))"
      by (auto simp: say_def case_prod_beta split: pyv.splits if_splits)
    then obtain q' where "say_body io s act (speech_run cs\<lparr>sq_busy := True\<rparr>) = (True, q')"
      by (metis prod.collapse)
    from say_body_True[OF this] show ?thesis by blast
  qed
  with inv show ?thesis by (auto simp: speech_inv_def speech_cleanup_proven_def)
qed

definition sample_raw :: raw_state where
  "sample_raw = \<lparr>rw_context = Some [(''lane_id'', VStr ''l'')], rw_key = VStr ''k'', rw_activation_id = VStr ''a'',
     rw_muted = VBool False, rw_mode = VStr ''command''\<rparr>"

definition sample_say :: say_io where
  "sample_say = (let c = (Gives sample_raw, Undisturbed)
     in \<lparr>sy_state1 = c, sy_state2 = c, sy_state3 = c, sy_start = (True, Undisturbed), sy_state4 = c,
         sy_cancel1 = WResult (process_result_of ''canceled'' [] ''process.canceled''), sy_cancel2 = WRaises\<rparr>)"

theorem speech_exclusive_witness:
  "(let cs = [Say sample_say (VStr ''Please repeat the command.'') (VStr ''a''),
              Say sample_say (VStr ''Please confirm in the voice panel.'') (VStr ''a'')]
    in sq_calls (speech_run cs) = [BStart ''Please repeat the command.'', BCancel True, BStart ''Please confirm in the voice panel.'']
      \<and> slots False (sq_calls (speech_run cs)))
    \<and> (\<exists>snap. snapshot_state (fst (sy_state1 sample_say)) = Some snap)"
proof -
  let ?cs = "[Say sample_say (VStr ''Please repeat the command.'') (VStr ''a''),
    Say sample_say (VStr ''Please confirm in the voice panel.'') (VStr ''a'')]"
  have "sq_calls (speech_run ?cs) = [BStart ''Please repeat the command.'', BCancel True, BStart ''Please confirm in the voice panel.'']"
    by code_simp
  moreover have "fst (say sample_say (VStr ''Please repeat the command.'') (VStr ''a'') (speech_run ?cs))" by code_simp
  ultimately show ?thesis using speech_exclusive[of ?cs] by (simp only: Let_def) blast
qed

end
