(* ===== verification/Text_Match.thy ===== *)
theory Text_Match
  imports Voice_Workers
begin

text \<open>
  Matching of spoken text: \<open>normalize\<close> of \<open>src/runtime/voice/router.py\<close> and the similarity
  \<open>SequenceMatcher(None, a, b).ratio()\<close> it uses. Compatibility folding, the word characters of Unicode and
  the rounding of a quotient to the nearest float are tables and arithmetic of the interpreter: they are
  the fields of \<open>text_env\<close>.
\<close>

record text_env =
  te_fold :: "codepoints \<Rightarrow> codepoints"
  te_word :: "int \<Rightarrow> bool"
  te_round :: "rat \<Rightarrow> rat"
  te_dumps :: "bag \<Rightarrow> string option"

section \<open>Normalization\<close>

text \<open>\<open>str.split()\<close>: the maximal runs without white space.\<close>

function words :: "codepoints \<Rightarrow> codepoints list" where
  "words t = (let t = dropWhile is_space_cp t
     in if t = [] then [] else takeWhile (\<lambda>c. \<not> is_space_cp c) t # words (dropWhile (\<lambda>c. \<not> is_space_cp c) t))"
  by auto
termination
proof (relation "measure length")
  fix t x assume x: "x = dropWhile is_space_cp t" "x \<noteq> []"
  then have "\<not> is_space_cp (hd x)" using hd_dropWhile by blast
  then have "length (dropWhile (\<lambda>c. \<not> is_space_cp c) x) < length x"
    using x(2) by (cases x) (simp_all add: length_dropWhile_le le_imp_less_Suc)
  also have "\<dots> \<le> length t" unfolding x(1) by (rule length_dropWhile_le)
  finally show "(dropWhile (\<lambda>c. \<not> is_space_cp c) x, t) \<in> measure length" by simp
qed simp

declare words.simps [simp del]

fun join :: "codepoints list \<Rightarrow> codepoints" where
  "join [] = []"
| "join [w] = w"
| "join (w # ws) = w @ 32 # join ws"

definition normalize :: "text_env \<Rightarrow> codepoints \<Rightarrow> codepoints" where
  "normalize te t = join (words (map (\<lambda>c. if te_word te c \<or> is_space_cp c then c else 32) (te_fold te t)))"

section \<open>Similarity\<close>

text \<open>The length of the common prefix.\<close>

fun common :: "'a list \<Rightarrow> 'a list \<Rightarrow> nat" where
  "common (x # xs) (y # ys) = (if x = y then Suc (common xs ys) else 0)"
| "common _ _ = 0"

text \<open>The run of equal elements, none of them popular, that ends at \<open>(i, j)\<close>.\<close>

fun run_at :: "('a \<Rightarrow> bool) \<Rightarrow> 'a list \<Rightarrow> 'a list \<Rightarrow> nat \<Rightarrow> nat \<Rightarrow> nat" where
  "run_at pop xs ys 0 j = (if xs ! 0 = ys ! j \<and> \<not> pop (xs ! 0) then 1 else 0)"
| "run_at pop xs ys (Suc i) j =
    (if xs ! Suc i = ys ! j \<and> \<not> pop (xs ! Suc i) then Suc (if j = 0 then 0 else run_at pop xs ys i (j - 1)) else 0)"

definition better :: "('a \<Rightarrow> bool) \<Rightarrow> 'a list \<Rightarrow> 'a list \<Rightarrow> nat \<times> nat \<times> nat \<Rightarrow> nat \<times> nat \<Rightarrow> nat \<times> nat \<times> nat" where
  "better pop xs ys best ij =
    (case (best, ij) of ((bi, bj, bk), i, j) \<Rightarrow>
       let k = run_at pop xs ys i j in if k > bk then (Suc i - k, Suc j - k, k) else (bi, bj, bk))"

definition longest :: "('a \<Rightarrow> bool) \<Rightarrow> 'a list \<Rightarrow> 'a list \<Rightarrow> nat \<times> nat \<times> nat" where
  "longest pop xs ys =
    (case foldl (better pop xs ys) (0, 0, 0) (List.product [0..<length xs] [0..<length ys]) of
       (i, j, k) \<Rightarrow>
         let e = common (rev (take i xs)) (rev (take j ys));
             i = i - e; j = j - e; k = k + e
         in (i, j, k + common (drop (i + k) xs) (drop (j + k) ys)))"

lemma common_le: "common xs ys \<le> length xs" "common xs ys \<le> length ys"
  by (induction xs ys rule: common.induct) auto

lemma run_at_le: "run_at pop xs ys i j \<le> Suc i" "run_at pop xs ys i j \<le> Suc j"
proof (induction pop xs ys i j rule: run_at.induct)
  case (2 pop xs ys i j)
  { case 1 show ?case using 2 by (cases j) auto }
  { case 2 show ?case using "2.IH" by (cases j) auto }
qed auto

lemma foldl_better_bounds:
  assumes "foldl (better pop xs ys) (bi, bj, bk) ps = (i, j, k)" and "\<forall>(a, b) \<in> set ps. a < length xs \<and> b < length ys"
    and "bi + bk \<le> length xs" and "bj + bk \<le> length ys"
  shows "i + k \<le> length xs \<and> j + k \<le> length ys"
  using assms
proof (induction ps arbitrary: bi bj bk)
  case (Cons p ps)
  obtain a b where p: "p = (a, b)" "a < length xs" "b < length ys" using Cons.prems(2) by (cases p) auto
  obtain ci cj ck where c: "better pop xs ys (bi, bj, bk) p = (ci, cj, ck)" by (metis prod_cases3)
  then have "ci + ck \<le> length xs" "cj + ck \<le> length ys"
    using p Cons.prems(3,4) run_at_le[of pop xs ys a b] by (auto simp: better_def Let_def split: if_splits)
  with Cons.IH[of ci cj ck] Cons.prems(1,2) c show ?case by simp
qed simp

lemma longest_bounds:
  assumes "longest pop xs ys = (i, j, k)"
  shows "i + k \<le> length xs \<and> j + k \<le> length ys"
proof -
  obtain bi bj bk where f: "foldl (better pop xs ys) (0, 0, 0) (List.product [0..<length xs] [0..<length ys]) = (bi, bj, bk)"
    by (metis prod_cases3)
  have b: "bi + bk \<le> length xs" "bj + bk \<le> length ys"
    using foldl_better_bounds[OF f] by (auto simp: set_product)
  define e where "e = common (rev (take bi xs)) (rev (take bj ys))"
  have e: "e \<le> bi" "e \<le> bj"
    using common_le[of "rev (take bi xs)" "rev (take bj ys)"] b unfolding e_def by simp_all
  define n where "n = common (drop (bi + bk) xs) (drop (bj + bk) ys)"
  have n: "n \<le> length xs - (bi + bk)" "n \<le> length ys - (bj + bk)"
    using common_le[of "drop (bi + bk) xs" "drop (bj + bk) ys"] unfolding n_def by simp_all
  have "bi - e + (bk + e) = bi + bk" "bj - e + (bk + e) = bj + bk" using e by simp_all
  then have "i = bi - e" "j = bj - e" "k = bk + e + n"
    using assms unfolding longest_def f by (simp_all add: Let_def e_def[symmetric] n_def[symmetric])
  with b e n show ?thesis by linarith
qed

text \<open>The number of matched elements over all matching blocks.\<close>

function matched :: "('a \<Rightarrow> bool) \<Rightarrow> 'a list \<Rightarrow> 'a list \<Rightarrow> nat" where
  "matched pop xs ys =
    (case longest pop xs ys of
       (i, j, k) \<Rightarrow> if k = 0 then 0
         else k + matched pop (take i xs) (take j ys) + matched pop (drop (i + k) xs) (drop (j + k) ys))"
  by auto
termination
  by (relation "measure (\<lambda>(pop, xs, ys). length xs)") (auto dest!: longest_bounds[OF sym])

declare matched.simps [simp del]

definition popular :: "codepoints \<Rightarrow> int \<Rightarrow> bool" where
  "popular b c \<longleftrightarrow> int (length b) \<ge> 200 \<and> int (length (filter (\<lambda>x. x = c) b)) > int (length b) div 100 + 1"

definition ratio :: "text_env \<Rightarrow> codepoints \<Rightarrow> codepoints \<Rightarrow> rat" where
  "ratio te a b = (if a = [] \<and> b = [] then 1
     else te_round te (of_int (2 * int (matched (popular b) a b)) / of_int (int (length a + length b))))"

section \<open>The similarity is normalized\<close>

lemma matched_le: "matched pop xs ys \<le> length xs \<and> matched pop xs ys \<le> length ys"
proof (induction pop xs ys rule: matched.induct)
  case (1 pop xs ys)
  obtain i j k where l: "longest pop xs ys = (i, j, k)" by (metis prod_cases3)
  show ?case
  proof (cases "k = 0")
    case False
    note b = longest_bounds[OF l]
    have left: "matched pop (take i xs) (take j ys) \<le> i \<and> matched pop (take i xs) (take j ys) \<le> j"
      using "1.IH"(1)[OF l[symmetric] refl False] b by simp
    have right: "matched pop (drop (i + k) xs) (drop (j + k) ys) \<le> length xs - (i + k)
        \<and> matched pop (drop (i + k) xs) (drop (j + k) ys) \<le> length ys - (j + k)"
      using "1.IH"(2)[OF l[symmetric] refl False] by simp
    have "matched pop xs ys = k + matched pop (take i xs) (take j ys) + matched pop (drop (i + k) xs) (drop (j + k) ys)"
      using False by (subst matched.simps) (simp add: l)
    with left right b show ?thesis by linarith
  qed (subst matched.simps, simp add: l)+
qed

lemma ratio_bounds:
  assumes "\<And>x. 0 \<le> x \<Longrightarrow> x \<le> 1 \<Longrightarrow> 0 \<le> te_round te x \<and> te_round te x \<le> 1"
  shows "0 \<le> ratio te a b \<and> ratio te a b \<le> 1"
proof (cases "a = [] \<and> b = []")
  case False
  then have pos: "0 < int (length a + length b)" by (cases a; cases b) simp_all
  have "2 * int (matched (popular b) a b) \<le> int (length a + length b)"
    using matched_le[of "popular b" a b] by simp
  then have le: "(of_int (2 * int (matched (popular b) a b)) :: rat) \<le> of_int (int (length a + length b))"
    by (simp only: of_int_le_iff)
  have posr: "(0 :: rat) < of_int (int (length a + length b))" using pos by (simp only: of_int_0_less_iff)
  have "0 \<le> (of_int (2 * int (matched (popular b) a b)) :: rat) / of_int (int (length a + length b))"
    by (intro divide_nonneg_pos posr) simp
  moreover have "(of_int (2 * int (matched (popular b) a b)) :: rat) / of_int (int (length a + length b)) \<le> 1"
    using le posr by (simp only: divide_le_eq_1_pos)
  ultimately show ?thesis using False assms unfolding ratio_def by simp
qed (simp add: ratio_def)

end
