(* ===== verification/Voice_Router.thy ===== *)
theory Voice_Router
  imports Dispatch_Safety Voice_Speech Text_Match
begin

text \<open>
  The voice router of \<open>src/runtime/voice/router.py\<close>: candidates for a transcript, clarification,
  preview and dispatch, and the confirmation of a preview. It calls the control plane of
  \<open>Control_Plane\<close>; the trusted state supplier, the speech callback and the proposal callback are
  answers of the argument \<open>router_io\<close>: \<open>ro_states\<close> are the samples the router takes itself, in order,
  \<open>ro_guard\<close> those the control plane's guard takes.
\<close>

section \<open>Actions\<close>

record action =
  ac_capability_id :: string
  ac_catalog_version :: int
  ac_arguments :: bag
  ac_aliases :: "codepoints list"
  ac_label :: string

fun primitive :: "pyv \<Rightarrow> bool" where
  "primitive (VStr s) = True"
| "primitive (VInt i) = True"
| "primitive (VBool b) = True"
| "primitive (VFloat f) = (case f of Fin r \<Rightarrow> True | _ \<Rightarrow> False)"
| "primitive _ = False"

text \<open>An alias or the label is \<open>None\<close> when it is no text, the arguments when they are no mapping.\<close>

definition action_init ::
  "text_env \<Rightarrow> string \<Rightarrow> int \<Rightarrow> bag option \<Rightarrow> codepoints option list \<Rightarrow> string option \<Rightarrow> string + action" where
  "action_init te cap version arguments aliases label =
    (if aliases = [] \<or> list_ex (\<lambda>a. case a of None \<Rightarrow> True | Some t \<Rightarrow> normalize te t = []) aliases
     then Inl ''action aliases must be nonempty text''
     else case label of
       None \<Rightarrow> Inl ''action label must be nonempty text''
     | Some l \<Rightarrow>
         if l = [] then Inl ''action label must be nonempty text''
         else case arguments of
           None \<Rightarrow> Inl ''action arguments must be finite primitives''
         | Some args \<Rightarrow>
             if \<not> list_all (\<lambda>(k, v). primitive v) args then Inl ''action arguments must be finite primitives''
             else Inr \<lparr>ac_capability_id = cap, ac_catalog_version = version, ac_arguments = args,
                    ac_aliases = List.map_filter id aliases, ac_label = l\<rparr>)"

record voice_reply =
  vr_status :: string
  vr_code :: string
  vr_token :: "string option"
  vr_prompt :: "string option"
  vr_result :: "result option"

definition reply_of :: "string \<Rightarrow> string \<Rightarrow> voice_reply" where
  "reply_of status cd = \<lparr>vr_status = status, vr_code = cd, vr_token = None, vr_prompt = None, vr_result = None\<rparr>"

definition result_reply :: "result \<Rightarrow> string \<Rightarrow> voice_reply" where
  "result_reply r cd = \<lparr>vr_status = res_status r,
     vr_code = (case res_error r of Some e \<Rightarrow> err_code e | None \<Rightarrow> cd),
     vr_token = None, vr_prompt = None, vr_result = Some r\<rparr>"

section \<open>The router\<close>

record router =
  rt_actions :: "(string \<times> action) list"
  rt_proposal :: bool
  rt_activations :: "string list"
  rt_previews :: "(string \<times> confirmation \<times> string) list"
  rt_busy :: bool

definition router_init :: "action list \<Rightarrow> bool \<Rightarrow> string + router" where
  "router_init actions proposal =
    (if actions = [] \<or> \<not> distinct (map ac_capability_id actions) then Inl ''actions must have unique capability IDs''
     else Inr \<lparr>rt_actions = map (\<lambda>a. (ac_capability_id a, a)) actions, rt_proposal = proposal, rt_activations = [],
            rt_previews = [], rt_busy = False\<rparr>)"

record router_io =
  ro_states :: "nat \<Rightarrow> raw_state reply"
  ro_guard :: "nat \<Rightarrow> raw_state reply"
  ro_speak :: bool
  ro_proposal :: "pyv list reply"
  ro_now_ms :: int
  ro_command_id :: string
  ro_correlation_id :: string

text \<open>\<open>_state\<close>: \<open>None\<close> when it raises.\<close>

definition router_state :: "raw_state reply \<Rightarrow> voice_state option" where
  "router_state r =
    (case r of
       Gives v \<Rightarrow>
         (case (rw_key v, rw_activation_id v, rw_muted v, rw_context v) of
            (VStr k, VStr a, VBool m, Some c) \<Rightarrow>
              if k = [] \<or> a = [] then None
              else Some \<lparr>vs_context = c, vs_key = k, vs_activation_id = a, vs_muted = m, vs_mode = rw_mode v\<rparr>
          | _ \<Rightarrow> None)
     | _ \<Rightarrow> None)"

text \<open>\<open>_binding\<close>: \<open>None\<close> when the context has no JSON text.\<close>

definition binding :: "text_env \<Rightarrow> voice_state \<Rightarrow> string option" where
  "binding te s = te_dumps te [(''key'', VStr (vs_key s)), (''context'', VDict (vs_context s))]"

definition voice_denial :: "voice_state \<Rightarrow> string option" where
  "voice_denial s = (if vs_muted s then Some ''voice.muted''
     else if vs_mode s \<noteq> VStr ''command'' then Some ''voice.wrong-mode'' else None)"

definition router_current :: "raw_state reply \<Rightarrow> voice_state \<Rightarrow> bool" where
  "router_current r s = (case router_state r of None \<Rightarrow> False | Some c \<Rightarrow> same_state c s \<and> voice_denial c = None)"

definition router_guard :: "router_io \<Rightarrow> voice_state \<Rightarrow> guard" where
  "router_guard io s = Some (\<lambda>k. router_current (ro_guard io k) s)"

definition activate :: "voice_state \<Rightarrow> router \<Rightarrow> string option \<times> router" where
  "activate s r =
    (if vs_activation_id s \<in> set (rt_activations r) then (Some ''activation.reused'', r)
     else if int (length (rt_activations r)) \<ge> 4096 then (Some ''session.exhausted'', r)
     else (None, r\<lparr>rt_activations := vs_activation_id s # rt_activations r\<rparr>))"

definition voice_command :: "router_io \<Rightarrow> action \<Rightarrow> voice_state \<Rightarrow> int \<Rightarrow> contract_error + rec" where
  "voice_command io a s version = decode (VDict
    [(''kind'', VStr ''command''), (''version'', VInt 1),
     (''command_id'', VStr (ro_command_id io)), (''correlation_id'', VStr (ro_correlation_id io)),
     (''capability_id'', VStr (ac_capability_id a)), (''catalog_version'', VInt version),
     (''requested_at_ms'', VInt (ro_now_ms io)), (''arguments'', VDict (ac_arguments a)),
     (''context'', VDict (AList.update ''source'' (VStr ''voice'') (vs_context s)))])"

section \<open>Candidates\<close>

type_synonym candidate = "action \<times> rat \<times> int"

definition is_alias :: "text_env \<Rightarrow> codepoints \<Rightarrow> action \<Rightarrow> bool" where
  "is_alias te t a \<longleftrightarrow> normalize te t \<in> set (map (normalize te) (ac_aliases a))"

text \<open>\<open>sorted\<close> is stable: by identifier first, then by falling score.\<close>

definition ranked :: "candidate list \<Rightarrow> candidate list" where
  "ranked cs = sort_key (\<lambda>(a, score, v). - score) (sort_key (\<lambda>(a, score, v). ac_capability_id a) cs)"

definition item_keys :: "bag \<Rightarrow> bool" where
  "item_keys d \<longleftrightarrow> set (map fst d) = set [''capability_id'', ''catalog_version'', ''confidence'']"

definition proposal_item :: "router \<Rightarrow> string list \<Rightarrow> pyv \<Rightarrow> (string \<times> candidate) option" where
  "proposal_item r seen v =
    (case v of
       VDict d \<Rightarrow>
         if \<not> item_keys d then None
         else (case (map_of d ''capability_id'', map_of d ''catalog_version'', Option.bind (map_of d ''confidence'') num_of) of
                 (Some (VStr i), Some (VInt n), Some score) \<Rightarrow>
                   (case map_of (rt_actions r) i of
                      Some a \<Rightarrow> if i \<in> set seen \<or> n < 1 \<or> score < 0 \<or> 1 < score then None else Some (i, a, score, n)
                    | None \<Rightarrow> None)
               | _ \<Rightarrow> None)
     | _ \<Rightarrow> None)"

fun proposal_items :: "router \<Rightarrow> string list \<Rightarrow> pyv list \<Rightarrow> candidate list option" where
  "proposal_items r seen [] = Some []"
| "proposal_items r seen (v # vs) =
    (case proposal_item r seen v of
       None \<Rightarrow> None
     | Some (i, c) \<Rightarrow> map_option (Cons c) (proposal_items r (i # seen) vs))"

definition proposed :: "router \<Rightarrow> pyv list reply \<Rightarrow> candidate list" where
  "proposed r p =
    (case p of
       Gives vs \<Rightarrow>
         if length vs > 32 then []
         else (case proposal_items r [] vs of None \<Rightarrow> [] | Some cs \<Rightarrow> ranked cs)
     | _ \<Rightarrow> [])"

definition best_ratio :: "text_env \<Rightarrow> codepoints \<Rightarrow> action \<Rightarrow> rat" where
  "best_ratio te t a =
    (case map (\<lambda>al. ratio te (normalize te t) (normalize te al)) (ac_aliases a) of [] \<Rightarrow> 0 | x # xs \<Rightarrow> foldl max x xs)"

definition candidates :: "text_env \<Rightarrow> router_io \<Rightarrow> router \<Rightarrow> codepoints \<Rightarrow> candidate list" where
  "candidates te io r t =
    (let actions = map snd (rt_actions r);
         exact = map (\<lambda>a. (a, 1, ac_catalog_version a)) (filter (is_alias te t) actions)
     in if exact \<noteq> [] then exact
        else if rt_proposal r then proposed r (ro_proposal io)
        else ranked (map (\<lambda>a. (a, best_ratio te t a, ac_catalog_version a)) actions))"

text \<open>The floats \<open>0.85\<close> and \<open>0.15\<close>, and the rounded difference of the two best scores.\<close>

definition confident :: rat where
  "confident = of_int 7656119366529843 / of_int 9007199254740992"

definition margin :: rat where
  "margin = of_int 5404319552844595 / of_int 36028797018963968"

definition unclear :: "text_env \<Rightarrow> candidate list \<Rightarrow> bool" where
  "unclear te cs = (case cs of
     [] \<Rightarrow> True
   | (a, s, v) # rest \<Rightarrow> s < confident \<or> (case rest of [] \<Rightarrow> False | (b, u, x) # _ \<Rightarrow> te_round te (s - u) < margin))"

section \<open>Handling a transcript\<close>

text \<open>An exception of the control plane that is no \<open>ValueError\<close> leaves the router.\<close>

definition caught :: "string \<Rightarrow> exc \<Rightarrow> exc + voice_reply" where
  "caught cd e = (case e of EKey k \<Rightarrow> Inl (EKey k) | _ \<Rightarrow> Inr (reply_of ''blocked'' cd))"

definition speak :: "raw_state reply \<Rightarrow> bool \<Rightarrow> voice_state \<Rightarrow> voice_reply option" where
  "speak now ok s =
    (if \<not> router_current now s then Some (reply_of ''blocked'' ''context.stale'')
     else if \<not> ok then Some (reply_of ''failed'' ''speech.unavailable'') else None)"

definition prompt_reply ::
  "'j journal_ops \<Rightarrow> env \<Rightarrow> command \<Rightarrow> string \<Rightarrow> raw_state reply \<Rightarrow> bool \<Rightarrow> voice_state \<Rightarrow> 'j world
    \<Rightarrow> voice_reply option \<times> 'j world" where
  "prompt_reply ops env c reason now ok s w =
    (case observe_interaction ops env (RCommand c) ''voice.clarification'' [(''reason'', VStr reason)] w of
       (Some e, w) \<Rightarrow> (Some (reply_of ''blocked'' ''journal.unavailable''), w)
     | (None, w) \<Rightarrow> (speak now ok s, w))"

fun join_labels :: "string list \<Rightarrow> string" where
  "join_labels [] = []"
| "join_labels [l] = l"
| "join_labels (l # ls) = l @ '', '' @ join_labels ls"

definition clarify_prompt :: "router \<Rightarrow> string" where
  "clarify_prompt r = ''Please start a new command turn and name the action: ''
     @ join_labels (map (ac_label \<circ> snd) (take 3 (rt_actions r)))"

type_synonym 'j step = "(exc + voice_reply) \<times> router \<times> plane \<times> 'j world"

text \<open>The preview: it is spoken before it can be confirmed, and withdrawn when that fails.\<close>

definition preview ::
  "'j journal_ops \<Rightarrow> env \<Rightarrow> text_env \<Rightarrow> router_io \<Rightarrow> command \<Rightarrow> string \<Rightarrow> voice_state \<Rightarrow> router \<Rightarrow> plane \<Rightarrow> 'j world \<Rightarrow> 'j step" where
  "preview ops env te io c prompt s r p w =
    (if length (rt_previews r) \<ge> 128 then (Inr (reply_of ''blocked'' ''confirmation.limit''), r, p, w)
     else case binding te s of
       None \<Rightarrow> (Inr (reply_of ''blocked'' ''voice.invalid''), r, p, w)
     | Some key \<Rightarrow>
         (case request_confirmation ops env (RCommand c) (VStr key) p w of
            (Inl (EConfirmation e), p, w) \<Rightarrow> (Inr (reply_of ''blocked'' ''confirmation.unavailable''), r, p, w)
          | (Inl e, p, w) \<Rightarrow> (caught ''voice.invalid'' e, r, p, w)
          | (Inr f, p, w) \<Rightarrow>
              (case speak (ro_states io 2) (ro_speak io) s of
                 Some failure \<Rightarrow>
                   (case confirm ops env (VStr (cf_token f)) ''panel'' key (VBool False) None p w of
                      (Inl e, p, w) \<Rightarrow> (caught ''voice.invalid'' e, r, p, w)
                    | (Inr _, p, w) \<Rightarrow> (Inr failure, r, p, w))
               | None \<Rightarrow>
                   (Inr ((reply_of ''preview'' ''confirmation.required'')\<lparr>vr_token := Some (cf_token f), vr_prompt := Some prompt\<rparr>),
                    r\<lparr>rt_previews := AList.update (cf_token f) (f, key) (rt_previews r)\<rparr>, p, w))))"

definition route ::
  "'j journal_ops \<Rightarrow> env \<Rightarrow> text_env \<Rightarrow> router_io \<Rightarrow> codepoints \<Rightarrow> bool \<Rightarrow> action \<Rightarrow> command \<Rightarrow> voice_state
    \<Rightarrow> router \<Rightarrow> plane \<Rightarrow> 'j world \<Rightarrow> 'j step" where
  "route ops env te io t corrected a c s r p w =
    (case assess ops (RCommand c) p w of
       Inl e \<Rightarrow> (caught ''voice.invalid'' e, r, p, w)
     | Inr d \<Rightarrow>
         (let inferred = (\<not> is_alias te t a)
          in if d = Some ''confirmation.required'' \<or> ((corrected \<or> inferred) \<and> d = None)
             then preview ops env te io c
               ((if corrected then ''Correction preview: '' else if inferred then ''Candidate preview: '' else ''Confirm: '')
                 @ ac_label a @ ''?'') s r p w
             else (case dispatch ops env (RCommand c) (VBool False) (router_guard io s) p w of
                     (Inl e, p, w) \<Rightarrow> (caught ''voice.invalid'' e, r, p, w)
                   | (Inr res, p, w) \<Rightarrow> (Inr (result_reply res ''command.success''), r, p, w))))"

text \<open>The best candidate, or the first action to attach a clarification to.\<close>

definition chosen :: "router \<Rightarrow> candidate list \<Rightarrow> action \<times> int" where
  "chosen r cs = (case cs of (a, score, v) # _ \<Rightarrow> (a, v)
     | [] \<Rightarrow> (snd (hd (rt_actions r)), ac_catalog_version (snd (hd (rt_actions r)))))"

definition clarify ::
  "'j journal_ops \<Rightarrow> env \<Rightarrow> router_io \<Rightarrow> command \<Rightarrow> voice_state \<Rightarrow> router \<Rightarrow> plane \<Rightarrow> 'j world \<Rightarrow> 'j step" where
  "clarify ops env io c s r p w =
    (case prompt_reply ops env c ''ambiguous-or-unknown'' (ro_states io 2) (ro_speak io) s w of
       (Some failure, w) \<Rightarrow> (Inr failure, r, p, w)
     | (None, w) \<Rightarrow>
         (Inr ((reply_of ''clarify'' ''clarification.required'')\<lparr>vr_prompt := Some (clarify_prompt r)\<rparr>), r, p, w))"

definition respond ::
  "'j journal_ops \<Rightarrow> env \<Rightarrow> text_env \<Rightarrow> router_io \<Rightarrow> codepoints \<Rightarrow> bool \<Rightarrow> voice_state \<Rightarrow> router \<Rightarrow> plane \<Rightarrow> 'j world \<Rightarrow> 'j step" where
  "respond ops env te io t fixed s r p w =
    (let cs = candidates te io r t in
     case router_state (ro_states io 1) of
       None \<Rightarrow> (Inr (reply_of ''blocked'' ''voice.invalid''), r, p, w)
     | Some now \<Rightarrow>
         if \<not> same_state now s \<or> voice_denial now \<noteq> None then (Inr (reply_of ''blocked'' ''context.stale''), r, p, w)
         else case voice_command io (fst (chosen r cs)) s (snd (chosen r cs)) of
           Inr (RCommand c) \<Rightarrow>
             if unclear te cs then clarify ops env io c s r p w
             else route ops env te io t fixed (fst (chosen r cs)) c s r p w
         | _ \<Rightarrow> (Inr (reply_of ''blocked'' ''voice.invalid''), r, p, w))"

definition handle_inner ::
  "'j journal_ops \<Rightarrow> env \<Rightarrow> text_env \<Rightarrow> router_io \<Rightarrow> codepoints option \<Rightarrow> pyv \<Rightarrow> router \<Rightarrow> plane \<Rightarrow> 'j world \<Rightarrow> 'j step" where
  "handle_inner ops env te io transcript corrected r p w =
    (case router_state (ro_states io 0) of
       None \<Rightarrow> (Inr (reply_of ''blocked'' ''voice.invalid''), r, p, w)
     | Some s \<Rightarrow>
         (case (case voice_denial s of Some d \<Rightarrow> (Some d, r) | None \<Rightarrow> activate s r) of
            (Some d, r) \<Rightarrow> (Inr (reply_of ''blocked'' d), r, p, w)
          | (None, r) \<Rightarrow>
              (case (corrected, transcript) of
                 (VBool fixed, Some t) \<Rightarrow> respond ops env te io t fixed s r p w
               | _ \<Rightarrow> (Inr (reply_of ''blocked'' ''voice.invalid''), r, p, w))))"

definition router_handle ::
  "'j journal_ops \<Rightarrow> env \<Rightarrow> text_env \<Rightarrow> router_io \<Rightarrow> codepoints option \<Rightarrow> pyv \<Rightarrow> router \<Rightarrow> plane \<Rightarrow> 'j world \<Rightarrow> 'j step" where
  "router_handle ops env te io transcript corrected r p w =
    (if rt_busy r then (Inr (reply_of ''blocked'' ''voice.busy''), r, p, w)
     else case handle_inner ops env te io transcript corrected (r\<lparr>rt_busy := True\<rparr>) p w of
       (x, r, p, w) \<Rightarrow> (x, r\<lparr>rt_busy := False\<rparr>, p, w))"

section \<open>Confirming a preview\<close>

datatype answer = Spoken codepoints | Chosen bool | OtherAnswer

definition text_codes :: "string \<Rightarrow> codepoints" where
  "text_codes s = map (\<lambda>c. int (code c)) s"

text \<open>The preview is taken out and the control plane decides.\<close>

definition settle_preview ::
  "'j journal_ops \<Rightarrow> env \<Rightarrow> string \<Rightarrow> string \<Rightarrow> string \<Rightarrow> bool \<Rightarrow> guard \<Rightarrow> (result \<Rightarrow> string) \<Rightarrow> router \<Rightarrow> plane \<Rightarrow> 'j world \<Rightarrow> 'j step" where
  "settle_preview ops env token channel key approved g cd r p w =
    (let r = r\<lparr>rt_previews := AList.delete token (rt_previews r)\<rparr>
     in case confirm ops env (VStr token) channel key (VBool approved) g p w of
       (Inl e, p, w) \<Rightarrow> (caught ''confirmation.invalid'' e, r, p, w)
     | (Inr res, p, w) \<Rightarrow> (Inr (result_reply res (cd res)), r, p, w))"

definition answer_voice ::
  "'j journal_ops \<Rightarrow> env \<Rightarrow> text_env \<Rightarrow> router_io \<Rightarrow> string \<Rightarrow> confirmation \<Rightarrow> string \<Rightarrow> voice_state \<Rightarrow> answer
    \<Rightarrow> router \<Rightarrow> plane \<Rightarrow> 'j world \<Rightarrow> 'j step" where
  "answer_voice ops env te io token f key s answer r p w =
    (let bad = (\<lambda>cd r. (Inr (reply_of ''blocked'' cd), r, p, w)) in
     case activate s r of
       (Some d, r) \<Rightarrow> bad d r
     | (None, r) \<Rightarrow>
         (case answer of
            Spoken t \<Rightarrow>
              (let n = normalize te t
               in if n \<notin> set (map text_codes [''yes'', ''confirm'', ''no'', ''cancel''])
                  then (case prompt_reply ops env (cf_command f) ''confirmation-answer'' (ro_states io 1) (ro_speak io) s w of
                          (Some failure, w) \<Rightarrow> (Inr failure, r, p, w)
                        | (None, w) \<Rightarrow> (Inr ((reply_of ''clarify'' ''confirmation.answer'')\<lparr>vr_token := Some token,
                             vr_prompt := Some ''Start a new command turn and say yes or no.''\<rparr>), r, p, w))
                  else settle_preview ops env token ''voice'' key (n \<in> set (map text_codes [''yes'', ''confirm'']))
                    (router_guard io s) (\<lambda>res. ''command.'' @ res_status res) r p w)
          | _ \<Rightarrow> bad ''confirmation.invalid'' r))"

definition confirm_body ::
  "'j journal_ops \<Rightarrow> env \<Rightarrow> text_env \<Rightarrow> router_io \<Rightarrow> pyv \<Rightarrow> string \<Rightarrow> answer \<Rightarrow> router \<Rightarrow> plane \<Rightarrow> 'j world \<Rightarrow> 'j step" where
  "confirm_body ops env te io token channel answer r p w =
    (let bad = (\<lambda>cd. (Inr (reply_of ''blocked'' cd), r, p, w)) in
     case router_state (ro_states io 0) of
       None \<Rightarrow> bad ''confirmation.invalid''
     | Some s \<Rightarrow>
         (case voice_denial s of
            Some d \<Rightarrow> bad d
          | None \<Rightarrow>
              (case (case token of VStr t \<Rightarrow> map_option (Pair t) (map_of (rt_previews r) t) | _ \<Rightarrow> None) of
                 None \<Rightarrow> bad ''confirmation.unknown''
               | Some (t, f, original) \<Rightarrow>
                   (case binding te s of
                      None \<Rightarrow> bad ''confirmation.invalid''
                    | Some key \<Rightarrow>
                        if key \<noteq> original
                        then settle_preview ops env t channel key False None (\<lambda>res. ''context.stale'') r p w
                        else if channel = ''voice'' then answer_voice ops env te io t f key s answer r p w
                        else (case answer of
                                Chosen b \<Rightarrow>
                                  if channel \<in> {''panel'', ''keyboard''}
                                  then settle_preview ops env t channel key b (router_guard io s) (\<lambda>res. ''command.'' @ res_status res) r p w
                                  else bad ''confirmation.invalid''
                              | _ \<Rightarrow> bad ''confirmation.invalid'')))))"

definition router_confirm ::
  "'j journal_ops \<Rightarrow> env \<Rightarrow> text_env \<Rightarrow> router_io \<Rightarrow> pyv \<Rightarrow> string \<Rightarrow> answer \<Rightarrow> router \<Rightarrow> plane \<Rightarrow> 'j world \<Rightarrow> 'j step" where
  "router_confirm ops env te io token channel answer r p w =
    (if rt_busy r then (Inr (reply_of ''blocked'' ''voice.busy''), r, p, w)
     else case confirm_body ops env te io token channel answer (r\<lparr>rt_busy := True\<rparr>) p w of
       (x, r, p, w) \<Rightarrow> (x, r\<lparr>rt_busy := False\<rparr>, p, w))"

section \<open>What the router may execute\<close>

lemma voice_command_fields:
  assumes "voice_command io a s v = Inr (RCommand c)"
  shows "cmd_command_id c = ro_command_id io \<and> cmd_capability_id c = ac_capability_id a \<and> cmd_catalog_version c = v
    \<and> cmd_arguments c = freeze_bag (ac_arguments a) \<and> map_of (cmd_context c) ''source'' = Some (VStr ''voice'')"
  using assms unfolding voice_command_def decode_eq_Inr
  by (auto simp: build_def mk_command_def get_defs bind_eq_Some split: pyv.splits)

lemma voice_command_snapshot:
  assumes "voice_command io a s v = Inr (RCommand c)" and "snapshot_command (RCommand c) = Inr c'"
  shows "c' = c"
proof -
  have "freeze_rec (RCommand c) = RCommand c" using assms(1) unfolding voice_command_def by (rule decode_frozen)
  with assms(2) show ?thesis
    by (auto simp: snapshot_command_def snapshot_eq_Inr split: sum.splits rec.splits)
qed

definition approves :: "text_env \<Rightarrow> string \<Rightarrow> answer \<Rightarrow> bool" where
  "approves te channel answer = (case answer of
     Spoken t \<Rightarrow> channel = ''voice'' \<and> normalize te t \<in> set (map text_codes [''yes'', ''confirm''])
   | Chosen b \<Rightarrow> channel \<in> {''panel'', ''keyboard''} \<and> b
   | OtherAnswer \<Rightarrow> False)"

text \<open>Every candidate is one of the router's actions.\<close>

lemma proposal_items_known: "proposal_items r seen vs = Some cs \<Longrightarrow> fst ` set cs \<subseteq> snd ` set (rt_actions r)"
proof (induction vs arbitrary: seen cs)
  case (Cons v vs)
  then obtain i c cs' where e: "proposal_item r seen v = Some (i, c)" "proposal_items r (i # seen) vs = Some cs'" "cs = c # cs'"
    by (auto split: option.splits)
  from e(1) have "map_of (rt_actions r) i = Some (fst c)"
    by (auto simp: proposal_item_def split: pyv.splits option.splits if_splits)
  then have "fst c \<in> snd ` set (rt_actions r)" by (metis map_of_SomeD snd_conv image_eqI)
  with Cons.IH[OF e(2)] e(3) show ?case by auto
qed simp

lemma set_ranked [simp]: "set (ranked cs) = set cs"
  by (simp add: ranked_def)

lemma candidates_known:
  assumes "(a, score, v) \<in> set (candidates te io r t)"
  shows "a \<in> snd ` set (rt_actions r)"
proof -
  have "a \<in> snd ` set (rt_actions r)" if mem: "(a, score, v) \<in> set (proposed r pr)" for pr
  proof -
    from mem obtain vs cs where "proposal_items r [] vs = Some cs" "(a, score, v) \<in> set cs"
      by (auto simp: proposed_def split: reply.splits option.splits if_splits)
    with proposal_items_known[of r "[]" vs cs] show ?thesis by (metis fst_conv imageI subsetD)
  qed
  moreover have "a \<in> snd ` set (rt_actions r)" if "(a, score, v) \<in> set (map (\<lambda>a. (a, f a, g a)) (filter P (map snd (rt_actions r))))" for f g P
    using that by auto
  moreover have "a \<in> snd ` set (rt_actions r)" if "(a, score, v) \<in> set (map (\<lambda>a. (a, f a, g a)) (map snd (rt_actions r)))" for f g
    using that by auto
  ultimately show ?thesis
    using assms unfolding candidates_def Let_def by (simp only: set_ranked split: if_splits)
qed

context journal_adapter
begin

lemma prompt_quiet:
  "inv (wd_journal w) \<Longrightarrow> prompt_reply ops env c reason now ok s w = (x, w') \<Longrightarrow> quiet log inv w w'"
  by (auto simp: prompt_reply_def split: prod.splits option.splits dest: observe_quiet)

text \<open>A preview runs nothing, even when it is withdrawn.\<close>

lemma preview_runs_nothing:
  assumes "inv (wd_journal w)" and "preview ops env te io c prompt s r p w = (x, r', p', w')"
  shows "quiet log inv w w'"
proof -
  have "quiet log inv w w'"
    if key: "binding te s = Some key" and req: "request_confirmation ops env (RCommand c) (VStr key) p w = (y, p1, w1)"
      and eff: "w' = w1 \<or> (\<exists>t z q. confirm ops env t ''panel'' key (VBool False) None p1 w1 = (z, q, w'))" for key y p1 w1
  proof -
    have q1: "quiet log inv w w1" by (rule request_quiet[OF assms(1) req])
    then have "quiet log inv w1 w1" by (simp add: quiet_def)
    then have "quiet log inv w1 w'" using eff confirm_effect[OF quiet_inv[OF q1]] by fastforce
    with q1 show ?thesis by (rule quiet_trans)
  qed
  note cases = this
  show ?thesis
  proof (cases "length (rt_previews r) \<ge> 128 \<or> binding te s = None")
    case True
    with assms show ?thesis by (auto simp: preview_def quiet_refl split: if_splits)
  next
    case False
    then obtain key where key: "binding te s = Some key" by auto
    obtain y p1 w1 where req: "request_confirmation ops env (RCommand c) (VStr key) p w = (y, p1, w1)" by (metis prod_cases3)
    have "w' = w1 \<or> (\<exists>t z q. confirm ops env t ''panel'' key (VBool False) None p1 w1 = (z, q, w'))"
      using assms(2) False key req by (auto simp: preview_def split: sum.splits exc.splits option.splits prod.splits)
    with cases[OF key req] show ?thesis by blast
  qed
qed

text \<open>Routing runs a command only by an exact alias of its action.\<close>

lemma route_effect:
  assumes "inv (wd_journal w)" and "route ops env te io t corrected a c s r p w = (x, r', p', w')"
  shows "quiet log inv w w' \<or> (\<exists>c'. snapshot_command (RCommand c) = Inr c' \<and> runs log inv c' w w' \<and> denial p c' False = Inr None
    \<and> \<not> corrected \<and> is_alias te t a \<and> guard_ok (router_guard io s) (wd_guards w))"
proof (cases "assess ops (RCommand c) p w")
  case (Inl e)
  with assms show ?thesis by (auto simp: route_def quiet_refl)
next
  case (Inr d)
  show ?thesis
  proof (cases "d = Some ''confirmation.required'' \<or> ((corrected \<or> \<not> is_alias te t a) \<and> d = None)")
    case True
    with assms Inr preview_runs_nothing show ?thesis by (auto simp: route_def Let_def)
  next
    case False
    obtain y q where "dispatch ops env (RCommand c) (VBool False) (router_guard io s) p w = (y, q, w')"
      using assms(2) Inr False by (auto simp: route_def Let_def split: prod.splits sum.splits)
    from dispatch_effect[OF assms(1) this] Inr False show ?thesis
      by (auto simp: assess_def split: option.splits)
  qed
qed

text \<open>A transcript runs a command only through \<open>route\<close>, after both samples of the state agreed.\<close>

lemma respond_effect:
  assumes "inv (wd_journal w)" and "respond ops env te io t fixed s r p w = (x, r', p', w')"
  shows "quiet log inv w w' \<or> (\<exists>a score v c. (a, score, v) \<in> set (candidates te io r t) \<and> is_alias te t a \<and> \<not> fixed
    \<and> voice_command io a s v = Inr (RCommand c) \<and> runs log inv c w w' \<and> denial p c False = Inr None
    \<and> guard_ok (router_guard io s) (wd_guards w))"
proof (cases "\<exists>a score v rest c. candidates te io r t = (a, score, v) # rest
    \<and> voice_command io a s v = Inr (RCommand c) \<and> route ops env te io t fixed a c s r p w = (x, r', p', w')")
  case True
  then obtain a score v rest c where e: "candidates te io r t = (a, score, v) # rest"
      "voice_command io a s v = Inr (RCommand c)" "route ops env te io t fixed a c s r p w = (x, r', p', w')" by blast
  from route_effect[OF assms(1) e(3)] voice_command_snapshot[OF e(2)] e show ?thesis by fastforce
next
  case False
  have clar: "quiet log inv w w'" if "clarify ops env io c s r p w = (x, r', p', w')" for c
    using that prompt_quiet[OF assms(1)] by (auto simp: clarify_def split: prod.splits option.splits)
  have "quiet log inv w w'"
  proof (cases "candidates te io r t")
    case Nil
    then have "unclear te (candidates te io r t)" by (simp add: unclear_def)
    with assms clar show ?thesis
      by (auto simp: respond_def Let_def quiet_refl split: option.splits sum.splits rec.splits if_splits)
  next
    case (Cons cand rest)
    obtain a score v where "cand = (a, score, v)" by (metis prod_cases3)
    with Cons False assms clar show ?thesis
      by (auto simp: respond_def chosen_def Let_def quiet_refl split: option.splits sum.splits rec.splits if_splits)
  qed
  then show ?thesis ..
qed

lemma handle_inner_effect:
  assumes "inv (wd_journal w)" and "handle_inner ops env te io transcript corrected r p w = (x, r', p', w')"
  shows "quiet log inv w w' \<or> (\<exists>t a c s score v. transcript = Some t \<and> corrected = VBool False \<and> is_alias te t a
    \<and> (a, score, v) \<in> set (candidates te io (snd (activate s r)) t)
    \<and> voice_command io a s v = Inr (RCommand c) \<and> runs log inv c w w' \<and> denial p c False = Inr None
    \<and> router_state (ro_states io 0) = Some s \<and> voice_denial s = None \<and> fst (activate s r) = None
    \<and> guard_ok (router_guard io s) (wd_guards w))"
proof (cases "\<exists>s r1 fixed t. router_state (ro_states io 0) = Some s \<and> voice_denial s = None \<and> activate s r = (None, r1)
    \<and> corrected = VBool fixed \<and> transcript = Some t \<and> respond ops env te io t fixed s r1 p w = (x, r', p', w')")
  case True
  then obtain s r1 fixed t where e: "router_state (ro_states io 0) = Some s" "voice_denial s = None" "activate s r = (None, r1)"
      "corrected = VBool fixed" "transcript = Some t" "respond ops env te io t fixed s r1 p w = (x, r', p', w')" by blast
  from respond_effect[OF assms(1) e(6)] e show ?thesis by fastforce
next
  case False
  with assms have "quiet log inv w w'"
    by (auto simp: handle_inner_def quiet_refl split: option.splits prod.splits pyv.splits)
  then show ?thesis ..
qed

lemma router_handle_inv:
  assumes "inv (wd_journal w)" and "router_handle ops env te io transcript corrected r p w = (x, r', p', w')"
  shows "inv (wd_journal w')"
proof (cases "rt_busy r")
  case False
  obtain y r1 p1 w1 where h: "handle_inner ops env te io transcript corrected (r\<lparr>rt_busy := True\<rparr>) p w = (y, r1, p1, w1)"
    by (metis prod_cases4)
  with False assms(2) have "w' = w1" by (simp add: router_handle_def)
  with handle_inner_effect[OF assms(1) h] show ?thesis by (auto simp: quiet_def runs_def)
qed (use assms in \<open>simp add: router_handle_def\<close>)

text \<open>A confirmation runs the previewed command only for an approval under the same binding.\<close>

lemma settle_preview_effect:
  assumes "inv (wd_journal w)" and "settle_preview ops env t channel key ok g cd r p w = (x, r', p', w')"
  shows "map_of (rt_previews r') t = None \<and> (quiet log inv w w' \<or> ok \<and> (\<exists>f u. map_of (pl_confirmations p) t = Some (f, key)
    \<and> quiet log inv w u \<and> runs log inv (cf_command f) u w' \<and> en_clock env (wd_clocks w) < cf_expires_at_ms f))"
proof -
  obtain y q where c: "confirm ops env (VStr t) channel key (VBool ok) g p w = (y, q, w')"
    and r: "r' = r\<lparr>rt_previews := AList.delete t (rt_previews r)\<rparr>"
    using assms(2) by (auto simp: settle_preview_def Let_def split: prod.splits sum.splits)
  from confirm_effect[OF assms(1) c] r show ?thesis by auto
qed

lemma settle_preview_runs:
  assumes "inv (wd_journal w)" and "settle_preview ops env t ch key ok g cd r1 p w = (x, r', p', w')"
  shows "quiet log inv w w' \<or> (\<exists>f. map_of (rt_previews r') t = None
    \<and> map_of (pl_confirmations p) t = Some (f, key) \<and> wd_executed w' = wd_executed w @ [cf_command f]
    \<and> en_clock env (wd_clocks w) < cf_expires_at_ms f)"
  using settle_preview_effect[OF assms] by (auto simp: quiet_def runs_def)

lemma settle_preview_refused:
  "inv (wd_journal w) \<Longrightarrow> settle_preview ops env t ch key False g cd r1 p w = (x, r', p', w') \<Longrightarrow> quiet log inv w w'"
  using settle_preview_effect by blast

lemma answer_voice_effect:
  assumes "inv (wd_journal w)" and "answer_voice ops env te io t f key s answer r p w = (x, r', p', w')"
  shows "quiet log inv w w' \<or> approves te ''voice'' answer \<and> (\<exists>g cd r1. settle_preview ops env t ''voice'' key True g cd r1 p w = (x, r', p', w'))"
proof -
  have "?thesis" if "settle_preview ops env t ''voice'' key ok g cd r1 p w = (x, r', p', w')" "ok \<longrightarrow> approves te ''voice'' answer" for ok g cd r1
    using settle_preview_effect[OF assms(1) that(1)] that by (cases ok) auto
  moreover have "quiet log inv w v" if "prompt_reply ops env c reason now ok s w = (y, v)" for c reason now ok y v
    using prompt_quiet[OF assms(1) that] .
  ultimately show ?thesis using assms
    by (fastforce simp: answer_voice_def approves_def Let_def quiet_refl
        split: prod.splits option.splits answer.splits if_splits)
qed

lemma confirm_body_effect:
  assumes "inv (wd_journal w)" and "confirm_body ops env te io token channel answer r p w = (x, r', p', w')"
  shows "quiet log inv w w' \<or> (\<exists>t f f' key s. token = VStr t \<and> router_state (ro_states io 0) = Some s \<and> voice_denial s = None
    \<and> binding te s = Some key \<and> map_of (rt_previews r) t = Some (f', key)
    \<and> map_of (rt_previews r') t = None \<and> approves te channel answer
    \<and> map_of (pl_confirmations p) t = Some (f, key) \<and> wd_executed w' = wd_executed w @ [cf_command f]
    \<and> en_clock env (wd_clocks w) < cf_expires_at_ms f)"
proof (cases "\<exists>s t f original key. router_state (ro_states io 0) = Some s \<and> voice_denial s = None \<and> token = VStr t
    \<and> map_of (rt_previews r) t = Some (f, original) \<and> binding te s = Some key")
  case True
  then obtain s t f original key where e: "router_state (ro_states io 0) = Some s" "voice_denial s = None" "token = VStr t"
      "map_of (rt_previews r) t = Some (f, original)" "binding te s = Some key" by blast
  show ?thesis
  proof (cases "key = original")
    case False
    with assms(2) e settle_preview_refused[OF assms(1)] show ?thesis by (auto simp: confirm_body_def)
  next
    case same: True
    have accepted: ?thesis
      if "settle_preview ops env t ch key ok g cd r1 p w = (x, r', p', w')" "approves te channel answer" for ch ok g cd r1
      using settle_preview_runs[OF assms(1) that(1)]
    proof (elim disjE exE)
      fix h assume "map_of (rt_previews r') t = None \<and> map_of (pl_confirmations p) t = Some (h, key)
        \<and> wd_executed w' = wd_executed w @ [cf_command h] \<and> en_clock env (wd_clocks w) < cf_expires_at_ms h"
      moreover have "map_of (rt_previews r) t = Some (f, key)" using e(4) same by simp
      ultimately show ?thesis using that(2) e(1-3,5) by blast
    qed simp
    show ?thesis
    proof (cases "channel = ''voice''")
      case True
      with assms(2) e same have "answer_voice ops env te io t f key s answer r p w = (x, r', p', w')"
        by (simp add: confirm_body_def)
      from answer_voice_effect[OF assms(1) this] show ?thesis
      proof (elim disjE conjE exE)
        fix g cd r1 assume "settle_preview ops env t ''voice'' key True g cd r1 p w = (x, r', p', w')" "approves te ''voice'' answer"
        with accepted True show ?thesis by blast
      qed simp
    next
      case other: False
      show ?thesis
      proof (cases "\<exists>b. answer = Chosen b \<and> channel \<in> {''panel'', ''keyboard''}")
        case True
        then obtain b where b: "answer = Chosen b" "channel \<in> {''panel'', ''keyboard''}" by blast
        with assms(2) e same other have
          s: "settle_preview ops env t channel key b (router_guard io s) (\<lambda>res. ''command.'' @ res_status res) r p w = (x, r', p', w')"
          by (simp add: confirm_body_def)
        show ?thesis
        proof (cases b)
          case True
          with b have "approves te channel answer" by (simp add: approves_def)
          with accepted s show ?thesis by blast
        next
          case False
          with s have "settle_preview ops env t channel key False (router_guard io s) (\<lambda>res. ''command.'' @ res_status res) r p w = (x, r', p', w')"
            by simp
          then show ?thesis using settle_preview_refused[OF assms(1)] by blast
        qed
      next
        case False
        with assms e same other show ?thesis
          by (auto simp: confirm_body_def quiet_refl split: answer.splits if_splits)
      qed
    qed
  qed
next
  case False
  with assms have "quiet log inv w w'"
    by (auto simp: confirm_body_def quiet_refl split: option.splits pyv.splits)
  then show ?thesis ..
qed

end

section \<open>Properties\<close>

text \<open>C19: Speech runs an action directly only by its exact name. When a transcript hands a command to the
  executor, the transcript was not a correction and its normalized text is a normalized alias of one
  of the router's actions; the command is built from that action with its fixed arguments, marked as
  voice, and allowed by the control plane without confirmation; the activation was not used before,
  and the trusted state was valid, not muted and in command mode when it was sampled and still the
  same at both checks of the guard. A guess, a proposal and a correction run nothing.\<close>

theorem voice_runs_exact_names_only:
  assumes "sqlite_inv (wd_journal w)"
    and "router_handle sqlite_ops env te io transcript corrected r p w = (x, r', p', w')"
    and "wd_executed w' \<noteq> wd_executed w"
  shows "\<exists>t a c s v. transcript = Some t \<and> corrected = VBool False \<and> wd_executed w' = wd_executed w @ [c]
    \<and> a \<in> set (map snd (rt_actions r)) \<and> normalize te t \<in> set (map (normalize te) (ac_aliases a))
    \<and> voice_command io a s v = Inr (RCommand c) \<and> cmd_capability_id c = ac_capability_id a
    \<and> cmd_arguments c = freeze_bag (ac_arguments a) \<and> map_of (cmd_context c) ''source'' = Some (VStr ''voice'')
    \<and> denial p c False = Inr None
    \<and> router_state (ro_states io 0) = Some s \<and> \<not> vs_muted s \<and> vs_mode s = VStr ''command''
    \<and> vs_activation_id s \<notin> set (rt_activations r)
    \<and> router_current (ro_guard io (wd_guards w)) s \<and> router_current (ro_guard io (Suc (wd_guards w))) s"
proof -
  let ?r = "r\<lparr>rt_busy := True\<rparr>"
  obtain r1 where h: "handle_inner sqlite_ops env te io transcript corrected ?r p w = (x, r1, p', w')"
    using assms(2,3) by (auto simp: router_handle_def split: prod.splits if_splits)
  have "\<not> quiet sqlite_log sqlite_inv w w'" using assms(3) by (simp add: quiet_def)
  with sq.handle_inner_effect[OF assms(1) h] obtain t a c s score v where e: "transcript = Some t"
      "corrected = VBool False" "is_alias te t a" "(a, score, v) \<in> set (candidates te io (snd (activate s ?r)) t)"
      "voice_command io a s v = Inr (RCommand c)" "runs sqlite_log sqlite_inv c w w'" "denial p c False = Inr None"
      "router_state (ro_states io 0) = Some s" "voice_denial s = None" "fst (activate s ?r) = None"
      "guard_ok (router_guard io s) (wd_guards w)" by blast
  have acts: "rt_actions (snd (activate s ?r)) = rt_actions r" by (simp add: activate_def)
  have "a \<in> set (map snd (rt_actions r))"
    using candidates_known[OF e(4)] acts by simp
  moreover have "vs_activation_id s \<notin> set (rt_activations r)" using e(10) by (auto simp: activate_def split: if_splits)
  moreover have "\<not> vs_muted s" "vs_mode s = VStr ''command''" using e(9) by (auto simp: voice_denial_def split: if_splits)
  ultimately show ?thesis using e voice_command_fields[OF e(5)]
    by (auto simp: is_alias_def runs_def guard_ok_def router_guard_def)
qed

definition sample_text_env :: text_env where
  "sample_text_env = \<lparr>te_fold = (\<lambda>t. t), te_word = (\<lambda>c. 97 \<le> c \<and> c \<le> 122), te_round = (\<lambda>x. x),
     te_dumps = (\<lambda>d. case map_of d ''key'' of Some (VStr k) \<Rightarrow> Some k | _ \<Rightarrow> None)\<rparr>"

definition sample_action :: "string \<Rightarrow> action" where
  "sample_action i = \<lparr>ac_capability_id = i, ac_catalog_version = 1, ac_arguments = [(''n'', VInt 3)],
     ac_aliases = [text_codes i], ac_label = i\<rparr>"

definition sample_router :: router where
  "sample_router = \<lparr>rt_actions = [(''open'', sample_action ''open''), (''wipe'', sample_action ''wipe'')], rt_proposal = False,
     rt_activations = [], rt_previews = [], rt_busy = False\<rparr>"

definition voice_plane :: plane where
  "voice_plane = sample_plane\<lparr>pl_profile := (pl_profile sample_plane)\<lparr>pro_voice_enabled := True\<rparr>\<rparr>"

definition voice_raw :: "string \<Rightarrow> raw_state" where
  "voice_raw a = \<lparr>rw_context = Some sample_context, rw_key = VStr ''k'', rw_activation_id = VStr a,
     rw_muted = VBool False, rw_mode = VStr ''command''\<rparr>"

definition sample_router_io :: "string \<Rightarrow> router_io" where
  "sample_router_io a = \<lparr>ro_states = (\<lambda>n. Gives (voice_raw a)), ro_guard = (\<lambda>n. Gives (voice_raw a)), ro_speak = True,
     ro_proposal = Raises, ro_now_ms = 5, ro_command_id = ''c1'', ro_correlation_id = ''k1''\<rparr>"

definition sample_handled :: "codepoints \<Rightarrow> sqlite_journal step" where
  "sample_handled t = router_handle sqlite_ops sample_env sample_text_env (sample_router_io ''a1'') (Some t) (VBool False)
     sample_router voice_plane (sample_world (\<lambda>_. Works))"

definition step_world :: "'j step \<Rightarrow> 'j world" where
  "step_world x = snd (snd (snd x))"

lemma sample_handled_open: "map cmd_capability_id (wd_executed (step_world (sample_handled (33 # text_codes ''open'')))) = [''open'']"
  by code_simp

theorem voice_runs_exact_names_only_witness:
  "\<exists>c. wd_executed (step_world (sample_handled (33 # text_codes ''open''))) = [c] \<and> denial voice_plane c False = Inr None"
proof -
  let ?x = "sample_handled (33 # text_codes ''open'')"
  have "wd_executed (snd (snd (snd ?x))) \<noteq> wd_executed (sample_world (\<lambda>_. Works))"
    using sample_handled_open by (auto simp: step_world_def sample_world_def)
  from voice_runs_exact_names_only[OF sample_world_inv _ this, of sample_env sample_text_env "sample_router_io ''a1''"
      "Some (33 # text_codes ''open'')" "VBool False" sample_router voice_plane "fst ?x" "fst (snd ?x)" "fst (snd (snd ?x))"]
  have "\<exists>c. wd_executed (snd (snd (snd ?x))) = wd_executed (sample_world (\<lambda>_. Works)) @ [c] \<and> denial voice_plane c False = Inr None"
    by (auto simp: sample_handled_def[symmetric])
  then show ?thesis by (simp add: step_world_def sample_world_def)
qed

text \<open>A spoken or chosen confirmation runs only the previewed command in the same context. When
  confirming hands a command to the executor, the token names a preview of this router whose binding
  of key and context is the one of the current trusted state, which is not muted and in command mode;
  the answer approves on its channel; the command is the one the control plane previewed under that
  binding, and it has not expired. The preview is gone afterwards.\<close>

theorem voice_confirms_previews_only:
  assumes "sqlite_inv (wd_journal w)"
    and "router_confirm sqlite_ops env te io token channel answer r p w = (x, r', p', w')"
    and "wd_executed w' \<noteq> wd_executed w"
  shows "\<exists>t f f' key s. token = VStr t \<and> router_state (ro_states io 0) = Some s \<and> \<not> vs_muted s \<and> vs_mode s = VStr ''command''
    \<and> binding te s = Some key \<and> map_of (rt_previews r) t = Some (f', key) \<and> map_of (rt_previews r') t = None
    \<and> approves te channel answer \<and> map_of (pl_confirmations p) t = Some (f, key)
    \<and> wd_executed w' = wd_executed w @ [cf_command f] \<and> en_clock env (wd_clocks w) < cf_expires_at_ms f"
proof -
  obtain r1 where h: "confirm_body sqlite_ops env te io token channel answer (r\<lparr>rt_busy := True\<rparr>) p w = (x, r1, p', w')"
      and r': "r' = r1\<lparr>rt_busy := False\<rparr>"
    using assms(2,3) by (auto simp: router_confirm_def split: prod.splits if_splits)
  have "\<not> quiet sqlite_log sqlite_inv w w'" using assms(3) by (simp add: quiet_def)
  with sq.confirm_body_effect[OF assms(1) h] obtain t f f' key s where e: "token = VStr t"
      "router_state (ro_states io 0) = Some s" "voice_denial s = None" "binding te s = Some key"
      "map_of (rt_previews r) t = Some (f', key)" "map_of (rt_previews r1) t = None" "approves te channel answer"
      "map_of (pl_confirmations p) t = Some (f, key)" "wd_executed w' = wd_executed w @ [cf_command f]"
      "en_clock env (wd_clocks w) < cf_expires_at_ms f" by auto
  moreover have "\<not> vs_muted s" "vs_mode s = VStr ''command''" using e(3) by (auto simp: voice_denial_def split: if_splits)
  ultimately show ?thesis unfolding r' by auto
qed

definition sample_previewed :: "sqlite_journal step" where
  "sample_previewed = sample_handled (text_codes ''wipe'')"

definition sample_approved :: "sqlite_journal step" where
  "sample_approved = (case sample_previewed of (x, r, p, w) \<Rightarrow> router_confirm sqlite_ops sample_env sample_text_env (sample_router_io ''a2'') (VStr ''t'') ''voice''
     (Spoken (text_codes ''yes'')) r p w)"

lemma sample_approved_runs:
  "wd_executed (step_world sample_previewed) = []
    \<and> map cmd_capability_id (wd_executed (step_world sample_approved)) = [''wipe'']"
  by code_simp

lemma sample_previewed_inv: "sqlite_inv (wd_journal (step_world sample_previewed))"
proof -
  have "router_handle sqlite_ops sample_env sample_text_env (sample_router_io ''a1'') (Some (text_codes ''wipe'')) (VBool False)
      sample_router voice_plane (sample_world (\<lambda>_. Works))
      = (fst sample_previewed, fst (snd sample_previewed), fst (snd (snd sample_previewed)), step_world sample_previewed)"
    by (simp add: sample_previewed_def sample_handled_def step_world_def)
  from sq.router_handle_inv[OF sample_world_inv this] show ?thesis .
qed

theorem voice_confirms_previews_only_witness:
  "\<exists>f. map_of (pl_confirmations (fst (snd (snd sample_previewed)))) ''t'' = Some (f, ''k'')
    \<and> wd_executed (step_world sample_approved) = [cf_command f]"
proof -
  have new: "wd_executed (snd (snd (snd sample_approved))) \<noteq> wd_executed (step_world sample_previewed)"
    using sample_approved_runs by (auto simp: step_world_def)
  have conf: "router_confirm sqlite_ops sample_env sample_text_env (sample_router_io ''a2'') (VStr ''t'') ''voice''
      (Spoken (text_codes ''yes'')) (fst (snd sample_previewed)) (fst (snd (snd sample_previewed))) (step_world sample_previewed)
      = (fst sample_approved, fst (snd sample_approved), fst (snd (snd sample_approved)), snd (snd (snd sample_approved)))"
    by (simp add: sample_approved_def step_world_def case_prod_beta)
  from voice_confirms_previews_only[OF sample_previewed_inv conf new] sample_approved_runs
  show ?thesis by (auto simp: step_world_def sample_router_io_def voice_raw_def router_state_def binding_def sample_text_env_def)
qed

end
