(* ===== verification/Voice_Coordinator.thy ===== *)
theory Voice_Coordinator
  imports Voice_Router Voice_Session
begin

text \<open>
  The foreground command lifecycle, \<open>Coordinator\<close> of \<open>src/runtime/voice/coordinator.py\<close>, over the models
  of its collaborators: the session owner, the command capture, the speech queue, the transcription job
  and the PipeWire capture with their worker processes. The remaining callbacks (state supplier, clock,
  observer, factories, router) are answered by an environment \<open>nat \<Rightarrow> moment\<close>, one moment per call; a
  moment also says what the supervisor threads did meanwhile and whether \<open>cancel\<close> was called, by
  another thread, which then waits for the lock, or by the callback itself.

  The session owner serves this coordinator only. A field no code reads, \<open>co_retired\<close>, keeps what each
  release gave up: the claim made to the owner, the job and the capture; \<open>co_routed\<close> keeps what was
  handed to the router, with the job it came from.
\<close>

section \<open>State\<close>

datatype phase = PIdle | PCapturing | PProcessing | PRouting | PFaulted

type_synonym job = "owned_process transcription_job"
type_synonym device = "owned_process pipewire_capture"

record coordinator =
  co_owner :: session_owner
  co_capture :: command_capture
  co_speech :: "speech_queue option"
  co_source :: "pyv option"
  co_vad :: energy_vad
  co_busy :: bool
  co_valid :: bool
  co_cancel_requested :: bool
  co_generation :: "int option"
  co_snapshot :: "voice_state option"
  co_job :: "job option"
  co_device :: "device option"
  co_device_cleaned :: "bool option"
  co_phase :: phase
  co_code :: string
  co_activation_id :: "string option"
  co_correlation_id :: "string option"
  co_pending_token :: "string option"
  co_confirming :: "string option"
  co_sequence :: int
  co_framer :: "pcm_framer option"
  co_deadline :: pyfloat
  co_time :: nat
  co_events :: "rec list"
  co_retired :: "(bool \<times> job option \<times> device option) list"
  co_routed :: "(codepoints \<times> job) list"

text \<open>\<open>transcriber\<close> and \<open>observe\<close> say whether the arguments are callable; \<open>factory\<close> is \<open>None\<close> for
  \<open>None\<close>, else whether it is callable. The default level is the float \<open>0.02\<close>.\<close>

definition co_init ::
  "session_owner \<Rightarrow> command_capture \<Rightarrow> bool \<Rightarrow> bool \<Rightarrow> bool option \<Rightarrow> pyv \<Rightarrow> energy_vad option \<Rightarrow> speech_queue option
    \<Rightarrow> string + coordinator" where
  "co_init owner capture transcriber observe factory source vad speech =
    (if \<not> transcriber \<or> \<not> observe then Inl ''explicit job factory and observer required''
     else if (factory = None) \<noteq> (source = VNone) \<or> factory = Some False
       then Inl ''capture requires an explicit factory and source''
     else Inr \<lparr>co_owner = owner, co_capture = capture, co_speech = speech,
       co_source = (if factory = None then None else Some source),
       co_vad = (case vad of Some v \<Rightarrow> v | None \<Rightarrow> \<lparr>ev_threshold = VFloat (Fin (of_int 5764607523034235 / of_int 288230376151711744))\<rparr>),
       co_busy = False, co_valid = False, co_cancel_requested = False, co_generation = None, co_snapshot = None,
       co_job = None, co_device = None, co_device_cleaned = None, co_phase = PIdle, co_code = ''capture.canceled'',
       co_activation_id = None, co_correlation_id = None, co_pending_token = None, co_confirming = None,
       co_sequence = 0, co_framer = None, co_deadline = NaN, co_time = 0, co_events = [], co_retired = [],
       co_routed = []\<rparr>)"

section \<open>The environment\<close>

datatype supervised = JobEnds process_result | DeviceEnds process_result | DeviceHears "byte list option"

datatype disturbance = Calm | CancelOutside | CancelInside | OwnerCancel

record moment =
  mo_state :: "raw_state reply"
  mo_now :: "pyfloat option"
  mo_uuid :: string
  mo_now_ms :: int
  mo_ok :: bool
  mo_worker :: "owned_process option"
  mo_io :: process_io
  mo_io2 :: process_io
  mo_backend :: worker_reply
  mo_reply :: "voice_reply option"
  mo_samples :: nat
  mo_supervised :: "supervised list"
  mo_disturbance :: disturbance

type_synonym environment = "nat \<Rightarrow> moment"

text \<open>What a supervisor thread does on its own: it publishes a result or hands a chunk to the capture.\<close>

fun supervise :: "supervised \<Rightarrow> coordinator \<Rightarrow> coordinator" where
  "supervise (JobEnds r) c =
    c\<lparr>co_job := map_option (\<lambda>j. j\<lparr>tj_worker := map_option (process_publish r) (tj_worker j)\<rparr>) (co_job c)\<rparr>"
| "supervise (DeviceEnds r) c =
    c\<lparr>co_device := map_option (\<lambda>d. d\<lparr>pw_worker := map_option (process_publish r) (pw_worker d)\<rparr>) (co_device c)\<rparr>"
| "supervise (DeviceHears chunk) c = c\<lparr>co_device := map_option (\<lambda>d. snd (pw_receive chunk d)) (co_device c)\<rparr>"

text \<open>\<open>cancel\<close> before it takes the lock, and what it does under the lock while a transition is running.\<close>

definition co_cancel_enter :: "coordinator \<Rightarrow> coordinator" where
  "co_cancel_enter c =
    (case co_generation c of
       None \<Rightarrow> c\<lparr>co_cancel_requested := True\<rparr>
     | Some g \<Rightarrow> c\<lparr>co_cancel_requested := True, co_owner := snd (session_cancel (VInt g) (co_owner c))\<rparr>)"

definition co_invalidate :: "coordinator \<Rightarrow> coordinator" where
  "co_invalidate c = c\<lparr>co_valid := False, co_pending_token := None, co_confirming := None\<rparr>"

fun disturb :: "disturbance \<Rightarrow> coordinator \<Rightarrow> coordinator" where
  "disturb Calm c = c"
| "disturb CancelOutside c = co_cancel_enter c"
| "disturb CancelInside c = co_invalidate (co_cancel_enter c)"
| "disturb OwnerCancel c = c\<lparr>co_owner := snd (session_cancel VNone (co_owner c))\<rparr>"

section \<open>Actions with exceptions\<close>

datatype stop = Stop string | BusyExc string | ValueExc string | OtherExc

type_synonym 'a act = "coordinator \<Rightarrow> (stop + 'a) \<times> coordinator"

definition ret :: "'a \<Rightarrow> 'a act" where
  "ret x c = (Inr x, c)"

definition raise_exc :: "stop \<Rightarrow> 'a act" where
  "raise_exc e c = (Inl e, c)"

definition update :: "(coordinator \<Rightarrow> coordinator) \<Rightarrow> unit act" where
  "update f c = (Inr (), f c)"

definition seq :: "'a act \<Rightarrow> ('a \<Rightarrow> 'b act) \<Rightarrow> 'b act" where
  "seq m f c = (case m c of (Inl e, c) \<Rightarrow> (Inl e, c) | (Inr x, c) \<Rightarrow> f x c)"

definition handled :: "'a act \<Rightarrow> (stop \<Rightarrow> 'a act) \<Rightarrow> 'a act" where
  "handled m h c = (case m c of (Inl e, c) \<Rightarrow> h e c | (Inr x, c) \<Rightarrow> (Inr x, c))"

text \<open>One call of a collaborator.\<close>

definition co_call :: "environment \<Rightarrow> moment act" where
  "co_call E c =
    (let m = E (co_time c)
     in (Inr m, disturb (mo_disturbance m) (fold supervise (mo_supervised m) (c\<lparr>co_time := Suc (co_time c)\<rparr>))))"

section \<open>Checks and observations\<close>

text \<open>The coordinator samples the state with the same checks as the router.\<close>

definition co_sample :: "raw_state reply \<Rightarrow> voice_state option" where
  "co_sample answer = router_state answer"

definition co_good :: "raw_state reply \<Rightarrow> coordinator \<Rightarrow> bool" where
  "co_good answer c \<longleftrightarrow> co_valid c \<and> \<not> co_cancel_requested c
     \<and> (case (co_sample answer, co_snapshot c) of
          (Some current, Some s) \<Rightarrow> same_state current s \<and> \<not> vs_muted s \<and> vs_mode s = VStr ''command''
            \<and> (case co_generation c of None \<Rightarrow> True | Some g \<Rightarrow> session_accepts (VInt g) (co_owner c))
        | _ \<Rightarrow> False)"

definition co_current :: "environment \<Rightarrow> bool act" where
  "co_current E c =
    (if \<not> co_valid c then (Inr False, c)
     else seq (co_call E) (\<lambda>m c. if co_good (mo_state m) c then (Inr True, c) else (Inr False, c\<lparr>co_valid := False\<rparr>)) c)"

definition time_add :: "pyfloat \<Rightarrow> rat \<Rightarrow> pyfloat" where
  "time_add t d = (case t of Fin r \<Rightarrow> Fin (r + d) | _ \<Rightarrow> t)"

text \<open>\<open>not math.isfinite(now) or now >= deadline\<close>\<close>

definition late :: "pyfloat \<Rightarrow> pyfloat \<Rightarrow> bool" where
  "late now deadline = (case now of
     Fin r \<Rightarrow> (case deadline of Fin d \<Rightarrow> d \<le> r | NegInf \<Rightarrow> True | _ \<Rightarrow> False)
   | _ \<Rightarrow> True)"

definition co_clock :: "environment \<Rightarrow> pyfloat act" where
  "co_clock E = seq (co_call E) (\<lambda>m. case mo_now m of None \<Rightarrow> raise_exc OtherExc | Some t \<Rightarrow> ret t)"

definition timeout_code :: "phase \<Rightarrow> string" where
  "timeout_code p = (if p = PCapturing then ''capture.device-error'' else ''transcription.failed'')"

definition co_check :: "environment \<Rightarrow> unit act" where
  "co_check E = seq (co_current E) (\<lambda>good.
     if \<not> good then (\<lambda>c. raise_exc (Stop (if co_cancel_requested c then ''capture.canceled'' else ''context.stale'')) c)
     else seq (co_clock E) (\<lambda>now c.
       if co_phase c \<in> {PCapturing, PProcessing} \<and> late now (co_deadline c)
       then raise_exc (Stop (timeout_code (co_phase c))) c else ret () c))"

definition co_router_state :: "environment \<Rightarrow> voice_state act" where
  "co_router_state E = seq (co_current E) (\<lambda>current c.
     case (co_snapshot c, co_activation_id c) of
       (Some s, Some a) \<Rightarrow>
         ret \<lparr>vs_context = vs_context s, vs_key = vs_key s @ '':'' @ so_session_id (co_owner c), vs_activation_id = a,
           vs_muted = \<not> current, vs_mode = VStr ''command''\<rparr> c
     | _ \<Rightarrow> raise_exc (ValueExc ''no voice activation'') c)"

definition co_observation :: "moment \<Rightarrow> string \<Rightarrow> string \<Rightarrow> string \<Rightarrow> coordinator \<Rightarrow> rec option" where
  "co_observation m phase status cd c =
    (case (co_activation_id c, co_correlation_id c, co_snapshot c) of
       (Some a, Some r, Some s) \<Rightarrow>
         Some (RVoiceObservation \<lparr>vo_version = 1, vo_event_id = mo_uuid m, vo_session_id = so_session_id (co_owner c),
           vo_activation_id = a, vo_correlation_id = r, vo_timestamp_ms = mo_now_ms m,
           vo_context = AList.update ''source'' (VStr ''voice'') (vs_context s), vo_phase = phase, vo_status = status,
           vo_code = cd\<rparr>)
     | _ \<Rightarrow> None)"

definition co_emit :: "environment \<Rightarrow> string \<Rightarrow> string \<Rightarrow> string \<Rightarrow> unit act" where
  "co_emit E phase status cd = seq (co_call E) (\<lambda>m c.
     case map_option Contracts.snapshot (co_observation m phase status cd c) of
       Some (Inr event) \<Rightarrow>
         if mo_ok m then (Inr (), c\<lparr>co_events := co_events c @ [event]\<rparr>) else raise_exc (Stop ''journal.unavailable'') c
     | _ \<Rightarrow> raise_exc (Stop ''journal.unavailable'') c)"

section \<open>Cleanup and release\<close>

definition co_stop_device :: "environment \<Rightarrow> bool act" where
  "co_stop_device E c =
    (case (co_device c, co_device_cleaned c) of
       (None, _) \<Rightarrow> (Inr True, c)
     | (Some d, Some b) \<Rightarrow> (Inr b, c)
     | (Some d, None) \<Rightarrow> seq (co_call E) (\<lambda>m c.
         case co_device c of
           None \<Rightarrow> (Inr True, c)
         | Some d \<Rightarrow> (case pw_cancel process_ops (mo_io m) d of (b, d) \<Rightarrow>
             (Inr b, c\<lparr>co_device := Some d, co_device_cleaned := Some b\<rparr>))) c)"

definition co_stop_speech :: "environment \<Rightarrow> bool act" where
  "co_stop_speech E c =
    (if co_speech c = None then (Inr True, c)
     else seq (co_call E) (\<lambda>m c.
       case co_speech c of
         None \<Rightarrow> (Inr True, c)
       | Some q \<Rightarrow> (let q = speech_cancel (mo_backend m) q in (Inr (speech_cleanup_proven q), c\<lparr>co_speech := Some q\<rparr>))) c)"

definition co_stop_job :: "environment \<Rightarrow> bool act" where
  "co_stop_job E c =
    (if co_job c = None then (Inr True, c)
     else seq (co_call E) (\<lambda>m c.
       case co_job c of
         None \<Rightarrow> (Inr True, c)
       | Some j \<Rightarrow> (let j = job_cancel process_ops (mo_io m) j in (Inr (cleanup_proven j), c\<lparr>co_job := Some j\<rparr>))) c)"

definition co_stop_capture :: "environment \<Rightarrow> bool act" where
  "co_stop_capture E c =
    (if cc_state (co_capture c) = CIdle then (Inr True, c)
     else seq (co_call E) (\<lambda>m c.
       (let k = snd (capture_cancel (mo_ok m) (co_capture c))
        in (Inr (cc_state k = CIdle), c\<lparr>co_capture := k\<rparr>))) c)"

definition co_cleanup :: "environment \<Rightarrow> bool act" where
  "co_cleanup E =
    seq (co_stop_device E) (\<lambda>dev.
    seq (\<lambda>c. if \<not> co_valid c \<or> co_cancel_requested c then co_stop_speech E c else (Inr True, c)) (\<lambda>speech.
    seq (co_stop_job E) (\<lambda>job.
    seq (co_stop_capture E) (\<lambda>cap. ret (cap \<and> job \<and> speech \<and> dev)))))"

text \<open>The owner refuses a release of a generation it does not hold.\<close>

definition co_drop :: "bool \<Rightarrow> coordinator \<Rightarrow> coordinator" where
  "co_drop clean c = c\<lparr>co_generation := None, co_retired := co_retired c @ [(clean, co_job c, co_device c)],
     co_job := None, co_device := None, co_framer := None, co_phase := (if clean then PIdle else PFaulted)\<rparr>"

definition co_release :: "environment \<Rightarrow> bool \<Rightarrow> unit act" where
  "co_release E clean =
    seq (\<lambda>c. case co_generation c of
          None \<Rightarrow> (Inr (), co_drop clean c)
        | Some g \<Rightarrow> (case session_release (VInt g) (VBool clean) (co_owner c) of
            (Some e, owner) \<Rightarrow> (Inl OtherExc, c\<lparr>co_owner := owner\<rparr>)
          | (None, owner) \<Rightarrow> (Inr (), co_drop clean (c\<lparr>co_owner := owner\<rparr>)))) (\<lambda>_.
    if clean then ret ()
    else seq (update (\<lambda>c. c\<lparr>co_valid := False, co_code := ''owner.cleanup-unproven''\<rparr>)) (\<lambda>_.
      handled (co_emit E ''owner.faulted'' ''uncertain'' ''owner.cleanup-unproven'')
        (\<lambda>e. case e of Stop _ \<Rightarrow> ret () | _ \<Rightarrow> raise_exc e)))"

definition co_fail_emit :: "environment \<Rightarrow> phase \<Rightarrow> string \<Rightarrow> unit act" where
  "co_fail_emit E phase cd =
    (if cd = ''journal.unavailable'' then ret ()
     else handled
       (if phase = PCapturing then co_emit E ''capture.canceled'' ''canceled'' cd
        else if phase = PProcessing then co_emit E ''transcription.finished'' ''canceled'' cd else ret ())
       (\<lambda>e. case e of Stop _ \<Rightarrow> update (\<lambda>c. c\<lparr>co_code := ''journal.unavailable''\<rparr>) | _ \<Rightarrow> raise_exc e))"

definition co_fail :: "environment \<Rightarrow> string \<Rightarrow> unit act" where
  "co_fail E cd c =
    seq (update (\<lambda>c. let c = co_invalidate c in case co_generation c of
           None \<Rightarrow> c | Some g \<Rightarrow> c\<lparr>co_owner := snd (session_cancel (VInt g) (co_owner c))\<rparr>)) (\<lambda>_.
    seq (co_cleanup E) (\<lambda>clean.
    seq (update (\<lambda>c. c\<lparr>co_code := cd\<rparr>)) (\<lambda>_.
    seq (co_fail_emit E (co_phase c) cd) (\<lambda>_. co_release E clean)))) c"

text \<open>The handlers \<open>except _Stop as exc: self._fail(str(exc))\<close> and \<open>except Exception: self._fail(...)\<close>.\<close>

definition co_failing :: "environment \<Rightarrow> (phase \<Rightarrow> string) \<Rightarrow> stop \<Rightarrow> unit act" where
  "co_failing E other e c = (case e of Stop cd \<Rightarrow> co_fail E cd c | _ \<Rightarrow> co_fail E (other (co_phase c)) c)"

definition guarded :: "'a \<Rightarrow> 'a act \<Rightarrow> 'a act" where
  "guarded busy m c =
    (if co_busy c then (Inr busy, c)
     else case m (c\<lparr>co_busy := True\<rparr>) of (r, c) \<Rightarrow> (r, c\<lparr>co_busy := False\<rparr>))"

section \<open>Activation\<close>

fun digits :: "nat \<Rightarrow> string" where
  "digits n = (if n < 10 then [char_of (48 + n)] else digits (n div 10) @ [char_of (48 + n mod 10)])"

declare digits.simps [simp del]

definition co_preflight :: "environment \<Rightarrow> string option \<Rightarrow> (voice_state \<times> string) act" where
  "co_preflight E token =
    seq (update (\<lambda>c. if token = None then c\<lparr>co_cancel_requested := False\<rparr> else c)) (\<lambda>_.
    seq (co_stop_speech E) (\<lambda>quiet.
    if \<not> quiet then raise_exc (BusyExc ''speech cleanup unproven'')
    else seq (\<lambda>c. if token = None then ret True c
               else if token \<noteq> co_pending_token c then ret False c else co_current E c) (\<lambda>good.
    if \<not> good then raise_exc (ValueExc ''no current confirmation'')
    else seq (co_call E) (\<lambda>m c.
      case co_sample (mo_state m) of
        None \<Rightarrow> raise_exc (ValueExc ''trusted voice state unavailable'') c
      | Some s \<Rightarrow>
          if vs_muted s \<or> vs_mode s \<noteq> VStr ''command'' \<or> co_cancel_requested c
             \<or> token \<noteq> None \<and> (token \<noteq> co_pending_token c \<or> \<not> co_valid c
                  \<or> (case co_snapshot c of None \<Rightarrow> True | Some t \<Rightarrow> \<not> same_state s t))
          then raise_exc (ValueExc ''trusted voice state unavailable'') c
          else ret (s, mo_uuid m) c))))"

definition co_enter :: "string option \<Rightarrow> voice_state \<Rightarrow> string \<Rightarrow> int \<Rightarrow> coordinator \<Rightarrow> coordinator" where
  "co_enter token s uuid g c = c\<lparr>co_generation := Some g, co_snapshot := Some s,
     co_activation_id := Some (so_session_id (co_owner c) @ '':'' @ digits (nat g)),
     co_correlation_id := (if token = None then Some uuid else co_correlation_id c),
     co_pending_token := (if token = None then None else co_pending_token c),
     co_confirming := token, co_sequence := 0, co_job := None, co_device := None, co_device_cleaned := None,
     co_framer := Some framer_init, co_valid := True, co_phase := PCapturing, co_code := ''capture.started''\<rparr>"

definition co_device_launch :: "environment \<Rightarrow> pyv \<Rightarrow> unit act" where
  "co_device_launch E source = seq (co_call E) (\<lambda>m c.
     case co_device c of
       None \<Rightarrow> raise_exc OtherExc c
     | Some d \<Rightarrow> (case pw_start process_ops source (\<lambda>argv. mo_worker m) None None (mo_io m) (mo_io2 m) d of
         (e, d) \<Rightarrow> (if e = None then Inr () else Inl OtherExc, c\<lparr>co_device := Some d\<rparr>)))"

definition co_device_start :: "environment \<Rightarrow> unit act" where
  "co_device_start E c =
    (case co_source c of
       None \<Rightarrow> ret () c
     | Some source \<Rightarrow>
         seq (co_call E) (\<lambda>m.
         if \<not> mo_ok m then raise_exc OtherExc
         else seq (update (\<lambda>c. c\<lparr>co_device := Some pipewire_init\<rparr>)) (\<lambda>_.
         seq (co_check E) (\<lambda>_.
         seq (co_device_launch E source) (\<lambda>_. co_check E)))) c)"

definition co_capture_start :: "environment \<Rightarrow> unit act" where
  "co_capture_start E =
    seq (co_clock E) (\<lambda>now.
    seq (update (\<lambda>c. c\<lparr>co_deadline := time_add now 15\<rparr>)) (\<lambda>_.
    seq (co_emit E ''capture.started'' ''recording'' ''capture.started'') (\<lambda>_.
    seq (co_check E) (\<lambda>_.
    seq (seq (co_call E) (\<lambda>m c. case key_equal (mo_uuid m) (mo_ok m) (co_capture c) of
           (r, k) \<Rightarrow> (Inr (cr_status r), c\<lparr>co_capture := k\<rparr>))) (\<lambda>status.
    if status \<noteq> ''recording'' then raise_exc (Stop ''capture.device-error'')
    else seq (co_check E) (\<lambda>_. co_device_start E))))))"

definition co_activate_inner :: "environment \<Rightarrow> string option \<Rightarrow> int act" where
  "co_activate_inner E token =
    seq (co_preflight E token) (\<lambda>(s, uuid).
    seq (\<lambda>c. case session_begin (VStr ''command'') (co_owner c) of
          (Inl e, owner) \<Rightarrow> (Inl (BusyExc ''voice owner is busy or faulted''), c\<lparr>co_owner := owner\<rparr>)
        | (Inr g, owner) \<Rightarrow> (Inr g, co_enter token s uuid g (c\<lparr>co_owner := owner\<rparr>))) (\<lambda>g.
    seq (handled (co_capture_start E) (co_failing E (\<lambda>_. ''capture.device-error''))) (\<lambda>_. ret g)))"

definition co_activate :: "environment \<Rightarrow> string option \<Rightarrow> int act" where
  "co_activate E token c =
    (if co_busy c \<or> co_phase c \<noteq> PIdle then (Inl (BusyExc ''voice owner is busy or faulted''), c)
     else guarded 0 (co_activate_inner E token) c)"

section \<open>Audio\<close>

text \<open>After the capture ended: the device is stopped first, then a silent turn is released and a spoken
  one goes to a fresh job.\<close>

definition co_job_launch :: "environment \<Rightarrow> byte list \<Rightarrow> int \<Rightarrow> unit act" where
  "co_job_launch E audio g = seq (co_call E) (\<lambda>m c.
     case co_job c of
       None \<Rightarrow> raise_exc OtherExc c
     | Some j \<Rightarrow> (case job_start process_ops (Some audio) (VInt g) (mo_worker m) None None (mo_io m) (mo_io2 m) j of
         (e, j) \<Rightarrow> (if e = None then Inr () else Inl OtherExc, c\<lparr>co_job := Some j\<rparr>)))"

definition co_transcribe :: "environment \<Rightarrow> byte list \<Rightarrow> int \<Rightarrow> unit act" where
  "co_transcribe E audio g =
    seq (update (\<lambda>c. c\<lparr>co_phase := PProcessing, co_code := ''transcription.started''\<rparr>)) (\<lambda>_.
    seq (co_emit E ''transcription.started'' ''processing'' ''transcription.started'') (\<lambda>_.
    seq (co_check E) (\<lambda>_.
    seq (co_call E) (\<lambda>m.
    if \<not> mo_ok m then raise_exc OtherExc
    else seq (update (\<lambda>c. c\<lparr>co_job := Some job_init\<rparr>)) (\<lambda>_.
    seq (co_check E) (\<lambda>_.
    seq (co_clock E) (\<lambda>now.
    seq (update (\<lambda>c. c\<lparr>co_deadline := time_add now 30\<rparr>)) (\<lambda>_.
    seq (co_job_launch E audio g) (\<lambda>_. co_check E)))))))))"

definition co_ended :: "environment \<Rightarrow> capture_result \<Rightarrow> int \<Rightarrow> unit act" where
  "co_ended E r g =
    (if cr_status r = ''recording'' then ret ()
     else if cr_status r \<notin> {''idle'', ''processing''} then raise_exc (Stop ''capture.invalid-frame'')
     else seq (co_stop_device E) (\<lambda>stopped.
       if \<not> stopped then raise_exc (Stop ''owner.cleanup-unproven'')
       else seq (co_emit E ''capture.stopped'' (cr_status r) (''capture.'' @ cr_reason r)) (\<lambda>_.
         seq (co_check E) (\<lambda>_.
         if cr_status r = ''idle''
         then seq (update (\<lambda>c. c\<lparr>co_code := ''capture.initial-silence''\<rparr>)) (\<lambda>_.
           seq (co_cleanup E) (co_release E))
         else co_transcribe E (cr_audio r) g))))"

text \<open>\<open>None\<close> for a frame that is no \<open>Frame\<close>. The answer says whether the frame is to be fed.\<close>

definition co_admit :: "frame option \<Rightarrow> pyv \<Rightarrow> frame option act" where
  "co_admit f sequence c =
    (case (case sequence of
             VNone \<Rightarrow> Some (co_sequence c)
           | VInt n \<Rightarrow> if n < 0 \<or> n > co_sequence c then None else Some n
           | _ \<Rightarrow> None) of
       None \<Rightarrow> raise_exc (Stop ''capture.invalid-frame'') c
     | Some n \<Rightarrow>
         if n < co_sequence c then ret None c
         else (case f of
           None \<Rightarrow> raise_exc (Stop ''capture.invalid-frame'') c
         | Some fr \<Rightarrow> if length (fr_pcm fr) \<noteq> 640 then raise_exc (Stop ''capture.invalid-frame'') c else ret (Some fr) c))"

definition co_take :: "environment \<Rightarrow> int \<Rightarrow> frame option \<Rightarrow> unit act" where
  "co_take E g fo =
    (case fo of
       None \<Rightarrow> ret ()
     | Some f \<Rightarrow>
         seq (update (\<lambda>c. c\<lparr>co_sequence := co_sequence c + 1\<rparr>)) (\<lambda>_.
         seq (seq (co_call E) (\<lambda>m c. case capture_feed (Some f) (mo_ok m) (co_capture c) of
               (r, k) \<Rightarrow> (Inr r, c\<lparr>co_capture := k\<rparr>))) (\<lambda>r.
         seq (co_check E) (\<lambda>_. co_ended E r g))))"

definition co_feed_inner :: "environment \<Rightarrow> pyv \<Rightarrow> frame option \<Rightarrow> pyv \<Rightarrow> unit act" where
  "co_feed_inner E generation f sequence c =
    (case generation of
       VInt g \<Rightarrow>
         if co_generation c \<noteq> Some g \<or> co_phase c \<noteq> PCapturing then ret () c
         else handled (seq (co_check E) (\<lambda>_. seq (co_admit f sequence) (co_take E g)))
           (co_failing E (\<lambda>p. if p = PProcessing then ''transcription.failed'' else ''capture.invalid-frame'')) c
     | _ \<Rightarrow> ret () c)"

definition co_feed :: "environment \<Rightarrow> pyv \<Rightarrow> frame option \<Rightarrow> pyv \<Rightarrow> unit act" where
  "co_feed E generation f sequence = guarded () (co_feed_inner E generation f sequence)"

section \<open>Transcripts\<close>

text \<open>The length of \<open>text.encode('utf-8')\<close>; \<open>None\<close> when a surrogate makes it raise.\<close>

fun utf8_length :: "codepoints \<Rightarrow> int option" where
  "utf8_length [] = Some 0"
| "utf8_length (u # us) =
    (if 55296 \<le> u \<and> u \<le> 57343 then None
     else map_option (\<lambda>n. n + (if u < 128 then 1 else if u < 2048 then 2 else if u < 65536 then 3 else 4)) (utf8_length us))"

definition valid_text :: "codepoints option \<Rightarrow> bool option" where
  "valid_text t = (case t of
     None \<Rightarrow> Some False
   | Some cs \<Rightarrow> if strip_cp cs = [] then Some False else map_option (\<lambda>n. n \<le> 16384) (utf8_length cs))"

text \<open>The router samples the state through \<open>_router_state\<close> any number of times, and answers or raises.\<close>

fun co_sampled :: "environment \<Rightarrow> nat \<Rightarrow> unit act" where
  "co_sampled E 0 = ret ()"
| "co_sampled E (Suc n) = seq (handled (seq (co_router_state E) (\<lambda>_. ret ())) (\<lambda>_. ret ())) (\<lambda>_. co_sampled E n)"

definition co_router :: "environment \<Rightarrow> voice_reply act" where
  "co_router E = seq (co_call E) (\<lambda>m. seq (co_sampled E (mo_samples m)) (\<lambda>_.
     case mo_reply m of None \<Rightarrow> raise_exc OtherExc | Some r \<Rightarrow> ret r))"

definition co_route :: "environment \<Rightarrow> codepoints \<Rightarrow> voice_reply act" where
  "co_route E t =
    seq (update (\<lambda>c. c\<lparr>co_routed := co_routed c @ map (Pair t) (case co_job c of None \<Rightarrow> [] | Some j \<Rightarrow> [j])\<rparr>)) (\<lambda>_.
    seq (co_router E) (\<lambda>r.
    seq (update (\<lambda>c. c\<lparr>co_pending_token := (if vr_status r \<in> {''preview'', ''clarify''} then vr_token r else None),
           co_confirming := None, co_code := vr_code r\<rparr>)) (\<lambda>_.
    seq (co_cleanup E) (\<lambda>clean. seq (co_release E clean) (\<lambda>_. ret r)))))"

definition co_settle :: "environment \<Rightarrow> transcript_result \<Rightarrow> voice_reply option act" where
  "co_settle E r =
    seq (co_check E) (\<lambda>_.
    seq (\<lambda>c. case co_job c of
          Some j \<Rightarrow> if cleanup_proven j then ret () c else raise_exc (Stop ''transcription.cleanup-unproven'') c
        | None \<Rightarrow> raise_exc (Stop ''transcription.cleanup-unproven'') c) (\<lambda>_.
    case (valid_text (tr_text r), tr_text r) of
      (None, _) \<Rightarrow> raise_exc OtherExc
    | (Some valid, t) \<Rightarrow>
        (let successful = (tr_status r = ''success'' \<and> valid)
         in seq (co_emit E ''transcription.finished'' (if successful then ''success'' else ''failed'')
                  (if successful then ''transcription.ok'' else ''transcription.failed'')) (\<lambda>_.
            seq (co_check E) (\<lambda>_.
            seq (update (\<lambda>c. c\<lparr>co_phase := PRouting\<rparr>)) (\<lambda>_.
            case t of
              Some cs \<Rightarrow> if successful then seq (co_route E cs) (\<lambda>reply. ret (Some reply))
                else seq (co_fail E ''transcription.failed'') (\<lambda>_. ret None)
            | None \<Rightarrow> seq (co_fail E ''transcription.failed'') (\<lambda>_. ret None)))))))"

definition co_transcribed_inner :: "environment \<Rightarrow> transcript_result option \<Rightarrow> voice_reply option act" where
  "co_transcribed_inner E ro c =
    (case ro of
       None \<Rightarrow> ret None c
     | Some r \<Rightarrow>
         if tr_generation r = None \<or> tr_generation r \<noteq> co_generation c \<or> co_phase c \<noteq> PProcessing then ret None c
         else handled (co_settle E r) (\<lambda>e. seq (co_failing E (\<lambda>_. ''transcription.failed'') e) (\<lambda>_. ret None)) c)"

definition co_transcribed :: "environment \<Rightarrow> transcript_result option \<Rightarrow> voice_reply option act" where
  "co_transcribed E ro = guarded None (co_transcribed_inner E ro)"

section \<open>Polling\<close>

text \<open>The inner loop ends when the phase changes.\<close>

fun co_frames :: "(int \<Rightarrow> rat) \<Rightarrow> environment \<Rightarrow> byte list list \<Rightarrow> unit act" where
  "co_frames rms E [] = ret ()"
| "co_frames rms E (pcm # rest) =
    (\<lambda>c. case is_speech rms (co_vad c) (Some pcm) of
       Inl e \<Rightarrow> raise_exc OtherExc c
     | Inr speech \<Rightarrow>
         (case frame_init (Some pcm) (VBool speech) of
            Inl e \<Rightarrow> raise_exc OtherExc c
          | Inr f \<Rightarrow>
              seq (co_feed_inner E (case co_generation c of None \<Rightarrow> VNone | Some g \<Rightarrow> VInt g) (Some f) VNone) (\<lambda>_ c.
                if co_phase c \<noteq> PCapturing then ret () c else co_frames rms E rest c) c))"

fun co_chunks :: "(int \<Rightarrow> rat) \<Rightarrow> environment \<Rightarrow> byte list list \<Rightarrow> unit act" where
  "co_chunks rms E [] = ret ()"
| "co_chunks rms E (chunk # rest) =
    (\<lambda>c. if co_phase c \<noteq> PCapturing then ret () c
       else case co_framer c of
         None \<Rightarrow> raise_exc OtherExc c
       | Some fr \<Rightarrow> (case framer_feed (Some chunk) fr of
           (Inl e, fr) \<Rightarrow> (Inl OtherExc, c\<lparr>co_framer := Some fr\<rparr>)
         | (Inr frames, fr) \<Rightarrow> seq (co_frames rms E frames) (\<lambda>_. co_chunks rms E rest) (c\<lparr>co_framer := Some fr\<rparr>)))"

definition co_device_chunks :: "environment \<Rightarrow> byte list list act" where
  "co_device_chunks E = seq (co_call E) (\<lambda>m c.
     case co_device c of
       None \<Rightarrow> raise_exc OtherExc c
     | Some d \<Rightarrow> (case pw_poll process_ops (mo_io m) None (mo_io2 m) d of
         (Inl e, d) \<Rightarrow> (Inl OtherExc, c\<lparr>co_device := Some d\<rparr>)
       | (Inr chunks, d) \<Rightarrow> (Inr chunks, c\<lparr>co_device := Some d\<rparr>)))"

definition co_poll_device :: "(int \<Rightarrow> rat) \<Rightarrow> environment \<Rightarrow> unit act" where
  "co_poll_device rms E c =
    (if co_phase c \<noteq> PCapturing \<or> co_device c = None then ret () c
     else seq (co_device_chunks E) (\<lambda>chunks.
       if length chunks > 16 \<or> int (sum_list (map length chunks)) > 10240 then raise_exc (Stop ''capture.invalid-frame'')
       else co_chunks rms E chunks) c)"

definition co_job_result :: "environment \<Rightarrow> transcript_result option act" where
  "co_job_result E = seq (co_call E) (\<lambda>m c.
     case co_job c of
       None \<Rightarrow> raise_exc OtherExc c
     | Some j \<Rightarrow> (case job_poll process_ops (mo_io m) None (mo_io2 m) j of (r, j) \<Rightarrow> (Inr r, c\<lparr>co_job := Some j\<rparr>)))"

definition co_poll_job :: "environment \<Rightarrow> voice_reply option act" where
  "co_poll_job E c =
    (if co_phase c \<noteq> PProcessing then ret None c
     else seq (co_job_result E) (\<lambda>r.
       if r = None then ret None else co_transcribed_inner E r) c)"

definition co_poll_inner :: "(int \<Rightarrow> rat) \<Rightarrow> environment \<Rightarrow> voice_reply option act" where
  "co_poll_inner rms E =
    handled
      (seq (co_check E) (\<lambda>_.
       seq (co_clock E) (\<lambda>now c.
       if late now (co_deadline c) then raise_exc (Stop (timeout_code (co_phase c))) c
       else seq (co_poll_device rms E) (\<lambda>_. co_poll_job E) c)))
      (\<lambda>e. seq (co_failing E timeout_code e) (\<lambda>_. ret None))"

definition co_poll :: "(int \<Rightarrow> rat) \<Rightarrow> environment \<Rightarrow> voice_reply option act" where
  "co_poll rms E c =
    (if co_phase c \<notin> {PCapturing, PProcessing} then ret None c else guarded None (co_poll_inner rms E) c)"

section \<open>Cancellation and confirmation\<close>

definition co_cancel_locked :: "environment \<Rightarrow> unit act" where
  "co_cancel_locked E =
    seq (update co_invalidate) (\<lambda>_.
    guarded () (\<lambda>c.
      if co_generation c \<noteq> None then co_fail E ''capture.canceled'' c
      else seq (co_stop_speech E) (\<lambda>quiet.
        if quiet then ret ()
        else update (\<lambda>c. c\<lparr>co_phase := PFaulted, co_code := ''owner.cleanup-unproven''\<rparr>)) c))"

definition co_cancel :: "environment \<Rightarrow> unit act" where
  "co_cancel E = seq (update co_cancel_enter) (\<lambda>_. co_cancel_locked E)"

definition unavailable :: voice_reply where
  "unavailable = reply_of ''blocked'' ''confirmation.unavailable''"

definition co_confirm_inner :: "environment \<Rightarrow> string option \<Rightarrow> string \<Rightarrow> pyv \<Rightarrow> voice_reply act" where
  "co_confirm_inner E token channel answer =
    seq (\<lambda>c. if co_phase c \<noteq> PIdle \<or> token = None \<or> token \<noteq> co_pending_token c \<or> channel \<notin> {''panel'', ''keyboard''}
               \<or> (case answer of VBool _ \<Rightarrow> False | _ \<Rightarrow> True)
            then ret False c else co_current E c) (\<lambda>good.
    if \<not> good then ret unavailable
    else seq (\<lambda>c. case session_begin (VStr ''command'') (co_owner c) of
            (Inl e, owner) \<Rightarrow> (Inl (BusyExc ''voice owner is busy or faulted''), c\<lparr>co_owner := owner\<rparr>)
          | (Inr g, owner) \<Rightarrow> (Inr (), c\<lparr>co_owner := owner, co_generation := Some g, co_pending_token := None\<rparr>)) (\<lambda>_.
      handled
        (seq (co_router E) (\<lambda>r.
         seq (update (\<lambda>c. c\<lparr>co_code := vr_code r\<rparr>)) (\<lambda>_.
         seq (co_cleanup E) (\<lambda>clean. seq (co_release E clean) (\<lambda>_. ret r)))))
        (\<lambda>e. seq (co_fail E ''context.stale'') (\<lambda>_. ret unavailable))))"

definition co_confirm :: "environment \<Rightarrow> string option \<Rightarrow> string \<Rightarrow> pyv \<Rightarrow> voice_reply act" where
  "co_confirm E token channel answer = guarded unavailable (co_confirm_inner E token channel answer)"

section \<open>Histories\<close>

text \<open>\<open>CallCancelLocked\<close> is the second half of a cancellation that entered while another call ran;
  \<open>Elsewhere\<close> is a moment at which only other threads act.\<close>

datatype co_op =
    CallActivate "string option"
  | CallFeed pyv "frame option" pyv
  | CallTranscribed "transcript_result option"
  | CallPoll
  | CallCancel
  | CallCancelLocked
  | CallConfirm "string option" string pyv
  | Elsewhere

fun co_step :: "(int \<Rightarrow> rat) \<Rightarrow> environment \<Rightarrow> co_op \<Rightarrow> coordinator \<Rightarrow> coordinator" where
  "co_step rms E (CallActivate token) c = snd (co_activate E token c)"
| "co_step rms E (CallFeed g f n) c = snd (co_feed E g f n c)"
| "co_step rms E (CallTranscribed r) c = snd (co_transcribed E r c)"
| "co_step rms E CallPoll c = snd (co_poll rms E c)"
| "co_step rms E CallCancel c = snd (co_cancel E c)"
| "co_step rms E CallCancelLocked c = snd (co_cancel_locked E c)"
| "co_step rms E (CallConfirm token channel answer) c = snd (co_confirm E token channel answer c)"
| "co_step rms E Elsewhere c = snd (co_call E c)"

definition co_run :: "(int \<Rightarrow> rat) \<Rightarrow> environment \<Rightarrow> co_op list \<Rightarrow> coordinator \<Rightarrow> coordinator" where
  "co_run rms E ops c = fold (co_step rms E) ops c"

end
