(* ===== verification/Coordinator_Safety.thy ===== *)
theory Coordinator_Safety
  imports Voice_Coordinator
begin

text \<open>
  The proofs about the coordinator of \<open>Voice_Coordinator\<close>. \<open>co_inv\<close> holds at every call of a
  collaborator, \<open>at_rest\<close> between two calls of the coordinator. \<open>gentle\<close> actions change nothing a turn
  depends on; \<open>triple\<close> is a Hoare triple whose exceptional outcome is a turn still held, which the
  handlers of the code then fail and release.
\<close>

section \<open>The invariant\<close>

definition job_gone :: "job option \<Rightarrow> bool" where
  "job_gone jo = (case jo of None \<Rightarrow> True | Some j \<Rightarrow> settled (tj_worker j) (tj_started j))"

definition device_gone :: "device option \<Rightarrow> bool" where
  "device_gone dv = (case dv of None \<Rightarrow> True | Some d \<Rightarrow> settled (pw_worker d) (pw_started d))"

definition workers_ok :: "coordinator \<Rightarrow> bool" where
  "workers_ok c \<longleftrightarrow> (\<forall>j. co_job c = Some j \<longrightarrow> op.job_inv j) \<and> (\<forall>d. co_device c = Some d \<longrightarrow> op.pw_inv d)
     \<and> (co_device_cleaned c = Some True \<or> co_phase c \<in> {PProcessing, PRouting} \<longrightarrow> device_gone (co_device c))"

definition history_ok :: "coordinator \<Rightarrow> bool" where
  "history_ok c \<longleftrightarrow> (\<forall>(clean, j, d) \<in> set (co_retired c). if clean then job_gone j \<and> device_gone d else co_phase c = PFaulted)
     \<and> (\<forall>(t, j) \<in> set (co_routed c). job_gone (Some j) \<and> strip_cp t \<noteq> [])"

definition owner_ok :: "coordinator \<Rightarrow> bool" where
  "owner_ok c \<longleftrightarrow> session_inv (co_owner c)
     \<and> (case co_generation c of
          Some g \<Rightarrow> so_owner (co_owner c) = Some g \<and> so_state (co_owner c) \<noteq> Faulted \<and> co_phase c \<noteq> PFaulted
        | None \<Rightarrow> so_state (co_owner c) = Idle \<or> so_state (co_owner c) = Faulted \<and> co_phase c = PFaulted)"

definition co_inv :: "coordinator \<Rightarrow> bool" where
  "co_inv c \<longleftrightarrow> workers_ok c \<and> history_ok c \<and> owner_ok c \<and> capture_inv (co_capture c)"

text \<open>What a step that is no transition keeps.\<close>

definition calm :: "coordinator \<Rightarrow> coordinator \<Rightarrow> bool" where
  "calm c c' \<longleftrightarrow> co_phase c' = co_phase c \<and> co_generation c' = co_generation c \<and> co_device_cleaned c' = co_device_cleaned c
     \<and> (co_job c' = None \<longleftrightarrow> co_job c = None) \<and> (co_device c' = None \<longleftrightarrow> co_device c = None)
     \<and> (co_inv c \<longrightarrow> co_inv c') \<and> (co_inv c \<longrightarrow> job_gone (co_job c) \<longrightarrow> job_gone (co_job c'))
     \<and> (co_inv c \<longrightarrow> device_gone (co_device c) \<longrightarrow> device_gone (co_device c'))"

definition gentle :: "'a act \<Rightarrow> bool" where
  "gentle m \<longleftrightarrow> (\<forall>c. calm c (snd (m c)))"

lemma calm_refl [simp]: "calm c c"
  by (simp add: calm_def)

lemma calm_trans [trans]: "calm a b \<Longrightarrow> calm b c \<Longrightarrow> calm a c"
  by (simp add: calm_def)

lemma calm_workers:
  assumes same: "co_phase c' = co_phase c" "co_generation c' = co_generation c" "co_device_cleaned c' = co_device_cleaned c"
      "co_retired c' = co_retired c" "co_routed c' = co_routed c" "co_owner c' = co_owner c" "co_capture c' = co_capture c"
    and none: "co_job c' = None \<longleftrightarrow> co_job c = None" "co_device c' = None \<longleftrightarrow> co_device c = None"
    and job: "\<And>j. workers_ok c \<Longrightarrow> co_job c' = Some j \<Longrightarrow> op.job_inv j"
      "workers_ok c \<Longrightarrow> job_gone (co_job c) \<Longrightarrow> job_gone (co_job c')"
    and device: "\<And>d. workers_ok c \<Longrightarrow> co_device c' = Some d \<Longrightarrow> op.pw_inv d"
      "workers_ok c \<Longrightarrow> device_gone (co_device c) \<Longrightarrow> device_gone (co_device c')"
  shows "calm c c'"
proof -
  have "workers_ok c'" if "workers_ok c"
    using job(1)[OF that] device[OF that] that unfolding workers_ok_def same by blast
  moreover have "history_ok c' = history_ok c" unfolding history_ok_def same ..
  moreover have "owner_ok c' = owner_ok c" unfolding owner_ok_def same ..
  moreover have "workers_ok c" if "co_inv c" using that by (simp add: co_inv_def)
  ultimately show ?thesis using job(2) device(2) none unfolding calm_def co_inv_def same by blast
qed

lemma calm_fields:
  assumes "co_phase c' = co_phase c" "co_generation c' = co_generation c" "co_device_cleaned c' = co_device_cleaned c"
    "co_job c' = co_job c" "co_device c' = co_device c" "co_retired c' = co_retired c" "co_routed c' = co_routed c"
    "co_owner c' = co_owner c" "co_capture c' = co_capture c"
  shows "calm c c'"
proof (rule calm_workers)
  show "op.job_inv j" if "workers_ok c" "co_job c' = Some j" for j using that assms(4) by (simp add: workers_ok_def)
  show "op.pw_inv d" if "workers_ok c" "co_device c' = Some d" for d using that assms(5) by (simp add: workers_ok_def)
qed (simp_all only: assms)

lemma session_cancel_keeps:
  assumes "session_inv s"
  shows "session_inv (snd (session_cancel g s)) \<and> so_owner (snd (session_cancel g s)) = so_owner s
    \<and> (so_state (snd (session_cancel g s)) = Faulted \<longleftrightarrow> so_state s = Faulted)
    \<and> (so_state (snd (session_cancel g s)) = Idle \<longleftrightarrow> so_state s = Idle)"
  using session_step_inv[OF assms, of "Cancel g"] by (auto simp: session_cancel_def Let_def)

lemma calm_owner_cancel: "calm c (c\<lparr>co_owner := snd (session_cancel g (co_owner c))\<rparr>)"
proof -
  let ?c = "c\<lparr>co_owner := snd (session_cancel g (co_owner c))\<rparr>"
  have "workers_ok ?c = workers_ok c" "history_ok ?c = history_ok c" by (simp_all add: workers_ok_def history_ok_def)
  moreover have "owner_ok ?c" if "owner_ok c"
    using that session_cancel_keeps[of "co_owner c" g] by (simp add: owner_ok_def split: option.splits)
  ultimately show ?thesis by (simp add: calm_def co_inv_def)
qed

lemma calm_cancel_enter: "calm c (co_cancel_enter c)"
proof (cases "co_generation c")
  case (Some g)
  have "calm c (c\<lparr>co_owner := snd (session_cancel (VInt g) (co_owner c))\<rparr>)" by (rule calm_owner_cancel)
  also have "calm \<dots> (co_cancel_enter c)" using Some by (intro calm_fields) (simp_all add: co_cancel_enter_def)
  finally show ?thesis .
qed (intro calm_fields, simp_all add: co_cancel_enter_def)

lemma calm_invalidate: "calm c (co_invalidate c)"
  by (rule calm_fields) (simp_all add: co_invalidate_def)

lemma calm_disturb: "calm c (disturb x c)"
  by (cases x) (auto intro: calm_cancel_enter calm_owner_cancel calm_trans[OF calm_cancel_enter calm_invalidate])

lemma settled_publish: "settled w st \<Longrightarrow> settled (map_option (process_publish r) w) st"
  using op.ended_advance[of w st r] by (simp add: ended_settled)

lemma pw_receive_worker [simp]:
  "pw_worker (snd (pw_receive chunk d)) = pw_worker d" "pw_started (snd (pw_receive chunk d)) = pw_started d"
  by (simp_all add: pw_receive_def Let_def split: option.splits prod.splits sum.splits)

lemma calm_supervise: "calm c (supervise x c)"
proof (cases x)
  case (JobEnds r)
  then show ?thesis
    by (intro calm_workers)
      (auto simp: workers_ok_def op.job_inv_advance job_gone_def settled_publish split: option.splits)
next
  case (DeviceEnds r)
  then show ?thesis
    by (intro calm_workers)
      (auto simp: workers_ok_def op.pw_inv_advance device_gone_def settled_publish split: option.splits)
next
  case (DeviceHears chunk)
  then show ?thesis
    by (intro calm_workers)
      (auto simp: workers_ok_def op.pw_inv_receive device_gone_def split: option.splits)
qed

lemma calm_supervised: "calm c (fold supervise xs c)"
proof (induction xs arbitrary: c)
  case (Cons x xs)
  show ?case using calm_trans[OF calm_supervise Cons.IH] by simp
qed simp

lemma gentle_call: "gentle (co_call E)"
proof -
  have "calm c (c\<lparr>co_time := Suc (co_time c)\<rparr>)" for c by (rule calm_fields) simp_all
  then show ?thesis unfolding gentle_def co_call_def Let_def snd_conv
    using calm_trans calm_supervised calm_disturb by blast
qed

lemma gentle_ret [simp]: "gentle (ret x)"
  by (simp add: gentle_def ret_def)

lemma gentle_raise [simp]: "gentle (raise_exc e)"
  by (simp add: gentle_def raise_exc_def)

lemma gentle_seq: "gentle m \<Longrightarrow> (\<And>x. gentle (f x)) \<Longrightarrow> gentle (seq m f)"
  unfolding gentle_def seq_def by (auto split: prod.splits sum.splits intro: calm_trans)

lemma gentle_handled: "gentle m \<Longrightarrow> (\<And>e. gentle (h e)) \<Longrightarrow> gentle (handled m h)"
  unfolding gentle_def handled_def by (auto split: prod.splits sum.splits intro: calm_trans)

lemma gentle_update: "(\<And>c. calm c (f c)) \<Longrightarrow> gentle (update f)"
  by (simp add: gentle_def update_def)

lemma gentle_deadline: "gentle (update (\<lambda>c. c\<lparr>co_deadline := t\<rparr>))"
  by (rule gentle_update) (rule calm_fields; simp)

lemma gentle_code: "gentle (update (\<lambda>c. c\<lparr>co_code := cd\<rparr>))"
  by (rule gentle_update) (rule calm_fields; simp)

lemma gentle_current: "gentle (co_current E)"
proof -
  have "gentle (seq (co_call E) (\<lambda>m c. if co_good (mo_state m) c then (Inr True, c) else (Inr False, c\<lparr>co_valid := False\<rparr>)))"
    by (intro gentle_seq gentle_call) (auto simp: gentle_def intro: calm_fields)
  then show ?thesis by (simp add: gentle_def co_current_def)
qed

lemma gentle_clock: "gentle (co_clock E)"
  unfolding co_clock_def by (intro gentle_seq gentle_call) (simp split: option.splits)

lemma gentle_check: "gentle (co_check E)"
proof -
  have "gentle (\<lambda>c. raise_exc (e c) c)" for e :: "coordinator \<Rightarrow> stop" by (simp add: gentle_def raise_exc_def)
  moreover have "gentle (\<lambda>c. if P c then raise_exc (e c) c else ret () c)" for P and e :: "coordinator \<Rightarrow> stop"
    by (simp add: gentle_def raise_exc_def ret_def)
  ultimately show ?thesis unfolding co_check_def
    by (intro gentle_seq gentle_current) (auto intro: gentle_seq gentle_clock)
qed

lemma gentle_emit: "gentle (co_emit E phase status cd)"
  unfolding co_emit_def
  by (intro gentle_seq gentle_call) (auto simp: gentle_def raise_exc_def intro: calm_fields split: option.splits sum.splits)

lemma gentle_router_state: "gentle (co_router_state E)"
  unfolding co_router_state_def
  by (intro gentle_seq gentle_current) (simp add: gentle_def raise_exc_def ret_def split: option.splits)

lemma gentle_sampled: "gentle (co_sampled E n)"
  by (induction n) (simp_all add: gentle_seq gentle_handled gentle_router_state)

lemma gentle_router: "gentle (co_router E)"
  unfolding co_router_def by (intro gentle_seq gentle_call gentle_sampled) (simp split: option.splits)

lemma gentle_stop_speech: "gentle (co_stop_speech E)"
proof -
  have "gentle (seq (co_call E) (\<lambda>m c. case co_speech c of None \<Rightarrow> (Inr True, c) | Some q \<Rightarrow>
      (let q = speech_cancel (mo_backend m) q in (Inr (speech_cleanup_proven q), c\<lparr>co_speech := Some q\<rparr>))))"
    by (intro gentle_seq gentle_call) (auto simp: gentle_def Let_def intro: calm_fields split: option.splits)
  then show ?thesis by (simp add: gentle_def co_stop_speech_def)
qed

lemmas gentle_rules = gentle_seq gentle_call gentle_current gentle_clock gentle_check gentle_emit gentle_router
  gentle_stop_speech gentle_handled

section \<open>Cleanup is honest\<close>

definition quiet :: "coordinator \<Rightarrow> bool" where
  "quiet c \<longleftrightarrow> job_gone (co_job c) \<and> device_gone (co_device c)"

definition live :: "coordinator \<Rightarrow> bool" where
  "live c \<longleftrightarrow> co_inv c \<and> co_generation c \<noteq> None"

text \<open>Between two calls a turn is held exactly while audio is captured or transcribed.\<close>

definition at_rest :: "coordinator \<Rightarrow> bool" where
  "at_rest c \<longleftrightarrow> co_inv c \<and> co_phase c \<noteq> PRouting \<and> (co_generation c \<noteq> None \<longleftrightarrow> co_phase c \<in> {PCapturing, PProcessing})
     \<and> (co_phase c = PCapturing \<longrightarrow> co_device_cleaned c = None)
     \<and> (co_generation c = None \<longrightarrow> co_job c = None \<and> co_device c = None)"

lemma calm_live: "calm c c' \<Longrightarrow> live c \<Longrightarrow> live c'"
  by (simp add: calm_def live_def)

lemma calm_rest: "calm c c' \<Longrightarrow> at_rest c \<Longrightarrow> at_rest c'"
  by (simp add: calm_def at_rest_def)

lemma calm_quiet: "calm c c' \<Longrightarrow> co_inv c \<Longrightarrow> quiet c \<Longrightarrow> quiet c'"
  by (simp add: calm_def quiet_def)

lemma call_result: "co_call E c = (Inr (E (co_time c)), snd (co_call E c))"
  by (simp add: co_call_def Let_def)

lemma seq_call: "seq (co_call E) f c = f (E (co_time c)) (snd (co_call E c))"
  unfolding seq_def by (subst call_result) simp

lemma gentleD: "gentle m \<Longrightarrow> m c = (r, c') \<Longrightarrow> calm c c'"
  unfolding gentle_def by (metis snd_conv)

lemma call_calm: "calm c (snd (co_call E c))"
  using gentle_call by (simp add: gentle_def)

lemma owner_ok_same:
  "co_owner c' = co_owner c \<Longrightarrow> co_generation c' = co_generation c \<Longrightarrow> co_phase c' = co_phase c \<Longrightarrow> owner_ok c' = owner_ok c"
  by (simp only: owner_ok_def)

lemma history_ok_same:
  "co_retired c' = co_retired c \<Longrightarrow> co_routed c' = co_routed c \<Longrightarrow> co_phase c' = co_phase c \<Longrightarrow> history_ok c' = history_ok c"
  by (simp only: history_ok_def)

lemma calm_capture:
  assumes "capture_inv (co_capture c) \<Longrightarrow> capture_inv k"
  shows "calm c (c\<lparr>co_capture := k\<rparr>)"
proof -
  have "workers_ok (c\<lparr>co_capture := k\<rparr>) = workers_ok c" by (simp add: workers_ok_def)
  moreover have "history_ok (c\<lparr>co_capture := k\<rparr>) = history_ok c" by (rule history_ok_same) simp_all
  moreover have "owner_ok (c\<lparr>co_capture := k\<rparr>) = owner_ok c" by (rule owner_ok_same) simp_all
  ultimately show ?thesis using assms by (simp add: calm_def co_inv_def)
qed

lemma stop_speech_ok: "\<exists>b c'. co_stop_speech E c = (Inr b, c') \<and> calm c c'"
  using gentleD[OF gentle_stop_speech, of E c]
  by (auto simp: co_stop_speech_def seq_call Let_def split: option.splits)

lemma stop_capture_ok: "\<exists>b c'. co_stop_capture E c = (Inr b, c') \<and> calm c c'"
proof (cases "cc_state (co_capture c) = CIdle")
  case False
  let ?c = "snd (co_call E c)" and ?m = "E (co_time c)"
  have "calm ?c (?c\<lparr>co_capture := snd (capture_cancel (mo_ok ?m) (co_capture ?c))\<rparr>)"
    by (rule calm_capture) (use capture_step_inv[of "co_capture ?c" "CancelCapture (mo_ok ?m)"] in simp)
  with call_calm have "calm c (?c\<lparr>co_capture := snd (capture_cancel (mo_ok ?m) (co_capture ?c))\<rparr>)" by (rule calm_trans)
  with False show ?thesis by (simp add: co_stop_capture_def seq_call Let_def)
qed (auto simp: co_stop_capture_def)

lemma stop_job_ok: "\<exists>b c'. co_stop_job E c = (Inr b, c') \<and> calm c c' \<and> (co_inv c \<and> b \<longrightarrow> job_gone (co_job c'))"
proof (cases "co_job c = None")
  case False
  let ?c = "snd (co_call E c)" and ?m = "E (co_time c)"
  show ?thesis
  proof (cases "co_job ?c")
    case None
    with False have "co_stop_job E c = (Inr True, ?c)" by (auto simp: co_stop_job_def seq_call)
    with None call_calm[of c E] show ?thesis by (auto simp: job_gone_def)
  next
    case (Some j)
    let ?j = "job_cancel process_ops (mo_io ?m) j"
    have "calm ?c (?c\<lparr>co_job := Some ?j\<rparr>)"
    proof (rule calm_workers)
      show "op.job_inv i" if "workers_ok ?c" "co_job (?c\<lparr>co_job := Some ?j\<rparr>) = Some i" for i
        using that Some op.job_inv_cancel[of j "mo_io ?m"] by (auto simp: workers_ok_def)
      show "(co_job (?c\<lparr>co_job := Some ?j\<rparr>) = None) = (co_job ?c = None)" using Some by simp
      show "job_gone (co_job (?c\<lparr>co_job := Some ?j\<rparr>))" if "workers_ok ?c" "job_gone (co_job ?c)"
        using that Some op.ended_job_cancel[of j "mo_io ?m"] by (simp add: workers_ok_def job_gone_def ended_settled)
    qed (simp_all add: workers_ok_def)
    with call_calm have c: "calm c (?c\<lparr>co_job := Some ?j\<rparr>)" by (rule calm_trans)
    have "job_gone (Some ?j)" if "co_inv c" "cleanup_proven ?j"
    proof -
      have "co_inv (?c\<lparr>co_job := Some ?j\<rparr>)" using c that(1) by (simp add: calm_def)
      then have "op.job_inv ?j" by (simp add: co_inv_def workers_ok_def)
      with that(2) show ?thesis by (simp add: cleanup_proven_def op.job_inv_def job_gone_def ended_settled)
    qed
    moreover have "co_stop_job E c = (Inr (cleanup_proven ?j), ?c\<lparr>co_job := Some ?j\<rparr>)"
      using False unfolding co_stop_job_def seq_call by (simp only: Some option.case Let_def if_False)
    ultimately show ?thesis using c by (intro exI[of _ "cleanup_proven ?j"] exI[of _ "?c\<lparr>co_job := Some ?j\<rparr>"]) simp
  qed
qed (auto simp: co_stop_job_def job_gone_def)

lemma stop_device_ok:
  assumes "co_inv c"
  shows "\<exists>b c'. co_stop_device E c = (Inr b, c') \<and> co_inv c' \<and> co_phase c' = co_phase c \<and> co_generation c' = co_generation c
    \<and> (b \<longrightarrow> device_gone (co_device c'))"
proof (cases "co_device c = None \<or> co_device_cleaned c \<noteq> None")
  case True
  then have "co_stop_device E c = (Inr (co_device c = None \<or> co_device_cleaned c = Some True), c)"
    by (auto simp: co_stop_device_def split: option.splits)
  moreover have "device_gone (co_device c)" if "co_device c = None \<or> co_device_cleaned c = Some True"
    using that assms by (auto simp: co_inv_def workers_ok_def device_gone_def)
  ultimately show ?thesis using assms by blast
next
  case False
  let ?c = "snd (co_call E c)" and ?m = "E (co_time c)"
  have inv: "co_inv ?c" "co_phase ?c = co_phase c" "co_generation ?c = co_generation c"
    using call_calm[of c E] assms by (simp_all add: calm_def)
  show ?thesis
  proof (cases "co_device ?c")
    case None
    with False have "co_stop_device E c = (Inr True, ?c)" by (auto simp: co_stop_device_def seq_call)
    with None inv show ?thesis by (auto simp: device_gone_def)
  next
    case (Some d)
    obtain b d' where d: "pw_cancel process_ops (mo_io ?m) d = (b, d')" by fastforce
    have "op.pw_inv d" using inv Some by (simp add: co_inv_def workers_ok_def)
    note e = op.pw_inv_cancel[OF this d, unfolded ended_settled]
    let ?e = "?c\<lparr>co_device := Some d', co_device_cleaned := Some b\<rparr>"
    have "workers_ok ?e" using inv e Some by (auto simp: co_inv_def workers_ok_def device_gone_def)
    moreover have "history_ok ?e = history_ok ?c" by (rule history_ok_same) simp_all
    moreover have "owner_ok ?e = owner_ok ?c" by (rule owner_ok_same) simp_all
    ultimately have "co_inv ?e" using inv by (simp add: co_inv_def)
    moreover have "co_stop_device E c = (Inr b, ?e)" using False Some d by (auto simp: co_stop_device_def seq_call)
    moreover have "b \<longrightarrow> device_gone (co_device ?e)" using e by (auto simp: device_gone_def)
    ultimately show ?thesis using inv by simp
  qed
qed

lemma cleanup_ok:
  assumes "co_inv c"
  shows "\<exists>b c'. co_cleanup E c = (Inr b, c') \<and> co_inv c' \<and> co_phase c' = co_phase c \<and> co_generation c' = co_generation c
    \<and> (b \<longrightarrow> quiet c')"
proof -
  obtain b1 c1 where 1: "co_stop_device E c = (Inr b1, c1)" "co_inv c1" "co_phase c1 = co_phase c"
      "co_generation c1 = co_generation c" "b1 \<longrightarrow> device_gone (co_device c1)"
    using stop_device_ok[OF assms] by blast
  let ?speech = "\<lambda>c. if \<not> co_valid c \<or> co_cancel_requested c then co_stop_speech E c else (Inr True, c)"
  have "\<exists>b2 c2. ?speech c1 = (Inr b2, c2) \<and> calm c1 c2"
    using stop_speech_ok[of E c1] by auto
  then obtain b2 c2 where 2: "?speech c1 = (Inr b2, c2)" "calm c1 c2" by blast
  obtain b3 c3 where 3: "co_stop_job E c2 = (Inr b3, c3)" "calm c2 c3" "co_inv c2 \<and> b3 \<longrightarrow> job_gone (co_job c3)"
    using stop_job_ok by blast
  obtain b4 c4 where 4: "co_stop_capture E c3 = (Inr b4, c4)" "calm c3 c4" using stop_capture_ok by blast
  have "co_cleanup E c = (Inr (b4 \<and> b3 \<and> b2 \<and> b1), c4)"
    using 1(1) 2(1) 3(1) 4(1) by (simp add: co_cleanup_def seq_def ret_def)
  moreover have "calm c1 c3" using 2(2) 3(2) by (rule calm_trans)
  then have "device_gone (co_device c3) \<and> job_gone (co_job c3)" if "b3 \<and> b1"
    using that 1 2(2) 3(3) by (simp add: calm_def)
  moreover have "co_inv c3 \<and> co_phase c3 = co_phase c \<and> co_generation c3 = co_generation c"
    using \<open>calm c1 c3\<close> 1 by (simp add: calm_def)
  ultimately show ?thesis using 4(2) by (auto simp: calm_def quiet_def)
qed

lemma emit_handled_ok:
  "\<exists>c'. handled (co_emit E phase status cd) (\<lambda>e. case e of Stop _ \<Rightarrow> ret () | _ \<Rightarrow> raise_exc e) c = (Inr (), c') \<and> calm c c'"
proof -
  obtain r c' where e: "co_emit E phase status cd c = (r, c')" by fastforce
  then have "r = Inr () \<or> r = Inl (Stop ''journal.unavailable'')"
    by (auto simp: co_emit_def seq_call raise_exc_def split: option.splits sum.splits if_splits)
  with e gentleD[OF gentle_emit e] show ?thesis by (auto simp: handled_def ret_def)
qed

lemma drop_inv:
  assumes "live c" and "clean \<longrightarrow> quiet c" and "session_release (VInt g) (VBool clean) (co_owner c) = (None, owner)"
    and "co_generation c = Some g"
  shows "co_inv (co_drop clean (c\<lparr>co_owner := owner\<rparr>))"
proof -
  let ?c = "co_drop clean (c\<lparr>co_owner := owner\<rparr>)"
  have own: "session_inv (co_owner c)" "so_owner (co_owner c) = Some g" "co_phase c \<noteq> PFaulted"
    using assms(1,4) by (auto simp: live_def co_inv_def owner_ok_def)
  have "session_inv owner" using session_step_inv[OF own(1), of "Release (VInt g) (VBool clean)"] assms(3) by simp
  moreover have "so_state owner = (if clean then Idle else Faulted)"
    using assms(3) by (auto simp: session_release_def split: option.splits if_splits)
  ultimately have "owner_ok ?c" by (simp add: owner_ok_def co_drop_def)
  moreover have "workers_ok ?c" by (simp add: workers_ok_def co_drop_def device_gone_def)
  moreover have "history_ok ?c"
    using assms(1,2) own(3) by (auto simp: live_def co_inv_def history_ok_def co_drop_def quiet_def split: if_splits)
  ultimately show ?thesis using assms(1) by (simp add: live_def co_inv_def co_drop_def)
qed

lemma release_ok:
  assumes "live c" and "clean \<longrightarrow> quiet c"
  shows "\<exists>c'. co_release E clean c = (Inr (), c') \<and> at_rest c' \<and> co_generation c' = None"
proof -
  obtain g where g: "co_generation c = Some g" using assms(1) by (auto simp: live_def)
  then have own: "so_owner (co_owner c) = Some g" "so_state (co_owner c) \<noteq> Faulted" "0 < g"
    using assms(1) by (auto simp: live_def co_inv_def owner_ok_def session_inv_def)
  then obtain owner where o: "session_release (VInt g) (VBool clean) (co_owner c) = (None, owner)"
    by (cases clean) (auto simp: session_release_def positive_def)
  let ?c = "co_drop clean (c\<lparr>co_owner := owner\<rparr>)"
  let ?d = "?c\<lparr>co_valid := False, co_code := ''owner.cleanup-unproven''\<rparr>"
  have rest: "at_rest ?c" using drop_inv[OF assms o g] by (simp add: at_rest_def co_drop_def)
  obtain c' where c': "handled (co_emit E ''owner.faulted'' ''uncertain'' ''owner.cleanup-unproven'')
      (\<lambda>e. case e of Stop _ \<Rightarrow> ret () | _ \<Rightarrow> raise_exc e) ?d = (Inr (), c')" "calm ?d c'"
    using emit_handled_ok by blast
  have "calm ?c ?d" by (rule calm_fields) simp_all
  then have "calm ?c c'" using c'(2) by (rule calm_trans)
  then have "at_rest c' \<and> co_generation c' = None" using rest by (auto simp: calm_rest) (simp add: calm_def co_drop_def)
  moreover have "co_release E clean c = (if clean then (Inr (), ?c) else (Inr (), c'))"
    using g o c'(1) by (cases clean) (simp_all add: co_release_def seq_def update_def ret_def)
  moreover have "co_generation ?c = None" by (simp add: co_drop_def)
  ultimately show ?thesis using rest by (cases clean) simp_all
qed

lemma fail_emit_ok: "\<exists>c'. co_fail_emit E phase cd c = (Inr (), c') \<and> calm c c'"
proof -
  let ?m = "if phase = PCapturing then co_emit E ''capture.canceled'' ''canceled'' cd
        else if phase = PProcessing then co_emit E ''transcription.finished'' ''canceled'' cd else ret ()"
  obtain r c' where e: "?m c = (r, c')" by fastforce
  have "gentle ?m" by (simp add: gentle_emit)
  then have "calm c c'" using e by (rule gentleD)
  moreover have "r = Inr () \<or> r = Inl (Stop ''journal.unavailable'')" using e
    by (auto simp: co_emit_def seq_call raise_exc_def ret_def split: option.splits sum.splits if_splits)
  moreover have "calm c' (c'\<lparr>co_code := ''journal.unavailable''\<rparr>)" by (rule calm_fields) simp_all
  ultimately show ?thesis using e unfolding co_fail_emit_def handled_def update_def
    by (auto simp: ret_def intro: calm_trans)
qed

lemma fail_ok:
  assumes "live c"
  shows "\<exists>c'. co_fail E cd c = (Inr (), c') \<and> at_rest c' \<and> co_generation c' = None"
proof -
  let ?u = "\<lambda>c. let c = co_invalidate c in case co_generation c of
           None \<Rightarrow> c | Some g \<Rightarrow> c\<lparr>co_owner := snd (session_cancel (VInt g) (co_owner c))\<rparr>"
  have "calm c (?u c)"
    using calm_invalidate calm_trans[OF calm_invalidate calm_owner_cancel] by (simp add: Let_def split: option.splits)
  then have 1: "live (?u c)" using assms by (rule calm_live)
  then obtain clean c2 where 2: "co_cleanup E (?u c) = (Inr clean, c2)" "co_inv c2" "clean \<longrightarrow> quiet c2"
      "co_generation c2 \<noteq> None"
    using cleanup_ok[of "?u c" E] by (auto simp: live_def)
  let ?c3 = "c2\<lparr>co_code := cd\<rparr>"
  have c3: "calm c2 ?c3" by (rule calm_fields) simp_all
  obtain c4 where 4: "co_fail_emit E (co_phase c) cd ?c3 = (Inr (), c4)" "calm ?c3 c4" using fail_emit_ok by blast
  have "calm c2 c4" using c3 4(2) by (rule calm_trans)
  then have "live c4" "clean \<longrightarrow> quiet c4" using 2 calm_live[of c2 c4] calm_quiet[of c2 c4] by (auto simp: live_def)
  then obtain c5 where "co_release E clean c4 = (Inr (), c5)" "at_rest c5 \<and> co_generation c5 = None"
    using release_ok by blast
  then show ?thesis using 2(1) 4(1) by (simp add: co_fail_def seq_def update_def)
qed

lemma failing_ok: "live c \<Longrightarrow> \<exists>c'. co_failing E other e c = (Inr (), c') \<and> at_rest c' \<and> co_generation c' = None"
  using fail_ok by (cases e) (simp_all add: co_failing_def)

section \<open>Every transition ends at rest\<close>

text \<open>\<open>post Q\<close> says that an action ends in \<open>Q\<close> or raises while the turn is still held.\<close>

definition post :: "('a \<Rightarrow> coordinator \<Rightarrow> bool) \<Rightarrow> (stop + 'a) \<times> coordinator \<Rightarrow> bool" where
  "post Q r = (case r of (Inr x, c) \<Rightarrow> Q x c | (Inl e, c) \<Rightarrow> live c)"

abbreviation resting :: "(stop + 'a) \<times> coordinator \<Rightarrow> bool" where
  "resting r \<equiv> post (\<lambda>_. at_rest) r"

lemma post_ret [simp]: "post Q (ret x c) = Q x c"
  by (simp add: post_def ret_def)

lemma post_raise [simp]: "post Q (raise_exc e c) = live c"
  by (simp add: post_def raise_exc_def)

lemma post_Inr [simp]: "post Q (Inr x, c) = Q x c"
  by (simp add: post_def)

lemma post_Inl [simp]: "post Q (Inl e, c) = live c"
  by (simp add: post_def)

definition triple :: "(coordinator \<Rightarrow> bool) \<Rightarrow> 'a act \<Rightarrow> ('a \<Rightarrow> coordinator \<Rightarrow> bool) \<Rightarrow> bool" where
  "triple P m Q \<longleftrightarrow> (\<forall>c. P c \<longrightarrow> post Q (m c))"

text \<open>A predicate that other threads cannot break, of states that hold a turn.\<close>

definition steady :: "(coordinator \<Rightarrow> bool) \<Rightarrow> bool" where
  "steady P \<longleftrightarrow> (\<forall>c. P c \<longrightarrow> live c) \<and> (\<forall>c c'. P c \<longrightarrow> calm c c' \<longrightarrow> P c')"

lemma tripleI: "(\<And>c. P c \<Longrightarrow> post Q (m c)) \<Longrightarrow> triple P m Q"
  by (simp add: triple_def)

lemma tripleD: "triple P m Q \<Longrightarrow> P c \<Longrightarrow> post Q (m c)"
  by (simp add: triple_def)

lemma triple_seq:
  assumes "triple P m R" and "\<And>x. triple (R x) (f x) Q"
  shows "triple P (seq m f) Q"
proof (rule tripleI)
  fix c assume "P c"
  with assms(1) have "post R (m c)" by (rule tripleD)
  then show "post Q (seq m f c)"
  proof (cases "m c")
    case (Pair r c')
    with \<open>post R (m c)\<close> show ?thesis using tripleD[OF assms(2)] by (cases r) (simp_all add: post_def seq_def)
  qed
qed

lemma triple_gentle: "steady P \<Longrightarrow> gentle m \<Longrightarrow> triple P m (\<lambda>_. P)"
  unfolding triple_def steady_def post_def using gentleD[of m]
  by (auto split: prod.splits sum.splits intro: calm_live)

lemma triple_then: "steady P \<Longrightarrow> gentle m \<Longrightarrow> (\<And>x. triple P (f x) Q) \<Longrightarrow> triple P (seq m f) Q"
  by (rule triple_seq[OF triple_gentle])

lemma triple_update: "(\<And>c. P c \<Longrightarrow> R (u c)) \<Longrightarrow> triple R (f ()) Q \<Longrightarrow> triple P (seq (update u) f) Q"
  by (simp add: triple_def seq_def update_def)

lemma triple_ret: "(\<And>c. P c \<Longrightarrow> Q x c) \<Longrightarrow> triple P (ret x) Q"
  by (simp add: triple_def)

lemma triple_raise: "steady P \<Longrightarrow> triple P (raise_exc e) Q"
  by (simp add: triple_def steady_def)

lemma triple_mono: "triple P m R \<Longrightarrow> (\<And>c. P' c \<Longrightarrow> P c) \<Longrightarrow> (\<And>x c. R x c \<Longrightarrow> Q x c) \<Longrightarrow> triple P' m Q"
  unfolding triple_def post_def by (fastforce split: prod.splits sum.splits)

lemma triple_finish: "steady P \<Longrightarrow> triple P (seq (co_cleanup E) (co_release E)) (\<lambda>_. at_rest)"
proof (rule tripleI)
  fix c assume "steady P" "P c"
  then have "live c" by (simp add: steady_def)
  then have "co_inv c" by (simp add: live_def)
  from cleanup_ok[OF this] obtain b c1 where 1: "co_cleanup E c = (Inr b, c1)" "co_inv c1"
      "co_generation c1 = co_generation c" "b \<longrightarrow> quiet c1"
    by blast
  then obtain c2 where "co_release E b c1 = (Inr (), c2)" "at_rest c2"
    using release_ok[of c1 b E] \<open>live c\<close> by (auto simp: live_def)
  with 1(1) show "resting (seq (co_cleanup E) (co_release E) c)" by (simp add: seq_def)
qed

lemma triple_finish_then:
  assumes "steady P"
  shows "triple P (seq (co_cleanup E) (\<lambda>clean. seq (co_release E clean) (\<lambda>_. ret r))) (\<lambda>_. at_rest)"
proof -
  have "seq (co_cleanup E) (\<lambda>clean. seq (co_release E clean) (\<lambda>_. ret r)) = seq (seq (co_cleanup E) (co_release E)) (\<lambda>_. ret r)"
    by (rule ext) (simp add: seq_def split: prod.splits sum.splits)
  then show ?thesis using triple_seq[OF triple_finish[OF assms] triple_ret] by simp
qed

lemma handled_rest:
  assumes "resting (m c)" and "\<And>e c'. live c' \<Longrightarrow> \<exists>x c''. h e c' = (Inr x, c'') \<and> at_rest c''"
  shows "\<exists>x c'. handled m h c = (Inr x, c') \<and> at_rest c'"
  using assms by (auto simp: post_def handled_def split: prod.splits sum.splits)

lemma failing_then: "live c \<Longrightarrow> \<exists>x c'. seq (co_failing E other e) (\<lambda>_. ret y) c = (Inr x, c') \<and> at_rest c'"
  using failing_ok[of c E other e] by (auto simp: seq_def ret_def)

subsection \<open>Activation\<close>

definition capturing :: "coordinator \<Rightarrow> bool" where
  "capturing c \<longleftrightarrow> live c \<and> co_phase c = PCapturing \<and> co_device_cleaned c = None"

lemma steady_capturing: "steady capturing"
  by (auto simp: steady_def capturing_def calm_def live_def)

lemma capturing_rest: "capturing c \<Longrightarrow> at_rest c"
  by (auto simp: capturing_def at_rest_def live_def)

lemma rest_capturing: "at_rest c \<Longrightarrow> co_phase c = PCapturing \<Longrightarrow> capturing c"
  by (auto simp: capturing_def at_rest_def live_def)

lemma capturing_device:
  assumes "capturing c" and "op.pw_inv d"
  shows "capturing (c\<lparr>co_device := Some d\<rparr>)"
proof -
  let ?c = "c\<lparr>co_device := Some d\<rparr>"
  have "workers_ok ?c" using assms by (auto simp: capturing_def live_def co_inv_def workers_ok_def)
  moreover have "history_ok ?c = history_ok c" by (rule history_ok_same) simp_all
  moreover have "owner_ok ?c = owner_ok c" by (rule owner_ok_same) simp_all
  ultimately show ?thesis using assms(1) by (simp add: capturing_def live_def co_inv_def)
qed

lemma device_inv: "capturing c \<Longrightarrow> co_device c = Some d \<Longrightarrow> op.pw_inv d"
  by (simp add: capturing_def live_def co_inv_def workers_ok_def)

lemma device_launch_triple: "triple capturing (co_device_launch E source) (\<lambda>_. capturing)"
  unfolding co_device_launch_def
proof (intro triple_then steady_capturing gentle_call tripleI)
  fix m c assume c: "capturing c"
  have "capturing (c\<lparr>co_device := Some e\<rparr>)" if "co_device c = Some d"
      "pw_start process_ops source (\<lambda>argv. mo_worker m) None None (mo_io m) (mo_io2 m) d = (x, e)" for d x e
    using capturing_device[OF c] op.pw_inv_start[OF device_inv[OF c that(1)]] that(2) by (metis snd_conv)
  with c steady_capturing show "post (\<lambda>_. capturing) (case co_device c of None \<Rightarrow> raise_exc OtherExc c
      | Some d \<Rightarrow> (case pw_start process_ops source (\<lambda>argv. mo_worker m) None None (mo_io m) (mo_io2 m) d of
             (e, d) \<Rightarrow> (if e = None then Inr () else Inl OtherExc, c\<lparr>co_device := Some d\<rparr>)))"
    by (auto simp: steady_def split: option.splits prod.splits)
qed

lemma device_start_triple: "triple capturing (co_device_start E) (\<lambda>_. capturing)"
proof (rule tripleI)
  fix c assume c: "capturing c"
  show "post (\<lambda>_. capturing) (co_device_start E c)"
  proof (cases "co_source c")
    case (Some source)
    have rest: "triple capturing (seq (co_check E) (\<lambda>_. seq (co_device_launch E source) (\<lambda>_. co_check E))) (\<lambda>_. capturing)"
      by (intro triple_then[OF steady_capturing gentle_check] triple_seq[OF device_launch_triple]
          triple_gentle[OF steady_capturing gentle_check])
    have "triple capturing (seq (co_call E) (\<lambda>m. if \<not> mo_ok m then raise_exc OtherExc
         else seq (update (\<lambda>c. c\<lparr>co_device := Some pipewire_init\<rparr>)) (\<lambda>_.
           seq (co_check E) (\<lambda>_. seq (co_device_launch E source) (\<lambda>_. co_check E))))) (\<lambda>_. capturing)"
      using triple_update[OF capturing_device[OF _ op.pw_inv_init] rest]
      by (intro triple_then[OF steady_capturing gentle_call]) (simp add: triple_raise[OF steady_capturing])
    with c Some show ?thesis by (simp add: co_device_start_def triple_def)
  qed (use c in \<open>simp add: co_device_start_def\<close>)
qed

lemma capture_start_triple: "triple capturing (co_capture_start E) (\<lambda>_. at_rest)"
proof -
  have key: "gentle (seq (co_call E) (\<lambda>m c. case key_equal (mo_uuid m) (mo_ok m) (co_capture c) of
      (r, k) \<Rightarrow> (Inr (cr_status r), c\<lparr>co_capture := k\<rparr>)))"
  proof (intro gentle_seq gentle_call)
    fix m show "gentle (\<lambda>c. case key_equal (mo_uuid m) (mo_ok m) (co_capture c) of
        (r, k) \<Rightarrow> (Inr (cr_status r), c\<lparr>co_capture := k\<rparr>))"
      unfolding gentle_def using capture_step_inv[of _ "KeyEqual (mo_uuid m) (mo_ok m)"]
      by (auto split: prod.splits intro!: calm_capture) (metis snd_conv)
  qed
  have last: "triple capturing (if st \<noteq> ''recording'' then raise_exc (Stop ''capture.device-error'')
      else seq (co_check E) (\<lambda>_. co_device_start E)) (\<lambda>_. at_rest)" for st
    using triple_then[OF steady_capturing gentle_check, of "\<lambda>_. co_device_start E" "\<lambda>_. at_rest" E]
      triple_mono[OF device_start_triple, of capturing "\<lambda>_. at_rest" E] capturing_rest
    by (simp add: triple_raise[OF steady_capturing])
  show ?thesis unfolding co_capture_start_def
    by (intro triple_then[OF steady_capturing gentle_clock] triple_then[OF steady_capturing gentle_deadline]
        triple_then[OF steady_capturing gentle_emit] triple_then[OF steady_capturing gentle_check]
        triple_then[OF steady_capturing key] last)
qed

lemma enter_capturing:
  assumes "co_inv c" and "co_generation c = None" and "co_phase c = PIdle"
    and "session_begin (VStr ''command'') (co_owner c) = (Inr g, owner)"
  shows "capturing (co_enter token s uuid g (c\<lparr>co_owner := owner\<rparr>))"
proof -
  let ?c = "co_enter token s uuid g (c\<lparr>co_owner := owner\<rparr>)"
  have "session_inv owner" using session_step_inv[of "co_owner c" "Begin (VStr ''command'')"] assms(1,4)
    by (simp add: co_inv_def owner_ok_def)
  moreover have "so_owner owner = Some g \<and> so_state owner = Owned"
    using assms(4) by (auto simp: session_begin_def Let_def split: if_splits)
  ultimately have "owner_ok ?c" by (simp add: owner_ok_def co_enter_def)
  moreover have "workers_ok ?c" by (simp add: workers_ok_def co_enter_def device_gone_def)
  moreover have "history_ok ?c" using assms(1,3) by (auto simp: co_inv_def history_ok_def co_enter_def split: if_splits)
  ultimately show ?thesis using assms(1) by (simp add: capturing_def live_def co_inv_def co_enter_def)
qed

lemma rest_idle: "at_rest c \<Longrightarrow> co_generation c = None \<Longrightarrow> co_phase c \<in> {PIdle, PFaulted}"
  by (cases "co_phase c") (auto simp: at_rest_def)

lemma preflight_gentle: "gentle (co_preflight E token)"
proof -
  have "gentle (\<lambda>c. if token = None then ret True c else if token \<noteq> co_pending_token c then ret False c else co_current E c)"
    using gentle_current by (simp add: gentle_def ret_def)
  then show ?thesis unfolding co_preflight_def
    apply (intro gentle_seq gentle_update)
    apply (auto intro!: gentle_seq gentle_stop_speech gentle_call calm_fields)
    apply (auto simp: gentle_def ret_def raise_exc_def split: option.splits)
    done
qed

lemma begin_refused: "session_begin mode s = (Inl e, s') \<Longrightarrow> s' = s"
  by (auto simp: session_begin_def Let_def split: if_splits)

lemma activate_inner_rest:
  assumes "at_rest c" and "co_phase c = PIdle"
  shows "at_rest (snd (co_activate_inner E token c))"
proof (cases "co_preflight E token c")
  case (Pair r c1)
  have c1: "calm c c1" using preflight_gentle Pair by (rule gentleD)
  with assms have inv: "co_inv c1" "co_generation c1 = None" "co_phase c1 = PIdle" "at_rest c1"
    using calm_rest[OF c1] by (auto simp: at_rest_def calm_def)
  show ?thesis
  proof (cases r)
    case (Inr x)
    obtain s uuid where x: "x = (s, uuid)" by fastforce
    show ?thesis
    proof (cases "session_begin (VStr ''command'') (co_owner c1)")
      case b: (Pair y owner)
      show ?thesis
      proof (cases y)
        case (Inl e)
        with b have "owner = co_owner c1" using begin_refused by blast
        with Pair Inr x b Inl inv show ?thesis by (simp add: co_activate_inner_def seq_def)
      next
        case g: (Inr g)
        let ?c = "co_enter token s uuid g (c1\<lparr>co_owner := owner\<rparr>)"
        have "capturing ?c" using enter_capturing[OF inv(1-3)] b g by simp
        from tripleD[OF capture_start_triple this]
        obtain z c2 where "handled (co_capture_start E) (co_failing E (\<lambda>_. ''capture.device-error'')) ?c = (Inr z, c2)" "at_rest c2"
          using handled_rest[of "co_capture_start E" ?c "co_failing E (\<lambda>_. ''capture.device-error'')"] failing_ok by blast
        with Pair Inr x b g show ?thesis by (simp add: co_activate_inner_def seq_def ret_def)
      qed
    qed
  qed (use Pair inv in \<open>simp add: co_activate_inner_def seq_def\<close>)
qed

lemma calm_busy: "calm c (c\<lparr>co_busy := b\<rparr>)"
  by (rule calm_fields) simp_all

lemma guarded_rest:
  assumes "at_rest c" and "\<And>c'. at_rest c' \<Longrightarrow> co_phase c' = co_phase c \<Longrightarrow> at_rest (snd (m c'))"
  shows "at_rest (snd (guarded x m c))"
proof (cases "m (c\<lparr>co_busy := True\<rparr>)")
  case (Pair r c')
  then have "at_rest c'" using assms(2)[of "c\<lparr>co_busy := True\<rparr>"] calm_rest[OF calm_busy assms(1)] by simp
  then show ?thesis using Pair assms(1) calm_rest[OF calm_busy] by (simp add: guarded_def)
qed

lemma activate_rest: "at_rest c \<Longrightarrow> at_rest (snd (co_activate E token c))"
  using guarded_rest[of c "co_activate_inner E token"] activate_inner_rest by (simp add: co_activate_def)

subsection \<open>Audio\<close>

definition processing :: "coordinator \<Rightarrow> bool" where
  "processing c \<longleftrightarrow> live c \<and> co_phase c = PProcessing"

lemma steady_processing: "steady processing"
  by (auto simp: steady_def processing_def calm_def live_def)

lemma processing_rest: "processing c \<Longrightarrow> at_rest c"
  by (auto simp: processing_def at_rest_def live_def)

lemma steady_live: "steady live"
  using calm_live by (auto simp: steady_def)

lemma processing_job:
  assumes "processing c" and "op.job_inv j"
  shows "processing (c\<lparr>co_job := Some j\<rparr>)"
proof -
  let ?c = "c\<lparr>co_job := Some j\<rparr>"
  have "workers_ok ?c" using assms by (auto simp: processing_def live_def co_inv_def workers_ok_def)
  moreover have "history_ok ?c = history_ok c" by (rule history_ok_same) simp_all
  moreover have "owner_ok ?c = owner_ok c" by (rule owner_ok_same) simp_all
  ultimately show ?thesis using assms(1) by (simp add: processing_def live_def co_inv_def)
qed

lemma job_inv_of: "processing c \<Longrightarrow> co_job c = Some j \<Longrightarrow> op.job_inv j"
  by (simp add: processing_def live_def co_inv_def workers_ok_def)

lemma job_launch_triple: "triple processing (co_job_launch E audio g) (\<lambda>_. processing)"
  unfolding co_job_launch_def
proof (intro triple_then steady_processing gentle_call tripleI)
  fix m c assume c: "processing c"
  have "processing (c\<lparr>co_job := Some k\<rparr>)" if "co_job c = Some j"
      "job_start process_ops (Some audio) (VInt g) (mo_worker m) None None (mo_io m) (mo_io2 m) j = (x, k)" for j x k
    using processing_job[OF c] op.job_inv_start[OF job_inv_of[OF c that(1)]] that(2) by (metis snd_conv)
  with c steady_processing show "post (\<lambda>_. processing) (case co_job c of None \<Rightarrow> raise_exc OtherExc c
      | Some j \<Rightarrow> (case job_start process_ops (Some audio) (VInt g) (mo_worker m) None None (mo_io m) (mo_io2 m) j of
         (e, j) \<Rightarrow> (if e = None then Inr () else Inl OtherExc, c\<lparr>co_job := Some j\<rparr>)))"
    by (auto simp: steady_def split: option.splits prod.splits)
qed

text \<open>The capture is over and the device is proven to be gone.\<close>

definition stopped :: "coordinator \<Rightarrow> bool" where
  "stopped c \<longleftrightarrow> live c \<and> co_phase c = PCapturing \<and> device_gone (co_device c)"

lemma steady_stopped: "steady stopped"
  by (auto simp: steady_def stopped_def calm_def live_def)

lemma stopped_processing:
  assumes "stopped c"
  shows "processing (c\<lparr>co_phase := PProcessing, co_code := cd\<rparr>)"
proof -
  let ?c = "c\<lparr>co_phase := PProcessing, co_code := cd\<rparr>"
  have "workers_ok ?c" using assms by (auto simp: stopped_def live_def co_inv_def workers_ok_def)
  moreover have "history_ok ?c" "owner_ok ?c" using assms
    by (auto simp: stopped_def live_def co_inv_def history_ok_def owner_ok_def split: if_splits)
  ultimately show ?thesis using assms by (simp add: stopped_def processing_def live_def co_inv_def)
qed

lemma transcribe_triple: "triple stopped (co_transcribe E audio g) (\<lambda>_. at_rest)"
proof -
  have last: "triple processing (co_check E) (\<lambda>_. at_rest)"
    using triple_mono[OF triple_gentle[OF steady_processing gentle_check], of processing "\<lambda>_. at_rest" E] processing_rest by simp
  have mid: "triple processing (seq (co_check E) (\<lambda>_. seq (co_clock E) (\<lambda>now.
      seq (update (\<lambda>c. c\<lparr>co_deadline := time_add now 30\<rparr>)) (\<lambda>_.
      seq (co_job_launch E audio g) (\<lambda>_. co_check E))))) (\<lambda>_. at_rest)"
    by (intro triple_then[OF steady_processing gentle_check] triple_then[OF steady_processing gentle_clock]
        triple_then[OF steady_processing gentle_deadline] triple_seq[OF job_launch_triple] last)
  have "triple processing (if \<not> mo_ok m then raise_exc OtherExc
      else seq (update (\<lambda>c. c\<lparr>co_job := Some job_init\<rparr>)) (\<lambda>_. seq (co_check E) (\<lambda>_. seq (co_clock E) (\<lambda>now.
      seq (update (\<lambda>c. c\<lparr>co_deadline := time_add now 30\<rparr>)) (\<lambda>_.
      seq (co_job_launch E audio g) (\<lambda>_. co_check E)))))) (\<lambda>_. at_rest)" for m
    using triple_update[OF processing_job[OF _ op.job_inv_init] mid] by (simp add: triple_raise[OF steady_processing])
  then show ?thesis unfolding co_transcribe_def
    by (intro triple_update[where R = processing, OF stopped_processing] triple_then[OF steady_processing gentle_emit]
        triple_then[OF steady_processing gentle_check] triple_then[OF steady_processing gentle_call])
qed

lemma ended_triple: "triple capturing (co_ended E r g) (\<lambda>_. at_rest)"
proof -
  have stop: "triple capturing (co_stop_device E) (\<lambda>b c. live c \<and> (b \<longrightarrow> stopped c))"
  proof (rule tripleI)
    fix c assume c: "capturing c"
    then have "co_inv c" by (simp add: capturing_def live_def)
    from stop_device_ok[OF this, of E] obtain b c' where "co_stop_device E c = (Inr b, c')" "co_inv c'"
        "co_phase c' = co_phase c" "co_generation c' = co_generation c" "b \<longrightarrow> device_gone (co_device c')"
      by blast
    with c show "post (\<lambda>b c. live c \<and> (b \<longrightarrow> stopped c)) (co_stop_device E c)"
      by (simp add: capturing_def live_def stopped_def)
  qed
  have silent: "triple stopped (seq (update (\<lambda>c. c\<lparr>co_code := ''capture.initial-silence''\<rparr>)) (\<lambda>_.
           seq (co_cleanup E) (co_release E))) (\<lambda>_. at_rest)"
    by (intro triple_then[OF steady_stopped gentle_code] triple_finish[OF steady_stopped])
  have "triple stopped (seq (co_emit E ''capture.stopped'' (cr_status r) (''capture.'' @ cr_reason r)) (\<lambda>_.
         seq (co_check E) (\<lambda>_.
         if cr_status r = ''idle''
         then seq (update (\<lambda>c. c\<lparr>co_code := ''capture.initial-silence''\<rparr>)) (\<lambda>_. seq (co_cleanup E) (co_release E))
         else co_transcribe E (cr_audio r) g))) (\<lambda>_. at_rest)"
    using silent transcribe_triple
    by (intro triple_then[OF steady_stopped gentle_emit] triple_then[OF steady_stopped gentle_check]) simp
  then have "triple (\<lambda>c. live c \<and> (b \<longrightarrow> stopped c)) (if \<not> b then raise_exc (Stop ''owner.cleanup-unproven'')
       else seq (co_emit E ''capture.stopped'' (cr_status r) (''capture.'' @ cr_reason r)) (\<lambda>_.
         seq (co_check E) (\<lambda>_.
         if cr_status r = ''idle''
         then seq (update (\<lambda>c. c\<lparr>co_code := ''capture.initial-silence''\<rparr>)) (\<lambda>_. seq (co_cleanup E) (co_release E))
         else co_transcribe E (cr_audio r) g))) (\<lambda>_. at_rest)" for b
    by (simp add: triple_def)
  from triple_seq[OF stop this] show ?thesis unfolding co_ended_def
    by (simp add: triple_raise[OF steady_capturing] triple_ret capturing_rest)
qed

lemma admit_triple:
  "triple capturing (co_admit f sequence) (\<lambda>x c. capturing c \<and> (\<forall>fr. x = Some fr \<longrightarrow> length (fr_pcm fr) = 640))"
  using steady_capturing
  by (auto simp: triple_def co_admit_def steady_def split: option.splits pyv.splits)

lemma take_triple:
  assumes "\<forall>fr. x = Some fr \<longrightarrow> length (fr_pcm fr) = 640"
  shows "triple capturing (co_take E g x) (\<lambda>_. at_rest)"
proof (cases x)
  case (Some f)
  have wf: "frame_wf f" using assms Some by (auto simp: frame_wf_def)
  have feed: "gentle (seq (co_call E) (\<lambda>m c. case capture_feed (Some f) (mo_ok m) (co_capture c) of
      (r, k) \<Rightarrow> (Inr r, c\<lparr>co_capture := k\<rparr>)))"
  proof (intro gentle_seq gentle_call)
    fix m show "gentle (\<lambda>c. case capture_feed (Some f) (mo_ok m) (co_capture c) of (r, k) \<Rightarrow> (Inr r, c\<lparr>co_capture := k\<rparr>))"
      unfolding gentle_def using capture_step_inv[of _ "FeedFrame f (mo_ok m)"] wf
      by (auto split: prod.splits intro!: calm_capture) (metis snd_conv)
  qed
  have count: "gentle (update (\<lambda>c. c\<lparr>co_sequence := co_sequence c + 1\<rparr>))"
    by (rule gentle_update) (rule calm_fields; simp)
  have "triple capturing (seq (update (\<lambda>c. c\<lparr>co_sequence := co_sequence c + 1\<rparr>)) (\<lambda>_.
      seq (seq (co_call E) (\<lambda>m c. case capture_feed (Some f) (mo_ok m) (co_capture c) of
               (r, k) \<Rightarrow> (Inr r, c\<lparr>co_capture := k\<rparr>))) (\<lambda>r. seq (co_check E) (\<lambda>_. co_ended E r g)))) (\<lambda>_. at_rest)"
    by (intro triple_then[OF steady_capturing count] triple_then[OF steady_capturing feed]
        triple_then[OF steady_capturing gentle_check] ended_triple)
  then show ?thesis using Some by (simp add: co_take_def)
qed (simp add: co_take_def triple_ret capturing_rest)

lemma feed_inner_rest:
  assumes "at_rest c"
  shows "\<exists>c'. co_feed_inner E generation f sequence c = (Inr (), c') \<and> at_rest c'"
proof (cases "\<exists>g. generation = VInt g \<and> co_generation c = Some g \<and> co_phase c = PCapturing")
  case True
  then obtain g where g: "generation = VInt g" "co_generation c = Some g" "co_phase c = PCapturing" by blast
  let ?m = "seq (co_check E) (\<lambda>_. seq (co_admit f sequence) (co_take E g))"
  have "triple (\<lambda>c. capturing c \<and> (\<forall>fr. x = Some fr \<longrightarrow> length (fr_pcm fr) = 640)) (co_take E g x) (\<lambda>_. at_rest)" for x
    using take_triple[of x E g] by (auto simp: triple_def)
  then have "triple capturing ?m (\<lambda>_. at_rest)"
    by (intro triple_then[OF steady_capturing gentle_check] triple_seq[OF admit_triple])
  then have "resting (?m c)" using rest_capturing[OF assms g(3)] by (rule tripleD)
  from handled_rest[of ?m c, OF this, of "co_failing E (\<lambda>p. if p = PProcessing then ''transcription.failed'' else ''capture.invalid-frame'')"]
  show ?thesis using failing_ok g by (simp add: co_feed_inner_def) blast
qed (use assms in \<open>auto simp: co_feed_inner_def ret_def split: pyv.splits\<close>)

subsection \<open>Transcripts\<close>

definition proven :: "coordinator \<Rightarrow> bool" where
  "proven c \<longleftrightarrow> processing c \<and> job_gone (co_job c)"

definition routing :: "coordinator \<Rightarrow> bool" where
  "routing c \<longleftrightarrow> live c \<and> co_phase c = PRouting \<and> job_gone (co_job c)"

lemma steady_proven: "steady proven"
  by (auto simp: steady_def proven_def processing_def calm_def live_def)

lemma steady_routing: "steady routing"
  by (auto simp: steady_def routing_def calm_def live_def)

lemma proven_routing:
  assumes "proven c"
  shows "routing (c\<lparr>co_phase := PRouting\<rparr>)"
proof -
  let ?c = "c\<lparr>co_phase := PRouting\<rparr>"
  have "workers_ok ?c" using assms by (auto simp: proven_def processing_def live_def co_inv_def workers_ok_def)
  moreover have "history_ok ?c" "owner_ok ?c" using assms
    by (auto simp: proven_def processing_def live_def co_inv_def history_ok_def owner_ok_def split: if_splits)
  ultimately show ?thesis using assms by (simp add: proven_def processing_def routing_def live_def co_inv_def)
qed

lemma routing_record:
  assumes "routing c" and "strip_cp t \<noteq> []"
  shows "routing (c\<lparr>co_routed := co_routed c @ map (Pair t) (case co_job c of None \<Rightarrow> [] | Some j \<Rightarrow> [j])\<rparr>)" (is "routing ?c")
proof -
  have "workers_ok ?c" using assms(1) by (simp add: routing_def live_def co_inv_def workers_ok_def)
  have "owner_ok ?c = owner_ok c" by (rule owner_ok_same) simp_all
  have "history_ok c" "job_gone (co_job c)" using assms(1) by (simp_all add: routing_def live_def co_inv_def)
  moreover have same: "co_phase ?c = co_phase c" "co_retired ?c = co_retired c"
    "set (co_routed ?c) = set (co_routed c) \<union> (case co_job c of None \<Rightarrow> {} | Some j \<Rightarrow> {(t, j)})"
    by (simp_all split: option.splits)
  ultimately have "history_ok ?c" using assms(2) unfolding history_ok_def same by (cases "co_job c") auto
  with \<open>workers_ok ?c\<close> \<open>owner_ok ?c = owner_ok c\<close> show ?thesis using assms(1) by (simp add: routing_def live_def co_inv_def)
qed

lemma route_triple:
  assumes "strip_cp t \<noteq> []"
  shows "triple routing (co_route E t) (\<lambda>_. at_rest)"
proof -
  have after: "gentle (update (\<lambda>c. c\<lparr>co_pending_token := p, co_confirming := None, co_code := k\<rparr>))" for p k
    by (rule gentle_update) (rule calm_fields; simp)
  show ?thesis unfolding co_route_def
    by (intro triple_update[where R = routing, OF routing_record[OF _ assms]] triple_then[OF steady_routing gentle_router]
        triple_then[OF steady_routing after] triple_finish_then[OF steady_routing])
qed

lemma fail_triple: "triple live (co_fail E cd) (\<lambda>_. at_rest)"
proof (rule tripleI)
  fix c assume "live c"
  from fail_ok[OF this, of E cd] show "resting (co_fail E cd c)" by auto
qed

lemma settle_triple: "triple processing (co_settle E r) (\<lambda>_. at_rest)"
proof -
  have job: "triple processing (\<lambda>c. case co_job c of
      Some j \<Rightarrow> if cleanup_proven j then ret () c else raise_exc (Stop ''transcription.cleanup-unproven'') c
    | None \<Rightarrow> raise_exc (Stop ''transcription.cleanup-unproven'') c) (\<lambda>_. proven)"
  proof (rule tripleI)
    fix c assume c: "processing c"
    have "proven c" if "co_job c = Some j" "cleanup_proven j" for j
      using that c job_inv_of[OF c that(1)]
      by (simp add: proven_def job_gone_def op.job_inv_def cleanup_proven_def ended_settled)
    with c show "post (\<lambda>_. proven) (case co_job c of
      Some j \<Rightarrow> if cleanup_proven j then ret () c else raise_exc (Stop ''transcription.cleanup-unproven'') c
    | None \<Rightarrow> raise_exc (Stop ''transcription.cleanup-unproven'') c)"
      by (simp add: processing_def split: option.splits)
  qed
  have failed: "triple routing (seq (co_fail E ''transcription.failed'') (\<lambda>_. ret (None :: voice_reply option))) (\<lambda>_. at_rest)"
  proof (rule triple_seq)
    show "triple routing (co_fail E ''transcription.failed'') (\<lambda>_. at_rest)"
      by (rule triple_mono[OF fail_triple]) (auto simp: routing_def)
  qed (simp add: triple_def)
  have routed: "triple routing (seq (co_route E t) (\<lambda>reply. ret (Some reply))) (\<lambda>_. at_rest)" if "strip_cp t \<noteq> []" for t
    by (rule triple_seq[OF route_triple[OF that]]) (simp add: triple_def)
  have "triple routing (case tr_text r of
      Some cs \<Rightarrow> if tr_status r = ''success'' \<and> valid then seq (co_route E cs) (\<lambda>reply. ret (Some reply))
        else seq (co_fail E ''transcription.failed'') (\<lambda>_. ret None)
    | None \<Rightarrow> seq (co_fail E ''transcription.failed'') (\<lambda>_. ret None)) (\<lambda>_. at_rest)"
    if "valid_text (tr_text r) = Some valid" for valid
    using that failed routed by (auto simp: valid_text_def split: option.splits if_splits)
  then have "triple proven (case (valid_text (tr_text r), tr_text r) of
      (None, _) \<Rightarrow> raise_exc OtherExc
    | (Some valid, t) \<Rightarrow>
        (let successful = (tr_status r = ''success'' \<and> valid)
         in seq (co_emit E ''transcription.finished'' (if successful then ''success'' else ''failed'')
                  (if successful then ''transcription.ok'' else ''transcription.failed'')) (\<lambda>_.
            seq (co_check E) (\<lambda>_.
            seq (update (\<lambda>c. c\<lparr>co_phase := PRouting\<rparr>)) (\<lambda>_.
            case t of
              Some cs \<Rightarrow> if successful then seq (co_route E cs) (\<lambda>reply. ret (Some reply))
                else seq (co_fail E ''transcription.failed'') (\<lambda>_. ret None)
            | None \<Rightarrow> seq (co_fail E ''transcription.failed'') (\<lambda>_. ret None)))))) (\<lambda>_. at_rest)"
    unfolding Let_def
    by (cases "valid_text (tr_text r)")
      (auto simp: triple_raise[OF steady_proven] intro!: triple_then[OF steady_proven gentle_emit]
        triple_then[OF steady_proven gentle_check] triple_update[where R = routing, OF proven_routing])
  then show ?thesis unfolding co_settle_def
    by (intro triple_then[OF steady_processing gentle_check] triple_seq[OF job])
qed

lemma transcribed_inner_rest:
  assumes "at_rest c"
  shows "\<exists>x c'. co_transcribed_inner E ro c = (Inr x, c') \<and> at_rest c'"
proof (cases "\<exists>r. ro = Some r \<and> tr_generation r \<noteq> None \<and> tr_generation r = co_generation c \<and> co_phase c = PProcessing")
  case True
  then obtain r where r: "ro = Some r" "tr_generation r \<noteq> None" "tr_generation r = co_generation c" "co_phase c = PProcessing"
    by blast
  then have "processing c" using assms by (auto simp: processing_def at_rest_def live_def)
  then have "resting (co_settle E r c)" by (rule tripleD[OF settle_triple])
  from handled_rest[of "co_settle E r" c, OF this failing_then] r show ?thesis by (auto simp: co_transcribed_inner_def)
qed (use assms in \<open>auto simp: co_transcribed_inner_def ret_def split: option.splits\<close>)

subsection \<open>Polling\<close>

lemma device_chunks_triple: "triple capturing (co_device_chunks E) (\<lambda>_. capturing)"
  unfolding co_device_chunks_def
proof (intro triple_then steady_capturing gentle_call tripleI)
  fix m c assume c: "capturing c"
  have "capturing (c\<lparr>co_device := Some e\<rparr>)" if "co_device c = Some d"
      "pw_poll process_ops (mo_io m) None (mo_io2 m) d = (x, e)" for d x e
    using capturing_device[OF c] op.pw_inv_poll[OF device_inv[OF c that(1)]] that(2) by (metis snd_conv)
  with c steady_capturing show "post (\<lambda>_. capturing) (case co_device c of None \<Rightarrow> raise_exc OtherExc c
      | Some d \<Rightarrow> (case pw_poll process_ops (mo_io m) None (mo_io2 m) d of
         (Inl e, d) \<Rightarrow> (Inl OtherExc, c\<lparr>co_device := Some d\<rparr>)
       | (Inr chunks, d) \<Rightarrow> (Inr chunks, c\<lparr>co_device := Some d\<rparr>)))"
    by (auto simp: steady_def split: option.splits prod.splits sum.splits)
qed

lemma job_result_triple: "triple processing (co_job_result E) (\<lambda>_. processing)"
  unfolding co_job_result_def
proof (intro triple_then steady_processing gentle_call tripleI)
  fix m c assume c: "processing c"
  have "processing (c\<lparr>co_job := Some k\<rparr>)" if "co_job c = Some j"
      "job_poll process_ops (mo_io m) None (mo_io2 m) j = (x, k)" for j x k
    using processing_job[OF c] op.job_inv_poll[OF job_inv_of[OF c that(1)]] that(2) by (metis snd_conv)
  with c steady_processing show "post (\<lambda>_. processing) (case co_job c of None \<Rightarrow> raise_exc OtherExc c
      | Some j \<Rightarrow> (case job_poll process_ops (mo_io m) None (mo_io2 m) j of (r, j) \<Rightarrow> (Inr r, c\<lparr>co_job := Some j\<rparr>)))"
    by (auto simp: steady_def split: option.splits prod.splits)
qed

lemma frames_rest: "capturing c \<Longrightarrow> resting (co_frames rms E frames c)"
proof (induction frames arbitrary: c)
  case (Cons pcm rest)
  have live: "live c" using Cons.prems by (simp add: capturing_def)
  have "resting (seq (co_feed_inner E gen (Some f) VNone) (\<lambda>_ c. if co_phase c \<noteq> PCapturing then ret () c else co_frames rms E rest c) c)"
    for gen f
  proof -
    obtain c' where "co_feed_inner E gen (Some f) VNone c = (Inr (), c')" "at_rest c'"
      using feed_inner_rest[OF capturing_rest[OF Cons.prems]] by blast
    then show ?thesis using Cons.IH[OF rest_capturing] by (simp add: seq_def)
  qed
  with live show ?case by (simp split: sum.splits)
qed (simp add: capturing_rest)

lemma chunks_rest: "at_rest c \<Longrightarrow> resting (co_chunks rms E chunks c)"
proof (induction chunks arbitrary: c)
  case (Cons chunk rest)
  show ?case
  proof (cases "co_phase c = PCapturing")
    case True
    have framed: "capturing (c\<lparr>co_framer := fr\<rparr>)" for fr
      using rest_capturing[OF Cons.prems True] steady_capturing calm_fields[of "c\<lparr>co_framer := fr\<rparr>" c] by (simp add: steady_def)
    have "live c" "live (c\<lparr>co_framer := fr\<rparr>)" for fr
      using framed rest_capturing[OF Cons.prems True] by (simp_all add: capturing_def)
    moreover have "resting (seq (co_frames rms E frames) (\<lambda>_. co_chunks rms E rest) (c\<lparr>co_framer := fr\<rparr>))" for frames fr
    proof -
      have "triple capturing (co_frames rms E frames) (\<lambda>_. at_rest)" using frames_rest by (auto simp: triple_def)
      moreover have "triple at_rest (co_chunks rms E rest) (\<lambda>_. at_rest)" using Cons.IH by (auto simp: triple_def)
      ultimately have "triple capturing (seq (co_frames rms E frames) (\<lambda>_. co_chunks rms E rest)) (\<lambda>_. at_rest)"
        by (rule triple_seq)
      then show ?thesis using framed by (rule tripleD)
    qed
    ultimately show ?thesis using True by (simp split: option.splits prod.splits sum.splits)
  qed (use Cons.prems in simp)
qed simp

lemma poll_device_triple: "triple at_rest (co_poll_device rms E) (\<lambda>_. at_rest)"
proof (rule tripleI)
  fix c assume c: "at_rest c"
  have chunks: "triple capturing (if length cs > 16 \<or> int (sum_list (map length cs)) > 10240 then raise_exc (Stop ''capture.invalid-frame'')
      else co_chunks rms E cs) (\<lambda>_. at_rest)" for cs
    using triple_raise[OF steady_capturing] chunks_rest[OF capturing_rest] by (simp add: triple_def)
  show "resting (co_poll_device rms E c)"
  proof (cases "co_phase c \<noteq> PCapturing \<or> co_device c = None")
    case False
    then have "capturing c" using rest_capturing[OF c] by simp
    from tripleD[OF triple_seq[OF device_chunks_triple chunks] this] False show ?thesis by (auto simp: co_poll_device_def)
  qed (use c in \<open>simp add: co_poll_device_def\<close>)
qed

lemma poll_job_triple: "triple at_rest (co_poll_job E) (\<lambda>_. at_rest)"
proof (rule tripleI)
  fix c assume c: "at_rest c"
  have result: "triple processing (if r = None then ret None else co_transcribed_inner E r) (\<lambda>_. at_rest)" for r
  proof (rule tripleI)
    fix k assume "processing k"
    then have "at_rest k" by (rule processing_rest)
    with transcribed_inner_rest[of k E r] show "resting ((if r = None then ret None else co_transcribed_inner E r) k)" by auto
  qed
  show "resting (co_poll_job E c)"
  proof (cases "co_phase c = PProcessing")
    case True
    then have "processing c" using c by (auto simp: processing_def at_rest_def live_def)
    from tripleD[OF triple_seq[OF job_result_triple result] this] True show ?thesis by (auto simp: co_poll_job_def)
  qed (use c in \<open>simp add: co_poll_job_def\<close>)
qed

definition turn :: "coordinator \<Rightarrow> bool" where
  "turn c \<longleftrightarrow> at_rest c \<and> live c"

lemma steady_turn: "steady turn"
  using calm_rest calm_live by (auto simp: steady_def turn_def)

lemma poll_rest:
  assumes "at_rest c"
  shows "at_rest (snd (co_poll rms E c))"
proof (cases "co_phase c \<in> {PCapturing, PProcessing}")
  case True
  let ?m = "seq (co_check E) (\<lambda>_. seq (co_clock E) (\<lambda>now c.
       if late now (co_deadline c) then raise_exc (Stop (timeout_code (co_phase c))) c
       else seq (co_poll_device rms E) (\<lambda>_. co_poll_job E) c))"
  have "triple at_rest (seq (co_poll_device rms E) (\<lambda>_. co_poll_job E)) (\<lambda>_. at_rest)"
    by (rule triple_seq[OF poll_device_triple poll_job_triple])
  then have "triple turn (\<lambda>c. if late now (co_deadline c) then raise_exc (Stop (timeout_code (co_phase c))) c
       else seq (co_poll_device rms E) (\<lambda>_. co_poll_job E) c) (\<lambda>_. at_rest)" for now
    by (simp add: triple_def turn_def)
  then have m: "triple turn ?m (\<lambda>_. at_rest)"
    by (intro triple_then[OF steady_turn gentle_check] triple_then[OF steady_turn gentle_clock])
  have "at_rest (snd (co_poll_inner rms E k))" if "at_rest k" "co_phase k = co_phase c" for k
  proof -
    have "turn k" using that True by (auto simp: turn_def live_def at_rest_def)
    with m have "resting (?m k)" by (rule tripleD)
    from handled_rest[of ?m k "\<lambda>e. seq (co_failing E timeout_code e) (\<lambda>_. ret None)", OF this failing_then]
    show ?thesis unfolding co_poll_inner_def by auto
  qed
  with guarded_rest[OF assms, of "co_poll_inner rms E" None] True show ?thesis by (simp add: co_poll_def)
qed (use assms in \<open>simp add: co_poll_def ret_def\<close>)

subsection \<open>Cancellation and confirmation\<close>

lemma rest_faulted:
  assumes "at_rest c" and "co_generation c = None"
  shows "at_rest (c\<lparr>co_phase := PFaulted, co_code := cd\<rparr>)"
proof -
  let ?c = "c\<lparr>co_phase := PFaulted, co_code := cd\<rparr>"
  have "workers_ok ?c" using assms by (auto simp: at_rest_def co_inv_def workers_ok_def)
  moreover have "history_ok ?c" "owner_ok ?c" using assms
    by (auto simp: at_rest_def co_inv_def history_ok_def owner_ok_def split: if_splits)
  ultimately show ?thesis using assms by (simp add: at_rest_def co_inv_def)
qed

lemma cancel_locked_ends:
  assumes "at_rest c"
  shows "\<exists>c'. co_cancel_locked E c = (Inr (), c') \<and> at_rest c' \<and> (\<not> co_busy c \<longrightarrow> co_generation c' = None)"
proof -
  let ?body = "\<lambda>c. if co_generation c \<noteq> None then co_fail E ''capture.canceled'' c
      else seq (co_stop_speech E) (\<lambda>quiet. if quiet then ret ()
        else update (\<lambda>c. c\<lparr>co_phase := PFaulted, co_code := ''owner.cleanup-unproven''\<rparr>)) c"
  let ?c = "co_invalidate c"
  have body: "\<exists>k'. ?body k = (Inr (), k') \<and> at_rest k' \<and> co_generation k' = None" if k: "at_rest k" for k
  proof (cases "co_generation k")
    case None
    obtain quiet k' where s: "co_stop_speech E k = (Inr quiet, k')" "calm k k'" using stop_speech_ok by blast
    then have "at_rest k'" "co_generation k' = None" using calm_rest[OF _ k] None by (simp_all add: calm_def)
    with None s(1) rest_faulted show ?thesis by (simp add: seq_def ret_def update_def)
  next
    case (Some g)
    then have "live k" using k by (simp add: live_def at_rest_def)
    from fail_ok[OF this, of E "''capture.canceled''"] Some show ?thesis by auto
  qed
  have rest: "at_rest ?c" by (rule calm_rest[OF calm_invalidate assms])
  obtain c' where c': "?body (?c\<lparr>co_busy := True\<rparr>) = (Inr (), c')" "at_rest c'" "co_generation c' = None"
    using body[OF calm_rest[OF calm_busy rest]] by blast
  have "at_rest (c'\<lparr>co_busy := False\<rparr>)" using calm_rest[OF calm_busy c'(2)] .
  moreover have "co_cancel_locked E c = guarded () ?body ?c"
    by (simp add: co_cancel_locked_def seq_def[of "update co_invalidate"] update_def)
  moreover have "guarded () ?body ?c = (if co_busy c then (Inr (), ?c) else (Inr (), c'\<lparr>co_busy := False\<rparr>))"
    unfolding guarded_def c'(1) by (simp add: co_invalidate_def)
  ultimately show ?thesis using rest c'(3) by (cases "co_busy c") simp_all
qed

lemma cancel_locked_rest: "at_rest c \<Longrightarrow> at_rest (snd (co_cancel_locked E c))"
  using cancel_locked_ends[of c E] by auto

lemma cancel_rest: "at_rest c \<Longrightarrow> at_rest (snd (co_cancel E c))"
  using cancel_locked_rest[OF calm_rest[OF calm_cancel_enter]] by (simp add: co_cancel_def seq_def update_def)

lemma confirm_live:
  assumes "at_rest c" and "co_phase c = PIdle" and "session_begin (VStr ''command'') (co_owner c) = (Inr g, owner)"
  shows "live (c\<lparr>co_owner := owner, co_generation := Some g, co_pending_token := None\<rparr>)"
proof -
  let ?c = "c\<lparr>co_owner := owner, co_generation := Some g, co_pending_token := None\<rparr>"
  have "session_inv owner" using session_step_inv[of "co_owner c" "Begin (VStr ''command'')"] assms(1,3)
    by (simp add: at_rest_def co_inv_def owner_ok_def)
  moreover have "so_owner owner = Some g \<and> so_state owner = Owned"
    using assms(3) by (auto simp: session_begin_def Let_def split: if_splits)
  ultimately have "owner_ok ?c" using assms(2) by (simp add: owner_ok_def)
  moreover have "workers_ok ?c = workers_ok c" by (simp add: workers_ok_def)
  moreover have "history_ok ?c = history_ok c" by (rule history_ok_same) simp_all
  ultimately show ?thesis using assms(1) by (simp add: live_def at_rest_def co_inv_def)
qed

lemma confirm_inner_rest:
  assumes "at_rest c"
  shows "at_rest (snd (co_confirm_inner E token channel answer c))"
proof -
  let ?gate = "\<lambda>c. if co_phase c \<noteq> PIdle \<or> token = None \<or> token \<noteq> co_pending_token c \<or> channel \<notin> {''panel'', ''keyboard''}
               \<or> (case answer of VBool _ \<Rightarrow> False | _ \<Rightarrow> True)
            then ret False c else co_current E c"
  let ?body = "seq (co_router E) (\<lambda>r. seq (update (\<lambda>c. c\<lparr>co_code := vr_code r\<rparr>)) (\<lambda>_.
         seq (co_cleanup E) (\<lambda>clean. seq (co_release E clean) (\<lambda>_. ret r))))"
  let ?h = "\<lambda>e. seq (co_fail E ''context.stale'') (\<lambda>_. ret unavailable)"
  obtain r c1 where g: "?gate c = (r, c1)" by fastforce
  have "gentle ?gate" using gentle_current by (simp add: gentle_def ret_def)
  then have "calm c c1" using g by (rule gentleD)
  then have c1: "at_rest c1" "co_phase c1 = co_phase c" using calm_rest[OF _ assms] by (simp_all add: calm_def)
  have idle: "co_phase c = PIdle" if "r = Inr True" using g that by (auto simp: ret_def split: if_splits)
  have h: "\<exists>x c'. ?h e k = (Inr x, c') \<and> at_rest c'" if "live k" for e :: stop and k
    using fail_ok[OF that, of E "''context.stale''"] by (auto simp: seq_def ret_def)
  have body: "triple live ?body (\<lambda>_. at_rest)"
    by (intro triple_then[OF steady_live gentle_router] triple_then[OF steady_live gentle_code] triple_finish_then[OF steady_live])
  show ?thesis
  proof (cases "r = Inr True")
    case True
    obtain y owner where b: "session_begin (VStr ''command'') (co_owner c1) = (y, owner)" by fastforce
    show ?thesis
    proof (cases y)
      case (Inl e)
      with b have "owner = co_owner c1" using begin_refused by blast
      with g True b Inl c1 show ?thesis unfolding co_confirm_inner_def by (simp add: seq_def)
    next
      case (Inr n)
      let ?k = "c1\<lparr>co_owner := owner, co_generation := Some n, co_pending_token := None\<rparr>"
      have "live ?k" using confirm_live[OF c1(1)] c1(2) idle True b Inr by simp
      with body have "resting (?body ?k)" by (rule tripleD)
      from handled_rest[of ?body ?k ?h, OF this h] obtain x c2 where "handled ?body ?h ?k = (Inr x, c2)" "at_rest c2" by blast
      then show ?thesis using g True b Inr unfolding co_confirm_inner_def by (simp add: seq_def[of _ _ c] seq_def[of _ _ c1])
    qed
  next
    case False
    with g c1 show ?thesis unfolding co_confirm_inner_def by (cases r) (simp_all add: seq_def ret_def)
  qed
qed

lemma step_rest: "at_rest c \<Longrightarrow> at_rest (co_step rms E x c)"
proof (cases x)
  case (CallFeed g f n)
  assume "at_rest c"
  then show ?thesis using CallFeed guarded_rest[of c "co_feed_inner E g f n" "()"] feed_inner_rest
    by (simp add: co_feed_def) (metis snd_conv)
next
  case (CallTranscribed r)
  assume "at_rest c"
  then show ?thesis using CallTranscribed guarded_rest[of c "co_transcribed_inner E r" None] transcribed_inner_rest
    by (simp add: co_transcribed_def) (metis snd_conv)
next
  case (CallConfirm token channel answer)
  assume "at_rest c"
  then show ?thesis using CallConfirm guarded_rest[of c "co_confirm_inner E token channel answer" unavailable] confirm_inner_rest
    by (simp add: co_confirm_def)
qed (simp_all add: activate_rest poll_rest cancel_rest cancel_locked_rest calm_rest[OF call_calm])

lemma run_rest: "at_rest c \<Longrightarrow> at_rest (co_run rms E ops c)"
  unfolding co_run_def by (induction ops arbitrary: c) (simp_all add: step_rest)

section \<open>What a coordinator guarantees\<close>

lemma init_rest:
  assumes "co_init (session_init i) (capture_init k) t ob f src v sp = Inr c" and "config_wf k"
  shows "at_rest c \<and> \<not> co_busy c"
  using assms
  by (auto simp: co_init_def at_rest_def co_inv_def workers_ok_def history_ok_def owner_ok_def session_init_def
      session_inv_def capture_init_def capture_inv_def device_gone_def split: if_splits)

lemma fold_supervise_busy [simp]: "co_busy (fold supervise xs c) = co_busy c"
proof (induction xs arbitrary: c)
  case (Cons x xs)
  have "co_busy (supervise x c) = co_busy c" by (cases x) simp_all
  with Cons show ?case by simp
qed simp

lemma cancel_enter_busy [simp]: "co_busy (co_cancel_enter c) = co_busy c"
  by (simp add: co_cancel_enter_def split: option.splits)

lemma invalidate_busy [simp]: "co_busy (co_invalidate c) = co_busy c"
  by (simp add: co_invalidate_def)

lemma disturb_busy [simp]: "co_busy (disturb x c) = co_busy c"
  by (cases x) simp_all

lemma guarded_busy: "co_busy (snd (guarded x m c)) = co_busy c"
  by (simp add: guarded_def split: prod.splits)

lemma step_busy: "\<not> co_busy c \<Longrightarrow> \<not> co_busy (co_step rms E x c)"
  by (cases x) (simp_all add: guarded_busy co_activate_def co_feed_def co_transcribed_def co_poll_def co_confirm_def
      co_cancel_def co_cancel_locked_def co_call_def Let_def seq_def update_def ret_def)

lemma run_busy: "\<not> co_busy c \<Longrightarrow> \<not> co_busy (co_run rms E ops c)"
  unfolding co_run_def by (induction ops arbitrary: c) (simp_all add: step_busy)

text \<open>C20: The coordinator never claims a cleanup that did not happen, and the microphone is never live outside
  a capture. From a new coordinator, after any history of calls and any behaviour of the collaborators,
  with cancellations of other threads and of the callbacks at every point: each turn released as clean
  gave up a transcription job and a capture whose processes are settled; a turn released as not clean
  leaves the coordinator faulted; outside the capturing phase the capture process is settled, and
  outside a turn neither a job nor a capture is held; every text handed to the router is not blank and
  came from a job whose process is settled; and the session owner is owned by the turn, or idle, or
  faulted together with the coordinator.\<close>

theorem coordinator_quiesces:
  assumes "capture_config_init m a b d e = Inr k"
    and "co_init (session_init i) (capture_init k) t ob f src v sp = Inr c0"
    and "co_run rms E ops c0 = c"
  shows "(\<forall>(clean, j, dv) \<in> set (co_retired c). if clean then job_gone j \<and> device_gone dv else co_phase c = PFaulted)
    \<and> (co_phase c \<noteq> PCapturing \<longrightarrow> device_gone (co_device c))
    \<and> (co_phase c \<notin> {PCapturing, PProcessing} \<longrightarrow> co_job c = None \<and> co_device c = None)
    \<and> (\<forall>(t, j) \<in> set (co_routed c). job_gone (Some j) \<and> strip_cp t \<noteq> [])
    \<and> (if co_phase c \<in> {PCapturing, PProcessing} then so_owner (co_owner c) = co_generation c \<and> co_generation c \<noteq> None
       else so_state (co_owner c) = Idle \<or> so_state (co_owner c) = Faulted \<and> co_phase c = PFaulted)"
proof -
  have "at_rest c0" using init_rest[OF assms(2) capture_config_init_wf[OF assms(1)]] by simp
  then have c: "at_rest c" using run_rest assms(3) by blast
  then have hist: "history_ok c" and work: "workers_ok c" and own: "owner_ok c" by (simp_all add: at_rest_def co_inv_def)
  have gen: "co_generation c \<noteq> None \<longleftrightarrow> co_phase c \<in> {PCapturing, PProcessing}"
    and none: "co_generation c = None \<longrightarrow> co_job c = None \<and> co_device c = None"
    and route: "co_phase c \<noteq> PRouting"
    using c unfolding at_rest_def by blast+
  have "device_gone (co_device c)" if "co_phase c \<noteq> PCapturing"
    using that work none gen by (cases "co_phase c = PProcessing") (auto simp: workers_ok_def device_gone_def)
  moreover have "if co_phase c \<in> {PCapturing, PProcessing} then so_owner (co_owner c) = co_generation c \<and> co_generation c \<noteq> None
       else so_state (co_owner c) = Idle \<or> so_state (co_owner c) = Faulted \<and> co_phase c = PFaulted"
    using own gen by (cases "co_generation c") (simp_all add: owner_ok_def)
  ultimately show ?thesis using hist none gen unfolding history_ok_def by blast
qed

definition sample_moment :: moment where
  "sample_moment = \<lparr>mo_state = Gives (voice_raw ''a''), mo_now = Some (Fin 0), mo_uuid = ''u'', mo_now_ms = 5, mo_ok = True,
     mo_worker = Some sample_process, mo_io = sample_io (Some (process_result_of ''canceled'' [] ''process.canceled'')),
     mo_io2 = sample_io None, mo_backend = WNone, mo_reply = None, mo_samples = 1, mo_supervised = [],
     mo_disturbance = Calm\<rparr>"

definition sample_config :: capture_config where
  "sample_config = \<lparr>cc_max_ms = 2, cc_initial_silence_ms = 1, cc_short_silence_ms = 1, cc_long_silence_ms = 1,
     cc_long_utterance_ms = 1\<rparr>"

definition sample_coordinator :: coordinator where
  "sample_coordinator = (case co_init (session_init ''s'') (capture_init sample_config) True True (Some True) (VStr ''mic'')
     (Some \<lparr>ev_threshold = VFloat (Fin (1 / 2))\<rparr>) None of Inr c \<Rightarrow> c)"

definition sample_canceled :: coordinator where
  "sample_canceled = co_run (\<lambda>e. 0) (\<lambda>n. sample_moment) [CallActivate None, CallCancel] sample_coordinator"

lemma sample_coordinator_init:
  "co_init (session_init ''s'') (capture_init sample_config) True True (Some True) (VStr ''mic'')
     (Some \<lparr>ev_threshold = VFloat (Fin (1 / 2))\<rparr>) None = Inr sample_coordinator"
  by (simp add: sample_coordinator_def co_init_def)

lemma sample_config_init: "capture_config_init (VInt 2) (VInt 1) (VInt 1) (VInt 1) (VInt 1) = Inr sample_config"
  by code_simp

lemma sample_canceled_retired:
  "map (\<lambda>(clean, j, d). (clean, j = None, map_option pw_started d)) (co_retired sample_canceled) = [(True, True, Some True)]"
  by code_simp

theorem coordinator_quiesces_witness:
  "\<exists>d. co_retired sample_canceled = [(True, None, Some d)] \<and> pw_started d \<and> settled (pw_worker d) True"
proof -
  have "\<forall>(clean, j, dv) \<in> set (co_retired sample_canceled). if clean then job_gone j \<and> device_gone dv else co_phase sample_canceled = PFaulted"
    using coordinator_quiesces[OF sample_config_init sample_coordinator_init, of "\<lambda>e. 0" "\<lambda>n. sample_moment"
        "[CallActivate None, CallCancel]" sample_canceled] by (simp add: sample_canceled_def)
  with sample_canceled_retired show ?thesis by (auto simp: map_eq_Cons_conv device_gone_def)
qed

text \<open>C21: Cancellation always ends the turn. In every state a coordinator can reach, whatever the collaborators
  answer during the cancellation, \<open>cancel\<close> returns with no turn, no job and no capture held, and the
  coordinator is idle with an idle session owner, ready for the next activation, or it is faulted.\<close>

theorem coordinator_cancel_ends:
  assumes "capture_config_init m a b d e = Inr k"
    and "co_init (session_init i) (capture_init k) t ob f src v sp = Inr c0"
    and "co_cancel E' (co_run rms E ops c0) = (r, c)"
  shows "r = Inr () \<and> co_generation c = None \<and> co_job c = None \<and> co_device c = None \<and> \<not> co_busy c
    \<and> (co_phase c = PIdle \<and> so_state (co_owner c) = Idle \<or> co_phase c = PFaulted)"
proof -
  let ?c = "co_run rms E ops c0"
  have start: "at_rest c0" "\<not> co_busy c0" using init_rest[OF assms(2) capture_config_init_wf[OF assms(1)]] by simp_all
  then have "at_rest (co_cancel_enter ?c)" "\<not> co_busy ?c"
    using calm_rest[OF calm_cancel_enter] run_rest run_busy by blast+
  with cancel_locked_ends[of "co_cancel_enter ?c" E'] assms(3)
  have c: "r = Inr ()" "at_rest c" "co_generation c = None" by (auto simp: co_cancel_def seq_def update_def)
  moreover have "\<not> co_busy c" using step_busy[of ?c undefined E' CallCancel] \<open>\<not> co_busy ?c\<close> assms(3) by simp
  moreover have "owner_ok c" using c(2) by (simp add: at_rest_def co_inv_def)
  ultimately show ?thesis using rest_idle[OF c(2,3)] by (auto simp: at_rest_def owner_ok_def)
qed

theorem coordinator_cancel_ends_witness:
  "co_generation sample_canceled = None
    \<and> (co_phase sample_canceled = PIdle \<and> so_state (co_owner sample_canceled) = Idle \<or> co_phase sample_canceled = PFaulted)"
proof -
  let ?c = "co_run (\<lambda>e. 0) (\<lambda>n. sample_moment) [CallActivate None] sample_coordinator"
  have "co_cancel (\<lambda>n. sample_moment) ?c = (fst (co_cancel (\<lambda>n. sample_moment) ?c), sample_canceled)"
    by (simp add: sample_canceled_def co_run_def)
  from coordinator_cancel_ends[OF sample_config_init sample_coordinator_init this] show ?thesis by simp
qed

end
