(* ===== verification/Menu_Executor.thy ===== *)
theory Menu_Executor
  imports Control_Plane
begin

text \<open>
  The desktop executor of \<open>src/runtime/voice/menu.py\<close>: one command, one fixed argument vector. What
  \<open>subprocess.run\<close> does is an argument.
\<close>

datatype menu_run = NotFound | RunFails | Returned int

definition menu_error :: "string \<Rightarrow> string \<Rightarrow> string \<Rightarrow> outcome" where
  "menu_error status cd message = \<lparr>oc_status = status, oc_output = [],
     oc_error = Some \<lparr>err_version = 1, err_code = cd, err_message = message, err_retryable = False\<rparr>\<rparr>"

definition menu_argv :: "string list" where
  "menu_argv = [''/usr/share/omarchy/bin/omarchy'', ''menu'', ''summon'', ''root'']"

definition menu_accepts :: "rec \<Rightarrow> bool" where
  "menu_accepts r = (case Contracts.snapshot r of
     Inr (RCommand c) \<Rightarrow> cmd_capability_id c = ''menu.open'' \<and> cmd_arguments c = [(''name'', VStr ''main'')]
   | _ \<Rightarrow> False)"

text \<open>The outcome, and the argument vector that was run.\<close>

definition menu_executor :: "menu_run \<Rightarrow> rec \<Rightarrow> outcome \<times> string list option" where
  "menu_executor run r =
    (if \<not> menu_accepts r
     then (menu_error ''failed'' ''menu.unsupported'' ''Only the root Omarchy menu action is supported'', None)
     else (case run of
         NotFound \<Rightarrow> menu_error ''failed'' ''menu.unavailable'' ''Omarchy executable is unavailable''
       | RunFails \<Rightarrow> menu_error ''uncertain'' ''menu.uncertain'' ''Menu request outcome is unknown; inspect before retry''
       | Returned n \<Rightarrow>
           if n \<noteq> 0 then menu_error ''uncertain'' ''menu.uncertain'' ''Menu request was not acknowledged; inspect before retry''
           else \<lparr>oc_status = ''success'',
             oc_output = [(''mode'', VStr ''live''), (''request_acknowledged'', VBool True), (''visibility_verified'', VBool False)],
             oc_error = None\<rparr>, Some menu_argv))"

lemma menu_executor_runs:
  "menu_executor run r = (oc, Some argv) \<Longrightarrow> menu_accepts r \<and> argv = menu_argv \<and> (oc_status oc = ''success'' \<longleftrightarrow> run = Returned 0)"
  by (auto simp: menu_executor_def menu_error_def split: if_splits menu_run.splits)

lemma menu_executor_status: "oc_status (fst (menu_executor run r)) \<in> set executor_statuses"
  by (auto simp: menu_executor_def menu_error_def executor_statuses_def split: menu_run.splits)

end
