(* ===== verification/Gateway_Wire.thy ===== *)
theory Gateway_Wire
  imports Contracts Voice_Workers
begin

text \<open>
  The wire boundary of the model gateway, \<open>src/runtime/gateway/wire.py\<close>, over the bundled schema
  \<open>src/schemas/gateway-v1.json\<close>: the schema checker, the bounded JSON reader, and the parsers and
  printers of requests and responses. The syntax of JSON is the library's: \<open>parse\<close> answers the parse
  tree of a text, \<open>dumps\<close> the bytes of \<open>json.dumps\<close>. Every failure is a fixed public code.
\<close>

section \<open>The schema checker\<close>

datatype gtype = GObject | GArray | GString | GInteger | GNumber | GNull

datatype gschema = Schema "gkey list"
and gkey =
    Type gtype
  | Const pyv
  | Enum "string list"
  | Required "string list"
  | Properties "(string \<times> gschema) list"
  | Closed "string list"
  | Items nat nat gschema
  | UniqueItems
  | MinLength nat
  | PatternId
  | Range int int
  | AllOf "gschema list"
  | OneOf "gschema list"
  | Not gschema
  | IfThen gschema gschema

text \<open>A reference \<open>$ref\<close> is replaced by the definition it names, \<open>additionalProperties: false\<close> by the names
  of the properties beside it. Every exception of the checker ends in the same public code, and no
  exception but \<open>ValueError\<close> can come from a schema under \<open>not\<close>, \<open>if\<close>, or the first branch of \<open>oneOf\<close>.\<close>

definition type_ok :: "gtype \<Rightarrow> pyv \<Rightarrow> bool" where
  "type_ok t v = (case (t, v) of
     (GObject, VDict _) \<Rightarrow> True | (GArray, VList _) \<Rightarrow> True | (GString, VStr _) \<Rightarrow> True
   | (GInteger, VInt _) \<Rightarrow> True | (GNull, VNone) \<Rightarrow> True
   | (GNumber, VInt _) \<Rightarrow> True | (GNumber, VFloat (Fin _)) \<Rightarrow> True
   | _ \<Rightarrow> False)"

definition in_range :: "int \<Rightarrow> int \<Rightarrow> pyv \<Rightarrow> bool" where
  "in_range lo hi v = (case v of
     VInt i \<Rightarrow> lo \<le> i \<and> i \<le> hi
   | VFloat (Fin r) \<Rightarrow> of_int lo \<le> r \<and> r \<le> of_int hi
   | _ \<Rightarrow> True)"

lemma size_map_of_less [termination_simp]:
  "map_of d k = Some (x::gschema) \<Longrightarrow> size x < Suc (size_list (size_prod (\<lambda>x. 0) size) d)"
  by (induction d) (auto split: if_splits)

fun conforms :: "gschema \<Rightarrow> pyv \<Rightarrow> bool" and conforms_key :: "gkey \<Rightarrow> pyv \<Rightarrow> bool" where
  "conforms (Schema ks) v = list_all (\<lambda>k. conforms_key k v) ks"
| "conforms_key (Type t) v = type_ok t v"
| "conforms_key (Const c) v = (v = c)"
| "conforms_key (Enum names) v = (case v of VStr s \<Rightarrow> s \<in> set names | _ \<Rightarrow> False)"
| "conforms_key (Required names) v = (case v of VDict d \<Rightarrow> set names \<subseteq> set (map fst d) | _ \<Rightarrow> True)"
| "conforms_key (Properties props) v = (case v of
     VDict d \<Rightarrow> list_all (\<lambda>(k, x). case map_of props k of Some s \<Rightarrow> conforms s x | None \<Rightarrow> True) d
   | _ \<Rightarrow> True)"
| "conforms_key (Closed names) v = (case v of VDict d \<Rightarrow> set (map fst d) \<subseteq> set names | _ \<Rightarrow> True)"
| "conforms_key (Items lo hi s) v = (case v of
     VList vs \<Rightarrow> lo \<le> length vs \<and> length vs \<le> hi \<and> list_all (conforms s) vs
   | _ \<Rightarrow> True)"
| "conforms_key UniqueItems v = (case v of VList vs \<Rightarrow> distinct vs | _ \<Rightarrow> True)"
| "conforms_key (MinLength n) v = (case v of VStr s \<Rightarrow> n \<le> length s | _ \<Rightarrow> True)"
| "conforms_key PatternId v = (case v of VStr s \<Rightarrow> id_pattern s | _ \<Rightarrow> True)"
| "conforms_key (Range lo hi) v = in_range lo hi v"
| "conforms_key (AllOf ss) v = list_all (\<lambda>s. conforms s v) ss"
| "conforms_key (OneOf ss) v = (length (filter (\<lambda>s. conforms s v) ss) = 1)"
| "conforms_key (Not s) v = (\<not> conforms s v)"
| "conforms_key (IfThen s t) v = (conforms s v \<longrightarrow> conforms t v)"

subsection \<open>The bundled schema\<close>

definition g_id :: gschema where
  "g_id = Schema [Type GString, PatternId]"

definition g_revision :: gschema where
  "g_revision = Schema [Type GInteger, Range 1 9007199254740991]"

definition g_service :: gschema where
  "g_service = Schema [Enum [''llm'', ''evaluator'', ''tts'']]"

definition gateway_codes :: "string list" where
  "gateway_codes = [''authentication'', ''identity'', ''invalid_request'', ''invalid_response'', ''unavailable'',
     ''provider_failed'', ''timeout'', ''canceled'', ''replay'', ''exhausted'', ''busy'', ''cleanup'', ''clock'',
     ''stale_catalog'']"

definition g_text :: gschema where
  "g_text = Schema [Type GString]"

definition g_member :: gschema where
  "g_member = Schema [OneOf [Schema [Type GNull], g_id]]"

definition g_object :: "(string \<times> gschema) list \<Rightarrow> gschema" where
  "g_object props = Schema [Type GObject, Closed (map fst props), Required (map fst props), Properties props]"

definition g_llm_input :: gschema where
  "g_llm_input = g_object [(''text'', g_text), (''context'', g_text),
     (''candidates'', Schema [Type GArray, Items 0 32 g_id, UniqueItems])]"

definition g_candidate :: gschema where
  "g_candidate = g_object [(''candidate_id'', g_id), (''text'', g_text)]"

definition g_evaluator_input :: gschema where
  "g_evaluator_input = g_object [(''context'', g_text), (''candidates'', Schema [Type GArray, Items 1 32 g_candidate])]"

definition g_tts_input :: gschema where
  "g_tts_input = g_object [(''text'', Schema [Type GString, MinLength 1]), (''voice'', g_id)]"

definition g_llm_output :: gschema where
  "g_llm_output = g_object [(''text'', g_text), (''candidate_id'', g_member)]"

definition g_score :: gschema where
  "g_score = g_object [(''candidate_id'', g_id), (''score'', Schema [Type GNumber, Range 0 1])]"

definition g_evaluator_output :: gschema where
  "g_evaluator_output = g_object [(''scores'', Schema [Type GArray, Items 1 32 g_score]), (''selected_id'', g_member)]"

definition g_tts_output :: gschema where
  "g_tts_output = g_object [(''pcm_b64'', Schema [Type GString, MinLength 4]),
     (''sample_rate'', Schema [Type GInteger, Const (VInt 24000)]), (''channels'', Schema [Type GInteger, Const (VInt 1)]),
     (''sample_width'', Schema [Type GInteger, Const (VInt 2)])]"

definition g_when :: "string \<Rightarrow> string \<Rightarrow> gschema \<Rightarrow> gschema" where
  "g_when service field s = Schema [IfThen (Schema [Properties [(''service'', Schema [Const (VStr service)])]])
     (Schema [Properties [(field, s)]])]"

definition g_identity :: "(string \<times> gschema) list" where
  "g_identity = [(''version'', Schema [Type GInteger, Const (VInt 1)]), (''request_id'', g_id), (''service'', g_service),
     (''provider_id'', g_id), (''model_version'', g_id), (''catalog_version'', g_revision)]"

definition g_request :: gschema where
  "g_request =
    (let props = g_identity @ [(''budget_ms'', Schema [Type GInteger, Range 1 30000]), (''payload'', Schema [Type GObject])]
     in Schema [Type GObject, Closed (map fst props), Required (map fst props), Properties props,
          AllOf [g_when ''llm'' ''payload'' g_llm_input, g_when ''evaluator'' ''payload'' g_evaluator_input,
            g_when ''tts'' ''payload'' g_tts_input]])"

definition g_response :: gschema where
  "g_response =
    (let props = g_identity @ [(''status'', Schema [Enum [''ok'', ''error'']]), (''result'', Schema [Type GObject]),
           (''code'', Schema [Enum gateway_codes])]
     in Schema [Type GObject, Closed (map fst props), Required (map fst g_identity @ [''status'']), Properties props,
          OneOf [
            Schema [Properties [(''status'', Schema [Const (VStr ''error'')])], Required [''code''],
              Not (Schema [Required [''result'']])],
            Schema [Properties [(''status'', Schema [Const (VStr ''ok'')])], Required [''result''],
              Not (Schema [Required [''code'']]),
              AllOf [g_when ''llm'' ''result'' g_llm_output, g_when ''evaluator'' ''result'' g_evaluator_output,
                g_when ''tts'' ''result'' g_tts_output]]]])"

section \<open>Reading JSON within bounds\<close>

fun children :: "pyv \<Rightarrow> pyv list" where
  "children (VDict d) = map snd d"
| "children (VList vs) = vs"
| "children _ = []"

text \<open>The loop over the explicit stack, whose top is the head of the list.\<close>

function walk :: "(pyv \<times> int) list \<Rightarrow> int \<Rightarrow> bool" where
  "walk [] nodes = True"
| "walk ((item, depth) # stack) nodes =
    (if depth > 8 \<or> nodes + 1 > 4096 then False
     else walk (rev (map (\<lambda>v. (v, depth + 1)) (children item)) @ stack) (nodes + 1))"
  by pat_completeness auto
termination by (relation "measure (\<lambda>(stack, nodes). nat (4097 - nodes))") auto

definition load :: "(codepoints \<Rightarrow> jdoc option) \<Rightarrow> byte list option \<Rightarrow> int \<Rightarrow> pyv option" where
  "load parse raw limit =
    (case raw of
       None \<Rightarrow> None
     | Some bs \<Rightarrow>
         if int (length bs) > limit then None
         else case Option.bind (utf8 (map uint bs)) parse of
           None \<Rightarrow> None
         | Some doc \<Rightarrow>
             if doc_ok doc \<noteq> None then None
             else if walk [(doc_value doc, 0)] 0 then Some (doc_value doc) else None)"

definition utf8_size :: "string \<Rightarrow> int" where
  "utf8_size s = sum_list (map (\<lambda>c. if code c < 128 then 1 else 2) s)"

fun text_size :: "pyv \<Rightarrow> int" where
  "text_size (VStr s) = utf8_size s"
| "text_size (VDict d) = sum_list (map (\<lambda>(k, v). text_size v) d)"
| "text_size (VList vs) = sum_list (map text_size vs)"
| "text_size _ = 0"

section \<open>Requests\<close>

datatype gateway_payload =
    LlmInput string string "string list"
  | EvaluationInput string "(string \<times> string) list"
  | SpeechInput string string

record gateway_request =
  gq_request_id :: string
  gq_provider_id :: string
  gq_model_version :: string
  gq_catalog_version :: int
  gq_budget_ms :: int
  gq_payload :: gateway_payload

fun payload_service :: "gateway_payload \<Rightarrow> string" where
  "payload_service (LlmInput t c cs) = ''llm''"
| "payload_service (EvaluationInput c cs) = ''evaluator''"
| "payload_service (SpeechInput t v) = ''tts''"

definition service :: "gateway_request \<Rightarrow> string" where
  "service q = payload_service (gq_payload q)"

definition field :: "pyv \<Rightarrow> string \<Rightarrow> pyv option" where
  "field v k = (case v of VDict d \<Rightarrow> map_of d k | _ \<Rightarrow> None)"

definition str_field :: "pyv \<Rightarrow> string \<Rightarrow> string option" where
  "str_field v k = (case field v k of Some (VStr s) \<Rightarrow> Some s | _ \<Rightarrow> None)"

definition int_field :: "pyv \<Rightarrow> string \<Rightarrow> int option" where
  "int_field v k = (case field v k of Some (VInt i) \<Rightarrow> Some i | _ \<Rightarrow> None)"

definition list_field :: "pyv \<Rightarrow> string \<Rightarrow> pyv list option" where
  "list_field v k = (case field v k of Some (VList vs) \<Rightarrow> Some vs | _ \<Rightarrow> None)"

definition catalog_revision :: "pyv \<Rightarrow> string + int" where
  "catalog_revision v = (if conforms g_revision v then (case v of VInt i \<Rightarrow> Inr i | _ \<Rightarrow> Inl ''stale_catalog'')
     else Inl ''stale_catalog'')"

definition as_str :: "pyv \<Rightarrow> string option" where
  "as_str v = (case v of VStr s \<Rightarrow> Some s | _ \<Rightarrow> None)"

definition read_candidate :: "pyv \<Rightarrow> (string \<times> string) option" where
  "read_candidate v = do { i \<leftarrow> str_field v ''candidate_id''; t \<leftarrow> str_field v ''text''; Some (i, t) }"

definition read_payload :: "string \<Rightarrow> pyv \<Rightarrow> gateway_payload option" where
  "read_payload svc p =
    (if svc = ''llm'' then do {
       t \<leftarrow> str_field p ''text''; c \<leftarrow> str_field p ''context'';
       vs \<leftarrow> list_field p ''candidates''; cs \<leftarrow> those (map as_str vs);
       Some (LlmInput t c cs) }
     else if svc = ''evaluator'' then do {
       vs \<leftarrow> list_field p ''candidates''; cs \<leftarrow> those (map read_candidate vs);
       c \<leftarrow> str_field p ''context'';
       if distinct (map fst cs) then Some (EvaluationInput c cs) else None }
     else do { t \<leftarrow> str_field p ''text''; v \<leftarrow> str_field p ''voice''; Some (SpeechInput t v) })"

definition read_request :: "pyv \<Rightarrow> gateway_request option" where
  "read_request doc = do {
     payload \<leftarrow> field doc ''payload'';
     if text_size payload > 32768 then None
     else do {
       svc \<leftarrow> str_field doc ''service'';
       parsed \<leftarrow> read_payload svc payload;
       i \<leftarrow> str_field doc ''request_id''; p \<leftarrow> str_field doc ''provider_id''; m \<leftarrow> str_field doc ''model_version'';
       c \<leftarrow> int_field doc ''catalog_version''; b \<leftarrow> int_field doc ''budget_ms'';
       Some \<lparr>gq_request_id = i, gq_provider_id = p, gq_model_version = m, gq_catalog_version = c, gq_budget_ms = b,
         gq_payload = parsed\<rparr> } }"

definition parse_request :: "(codepoints \<Rightarrow> jdoc option) \<Rightarrow> byte list option \<Rightarrow> string + gateway_request" where
  "parse_request parse raw =
    (case load parse raw 65536 of
       None \<Rightarrow> Inl ''invalid_request''
     | Some doc \<Rightarrow>
         if \<not> conforms g_request doc then Inl ''invalid_request''
         else (case read_request doc of None \<Rightarrow> Inl ''invalid_request'' | Some q \<Rightarrow> Inr q))"

definition envelope :: "gateway_request \<Rightarrow> bag" where
  "envelope q = [(''version'', VInt 1), (''request_id'', VStr (gq_request_id q)), (''service'', VStr (service q)),
     (''provider_id'', VStr (gq_provider_id q)), (''model_version'', VStr (gq_model_version q)),
     (''catalog_version'', VInt (gq_catalog_version q))]"

definition candidate_dict :: "string \<times> string \<Rightarrow> pyv" where
  "candidate_dict c = VDict [(''candidate_id'', VStr (fst c)), (''text'', VStr (snd c))]"

fun payload_dict :: "gateway_payload \<Rightarrow> pyv" where
  "payload_dict (LlmInput t c cs) = VDict [(''text'', VStr t), (''context'', VStr c), (''candidates'', VTuple (map VStr cs))]"
| "payload_dict (EvaluationInput c cs) = VDict [(''context'', VStr c), (''candidates'', VTuple (map candidate_dict cs))]"
| "payload_dict (SpeechInput t v) = VDict [(''text'', VStr t), (''voice'', VStr v)]"

text \<open>\<open>dumps\<close> is \<open>None\<close> when \<open>json.dumps\<close> or the encoding raises.\<close>

definition request_doc :: "gateway_request \<Rightarrow> pyv" where
  "request_doc q = VDict (envelope q @ [(''budget_ms'', VInt (gq_budget_ms q)), (''payload'', payload_dict (gq_payload q))])"

definition request_bytes ::
  "(pyv \<Rightarrow> byte list option) \<Rightarrow> (codepoints \<Rightarrow> jdoc option) \<Rightarrow> gateway_request \<Rightarrow> string + byte list" where
  "request_bytes dumps parse q =
    (case dumps (request_doc q) of
       None \<Rightarrow> Inl ''invalid_request''
     | Some raw \<Rightarrow> (case parse_request parse (Some raw) of Inl e \<Rightarrow> Inl ''invalid_request'' | Inr _ \<Rightarrow> Inr raw))"

section \<open>Base64\<close>

definition b64_alphabet :: string where
  "b64_alphabet = ''ABCDEFGHIJKLMNOPQRSTUVWXYZabcdefghijklmnopqrstuvwxyz0123456789+/''"

definition b64_char :: "int \<Rightarrow> char" where
  "b64_char i = b64_alphabet ! nat i"

fun position :: "'a \<Rightarrow> 'a list \<Rightarrow> int option" where
  "position x [] = None"
| "position x (y # ys) = (if x = y then Some 0 else map_option (\<lambda>i. i + 1) (position x ys))"

definition b64_index :: "char \<Rightarrow> int option" where
  "b64_index c = position c b64_alphabet"

fun b64encode :: "byte list \<Rightarrow> string" where
  "b64encode [] = []"
| "b64encode [a] = (let n = uint a * 16 in [b64_char (n div 64), b64_char (n mod 64), CHR ''='', CHR ''=''])"
| "b64encode [a, b] = (let n = (uint a * 256 + uint b) * 4
     in [b64_char (n div 4096), b64_char (n div 64 mod 64), b64_char (n mod 64), CHR ''=''])"
| "b64encode (a # b # c # bs) = (let n = (uint a * 256 + uint b) * 256 + uint c
     in b64_char (n div 262144) # b64_char (n div 4096 mod 64) # b64_char (n div 64 mod 64) # b64_char (n mod 64)
        # b64encode bs)"

text \<open>\<open>b64decode(text, validate=True)\<close>; bits beyond the last byte are ignored.\<close>

fun b64decode :: "string \<Rightarrow> byte list option" where
  "b64decode [] = Some []"
| "b64decode (w # x # y # z # cs) =
    (if y = CHR ''='' \<and> z = CHR ''='' \<and> cs = [] then do {
       i \<leftarrow> b64_index w; j \<leftarrow> b64_index x;
       Some [word_of_int ((i * 64 + j) div 16)] }
     else if z = CHR ''='' \<and> cs = [] then do {
       i \<leftarrow> b64_index w; j \<leftarrow> b64_index x; k \<leftarrow> b64_index y;
       let n = ((i * 64 + j) * 64 + k) div 4 in Some [word_of_int (n div 256), word_of_int (n mod 256)] }
     else do {
       i \<leftarrow> b64_index w; j \<leftarrow> b64_index x; k \<leftarrow> b64_index y; l \<leftarrow> b64_index z; bs \<leftarrow> b64decode cs;
       let n = ((i * 64 + j) * 64 + k) * 64 + l
       in Some (word_of_int (n div 65536) # word_of_int (n div 256 mod 256) # word_of_int (n mod 256) # bs) })"
| "b64decode _ = None"

section \<open>Responses\<close>

text \<open>A score that is no number has no reply: the schema refuses it in either direction.\<close>

datatype score = ScoreInt int | ScoreFloat pyfloat

datatype gateway_reply =
    LlmOutput string "string option"
  | EvaluationOutput "(string \<times> score) list" "string option"
  | SpeechOutput "byte list"
  | RemoteError string

definition member_field :: "pyv \<Rightarrow> string \<Rightarrow> string option option" where
  "member_field v k = (case field v k of Some VNone \<Rightarrow> Some None | Some (VStr s) \<Rightarrow> Some (Some s) | _ \<Rightarrow> None)"

definition as_score :: "pyv \<Rightarrow> score option" where
  "as_score v = (case v of VInt i \<Rightarrow> Some (ScoreInt i) | VFloat f \<Rightarrow> Some (ScoreFloat f) | _ \<Rightarrow> None)"

definition score_value :: "score \<Rightarrow> pyv" where
  "score_value x = (case x of ScoreInt i \<Rightarrow> VInt i | ScoreFloat f \<Rightarrow> VFloat f)"

definition read_score :: "pyv \<Rightarrow> (string \<times> score) option" where
  "read_score v = do { i \<leftarrow> str_field v ''candidate_id''; u \<leftarrow> field v ''score''; x \<leftarrow> as_score u; Some (i, x) }"

fun read_result :: "gateway_payload \<Rightarrow> pyv \<Rightarrow> gateway_reply option" where
  "read_result (LlmInput t c cs) result = do {
     selected \<leftarrow> member_field result ''candidate_id'';
     if (case selected of None \<Rightarrow> False | Some i \<Rightarrow> i \<notin> set cs) then None
     else do { u \<leftarrow> str_field result ''text''; Some (LlmOutput u selected) } }"
| "read_result (EvaluationInput c cs) result = do {
     vs \<leftarrow> list_field result ''scores''; scores \<leftarrow> those (map read_score vs);
     selected \<leftarrow> member_field result ''selected_id'';
     if \<not> distinct (map fst scores) \<or> set (map fst scores) \<noteq> set (map fst cs)
        \<or> (case selected of None \<Rightarrow> False | Some i \<Rightarrow> i \<notin> set (map fst scores)) then None
     else Some (EvaluationOutput scores selected) }"
| "read_result (SpeechInput t v) result = do {
     text \<leftarrow> str_field result ''pcm_b64''; pcm \<leftarrow> b64decode text;
     if pcm = [] \<or> int (length pcm) > 480000 \<or> odd (length pcm) \<or> b64encode pcm \<noteq> text then None
     else Some (SpeechOutput pcm) }"

definition same_envelope :: "gateway_request \<Rightarrow> pyv \<Rightarrow> bool" where
  "same_envelope q doc = list_all (\<lambda>(k, v). field doc k = Some v) (envelope q)"

definition response_limit :: "gateway_request \<Rightarrow> int" where
  "response_limit q = (if service q = ''tts'' then 1048576 else 65536)"

definition parse_response ::
  "(codepoints \<Rightarrow> jdoc option) \<Rightarrow> byte list option \<Rightarrow> gateway_request \<Rightarrow> string + gateway_reply" where
  "parse_response parse raw q =
    (case load parse raw (response_limit q) of
       None \<Rightarrow> Inl ''invalid_response''
     | Some doc \<Rightarrow>
         if \<not> conforms g_response doc \<or> \<not> same_envelope q doc then Inl ''invalid_response''
         else if field doc ''status'' = Some (VStr ''error'')
         then (case str_field doc ''code'' of Some c \<Rightarrow> Inr (RemoteError c) | None \<Rightarrow> Inl ''invalid_response'')
         else (case Option.bind (field doc ''result'') (read_result (gq_payload q)) of
                 Some r \<Rightarrow> Inr r | None \<Rightarrow> Inl ''invalid_response''))"

definition member_value :: "string option \<Rightarrow> pyv" where
  "member_value m = (case m of None \<Rightarrow> VNone | Some i \<Rightarrow> VStr i)"

definition score_dict :: "string \<times> score \<Rightarrow> pyv" where
  "score_dict s = VDict [(''candidate_id'', VStr (fst s)), (''score'', score_value (snd s))]"

fun reply_fields :: "gateway_reply \<Rightarrow> bag" where
  "reply_fields (RemoteError c) = [(''status'', VStr ''error''), (''code'', VStr c)]"
| "reply_fields (SpeechOutput pcm) = [(''status'', VStr ''ok''), (''result'', VDict [(''pcm_b64'', VStr (b64encode pcm)),
     (''sample_rate'', VInt 24000), (''channels'', VInt 1), (''sample_width'', VInt 2)])]"
| "reply_fields (LlmOutput t m) = [(''status'', VStr ''ok''),
     (''result'', VDict [(''text'', VStr t), (''candidate_id'', member_value m)])]"
| "reply_fields (EvaluationOutput scores m) = [(''status'', VStr ''ok''),
     (''result'', VDict [(''scores'', VTuple (map score_dict scores)), (''selected_id'', member_value m)])]"

definition response_doc :: "gateway_request \<Rightarrow> gateway_reply \<Rightarrow> pyv" where
  "response_doc q r = VDict (envelope q @ reply_fields r)"

definition response_bytes ::
  "(pyv \<Rightarrow> byte list option) \<Rightarrow> (codepoints \<Rightarrow> jdoc option) \<Rightarrow> gateway_request \<Rightarrow> gateway_reply \<Rightarrow> string + byte list" where
  "response_bytes dumps parse q r =
    (case dumps (response_doc q r) of
       None \<Rightarrow> Inl ''invalid_response''
     | Some raw \<Rightarrow> (case parse_response parse (Some raw) q of Inl e \<Rightarrow> Inl ''invalid_response'' | Inr _ \<Rightarrow> Inr raw))"

section \<open>Base64 is lossless\<close>

lemma b64_index_char: "0 \<le> i \<Longrightarrow> i < 64 \<Longrightarrow> b64_index (b64_char i) = Some i \<and> b64_char i \<noteq> CHR ''=''"
proof -
  have "list_all (\<lambda>i. b64_index (b64_char (int i)) = Some (int i) \<and> b64_char (int i) \<noteq> CHR ''='') [0..<64]" by code_simp
  moreover assume "0 \<le> i" "i < 64"
  then have "nat i \<in> set [0..<64]" by auto
  ultimately show ?thesis using \<open>0 \<le> i\<close> unfolding list_all_iff by fastforce
qed

lemma byte_bounds: "0 \<le> uint (a :: byte) \<and> uint a < 256"
  using uint_lt2p[of a] by simp

lemma digits64:
  fixes n :: int
  shows "n div 64 * 64 + n mod 64 = n" "n div 4096 * 64 + n div 64 mod 64 = n div 64"
    "n div 262144 * 64 + n div 4096 mod 64 = n div 4096"
  using zdiv_zmult2_eq[of 64 n 64] zdiv_zmult2_eq[of 64 n 4096] by simp_all

lemma digits256:
  fixes q r :: int
  assumes "0 \<le> r" "r < 256"
  shows "(q * 256 + r) div 256 = q" "(q * 256 + r) mod 256 = r"
  using assms by simp_all

lemma b64decode_groups:
  assumes "b64_index w = Some i" and "b64_index x = Some j"
  shows "b64decode [w, x, CHR ''='', CHR ''=''] = Some [word_of_int ((i * 64 + j) div 16)]"
    and "b64_index y = Some k \<Longrightarrow> y \<noteq> CHR ''='' \<Longrightarrow> b64decode [w, x, y, CHR ''=''] =
      Some [word_of_int (((i * 64 + j) * 64 + k) div 4 div 256), word_of_int (((i * 64 + j) * 64 + k) div 4 mod 256)]"
    and "b64_index y = Some k \<Longrightarrow> b64_index z = Some l \<Longrightarrow> z \<noteq> CHR ''='' \<Longrightarrow> ((i * 64 + j) * 64 + k) * 64 + l = n
      \<Longrightarrow> b64decode (w # x # y # z # cs) = map_option (\<lambda>bs. word_of_int (n div 65536) # word_of_int (n div 256 mod 256)
          # word_of_int (n mod 256) # bs) (b64decode cs)"
  using assms by (auto simp: Let_def map_option_case split: option.splits)

lemma b64_roundtrip: "b64decode (b64encode bs) = Some bs"
proof (induction bs rule: b64encode.induct)
  case (2 a)
  let ?n = "uint a * 16"
  have n: "0 \<le> ?n div 64" "?n div 64 < 64" using byte_bounds[of a] by (simp_all add: pos_imp_zdiv_nonneg_iff)
  have "(?n div 64 * 64 + ?n mod 64) div 16 = uint a" unfolding digits64 by simp
  then show ?case unfolding b64encode.simps Let_def
    using b64decode_groups(1)[OF conjunct1[OF b64_index_char[OF n]] conjunct1[OF b64_index_char[of "?n mod 64"]]] by simp
next
  case (3 a b)
  define n where "n = (uint a * 256 + uint b) * 4"
  have n: "0 \<le> n div 4096" "n div 4096 < 64" "0 \<le> n div 64 mod 64" "n div 64 mod 64 < 64" "0 \<le> n mod 64" "n mod 64 < 64"
    using byte_bounds[of a] byte_bounds[of b] by (simp_all add: n_def pos_imp_zdiv_nonneg_iff)
  have "(n div 4096 * 64 + n div 64 mod 64) * 64 + n mod 64 = n" by (simp only: digits64)
  moreover have "n div 4 = uint a * 256 + uint b" by (simp add: n_def)
  ultimately have "((n div 4096 * 64 + n div 64 mod 64) * 64 + n mod 64) div 4 = uint a * 256 + uint b" by simp
  from b64decode_groups(2)[OF conjunct1[OF b64_index_char[OF n(1,2)]] conjunct1[OF b64_index_char[OF n(3,4)]]
      conjunct1[OF b64_index_char[OF n(5,6)]] conjunct2[OF b64_index_char[OF n(5,6)]], unfolded this]
  show ?case unfolding b64encode.simps Let_def n_def[symmetric] using digits256[of "uint b" "uint a"] byte_bounds[of b] by simp
next
  case (4 a b c bs)
  define m where "m = uint a * 256 + uint b"
  define n where "n = m * 256 + uint c"
  have m: "m div 256 = uint a" "m mod 256 = uint b" using byte_bounds[of b] digits256[of "uint b" "uint a"] by (simp_all add: m_def)
  have c: "n div 256 = m" "n mod 256 = uint c" using byte_bounds[of c] digits256[of "uint c" m] by (simp_all add: n_def)
  have parts: "n div 65536 = uint a" "n div 256 mod 256 = uint b" "n mod 256 = uint c"
    using m c zdiv_zmult2_eq[of 256 n 256] by simp_all
  have n: "0 \<le> n div 262144" "n div 262144 < 64" "0 \<le> n div 4096 mod 64" "n div 4096 mod 64 < 64"
      "0 \<le> n div 64 mod 64" "n div 64 mod 64 < 64" "0 \<le> n mod 64" "n mod 64 < 64"
    using byte_bounds[of a] byte_bounds[of b] byte_bounds[of c] by (simp_all add: n_def m_def pos_imp_zdiv_nonneg_iff)
  have "((n div 262144 * 64 + n div 4096 mod 64) * 64 + n div 64 mod 64) * 64 + n mod 64 = n" by (simp only: digits64)
  note g = b64decode_groups(3)[OF conjunct1[OF b64_index_char[OF n(1,2)]] conjunct1[OF b64_index_char[OF n(3,4)]]
      conjunct1[OF b64_index_char[OF n(5,6)]] conjunct1[OF b64_index_char[OF n(7,8)]] conjunct2[OF b64_index_char[OF n(7,8)]] this,
      of "b64encode bs"]
  have "b64decode (b64encode bs) = Some bs" using 4 by simp
  then show ?case unfolding b64encode.simps Let_def m_def[symmetric] n_def[symmetric]
    by (simp only: g parts option.map word_of_int_uint)
qed simp

section \<open>The bounds of a document\<close>

fun height :: "pyv \<Rightarrow> int" where
  "height (VDict d) = foldr (\<lambda>(k, v) m. max (1 + height v) m) d 0"
| "height (VList vs) = foldr (\<lambda>v m. max (1 + height v) m) vs 0"
| "height _ = 0"

fun node_count :: "pyv \<Rightarrow> int" where
  "node_count (VDict d) = 1 + sum_list (map (\<lambda>(k, v). node_count v) d)"
| "node_count (VList vs) = 1 + sum_list (map node_count vs)"
| "node_count _ = 1"

lemma node_count_children: "node_count v = 1 + sum_list (map node_count (children v))"
  by (cases v) (simp_all add: comp_def split_def)

lemma foldr_max_le: "foldr (\<lambda>v m. max (f v) m) vs (0::int) \<le> b \<longleftrightarrow> 0 \<le> b \<and> (\<forall>v \<in> set vs. f v \<le> b)"
  by (induction vs) auto

lemma height_le: "height v \<le> b \<longleftrightarrow> 0 \<le> b \<and> (\<forall>u \<in> set (children v). 1 + height u \<le> b)"
proof (cases v)
  case (VDict d)
  have "height v = foldr (\<lambda>u m. max (1 + height (snd u)) m) d 0" using VDict by (simp add: split_def)
  then show ?thesis using foldr_max_le[of "\<lambda>u. 1 + height (snd u)" d b] VDict by simp
next
  case (VList vs)
  then show ?thesis using foldr_max_le[of "\<lambda>u. 1 + height u" vs b] by simp
qed simp_all

lemma node_count_pos: "1 \<le> node_count v"
proof (induction v rule: node_count.induct)
  case (1 d)
  then have "0 \<le> sum_list (map (\<lambda>(k, v). node_count v) d)" by (intro sum_list_nonneg) fastforce
  then show ?case by simp
next
  case (2 vs)
  then have "0 \<le> sum_list (map node_count vs)" by (intro sum_list_nonneg) fastforce
  then show ?case by simp
qed simp_all

definition stack_nodes :: "(pyv \<times> int) list \<Rightarrow> int" where
  "stack_nodes st = sum_list (map (\<lambda>(v, d). node_count v) st)"

lemma stack_nodes_simps [simp]:
  "stack_nodes [] = 0" "stack_nodes ((v, d) # st) = node_count v + stack_nodes st"
  "stack_nodes (as @ bs) = stack_nodes as + stack_nodes bs"
  by (simp_all add: stack_nodes_def)

lemma stack_nodes_children: "stack_nodes (rev (map (\<lambda>u. (u, d)) vs)) = sum_list (map node_count vs)"
  by (simp add: stack_nodes_def rev_map[symmetric] comp_def sum_list_rev)

lemma stack_nodes_nonneg: "0 \<le> stack_nodes st"
  unfolding stack_nodes_def
proof (rule sum_list_nonneg)
  fix x assume "x \<in> set (map (\<lambda>(v, d). node_count v) st)"
  then obtain u where "x = node_count u" by auto
  then show "0 \<le> x" using node_count_pos[of u] by simp
qed

lemma walk_spec:
  "nodes \<le> 4096 \<Longrightarrow> walk st nodes \<longleftrightarrow> (\<forall>(v, d) \<in> set st. d + height v \<le> 8) \<and> nodes + stack_nodes st \<le> 4096"
proof (induction st nodes rule: walk.induct)
  case (2 v d st nodes)
  let ?st = "rev (map (\<lambda>u. (u, d + 1)) (children v)) @ st"
  have total: "stack_nodes ?st = node_count v - 1 + stack_nodes st"
    by (simp add: stack_nodes_children node_count_children[of v])
  have deep: "d \<le> 8 \<and> (\<forall>u \<in> set (children v). d + 1 + height u \<le> 8) \<longleftrightarrow> d + height v \<le> 8"
    using height_le[of v "8 - d"] by (auto simp: algebra_simps)
  show ?case
  proof (cases "d > 8 \<or> nodes + 1 > 4096")
    case True
    have "1 \<le> node_count v" "0 \<le> stack_nodes st" using node_count_pos stack_nodes_nonneg by auto
    moreover have "0 \<le> height v" using height_le[of v "height v"] by simp
    ultimately show ?thesis using True by auto
  next
    case False
    then have "walk ?st (nodes + 1) \<longleftrightarrow> (\<forall>(u, e) \<in> set ?st. e + height u \<le> 8) \<and> nodes + 1 + stack_nodes ?st \<le> 4096"
      by (intro 2(1)) simp_all
    also have "(\<forall>(u, e) \<in> set ?st. e + height u \<le> 8) \<longleftrightarrow> (\<forall>(u, e) \<in> set ((v, d) # st). e + height u \<le> 8)"
      using deep False by (simp add: ball_Un)
    finally show ?thesis using False unfolding total by simp
  qed
qed simp

section \<open>What is printed is read back\<close>

fun json_of :: "pyv \<Rightarrow> jdoc" where
  "json_of VNone = JNull"
| "json_of (VBool b) = JBool b"
| "json_of (VInt i) = JInt i"
| "json_of (VFloat f) = JFloat f"
| "json_of (VStr s) = JStr s"
| "json_of (VList vs) = JList (map json_of vs)"
| "json_of (VTuple vs) = JList (map json_of vs)"
| "json_of (VDict d) = JObject (map (\<lambda>(k, v). (k, json_of v)) d)"
| "json_of (VProxy d) = JNull"
| "json_of VOpaque = JNull"

text \<open>The documented behaviour of the library: what \<open>json.dumps\<close> writes, \<open>json.loads\<close> reads back.\<close>

definition json_codec :: "(pyv \<Rightarrow> byte list option) \<Rightarrow> (codepoints \<Rightarrow> jdoc option) \<Rightarrow> bool" where
  "json_codec dumps parse \<longleftrightarrow> (\<forall>v raw. dumps v = Some raw \<longrightarrow> Option.bind (utf8 (map uint raw)) parse = Some (json_of v))"

lemma load_dumped:
  "json_codec dumps parse \<Longrightarrow> dumps v = Some raw \<Longrightarrow> load parse (Some raw) n = Some doc \<Longrightarrow> doc = doc_value (json_of v)"
  by (auto simp: load_def json_codec_def split: if_splits option.splits)

lemmas read_defs = field_def str_field_def int_field_def list_field_def member_field_def

lemma those_map_Some: "(\<And>x. x \<in> set xs \<Longrightarrow> f x = Some (g x)) \<Longrightarrow> those (map f xs) = Some (map g xs)"
  by (induction xs) auto

lemma candidate_back: "read_candidate (doc_value (json_of (candidate_dict c))) = Some c"
  by (simp add: read_candidate_def candidate_dict_def read_defs)

lemma payload_back:
  "read_payload (payload_service p) (doc_value (json_of (payload_dict p))) \<in> {None, Some p}"
proof (cases p)
  case (LlmInput t c cs)
  have "those (map (as_str \<circ> (doc_value \<circ> (json_of \<circ> VStr))) cs) = Some (map id cs)"
    by (rule those_map_Some) (simp add: as_str_def)
  with LlmInput show ?thesis by (simp add: read_payload_def read_defs)
next
  case (EvaluationInput c cs)
  have "those (map (read_candidate \<circ> (doc_value \<circ> (json_of \<circ> candidate_dict))) cs) = Some (map id cs)"
    by (rule those_map_Some) (simp add: candidate_back)
  with EvaluationInput show ?thesis by (simp add: read_payload_def read_defs)
qed (simp add: read_payload_def read_defs)

lemma request_back: "read_request (doc_value (json_of (request_doc q))) \<in> {None, Some q}"
  using payload_back[of "gq_payload q"]
  by (auto simp: read_request_def request_doc_def envelope_def service_def read_defs split: option.splits)

lemma score_back: "read_score (doc_value (json_of (score_dict s))) = Some s"
  by (cases s; cases "snd s") (simp_all add: read_score_def score_dict_def score_value_def as_score_def read_defs)

lemma member_back: "member_field (VDict d) k = Some m" if "map_of d k = Some (doc_value (json_of (member_value m)))"
  using that by (cases m) (simp_all add: member_value_def read_defs)

text \<open>What \<open>parse_response\<close> makes of the fields of a reply.\<close>

definition read_reply :: "gateway_payload \<Rightarrow> pyv \<Rightarrow> gateway_reply option" where
  "read_reply p doc = (if field doc ''status'' = Some (VStr ''error'') then map_option RemoteError (str_field doc ''code'')
     else Option.bind (field doc ''result'') (read_result p))"

lemma read_result_back:
  assumes "map_of (reply_fields r) ''result'' = Some x"
  shows "read_result p (doc_value (json_of x)) \<in> {None, Some r}"
proof (cases r)
  case (LlmOutput t m)
  then have x: "doc_value (json_of x) = VDict [(''text'', VStr t), (''candidate_id'', doc_value (json_of (member_value m)))]"
    using assms by auto
  have m: "member_field (doc_value (json_of x)) ''candidate_id'' = Some m" unfolding x by (rule member_back) simp
  show ?thesis
  proof (cases p)
    case (LlmInput u c cs)
    have "str_field (doc_value (json_of x)) ''text'' = Some t" by (simp add: x read_defs)
    with LlmInput \<open>r = LlmOutput t m\<close> m show ?thesis by simp
  next
    case (EvaluationInput c cs)
    have "list_field (doc_value (json_of x)) ''scores'' = None" by (simp add: x read_defs)
    with EvaluationInput show ?thesis by simp
  next
    case (SpeechInput u v)
    have "str_field (doc_value (json_of x)) ''pcm_b64'' = None" by (simp add: x read_defs)
    with SpeechInput show ?thesis by simp
  qed
next
  case (EvaluationOutput scores m)
  then have x: "doc_value (json_of x) = VDict [(''scores'', VList (map (\<lambda>s. doc_value (json_of (score_dict s))) scores)),
      (''selected_id'', doc_value (json_of (member_value m)))]"
    using assms by (auto simp: comp_def)
  have m: "member_field (doc_value (json_of x)) ''selected_id'' = Some m" unfolding x by (rule member_back) simp
  have scores: "those (map read_score (map (\<lambda>s. doc_value (json_of (score_dict s))) scores)) = Some scores"
    using those_map_Some[of scores "\<lambda>s. read_score (doc_value (json_of (score_dict s)))" id] score_back by (simp add: comp_def)
  show ?thesis
  proof (cases p)
    case (LlmInput u c cs)
    have "str_field (doc_value (json_of x)) ''text'' = None" by (simp add: x read_defs)
    with LlmInput show ?thesis by (simp split: option.splits Option.bind_split)
  next
    case (EvaluationInput c cs)
    have "list_field (doc_value (json_of x)) ''scores'' = Some (map (\<lambda>s. doc_value (json_of (score_dict s))) scores)"
      by (simp add: x read_defs)
    with EvaluationInput \<open>r = EvaluationOutput scores m\<close> m scores show ?thesis by simp
  next
    case (SpeechInput u v)
    have "str_field (doc_value (json_of x)) ''pcm_b64'' = None" by (simp add: x read_defs)
    with SpeechInput show ?thesis by simp
  qed
next
  case (SpeechOutput pcm)
  then have x: "doc_value (json_of x) = VDict [(''pcm_b64'', VStr (b64encode pcm)), (''sample_rate'', VInt 24000),
      (''channels'', VInt 1), (''sample_width'', VInt 2)]"
    using assms by auto
  show ?thesis
  proof (cases p)
    case (LlmInput u c cs)
    have "member_field (doc_value (json_of x)) ''candidate_id'' = None" by (simp add: x read_defs)
    with LlmInput show ?thesis by simp
  next
    case (EvaluationInput c cs)
    have "list_field (doc_value (json_of x)) ''scores'' = None" by (simp add: x read_defs)
    with EvaluationInput show ?thesis by simp
  next
    case (SpeechInput u v)
    have "str_field (doc_value (json_of x)) ''pcm_b64'' = Some (b64encode pcm)" by (simp add: x read_defs)
    with SpeechInput \<open>r = SpeechOutput pcm\<close> show ?thesis by (simp add: b64_roundtrip)
  qed
qed (use assms in simp)

lemma reply_back: "read_reply p (doc_value (json_of (response_doc q r))) \<in> {None, Some r}"
proof (cases r)
  case (RemoteError c)
  then show ?thesis by (simp add: read_reply_def response_doc_def envelope_def read_defs)
next
  case (LlmOutput t m)
  then show ?thesis using read_result_back[of r _ p]
    by (simp add: read_reply_def response_doc_def envelope_def read_defs)
next
  case (EvaluationOutput scores m)
  then show ?thesis using read_result_back[of r _ p]
    by (simp add: read_reply_def response_doc_def envelope_def read_defs)
next
  case (SpeechOutput pcm)
  then show ?thesis using read_result_back[of r _ p]
    by (simp add: read_reply_def response_doc_def envelope_def read_defs)
qed

lemma request_roundtrip:
  assumes "json_codec dumps parse" "request_bytes dumps parse q = Inr raw"
  shows "parse_request parse (Some raw) = Inr q"
proof -
  obtain q' where d: "dumps (request_doc q) = Some raw" "parse_request parse (Some raw) = Inr q'"
    using assms(2) by (auto simp: request_bytes_def split: option.splits sum.splits)
  then obtain doc where "load parse (Some raw) 65536 = Some doc" "read_request doc = Some q'"
    by (auto simp: parse_request_def split: option.splits if_splits)
  with load_dumped[OF assms(1) d(1)] request_back[of q] d(2) show ?thesis by auto
qed

text \<open>C27: What the gateway prints it reads back unchanged. Given that \<open>json.loads\<close> reads what \<open>json.dumps\<close>
  wrote: the bytes of a request parse to that very request, and the bytes of a response to that very
  reply, the audio of a speech reply included, which passes through base64.\<close>

theorem gateway_roundtrip:
  assumes "json_codec dumps parse"
  shows "(request_bytes dumps parse q = Inr raw \<longrightarrow> parse_request parse (Some raw) = Inr q)
    \<and> (response_bytes dumps parse q r = Inr raw' \<longrightarrow> parse_response parse (Some raw') q = Inr r)"
proof (intro conjI impI)
  assume "request_bytes dumps parse q = Inr raw"
  with request_roundtrip[OF assms] show "parse_request parse (Some raw) = Inr q" .
next
  assume "response_bytes dumps parse q r = Inr raw'"
  then obtain r' where d: "dumps (response_doc q r) = Some raw'" "parse_response parse (Some raw') q = Inr r'"
    by (auto simp: response_bytes_def split: option.splits sum.splits)
  then obtain doc where "load parse (Some raw') (response_limit q) = Some doc" "read_reply (gq_payload q) doc = Some r'"
    by (auto simp: parse_response_def read_reply_def split: option.splits if_splits)
  with load_dumped[OF assms d(1)] reply_back[of "gq_payload q" q r] d(2) show "parse_response parse (Some raw') q = Inr r" by auto
qed

definition sample_request :: gateway_request where
  "sample_request = \<lparr>gq_request_id = ''r1'', gq_provider_id = ''p1'', gq_model_version = ''m1'', gq_catalog_version = 1,
     gq_budget_ms = 100, gq_payload = SpeechInput ''hello'' ''v1''\<rparr>"

definition sample_reply :: gateway_reply where
  "sample_reply = SpeechOutput [1, 2, 255, 0]"

definition sample_dumps :: "pyv \<Rightarrow> byte list option" where
  "sample_dumps v = (if v = request_doc sample_request then Some [65] else if v = response_doc sample_request sample_reply then Some [66] else None)"

definition sample_parse :: "codepoints \<Rightarrow> jdoc option" where
  "sample_parse t = (if t = [65] then Some (json_of (request_doc sample_request))
     else if t = [66] then Some (json_of (response_doc sample_request sample_reply)) else None)"

lemma sample_codec: "json_codec sample_dumps sample_parse"
  by (auto simp: json_codec_def sample_dumps_def sample_parse_def split: if_splits)

theorem gateway_roundtrip_witness:
  "parse_request sample_parse (Some [65]) = Inr sample_request \<and> parse_response sample_parse (Some [66]) sample_request = Inr sample_reply"
proof -
  have "request_bytes sample_dumps sample_parse sample_request = Inr [65]" by code_simp
  moreover have "response_bytes sample_dumps sample_parse sample_request sample_reply = Inr [66]" by code_simp
  ultimately show ?thesis using gateway_roundtrip[OF sample_codec] by blast
qed

end
