(* ===== verification/Gateway_Admission.thy ===== *)
theory Gateway_Admission
  imports Gateway_Wire
begin

text \<open>
  Authentication and replay admission of the model gateway, \<open>src/runtime/gateway/admission.py\<close>. The lock of
  the history makes a claim atomic; a sequence of calls is a list.
\<close>

section \<open>Admission\<close>

definition is_bearer_char :: "char \<Rightarrow> bool" where
  "is_bearer_char c \<longleftrightarrow> is_alnum c \<or> c \<in> set ''._~-''"

definition bearer_init :: "pyv \<Rightarrow> string + string" where
  "bearer_init v = (case v of
     VStr s \<Rightarrow> if 32 \<le> int (length s) \<and> int (length s) \<le> 256 \<and> list_all is_bearer_char s then Inr s else Inl ''authentication''
   | _ \<Rightarrow> Inl ''authentication'')"

definition bearer_header :: "string \<Rightarrow> string" where
  "bearer_header b = ''Bearer '' @ b"

definition claim :: "string \<Rightarrow> string list \<Rightarrow> string + string list" where
  "claim i ids = (if i \<in> set ids then Inl ''replay'' else if int (length ids) \<ge> 4096 then Inl ''exhausted'' else Inr (i # ids))"

text \<open>A provider of another type is \<open>None\<close>.\<close>

definition provider_snapshot :: "provider option \<Rightarrow> string \<Rightarrow> string + provider" where
  "provider_snapshot po placement =
    (case po of
       None \<Rightarrow> Inl ''identity''
     | Some p \<Rightarrow> (case Contracts.snapshot (RProvider p) of
         Inr (RProvider s) \<Rightarrow> if prv_placement s \<noteq> placement then Inl ''identity'' else Inr s
       | _ \<Rightarrow> Inl ''identity''))"

definition check_provider :: "gateway_request \<Rightarrow> provider \<Rightarrow> int \<Rightarrow> string option" where
  "check_provider q p version =
    (if gq_catalog_version q \<noteq> version then Some ''stale_catalog''
     else if (gq_provider_id q, gq_model_version q) \<noteq> (prv_provider_id p, prv_model_version p) then Some ''identity''
     else if service q \<notin> set (prv_capabilities p) then Some ''invalid_request''
     else if \<not> prv_enabled p \<or> prv_health p = ''unavailable'' then Some ''unavailable''
     else None)"

record admission =
  ad_provider :: provider
  ad_catalog_version :: int
  ad_bearer :: string
  ad_ids :: "string list"

text \<open>\<open>bearer\<close> is \<open>None\<close> for an object that is no \<open>Bearer\<close>.\<close>

definition admission_init :: "provider option \<Rightarrow> pyv \<Rightarrow> string option \<Rightarrow> string + admission" where
  "admission_init provider version bearer =
    (case provider_snapshot provider ''host'' of
       Inl e \<Rightarrow> Inl e
     | Inr p \<Rightarrow> (case bearer of
         None \<Rightarrow> Inl ''authentication''
       | Some b \<Rightarrow> (case catalog_revision version of
           Inl e \<Rightarrow> Inl e
         | Inr v \<Rightarrow> Inr \<lparr>ad_provider = p, ad_catalog_version = v, ad_bearer = b, ad_ids = []\<rparr>)))"

definition authenticated :: "pyv \<Rightarrow> string \<Rightarrow> bool" where
  "authenticated authorization b =
    (let supplied = (case authorization of VStr s \<Rightarrow> if int (length s) \<le> 263 then s else [] | _ \<Rightarrow> [])
     in list_all (\<lambda>c. code c < 128) supplied \<and> supplied = bearer_header b)"

definition admit ::
  "(codepoints \<Rightarrow> jdoc option) \<Rightarrow> pyv \<Rightarrow> byte list option \<Rightarrow> admission \<Rightarrow> (string + gateway_request) \<times> admission" where
  "admit parse authorization raw a =
    (if \<not> authenticated authorization (ad_bearer a) then (Inl ''authentication'', a)
     else case parse_request parse raw of
       Inl e \<Rightarrow> (Inl e, a)
     | Inr q \<Rightarrow>
         (case check_provider q (ad_provider a) (ad_catalog_version a) of
            Some e \<Rightarrow> (Inl e, a)
          | None \<Rightarrow> (case claim (gq_request_id q) (ad_ids a) of
              Inl e \<Rightarrow> (Inl e, a)
            | Inr ids \<Rightarrow> (Inr q, a\<lparr>ad_ids := ids\<rparr>))))"

section \<open>What is admitted\<close>

fun admitted :: "(codepoints \<Rightarrow> jdoc option) \<Rightarrow> (pyv \<times> byte list option) list \<Rightarrow> admission \<Rightarrow> gateway_request list" where
  "admitted parse [] a = []"
| "admitted parse ((authorization, raw) # calls) a =
    (case admit parse authorization raw a of
       (Inl e, a) \<Rightarrow> admitted parse calls a
     | (Inr q, a) \<Rightarrow> q # admitted parse calls a)"

lemma admit_refused: "admit parse au raw a = (Inl e, a') \<Longrightarrow> a' = a"
  by (auto simp: admit_def split: if_splits sum.splits option.splits)

lemma admit_accepted:
  assumes "admit parse au raw a = (Inr q, a')"
  shows "authenticated au (ad_bearer a) \<and> parse_request parse raw = Inr q
    \<and> check_provider q (ad_provider a) (ad_catalog_version a) = None
    \<and> a' = a\<lparr>ad_ids := gq_request_id q # ad_ids a\<rparr> \<and> gq_request_id q \<notin> set (ad_ids a) \<and> length (ad_ids a) < 4096"
  using assms by (auto simp: admit_def claim_def split: if_splits sum.splits option.splits)

lemma admitted_ids:
  "distinct (map gq_request_id (admitted parse calls a)) \<and> set (map gq_request_id (admitted parse calls a)) \<inter> set (ad_ids a) = {}
    \<and> (length (ad_ids a) \<le> 4096 \<longrightarrow> length (admitted parse calls a) + length (ad_ids a) \<le> 4096)"
proof (induction calls arbitrary: a)
  case (Cons call calls)
  obtain au raw r a' where c: "call = (au, raw)" "admit parse au raw a = (r, a')" by (metis surj_pair)
  show ?case
  proof (cases r)
    case (Inl e)
    with c Cons.IH[of a] admit_refused[of parse au raw a e a'] show ?thesis by simp
  next
    case (Inr q)
    note q = admit_accepted[OF c(2)[unfolded Inr]]
    with c Inr Cons.IH[of a'] show ?thesis by auto
  qed
qed simp

lemma admitted_checked:
  assumes "q \<in> set (admitted parse calls a)"
  shows "\<exists>au raw. (au, raw) \<in> set calls \<and> authenticated au (ad_bearer a) \<and> parse_request parse raw = Inr q
    \<and> check_provider q (ad_provider a) (ad_catalog_version a) = None"
  using assms
proof (induction calls arbitrary: a)
  case (Cons call calls)
  obtain au raw r a' where c: "call = (au, raw)" "admit parse au raw a = (r, a')" by (metis surj_pair)
  show ?case
  proof (cases r)
    case (Inl e)
    with c have "a' = a" using admit_refused by blast
    with Inl c Cons.prems have "q \<in> set (admitted parse calls a)" by simp
    from Cons.IH[OF this] show ?thesis by auto
  next
    case (Inr p)
    note p = admit_accepted[OF c(2)[unfolded Inr]]
    with c Inr Cons.prems consider "q = p" | "q \<in> set (admitted parse calls a')" by auto
    then show ?thesis
    proof cases
      case 2
      have "ad_bearer a' = ad_bearer a" "ad_provider a' = ad_provider a" "ad_catalog_version a' = ad_catalog_version a"
        using p by simp_all
      with Cons.IH[OF 2] show ?thesis by (metis list.set_intros(2))
    qed (use p c in auto)
  qed
qed simp

lemma load_bounded:
  assumes "load parse raw n = Some doc"
  shows "\<exists>bs. raw = Some bs \<and> int (length bs) \<le> n \<and> height doc \<le> 8 \<and> node_count doc \<le> 4096"
  using assms walk_spec[of 0 "[(doc, 0)]"] by (auto simp: load_def split: option.splits if_splits)

lemma request_bounded:
  assumes "parse_request parse raw = Inr q"
  shows "\<exists>bs. raw = Some bs \<and> int (length bs) \<le> 65536"
  using assms load_bounded[of parse raw 65536] by (auto simp: parse_request_def split: option.splits if_splits)

text \<open>C28: The gateway admits a request at most once, and only an authentic one. For any sequence of calls on a
  new admission: the admitted requests have pairwise different identifiers and are at most 4096; each
  was presented with the bearer header of this admission, in a message of at most 65536 bytes that
  parses to that request, under the current catalog version and the provider and model this admission
  serves, for a service the provider offers, while the provider is enabled and available.\<close>

theorem gateway_admits_once:
  assumes "admission_init provider version (Some b) = Inr a" and "admitted parse calls a = qs"
  shows "distinct (map gq_request_id qs) \<and> length qs \<le> 4096
    \<and> (\<forall>q \<in> set qs. \<exists>bs. (VStr (bearer_header b), Some bs) \<in> set calls \<and> int (length bs) \<le> 65536
        \<and> parse_request parse (Some bs) = Inr q \<and> version = VInt (gq_catalog_version q)
        \<and> (\<exists>p. provider_snapshot provider ''host'' = Inr p \<and> gq_provider_id q = prv_provider_id p
            \<and> gq_model_version q = prv_model_version p \<and> service q \<in> set (prv_capabilities p) \<and> prv_enabled p
            \<and> prv_health p \<noteq> ''unavailable''))"
proof -
  obtain p v where a: "provider_snapshot provider ''host'' = Inr p" "catalog_revision version = Inr v"
      "a = \<lparr>ad_provider = p, ad_catalog_version = v, ad_bearer = b, ad_ids = []\<rparr>"
    using assms(1) by (auto simp: admission_init_def split: sum.splits)
  have v: "version = VInt v" using a(2) by (auto simp: catalog_revision_def split: if_splits pyv.splits)
  have ids: "distinct (map gq_request_id qs) \<and> length qs \<le> 4096"
    using admitted_ids[of parse calls a] assms(2) a(3) by simp
  have "\<exists>bs. (VStr (bearer_header b), Some bs) \<in> set calls \<and> int (length bs) \<le> 65536
        \<and> parse_request parse (Some bs) = Inr q \<and> version = VInt (gq_catalog_version q)
        \<and> gq_provider_id q = prv_provider_id p \<and> gq_model_version q = prv_model_version p
        \<and> service q \<in> set (prv_capabilities p) \<and> prv_enabled p \<and> prv_health p \<noteq> ''unavailable''" if q: "q \<in> set qs" for q
  proof -
    obtain au raw where call: "(au, raw) \<in> set calls" "authenticated au b" "parse_request parse raw = Inr q"
        "check_provider q p v = None"
      using admitted_checked[of q parse calls a] q assms(2) unfolding a(3) admission.simps by blast
    obtain bs where bs: "raw = Some bs" "int (length bs) \<le> 65536" using request_bounded[OF call(3)] by blast
    have "au = VStr (bearer_header b)"
      using call(2) by (auto simp: authenticated_def bearer_header_def Let_def split: pyv.splits if_splits)
    with call bs v show ?thesis by (auto simp: check_provider_def split: if_splits)
  qed
  with ids a(1) show ?thesis by blast
qed

definition sample_host :: provider where
  "sample_host = \<lparr>prv_version = 1, prv_provider_id = ''p1'', prv_placement = ''host'', prv_model_version = ''m1'',
     prv_enabled = True, prv_health = ''healthy'', prv_capabilities = [''tts'']\<rparr>"

definition sample_bearer :: string where
  "sample_bearer = replicate 32 CHR ''a''"

definition sample_admission :: admission where
  "sample_admission = \<lparr>ad_provider = sample_host, ad_catalog_version = 1, ad_bearer = sample_bearer, ad_ids = []\<rparr>"

lemma sample_admission_init: "admission_init (Some sample_host) (VInt 1) (Some sample_bearer) = Inr sample_admission"
  by code_simp

theorem gateway_admits_once_witness:
  "admitted sample_parse (replicate 2 (VStr (bearer_header sample_bearer), Some [65])) sample_admission = [sample_request]
    \<and> prv_enabled sample_host \<and> service sample_request \<in> set (prv_capabilities sample_host)"
proof -
  let ?qs = "admitted sample_parse (replicate 2 (VStr (bearer_header sample_bearer), Some [65])) sample_admission"
  have once: "authenticated (VStr (bearer_header sample_bearer)) sample_bearer"
    "parse_request sample_parse (Some [65]) = Inr sample_request" "check_provider sample_request sample_host 1 = None"
    by code_simp+
  let ?a = "sample_admission\<lparr>ad_ids := [gq_request_id sample_request]\<rparr>"
  have "admit sample_parse (VStr (bearer_header sample_bearer)) (Some [65]) sample_admission = (Inr sample_request, ?a)"
    using once by (simp add: admit_def sample_admission_def claim_def)
  moreover have "admit sample_parse (VStr (bearer_header sample_bearer)) (Some [65]) ?a = (Inl ''replay'', ?a)"
    using once by (simp add: admit_def sample_admission_def claim_def)
  ultimately have q: "?qs = [sample_request]" by (simp add: numeral_2_eq_2)
  have "provider_snapshot (Some sample_host) ''host'' = Inr sample_host" by code_simp
  with gateway_admits_once[OF sample_admission_init refl, of sample_parse "replicate 2 (VStr (bearer_header sample_bearer), Some [65])"] q
  show ?thesis by auto
qed

end
