(* ===== verification/Gateway_Client.thy ===== *)
theory Gateway_Client
  imports Gateway_Admission
begin

text \<open>
  The single-owner gateway client, \<open>src/runtime/gateway/client.py\<close>. Every callback (clock, attestation of the
  peer, permit, begin, poll and cancel of a job) is one step of an environment \<open>nat \<Rightarrow> gmoment\<close>. The lock
  keeps other threads out for the whole of an operation; a callback itself can call back: then \<open>start\<close>,
  \<open>poll\<close> and the configuration are refused, \<open>cancel\<close> and \<open>disable\<close> leave a mark, which \<open>gm_reentry\<close>
  lists. The field \<open>gc_effects\<close>, which no code reads, keeps the effects in order.
\<close>

section \<open>Routes\<close>

record url_parts =
  up_scheme :: string
  up_hostname :: "string option"
  up_userinfo :: bool
  up_path :: string
  up_port :: "int option"

text \<open>\<open>urlsplit\<close> and \<open>ip_address\<close> are the library's: \<open>split\<close> is \<open>None\<close> when the former or the port raises.\<close>

definition label_ok :: "string \<Rightarrow> bool" where
  "label_ok l \<longleftrightarrow> l \<noteq> [] \<and> int (length l) \<le> 63 \<and> is_alnum (hd l) \<and> is_alnum (last l)
     \<and> list_all (\<lambda>c. is_alnum c \<or> c = CHR ''-'') l"

fun split_on :: "char \<Rightarrow> string \<Rightarrow> string list" where
  "split_on d [] = [[]]"
| "split_on d (c # cs) = (if c = d then [] # split_on d cs else (case split_on d cs of w # ws \<Rightarrow> (c # w) # ws | [] \<Rightarrow> [[c]]))"

definition endpoint_ok :: "(string \<Rightarrow> url_parts option) \<Rightarrow> (string \<Rightarrow> bool) \<Rightarrow> pyv \<Rightarrow> pyv \<Rightarrow> bool" where
  "endpoint_ok split is_ip url peer =
    (case (url, peer) of
       (VStr u, VStr p) \<Rightarrow>
         list_all (\<lambda>c. 32 < code c \<and> code c \<le> 126 \<and> c \<notin> {CHR ''?'', CHR ''#'', CHR ''%'', CHR 0x5C}) u
         \<and> (case split u of
              None \<Rightarrow> False
            | Some parts \<Rightarrow> up_scheme parts = ''https'' \<and> \<not> up_userinfo parts \<and> up_path parts = ''/v1/gateway''
                \<and> up_port parts \<noteq> Some 0
                \<and> (case up_hostname parts of
                     None \<Rightarrow> False
                   | Some h \<Rightarrow> h \<noteq> [] \<and> (is_ip h \<or> int (length h) \<le> 253 \<and> list_all label_ok (split_on (CHR ''.'') h))))
         \<and> hex64_pattern p
     | _ \<Rightarrow> False)"

record host =
  ho_provider :: provider
  ho_url :: string
  ho_peer :: string
  ho_bearer :: string

text \<open>\<open>typed\<close> says whether endpoint and bearer are of their classes.\<close>

definition host_init :: "provider option \<Rightarrow> string \<Rightarrow> string \<Rightarrow> string \<Rightarrow> bool \<Rightarrow> string + host" where
  "host_init provider url peer bearer typed =
    (case provider_snapshot provider ''host'' of
       Inl e \<Rightarrow> Inl e
     | Inr p \<Rightarrow> if \<not> typed then Inl ''identity''
         else Inr \<lparr>ho_provider = p, ho_url = url, ho_peer = peer, ho_bearer = bearer\<rparr>)"

definition local_init :: "provider option \<Rightarrow> string + provider" where
  "local_init provider = provider_snapshot provider ''vm''"

datatype groute = HostRoute host | LocalRoute provider

fun route_provider :: "groute \<Rightarrow> provider" where
  "route_provider (HostRoute h) = ho_provider h"
| "route_provider (LocalRoute p) = p"

fun is_host :: "groute \<Rightarrow> bool" where
  "is_host (HostRoute h) = True"
| "is_host (LocalRoute p) = False"

section \<open>State\<close>

record failure =
  fl_code :: string
  fl_provider_id :: string
  fl_model_version :: string

datatype gateway_result =
    Success gateway_reply string string
  | Degraded gateway_reply string string failure
  | Failed "failure list"

record gcall =
  ca_request :: gateway_request
  ca_route :: groute
  ca_deadline :: "int option"
  ca_last_time :: "int option"
  ca_job :: bool
  ca_primary :: "failure option"
  ca_cancel_requested :: bool

datatype geffect =
    Attested string
  | Admitted
  | BeginHost string string string gateway_request
  | BeginLocal gateway_request
  | NoJob
  | Retired bool

record gclient =
  gc_host :: host
  gc_local :: "provider option"
  gc_catalog_version :: int
  gc_ids :: "string list"
  gc_active :: "gcall option"
  gc_terminal :: "gateway_result option"
  gc_fault :: "string option"
  gc_inside :: bool
  gc_unclean :: bool
  gc_configuring :: bool
  gc_disabled :: bool
  gc_permit :: bool
  gc_owner :: "nat option"
  gc_time :: nat
  gc_effects :: "geffect list"

definition client_init :: "host option \<Rightarrow> pyv \<Rightarrow> provider option option \<Rightarrow> string + gclient" where
  "client_init host version local =
    (case (host, local) of
       (Some h, Some l) \<Rightarrow>
         (case catalog_revision version of
            Inl e \<Rightarrow> Inl e
          | Inr v \<Rightarrow> Inr \<lparr>gc_host = h, gc_local = l, gc_catalog_version = v, gc_ids = [], gc_active = None,
              gc_terminal = None, gc_fault = None, gc_inside = False, gc_unclean = False, gc_configuring = False,
              gc_disabled = False, gc_permit = False, gc_owner = None, gc_time = 0, gc_effects = []\<rparr>)
     | _ \<Rightarrow> Inl ''identity'')"

definition client_cleanup_proven :: "gclient \<Rightarrow> bool" where
  "client_cleanup_proven c \<longleftrightarrow> \<not> gc_unclean c"

section \<open>The environment\<close>

datatype peer_reply = PeerRefused string | PeerRaises | PeerOther | PeerIs string

datatype begin_reply = BeginRaises | BeginRemote string | BeginJob | BeginNothing

datatype incoming = HttpReply "int option" "byte list option" "string option" | RawReply "byte list" | OtherReply

datatype poll_reply = PollRefused string | PollRaises | PollPending | PollReply incoming

datatype reentry = ReCancel | ReDisable "nat option"

record gmoment =
  gm_clock :: "int option"
  gm_peer :: peer_reply
  gm_permit :: "bool reply"
  gm_begin :: begin_reply
  gm_poll :: poll_reply
  gm_cancel :: "bool reply"
  gm_reentry :: "reentry list"

type_synonym genvironment = "nat \<Rightarrow> gmoment"

record codec =
  cd_dumps :: "pyv \<Rightarrow> byte list option"
  cd_parse :: "codepoints \<Rightarrow> jdoc option"

definition mark_canceled :: "gclient \<Rightarrow> gclient" where
  "mark_canceled c = c\<lparr>gc_active := map_option (\<lambda>a. a\<lparr>ca_cancel_requested := True\<rparr>) (gc_active c)\<rparr>"

fun reenter :: "reentry \<Rightarrow> gclient \<Rightarrow> gclient" where
  "reenter ReCancel c = mark_canceled c"
| "reenter (ReDisable owner) c = (if owner \<noteq> gc_owner c then c else mark_canceled (c\<lparr>gc_disabled := True\<rparr>))"

text \<open>\<open>_invoke\<close>: the answer of the callback, after what it called back.\<close>

definition invoke :: "genvironment \<Rightarrow> gclient \<Rightarrow> gmoment \<times> gclient" where
  "invoke E c =
    (let m = E (gc_time c)
     in (m, (fold reenter (gm_reentry m) (c\<lparr>gc_time := Suc (gc_time c), gc_inside := True\<rparr>))\<lparr>gc_inside := False\<rparr>))"

definition effect :: "geffect \<Rightarrow> gclient \<Rightarrow> gclient" where
  "effect e c = c\<lparr>gc_effects := gc_effects c @ [e]\<rparr>"

section \<open>The active call\<close>

definition gateway_error :: "string \<Rightarrow> string" where
  "gateway_error k = (if k \<in> set gateway_codes then k else ''invalid_response'')"

definition failure_of :: "gcall \<Rightarrow> string \<Rightarrow> failure" where
  "failure_of a cd = \<lparr>fl_code = cd, fl_provider_id = prv_provider_id (route_provider (ca_route a)),
     fl_model_version = prv_model_version (route_provider (ca_route a))\<rparr>"

text \<open>The interruption of a call after a reading of the clock, and the call with that reading.\<close>

definition interrupted_by :: "int option \<Rightarrow> gcall \<Rightarrow> string option \<times> gcall" where
  "interrupted_by reading a =
    (case reading of
       None \<Rightarrow> (Some ''clock'', a)
     | Some now \<Rightarrow>
         if now < 0 \<or> (case ca_last_time a of None \<Rightarrow> False | Some t \<Rightarrow> now < t) then (Some ''clock'', a)
         else
           let deadline = (case ca_deadline a of None \<Rightarrow> now + gq_budget_ms (ca_request a) | Some d \<Rightarrow> d);
               a = a\<lparr>ca_last_time := Some now, ca_deadline := Some deadline\<rparr>
           in (if ca_cancel_requested a then Some ''canceled'' else if deadline \<le> now then Some ''timeout'' else None, a))"

definition interruption :: "genvironment \<Rightarrow> gclient \<Rightarrow> string option \<times> gclient" where
  "interruption E c =
    (case invoke E c of (m, c) \<Rightarrow>
       (case gc_active c of
          None \<Rightarrow> (None, c)
        | Some a \<Rightarrow> (case interrupted_by (gm_clock m) a of (i, a) \<Rightarrow>
            (i, c\<lparr>gc_active := Some a, gc_fault := (if i = Some ''clock'' then i else gc_fault c)\<rparr>))))"

definition remaining :: "gcall \<Rightarrow> int" where
  "remaining a = the (ca_deadline a) - the (ca_last_time a)"

text \<open>The request for the current route with the remaining budget.\<close>

definition routed_request :: "gcall \<Rightarrow> gateway_request" where
  "routed_request a = (ca_request a)\<lparr>gq_provider_id := prv_provider_id (route_provider (ca_route a)),
     gq_model_version := prv_model_version (route_provider (ca_route a)), gq_budget_ms := remaining a\<rparr>"

text \<open>An outcome still to be finished: a failure of the current route or an output.\<close>

datatype outcome_value = Fails string | Yields gateway_reply

definition begin_effect ::
  "codec \<Rightarrow> genvironment \<Rightarrow> gateway_request \<Rightarrow> gclient \<Rightarrow> outcome_value option \<times> gclient" where
  "begin_effect cd E q c =
    (case gc_active c of
       None \<Rightarrow> (None, c)
     | Some a \<Rightarrow>
         let c = c\<lparr>gc_unclean := True\<rparr>;
             outgoing = (case ca_route a of
               HostRoute h \<Rightarrow> (case request_bytes (cd_dumps cd) (cd_parse cd) q of
                 Inl e \<Rightarrow> None | Inr raw \<Rightarrow> Some (BeginHost (ho_url h) (ho_peer h) (bearer_header (ho_bearer h)) q))
             | LocalRoute p \<Rightarrow> Some (BeginLocal q))
         in case outgoing of
              None \<Rightarrow> (Some (Fails ''provider_failed''), c)
            | Some e \<Rightarrow>
                (case invoke E (effect e c) of (m, c) \<Rightarrow>
                   (case gm_begin m of
                      BeginRaises \<Rightarrow> (Some (Fails ''provider_failed''), c)
                    | BeginRemote k \<Rightarrow>
                        (Some (Fails (gateway_error k)),
                         effect NoJob (c\<lparr>gc_unclean := False\<rparr>))
                    | reply \<Rightarrow>
                        (case interruption E (c\<lparr>gc_active := map_option (\<lambda>a. a\<lparr>ca_job := (reply = BeginJob)\<rparr>) (gc_active c)\<rparr>) of
                           (i, c) \<Rightarrow> (map_option Fails i, c)))))"

text \<open>The checks that precede every effect of a route.\<close>

definition attest :: "genvironment \<Rightarrow> host \<Rightarrow> gclient \<Rightarrow> string option \<times> gclient" where
  "attest E h c =
    (case invoke E c of (m, c) \<Rightarrow>
       (case gm_peer m of
          PeerRefused k \<Rightarrow> (Some (gateway_error k), c)
        | PeerIs p \<Rightarrow> if p = ho_peer h then (None, effect (Attested p) c) else (Some ''identity'', c)
        | _ \<Rightarrow> (Some ''identity'', c)))"

definition route_checks :: "codec \<Rightarrow> genvironment \<Rightarrow> gcall \<Rightarrow> gclient \<Rightarrow> string option \<times> gclient" where
  "route_checks cd E a c =
    (case request_bytes (cd_dumps cd) (cd_parse cd) (routed_request a) of
       Inl e \<Rightarrow> (Some e, c)
     | Inr raw \<Rightarrow>
         (case check_provider (routed_request a) (route_provider (ca_route a)) (gc_catalog_version c) of
            Some e \<Rightarrow> (Some e, c)
          | None \<Rightarrow> (case ca_route a of LocalRoute p \<Rightarrow> (None, c) | HostRoute h \<Rightarrow> attest E h c)))"

definition permitted :: "genvironment \<Rightarrow> gclient \<Rightarrow> bool \<times> gclient" where
  "permitted E c =
    (if \<not> gc_permit c then (True, c)
     else case invoke E c of (m, c) \<Rightarrow> (gm_permit m = Gives True, c))"

definition begin_allowed :: "codec \<Rightarrow> genvironment \<Rightarrow> gclient \<Rightarrow> outcome_value option \<times> gclient" where
  "begin_allowed cd E c =
    (case interruption E c of
       (Some i, c) \<Rightarrow> (Some (Fails i), c)
     | (None, c) \<Rightarrow>
         (case gc_active c of
            None \<Rightarrow> (None, c)
          | Some a \<Rightarrow>
              let q = routed_request a
              in (case permitted E (c\<lparr>gc_active := Some (a\<lparr>ca_request := q\<rparr>)\<rparr>) of
                    (ok, c) \<Rightarrow>
                      (if \<not> ok \<or> gc_disabled c \<or> (case gc_active c of None \<Rightarrow> False | Some a \<Rightarrow> ca_cancel_requested a)
                       then (Some (Fails ''canceled''), c)
                       else begin_effect cd E q (effect Admitted c)))))"

definition begin_core :: "codec \<Rightarrow> genvironment \<Rightarrow> gclient \<Rightarrow> outcome_value option \<times> gclient" where
  "begin_core cd E c =
    (case interruption E c of
       (Some i, c) \<Rightarrow> (Some (Fails i), c)
     | (None, c) \<Rightarrow>
         (case gc_active c of
            None \<Rightarrow> (None, c)
          | Some a \<Rightarrow> (case route_checks cd E a c of
              (Some e, c) \<Rightarrow> (Some (Fails e), c)
            | (None, c) \<Rightarrow> begin_allowed cd E c)))"

definition retire :: "genvironment \<Rightarrow> gclient \<Rightarrow> bool \<times> gclient" where
  "retire E c =
    (case gc_active c of
       None \<Rightarrow> (\<not> gc_unclean c, c)
     | Some a \<Rightarrow>
         if \<not> ca_job a then (\<not> gc_unclean c, c)
         else (case invoke E (c\<lparr>gc_active := Some (a\<lparr>ca_job := False\<rparr>)\<rparr>) of
                 (m, c) \<Rightarrow> (gm_cancel m = Gives True, effect (Retired (gm_cancel m = Gives True)) (c\<lparr>gc_unclean := gm_cancel m \<noteq> Gives True\<rparr>))))"

definition fallback_codes :: "string list" where
  "fallback_codes = [''unavailable'', ''provider_failed'', ''timeout'']"

text \<open>\<open>_finish\<close> after the cleanup and the last reading of the clock; the answer says whether the local route is to
  be begun.\<close>

definition conclude :: "string option \<Rightarrow> outcome_value \<Rightarrow> bool \<Rightarrow> gcall \<Rightarrow> gclient \<Rightarrow> bool \<times> gclient" where
  "conclude i v clean a c =
    (let preceding = (case ca_primary a of None \<Rightarrow> [] | Some f \<Rightarrow> [f]);
         p = route_provider (ca_route a);
         ended = (\<lambda>result. c\<lparr>gc_terminal := Some result, gc_active := None\<rparr>)
     in if \<not> clean
        then (False, (ended (Failed (preceding @ (case v of Fails k \<Rightarrow> [failure_of a k] | Yields r \<Rightarrow> [])
               @ [failure_of a ''cleanup''])))\<lparr>gc_fault := Some ''cleanup''\<rparr>)
        else (case v of
          Fails k \<Rightarrow>
            if is_host (ca_route a) \<and> gc_local c \<noteq> None \<and> i = None \<and> k \<in> set fallback_codes
            then (True, c\<lparr>gc_active := Some (a\<lparr>ca_primary := Some (failure_of a k), ca_route := LocalRoute (the (gc_local c))\<rparr>)\<rparr>)
            else (False, ended (Failed (preceding @ [failure_of a k])))
        | Yields r \<Rightarrow>
            (False, ended (case ca_primary a of
               None \<Rightarrow> Success r (prv_provider_id p) (prv_model_version p)
             | Some f \<Rightarrow> Degraded r (prv_provider_id p) (prv_model_version p) f))))"

definition finish_core :: "genvironment \<Rightarrow> outcome_value \<Rightarrow> gclient \<Rightarrow> bool \<times> gclient" where
  "finish_core E v c =
    (case retire E c of (proven, c) \<Rightarrow>
     let clean = (proven \<and> v \<noteq> Fails ''cleanup'')
     in (case interruption E (c\<lparr>gc_unclean := \<not> clean\<rparr>) of (i, c) \<Rightarrow>
        (case gc_active c of
           None \<Rightarrow> (False, c)
         | Some a \<Rightarrow> conclude i (case i of Some k \<Rightarrow> Fails k | None \<Rightarrow> v) clean a c)))"

fun hops :: "gclient \<Rightarrow> nat" where
  "hops c = (case gc_active c of None \<Rightarrow> 0 | Some a \<Rightarrow> if is_host (ca_route a) then 1 else 0)"

section \<open>What a callback cannot change\<close>

text \<open>\<open>moved es c d\<close>: from \<open>c\<close> to \<open>d\<close> only callbacks were made and the effects \<open>es\<close> added: the configuration, the
  replay history, the route and the job of the active call stand.\<close>

definition same_call :: "gcall \<Rightarrow> gcall \<Rightarrow> bool" where
  "same_call a b \<longleftrightarrow> ca_route b = ca_route a \<and> ca_job b = ca_job a \<and> ca_primary b = ca_primary a
     \<and> gq_request_id (ca_request b) = gq_request_id (ca_request a)"

definition moved :: "geffect list \<Rightarrow> gclient \<Rightarrow> gclient \<Rightarrow> bool" where
  "moved es c d \<longleftrightarrow> gc_host d = gc_host c \<and> gc_local d = gc_local c \<and> gc_catalog_version d = gc_catalog_version c
     \<and> gc_ids d = gc_ids c \<and> rel_option same_call (gc_active c) (gc_active d) \<and> gc_terminal d = gc_terminal c
     \<and> (gc_fault c \<noteq> None \<longrightarrow> gc_fault d \<noteq> None) \<and> gc_unclean d = gc_unclean c \<and> gc_configuring d = gc_configuring c
     \<and> (gc_disabled c \<longrightarrow> gc_disabled d) \<and> gc_permit d = gc_permit c \<and> gc_owner d = gc_owner c
     \<and> gc_effects d = gc_effects c @ es"

lemma same_call_refl [simp]: "same_call a a"
  by (simp add: same_call_def)

lemma same_calls_refl [simp]: "rel_option same_call x x"
  by (simp add: option.rel_refl)

lemma same_call_trans: "same_call a b \<Longrightarrow> same_call b c \<Longrightarrow> same_call a c"
  by (simp add: same_call_def)

lemma moved_refl [simp, intro]: "moved [] c c"
  by (auto simp: moved_def option.rel_refl)

lemma moved_trans: "moved es c d \<Longrightarrow> moved fs d e \<Longrightarrow> moved (es @ fs) c e"
  unfolding moved_def by (auto simp: option_rel_Some1 elim!: option.rel_cases intro: same_call_trans)

lemma moved_trans0: "moved [] c d \<Longrightarrow> moved fs d e \<Longrightarrow> moved fs c e"
  using moved_trans[of "[]" c d fs e] by simp

lemma moved_mark: "moved [] c (mark_canceled c)"
  by (cases "gc_active c") (auto simp: moved_def mark_canceled_def same_call_def)

lemma moved_reenter: "moved [] c (reenter r c)"
proof (cases r)
  case (ReDisable owner)
  then show ?thesis using moved_mark[of "c\<lparr>gc_disabled := True\<rparr>"] by (auto simp: moved_def)
qed (simp add: moved_mark)

lemma moved_reenters: "moved [] c (fold reenter rs c)"
  by (induction rs arbitrary: c) (auto intro: moved_trans0 moved_reenter)

lemma moved_invoke: "invoke E c = (m, d) \<Longrightarrow> moved [] c d \<and> \<not> gc_inside d"
  using moved_reenters[of "c\<lparr>gc_time := Suc (gc_time c), gc_inside := True\<rparr>"]
  by (auto simp: invoke_def Let_def moved_def)

lemma moved_effect: "moved [e] c (effect e c)"
  by (auto simp: moved_def effect_def option.rel_refl)

lemma same_interrupted: "interrupted_by t a = (i, b) \<Longrightarrow> same_call a b"
  by (auto simp: interrupted_by_def same_call_def Let_def split: option.splits if_splits)

lemma interrupted_code: "interrupted_by t a = (Some k, b) \<Longrightarrow> k \<in> {''clock'', ''canceled'', ''timeout''}"
  by (auto simp: interrupted_by_def Let_def split: option.splits if_splits)

lemma moved_interruption:
  assumes "interruption E c = (i, d)"
  shows "moved [] c d"
proof -
  obtain m x where m: "invoke E c = (m, x)" by fastforce
  note x = moved_invoke[OF m, THEN conjunct1]
  show ?thesis
  proof (cases "gc_active x")
    case None
    with assms m x show ?thesis by (simp add: interruption_def)
  next
    case (Some a)
    obtain j b where j: "interrupted_by (gm_clock m) a = (j, b)" by fastforce
    from same_interrupted[OF j] have "moved [] x d"
      using assms m Some j by (auto simp: interruption_def moved_def)
    with x show ?thesis by (rule moved_trans0)
  qed
qed

lemma moved_attest: "attest E h c = (r, d) \<Longrightarrow> moved (if r = None then [Attested (ho_peer h)] else []) c d"
  by (auto simp: attest_def split: prod.splits peer_reply.splits if_splits
      dest!: moved_invoke intro: moved_trans0 moved_effect)

definition checks_effects :: "gcall \<Rightarrow> string option \<Rightarrow> geffect list" where
  "checks_effects a r = (case ca_route a of HostRoute h \<Rightarrow> if r = None then [Attested (ho_peer h)] else [] | LocalRoute p \<Rightarrow> [])"

lemma moved_route_checks: "route_checks cd E a c = (r, d) \<Longrightarrow> moved (checks_effects a r) c d"
  by (auto simp: route_checks_def checks_effects_def split: sum.splits option.splits groute.splits dest: moved_attest)

lemma moved_permitted: "permitted E c = (ok, d) \<Longrightarrow> moved [] c d"
  by (auto simp: permitted_def split: prod.splits if_splits dest: moved_invoke)

section \<open>Beginning and finishing a call\<close>

lemma moved_unclean: "moved es c d \<Longrightarrow> moved es (c\<lparr>gc_unclean := u\<rparr>) (d\<lparr>gc_unclean := u\<rparr>)"
  by (simp add: moved_def)

definition begin_geffect :: "groute \<Rightarrow> gateway_request \<Rightarrow> geffect" where
  "begin_geffect r q = (case r of HostRoute h \<Rightarrow> BeginHost (ho_url h) (ho_peer h) (bearer_header (ho_bearer h)) q
    | LocalRoute p \<Rightarrow> BeginLocal q)"

lemma moved_job:
  assumes "moved es c d" "gc_active c = Some a"
  shows "moved es (c\<lparr>gc_active := Some (a\<lparr>ca_job := j\<rparr>)\<rparr>) (d\<lparr>gc_active := map_option (\<lambda>a. a\<lparr>ca_job := j\<rparr>) (gc_active d)\<rparr>)"
  using assms by (auto simp: moved_def same_call_def option_rel_Some1)

lemma begin_effect_cases:
  assumes "begin_effect cd E q c = (v, d)" "gc_active c = Some a"
  shows "(\<forall>r. v \<noteq> Some (Yields r)) \<and>
    ((v \<noteq> None \<and> moved [] (c\<lparr>gc_unclean := True\<rparr>) d)
    \<or> (v \<noteq> None \<and> moved [begin_geffect (ca_route a) q] (c\<lparr>gc_unclean := True\<rparr>) d)
    \<or> (v \<noteq> None \<and> moved [begin_geffect (ca_route a) q, NoJob] (c\<lparr>gc_unclean := False\<rparr>) d)
    \<or> (\<exists>j. moved [begin_geffect (ca_route a) q] (c\<lparr>gc_unclean := True, gc_active := Some (a\<lparr>ca_job := j\<rparr>)\<rparr>) d))"
proof -
  let ?c = "c\<lparr>gc_unclean := True\<rparr>" and ?b = "begin_geffect (ca_route a) q"
  obtain m x where m: "invoke E (effect ?b ?c) = (m, x)" by fastforce
  from moved_trans[OF moved_effect moved_invoke[OF m, THEN conjunct1]] have x: "moved [?b] ?c x" by simp
  define after where "after j = x\<lparr>gc_active := map_option (\<lambda>a. a\<lparr>ca_job := j\<rparr>) (gc_active x)\<rparr>" for j
  have y: "moved [?b] (?c\<lparr>gc_active := Some (a\<lparr>ca_job := j\<rparr>)\<rparr>) (snd (interruption E (after j)))" for j
  proof -
    obtain i e where "interruption E (after j) = (i, e)" by fastforce
    with moved_trans[OF moved_job[OF x, of a j] moved_interruption] assms(2) show ?thesis by (simp add: after_def)
  qed
  have z: "moved [?b, NoJob] (c\<lparr>gc_unclean := False\<rparr>) (effect NoJob (x\<lparr>gc_unclean := False\<rparr>))"
    using moved_trans[OF moved_unclean[OF x, of False] moved_effect] by simp
  have "begin_effect cd E q c =
     (if (case ca_route a of HostRoute h \<Rightarrow> \<exists>e. request_bytes (cd_dumps cd) (cd_parse cd) q = Inl e | LocalRoute p \<Rightarrow> False)
      then (Some (Fails ''provider_failed''), ?c)
      else case gm_begin m of
        BeginRaises \<Rightarrow> (Some (Fails ''provider_failed''), x)
      | BeginRemote k \<Rightarrow> (Some (Fails (gateway_error k)), effect NoJob (x\<lparr>gc_unclean := False\<rparr>))
      | reply \<Rightarrow> (map_option Fails (fst (interruption E (after (reply = BeginJob)))), snd (interruption E (after (reply = BeginJob)))))"
    using assms(2) m
    by (auto simp: begin_effect_def begin_geffect_def after_def Let_def split: groute.splits sum.splits begin_reply.splits prod.splits)
  with assms(1) x y z show ?thesis
    by (auto split: if_splits begin_reply.splits simp: map_option_case split: option.splits)
qed

lemma moved_active: "moved es c d \<Longrightarrow> gc_active c = Some a \<Longrightarrow> \<exists>b. gc_active d = Some b \<and> same_call a b"
  by (auto simp: moved_def option_rel_Some1)

lemma moved_request: "moved es c d \<Longrightarrow> gc_active d = Some b \<Longrightarrow> gq_request_id q = gq_request_id (ca_request b) \<Longrightarrow>
    moved es c (d\<lparr>gc_active := Some (b\<lparr>ca_request := q\<rparr>)\<rparr>)"
  by (auto simp: moved_def same_call_def option_rel_Some2)

lemma begin_allowed_cases:
  assumes "begin_allowed cd E c = (v, d)" "gc_active c = Some a"
  shows "(v \<noteq> None \<and> (\<forall>r. v \<noteq> Some (Yields r)) \<and> moved [] c d)
    \<or> (\<exists>x q. moved [Admitted] c x \<and> \<not> gc_disabled x \<and> gq_request_id q = gq_request_id (ca_request a)
        \<and> begin_effect cd E q x = (v, d))"
proof -
  obtain i x where i: "interruption E c = (i, x)" by fastforce
  note x = moved_interruption[OF i]
  obtain b where b: "gc_active x = Some b" "same_call a b" using moved_active[OF x assms(2)] by blast
  let ?q = "routed_request b"
  have q: "gq_request_id ?q = gq_request_id (ca_request b)" by (simp add: routed_request_def)
  obtain ok y where y: "permitted E (x\<lparr>gc_active := Some (b\<lparr>ca_request := ?q\<rparr>)\<rparr>) = (ok, y)" by fastforce
  note xy = moved_trans0[OF moved_request[OF x b(1) q] moved_permitted[OF y]]
  note xyz = moved_trans0[OF xy moved_effect[of Admitted y]]
  show ?thesis
  proof (cases "i \<noteq> None \<or> \<not> ok \<or> gc_disabled y \<or> (case gc_active y of None \<Rightarrow> False | Some a \<Rightarrow> ca_cancel_requested a)")
    case True
    with assms(1) i b y x xy show ?thesis by (auto simp: begin_allowed_def Let_def split: option.splits)
  next
    case False
    then have "begin_effect cd E ?q (effect Admitted y) = (v, d)" "\<not> gc_disabled (effect Admitted y)"
      using assms(1) i b y by (auto simp: begin_allowed_def Let_def effect_def)
    with xyz q b(2) show ?thesis by (metis same_call_def)
  qed
qed

lemma begin_core_cases:
  assumes "begin_core cd E c = (v, d)" "gc_active c = Some a"
  shows "(v \<noteq> None \<and> (\<forall>r. v \<noteq> Some (Yields r)) \<and> (\<exists>r. moved (checks_effects a r) c d))
    \<or> (\<exists>x q. moved (checks_effects a None @ [Admitted]) c x \<and> \<not> gc_disabled x
        \<and> gq_request_id q = gq_request_id (ca_request a) \<and> begin_effect cd E q x = (v, d))"
proof -
  have none: "\<exists>r. moved (checks_effects a r) c x" if "moved [] c x" for x
    using that by (intro exI[of _ "Some []"]) (auto simp: checks_effects_def split: groute.splits)
  obtain i x where i: "interruption E c = (i, x)" by fastforce
  note x = moved_interruption[OF i]
  obtain b where b: "gc_active x = Some b" "same_call a b" using moved_active[OF x assms(2)] by blast
  have ab: "checks_effects b = checks_effects a" using b(2) by (auto simp: checks_effects_def same_call_def fun_eq_iff)
  obtain r y where y: "route_checks cd E b x = (r, y)" by fastforce
  note xy = moved_trans0[OF x moved_route_checks[OF y, unfolded ab]]
  show ?thesis
  proof (cases i)
    case (Some k)
    with assms(1) i x none show ?thesis by (auto simp: begin_core_def)
  next
    case i0: None
    show ?thesis
    proof (cases r)
      case (Some e)
      with assms(1) i i0 b y xy show ?thesis by (auto simp: begin_core_def)
    next
      case None
      with assms(1) i i0 b y have v: "begin_allowed cd E y = (v, d)" by (simp add: begin_core_def)
      obtain b' where b': "gc_active y = Some b'" "same_call a b'" using moved_active[OF xy assms(2)] by blast
      from begin_allowed_cases[OF v b'(1)] show ?thesis
      proof (elim disjE exE conjE)
        fix z q assume "moved [Admitted] y z" "\<not> gc_disabled z" "gq_request_id q = gq_request_id (ca_request b')"
          "begin_effect cd E q z = (v, d)"
        with moved_trans[OF xy, of "[Admitted]" z] b'(2) None show ?thesis by (auto simp: same_call_def)
      qed (use moved_trans[OF xy, of "[]" d] in auto)
    qed
  qed
qed

lemma moved_retire:
  assumes "retire E c = (p, d)" "gc_active c = Some a"
  shows "moved (if ca_job a then [Retired p] else []) (c\<lparr>gc_active := Some (a\<lparr>ca_job := False\<rparr>), gc_unclean := \<not> p\<rparr>) d
    \<and> (\<not> ca_job a \<longrightarrow> p = (\<not> gc_unclean c))"
proof (cases "ca_job a")
  case True
  obtain m x where m: "invoke E (c\<lparr>gc_active := Some (a\<lparr>ca_job := False\<rparr>)\<rparr>) = (m, x)" by fastforce
  from moved_trans0[OF moved_unclean[OF moved_invoke[OF m, THEN conjunct1]] moved_effect] assms True m
  show ?thesis by (auto simp: retire_def)
next
  case False
  with assms show ?thesis by (auto simp: retire_def same_call_def moved_def)
qed

lemma finish_core_cases:
  assumes "finish_core E v c = (again, d)" "gc_active c = Some a"
  shows "\<exists>p i y b. (\<not> ca_job a \<longrightarrow> p = (\<not> gc_unclean c))
    \<and> moved (if ca_job a then [Retired p] else [])
        (c\<lparr>gc_active := Some (a\<lparr>ca_job := False\<rparr>), gc_unclean := \<not> (p \<and> v \<noteq> Fails ''cleanup'')\<rparr>) y
    \<and> gc_active y = Some b \<and> same_call (a\<lparr>ca_job := False\<rparr>) b
    \<and> (case i of None \<Rightarrow> True | Some k \<Rightarrow> k \<in> {''clock'', ''canceled'', ''timeout''})
    \<and> (again, d) = conclude i (case i of Some k \<Rightarrow> Fails k | None \<Rightarrow> v) (p \<and> v \<noteq> Fails ''cleanup'') b y"
proof -
  obtain p x where x: "retire E c = (p, x)" by fastforce
  note px = moved_retire[OF x assms(2)]
  let ?clean = "p \<and> v \<noteq> Fails ''cleanup''"
  obtain i y where y: "interruption E (x\<lparr>gc_unclean := \<not> ?clean\<rparr>) = (i, y)" by fastforce
  from moved_trans[OF moved_unclean[OF px[THEN conjunct1], of "\<not> ?clean"] moved_interruption[OF y]]
  have m: "moved (if ca_job a then [Retired p] else [])
      (c\<lparr>gc_active := Some (a\<lparr>ca_job := False\<rparr>), gc_unclean := \<not> ?clean\<rparr>) y" by simp
  then obtain b where b: "gc_active y = Some b" "same_call (a\<lparr>ca_job := False\<rparr>) b" using moved_active by fastforce
  have i: "case i of None \<Rightarrow> True | Some k \<Rightarrow> k \<in> {''clock'', ''canceled'', ''timeout''}"
    using y by (auto simp: interruption_def split: prod.splits option.splits dest!: interrupted_code)
  have "(again, d) = conclude i (case i of Some k \<Rightarrow> Fails k | None \<Rightarrow> v) ?clean b y"
    using assms(1) x y b(1) by (simp add: finish_core_def Let_def)
  with px m b i show ?thesis by blast
qed

lemma conclude_again: "conclude i v clean b y = (True, d) \<Longrightarrow> is_host (ca_route b)
    \<and> (\<exists>k l. v = Fails k \<and> k \<in> set fallback_codes \<and> i = None \<and> clean \<and> gc_local y = Some l
      \<and> d = y\<lparr>gc_active := Some (b\<lparr>ca_primary := Some (failure_of b k), ca_route := LocalRoute l\<rparr>)\<rparr>)"
  by (auto simp: conclude_def Let_def split: if_splits outcome_value.splits)

lemma hops_moved: "moved es c d \<Longrightarrow> hops d = hops c"
  by (cases "gc_active c") (auto simp: moved_def same_call_def option_rel_Some1)

lemma hops_begin_effect: "begin_effect cd E q c = (v, d) \<Longrightarrow> hops d = hops c"
proof (cases "gc_active c")
  case (Some a)
  assume "begin_effect cd E q c = (v, d)"
  from begin_effect_cases[OF this Some] Some show ?thesis by (auto dest!: hops_moved)
qed (simp add: begin_effect_def)

lemma hops_begin_core: "begin_core cd E c = (v, d) \<Longrightarrow> hops d = hops c"
proof (cases "gc_active c")
  case (Some a)
  assume "begin_core cd E c = (v, d)"
  from begin_core_cases[OF this Some] show ?thesis by (auto dest!: hops_moved hops_begin_effect)
next
  case None
  assume d: "begin_core cd E c = (v, d)"
  obtain i x where i: "interruption E c = (i, x)" by fastforce
  with moved_interruption[OF i] None have "gc_active x = None" by (simp add: moved_def)
  with d i hops_moved[OF moved_interruption[OF i]] show ?thesis by (auto simp: begin_core_def split: option.splits)
qed

lemma hops_finish_core: "finish_core E v c = (True, d) \<Longrightarrow> hops d < hops c"
proof (cases "gc_active c")
  case None
  assume d: "finish_core E v c = (True, d)"
  obtain p x where x: "retire E c = (p, x)" by fastforce
  then have x': "gc_active x = None" using None by (simp add: retire_def)
  obtain i y where y: "interruption E (x\<lparr>gc_unclean := \<not> (p \<and> v \<noteq> Fails ''cleanup'')\<rparr>) = (i, y)" by fastforce
  from moved_interruption[OF y] x' have "gc_active y = None" by (simp add: moved_def)
  with d x y show ?thesis by (simp add: finish_core_def)
next
  case (Some a)
  assume "finish_core E v c = (True, d)"
  from finish_core_cases[OF this Some] Some show ?thesis by (auto dest!: conclude_again[OF sym] simp: same_call_def)
qed

text \<open>\<open>_finish\<close> and \<open>_begin\<close> call each other at most once more: a second route is the local one.\<close>

function finish_call :: "codec \<Rightarrow> genvironment \<Rightarrow> outcome_value \<Rightarrow> gclient \<Rightarrow> gclient" where
  "finish_call cd E v c =
    (case finish_core E v c of
       (False, c') \<Rightarrow> c'
     | (True, c') \<Rightarrow> (case begin_core cd E c' of (None, c'') \<Rightarrow> c'' | (Some w, c'') \<Rightarrow> finish_call cd E w c''))"
  by pat_completeness auto
termination
  by (relation "measure (\<lambda>(cd, E, v, c). hops c)")
    (auto dest!: hops_finish_core[OF sym] hops_begin_core[OF sym] simp del: hops.simps)

declare finish_call.simps [simp del]

definition begin_call :: "codec \<Rightarrow> genvironment \<Rightarrow> gclient \<Rightarrow> gclient" where
  "begin_call cd E c = (case begin_core cd E c of (None, c) \<Rightarrow> c | (Some v, c) \<Rightarrow> finish_call cd E v c)"

section \<open>Operations\<close>

text \<open>\<open>request\<close> is \<open>None\<close> when it is no \<open>Request\<close>.\<close>

definition parsed_request :: "codec \<Rightarrow> gateway_request option \<Rightarrow> string + gateway_request" where
  "parsed_request cd request =
    (case request of
       None \<Rightarrow> Inl ''invalid_request''
     | Some q \<Rightarrow> (case request_bytes (cd_dumps cd) (cd_parse cd) q of
         Inl e \<Rightarrow> Inl e
       | Inr raw \<Rightarrow> parse_request (cd_parse cd) (Some raw)))"

definition gateway_start ::
  "codec \<Rightarrow> genvironment \<Rightarrow> gateway_request option \<Rightarrow> gclient \<Rightarrow> string option \<times> gclient" where
  "gateway_start cd E request c =
    (if gc_active c \<noteq> None \<or> gc_terminal c \<noteq> None \<or> gc_inside c \<or> gc_configuring c then (Some ''busy'', c)
     else case gc_fault c of
       Some k \<Rightarrow> (Some k, c)
     | None \<Rightarrow>
         if gc_disabled c then (Some ''canceled'', c)
         else (case parsed_request cd request of
           Inl e \<Rightarrow> (Some e, c)
         | Inr q \<Rightarrow>
             if gq_catalog_version q \<noteq> gc_catalog_version c then (Some ''stale_catalog'', c)
             else if (gq_provider_id q, gq_model_version q)
                 \<noteq> (prv_provider_id (ho_provider (gc_host c)), prv_model_version (ho_provider (gc_host c)))
             then (Some ''identity'', c)
             else (case claim (gq_request_id q) (gc_ids c) of
               Inl e \<Rightarrow> (Some e, c)
             | Inr ids \<Rightarrow> (None, begin_call cd E (c\<lparr>gc_ids := ids, gc_active := Some \<lparr>ca_request = q,
                 ca_route = HostRoute (gc_host c), ca_deadline = None, ca_last_time = None, ca_job = False,
                 ca_primary = None, ca_cancel_requested = False\<rparr>\<rparr>)))))"

text \<open>\<open>_receive\<close> before \<open>_finish\<close>.\<close>

definition local_body :: "incoming \<Rightarrow> byte list option" where
  "local_body i = (case i of RawReply raw \<Rightarrow> Some raw | _ \<Rightarrow> None)"

definition host_body :: "host \<Rightarrow> incoming \<Rightarrow> string + byte list option" where
  "host_body h i =
    (case i of
       HttpReply (Some status) body peer \<Rightarrow>
         if peer \<noteq> Some (ho_peer h) then Inl ''identity''
         else if status \<in> {401, 403} then Inl ''authentication''
         else if status \<in> {502, 503, 504} then Inl (if status = 504 then ''timeout'' else ''unavailable'')
         else if status \<noteq> 200 then Inl ''invalid_response''
         else Inr body
     | _ \<Rightarrow> Inl ''invalid_response'')"

definition received :: "codec \<Rightarrow> gcall \<Rightarrow> incoming \<Rightarrow> outcome_value" where
  "received cd a i =
    (case (case ca_route a of HostRoute h \<Rightarrow> host_body h i | LocalRoute p \<Rightarrow> Inr (local_body i)) of
       Inl e \<Rightarrow> Fails e
     | Inr raw \<Rightarrow> (case parse_response (cd_parse cd) raw (ca_request a) of
         Inl e \<Rightarrow> Fails e
       | Inr (RemoteError k) \<Rightarrow> Fails k
       | Inr r \<Rightarrow> Yields r))"

definition poll_job :: "codec \<Rightarrow> genvironment \<Rightarrow> gclient \<Rightarrow> outcome_value option \<times> gclient" where
  "poll_job cd E c =
    (case interruption E c of
       (Some i, c) \<Rightarrow> (Some (Fails i), c)
     | (None, c) \<Rightarrow>
         (case gc_active c of
            None \<Rightarrow> (None, c)
          | Some a \<Rightarrow>
              if \<not> ca_job a then (Some (Fails ''provider_failed''), c)
              else (case invoke E c of (m, c) \<Rightarrow>
                (case gm_poll m of
                   PollRefused k \<Rightarrow> (Some (Fails (gateway_error k)), c)
                 | PollRaises \<Rightarrow> (Some (Fails ''provider_failed''), c)
                 | reply \<Rightarrow>
                     (case interruption E c of
                        (Some i, c) \<Rightarrow> (Some (Fails i), c)
                      | (None, c) \<Rightarrow>
                          (case reply of
                             PollReply i \<Rightarrow> (map_option (\<lambda>a. received cd a i) (gc_active c), c)
                           | _ \<Rightarrow> (None, c)))))))"

definition gateway_poll :: "codec \<Rightarrow> genvironment \<Rightarrow> gclient \<Rightarrow> gateway_result option \<times> gclient" where
  "gateway_poll cd E c =
    (if gc_inside c \<or> gc_configuring c then (None, c)
     else let c = (if gc_active c = None then c
                   else case poll_job cd E c of (None, c) \<Rightarrow> c | (Some v, c) \<Rightarrow> finish_call cd E v c)
          in (gc_terminal c, c\<lparr>gc_terminal := None\<rparr>))"

definition gateway_cancel :: "codec \<Rightarrow> genvironment \<Rightarrow> gclient \<Rightarrow> gclient" where
  "gateway_cancel cd E c =
    (if gc_active c = None then c
     else if gc_inside c then mark_canceled c
     else finish_call cd E (Fails ''canceled'') (mark_canceled c))"

text \<open>The owner is the one object that \<open>claim_configuration\<close> ever makes, here the number 0.\<close>

definition claim_configuration :: "gclient \<Rightarrow> (string + nat) \<times> gclient" where
  "claim_configuration c =
    (if gc_owner c \<noteq> None \<or> gc_active c \<noteq> None \<or> gc_terminal c \<noteq> None \<or> gc_inside c \<or> gc_configuring c
     then (Inl ''busy'', c)
     else case gc_fault c of
       Some k \<Rightarrow> (Inl k, c)
     | None \<Rightarrow> (Inr 0, c\<lparr>gc_owner := Some 0, gc_disabled := True\<rparr>))"

definition enter_configuration :: "nat option \<Rightarrow> gclient \<Rightarrow> string option \<times> gclient" where
  "enter_configuration owner c =
    (if owner \<noteq> gc_owner c then (Some ''identity'', c)
     else if gc_inside c \<or> gc_configuring c then (Some ''busy'', c)
     else (None, c\<lparr>gc_configuring := True\<rparr>))"

definition leave_configuration :: "gclient \<Rightarrow> gclient" where
  "leave_configuration c = c\<lparr>gc_configuring := False\<rparr>"

text \<open>Of what is given, \<open>None\<close> is an object of another type; the permit is \<open>None\<close>, callable or another object.\<close>

datatype permit_given = NoPermit | CallablePermit | OtherPermit

definition reconfigure ::
  "host option \<Rightarrow> provider option option \<Rightarrow> permit_given \<Rightarrow> nat option \<Rightarrow> gclient \<Rightarrow> string option \<times> gclient" where
  "reconfigure host local permit owner c =
    (if owner \<noteq> gc_owner c then (Some ''identity'', c)
     else if gc_active c \<noteq> None \<or> gc_terminal c \<noteq> None \<or> gc_inside c then (Some ''busy'', c)
     else case gc_fault c of
       Some k \<Rightarrow> (Some k, c)
     | None \<Rightarrow>
         (case (host, local) of
            (Some h, Some l) \<Rightarrow>
              if permit = OtherPermit then (Some ''invalid_request'', c)
              else (None, c\<lparr>gc_host := h, gc_local := l, gc_permit := (permit = CallablePermit), gc_disabled := False\<rparr>)
          | _ \<Rightarrow> (Some ''identity'', c)))"

definition gateway_disable :: "codec \<Rightarrow> genvironment \<Rightarrow> nat option \<Rightarrow> gclient \<Rightarrow> string option \<times> gclient" where
  "gateway_disable cd E owner c =
    (if owner \<noteq> gc_owner c then (Some ''identity'', c)
     else (None, gateway_cancel cd E (c\<lparr>gc_disabled := True\<rparr>)))"

section \<open>Runs\<close>

datatype gop =
    OpStart "gateway_request option"
  | OpPoll
  | OpCancel
  | OpDisable "nat option"
  | OpClaim
  | OpEnter "nat option"
  | OpLeave
  | OpReconfigure "host option" "provider option option" permit_given "nat option"

fun gateway_do :: "codec \<Rightarrow> genvironment \<Rightarrow> gop \<Rightarrow> gclient \<Rightarrow> gclient" where
  "gateway_do cd E (OpStart q) c = snd (gateway_start cd E q c)"
| "gateway_do cd E OpPoll c = snd (gateway_poll cd E c)"
| "gateway_do cd E OpCancel c = gateway_cancel cd E c"
| "gateway_do cd E (OpDisable owner) c = snd (gateway_disable cd E owner c)"
| "gateway_do cd E OpClaim c = snd (claim_configuration c)"
| "gateway_do cd E (OpEnter owner) c = snd (enter_configuration owner c)"
| "gateway_do cd E OpLeave c = leave_configuration c"
| "gateway_do cd E (OpReconfigure h l p owner) c = snd (reconfigure h l p owner c)"

definition gateway_run :: "codec \<Rightarrow> genvironment \<Rightarrow> gop list \<Rightarrow> gclient \<Rightarrow> gclient" where
  "gateway_run cd E ops c = fold (gateway_do cd E) ops c"

end
