(* ===== verification/Provider_Records.thy ===== *)
theory Provider_Records
  imports Gateway_Client
begin

text \<open>
  Provider configuration records, \<open>src/runtime/providers/records.py\<close>, with the tables of
  \<open>schemas/provider-configuration-v1.json\<close>. \<open>jlen\<close> is the length of the text \<open>json.dumps\<close> writes, \<open>None\<close> where
  it raises, and \<open>sha\<close> the digest of a document, a function of the sorted value it spells. Which error \<open>_check\<close> raises
  is not told apart: \<open>_parse\<close> replaces it.
\<close>

section \<open>The schema of the package\<close>

datatype pschema =
    ProviderRef
  | ConstInt int
  | IntMin int
  | Boolean
  | Digest
  | OneName "string list"
  | UniqueArray pschema
  | ClosedObject "(string \<times> pschema) list"

text \<open>The required keys of an object are all its properties, so that a check by property is a check by item.\<close>

fun pcheck :: "pschema \<Rightarrow> pyv \<Rightarrow> bool" where
  "pcheck ProviderRef v = (case decode v of Inr (RProvider p) \<Rightarrow> True | _ \<Rightarrow> False)"
| "pcheck (ConstInt k) v = (v = VInt k)"
| "pcheck (IntMin m) v = (case v of VInt i \<Rightarrow> m \<le> i | _ \<Rightarrow> False)"
| "pcheck Boolean v = (case v of VBool b \<Rightarrow> True | _ \<Rightarrow> False)"
| "pcheck Digest v = (case v of VStr s \<Rightarrow> hex64_pattern s | _ \<Rightarrow> False)"
| "pcheck (OneName ns) v = (case v of VStr s \<Rightarrow> s \<in> set ns | _ \<Rightarrow> False)"
| "pcheck (UniqueArray s) v = (case v of VList vs \<Rightarrow> list_all (pcheck s) vs \<and> distinct vs | _ \<Rightarrow> False)"
| "pcheck (ClosedObject ps) v =
    (case v of
       VDict d \<Rightarrow> set (keys d) = set (map fst ps)
         \<and> list_all (\<lambda>(k, s). case map_of d k of None \<Rightarrow> False | Some u \<Rightarrow> pcheck s u) ps
     | _ \<Rightarrow> False)"

definition resources_schema :: pschema where
  "resources_schema = ClosedObject [(''ram_bytes'', IntMin 0), (''accelerator_bytes'', IntMin 0), (''disk_bytes'', IntMin 0),
     (''cpu_millicores'', IntMin 0), (''slots'', IntMin 0)]"

definition manifest_schema :: pschema where
  "manifest_schema = ClosedObject [(''version'', ConstInt 1), (''provider'', ProviderRef), (''artifact_sha256'', Digest),
     (''resources'', resources_schema)]"

definition policy_schema :: pschema where
  "policy_schema = ClosedObject [(''version'', ConstInt 1), (''health_ttl_ms'', IntMin 1), (''allow_degraded'', Boolean),
     (''allow_fallback'', Boolean), (''updates'', OneName [''disabled'', ''manual'']),
     (''shared_memory'', UniqueArray (OneName [''host'', ''vm''])), (''host_budget'', resources_schema),
     (''vm_budget'', resources_schema)]"

text \<open>\<open>_parse\<close>, whose error names the record.\<close>

definition well_shaped :: "(pyv \<Rightarrow> int option) \<Rightarrow> pschema \<Rightarrow> pyv \<Rightarrow> bool" where
  "well_shaped jlen s raw = ((case jlen raw of None \<Rightarrow> False | Some n \<Rightarrow> n \<le> 65536) \<and> pcheck s raw)"

section \<open>Resources\<close>

record resources =
  rs_ram_bytes :: int
  rs_accelerator_bytes :: int
  rs_disk_bytes :: int
  rs_cpu_millicores :: int
  rs_slots :: int

definition resources_dict :: "pyv \<Rightarrow> pyv \<Rightarrow> pyv \<Rightarrow> pyv \<Rightarrow> pyv \<Rightarrow> pyv" where
  "resources_dict ram accelerator disk cpu slots = VDict [(''ram_bytes'', ram), (''accelerator_bytes'', accelerator),
     (''disk_bytes'', disk), (''cpu_millicores'', cpu), (''slots'', slots)]"

definition resources_doc :: "resources \<Rightarrow> pyv" where
  "resources_doc r = resources_dict (VInt (rs_ram_bytes r)) (VInt (rs_accelerator_bytes r)) (VInt (rs_disk_bytes r))
     (VInt (rs_cpu_millicores r)) (VInt (rs_slots r))"

definition read_resources :: "pyv \<Rightarrow> resources option" where
  "read_resources v = do {
     a \<leftarrow> int_field v ''ram_bytes''; b \<leftarrow> int_field v ''accelerator_bytes''; c \<leftarrow> int_field v ''disk_bytes'';
     d \<leftarrow> int_field v ''cpu_millicores''; e \<leftarrow> int_field v ''slots'';
     Some \<lparr>rs_ram_bytes = a, rs_accelerator_bytes = b, rs_disk_bytes = c, rs_cpu_millicores = d, rs_slots = e\<rparr> }"

definition resources_init :: "(pyv \<Rightarrow> int option) \<Rightarrow> pyv \<Rightarrow> pyv \<Rightarrow> pyv \<Rightarrow> pyv \<Rightarrow> pyv \<Rightarrow> string + resources" where
  "resources_init jlen ram accelerator disk cpu slots =
    (let doc = resources_dict ram accelerator disk cpu slots
     in if \<not> well_shaped jlen resources_schema doc then Inl ''invalid-resources''
        else case read_resources doc of None \<Rightarrow> Inl ''invalid-resources'' | Some r \<Rightarrow> Inr r)"

text \<open>\<open>Resources(**raw)\<close> for an object that \<open>_parse\<close> accepted within a larger one.\<close>

definition resources_from :: "(pyv \<Rightarrow> int option) \<Rightarrow> pyv \<Rightarrow> string + resources" where
  "resources_from jlen v =
    (case (field v ''ram_bytes'', field v ''accelerator_bytes'', field v ''disk_bytes'', field v ''cpu_millicores'', field v ''slots'') of
       (Some a, Some b, Some c, Some d, Some e) \<Rightarrow> resources_init jlen a b c d e
     | _ \<Rightarrow> Inl ''invalid-resources'')"

section \<open>Manifests\<close>

record manifest =
  mf_provider :: provider
  mf_artifact_sha256 :: string
  mf_resources :: resources

definition manifest_doc :: "provider \<Rightarrow> pyv \<Rightarrow> resources \<Rightarrow> pyv" where
  "manifest_doc p artifact r = VDict [(''version'', VInt 1), (''provider'', thaw_rec (RProvider p)),
     (''artifact_sha256'', artifact), (''resources'', resources_doc r)]"

definition manifest_document :: "manifest \<Rightarrow> pyv" where
  "manifest_document m = manifest_doc (mf_provider m) (VStr (mf_artifact_sha256 m)) (mf_resources m)"

text \<open>A provider or resources of another type are \<open>None\<close>; an error of the contracts is \<open>contract\<close>.\<close>

definition manifest_init ::
  "(pyv \<Rightarrow> int option) \<Rightarrow> provider option \<Rightarrow> pyv \<Rightarrow> resources option \<Rightarrow> string + manifest" where
  "manifest_init jlen provider artifact resources =
    (case (provider, resources) of
       (Some p, Some r) \<Rightarrow>
         (case Contracts.snapshot (RProvider p) of
            Inr (RProvider q) \<Rightarrow>
              (if \<not> well_shaped jlen manifest_schema (manifest_doc q artifact r) then Inl ''invalid-manifest''
               else if prv_enabled q \<or> prv_health q \<noteq> ''unavailable'' then Inl ''manifest-authority''
               else if prv_capabilities q = [] \<or> rs_slots r < 1 then Inl ''manifest-empty''
               else case artifact of
                 VStr s \<Rightarrow> Inr \<lparr>mf_provider = q, mf_artifact_sha256 = s, mf_resources = r\<rparr>
               | _ \<Rightarrow> Inl ''invalid-manifest'')
          | _ \<Rightarrow> Inl ''contract'')
     | _ \<Rightarrow> Inl ''manifest'')"

definition manifest_digest :: "(pyv \<Rightarrow> string) \<Rightarrow> manifest \<Rightarrow> string" where
  "manifest_digest sha m = sha (canon (manifest_document m))"

definition parse_manifest :: "(pyv \<Rightarrow> int option) \<Rightarrow> pyv \<Rightarrow> string + manifest" where
  "parse_manifest jlen raw =
    (if \<not> well_shaped jlen manifest_schema raw then Inl ''invalid-manifest''
     else case (field raw ''provider'', field raw ''artifact_sha256'', field raw ''resources'') of
       (Some p, Some a, Some r) \<Rightarrow>
         (case decode p of
            Inr (RProvider q) \<Rightarrow> (case resources_from jlen r of Inl e \<Rightarrow> Inl e | Inr rs \<Rightarrow> manifest_init jlen (Some q) a (Some rs))
          | _ \<Rightarrow> Inl ''contract'')
     | _ \<Rightarrow> Inl ''invalid-manifest'')"

section \<open>Policies\<close>

record provider_policy =
  pp_health_ttl_ms :: int
  pp_allow_degraded :: bool
  pp_allow_fallback :: bool
  pp_updates :: string
  pp_shared_memory :: "string list"
  pp_host_budget :: resources
  pp_vm_budget :: resources

definition policy_doc :: "pyv \<Rightarrow> pyv \<Rightarrow> pyv \<Rightarrow> pyv \<Rightarrow> pyv list \<Rightarrow> resources \<Rightarrow> resources \<Rightarrow> pyv" where
  "policy_doc ttl degraded fallback updates shared h v = VDict [(''version'', VInt 1), (''health_ttl_ms'', ttl),
     (''allow_degraded'', degraded), (''allow_fallback'', fallback), (''updates'', updates), (''shared_memory'', VList shared),
     (''host_budget'', resources_doc h), (''vm_budget'', resources_doc v)]"

definition policy_document :: "provider_policy \<Rightarrow> pyv" where
  "policy_document p = policy_doc (VInt (pp_health_ttl_ms p)) (VBool (pp_allow_degraded p)) (VBool (pp_allow_fallback p))
     (VStr (pp_updates p)) (map VStr (pp_shared_memory p)) (pp_host_budget p) (pp_vm_budget p)"

definition policy_init ::
  "(pyv \<Rightarrow> int option) \<Rightarrow> pyv \<Rightarrow> pyv \<Rightarrow> pyv \<Rightarrow> pyv \<Rightarrow> pyv \<Rightarrow> resources option \<Rightarrow> resources option \<Rightarrow> string + provider_policy" where
  "policy_init jlen ttl degraded fallback updates shared host_budget vm_budget =
    (case (shared, host_budget, vm_budget) of
       (VTuple vs, Some h, Some v) \<Rightarrow>
         (if \<not> well_shaped jlen policy_schema (policy_doc ttl degraded fallback updates vs h v) then Inl ''invalid-policy''
          else case (ttl, degraded, fallback, updates, those (map as_str vs)) of
            (VInt t, VBool d, VBool f, VStr u, Some ss) \<Rightarrow>
              Inr \<lparr>pp_health_ttl_ms = t, pp_allow_degraded = d, pp_allow_fallback = f, pp_updates = u,
                pp_shared_memory = ss, pp_host_budget = h, pp_vm_budget = v\<rparr>
          | _ \<Rightarrow> Inl ''invalid-policy'')
     | _ \<Rightarrow> Inl ''policy'')"

definition policy_digest :: "(pyv \<Rightarrow> string) \<Rightarrow> provider_policy \<Rightarrow> string" where
  "policy_digest sha p = sha (canon (policy_document p))"

definition parse_policy :: "(pyv \<Rightarrow> int option) \<Rightarrow> pyv \<Rightarrow> string + provider_policy" where
  "parse_policy jlen raw =
    (if \<not> well_shaped jlen policy_schema raw then Inl ''invalid-policy''
     else case (field raw ''health_ttl_ms'', field raw ''allow_degraded'', field raw ''allow_fallback'', field raw ''updates'',
                list_field raw ''shared_memory'', field raw ''host_budget'', field raw ''vm_budget'') of
       (Some t, Some d, Some f, Some u, Some vs, Some h, Some v) \<Rightarrow>
         (case resources_from jlen h of
            Inl e \<Rightarrow> Inl e
          | Inr hb \<Rightarrow> (case resources_from jlen v of
              Inl e \<Rightarrow> Inl e
            | Inr vb \<Rightarrow> policy_init jlen t d f u (VTuple vs) (Some hb) (Some vb)))
     | _ \<Rightarrow> Inl ''invalid-policy'')"

section \<open>Budgets\<close>

definition total :: "('a \<Rightarrow> int) \<Rightarrow> 'a list \<Rightarrow> int" where
  "total f xs = sum_list (map f xs)"

definition exceeds :: "resources list \<Rightarrow> bool \<Rightarrow> resources \<Rightarrow> bool" where
  "exceeds used shared cap \<longleftrightarrow>
     total rs_ram_bytes used + (if shared then total rs_accelerator_bytes used else 0) > rs_ram_bytes cap
     \<or> total rs_accelerator_bytes used > rs_accelerator_bytes cap \<or> total rs_disk_bytes used > rs_disk_bytes cap
     \<or> total rs_cpu_millicores used > rs_cpu_millicores cap \<or> total rs_slots used > rs_slots cap"

definition placed :: "string \<Rightarrow> manifest list \<Rightarrow> resources list" where
  "placed placement ms = map mf_resources (filter (\<lambda>m. prv_placement (mf_provider m) = placement) ms)"

definition check_budgets :: "manifest option list \<Rightarrow> provider_policy option \<Rightarrow> string option" where
  "check_budgets manifests policy =
    (case policy of
       None \<Rightarrow> Some ''policy-required''
     | Some p \<Rightarrow>
         (case those manifests of
            None \<Rightarrow> Some ''manifest-required''
          | Some ms \<Rightarrow>
              if list_ex (\<lambda>(placement, cap). exceeds (placed placement ms) (placement \<in> set (pp_shared_memory p)) cap)
                   [(''host'', pp_host_budget p), (''vm'', pp_vm_budget p)]
              then Some ''budget-exceeded'' else None))"

section \<open>Round trips and bounds\<close>

lemma pcheck_IntMin: "pcheck (IntMin k) v \<longleftrightarrow> (\<exists>i. v = VInt i \<and> k \<le> i)"
  by (cases v) auto

lemma pcheck_resources: "pcheck resources_schema (resources_dict a b c d e)
    \<longleftrightarrow> (\<exists>i j k l m. a = VInt i \<and> b = VInt j \<and> c = VInt k \<and> d = VInt l \<and> e = VInt m
        \<and> 0 \<le> i \<and> 0 \<le> j \<and> 0 \<le> k \<and> 0 \<le> l \<and> 0 \<le> m)"
  by (simp add: resources_schema_def resources_dict_def keys_def pcheck_IntMin del: pcheck.simps(3)) blast

lemma resources_init_doc:
  assumes "resources_init jlen a b c d e = Inr r"
  shows "well_shaped jlen resources_schema (resources_doc r) \<and> read_resources (resources_doc r) = Some r
    \<and> 0 \<le> rs_ram_bytes r \<and> 0 \<le> rs_accelerator_bytes r \<and> 0 \<le> rs_disk_bytes r \<and> 0 \<le> rs_cpu_millicores r \<and> 0 \<le> rs_slots r"
proof -
  have w: "well_shaped jlen resources_schema (resources_dict a b c d e)" "read_resources (resources_dict a b c d e) = Some r"
    using assms by (auto simp: resources_init_def Let_def split: if_splits option.splits)
  then obtain i j k l m where v: "a = VInt i" "b = VInt j" "c = VInt k" "d = VInt l" "e = VInt m"
      "0 \<le> i" "0 \<le> j" "0 \<le> k" "0 \<le> l" "0 \<le> m" unfolding well_shaped_def pcheck_resources by blast
  with w(2) have "r = \<lparr>rs_ram_bytes = i, rs_accelerator_bytes = j, rs_disk_bytes = k, rs_cpu_millicores = l, rs_slots = m\<rparr>"
    by (simp add: read_resources_def resources_dict_def int_field_def field_def)
  with w v show ?thesis by (simp add: resources_doc_def)
qed

lemma resources_from_doc:
  assumes "resources_init jlen a b c d e = Inr r"
  shows "resources_from jlen (resources_doc r) = Inr r"
  using resources_init_doc[OF assms]
  by (simp add: resources_from_def resources_doc_def resources_dict_def field_def resources_init_def)

lemma manifest_roundtrip:
  assumes "resources_init jlen a b c d e = Inr r" "manifest_init jlen (Some p) artifact (Some r) = Inr m"
  shows "parse_manifest jlen (manifest_document m) = Inr m"
proof -
  obtain q s where q: "Contracts.snapshot (RProvider p) = Inr (RProvider q)" "artifact = VStr s"
      "well_shaped jlen manifest_schema (manifest_doc q (VStr s) r)" "\<not> prv_enabled q" "prv_health q = ''unavailable''"
      "prv_capabilities q \<noteq> []" "1 \<le> rs_slots r" "m = \<lparr>mf_provider = q, mf_artifact_sha256 = s, mf_resources = r\<rparr>"
    using assms(2) by (auto simp: manifest_init_def split: sum.splits rec.splits if_splits pyv.splits)
  have "decode (thaw_rec (RProvider q)) = Inr (RProvider q)" "Contracts.snapshot (RProvider q) = Inr (RProvider q)"
    using snapshot_idem[OF q(1)] by (auto simp: snapshot_eq_Inr)
  moreover have "manifest_document m = manifest_doc q (VStr s) r" by (simp add: manifest_document_def q(8))
  ultimately show ?thesis using resources_from_doc[OF assms(1)] q
    by (simp add: parse_manifest_def manifest_doc_def field_def manifest_init_def del: thaw_rec.simps)
qed

lemma those_as_str [simp]: "those (map as_str (map VStr ss)) = Some ss"
  by (induction ss) (auto simp: as_str_def)

lemma those_as_str_eq: "those (map as_str vs) = Some ss \<Longrightarrow> vs = map VStr ss"
  by (induction vs arbitrary: ss) (auto simp: as_str_def split: pyv.splits)

lemma policy_roundtrip:
  assumes "resources_init jlen a b c d e = Inr h" "resources_init jlen a' b' c' d' e' = Inr v"
    "policy_init jlen ttl degraded fallback updates shared (Some h) (Some v) = Inr p"
  shows "parse_policy jlen (policy_document p) = Inr p"
proof -
  obtain t dg f u ss where q: "shared = VTuple (map VStr ss)"
      "well_shaped jlen policy_schema (policy_doc (VInt t) (VBool dg) (VBool f) (VStr u) (map VStr ss) h v)"
      "p = \<lparr>pp_health_ttl_ms = t, pp_allow_degraded = dg, pp_allow_fallback = f, pp_updates = u,
        pp_shared_memory = ss, pp_host_budget = h, pp_vm_budget = v\<rparr>"
    using assms(3) by (auto simp: policy_init_def dest: those_as_str_eq split: pyv.splits if_splits option.splits)
  have "policy_document p = policy_doc (VInt t) (VBool dg) (VBool f) (VStr u) (map VStr ss) h v"
    by (simp add: policy_document_def q(3))
  then show ?thesis using resources_from_doc[OF assms(1)] resources_from_doc[OF assms(2)] q
    by (simp add: parse_policy_def policy_doc_def field_def list_field_def policy_init_def del: map_map)
qed

text \<open>A manifest and a policy survive their documents: whatever the constructors accept, the document of the record
  is parsed back to the very record, so that the digest of the document identifies it.\<close>

theorem provider_records_roundtrip:
  assumes "resources_init jlen a b c d e = Inr r" "resources_init jlen a' b' c' d' e' = Inr v"
    "manifest_init jlen (Some p) artifact (Some r) = Inr m"
    "policy_init jlen ttl degraded fallback updates shared (Some r) (Some v) = Inr y"
  shows "parse_manifest jlen (manifest_document m) = Inr m \<and> parse_policy jlen (policy_document y) = Inr y"
  using manifest_roundtrip[OF assms(1,3)] policy_roundtrip[OF assms(1,2,4)] by simp

definition sample_resources :: resources where
  "sample_resources = \<lparr>rs_ram_bytes = 8, rs_accelerator_bytes = 4, rs_disk_bytes = 2, rs_cpu_millicores = 1, rs_slots = 1\<rparr>"

definition sample_manifest :: manifest where
  "sample_manifest = \<lparr>mf_provider = sample_host\<lparr>prv_enabled := False, prv_health := ''unavailable''\<rparr>,
     mf_artifact_sha256 = replicate 64 CHR ''a'', mf_resources = sample_resources\<rparr>"

definition sample_policy :: provider_policy where
  "sample_policy = \<lparr>pp_health_ttl_ms = 1000, pp_allow_degraded = False, pp_allow_fallback = True, pp_updates = ''manual'',
     pp_shared_memory = [''host''], pp_host_budget = sample_resources\<lparr>rs_ram_bytes := 12\<rparr>, pp_vm_budget = sample_resources\<rparr>"

lemma sample_records:
  "resources_init (\<lambda>v. Some 100) (VInt 8) (VInt 4) (VInt 2) (VInt 1) (VInt 1) = Inr sample_resources"
  "resources_init (\<lambda>v. Some 100) (VInt 12) (VInt 4) (VInt 2) (VInt 1) (VInt 1) = Inr (sample_resources\<lparr>rs_ram_bytes := 12\<rparr>)"
  "manifest_init (\<lambda>v. Some 100) (Some (sample_host\<lparr>prv_enabled := False, prv_health := ''unavailable''\<rparr>))
     (VStr (replicate 64 CHR ''a'')) (Some sample_resources) = Inr sample_manifest"
  "policy_init (\<lambda>v. Some 100) (VInt 1000) (VBool False) (VBool True) (VStr ''manual'') (VTuple [VStr ''host''])
     (Some (sample_resources\<lparr>rs_ram_bytes := 12\<rparr>)) (Some sample_resources) = Inr sample_policy"
  "manifest_init (\<lambda>v. Some 100) (Some (sample_host\<lparr>prv_enabled := False, prv_health := ''unavailable''\<rparr>))
     (VStr (replicate 64 CHR ''a'')) (Some (sample_resources\<lparr>rs_ram_bytes := 12\<rparr>))
     = Inr (sample_manifest\<lparr>mf_resources := sample_resources\<lparr>rs_ram_bytes := 12\<rparr>\<rparr>)"
  by code_simp+

theorem provider_records_roundtrip_witness:
  "parse_manifest (\<lambda>v. Some 100) (manifest_document (sample_manifest\<lparr>mf_resources := sample_resources\<lparr>rs_ram_bytes := 12\<rparr>\<rparr>))
      = Inr (sample_manifest\<lparr>mf_resources := sample_resources\<lparr>rs_ram_bytes := 12\<rparr>\<rparr>)
    \<and> parse_policy (\<lambda>v. Some 100) (policy_document sample_policy) = Inr sample_policy"
  by (rule provider_records_roundtrip[OF sample_records(2,1,5,4)])

text \<open>An accepted set of manifests stays within the policy: for the host and for the VM each resource summed
  over the manifests placed there is within its budget, and where accelerator memory is shared with the host's or the
  VM's RAM, the two together are within the budget of RAM.\<close>

theorem budgets_respected:
  assumes "check_budgets (map Some ms) (Some p) = None"
    "(placement, cap) \<in> {(''host'', pp_host_budget p), (''vm'', pp_vm_budget p)}"
  shows "total rs_ram_bytes (placed placement ms)
      + (if placement \<in> set (pp_shared_memory p) then total rs_accelerator_bytes (placed placement ms) else 0) \<le> rs_ram_bytes cap
    \<and> total rs_accelerator_bytes (placed placement ms) \<le> rs_accelerator_bytes cap
    \<and> total rs_disk_bytes (placed placement ms) \<le> rs_disk_bytes cap
    \<and> total rs_cpu_millicores (placed placement ms) \<le> rs_cpu_millicores cap
    \<and> total rs_slots (placed placement ms) \<le> rs_slots cap"
proof -
  have "those (map Some ms) = Some ms" by (induction ms) auto
  with assms show ?thesis by (auto simp: check_budgets_def exceeds_def split: if_splits)
qed

theorem budgets_respected_witness:
  "total rs_ram_bytes (placed ''host'' [sample_manifest]) + total rs_accelerator_bytes (placed ''host'' [sample_manifest]) \<le> 12"
proof -
  have "check_budgets (map Some [sample_manifest]) (Some sample_policy) = None" by code_simp
  from budgets_respected[OF this, of "''host''" "pp_host_budget sample_policy"]
  show ?thesis by (simp add: sample_policy_def sample_resources_def)
qed

end
