(* ===== verification/Gateway_Safety.thy ===== *)
theory Gateway_Safety
  imports Gateway_Client
begin

text \<open>
  What the gateway client keeps over every run: the order of its effects, the honesty of its cleanup and of its
  results, and that a request reaches the host at most once.
\<close>

section \<open>The discipline of the effects\<close>

text \<open>
  The monitor reads the effects in order. A host is begun only right after its own peer was attested and the call
  was admitted; a local route only after admission; nothing is attested, admitted or begun while a begun job is
  neither refused nor retired, nor ever after a retirement without proof.
\<close>

datatype monitor = Idle | Checked string | Ready "string option" | Running | Broken

fun watch_step :: "monitor \<Rightarrow> geffect \<Rightarrow> monitor option" where
  "watch_step m (Attested p) = (if m \<in> {Running, Broken} then None else Some (Checked p))"
| "watch_step m Admitted = (case m of Running \<Rightarrow> None | Broken \<Rightarrow> None | Checked p \<Rightarrow> Some (Ready (Some p)) | _ \<Rightarrow> Some (Ready None))"
| "watch_step m (BeginHost url peer header q) = (if m = Ready (Some peer) then Some Running else None)"
| "watch_step m (BeginLocal q) = (case m of Ready p \<Rightarrow> Some Running | _ \<Rightarrow> None)"
| "watch_step m NoJob = (if m = Running then Some Idle else None)"
| "watch_step m (Retired proven) = (if m = Running then Some (if proven then Idle else Broken) else None)"

fun watch :: "monitor \<Rightarrow> geffect list \<Rightarrow> monitor option" where
  "watch m [] = Some m"
| "watch m (e # es) = Option.bind (watch_step m e) (\<lambda>m. watch m es)"

lemma watch_append: "watch m (es @ fs) = Option.bind (watch m es) (\<lambda>m. watch m fs)"
  by (induction es arbitrary: m) (auto split: Option.bind_splits)

fun host_id :: "geffect \<Rightarrow> string list" where
  "host_id (BeginHost url peer header q) = [gq_request_id q]"
| "host_id _ = []"

definition host_ids :: "gclient \<Rightarrow> string list" where
  "host_ids c = concat (map host_id (gc_effects c))"

definition trail :: "monitor \<Rightarrow> gclient \<Rightarrow> bool" where
  "trail m c \<longleftrightarrow> watch Idle (gc_effects c) = Some m \<and> (m \<in> {Running, Broken} \<longrightarrow> gc_unclean c)
     \<and> (case gc_active c of None \<Rightarrow> True | Some a \<Rightarrow> ca_job a \<longrightarrow> m = Running)
     \<and> distinct (host_ids c) \<and> set (host_ids c) \<subseteq> set (gc_ids c)"

section \<open>The books of the client\<close>

definition fallback_failure :: "gclient \<Rightarrow> failure \<Rightarrow> bool" where
  "fallback_failure c f \<longleftrightarrow> fl_code f \<in> set fallback_codes \<and> fl_provider_id f = prv_provider_id (ho_provider (gc_host c))"

definition route_ok :: "gclient \<Rightarrow> gcall \<Rightarrow> bool" where
  "route_ok c a \<longleftrightarrow> (case ca_route a of
     HostRoute h \<Rightarrow> h = gc_host c \<and> ca_primary a = None
   | LocalRoute l \<Rightarrow> gc_local c = Some l \<and> (\<exists>f. ca_primary a = Some f \<and> fallback_failure c f))"

definition names :: "provider \<Rightarrow> string \<Rightarrow> string \<Rightarrow> bool" where
  "names p i m \<longleftrightarrow> i = prv_provider_id p \<and> m = prv_model_version p"

fun result_ok :: "gclient \<Rightarrow> gateway_result \<Rightarrow> bool" where
  "result_ok c (Success r i m) \<longleftrightarrow> \<not> gc_unclean c \<and> names (ho_provider (gc_host c)) i m"
| "result_ok c (Degraded r i m f) \<longleftrightarrow>
     \<not> gc_unclean c \<and> (\<exists>l. gc_local c = Some l \<and> names l i m) \<and> fallback_failure c f"
| "result_ok c (Failed fs) \<longleftrightarrow> fs \<noteq> [] \<and> (fl_code (last fs) = ''cleanup'' \<longleftrightarrow> gc_unclean c)"

definition book :: "gclient \<Rightarrow> bool" where
  "book c \<longleftrightarrow> (case gc_active c of
     None \<Rightarrow> (gc_unclean c \<longrightarrow> gc_fault c \<noteq> None) \<and> (case gc_terminal c of None \<Rightarrow> True | Some r \<Rightarrow> result_ok c r)
   | Some a \<Rightarrow> gc_terminal c = None \<and> route_ok c a \<and> gq_request_id (ca_request a) \<in> set (gc_ids c))"

definition safe :: "gclient \<Rightarrow> bool" where
  "safe c \<longleftrightarrow> (\<exists>m. trail m c) \<and> book c"

definition fresh :: "gclient \<Rightarrow> bool" where
  "fresh c \<longleftrightarrow> \<not> gc_unclean c \<and> (\<exists>a. gc_active c = Some a \<and> \<not> ca_job a
     \<and> (is_host (ca_route a) \<longrightarrow> gq_request_id (ca_request a) \<notin> set (host_ids c)))"

lemma moved_same:
  assumes "moved es c d"
  shows "gc_host d = gc_host c" "gc_local d = gc_local c" "gc_ids d = gc_ids c" "gc_terminal d = gc_terminal c"
    "gc_unclean d = gc_unclean c" "gc_effects d = gc_effects c @ es" "gc_fault c \<noteq> None \<Longrightarrow> gc_fault d \<noteq> None"
    "gc_active c = None \<Longrightarrow> gc_active d = None" "gc_disabled c \<Longrightarrow> gc_disabled d"
  using assms unfolding moved_def by simp_all

lemma moved_active_back: "moved es c d \<Longrightarrow> gc_active d = Some b \<Longrightarrow> \<exists>a. gc_active c = Some a \<and> same_call a b"
  unfolding moved_def by (simp add: option_rel_Some2)

lemma fallback_failure_cong: "gc_host d = gc_host c \<Longrightarrow> fallback_failure d f = fallback_failure c f"
  by (simp add: fallback_failure_def)

lemma result_ok_cong: "gc_unclean d = gc_unclean c \<Longrightarrow> gc_host d = gc_host c \<Longrightarrow> gc_local d = gc_local c \<Longrightarrow>
    result_ok d r = result_ok c r"
  by (cases r) (simp_all add: fallback_failure_cong[of d c])

lemma route_ok_cong: "gc_host d = gc_host c \<Longrightarrow> gc_local d = gc_local c \<Longrightarrow> same_call a b \<Longrightarrow> route_ok d b = route_ok c a"
  by (simp add: route_ok_def fallback_failure_cong[of d c] same_call_def cong: groute.case_cong)

lemma book_moved:
  assumes "moved es c d" "book c"
  shows "book d"
proof (cases "gc_active c")
  case None
  note m = moved_same[OF assms(1)]
  have "result_ok d r = result_ok c r" for r by (rule result_ok_cong) (simp_all add: m)
  with None assms(2) m(7) show ?thesis
    by (simp add: book_def m(1-6,8) del: not_None_eq split: option.splits)
next
  case (Some a)
  note m = moved_same[OF assms(1)]
  from Some obtain b where b: "gc_active d = Some b" "same_call a b" using moved_active[OF assms(1)] by blast
  have "route_ok d b = route_ok c a" by (rule route_ok_cong) (simp_all add: m b)
  with Some b assms(2) show ?thesis by (simp add: book_def m same_call_def)
qed

lemma host_ids_moved: "moved es c d \<Longrightarrow> host_ids d = host_ids c @ concat (map host_id es)"
  by (simp add: host_ids_def moved_same)

lemma watch_moved: "moved es c d \<Longrightarrow> watch Idle (gc_effects c) = Some m \<Longrightarrow> watch Idle (gc_effects d) = watch m es"
  by (simp add: moved_same watch_append)

text \<open>The trail after effects that begin nothing at the host.\<close>

lemma trail_moved:
  assumes "moved es c d" "trail m c" "watch m es = Some n" "n \<in> {Running, Broken} \<longrightarrow> gc_unclean d"
    "concat (map host_id es) = []"
    "\<And>b. gc_active d = Some b \<Longrightarrow> ca_job b \<Longrightarrow> n = Running"
  shows "trail n d"
proof -
  have "watch Idle (gc_effects d) = Some n" using watch_moved[OF assms(1)] assms(2,3) by (simp add: trail_def)
  moreover have "host_ids d = host_ids c" using host_ids_moved[OF assms(1)] assms(5) by simp
  ultimately show ?thesis using assms(2,4,6) moved_same(3)[OF assms(1)] by (simp add: trail_def split: option.split)
qed

lemma safe_moved: "moved [] c d \<Longrightarrow> safe c \<Longrightarrow> safe d"
proof -
  assume m: "moved [] c d" and "safe c"
  then obtain n where n: "trail n c" "book c" by (auto simp: safe_def)
  have "trail n d"
  proof (rule trail_moved[OF m n(1)])
    fix b assume "gc_active d = Some b" "ca_job b"
    with moved_active_back[OF m] n(1) show "n = Running" by (auto simp: trail_def same_call_def)
  qed (use n m in \<open>simp_all add: trail_def moved_same\<close>)
  with book_moved[OF m n(2)] show "safe d" by (auto simp: safe_def)
qed

section \<open>Beginning\<close>

lemma bookI: "gc_active c = Some a \<Longrightarrow> gc_terminal c = None \<Longrightarrow> route_ok c a \<Longrightarrow> gq_request_id (ca_request a) \<in> set (gc_ids c)
    \<Longrightarrow> book c"
  by (simp add: book_def)

lemma book_active: "book c \<Longrightarrow> gc_active c = Some a \<Longrightarrow>
    gc_terminal c = None \<and> route_ok c a \<and> gq_request_id (ca_request a) \<in> set (gc_ids c)"
  by (simp add: book_def)

lemma watch_checks: "m \<notin> {Running, Broken} \<Longrightarrow> \<exists>n. watch m (checks_effects a r) = Some n \<and> n \<notin> {Running, Broken}
    \<and> (r = None \<longrightarrow> (case ca_route a of HostRoute h \<Rightarrow> n = Checked (ho_peer h) | LocalRoute l \<Rightarrow> True))"
  by (auto simp: checks_effects_def split: groute.splits)

lemma host_ids_checks [simp]: "concat (map host_id (checks_effects a r)) = []"
  by (auto simp: checks_effects_def split: groute.splits)

lemma watch_admitted: "n \<notin> {Running, Broken} \<Longrightarrow> watch_step n Admitted = Some (Ready (case n of Checked p \<Rightarrow> Some p | _ \<Rightarrow> None))"
  by (cases n) auto

lemma watch_begin: "(\<And>h. r = HostRoute h \<Longrightarrow> p = Some (ho_peer h)) \<Longrightarrow> watch_step (Ready p) (begin_geffect r q) = Some Running"
  by (cases r) (auto simp: begin_geffect_def)

lemma host_id_begin: "host_id (begin_geffect r q) = (if is_host r then [gq_request_id q] else [])"
  by (cases r) (auto simp: begin_geffect_def)

text \<open>The trail after a beginning, from a client that was ready.\<close>

lemma trail_begun:
  assumes "trail (Ready p) c" "gc_active c = Some a" "\<And>h. ca_route a = HostRoute h \<Longrightarrow> p = Some (ho_peer h)"
    "is_host (ca_route a) \<Longrightarrow> gq_request_id q \<notin> set (host_ids c)" "gq_request_id q \<in> set (gc_ids c)"
    "gc_effects d = gc_effects c @ begin_geffect (ca_route a) q # es" "gc_ids d = gc_ids c"
    "watch Running es = Some n" "concat (map host_id es) = []" "n \<in> {Running, Broken} \<longrightarrow> gc_unclean d"
    "\<And>b. gc_active d = Some b \<Longrightarrow> ca_job b \<Longrightarrow> n = Running"
  shows "trail n d"
proof -
  have "watch Idle (gc_effects d) = Some n"
    using assms(1,6,8) watch_begin[OF assms(3)] by (simp add: trail_def watch_append)
  moreover have "host_ids d = host_ids c @ (if is_host (ca_route a) then [gq_request_id q] else [])"
    using assms(6,9) by (simp add: host_ids_def host_id_begin)
  ultimately show ?thesis using assms(1,4,5,7,10,11) by (simp add: trail_def split: option.split)
qed

lemma begin_effect_safe:
  assumes "trail (Ready p) c" "book c" "gc_active c = Some a" "\<not> ca_job a" "begin_effect cd E q c = (v, d)"
    "\<And>h. ca_route a = HostRoute h \<Longrightarrow> p = Some (ho_peer h)" "gq_request_id q = gq_request_id (ca_request a)"
    "is_host (ca_route a) \<Longrightarrow> gq_request_id q \<notin> set (host_ids c)"
  shows "safe d \<and> gc_active d \<noteq> None"
proof -
  note bk = book_active[OF assms(2,3)]
  have id: "gq_request_id q \<in> set (gc_ids c)" using bk assms(7) by simp
  have book': "book (c\<lparr>gc_unclean := u, gc_active := Some (a\<lparr>ca_job := j\<rparr>)\<rparr>)" for u j
    using bk by (auto intro!: bookI simp: route_ok_def fallback_failure_def split: groute.splits)
  have book0: "book (c\<lparr>gc_unclean := u\<rparr>)" for u
    using bk assms(3) by (auto intro!: bookI[of _ a] simp: route_ok_def fallback_failure_def split: groute.splits)
  have act: "moved es (c\<lparr>gc_unclean := u\<rparr>) d \<Longrightarrow> \<exists>b. gc_active d = Some b \<and> \<not> ca_job b" for es u
    using moved_active[of es "c\<lparr>gc_unclean := u\<rparr>" d a] assms(3,4) by (auto simp: same_call_def)
  from begin_effect_cases[OF assms(5,3)] consider
      (none) "moved [] (c\<lparr>gc_unclean := True\<rparr>) d"
    | (raised) "moved [begin_geffect (ca_route a) q] (c\<lparr>gc_unclean := True\<rparr>) d"
    | (refused) "moved [begin_geffect (ca_route a) q, NoJob] (c\<lparr>gc_unclean := False\<rparr>) d"
    | (job) j where "moved [begin_geffect (ca_route a) q] (c\<lparr>gc_unclean := True, gc_active := Some (a\<lparr>ca_job := j\<rparr>)\<rparr>) d"
    by blast
  then show ?thesis
  proof cases
    case none
    have "trail (Ready p) (c\<lparr>gc_unclean := True\<rparr>)" using assms(1) by (simp add: trail_def host_ids_def)
    with book0[of True] have "safe (c\<lparr>gc_unclean := True\<rparr>)" by (auto simp: safe_def)
    from safe_moved[OF none this] act[OF none] show ?thesis by auto
  next
    case raised
    have "trail Running d"
      by (rule trail_begun[OF assms(1,3,6,8) id, of d "[]"]) (use moved_same[OF raised] in simp_all)
    with book_moved[OF raised book0] act[OF raised] show ?thesis by (auto simp: safe_def)
  next
    case refused
    have "trail Idle d"
      by (rule trail_begun[OF assms(1,3,6,8) id, of d "[NoJob]"]) (use moved_same[OF refused] act[OF refused] in auto)
    with book_moved[OF refused book0] act[OF refused] show ?thesis by (auto simp: safe_def)
  next
    case job
    have "trail Running d"
      by (rule trail_begun[OF assms(1,3,6,8) id, of d "[]"]) (use moved_same[OF job] in simp_all)
    moreover have "gc_active d \<noteq> None" using moved_active[OF job] by fastforce
    ultimately show ?thesis using book_moved[OF job book'] by (auto simp: safe_def)
  qed
qed

lemma begin_core_safe:
  assumes "safe c" "fresh c" "begin_core cd E c = (v, d)"
  shows "safe d \<and> gc_active d \<noteq> None"
proof -
  from assms(2) obtain a where a: "gc_active c = Some a" "\<not> ca_job a" "\<not> gc_unclean c"
      "is_host (ca_route a) \<Longrightarrow> gq_request_id (ca_request a) \<notin> set (host_ids c)" by (auto simp: fresh_def)
  from assms(1) obtain m where m: "trail m c" "book c" by (auto simp: safe_def)
  with a(3) have m0: "m \<notin> {Running, Broken}" by (auto simp: trail_def)
  from begin_core_cases[OF assms(3) a(1)] show ?thesis
  proof (elim disjE exE conjE)
    fix r assume d: "moved (checks_effects a r) c d"
    obtain b where b: "gc_active d = Some b" "same_call a b" using moved_active[OF d a(1)] by blast
    obtain n where n: "watch m (checks_effects a r) = Some n" "n \<notin> {Running, Broken}" using watch_checks[OF m0] by blast
    have "trail n d" by (rule trail_moved[OF d m(1) n(1)]) (use n b a(2) in \<open>auto simp: same_call_def\<close>)
    with b book_moved[OF d m(2)] show ?thesis by (auto simp: safe_def)
  next
    fix x q
    assume x: "moved (checks_effects a None @ [Admitted]) c x" and q: "gq_request_id q = gq_request_id (ca_request a)"
      and d: "begin_effect cd E q x = (v, d)"
    obtain b where b: "gc_active x = Some b" "same_call a b" using moved_active[OF x a(1)] by blast
    obtain n where n: "watch m (checks_effects a None) = Some n" "n \<notin> {Running, Broken}"
        "case ca_route a of HostRoute h \<Rightarrow> n = Checked (ho_peer h) | LocalRoute l \<Rightarrow> True"
      using watch_checks[OF m0, of a None] by auto
    let ?p = "case n of Checked p \<Rightarrow> Some p | _ \<Rightarrow> None"
    have t: "trail (Ready ?p) x"
      by (rule trail_moved[OF x m(1)])
        (use n(1) watch_admitted[OF n(2)] b a(2) in \<open>auto simp: watch_append same_call_def\<close>)
    show ?thesis
      by (rule begin_effect_safe[OF t book_moved[OF x m(2)] b(1) _ d])
        (use b(2) a n(3) q host_ids_moved[OF x] in \<open>auto simp: same_call_def split: groute.splits\<close>)
  qed
qed

section \<open>Finishing\<close>

lemma conclude_safe:
  assumes "trail m y" "book y" "gc_active y = Some b" "\<not> ca_job b" "gc_unclean y = (\<not> clean)" "v = Fails ''cleanup'' \<Longrightarrow> \<not> clean"
    "conclude i v clean b y = (again, d)"
  shows "safe d \<and> (again \<longrightarrow> fresh d) \<and> (\<not> again \<longrightarrow> gc_active d = None)"
proof -
  note bk = book_active[OF assms(2,3)]
  let ?p = "route_provider (ca_route b)"
  have t: "trail m e" if "gc_effects e = gc_effects y" "gc_ids e = gc_ids y" "gc_unclean e = gc_unclean y"
      "\<And>a. gc_active e = Some a \<Longrightarrow> \<not> ca_job a" for e
    using assms(1,4) that by (simp add: trail_def host_ids_def split: option.split)
  have ended: "safe (y\<lparr>gc_terminal := Some r, gc_active := None\<rparr>)" if "clean" "result_ok y r" for r
    using t[of "y\<lparr>gc_terminal := Some r, gc_active := None\<rparr>"] that assms(5) result_ok_cong[of "y\<lparr>gc_terminal := Some r, gc_active := None\<rparr>" y r]
    by (auto simp: safe_def book_def)
  have failed: "result_ok y (Failed (fs @ [failure_of b k]))" if "clean" "v = Fails k" for fs k
    using that assms(5,6) by (auto simp: failure_of_def)
  show ?thesis
  proof (cases "\<not> clean")
    case True
    have "safe (y\<lparr>gc_terminal := Some (Failed (fs @ [failure_of b ''cleanup''])), gc_active := None, gc_fault := Some ''cleanup''\<rparr>)" for fs
      using t[of "y\<lparr>gc_terminal := Some (Failed (fs @ [failure_of b ''cleanup''])), gc_active := None, gc_fault := Some ''cleanup''\<rparr>"] True assms(5)
      by (auto simp: safe_def book_def failure_of_def)
    from this[of "_ @ _"] True assms(7) show ?thesis by (auto simp: conclude_def Let_def)
  next
    case clean: False
    show ?thesis
    proof (cases v)
      case (Yields r)
      have "result_ok y (case ca_primary b of None \<Rightarrow> Success r (prv_provider_id ?p) (prv_model_version ?p)
          | Some f \<Rightarrow> Degraded r (prv_provider_id ?p) (prv_model_version ?p) f)"
        using bk clean assms(5) by (auto simp: route_ok_def names_def split: groute.splits)
      with Yields clean ended assms(7) show ?thesis by (auto simp: conclude_def Let_def)
    next
      case (Fails k)
      show ?thesis
      proof (cases again)
        case True
        with assms(7) conclude_again[of i v clean b y d] Fails obtain l where
          l: "is_host (ca_route b)" "k \<in> set fallback_codes" "gc_local y = Some l"
            "d = y\<lparr>gc_active := Some (b\<lparr>ca_primary := Some (failure_of b k), ca_route := LocalRoute l\<rparr>)\<rparr>" by auto
        have "route_ok d (b\<lparr>ca_primary := Some (failure_of b k), ca_route := LocalRoute l\<rparr>)"
          using l bk by (auto simp: route_ok_def fallback_failure_def failure_of_def split: groute.splits)
        with l(4) bk have "book d" by (auto simp: book_def)
        moreover have "trail m d" using l(4) assms(4) by (intro t) auto
        moreover have "fresh d" using l(4) assms(4,5) clean by (auto simp: fresh_def)
        ultimately show ?thesis using True by (auto simp: safe_def)
      next
        case False
        with assms(7) Fails clean have "\<exists>fs. d = y\<lparr>gc_terminal := Some (Failed (fs @ [failure_of b k])), gc_active := None\<rparr>"
          by (auto simp: conclude_def Let_def split: if_splits)
        with ended failed clean Fails False show ?thesis by auto
      qed
    qed
  qed
qed

lemma finish_core_safe:
  assumes "safe c" "gc_active c = Some a" "finish_core E v c = (again, d)"
  shows "safe d \<and> (again \<longrightarrow> fresh d) \<and> (\<not> again \<longrightarrow> gc_active d = None)"
proof -
  obtain m where m: "trail m c" "book c" using assms(1) by (auto simp: safe_def)
  from finish_core_cases[OF assms(3,2)] obtain p i y b where
    p: "\<not> ca_job a \<longrightarrow> p = (\<not> gc_unclean c)" and
    y: "moved (if ca_job a then [Retired p] else [])
        (c\<lparr>gc_active := Some (a\<lparr>ca_job := False\<rparr>), gc_unclean := \<not> (p \<and> v \<noteq> Fails ''cleanup'')\<rparr>) y" and
    b: "gc_active y = Some b" "same_call (a\<lparr>ca_job := False\<rparr>) b" and
    i: "case i of None \<Rightarrow> True | Some k \<Rightarrow> k \<in> {''clock'', ''canceled'', ''timeout''}" and
    d: "(again, d) = conclude i (case i of Some k \<Rightarrow> Fails k | None \<Rightarrow> v) (p \<and> v \<noteq> Fails ''cleanup'') b y" by blast
  let ?clean = "p \<and> v \<noteq> Fails ''cleanup''" and ?es = "if ca_job a then [Retired p] else []"
  let ?c = "c\<lparr>gc_active := Some (a\<lparr>ca_job := False\<rparr>), gc_unclean := \<not> ?clean\<rparr>"
  have nojob: "\<not> ca_job b" using b(2) by (simp add: same_call_def)
  have "book ?c" using book_active[OF m(2) assms(2)]
    by (auto intro!: bookI simp: route_ok_def fallback_failure_def split: groute.splits)
  note bk = book_moved[OF y this]
  have run: "ca_job a \<Longrightarrow> m = Running" using m(1) assms(2) by (simp add: trail_def)
  define n where "n = (if ca_job a then if p then Idle else Broken else m)"
  have "watch Idle (gc_effects y) = Some n"
    using watch_moved[OF y, of m] m(1) run by (auto simp: trail_def n_def)
  moreover have "host_ids y = host_ids c" using host_ids_moved[OF y] by (auto simp: host_ids_def)
  moreover have "gc_unclean y = (\<not> ?clean)" "gc_ids y = gc_ids c" using moved_same[OF y] by simp_all
  moreover have "n \<in> {Running, Broken} \<longrightarrow> \<not> ?clean" using m(1) p by (auto simp: n_def trail_def)
  ultimately have t: "trail n y" using m(1) b(1) nojob by (simp add: trail_def)
  have "(case i of Some k \<Rightarrow> Fails k | None \<Rightarrow> v) = Fails ''cleanup'' \<Longrightarrow> \<not> ?clean" using i by (auto split: option.splits)
  from conclude_safe[OF t bk b(1) nojob \<open>gc_unclean y = _\<close> this d[symmetric]] show ?thesis .
qed

lemma finish_call_safe: "safe c \<Longrightarrow> gc_active c \<noteq> None \<Longrightarrow> safe (finish_call cd E v c)"
proof (induction cd E v c rule: finish_call.induct)
  case (1 cd E v c)
  obtain again c' where f: "finish_core E v c = (again, c')" by fastforce
  from 1(3) obtain a where a: "gc_active c = Some a" by auto
  note s = finish_core_safe[OF 1(2) a f]
  show ?case
  proof (cases again)
    case True
    obtain w d where w: "begin_core cd E c' = (w, d)" by fastforce
    with begin_core_safe[OF _ _ w] s True have d: "safe d" "gc_active d \<noteq> None" by auto
    show ?thesis
    proof (cases w)
      case None
      with True f w d show ?thesis by (simp add: finish_call.simps[of cd E v c])
    next
      case (Some u)
      have "safe (finish_call cd E u d)" by (rule 1(1)[OF f[symmetric]]) (use True w Some d in simp_all)
      with True f w Some show ?thesis by (simp add: finish_call.simps[of cd E v c])
    qed
  qed (use s f in \<open>simp add: finish_call.simps[of cd E v c]\<close>)
qed

lemma begin_call_safe: "safe c \<Longrightarrow> fresh c \<Longrightarrow> safe (begin_call cd E c)"
proof -
  assume c: "safe c" "fresh c"
  obtain v d where "begin_core cd E c = (v, d)" by fastforce
  with begin_core_safe[OF c this] finish_call_safe[of d] show ?thesis by (auto simp: begin_call_def split: option.splits)
qed

section \<open>Operations\<close>

lemma safe_cong:
  assumes "safe c" "gc_active d = gc_active c" "gc_terminal d = gc_terminal c" "gc_fault d = gc_fault c" "gc_unclean d = gc_unclean c"
    "gc_effects d = gc_effects c" "gc_ids d = gc_ids c" "gc_host d = gc_host c" "gc_local d = gc_local c"
  shows "safe d"
proof -
  obtain m where m: "trail m c" "book c" using assms(1) by (auto simp: safe_def)
  have "result_ok d r = result_ok c r" for r by (rule result_ok_cong) (simp_all add: assms)
  moreover have "route_ok d a = route_ok c a" for a by (rule route_ok_cong) (simp_all add: assms)
  ultimately have "book d" using m(2) by (simp add: book_def assms(2-9) split: option.splits)
  moreover have "trail m d" using m(1) by (simp add: trail_def host_ids_def assms(2-9))
  ultimately show ?thesis by (auto simp: safe_def)
qed

lemma started_safe:
  assumes "safe c" "gc_active c = None" "gc_terminal c = None" "gc_fault c = None" "claim (gq_request_id q) (gc_ids c) = Inr ids"
    and d: "d = c\<lparr>gc_ids := ids, gc_active := Some \<lparr>ca_request = q, ca_route = HostRoute (gc_host c), ca_deadline = None,
      ca_last_time = None, ca_job = False, ca_primary = None, ca_cancel_requested = False\<rparr>\<rparr>"
  shows "safe d \<and> fresh d"
proof -
  obtain m where m: "trail m c" "book c" using assms(1) by (auto simp: safe_def)
  have ids: "ids = gq_request_id q # gc_ids c" "gq_request_id q \<notin> set (gc_ids c)"
    using assms(5) by (auto simp: claim_def split: if_splits)
  have "\<not> gc_unclean c" using m(2) assms(2,4) by (simp add: book_def)
  moreover have "gq_request_id q \<notin> set (host_ids c)" using m(1) ids(2) by (auto simp: trail_def)
  ultimately have "fresh d" by (simp add: d fresh_def host_ids_def)
  moreover have "trail m d" using m(1) assms(2) ids by (auto simp: d trail_def host_ids_def)
  moreover have "book d" using assms(3) ids by (simp add: d book_def route_ok_def)
  ultimately show ?thesis by (auto simp: safe_def)
qed

lemma gateway_start_safe: "safe c \<Longrightarrow> safe (snd (gateway_start cd E q c))"
  by (auto simp: gateway_start_def split: option.splits sum.splits intro!: begin_call_safe dest: started_safe[OF _ _ _ _ _ refl])

lemma moved_poll_job: "poll_job cd E c = (v, d) \<Longrightarrow> moved [] c d"
  by (auto simp: poll_job_def split: prod.splits option.splits if_splits poll_reply.splits
      dest!: moved_interruption moved_invoke intro: moved_trans0)

lemma polled_safe:
  assumes "safe c" "gc_active c \<noteq> None"
  shows "safe (case poll_job cd E c of (None, d) \<Rightarrow> d | (Some v, d) \<Rightarrow> finish_call cd E v d)"
proof -
  obtain v d where d: "poll_job cd E c = (v, d)" by fastforce
  note m = moved_poll_job[OF d]
  have "gc_active d \<noteq> None" using moved_active[OF m] assms(2) by auto
  with d safe_moved[OF m assms(1)] finish_call_safe[of d] show ?thesis by (cases v) auto
qed

lemma safe_taken: "safe c \<Longrightarrow> safe (c\<lparr>gc_terminal := None\<rparr>)"
  by (auto simp: safe_def trail_def book_def host_ids_def route_ok_def fallback_failure_def split: option.splits groute.splits)

lemma gateway_poll_safe: "safe c \<Longrightarrow> safe (snd (gateway_poll cd E c))"
  using polled_safe[of c cd E] by (auto simp: gateway_poll_def Let_def intro: safe_taken)

lemma gateway_cancel_safe: "safe c \<Longrightarrow> safe (gateway_cancel cd E c)"
proof -
  assume c: "safe c"
  have "gc_active c \<noteq> None \<Longrightarrow> gc_active (mark_canceled c) \<noteq> None" by (auto simp: mark_canceled_def)
  with safe_moved[OF moved_mark c] finish_call_safe c show ?thesis by (simp add: gateway_cancel_def)
qed

lemma reconfigured_safe: "safe c \<Longrightarrow> safe (snd (reconfigure h l p owner c))"
proof -
  assume c: "safe c"
  have "safe (c\<lparr>gc_host := h', gc_local := l', gc_permit := p', gc_disabled := False\<rparr>)"
    if "gc_active c = None" "gc_terminal c = None" for h' l' p'
    using c that by (auto simp: safe_def trail_def book_def host_ids_def)
  with c show ?thesis by (auto simp: reconfigure_def split: option.splits)
qed

lemma configured_safe:
  assumes "safe c"
  shows "safe (snd (claim_configuration c))" "safe (snd (enter_configuration owner c))" "safe (leave_configuration c)"
proof -
  have "safe (c\<lparr>gc_owner := Some 0, gc_disabled := True\<rparr>)" "safe (c\<lparr>gc_configuring := b\<rparr>)" for b
    by (rule safe_cong[OF assms]; simp)+
  with assms show "safe (snd (claim_configuration c))" "safe (snd (enter_configuration owner c))" "safe (leave_configuration c)"
    by (simp_all add: claim_configuration_def enter_configuration_def leave_configuration_def split: option.splits)
qed

lemma gateway_disable_safe: "safe c \<Longrightarrow> safe (snd (gateway_disable cd E owner c))"
proof -
  assume c: "safe c"
  have "safe (c\<lparr>gc_disabled := True\<rparr>)" by (rule safe_cong[OF c]) simp_all
  with c gateway_cancel_safe show ?thesis by (simp add: gateway_disable_def)
qed

lemma gateway_do_safe: "safe c \<Longrightarrow> safe (gateway_do cd E op c)"
  by (cases op) (simp_all add: gateway_start_safe gateway_poll_safe gateway_cancel_safe gateway_disable_safe configured_safe
      reconfigured_safe)

lemma client_init_safe: "client_init h v l = Inr c \<Longrightarrow> safe c"
  by (auto simp: client_init_def safe_def trail_def book_def host_ids_def split: option.splits sum.splits)

lemma gateway_run_safe: "client_init h v l = Inr c \<Longrightarrow> safe (gateway_run cd E ops c)"
proof -
  have "safe c \<Longrightarrow> safe (fold (gateway_do cd E) ops c)" for c
    by (induction ops arbitrary: c) (auto intro: gateway_do_safe)
  then show "client_init h v l = Inr c \<Longrightarrow> safe (gateway_run cd E ops c)"
    by (simp add: gateway_run_def client_init_safe)
qed

section \<open>Disabling and canceling\<close>

fun begins :: "geffect \<Rightarrow> bool" where
  "begins (BeginHost url peer header q) = True"
| "begins (BeginLocal q) = True"
| "begins _ = False"

definition lulled :: "gclient \<Rightarrow> gclient \<Rightarrow> bool" where
  "lulled c d \<longleftrightarrow> gc_disabled d \<and> filter begins (gc_effects d) = filter begins (gc_effects c)"

lemma lull_trans: "lulled c d \<Longrightarrow> lulled d e \<Longrightarrow> lulled c e"
  by (simp add: lulled_def)

lemma lull_moved: "moved es c d \<Longrightarrow> gc_disabled c \<Longrightarrow> filter begins es = [] \<Longrightarrow> lulled c d"
  by (simp add: lulled_def moved_same)

lemma begins_checks [simp]: "filter begins (checks_effects a r) = []"
  by (auto simp: checks_effects_def split: groute.splits)

lemma lull_begin_core: "begin_core cd E c = (v, d) \<Longrightarrow> gc_active c = Some a \<Longrightarrow> gc_disabled c \<Longrightarrow> lulled c d \<and> gc_active d \<noteq> None"
  using begin_core_cases[of cd E c v d a] by (auto dest: moved_same(9) moved_active intro: lull_moved)

lemma conclude_same: "conclude i v clean b y = (again, d) \<Longrightarrow>
    gc_effects d = gc_effects y \<and> gc_disabled d = gc_disabled y \<and> (again \<longrightarrow> gc_active d \<noteq> None)"
  by (auto simp: conclude_def Let_def split: if_splits outcome_value.splits)

lemma lull_finish_core:
  assumes "finish_core E v c = (again, d)" "gc_active c = Some a" "gc_disabled c"
  shows "lulled c d \<and> (again \<longrightarrow> gc_active d \<noteq> None)"
proof -
  from finish_core_cases[OF assms(1,2)] obtain p i y b where
    y: "moved (if ca_job a then [Retired p] else [])
        (c\<lparr>gc_active := Some (a\<lparr>ca_job := False\<rparr>), gc_unclean := \<not> (p \<and> v \<noteq> Fails ''cleanup'')\<rparr>) y" and
    d: "(again, d) = conclude i (case i of Some k \<Rightarrow> Fails k | None \<Rightarrow> v) (p \<and> v \<noteq> Fails ''cleanup'') b y" by blast
  from moved_same[OF y] conclude_same[OF d[symmetric]] assms(3) show ?thesis by (auto simp: lulled_def)
qed

lemma lull_finish: "gc_active c \<noteq> None \<Longrightarrow> gc_disabled c \<Longrightarrow> lulled c (finish_call cd E v c)"
proof (induction cd E v c rule: finish_call.induct)
  case (1 cd E v c)
  obtain again c' where f: "finish_core E v c = (again, c')" by fastforce
  from 1(2) obtain a where a: "gc_active c = Some a" by auto
  note s = lull_finish_core[OF f a 1(3)]
  show ?case
  proof (cases again)
    case True
    with s have c': "gc_disabled c'" "gc_active c' \<noteq> None" by (simp_all add: lulled_def)
    obtain w d where w: "begin_core cd E c' = (w, d)" by fastforce
    from lull_begin_core[OF w] c' have d: "lulled c' d" "gc_active d \<noteq> None" by auto
    note cd' = lull_trans[OF s[THEN conjunct1] d(1)]
    show ?thesis
    proof (cases w)
      case (Some u)
      have "lulled d (finish_call cd E u d)"
        by (rule 1(1)[OF f[symmetric]]) (use True w Some d in \<open>simp_all add: lulled_def\<close>)
      with lull_trans[OF cd' this] True f w Some show ?thesis by (simp add: finish_call.simps[of cd E v c])
    qed (use True f w cd' in \<open>simp add: finish_call.simps[of cd E v c]\<close>)
  qed (use s f in \<open>simp add: finish_call.simps[of cd E v c]\<close>)
qed

lemma lull_cancel: "gc_disabled c \<Longrightarrow> lulled c (gateway_cancel cd E c)"
proof -
  assume c: "gc_disabled c"
  note m = lull_moved[OF moved_mark c]
  show ?thesis
  proof (cases "gc_active c")
    case (Some a)
    then have "gc_active (mark_canceled c) \<noteq> None" by (simp add: mark_canceled_def)
    with lull_finish[OF this] m have "lulled c (finish_call cd E (Fails ''canceled'') (mark_canceled c))"
      by (auto simp: lulled_def)
    with m Some show ?thesis by (simp add: gateway_cancel_def)
  qed (use c in \<open>simp add: gateway_cancel_def lulled_def\<close>)
qed

lemma lull_poll: "gc_disabled c \<Longrightarrow> lulled c (snd (gateway_poll cd E c))"
proof -
  assume c: "gc_disabled c"
  obtain v d where d: "poll_job cd E c = (v, d)" by fastforce
  note m = lull_moved[OF moved_poll_job[OF d] c, simplified]
  have "lulled c (case v of None \<Rightarrow> d | Some w \<Rightarrow> finish_call cd E w d)" if "gc_active c \<noteq> None"
  proof (cases v)
    case (Some w)
    have "gc_active d \<noteq> None" using moved_active[OF moved_poll_job[OF d]] that by auto
    from lull_trans[OF m lull_finish[OF this]] m Some show ?thesis by (simp add: lulled_def)
  qed (use m in simp)
  with c d show ?thesis by (auto simp: gateway_poll_def Let_def lulled_def split: option.splits)
qed

lemma lull_do:
  assumes "gc_disabled c" "case op of OpReconfigure h l p owner \<Rightarrow> False | _ \<Rightarrow> True"
  shows "lulled c (gateway_do cd E op c)"
proof (cases op)
  case (OpStart q)
  with assms(1) show ?thesis by (simp add: gateway_start_def lulled_def split: option.split)
next
  case (OpDisable owner)
  have "lulled c (gateway_cancel cd E (c\<lparr>gc_disabled := True\<rparr>))"
    using lull_cancel[of "c\<lparr>gc_disabled := True\<rparr>"] by (simp add: lulled_def)
  with OpDisable assms(1) show ?thesis by (simp add: gateway_disable_def lulled_def)
qed (use assms lull_poll lull_cancel in \<open>auto simp: lulled_def claim_configuration_def enter_configuration_def
    leave_configuration_def split: option.splits\<close>)

lemma conclude_failed: "conclude i (Fails k) clean b y = (again, d) \<Longrightarrow> k \<notin> set fallback_codes \<or> i \<noteq> None \<Longrightarrow>
    \<not> again \<and> gc_active d = None \<and> (\<exists>fs. gc_terminal d = Some (Failed fs))"
  by (auto simp: conclude_def Let_def split: if_splits)

lemma finish_canceled:
  assumes "gc_active c = Some a"
  shows "gc_active (finish_call cd E (Fails ''canceled'') c) = None \<and> (\<exists>fs. gc_terminal (finish_call cd E (Fails ''canceled'') c) = Some (Failed fs))"
proof -
  obtain again d where f: "finish_core E (Fails ''canceled'') c = (again, d)" by fastforce
  from finish_core_cases[OF f assms] obtain i y b clean where
    d: "(again, d) = conclude i (case i of Some k \<Rightarrow> Fails k | None \<Rightarrow> Fails ''canceled'') clean b y" by blast
  have "\<not> again \<and> gc_active d = None \<and> (\<exists>fs. gc_terminal d = Some (Failed fs))"
    using conclude_failed[of i "case i of Some k \<Rightarrow> k | None \<Rightarrow> ''canceled''" clean b y again d] d
    by (cases i) (auto simp: fallback_codes_def)
  with f show ?thesis by (simp add: finish_call.simps[of cd E _ c])
qed

section \<open>Properties\<close>

definition sample_route :: host where
  "sample_route = \<lparr>ho_provider = sample_host, ho_url = ''https://h/v1/gateway'', ho_peer = replicate 64 CHR ''a'', ho_bearer = sample_bearer\<rparr>"

definition sample_codec_pair :: codec where
  "sample_codec_pair = \<lparr>cd_dumps = (\<lambda>v. Some [65]), cd_parse = sample_parse\<rparr>"

definition sample_moment :: gmoment where
  "sample_moment = \<lparr>gm_clock = Some 5, gm_peer = PeerIs (replicate 64 CHR ''a''), gm_permit = Gives True, gm_begin = BeginJob,
     gm_poll = PollReply (HttpReply (Some 200) (Some [66]) (Some (replicate 64 CHR ''a''))), gm_cancel = Gives True, gm_reentry = []\<rparr>"

definition sample_client :: gclient where
  "sample_client = \<lparr>gc_host = sample_route, gc_local = None, gc_catalog_version = 1, gc_ids = [], gc_active = None,
     gc_terminal = None, gc_fault = None, gc_inside = False, gc_unclean = False, gc_configuring = False,
     gc_disabled = False, gc_permit = False, gc_owner = None, gc_time = 0, gc_effects = []\<rparr>"

lemma sample_client_init: "client_init (Some sample_route) (VInt 1) (Some None) = Inr sample_client"
  by code_simp

definition sample_started :: gclient where
  "sample_started = gateway_run sample_codec_pair (\<lambda>n. sample_moment) [OpStart (Some sample_request)] sample_client"

lemma sample_started: "gc_effects sample_started = [Attested (replicate 64 CHR ''a''), Admitted,
     BeginHost ''https://h/v1/gateway'' (replicate 64 CHR ''a'') (bearer_header sample_bearer) sample_request]
   \<and> gc_active sample_started \<noteq> None \<and> gc_unclean sample_started \<and> \<not> gc_inside sample_started"
  by code_simp

text \<open>C29: Whatever the callbacks answer and however they call back, and whatever the order of the operations, the
  gateway client gives the credential of the host to its transport only right after that transport attested the very
  peer configured for the host and the call was admitted; it begins nothing while an earlier job is neither refused nor
  retired with proof; it reports its cleanup as proven only when no begun job is left or was retired without proof; and no
  request is begun at the host twice.\<close>

theorem gateway_effects_guarded:
  assumes "client_init host version local = Inr c" "d = gateway_run cd E ops c"
  shows "(\<exists>m. watch Idle (gc_effects d) = Some m \<and> (client_cleanup_proven d \<longrightarrow> m \<notin> {Running, Broken})) \<and> distinct (host_ids d)"
  using gateway_run_safe[OF assms(1), of cd E ops] assms(2) by (auto simp: safe_def trail_def client_cleanup_proven_def)

theorem gateway_effects_guarded_witness:
  "(\<exists>m. watch Idle (gc_effects sample_started) = Some m \<and> (client_cleanup_proven sample_started \<longrightarrow> m \<notin> {Running, Broken}))
    \<and> distinct (host_ids sample_started) \<and> host_ids sample_started = [''r1'']"
proof -
  have "host_ids sample_started = [''r1'']" using sample_started by (simp add: host_ids_def sample_request_def)
  with gateway_effects_guarded[OF sample_client_init sample_started_def] show ?thesis by blast
qed

text \<open>C30: A result that a poll of the gateway client delivers is honest: the call is over; a success names the host's
  provider and model, a degraded one those of the local route together with the failure of the host that allowed the
  fallback, and either is given only with the cleanup proven; a failure ends with \<open>cleanup\<close> exactly when it is not.\<close>

theorem gateway_results_honest:
  assumes "client_init host version local = Inr c" "gateway_poll cd E (gateway_run cd E ops c) = (Some r, d)"
  shows "gc_active d = None \<and> (case r of
      Success y i m \<Rightarrow> client_cleanup_proven d \<and> i = prv_provider_id (ho_provider (gc_host d)) \<and> m = prv_model_version (ho_provider (gc_host d))
    | Degraded y i m f \<Rightarrow> client_cleanup_proven d
        \<and> (\<exists>l. gc_local d = Some l \<and> i = prv_provider_id l \<and> m = prv_model_version l)
        \<and> fl_code f \<in> {''unavailable'', ''provider_failed'', ''timeout''} \<and> fl_provider_id f = prv_provider_id (ho_provider (gc_host d))
    | Failed fs \<Rightarrow> fs \<noteq> [] \<and> (fl_code (last fs) = ''cleanup'' \<longleftrightarrow> \<not> client_cleanup_proven d))"
proof -
  let ?c = "gateway_run cd E ops c"
  let ?d = "if gc_active ?c = None then ?c else case poll_job cd E ?c of (None, d) \<Rightarrow> d | (Some v, d) \<Rightarrow> finish_call cd E v d"
  have "safe ?d" using gateway_run_safe[OF assms(1)] polled_safe by simp
  moreover have d: "gc_terminal ?d = Some r" "d = ?d\<lparr>gc_terminal := None\<rparr>"
    using assms(2) unfolding gateway_poll_def Let_def by (auto split: if_splits)
  ultimately have "gc_active ?d = None" "result_ok ?d r" by (auto simp: safe_def book_def split: option.splits)
  with result_ok_cong[of d ?d r] d(2) show ?thesis
    by (cases r) (auto simp: client_cleanup_proven_def names_def fallback_failure_def fallback_codes_def)
qed

theorem gateway_results_honest_witness:
  "\<exists>d. gateway_poll sample_codec_pair (\<lambda>n. sample_moment) sample_started = (Some (Success sample_reply ''p1'' ''m1''), d)
    \<and> gc_active d = None \<and> client_cleanup_proven d"
proof -
  have r: "fst (gateway_poll sample_codec_pair (\<lambda>n. sample_moment) sample_started) = Some (Success sample_reply ''p1'' ''m1'')"
    by code_simp
  then obtain d where d: "gateway_poll sample_codec_pair (\<lambda>n. sample_moment) sample_started = (Some (Success sample_reply ''p1'' ''m1''), d)"
    by (metis prod.collapse)
  with gateway_results_honest[OF sample_client_init d[unfolded sample_started_def]] show ?thesis by auto
qed

text \<open>From the moment the gateway client is disabled until it is reconfigured, no operation begins an effect at
  the host or at the local route, not even a fallback of a call that was active, and it stays disabled.\<close>

theorem gateway_disabled_begins_nothing:
  assumes "gc_disabled c" "\<forall>op \<in> set ops. case op of OpReconfigure h l p owner \<Rightarrow> False | _ \<Rightarrow> True"
  shows "gc_disabled (gateway_run cd E ops c)
    \<and> filter begins (gc_effects (gateway_run cd E ops c)) = filter begins (gc_effects c)"
proof -
  have "lulled c (fold (gateway_do cd E) ops c)" using assms
  proof (induction ops arbitrary: c)
    case (Cons op ops)
    then have step: "lulled c (gateway_do cd E op c)" by (intro lull_do) auto
    from lull_trans[OF step Cons.IH] Cons.prems step show ?case by (auto simp: lulled_def)
  qed (simp add: lulled_def)
  then show ?thesis by (simp add: gateway_run_def lulled_def)
qed

definition sample_disabled :: gclient where
  "sample_disabled = sample_started\<lparr>gc_disabled := True\<rparr>"

theorem gateway_disabled_begins_nothing_witness:
  "filter begins (gc_effects (gateway_run sample_codec_pair (\<lambda>n. sample_moment) [OpPoll, OpStart (Some sample_request)] sample_disabled))
    = [BeginHost ''https://h/v1/gateway'' (replicate 64 CHR ''a'') (bearer_header sample_bearer) sample_request]"
  using gateway_disabled_begins_nothing[of sample_disabled "[OpPoll, OpStart (Some sample_request)]"] sample_started
  by (simp add: sample_disabled_def)

text \<open>Outside a callback, canceling the gateway client ends its active call at once: whatever the callbacks
  answer, no fallback is begun, the call is over and its failure waits to be polled.\<close>

theorem gateway_cancel_ends:
  assumes "gc_active c = Some a" "\<not> gc_inside c"
  shows "gc_active (gateway_cancel cd E c) = None \<and> (\<exists>fs. gc_terminal (gateway_cancel cd E c) = Some (Failed fs))"
proof -
  have "gc_active (mark_canceled c) = Some (a\<lparr>ca_cancel_requested := True\<rparr>)" using assms(1) by (simp add: mark_canceled_def)
  from finish_canceled[OF this] assms show ?thesis by (simp add: gateway_cancel_def)
qed

theorem gateway_cancel_ends_witness:
  "gc_active (gateway_cancel sample_codec_pair (\<lambda>n. sample_moment) sample_started) = None
    \<and> (\<exists>fs. gc_terminal (gateway_cancel sample_codec_pair (\<lambda>n. sample_moment) sample_started) = Some (Failed fs))"
proof -
  obtain a where "gc_active sample_started = Some a" "\<not> gc_inside sample_started" using sample_started by auto
  from gateway_cancel_ends[OF this] show ?thesis .
qed

end
