(* ===== verification/Provider_Configuration.thy ===== *)
theory Provider_Configuration
  imports Provider_Records Evaluation Gateway_Safety
begin

text \<open>
  The owner of the provider configuration, \<open>src/runtime/providers/configuration.py\<close>, together with the gateway client
  whose lock and configuration it owns. A candidate is an object with an identity, here its index in the list of all
  that were ever staged; a receipt is a number that is never reused. A reference the caller gives is \<open>None\<close> when it
  is an object of another type. \<open>sha\<close> digests a document.
\<close>

section \<open>State\<close>

record run_evidence =
  ev_manifest_digest :: string
  ev_bundle_digest :: string
  ev_run :: replay_run
  ev_evaluators :: "string list"

text \<open>\<open>run\<close> is \<open>None\<close> when it is no \<open>ReplayRun\<close>.\<close>

definition digest_given :: "pyv \<Rightarrow> string option" where
  "digest_given v = (case v of VStr s \<Rightarrow> if hex64_pattern s then Some s else None | _ \<Rightarrow> None)"

definition evidence_init :: "pyv \<Rightarrow> pyv \<Rightarrow> replay_run option \<Rightarrow> pyv \<Rightarrow> string + run_evidence" where
  "evidence_init mdigest bdigest run evaluators =
    (case (digest_given mdigest, digest_given bdigest) of
       (Some m, Some b) \<Rightarrow>
         (case (run, evaluators) of
            (Some r, VTuple vs) \<Rightarrow>
              (case those (map as_str vs) of
                 Some es \<Rightarrow>
                   (if es = [] \<or> [] \<in> set es \<or> \<not> distinct es then Inl ''evidence-evaluators''
                    else Inr \<lparr>ev_manifest_digest = m, ev_bundle_digest = b, ev_run = r, ev_evaluators = es\<rparr>)
               | None \<Rightarrow> Inl ''evidence-evaluators'')
          | _ \<Rightarrow> Inl ''evidence-evaluators'')
     | _ \<Rightarrow> Inl ''evidence-digest'')"

record config_candidate =
  cn_baseline :: int
  cn_manifests :: "manifest list"
  cn_host :: host
  cn_local :: "provider option"
  cn_policy :: provider_policy
  cn_evidence :: "run_evidence list"

datatype config_state = Active int nat | Disabled int "nat option"

fun cs_revision :: "config_state \<Rightarrow> int" where
  "cs_revision (Active r c) = r"
| "cs_revision (Disabled r c) = r"

record config =
  cg_state :: config_state
  cg_objects :: "config_candidate list"
  cg_staged :: "nat list"
  cg_approvals :: "(nat \<times> nat \<times> bool) list"
  cg_next_receipt :: nat
  cg_history :: "(int \<times> nat) list"
  cg_health :: "(string \<times> string \<times> int) list"
  cg_last_time :: int
  cg_clock_fault :: bool
  cg_token :: nat

text \<open>\<open>gateway\<close> is \<open>None\<close> when it is no \<open>GatewayClient\<close>.\<close>

definition config_init :: "gclient option \<Rightarrow> string + config \<times> gclient" where
  "config_init gateway =
    (case gateway of
       None \<Rightarrow> Inl ''gateway''
     | Some g \<Rightarrow> (case claim_configuration g of
         (Inl e, g) \<Rightarrow> Inl e
       | (Inr t, g) \<Rightarrow> Inr (\<lparr>cg_state = Disabled 0 None, cg_objects = [], cg_staged = [], cg_approvals = [], cg_next_receipt = 0,
           cg_history = [], cg_health = [], cg_last_time = 0, cg_clock_fault = False, cg_token = t\<rparr>, g)))"

text \<open>\<open>with self._gateway.configuration(self._token)\<close>: the body runs inside the transaction of the gateway, and what it
  changed stays when it raises.\<close>

definition transaction ::
  "(config \<Rightarrow> gclient \<Rightarrow> (string + 'a) \<times> config \<times> gclient) \<Rightarrow> config \<Rightarrow> gclient \<Rightarrow> (string + 'a) \<times> config \<times> gclient" where
  "transaction body k g =
    (case enter_configuration (Some (cg_token k)) g of
       (Some e, g) \<Rightarrow> (Inl e, k, g)
     | (None, g) \<Rightarrow> (case body k g of (r, k, g) \<Rightarrow> (r, k, leave_configuration g)))"

section \<open>Staging\<close>

definition disabled_provider :: "provider \<Rightarrow> provider" where
  "disabled_provider p = p\<lparr>prv_enabled := False, prv_health := ''unavailable''\<rparr>"

definition route_binds :: "manifest \<Rightarrow> provider \<Rightarrow> string \<Rightarrow> bool" where
  "route_binds m p placement \<longleftrightarrow> prv_placement (mf_provider m) = placement \<and> disabled_provider p = mf_provider m"

definition evidence_binds :: "(pyv \<Rightarrow> string) \<Rightarrow> manifest \<Rightarrow> run_evidence \<Rightarrow> bool" where
  "evidence_binds sha m e \<longleftrightarrow>
     ev_manifest_digest e = manifest_digest sha m \<and> rr_version (ev_run e) = prv_model_version (mf_provider m)"

text \<open>\<open>_stage\<close>: a local manifest and a local route are given or not; each of what is given may be of another type.\<close>

definition stage_routes ::
  "manifest option \<Rightarrow> host option \<Rightarrow> manifest option option \<Rightarrow> provider option option
    \<Rightarrow> (manifest list \<times> host \<times> provider option) option" where
  "stage_routes main host local_manifest local =
    (case (main, host) of
       (Some m, Some h) \<Rightarrow>
         (case (local_manifest, local) of
            (None, None) \<Rightarrow> Some ([m], h, None)
          | (Some (Some lm), Some (Some l)) \<Rightarrow> Some ([m, lm], h, Some l)
          | _ \<Rightarrow> None)
     | _ \<Rightarrow> None)"

definition route_providers :: "host \<Rightarrow> provider option \<Rightarrow> provider list" where
  "route_providers h l = ho_provider h # (case l of None \<Rightarrow> [] | Some p \<Rightarrow> [p])"

definition stage_inner ::
  "(pyv \<Rightarrow> string) \<Rightarrow> manifest option \<Rightarrow> host option \<Rightarrow> provider_policy option \<Rightarrow> run_evidence option list option
    \<Rightarrow> manifest option option \<Rightarrow> provider option option \<Rightarrow> config \<Rightarrow> (string + nat) \<times> config" where
  "stage_inner sha main host policy evidence local_manifest local k =
    (case policy of
       None \<Rightarrow> (Inl ''policy-required'', k)
     | Some y \<Rightarrow>
         (case stage_routes main host local_manifest local of
            None \<Rightarrow> (Inl ''routes'', k)
          | Some (ms, h, l) \<Rightarrow>
              (if l \<noteq> None \<and> \<not> pp_allow_fallback y then (Inl ''fallback-policy'', k)
               else if \<not> list_all (\<lambda>(m, p, placement). route_binds m p placement)
                        (zip ms (zip (route_providers h l) [''host'', ''vm''])) then (Inl ''route-binding'', k)
               else if \<not> distinct (map (\<lambda>m. prv_provider_id (mf_provider m)) ms) then (Inl ''duplicate-provider'', k)
               else case Option.bind evidence those of
                 None \<Rightarrow> (Inl ''evidence'', k)
               | Some es \<Rightarrow>
                   if length es \<noteq> length ms then (Inl ''evidence'', k)
                   else if \<not> list_all (\<lambda>(m, e). evidence_binds sha m e) (zip ms es) then (Inl ''evidence-binding'', k)
                   else if length (cg_staged k) \<ge> 256 then (Inl ''candidate-capacity'', k)
                   else (Inr (length (cg_objects k)),
                     k\<lparr>cg_objects := cg_objects k @ [\<lparr>cn_baseline = cs_revision (cg_state k), cn_manifests = ms, cn_host = h,
                         cn_local = l, cn_policy = y, cn_evidence = es\<rparr>],
                       cg_staged := length (cg_objects k) # cg_staged k\<rparr>))))"

definition inside :: "(config \<Rightarrow> (string + 'a) \<times> config) \<Rightarrow> config \<Rightarrow> gclient \<Rightarrow> (string + 'a) \<times> config \<times> gclient" where
  "inside f k g = (case f k of (r, k) \<Rightarrow> (r, k, g))"

definition stage ::
  "(pyv \<Rightarrow> string) \<Rightarrow> manifest option \<Rightarrow> host option \<Rightarrow> provider_policy option \<Rightarrow> run_evidence option list option
    \<Rightarrow> manifest option option \<Rightarrow> provider option option \<Rightarrow> config \<Rightarrow> gclient \<Rightarrow> (string + nat) \<times> config \<times> gclient" where
  "stage sha main host policy evidence local_manifest local =
     transaction (inside (stage_inner sha main host policy evidence local_manifest local))"

text \<open>\<open>_owned\<close>, with the object.\<close>

definition owned :: "nat option \<Rightarrow> config \<Rightarrow> (nat \<times> config_candidate) option" where
  "owned ref k =
    (case ref of
       None \<Rightarrow> None
     | Some i \<Rightarrow> if i \<in> set (cg_staged k) \<and> i < length (cg_objects k) then Some (i, cg_objects k ! i) else None)"

section \<open>Observation and approval\<close>

definition health_inner :: "(pyv \<Rightarrow> string) \<Rightarrow> nat option \<Rightarrow> pyv \<Rightarrow> pyv \<Rightarrow> pyv \<Rightarrow> config \<Rightarrow> (string + unit) \<times> config" where
  "health_inner sha ref provider_id status observed_at k =
    (case owned ref k of
       None \<Rightarrow> (Inl ''candidate-owner'', k)
     | Some (i, c) \<Rightarrow>
         (case (filter (\<lambda>m. provider_id = VStr (prv_provider_id (mf_provider m))) (cn_manifests c), status, observed_at) of
            (m # ms, VStr s, VInt t) \<Rightarrow>
              (if s \<notin> {''healthy'', ''degraded'', ''unavailable''} \<or> t < 0 then (Inl ''health-observation'', k)
               else let key = manifest_digest sha m
                 in if (case map_of (cg_health k) key of None \<Rightarrow> False | Some (s', t') \<Rightarrow> t < t') then (Inl ''health-regression'', k)
                    else (Inr (), k\<lparr>cg_health := AList.update key (s, t) (cg_health k)\<rparr>))
          | _ \<Rightarrow> (Inl ''health-observation'', k)))"

definition provider_observe ::
  "(pyv \<Rightarrow> string) \<Rightarrow> nat option \<Rightarrow> pyv \<Rightarrow> pyv \<Rightarrow> pyv \<Rightarrow> config \<Rightarrow> gclient \<Rightarrow> (string + unit) \<times> config \<times> gclient" where
  "provider_observe sha ref provider_id status observed_at =
     transaction (inside (health_inner sha ref provider_id status observed_at))"

definition baseline :: "config \<Rightarrow> run_evidence list" where
  "baseline k =
    (case cg_state k of
       Active r i \<Rightarrow> cn_evidence (cg_objects k ! i)
     | Disabled r (Some i) \<Rightarrow> cn_evidence (cg_objects k ! i)
     | Disabled r None \<Rightarrow> [])"

definition approve_inner :: "nat option \<Rightarrow> bool \<Rightarrow> config \<Rightarrow> (string + nat) \<times> config" where
  "approve_inner ref bootstrap k =
    (case owned ref k of
       None \<Rightarrow> (Inl ''candidate-owner'', k)
     | Some (i, c) \<Rightarrow>
         if bootstrap \<noteq> (length (cn_evidence c) > length (baseline k)) then (Inl ''bootstrap-approval-required'', k)
         else if cn_baseline c \<noteq> cs_revision (cg_state k) then (Inl ''stale-revision'', k)
         else if length (cg_approvals k) \<ge> 256 then (Inl ''approval-capacity'', k)
         else (Inr (cg_next_receipt k), k\<lparr>cg_approvals := (cg_next_receipt k, i, bootstrap) # cg_approvals k,
           cg_next_receipt := Suc (cg_next_receipt k)\<rparr>))"

definition approve :: "nat option \<Rightarrow> bool \<Rightarrow> config \<Rightarrow> gclient \<Rightarrow> (string + nat) \<times> config \<times> gclient" where
  "approve ref bootstrap = transaction (inside (approve_inner ref bootstrap))"

definition reject_inner :: "nat option \<Rightarrow> config \<Rightarrow> (string + unit) \<times> config" where
  "reject_inner ref k =
    (case owned ref k of
       None \<Rightarrow> (Inl ''candidate-owner'', k)
     | Some (i, c) \<Rightarrow>
         if cn_baseline c \<noteq> cs_revision (cg_state k) then (Inl ''stale-revision'', k)
         else (Inr (), k\<lparr>cg_staged := filter (\<lambda>j. j \<noteq> i) (cg_staged k),
           cg_approvals := filter (\<lambda>(r, j, b). j \<noteq> i) (cg_approvals k)\<rparr>))"

definition reject :: "nat option \<Rightarrow> config \<Rightarrow> gclient \<Rightarrow> (string + unit) \<times> config \<times> gclient" where
  "reject ref = transaction (inside (reject_inner ref))"

section \<open>Activation\<close>

definition note_time :: "pyv \<Rightarrow> config \<Rightarrow> int option \<times> config" where
  "note_time now k =
    (case now of
       VInt t \<Rightarrow>
         if t < cg_last_time k then (None, k\<lparr>cg_clock_fault := True\<rparr>)
         else if cg_clock_fault k then (None, k)
         else (Some t, k\<lparr>cg_last_time := t\<rparr>)
     | _ \<Rightarrow> (None, k\<lparr>cg_clock_fault := True\<rparr>))"

definition healthy :: "(pyv \<Rightarrow> string) \<Rightarrow> config \<Rightarrow> manifest \<Rightarrow> provider_policy \<Rightarrow> int \<Rightarrow> string option" where
  "healthy sha k m policy now =
    (case map_of (cg_health k) (manifest_digest sha m) of
       None \<Rightarrow> None
     | Some (status, seen) \<Rightarrow>
         if \<not> (0 \<le> now - seen \<and> now - seen \<le> pp_health_ttl_ms policy) \<or> status = ''unavailable''
            \<or> (status = ''degraded'' \<and> \<not> pp_allow_degraded policy) then None
         else Some status)"

fun evaluation :: "bool \<Rightarrow> run_evidence list \<Rightarrow> run_evidence list \<Rightarrow> string option" where
  "evaluation bootstrap [] bs = None"
| "evaluation bootstrap (e # es) [] =
    (let r = ev_run e
     in if rr_pinned r \<and> rr_deterministic r \<and> rr_independently_evaluated r \<and> rr_evaluator_consensus r
           \<and> list_all (\<lambda>(k, v). v = ''pass'') (rr_outcomes r) \<and> bootstrap
        then evaluation bootstrap es [] else Some ''bootstrap-evaluation'')"
| "evaluation bootstrap (e # es) (b # bs) =
    (if ev_bundle_digest b \<noteq> ev_bundle_digest e then Some ''evaluation-bundle-mismatch''
     else case promotion (ev_run b) (ev_run e) (VTuple [VStr ''approved'']) (VBool True) of
       Inl x \<Rightarrow> Some x
     | Inr d \<Rightarrow> if pd_decision d \<noteq> ''promote'' then Some ''evaluation-hold'' else evaluation bootstrap es bs)"

text \<open>\<open>replace(route, provider=...)\<close> runs the checks of the route again.\<close>

definition enabled_provider :: "manifest \<Rightarrow> string \<Rightarrow> provider" where
  "enabled_provider m status = (mf_provider m)\<lparr>prv_enabled := True, prv_health := status\<rparr>"

definition rebound :: "config_candidate \<Rightarrow> string list \<Rightarrow> string + (host \<times> provider option)" where
  "rebound c statuses =
    (case (zip (cn_manifests c) statuses, cn_local c) of
       ((m, s) # _, None) \<Rightarrow>
         (case provider_snapshot (Some (enabled_provider m s)) ''host'' of
            Inl e \<Rightarrow> Inl e | Inr p \<Rightarrow> Inr ((cn_host c)\<lparr>ho_provider := p\<rparr>, None))
     | ((m, s) # (lm, ls) # _, Some l) \<Rightarrow>
         (case provider_snapshot (Some (enabled_provider m s)) ''host'' of
            Inl e \<Rightarrow> Inl e
          | Inr p \<Rightarrow> (case provider_snapshot (Some (enabled_provider lm ls)) ''vm'' of
              Inl e \<Rightarrow> Inl e | Inr q \<Rightarrow> Inr ((cn_host c)\<lparr>ho_provider := p\<rparr>, Some q)))
     | _ \<Rightarrow> Inl ''identity'')"

definition activate_checked ::
  "(pyv \<Rightarrow> string) \<Rightarrow> nat \<Rightarrow> config_candidate \<Rightarrow> nat \<Rightarrow> int \<Rightarrow> config \<Rightarrow> gclient \<Rightarrow> (string + int) \<times> config \<times> gclient" where
  "activate_checked sha i c receipt now k g =
    (case those (map (\<lambda>m. healthy sha k m (cn_policy c) now) (cn_manifests c)) of
       None \<Rightarrow> (Inl ''health-ineligible'', k, g)
     | Some statuses \<Rightarrow>
         (case check_budgets (map Some (cn_manifests c)) (Some (cn_policy c)) of
            Some e \<Rightarrow> (Inl e, k, g)
          | None \<Rightarrow>
              if length (cg_history k) \<ge> 256 then (Inl ''revision-capacity'', k, g)
              else (case rebound c statuses of
                Inl e \<Rightarrow> (Inl e, k, g)
              | Inr (h, l) \<Rightarrow>
                  (case reconfigure (Some h) (Some l) CallablePermit (Some (cg_token k)) g of
                     (Some e, g) \<Rightarrow> (Inl e, k, g)
                   | (None, g) \<Rightarrow>
                       let revision = cs_revision (cg_state k) + 1
                       in (Inr revision, k\<lparr>cg_state := Active revision i, cg_history := (revision, i) # cg_history k,
                            cg_approvals := filter (\<lambda>(r, x). r \<noteq> receipt) (cg_approvals k)\<rparr>, g)))))"

definition activate_inner ::
  "(pyv \<Rightarrow> string) \<Rightarrow> nat option \<Rightarrow> nat option \<Rightarrow> pyv \<Rightarrow> config \<Rightarrow> gclient \<Rightarrow> (string + int) \<times> config \<times> gclient" where
  "activate_inner sha ref receipt now k g =
    (case owned ref k of
       None \<Rightarrow> (Inl ''candidate-owner'', k, g)
     | Some (i, c) \<Rightarrow>
         if cn_baseline c \<noteq> cs_revision (cg_state k) then (Inl ''stale-revision'', k, g)
         else (case (receipt, Option.bind receipt (map_of (cg_approvals k))) of
           (Some r, Some (j, bootstrap)) \<Rightarrow>
             (if j \<noteq> i then (Inl ''approval-required'', k, g)
              else case evaluation bootstrap (cn_evidence c) (baseline k) of
                Some e \<Rightarrow> (Inl e, k, g)
              | None \<Rightarrow>
                  (case note_time now k of
                     (None, k) \<Rightarrow> (Inl ''clock'', k, g)
                   | (Some t, k) \<Rightarrow> activate_checked sha i c r t k g))
         | _ \<Rightarrow> (Inl ''approval-required'', k, g)))"

definition config_activate ::
  "(pyv \<Rightarrow> string) \<Rightarrow> nat option \<Rightarrow> nat option \<Rightarrow> pyv \<Rightarrow> config \<Rightarrow> gclient \<Rightarrow> (string + int) \<times> config \<times> gclient" where
  "config_activate sha ref receipt now = transaction (activate_inner sha ref receipt now)"

section \<open>The permit, disabling and restoring\<close>

text \<open>\<open>_permit\<close>, which the gateway calls inside its own lock.\<close>

definition config_permit :: "(pyv \<Rightarrow> string) \<Rightarrow> provider \<Rightarrow> string \<Rightarrow> pyv \<Rightarrow> config \<Rightarrow> bool \<times> config" where
  "config_permit sha p wanted now k =
    (case note_time now k of
       (None, k) \<Rightarrow> (False, k)
     | (Some t, k) \<Rightarrow>
         (case cg_state k of
            Disabled r previous \<Rightarrow> (False, k)
          | Active r i \<Rightarrow>
              let c = cg_objects k ! i
              in (case filter (\<lambda>m. (prv_provider_id (mf_provider m), prv_model_version (mf_provider m))
                                   = (prv_provider_id p, prv_model_version p)) (cn_manifests c) of
                    [] \<Rightarrow> (False, k)
                  | m # ms \<Rightarrow>
                      (wanted \<in> set (prv_capabilities (mf_provider m)) \<and> healthy sha k m (cn_policy c) t \<noteq> None
                       \<and> check_budgets (map Some (cn_manifests c)) (Some (cn_policy c)) = None, k))))"

definition config_disable_inner ::
  "codec \<Rightarrow> genvironment \<Rightarrow> config \<Rightarrow> gclient \<Rightarrow> (string + config_state) \<times> config \<times> gclient" where
  "config_disable_inner cd E k g =
    (let previous = (case cg_state k of Active r i \<Rightarrow> Some i | Disabled r p \<Rightarrow> p);
         state = Disabled (cs_revision (cg_state k) + 1) previous;
         k = k\<lparr>cg_state := state\<rparr>
     in (case gateway_disable cd E (Some (cg_token k)) g of
           (Some e, g) \<Rightarrow> (Inl e, k, g)
         | (None, g) \<Rightarrow> (Inr state, k, g)))"

definition config_disable ::
  "codec \<Rightarrow> genvironment \<Rightarrow> config \<Rightarrow> gclient \<Rightarrow> (string + config_state) \<times> config \<times> gclient" where
  "config_disable cd E = transaction (config_disable_inner cd E)"

definition restore_inner :: "(pyv \<Rightarrow> string) \<Rightarrow> pyv \<Rightarrow> run_evidence option list option \<Rightarrow> config \<Rightarrow> (string + nat) \<times> config" where
  "restore_inner sha revision evidence k =
    (case (case revision of VInt r \<Rightarrow> map_of (cg_history k) r | _ \<Rightarrow> None) of
       None \<Rightarrow> (Inl ''restore-revision'', k)
     | Some i \<Rightarrow>
         let c = cg_objects k ! i
         in (case cn_manifests c of
               m # ms \<Rightarrow> stage_inner sha (Some m) (Some (cn_host c)) (Some (cn_policy c)) evidence
                  (case ms of [lm] \<Rightarrow> Some (Some lm) | _ \<Rightarrow> None) (map_option Some (cn_local c)) k
             | [] \<Rightarrow> (Inl ''routes'', k)))"

definition restore ::
  "(pyv \<Rightarrow> string) \<Rightarrow> pyv \<Rightarrow> run_evidence option list option \<Rightarrow> config \<Rightarrow> gclient \<Rightarrow> (string + nat) \<times> config \<times> gclient" where
  "restore sha revision evidence = transaction (inside (restore_inner sha revision evidence))"

end
