(* ===== verification/Provider_Safety.thy ===== *)
theory Provider_Safety
  imports Provider_Configuration
begin

text \<open>
  The configuration owner and the gateway client together: what is activated was approved, and the credential
  of a host goes only where an approved candidate says.
\<close>

section \<open>Where a gateway operation aims\<close>

fun for_host :: "host \<Rightarrow> geffect \<Rightarrow> bool" where
  "for_host h (BeginHost url peer header q) \<longleftrightarrow> url = ho_url h \<and> peer = ho_peer h \<and> header = bearer_header (ho_bearer h)"
| "for_host h _ \<longleftrightarrow> True"

definition aims :: "gclient \<Rightarrow> gclient \<Rightarrow> bool" where
  "aims c d \<longleftrightarrow> gc_host d = gc_host c \<and> gc_local d = gc_local c \<and> gc_owner d = gc_owner c \<and> gc_permit d = gc_permit c
     \<and> gc_configuring d = gc_configuring c \<and> (gc_disabled c \<longrightarrow> gc_disabled d)
     \<and> (\<exists>es. gc_effects d = gc_effects c @ es \<and> list_all (for_host (gc_host c)) es \<and> (gc_disabled c \<longrightarrow> filter begins es = []))"

lemma aims_refl [simp, intro]: "aims c c"
  by (simp add: aims_def)

lemma aims_trans: "aims c d \<Longrightarrow> aims d e \<Longrightarrow> aims c e"
  by (auto simp: aims_def)

lemma aims_moved: "moved es c d \<Longrightarrow> list_all (for_host (gc_host c)) es \<Longrightarrow> filter begins es = [] \<Longrightarrow> aims c d"
  unfolding moved_def aims_def by (elim conjE) (intro conjI exI[of _ es], simp_all)

lemma aims_moved0: "moved [] c d \<Longrightarrow> aims c d"
  using aims_moved[of "[]" c d] by simp

lemma for_host_checks [simp]: "list_all (for_host h) (checks_effects a r)"
  by (auto simp: checks_effects_def split: groute.splits)

lemma aims_begun:
  assumes "moved es d e" "gc_host d = gc_host c" "gc_local d = gc_local c" "gc_owner d = gc_owner c" "gc_permit d = gc_permit c"
    "gc_configuring d = gc_configuring c" "gc_disabled d = gc_disabled c" "gc_effects d = gc_effects c"
    "list_all (for_host (gc_host c)) es" "\<not> gc_disabled c"
  shows "aims c e"
  using assms unfolding moved_def aims_def by (elim conjE) (intro conjI exI[of _ es], simp_all)

lemma aims_begin_effect:
  assumes "begin_effect cd E q c = (v, d)" "gc_active c = Some a" "\<not> gc_disabled c" "\<And>h. ca_route a = HostRoute h \<Longrightarrow> h = gc_host c"
  shows "aims c d"
proof -
  let ?b = "begin_geffect (ca_route a) q"
  have b: "for_host (gc_host c) ?b" using assms(4) by (cases "ca_route a") (auto simp: begin_geffect_def)
  from begin_effect_cases[OF assms(1,2)] consider
      (none) "moved [] (c\<lparr>gc_unclean := True\<rparr>) d"
    | (raised) "moved [?b] (c\<lparr>gc_unclean := True\<rparr>) d"
    | (refused) "moved [?b, NoJob] (c\<lparr>gc_unclean := False\<rparr>) d"
    | (job) j where "moved [?b] (c\<lparr>gc_unclean := True, gc_active := Some (a\<lparr>ca_job := j\<rparr>)\<rparr>) d"
    by blast
  then show ?thesis
  proof cases
    case none
    then show ?thesis by (rule aims_begun) (use assms(3) in simp_all)
  next
    case raised
    then show ?thesis by (rule aims_begun) (use assms(3) b in simp_all)
  next
    case refused
    then show ?thesis by (rule aims_begun) (use assms(3) b in simp_all)
  next
    case job
    then show ?thesis by (rule aims_begun) (use assms(3) b in simp_all)
  qed
qed

lemma safe_route: "safe c \<Longrightarrow> gc_active c = Some a \<Longrightarrow> ca_route a = HostRoute h \<Longrightarrow> h = gc_host c"
  by (auto simp: safe_def book_def route_ok_def)

lemma aims_begin_core:
  assumes "safe c" "gc_active c = Some a" "begin_core cd E c = (v, d)"
  shows "aims c d"
  using begin_core_cases[OF assms(3,2)]
proof (elim disjE exE conjE)
  fix r assume "moved (checks_effects a r) c d"
  then show ?thesis by (rule aims_moved) simp_all
next
  fix x q
  assume x: "moved (checks_effects a None @ [Admitted]) c x" and off: "\<not> gc_disabled x" and d: "begin_effect cd E q x = (v, d)"
  obtain b where b: "gc_active x = Some b" "same_call a b" using moved_active[OF x assms(2)] by blast
  have "h = gc_host x" if "ca_route b = HostRoute h" for h
    using safe_route[OF assms(1,2), of h] that b(2) moved_same(1)[OF x] by (simp add: same_call_def)
  from aims_begin_effect[OF d b(1) off this] aims_moved[OF x] show ?thesis by (auto intro: aims_trans)
qed

lemma conclude_keeps: "conclude i v clean b y = (again, d) \<Longrightarrow> aims y d"
  by (auto simp: conclude_def Let_def aims_def split: if_splits outcome_value.splits)

lemma aims_finish_core:
  assumes "finish_core E v c = (again, d)" "gc_active c = Some a"
  shows "aims c d"
proof -
  from finish_core_cases[OF assms] obtain p i y b where
    y: "moved (if ca_job a then [Retired p] else [])
        (c\<lparr>gc_active := Some (a\<lparr>ca_job := False\<rparr>), gc_unclean := \<not> (p \<and> v \<noteq> Fails ''cleanup'')\<rparr>) y" and
    d: "(again, d) = conclude i (case i of Some k \<Rightarrow> Fails k | None \<Rightarrow> v) (p \<and> v \<noteq> Fails ''cleanup'') b y" by blast
  have "aims (c\<lparr>gc_active := Some (a\<lparr>ca_job := False\<rparr>), gc_unclean := \<not> (p \<and> v \<noteq> Fails ''cleanup'')\<rparr>) y"
    by (rule aims_moved[OF y]) simp_all
  then have "aims c y" by (simp add: aims_def)
  with conclude_keeps[OF d[symmetric]] show ?thesis by (blast intro: aims_trans)
qed

lemma aims_finish: "safe c \<Longrightarrow> gc_active c \<noteq> None \<Longrightarrow> aims c (finish_call cd E v c)"
proof (induction cd E v c rule: finish_call.induct)
  case (1 cd E v c)
  obtain again c' where f: "finish_core E v c = (again, c')" by fastforce
  from 1(3) obtain a where a: "gc_active c = Some a" by auto
  note s = finish_core_safe[OF 1(2) a f] aims_finish_core[OF f a]
  show ?case
  proof (cases again)
    case True
    with s obtain a' where a': "gc_active c' = Some a'" by (auto simp: fresh_def)
    obtain w d where w: "begin_core cd E c' = (w, d)" by fastforce
    from begin_core_safe[OF _ _ w] s True have d: "safe d" "gc_active d \<noteq> None" by auto
    have cd': "aims c d" using aims_trans[OF s(2) aims_begin_core[OF _ a' w]] s(1) by blast
    show ?thesis
    proof (cases w)
      case (Some u)
      have "aims d (finish_call cd E u d)" by (rule 1(1)[OF f[symmetric]]) (use True w Some d in simp_all)
      with aims_trans[OF cd' this] True f w Some show ?thesis by (simp add: finish_call.simps[of cd E v c])
    qed (use True f w cd' in \<open>simp add: finish_call.simps[of cd E v c]\<close>)
  qed (use s f in \<open>simp add: finish_call.simps[of cd E v c]\<close>)
qed

lemma aims_begin_call: "safe c \<Longrightarrow> fresh c \<Longrightarrow> aims c (begin_call cd E c)"
proof -
  assume c: "safe c" "fresh c"
  obtain v d where d: "begin_core cd E c = (v, d)" by fastforce
  obtain a where a: "gc_active c = Some a" using c(2) by (auto simp: fresh_def)
  note s = begin_core_safe[OF c d]
  show ?thesis
  proof (cases v)
    case (Some w)
    with aims_trans[OF aims_begin_core[OF c(1) a d] aims_finish[of d cd E w]] s d show ?thesis by (simp add: begin_call_def)
  qed (use aims_begin_core[OF c(1) a d] d in \<open>simp add: begin_call_def\<close>)
qed

lemma aims_start: "safe c \<Longrightarrow> aims c (snd (gateway_start cd E q c))"
proof -
  assume c: "safe c"
  have "aims c (begin_call cd E d)" if d: "d = c\<lparr>gc_ids := ids, gc_active := Some \<lparr>ca_request = r, ca_route = HostRoute (gc_host c),
      ca_deadline = None, ca_last_time = None, ca_job = False, ca_primary = None, ca_cancel_requested = False\<rparr>\<rparr>"
      "gc_active c = None" "gc_terminal c = None" "gc_fault c = None" "claim (gq_request_id r) (gc_ids c) = Inr ids" for d ids r
  proof -
    note s = started_safe[OF c d(2-5) d(1)]
    have "aims c d" by (simp add: d(1) aims_def)
    with aims_begin_call[of d cd E] s show ?thesis by (blast intro: aims_trans)
  qed
  then show ?thesis by (auto simp: gateway_start_def split: option.splits sum.splits)
qed

lemma aims_poll: "safe c \<Longrightarrow> aims c (snd (gateway_poll cd E c))"
proof -
  assume c: "safe c"
  obtain v d where d: "poll_job cd E c = (v, d)" by fastforce
  note m = moved_poll_job[OF d]
  have taken: "aims e (e\<lparr>gc_terminal := None\<rparr>)" for e by (simp add: aims_def)
  have "aims c (case v of None \<Rightarrow> d | Some w \<Rightarrow> finish_call cd E w d)" if "gc_active c \<noteq> None"
  proof (cases v)
    case (Some w)
    have "gc_active d \<noteq> None" using moved_active[OF m] that by auto
    from aims_trans[OF aims_moved0[OF m] aims_finish[OF safe_moved[OF m c] this]] Some show ?thesis by simp
  qed (use m in \<open>simp add: aims_moved0\<close>)
  with aims_trans[OF _ taken] taken d show ?thesis by (auto simp: gateway_poll_def Let_def split: option.splits)
qed

lemma aims_cancel: "safe c \<Longrightarrow> aims c (gateway_cancel cd E c)"
proof -
  assume c: "safe c"
  note m = moved_mark[of c]
  have "gc_active c \<noteq> None \<Longrightarrow> gc_active (mark_canceled c) \<noteq> None" by (auto simp: mark_canceled_def)
  with aims_trans[OF aims_moved0[OF m] aims_finish[OF safe_moved[OF m c]]] aims_moved0[OF m] show ?thesis
    by (simp add: gateway_cancel_def)
qed

text \<open>Code that holds no token can start, poll and cancel; what asks for the token refuses it.\<close>

fun foreign :: "nat \<Rightarrow> gop \<Rightarrow> bool" where
  "foreign t (OpDisable owner) = (owner \<noteq> Some t)"
| "foreign t (OpEnter owner) = (owner \<noteq> Some t)"
| "foreign t (OpReconfigure h l p owner) = (owner \<noteq> Some t)"
| "foreign t OpLeave = False"
| "foreign t _ = True"

lemma aims_foreign: "safe c \<Longrightarrow> gc_owner c = Some t \<Longrightarrow> foreign t op \<Longrightarrow> aims c (gateway_do cd E op c)"
  by (cases op) (auto simp: aims_start aims_poll aims_cancel gateway_disable_def claim_configuration_def enter_configuration_def
      reconfigure_def)

section \<open>The configured gateway\<close>

datatype cop =
    CStage "manifest option" "host option" "provider_policy option" "run_evidence option list option" "manifest option option"
      "provider option option"
  | CObserve "nat option" pyv pyv pyv
  | CApprove "nat option" bool
  | CReject "nat option"
  | CActivate "nat option" "nat option" pyv
  | CPermit provider string pyv
  | CDisable
  | CRestore pyv "run_evidence option list option"
  | CGateway gop

text \<open>The permit runs when the gateway calls it; here it may run at any time.\<close>

fun config_do :: "(pyv \<Rightarrow> string) \<Rightarrow> codec \<Rightarrow> genvironment \<Rightarrow> cop \<Rightarrow> config \<times> gclient \<Rightarrow> config \<times> gclient" where
  "config_do sha cd E (CStage m h y es lm l) (k, g) = snd (stage sha m h y es lm l k g)"
| "config_do sha cd E (CObserve ref p s t) (k, g) = snd (provider_observe sha ref p s t k g)"
| "config_do sha cd E (CApprove ref b) (k, g) = snd (approve ref b k g)"
| "config_do sha cd E (CReject ref) (k, g) = snd (reject ref k g)"
| "config_do sha cd E (CActivate ref receipt now) (k, g) = snd (config_activate sha ref receipt now k g)"
| "config_do sha cd E (CPermit p s now) (k, g) = (snd (config_permit sha p s now k), g)"
| "config_do sha cd E CDisable (k, g) = snd (config_disable cd E k g)"
| "config_do sha cd E (CRestore r es) (k, g) = snd (restore sha r es k g)"
| "config_do sha cd E (CGateway op) (k, g) = (k, gateway_do cd E op g)"

definition config_run :: "(pyv \<Rightarrow> string) \<Rightarrow> codec \<Rightarrow> genvironment \<Rightarrow> cop list \<Rightarrow> config \<times> gclient \<Rightarrow> config \<times> gclient" where
  "config_run sha cd E ops s = fold (config_do sha cd E) ops s"

fun allowed :: "cop \<Rightarrow> bool" where
  "allowed (CGateway op) = foreign 0 op"
| "allowed _ = True"

section \<open>Bookkeeping of the configuration\<close>

definition object :: "config \<Rightarrow> nat \<Rightarrow> config_candidate \<Rightarrow> bool" where
  "object k i c \<longleftrightarrow> i < length (cg_objects k) \<and> cg_objects k ! i = c"

text \<open>Every revision in the history was activated from the revision just below, on which its candidate was based.\<close>

definition ledger_ok :: "config \<Rightarrow> bool" where
  "ledger_ok k \<longleftrightarrow> 0 \<le> cs_revision (cg_state k) \<and> distinct (map fst (cg_history k))
     \<and> (\<forall>(r, i) \<in> set (cg_history k). r \<le> cs_revision (cg_state k) \<and> i < length (cg_objects k)
          \<and> cn_baseline (cg_objects k ! i) = r - 1)
     \<and> (case cg_state k of Active r i \<Rightarrow> (r, i) \<in> set (cg_history k) | Disabled r p \<Rightarrow> True)
     \<and> (\<forall>i \<in> set (cg_staged k). i < length (cg_objects k)) \<and> cg_token k = 0"

definition same_ledger :: "config \<Rightarrow> config \<Rightarrow> bool" where
  "same_ledger k l \<longleftrightarrow> cg_state l = cg_state k \<and> cg_history l = cg_history k \<and> cg_token l = cg_token k
     \<and> (\<exists>cs. cg_objects l = cg_objects k @ cs) \<and> (\<forall>i \<in> set (cg_staged l). i \<in> set (cg_staged k) \<or> i < length (cg_objects l))"

lemma ledger_same: "ledger_ok k \<Longrightarrow> same_ledger k l \<Longrightarrow> ledger_ok l"
proof -
  assume k: "ledger_ok k" and l: "same_ledger k l"
  then obtain cs where cs: "cg_objects l = cg_objects k @ cs" by (auto simp: same_ledger_def)
  have o: "i < length (cg_objects l) \<and> cg_objects l ! i = cg_objects k ! i" if "i < length (cg_objects k)" for i
    using that by (simp add: cs nth_append)
  have "\<forall>i \<in> set (cg_staged l). i < length (cg_objects l)" using k l o unfolding ledger_ok_def same_ledger_def by blast
  moreover have "\<forall>(r, i) \<in> set (cg_history k). r \<le> cs_revision (cg_state k) \<and> i < length (cg_objects l)
      \<and> cn_baseline (cg_objects l ! i) = r - 1" using k o unfolding ledger_ok_def by fastforce
  ultimately show ?thesis using k l unfolding ledger_ok_def same_ledger_def by (cases "cg_state k") simp_all
qed

lemma same_ledger_refl [simp]: "same_ledger k k"
  by (simp add: same_ledger_def)

lemma stage_ledger: "stage_inner sha m h y es lm l k = (r, k') \<Longrightarrow> same_ledger k k'"
  by (auto simp: stage_inner_def same_ledger_def split: option.splits if_splits prod.splits)

lemma observe_ledger: "health_inner sha ref p s t k = (r, k') \<Longrightarrow> same_ledger k k'"
  by (auto simp: health_inner_def same_ledger_def Let_def split: option.splits if_splits prod.splits list.splits pyv.splits)

lemma approve_ledger: "approve_inner ref b k = (r, k') \<Longrightarrow> same_ledger k k'"
  by (auto simp: approve_inner_def same_ledger_def split: option.splits if_splits prod.splits)

lemma reject_ledger: "reject_inner ref k = (r, k') \<Longrightarrow> same_ledger k k'"
  by (auto simp: reject_inner_def same_ledger_def split: option.splits if_splits prod.splits)

lemma restore_ledger: "restore_inner sha v es k = (r, k') \<Longrightarrow> same_ledger k k'"
  by (auto simp: restore_inner_def Let_def same_ledger_def dest: stage_ledger[unfolded same_ledger_def] split: option.splits list.splits)

lemma note_time_ledger: "note_time now k = (t, k') \<Longrightarrow> same_ledger k k'"
  by (auto simp: note_time_def same_ledger_def split: pyv.splits if_splits)

lemma permit_ledger: "same_ledger k (snd (config_permit sha p s now k))"
proof -
  obtain t k' where "note_time now k = (t, k')" by fastforce
  with note_time_ledger[OF this] show ?thesis
    by (auto simp: config_permit_def Let_def split: option.splits config_state.splits list.splits)
qed

text \<open>What an activation does, error by error undone but for the clock.\<close>

lemma reconfigure_refused: "reconfigure h l p owner g = (Some e, g') \<Longrightarrow> g' = g"
  by (auto simp: reconfigure_def split: if_splits option.splits)

lemma activate_checked_error: "activate_checked sha i c r t k g = (Inl e, k', g') \<Longrightarrow> g' = g \<and> k' = k"
  unfolding activate_checked_def Let_def
  by (auto split: option.split_asm if_split_asm prod.split_asm sum.split_asm dest: reconfigure_refused)

lemma activate_inner_error:
  assumes "activate_inner sha ref receipt now k g = (Inl e, k', g')"
  shows "g' = g \<and> same_ledger k k'"
proof -
  obtain t k1 where t: "note_time now k = (t, k1)" by fastforce
  note l = note_time_ledger[OF t]
  show ?thesis using assms l unfolding activate_inner_def t
    by (auto split: option.split_asm if_split_asm prod.split_asm dest: activate_checked_error)
qed

lemma activate_inner_ok:
  assumes "activate_inner sha ref receipt now k g = (Inr rv, k', g')"
  shows "\<exists>i c r b t k1 statuses h l. owned ref k = Some (i, c) \<and> cn_baseline c = cs_revision (cg_state k)
    \<and> receipt = Some r \<and> map_of (cg_approvals k) r = Some (i, b) \<and> evaluation b (cn_evidence c) (baseline k) = None
    \<and> note_time now k = (Some t, k1) \<and> those (map (\<lambda>m. healthy sha k1 m (cn_policy c) t) (cn_manifests c)) = Some statuses
    \<and> check_budgets (map Some (cn_manifests c)) (Some (cn_policy c)) = None \<and> rebound c statuses = Inr (h, l)
    \<and> reconfigure (Some h) (Some l) CallablePermit (Some (cg_token k1)) g = (None, g')
    \<and> rv = cs_revision (cg_state k1) + 1
    \<and> k' = k1\<lparr>cg_state := Active rv i, cg_history := (rv, i) # cg_history k1,
         cg_approvals := filter (\<lambda>(q, x). q \<noteq> r) (cg_approvals k1)\<rparr>"
proof -
  from assms obtain i c r b t k1 where o: "owned ref k = Some (i, c)" "cn_baseline c = cs_revision (cg_state k)"
      "receipt = Some r" "map_of (cg_approvals k) r = Some (i, b)" "evaluation b (cn_evidence c) (baseline k) = None"
      "note_time now k = (Some t, k1)" "activate_checked sha i c r t k1 g = (Inr rv, k', g')"
    unfolding activate_inner_def by (auto split: option.split_asm if_split_asm prod.split_asm)
  from o(7) obtain statuses h l where
      "those (map (\<lambda>m. healthy sha k1 m (cn_policy c) t) (cn_manifests c)) = Some statuses"
      "check_budgets (map Some (cn_manifests c)) (Some (cn_policy c)) = None" "rebound c statuses = Inr (h, l)"
      "reconfigure (Some h) (Some l) CallablePermit (Some (cg_token k1)) g = (None, g')" "rv = cs_revision (cg_state k1) + 1"
      "k' = k1\<lparr>cg_state := Active rv i, cg_history := (rv, i) # cg_history k1,
         cg_approvals := filter (\<lambda>(q, x). q \<noteq> r) (cg_approvals k1)\<rparr>"
    unfolding activate_checked_def Let_def by (auto split: option.split_asm if_split_asm prod.split_asm sum.split_asm)
  with o show ?thesis by blast
qed

lemma owned_object: "owned ref k = Some (i, c) \<Longrightarrow> ref = Some i \<and> i \<in> set (cg_staged k) \<and> object k i c"
  by (auto simp: owned_def object_def split: option.splits if_splits)

lemma activate_ledger:
  assumes "ledger_ok k" "activate_inner sha ref receipt now k g = (Inr rv, k', g')"
  shows "ledger_ok k'"
proof -
  from activate_inner_ok[OF assms(2)] obtain i c r t k1 where
    c: "owned ref k = Some (i, c)" "cn_baseline c = cs_revision (cg_state k)" "note_time now k = (Some t, k1)"
      "rv = cs_revision (cg_state k1) + 1"
      "k' = k1\<lparr>cg_state := Active rv i, cg_history := (rv, i) # cg_history k1,
         cg_approvals := filter (\<lambda>(q, x). q \<noteq> r) (cg_approvals k1)\<rparr>" by blast
  note l = note_time_ledger[OF c(3)]
  from ledger_same[OF assms(1) l] have k1: "ledger_ok k1" .
  have fresh: "(rv, j) \<notin> set (cg_history k1)" for j
    using k1 c(4) unfolding ledger_ok_def by fastforce
  have "i < length (cg_objects k1) \<and> cn_baseline (cg_objects k1 ! i) = rv - 1"
    using owned_object[OF c(1)] c(2,4) l by (auto simp: object_def same_ledger_def nth_append)
  with k1 fresh c(4,5) show ?thesis
    by (auto simp: ledger_ok_def split: config_state.splits)
qed

section \<open>The configuration and the gateway together\<close>

definition bound :: "config_candidate \<Rightarrow> gclient \<Rightarrow> bool" where
  "bound c g \<longleftrightarrow> gc_permit g \<and> (\<exists>statuses. rebound c statuses = Inr (gc_host g, gc_local g))"

definition approved_effect :: "config \<Rightarrow> geffect \<Rightarrow> bool" where
  "approved_effect k e \<longleftrightarrow> \<not> begins e \<or> (\<exists>(r, i) \<in> set (cg_history k). for_host (cn_host (cg_objects k ! i)) e)"

definition config_inv :: "config \<Rightarrow> gclient \<Rightarrow> bool" where
  "config_inv k g \<longleftrightarrow> ledger_ok k \<and> safe g \<and> gc_owner g = Some 0 \<and> \<not> gc_configuring g
     \<and> (\<not> gc_disabled g \<longrightarrow> (case cg_state k of Active r i \<Rightarrow> bound (cg_objects k ! i) g | Disabled r p \<Rightarrow> False))
     \<and> list_all (approved_effect k) (gc_effects g)"

lemma rebound_host: "rebound c statuses = Inr (h, l) \<Longrightarrow>
    ho_url h = ho_url (cn_host c) \<and> ho_peer h = ho_peer (cn_host c) \<and> ho_bearer h = ho_bearer (cn_host c)"
  by (auto simp: rebound_def split: list.splits option.splits sum.splits prod.splits)

lemma bound_for_host: "bound c g \<Longrightarrow> for_host (gc_host g) e \<Longrightarrow> for_host (cn_host c) e"
  by (cases e) (auto simp: bound_def dest!: rebound_host)

lemma approved_same:
  assumes "ledger_ok k" "same_ledger k l" "approved_effect k e"
  shows "approved_effect l e"
proof -
  have "cg_objects l ! i = cg_objects k ! i" if "(r, i) \<in> set (cg_history k)" for r i
    using assms(1,2) that by (fastforce simp: ledger_ok_def same_ledger_def nth_append)
  moreover have "cg_history l = cg_history k" using assms(2) by (simp add: same_ledger_def)
  ultimately show ?thesis using assms(3) unfolding approved_effect_def by (metis (no_types, lifting) case_prodE case_prodI)
qed

lemma config_inv_same: 
  assumes "config_inv k g" "same_ledger k l"
  shows "config_inv l g"
proof -
  have k: "ledger_ok k" using assms(1) by (simp add: config_inv_def)
  have "cg_objects l ! i = cg_objects k ! i" if "cg_state k = Active r i" for r i
    using k assms(2) that by (fastforce simp: ledger_ok_def same_ledger_def nth_append)
  moreover have "list_all (approved_effect l) (gc_effects g)"
    using assms(1) approved_same[OF k assms(2)] by (auto simp: config_inv_def list_all_iff)
  ultimately show ?thesis using assms ledger_same[OF k assms(2)]
    by (auto simp: config_inv_def same_ledger_def split: config_state.splits)
qed

lemma transaction_cases:
  assumes "transaction body k g = (r, k', g')"
  shows "(k' = k \<and> g' = g \<and> (\<exists>e. r = Inl e))
    \<or> (\<exists>g1. body k (g\<lparr>gc_configuring := True\<rparr>) = (r, k', g1) \<and> g' = leave_configuration g1)"
  using assms by (auto simp: transaction_def enter_configuration_def split: prod.splits if_splits)

lemma leave_entered: "\<not> gc_configuring g \<Longrightarrow> leave_configuration (g\<lparr>gc_configuring := True\<rparr>) = g"
  by (simp add: leave_configuration_def)

lemma inside_inv:
  assumes "config_inv k g" "same_ledger k (snd (f k))" "transaction (inside f) k g = (r, k', g')"
  shows "config_inv k' g'"
proof -
  have "g' = g \<and> same_ledger k k'"
    using transaction_cases[OF assms(3)] assms(1,2) leave_entered[of g]
    by (auto simp: inside_def config_inv_def split: prod.splits)
  with config_inv_same[OF assms(1)] show ?thesis by simp
qed

lemma effects_same: "reconfigure h l p owner g = (e, g') \<Longrightarrow> gc_effects g' = gc_effects g \<and> gc_owner g' = gc_owner g
    \<and> gc_configuring g' = gc_configuring g"
  by (auto simp: reconfigure_def split: if_splits option.splits)

lemma reconfigured: "reconfigure (Some h) (Some l) CallablePermit owner g = (None, g') \<Longrightarrow>
    gc_host g' = h \<and> gc_local g' = l \<and> gc_permit g'"
  by (auto simp: reconfigure_def split: if_splits option.splits)

lemma safe_configuring: "safe g \<Longrightarrow> safe (g\<lparr>gc_configuring := b\<rparr>)"
  by (erule safe_cong) simp_all

lemma activate_inv:
  assumes "config_inv k g" "config_activate sha ref receipt now k g = (r, k', g')"
  shows "config_inv k' g'"
  using transaction_cases[OF assms(2)[unfolded config_activate_def]]
proof (elim disjE exE conjE)
  fix g1 assume a: "activate_inner sha ref receipt now k (g\<lparr>gc_configuring := True\<rparr>) = (r, k', g1)" and g': "g' = leave_configuration g1"
  have k: "ledger_ok k" "safe g" "gc_owner g = Some 0" "\<not> gc_configuring g" using assms(1) by (simp_all add: config_inv_def)
  show ?thesis
  proof (cases r)
    case (Inl e)
    from activate_inner_error[OF a[unfolded Inl]] g' leave_entered[OF k(4)] have "g' = g" "same_ledger k k'" by simp_all
    with config_inv_same[OF assms(1)] show ?thesis by simp
  next
    case (Inr rv)
    from activate_inner_ok[OF a[unfolded Inr]] obtain i c q t k1 statuses h l where
      c: "owned ref k = Some (i, c)" "note_time now k = (Some t, k1)" "rebound c statuses = Inr (h, l)"
        "reconfigure (Some h) (Some l) CallablePermit (Some (cg_token k1)) (g\<lparr>gc_configuring := True\<rparr>) = (None, g1)"
        "k' = k1\<lparr>cg_state := Active rv i, cg_history := (rv, i) # cg_history k1,
           cg_approvals := filter (\<lambda>(q', x). q' \<noteq> q) (cg_approvals k1)\<rparr>" by blast
    note l1 = note_time_ledger[OF c(2)]
    have obj: "cg_objects k' ! i = c" using owned_object[OF c(1)] l1 c(5) by (auto simp: object_def same_ledger_def nth_append)
    have "safe g1" using reconfigured_safe[OF safe_configuring[OF k(2)], of "Some h" "Some l" CallablePermit "Some (cg_token k1)" True] c(4) by simp
    then have s: "safe g'" by (simp add: g' configured_safe)
    have "bound c g'" using reconfigured[OF c(4)] c(3) by (auto simp: bound_def g' leave_configuration_def)
    moreover have "list_all (approved_effect k') (gc_effects g')"
    proof -
      have "approved_effect k1 e \<Longrightarrow> approved_effect k' e" for e by (auto simp: approved_effect_def c(5))
      moreover have "list_all (approved_effect k1) (gc_effects g)"
        using assms(1) approved_same[OF k(1) l1] by (auto simp: config_inv_def list_all_iff)
      ultimately show ?thesis using effects_same[OF c(4)] by (simp add: g' leave_configuration_def list_all_iff)
    qed
    ultimately show ?thesis using activate_ledger[OF k(1) a[unfolded Inr]] s effects_same[OF c(4)] k(3) obj c(5)
      by (simp add: config_inv_def g' leave_configuration_def)
  qed
qed (use assms(1) in simp)

lemma aims_approved:
  assumes "config_inv k g" "aims g g'" "safe g'"
  shows "config_inv k g'"
proof -
  obtain es where es: "gc_effects g' = gc_effects g @ es" "list_all (for_host (gc_host g)) es"
      "gc_disabled g \<longrightarrow> filter begins es = []" using assms(2) by (auto simp: aims_def)
  have inv: "list_all (approved_effect k) (gc_effects g)" "ledger_ok k" using assms(1) by (simp_all add: config_inv_def)
  have "approved_effect k e" if "e \<in> set es" for e
  proof (cases "gc_disabled g")
    case True
    with es(3) that show ?thesis by (auto simp: approved_effect_def filter_empty_conv)
  next
    case False
    with assms(1) obtain r i where i: "cg_state k = Active r i" "bound (cg_objects k ! i) g"
      by (auto simp: config_inv_def split: config_state.splits)
    then have "(r, i) \<in> set (cg_history k)" using inv(2) by (simp add: ledger_ok_def)
    moreover have "for_host (cn_host (cg_objects k ! i)) e"
      using bound_for_host[OF i(2)] es(2) that by (simp add: list_all_iff)
    ultimately show ?thesis by (auto simp: approved_effect_def)
  qed
  with inv(1) es(1) have "list_all (approved_effect k) (gc_effects g')" by (auto simp: list_all_iff)
  with assms show ?thesis by (auto simp: config_inv_def aims_def bound_def split: config_state.splits)
qed

lemma config_disable_inv:
  assumes "config_inv k g" "config_disable cd E k g = (r, k', g')"
  shows "config_inv k' g'"
  using transaction_cases[OF assms(2)[unfolded config_disable_def]]
proof (elim disjE exE conjE)
  fix g1 assume a: "config_disable_inner cd E k (g\<lparr>gc_configuring := True\<rparr>) = (r, k', g1)" and g': "g' = leave_configuration g1"
  have k: "ledger_ok k" "safe g" "gc_owner g = Some 0" "list_all (approved_effect k) (gc_effects g)"
    using assms(1) by (simp_all add: config_inv_def)
  let ?g = "g\<lparr>gc_configuring := True, gc_disabled := True\<rparr>"
  obtain q where g1: "g1 = gateway_cancel cd E ?g" and k': "k' = k\<lparr>cg_state := Disabled (cs_revision (cg_state k) + 1) q\<rparr>"
    using a k(1,3) by (auto simp: config_disable_inner_def gateway_disable_def Let_def ledger_ok_def split: prod.splits if_splits)
  have s: "safe ?g" using k(2) by (rule safe_cong) simp_all
  from aims_cancel[OF s, of cd E] obtain es where es: "gc_effects g1 = gc_effects g @ es" "filter begins es = []"
      "gc_disabled g1" "gc_owner g1 = Some 0" using k(3) by (auto simp: aims_def g1)
  have "approved_effect k' e = approved_effect k e" for e by (simp add: approved_effect_def k')
  with es k(4) have "list_all (approved_effect k') (gc_effects g')"
    by (auto simp: g' leave_configuration_def list_all_iff approved_effect_def filter_empty_conv)
  moreover have "ledger_ok k'" using k(1) by (fastforce simp: ledger_ok_def k')
  moreover have "safe g'" using gateway_cancel_safe[OF s, of cd E] by (simp add: g' g1 configured_safe)
  ultimately show ?thesis using es by (simp add: config_inv_def g' leave_configuration_def)
qed (use assms(1) in simp)

lemma config_do_inv:
  assumes "config_inv k g" "allowed op" "config_do sha cd E op (k, g) = (k', g')"
  shows "config_inv k' g'"
proof (cases op)
  case (CStage m h y es lm l)
  then show ?thesis using assms(3) inside_inv[where f = "stage_inner sha m h y es lm l", OF assms(1) stage_ledger[OF surjective_pairing]] by (simp add: prod_eq_iff stage_def)
next
  case (CObserve ref p s t)
  then show ?thesis using assms(3) inside_inv[where f = "health_inner sha ref p s t", OF assms(1) observe_ledger[OF surjective_pairing]] by (simp add: prod_eq_iff provider_observe_def)
next
  case (CApprove ref b)
  then show ?thesis using assms(3) inside_inv[where f = "approve_inner ref b", OF assms(1) approve_ledger[OF surjective_pairing]] by (simp add: prod_eq_iff approve_def)
next
  case (CReject ref)
  then show ?thesis using assms(3) inside_inv[where f = "reject_inner ref", OF assms(1) reject_ledger[OF surjective_pairing]] by (simp add: prod_eq_iff reject_def)
next
  case (CActivate ref receipt now)
  then show ?thesis using assms(3) activate_inv[OF assms(1)] by (auto simp: prod_eq_iff)
next
  case (CPermit p s now)
  then show ?thesis using assms(3) config_inv_same[OF assms(1) permit_ledger] by auto
next
  case CDisable
  then show ?thesis using assms(3) config_disable_inv[OF assms(1)] by (auto simp: prod_eq_iff)
next
  case (CRestore r es)
  then show ?thesis using assms(3) inside_inv[where f = "restore_inner sha r es", OF assms(1) restore_ledger[OF surjective_pairing]] by (simp add: prod_eq_iff restore_def)
next
  case (CGateway gop)
  have "safe g" "gc_owner g = Some 0" using assms(1) by (simp_all add: config_inv_def)
  with CGateway assms aims_approved[OF assms(1) aims_foreign gateway_do_safe] show ?thesis by auto
qed

lemma config_run_inv: "config_inv (fst s) (snd s) \<Longrightarrow> list_all allowed ops \<Longrightarrow>
    config_inv (fst (config_run sha cd E ops s)) (snd (config_run sha cd E ops s))"
proof (induction ops arbitrary: s)
  case (Cons op ops)
  from config_do_inv[of "fst s" "snd s" op sha cd E] Cons.prems
  have "config_inv (fst (config_do sha cd E op s)) (snd (config_do sha cd E op s))" by simp
  from Cons.IH[OF this] Cons.prems(2) show ?case by (simp add: config_run_def)
qed (simp add: config_run_def)

lemma config_init_inv:
  assumes "client_init host v local = Inr g0" "config_init (Some g0) = Inr (k, g)"
  shows "config_inv k g"
proof -
  have "safe g0" by (rule client_init_safe[OF assms(1)])
  then have "safe (g0\<lparr>gc_owner := Some 0, gc_disabled := True\<rparr>)" by (rule safe_cong) simp_all
  moreover have "gc_effects g0 = [] \<and> \<not> gc_configuring g0"
    using assms(1) by (auto simp: client_init_def split: option.splits sum.splits)
  ultimately show ?thesis using assms(2)
    by (auto simp: config_init_def claim_configuration_def config_inv_def ledger_ok_def split: option.splits if_splits prod.splits sum.splits)
qed

lemma distinct_snd:
  "distinct (map fst hs) \<Longrightarrow> \<forall>(r, i) \<in> set hs. f i = r \<Longrightarrow> distinct (map snd hs)"
  by (induction hs) force+

section \<open>Properties\<close>

definition configured :: "config \<times> gclient \<Rightarrow> bool" where
  "configured s \<longleftrightarrow> (\<exists>host v local g0. client_init host v local = Inr g0 \<and> config_init (Some g0) = Inr s)"

lemma configured_inv: "configured s \<Longrightarrow> list_all allowed ops \<Longrightarrow>
    config_inv (fst (config_run sha cd E ops s)) (snd (config_run sha cd E ops s))"
  by (rule config_run_inv, cases s) (auto simp: configured_def dest: config_init_inv)

definition sample_run :: replay_run where
  "sample_run = \<lparr>rr_version = ''m1'', rr_source = ''live'', rr_bundle_id = ''b'', rr_pinned = True, rr_deterministic = True,
     rr_independently_evaluated = True, rr_outcomes = [(''x'', ''pass'')], rr_evaluator_consensus = True\<rparr>"

definition sample_evidence :: run_evidence where
  "sample_evidence = \<lparr>ev_manifest_digest = ''d'', ev_bundle_digest = ''e'', ev_run = sample_run, ev_evaluators = [''v'']\<rparr>"

definition sample_sha :: "pyv \<Rightarrow> string" where
  "sample_sha v = ''d''"

definition sample_configured :: "config \<times> gclient" where
  "sample_configured = (\<lparr>cg_state = Disabled 0 None, cg_objects = [], cg_staged = [], cg_approvals = [], cg_next_receipt = 0,
     cg_history = [], cg_health = [], cg_last_time = 0, cg_clock_fault = False, cg_token = 0\<rparr>,
     sample_client\<lparr>gc_owner := Some 0, gc_disabled := True\<rparr>)"

lemma sample_configured: "configured sample_configured"
  unfolding configured_def
  by (intro exI[of _ "Some sample_route"] exI[of _ "VInt 1"] exI[of _ "Some None"] exI[of _ sample_client] conjI sample_client_init)
    (simp add: config_init_def claim_configuration_def sample_configured_def sample_client_def)

definition sample_approving :: "cop list" where
  "sample_approving = [CStage (Some sample_manifest) (Some sample_route) (Some sample_policy) (Some [Some sample_evidence]) None None,
     CObserve (Some 0) (VStr ''p1'') (VStr ''healthy'') (VInt 5), CApprove (Some 0) True]"

definition sample_session :: "cop list" where
  "sample_session = sample_approving @ [CActivate (Some 0) (Some 0) (VInt 6), CGateway (OpStart (Some sample_request))]"

definition sample_final :: "config \<times> gclient" where
  "sample_final = config_run sample_sha sample_codec_pair (\<lambda>n. sample_moment) sample_session sample_configured"

lemma sample_final:
  "cg_history (fst sample_final) = [(1, 0)] \<and> cs_revision (cg_state (fst sample_final)) = 1
   \<and> gc_effects (snd sample_final) = [Attested (replicate 64 CHR ''a''), Admitted,
       BeginHost ''https://h/v1/gateway'' (replicate 64 CHR ''a'') (bearer_header sample_bearer) sample_request]"
  by code_simp

lemma sample_session_allowed: "list_all allowed sample_session"
  by (simp add: sample_session_def sample_approving_def)

text \<open>The credential of a host goes only where the configuration says: in every run of a gateway that a configuration owns,
  whatever other code starts, polls and cancels and whatever the callbacks answer, each request begun at a host goes to
  the address and the peer of a host, and with its bearer, that some candidate in the history of activations names; and
  while the configuration is disabled, so is the gateway.\<close>

theorem configured_hosts_only:
  assumes "configured s" "list_all allowed ops" "config_run sha cd E ops s = (k, g)"
  shows "(\<forall>url peer header q. BeginHost url peer header q \<in> set (gc_effects g) \<longrightarrow>
      (\<exists>(r, i) \<in> set (cg_history k). i < length (cg_objects k) \<and> (let h = cn_host (cg_objects k ! i)
         in url = ho_url h \<and> peer = ho_peer h \<and> header = bearer_header (ho_bearer h))))
    \<and> (\<not> gc_disabled g \<longrightarrow> (\<exists>r i. cg_state k = Active r i))"
proof -
  have inv: "config_inv k g" using configured_inv[OF assms(1,2), of sha cd E] assms(3) by simp
  have "\<exists>(r, i) \<in> set (cg_history k). i < length (cg_objects k) \<and> for_host (cn_host (cg_objects k ! i)) e"
    if "e \<in> set (gc_effects g)" "begins e" for e
    using inv that by (fastforce simp: config_inv_def list_all_iff approved_effect_def ledger_ok_def)
  from this[of "BeginHost _ _ _ _"] inv show ?thesis
    by (fastforce simp: config_inv_def Let_def split: config_state.splits)
qed

theorem configured_hosts_only_witness:
  "\<exists>(r, i) \<in> set (cg_history (fst sample_final)). ho_url (cn_host (cg_objects (fst sample_final) ! i)) = ''https://h/v1/gateway''"
proof -
  have run: "config_run sample_sha sample_codec_pair (\<lambda>n. sample_moment) sample_session sample_configured
      = (fst sample_final, snd sample_final)" by (simp add: sample_final_def)
  have "BeginHost ''https://h/v1/gateway'' (replicate 64 CHR ''a'') (bearer_header sample_bearer) sample_request
      \<in> set (gc_effects (snd sample_final))" using sample_final by simp
  with configured_hosts_only[OF sample_configured sample_session_allowed run] have
    "\<exists>(r, i) \<in> set (cg_history (fst sample_final)). ''https://h/v1/gateway'' = ho_url (cn_host (cg_objects (fst sample_final) ! i))"
    unfolding Let_def by blast
  then show ?thesis by (simp only: eq_commute)
qed

text \<open>Each activation is fresh: over every run the revisions in the history are distinct and none is above the current
  one, each is one above the revision its candidate was staged on, and no candidate is activated twice.\<close>

theorem candidates_activated_once:
  assumes "configured s" "list_all allowed ops" "config_run sha cd E ops s = (k, g)"
  shows "distinct (map fst (cg_history k)) \<and> distinct (map snd (cg_history k))
    \<and> (\<forall>(r, i) \<in> set (cg_history k). r \<le> cs_revision (cg_state k) \<and> cn_baseline (cg_objects k ! i) = r - 1)"
proof -
  have "ledger_ok k" using configured_inv[OF assms(1,2), of sha cd E] assms(3) by (simp add: config_inv_def)
  moreover from this have "distinct (map snd (cg_history k))"
    by (intro distinct_snd[of _ "\<lambda>i. cn_baseline (cg_objects k ! i) + 1"]) (fastforce simp: ledger_ok_def)+
  ultimately show ?thesis by (fastforce simp: ledger_ok_def)
qed

theorem candidates_activated_once_witness:
  "cg_history (fst sample_final) = [(1, 0)] \<and> cn_baseline (cg_objects (fst sample_final) ! 0) = 0"
proof -
  have run: "config_run sample_sha sample_codec_pair (\<lambda>n. sample_moment) sample_session sample_configured
      = (fst sample_final, snd sample_final)" by (simp add: sample_final_def)
  from candidates_activated_once[OF sample_configured sample_session_allowed run] sample_final show ?thesis by simp
qed

text \<open>C31: An activation is authorized: it succeeds only with a receipt for this very candidate, staged on the current
  revision; every evidence passed its comparison with the baseline; each manifest was seen healthy within the time the
  policy allows, and not degraded unless the policy allows it; the resources are within the budgets. Then the receipt is
  spent, the revision is the next one, and the gateway is bound to the candidate's host under the permit and enabled.\<close>

theorem activation_authorized:
  assumes "config_activate sha ref receipt now k g = (Inr rv, k', g')"
  shows "\<exists>i c r b t. ref = Some i \<and> i \<in> set (cg_staged k) \<and> object k i c \<and> cn_baseline c = cs_revision (cg_state k)
    \<and> receipt = Some r \<and> map_of (cg_approvals k) r = Some (i, b) \<and> evaluation b (cn_evidence c) (baseline k) = None
    \<and> now = VInt t \<and> cg_last_time k \<le> t \<and> \<not> cg_clock_fault k
    \<and> (\<forall>m \<in> set (cn_manifests c). \<exists>status seen. map_of (cg_health k) (manifest_digest sha m) = Some (status, seen)
          \<and> seen \<le> t \<and> t - seen \<le> pp_health_ttl_ms (cn_policy c) \<and> status \<noteq> ''unavailable''
          \<and> (status = ''degraded'' \<longrightarrow> pp_allow_degraded (cn_policy c)))
    \<and> check_budgets (map Some (cn_manifests c)) (Some (cn_policy c)) = None
    \<and> rv = cs_revision (cg_state k) + 1 \<and> cg_state k' = Active rv i \<and> map_of (cg_approvals k') r = None
    \<and> \<not> gc_disabled g' \<and> gc_permit g' \<and> ho_url (gc_host g') = ho_url (cn_host c) \<and> ho_peer (gc_host g') = ho_peer (cn_host c)"
proof -
  from transaction_cases[OF assms(1)[unfolded config_activate_def]] obtain g1 where
    a: "activate_inner sha ref receipt now k (g\<lparr>gc_configuring := True\<rparr>) = (Inr rv, k', g1)" and g': "g' = leave_configuration g1"
    by auto
  from activate_inner_ok[OF a] obtain i c r b t k1 statuses h l where
    o: "owned ref k = Some (i, c)" "cn_baseline c = cs_revision (cg_state k)" "receipt = Some r"
      "map_of (cg_approvals k) r = Some (i, b)" "evaluation b (cn_evidence c) (baseline k) = None" and
    t: "note_time now k = (Some t, k1)" and
    st: "those (map (\<lambda>m. healthy sha k1 m (cn_policy c) t) (cn_manifests c)) = Some statuses" and
    b: "check_budgets (map Some (cn_manifests c)) (Some (cn_policy c)) = None" and
    h: "rebound c statuses = Inr (h, l)" "reconfigure (Some h) (Some l) CallablePermit (Some (cg_token k1)) (g\<lparr>gc_configuring := True\<rparr>) = (None, g1)" and
    k': "rv = cs_revision (cg_state k1) + 1" "k' = k1\<lparr>cg_state := Active rv i, cg_history := (rv, i) # cg_history k1,
         cg_approvals := filter (\<lambda>(q, x). q \<noteq> r) (cg_approvals k1)\<rparr>" by blast
  have time: "now = VInt t \<and> cg_last_time k \<le> t \<and> \<not> cg_clock_fault k \<and> k1 = k\<lparr>cg_last_time := t\<rparr>"
    using t by (auto simp: note_time_def split: pyv.splits if_splits)
  have all: "those ys = Some zs \<Longrightarrow> \<forall>y \<in> set ys. y \<noteq> None" for ys and zs :: "string list"
    by (induction ys arbitrary: zs) (auto split: option.splits)
  have "\<exists>status seen. map_of (cg_health k) (manifest_digest sha m) = Some (status, seen) \<and> seen \<le> t
      \<and> t - seen \<le> pp_health_ttl_ms (cn_policy c) \<and> status \<noteq> ''unavailable'' \<and> (status = ''degraded'' \<longrightarrow> pp_allow_degraded (cn_policy c))"
    if "m \<in> set (cn_manifests c)" for m
  proof -
    from all[OF st] that have "healthy sha k1 m (cn_policy c) t \<noteq> None" by auto
    then show ?thesis using time by (auto simp: healthy_def split: option.splits if_splits prod.splits)
  qed
  moreover have "map_of (filter (\<lambda>(q, x). q \<noteq> r) xs) r = None" for xs :: "(nat \<times> nat \<times> bool) list"
    by (induction xs) auto
  moreover have "\<not> gc_disabled g1" using h(2) by (auto simp: reconfigure_def split: if_splits option.splits)
  ultimately show ?thesis using o owned_object[OF o(1)] b k' time reconfigured[OF h(2)] rebound_host[OF h(1)]
    by (auto simp: g' leave_configuration_def intro!: exI[of _ i] exI[of _ c] exI[of _ r] exI[of _ b] exI[of _ t])
qed

definition sample_approved :: "config \<times> gclient" where
  "sample_approved = config_run sample_sha sample_codec_pair (\<lambda>n. sample_moment) sample_approving sample_configured"

theorem activation_authorized_witness:
  "\<exists>k g. config_activate sample_sha (Some 0) (Some 0) (VInt 6) (fst sample_approved) (snd sample_approved) = (Inr 1, k, g)
    \<and> map_of (cg_approvals (fst sample_approved)) 0 = Some (0, True) \<and> gc_permit g"
proof -
  have r: "fst (config_activate sample_sha (Some 0) (Some 0) (VInt 6) (fst sample_approved) (snd sample_approved)) = Inr 1"
    and m: "map_of (cg_approvals (fst sample_approved)) 0 = Some (0, True)" by code_simp+
  from r obtain k g where a: "config_activate sample_sha (Some 0) (Some 0) (VInt 6) (fst sample_approved) (snd sample_approved) = (Inr 1, k, g)"
    by (metis prod.collapse)
  from activation_authorized[OF a] a m show ?thesis by auto
qed

end
