(* ===== verification/Conversation_Records.thy ===== *)
theory Conversation_Records
  imports Contracts Voice_Workers "HOL-Library.Monad_Syntax"
begin

text \<open>
  The closed values of a conversation, \<open>src/runtime/voice/conversation_records.py\<close>. A constructor is a function
  to an option, \<open>None\<close> when it raises \<open>conversation.invalid-record\<close>; an argument of another class is \<open>None\<close>, a
  number a \<open>pyv\<close>. Free text is a list of code points, an identifier a \<open>string\<close>; a frozen set is a list of its elements.
\<close>

section \<open>Bounded values\<close>

datatype conv_entry = EntryVoice | EntryPanel | EntryKeyboard

datatype context_state = Available | Empty | Conflicting | CtxUnavailable

datatype display = DInactive | DReady | DProcessing | DClarifying | DStopping | DFaulted

datatype ccode =
    CodeInactive | CodeReady | CodeProcessing | CodeConflict | CodeCanceled | CodeEnded | CodeHandoff | CodeStale | CodeLimit
  | CodeDenied | CodeUnavailable | CodeInvalidResult | CodeCleanup | CodeBusy

definition number_in :: "int \<Rightarrow> pyv \<Rightarrow> int option" where
  "number_in cap v = (case v of VInt i \<Rightarrow> if 0 < i \<and> i \<le> cap then Some i else None | _ \<Rightarrow> None)"

definition max63 :: int where
  "max63 = 9223372036854775807"

definition space_point :: "int \<Rightarrow> bool" where
  "space_point c \<longleftrightarrow> (9 \<le> c \<and> c \<le> 13) \<or> (28 \<le> c \<and> c \<le> 32)
     \<or> c \<in> {133, 160, 5760, 8232, 8233, 8239, 8287, 12288} \<or> (8192 \<le> c \<and> c \<le> 8202)"

definition text_ok :: "int \<Rightarrow> codepoints \<Rightarrow> bool" where
  "text_ok cap t \<longleftrightarrow> t \<noteq> [] \<and> int (length t) \<le> cap \<and> list_ex (\<lambda>c. \<not> space_point c) t
     \<and> list_all (\<lambda>c. 32 \<le> c \<or> c = 10 \<or> c = 9) t \<and> list_all (\<lambda>c. \<not> (55296 \<le> c \<and> c \<le> 57343)) t"

definition text_in :: "int \<Rightarrow> codepoints option \<Rightarrow> codepoints option" where
  "text_in cap v = Option.bind v (\<lambda>t. if text_ok cap t then Some t else None)"

definition is_id_point :: "char \<Rightarrow> bool" where
  "is_id_point c \<longleftrightarrow> is_alnum c \<or> c \<in> set ''-_.:''"

definition id_text :: "string option \<Rightarrow> string option" where
  "id_text v = Option.bind v (\<lambda>s. if s \<noteq> [] \<and> int (length s) \<le> 128 \<and> list_all is_id_point s then Some s else None)"

text \<open>An optional identifier: not given, or given and of some type.\<close>

definition optional_id :: "string option option \<Rightarrow> string option option" where
  "optional_id v = (case v of None \<Rightarrow> Some None | Some w \<Rightarrow> map_option Some (id_text w))"

definition require :: "bool \<Rightarrow> 'a option \<Rightarrow> 'a option" where
  "require b r = (if b then r else None)"

section \<open>Limits, setup and policy\<close>

record conv_limits =
  cl_turns :: int
  cl_text_chars :: int
  cl_context_chars :: int
  cl_context_items :: int
  cl_polls :: int

definition limits_init :: "pyv \<Rightarrow> pyv \<Rightarrow> pyv \<Rightarrow> pyv \<Rightarrow> pyv \<Rightarrow> conv_limits option" where
  "limits_init turns text_chars context_chars context_items polls = do {
     a \<leftarrow> number_in 64 turns; b \<leftarrow> number_in 16384 text_chars; c \<leftarrow> number_in 65536 context_chars;
     d \<leftarrow> number_in 64 context_items; e \<leftarrow> number_in 1024 polls;
     Some \<lparr>cl_turns = a, cl_text_chars = b, cl_context_chars = c, cl_context_items = d, cl_polls = e\<rparr> }"

record setup_evidence =
  su_revision :: int
  su_occupied :: "codepoints list"
  su_reserved :: "codepoints list"

definition key_set :: "codepoints option list option \<Rightarrow> codepoints list option" where
  "key_set v = do { ks \<leftarrow> v; if length ks \<le> 256 then those (map (text_in 128) ks) else None }"

definition setup_init :: "pyv \<Rightarrow> codepoints option list option \<Rightarrow> codepoints option list option \<Rightarrow> setup_evidence option" where
  "setup_init revision occupied reserved = do {
     r \<leftarrow> number_in max63 revision; xs \<leftarrow> key_set occupied; ys \<leftarrow> key_set reserved;
     Some \<lparr>su_revision = r, su_occupied = xs, su_reserved = ys\<rparr> }"

record conv_policy =
  cp_profile_id :: string
  cp_policy_id :: string
  cp_revision :: int
  cp_entries :: "conv_entry list"
  cp_exit_phrase :: codepoints
  cp_exit_key :: codepoints
  cp_limits :: conv_limits

definition conv_policy_init ::
  "string option \<Rightarrow> string option \<Rightarrow> pyv \<Rightarrow> conv_entry option list option \<Rightarrow> codepoints option \<Rightarrow> codepoints option \<Rightarrow> conv_limits option
    \<Rightarrow> conv_policy option" where
  "conv_policy_init profile_id policy_id revision entries phrase key limits = do {
     p \<leftarrow> id_text profile_id; q \<leftarrow> id_text policy_id; r \<leftarrow> number_in max63 revision;
     es \<leftarrow> Option.bind entries those; l \<leftarrow> limits; x \<leftarrow> text_in (cl_text_chars l) phrase; k \<leftarrow> text_in 128 key;
     require (es \<noteq> []) (Some \<lparr>cp_profile_id = p, cp_policy_id = q, cp_revision = r, cp_entries = es, cp_exit_phrase = x,
       cp_exit_key = k, cp_limits = l\<rparr>) }"

section \<open>Context and snapshot\<close>

record context_item =
  ci_source :: string
  ci_text :: codepoints

definition context_item_init :: "string option \<Rightarrow> codepoints option \<Rightarrow> context_item option" where
  "context_item_init source text = do {
     s \<leftarrow> id_text source; t \<leftarrow> text_in 16384 text; Some \<lparr>ci_source = s, ci_text = t\<rparr> }"

definition chars :: "codepoints list \<Rightarrow> int" where
  "chars ts = sum_list (map (\<lambda>t. int (length t)) ts)"

record conv_context =
  cx_revision :: int
  cx_state :: context_state
  cx_items :: "context_item list"
  cx_conflict_id :: "string option"

definition context_init ::
  "pyv \<Rightarrow> context_state option \<Rightarrow> context_item option list option \<Rightarrow> string option option \<Rightarrow> conv_context option" where
  "context_init revision state parts conflict = do {
     r \<leftarrow> number_in max63 revision; s \<leftarrow> state; xs \<leftarrow> Option.bind parts those; k \<leftarrow> optional_id conflict;
     require (length xs \<le> 64 \<and> chars (map ci_text xs) \<le> 65536
        \<and> (if s = Conflicting then length xs \<ge> 2 \<and> k \<noteq> None else k = None \<and> ((xs \<noteq> []) = (s = Available))))
       (Some \<lparr>cx_revision = r, cx_state = s, cx_items = xs, cx_conflict_id = k\<rparr>) }"

record conv_snapshot =
  cs_profile :: profile
  cs_snapshot_revision :: int
  cs_policy :: "conv_policy option"
  cs_setup :: setup_evidence
  cs_context :: conv_context

text \<open>A policy is not given, or given and of some class.\<close>

definition conv_snapshot_init ::
  "profile option \<Rightarrow> pyv \<Rightarrow> conv_policy option option \<Rightarrow> setup_evidence option \<Rightarrow> conv_context option \<Rightarrow> conv_snapshot option" where
  "conv_snapshot_init profile revision policy setup context = do {
     p \<leftarrow> profile;
     q \<leftarrow> (case Contracts.snapshot (RProfile p) of Inr (RProfile q) \<Rightarrow> Some q | _ \<Rightarrow> None);
     a \<leftarrow> id_text (Some (pro_profile_id q)); b \<leftarrow> id_text (Some (pro_policy_id q)); r \<leftarrow> number_in max63 revision;
     y \<leftarrow> (case policy of None \<Rightarrow> Some None | Some w \<Rightarrow> map_option Some w); u \<leftarrow> setup; x \<leftarrow> context;
     Some \<lparr>cs_profile = q, cs_snapshot_revision = r, cs_policy = y, cs_setup = u, cs_context = x\<rparr> }"

section \<open>Turns\<close>

record turn_token =
  tt_session_id :: string
  tt_turn :: int
  tt_generation :: int
  tt_profile_id :: string
  tt_profile_revision :: int
  tt_policy_revision :: int
  tt_context_revision :: int

definition token_init :: "string option \<Rightarrow> pyv \<Rightarrow> pyv \<Rightarrow> string option \<Rightarrow> pyv \<Rightarrow> pyv \<Rightarrow> pyv \<Rightarrow> turn_token option" where
  "token_init session turn generation profile profile_revision policy_revision context_revision = do {
     s \<leftarrow> id_text session; p \<leftarrow> id_text profile; a \<leftarrow> number_in max63 turn; b \<leftarrow> number_in max63 generation;
     c \<leftarrow> number_in max63 profile_revision; d \<leftarrow> number_in max63 policy_revision; e \<leftarrow> number_in max63 context_revision;
     Some \<lparr>tt_session_id = s, tt_turn = a, tt_generation = b, tt_profile_id = p, tt_profile_revision = c,
       tt_policy_revision = d, tt_context_revision = e\<rparr> }"

record conv_response =
  re_token :: turn_token
  re_text :: codepoints

definition response_init :: "turn_token option \<Rightarrow> codepoints option \<Rightarrow> conv_response option" where
  "response_init token text = do { k \<leftarrow> token; t \<leftarrow> text_in 16384 text; Some \<lparr>re_token = k, re_text = t\<rparr> }"

record exchange =
  ex_token :: turn_token
  ex_text :: codepoints
  ex_response :: codepoints
  ex_resolved :: "string option"

definition exchange_init ::
  "turn_token option \<Rightarrow> codepoints option \<Rightarrow> codepoints option \<Rightarrow> string option option \<Rightarrow> exchange option" where
  "exchange_init token text response resolved = do {
     k \<leftarrow> token; t \<leftarrow> text_in 16384 text; r \<leftarrow> text_in 16384 response; c \<leftarrow> optional_id resolved;
     Some \<lparr>ex_token = k, ex_text = t, ex_response = r, ex_resolved = c\<rparr> }"

record conv_request =
  cr_token :: turn_token
  cr_text :: codepoints
  cr_context :: conv_context
  cr_history :: "exchange list"
  cr_resolved :: "string option"

definition conv_request_init ::
  "turn_token option \<Rightarrow> codepoints option \<Rightarrow> conv_context option \<Rightarrow> exchange option list option \<Rightarrow> string option option
    \<Rightarrow> conv_request option" where
  "conv_request_init token text context history resolved = do {
     k \<leftarrow> token; x \<leftarrow> context; t \<leftarrow> text_in 16384 text; hs \<leftarrow> Option.bind history those; c \<leftarrow> optional_id resolved;
     require (length hs \<le> 64 \<and> (c = None \<or> c = cx_conflict_id x) \<and> tt_context_revision k = cx_revision x)
       (Some \<lparr>cr_token = k, cr_text = t, cr_context = x, cr_history = hs, cr_resolved = c\<rparr>) }"

record clarification =
  cq_token :: turn_token
  cq_conflict_id :: string
  cq_use_current :: bool

definition clarification_init :: "turn_token option \<Rightarrow> string option \<Rightarrow> bool option \<Rightarrow> clarification option" where
  "clarification_init token conflict use = do {
     k \<leftarrow> token; b \<leftarrow> use; c \<leftarrow> id_text conflict; Some \<lparr>cq_token = k, cq_conflict_id = c, cq_use_current = b\<rparr> }"

record conv_notice =
  no_session_id :: "string option"
  no_turn :: "turn_token option"
  no_state :: display
  no_code :: ccode

definition notice_init :: "string option option \<Rightarrow> turn_token option \<Rightarrow> display \<Rightarrow> ccode \<Rightarrow> conv_notice option" where
  "notice_init session turn state cd = do {
     s \<leftarrow> optional_id session;
     require (case turn of None \<Rightarrow> True | Some k \<Rightarrow> Some (tt_session_id k) = s)
       (Some \<lparr>no_session_id = s, no_turn = turn, no_state = state, no_code = cd\<rparr>) }"

end
