(* ===== verification/Stop_Monad.thy ===== *)
theory Stop_Monad
  imports Main
begin

text \<open>
  Operations that read and change a state and may stop with an exception, as the conversation and the speech output
  run them, and their weakest preconditions.
\<close>

type_synonym ('s, 'e, 'a) act = "'s \<Rightarrow> ('e + 'a) \<times> 's"

definition m_ret :: "'a \<Rightarrow> ('s, 'e, 'a) act" where
  "m_ret x c = (Inr x, c)"

definition m_raise :: "'e \<Rightarrow> ('s, 'e, 'a) act" where
  "m_raise e c = (Inl e, c)"

definition m_set :: "('s \<Rightarrow> 's) \<Rightarrow> ('s, 'e, unit) act" where
  "m_set f c = (Inr (), f c)"

definition m_bind :: "('s, 'e, 'a) act \<Rightarrow> ('a \<Rightarrow> ('s, 'e, 'b) act) \<Rightarrow> ('s, 'e, 'b) act" where
  "m_bind m f c = (case m c of (Inl e, d) \<Rightarrow> (Inl e, d) | (Inr x, d) \<Rightarrow> f x d)"

definition m_then :: "('s, 'e, unit) act \<Rightarrow> ('s, 'e, 'b) act \<Rightarrow> ('s, 'e, 'b) act" where
  "m_then m n = m_bind m (\<lambda>u. n)"

definition m_read :: "('s \<Rightarrow> ('s, 'e, 'a) act) \<Rightarrow> ('s, 'e, 'a) act" where
  "m_read f c = f c c"

definition m_demand :: "'e \<Rightarrow> 'a option \<Rightarrow> ('s, 'e, 'a) act" where
  "m_demand e r = (case r of None \<Rightarrow> m_raise e | Some x \<Rightarrow> m_ret x)"

definition m_unless :: "bool \<Rightarrow> 'e \<Rightarrow> ('s, 'e, unit) act" where
  "m_unless bad e = (if bad then m_raise e else m_ret ())"

text \<open>\<open>wp m Q X\<close>: whatever \<open>m\<close> returns satisfies \<open>Q\<close>, and what it raises \<open>X\<close>.\<close>

definition wp :: "('s, 'e, 'a) act \<Rightarrow> ('a \<Rightarrow> 's \<Rightarrow> bool) \<Rightarrow> ('e \<Rightarrow> 's \<Rightarrow> bool) \<Rightarrow> 's \<Rightarrow> bool" where
  "wp m Q X c = (case m c of (Inr x, d) \<Rightarrow> Q x d | (Inl e, d) \<Rightarrow> X e d)"

lemma wp_simps [simp]:
  "wp (m_ret x) Q X = Q x"
  "wp (m_raise e) R X = X e"
  "wp (m_set f) S X = (\<lambda>c. S () (f c))"
  "wp (m_read g) T X = (\<lambda>c. wp (g c) T X c)"
  "wp (m_demand e r) U X = (\<lambda>c. case r of None \<Rightarrow> X e c | Some y \<Rightarrow> U y c)"
  "wp (m_unless b e) S X = (\<lambda>c. if b then X e c else S () c)"
  by (auto simp: fun_eq_iff wp_def m_ret_def m_raise_def m_set_def m_read_def m_demand_def m_unless_def split: option.splits)

lemma wp_bind [simp]: "wp (m_bind m f) Q X = wp m (\<lambda>x. wp (f x) Q X) X"
  by (auto simp: fun_eq_iff wp_def m_bind_def split: prod.splits sum.splits)

lemma wp_then [simp]: "wp (m_then m n) Q X = wp m (\<lambda>u. wp n Q X) X"
  by (simp add: m_then_def)

lemma wp_mono: "wp m Q X c \<Longrightarrow> (\<And>x d. Q x d \<Longrightarrow> Q' x d) \<Longrightarrow> (\<And>e d. X e d \<Longrightarrow> X' e d) \<Longrightarrow> wp m Q' X' c"
  by (auto simp: wp_def split: prod.splits sum.splits)

end
