(* ===== verification/Conversation.thy ===== *)
theory Conversation
  imports Conversation_Records Voice_Coordinator Stop_Monad
begin

text \<open>
  The conversation controller, \<open>Conversation\<close> of \<open>src/runtime/voice/conversation.py\<close>, over a session owner that it
  shares with other participants. Every callback (snapshot source, job factory, job) and every gap between two
  regions under the gate is one step of an environment \<open>nat \<Rightarrow> cmoment\<close>, which also lists what came between: calls
  of \<open>cancel_turn\<close>, \<open>end\<close> and \<open>handoff\<close> by other threads or by the callback itself, which leave an intent, and calls of
  other participants to the session owner. Fields no code reads: \<open>cv_out\<close> says whether a job may be left, and
  \<open>cv_released\<close> keeps what each release claimed, with \<open>cv_out\<close> at that time.
\<close>

section \<open>State and environment\<close>

record convo =
  cv_owner :: session_owner
  cv_lease :: "int option"
  cv_intent :: "ccode option"
  cv_snapshot :: "conv_snapshot option"
  cv_session_id :: "string option"
  cv_request :: "conv_request option"
  cv_job :: bool
  cv_unknown :: bool
  cv_history :: "exchange list"
  cv_turn :: int
  cv_polls :: int
  cv_phase :: display
  cv_code :: ccode
  cv_busy :: bool
  cv_time :: nat
  cv_out :: bool
  cv_released :: "(int \<times> bool \<times> bool) list"

definition convo_init :: "session_owner option \<Rightarrow> bool \<Rightarrow> bool \<Rightarrow> string + convo" where
  "convo_init owner snapshot_callable jobs_callable =
    (case owner of
       None \<Rightarrow> Inl ''conversation.invalid-binding''
     | Some w \<Rightarrow>
         if \<not> snapshot_callable \<or> \<not> jobs_callable then Inl ''conversation.invalid-binding''
         else Inr \<lparr>cv_owner = w, cv_lease = None, cv_intent = None, cv_snapshot = None, cv_session_id = None, cv_request = None,
           cv_job = False, cv_unknown = False, cv_history = [], cv_turn = 0, cv_polls = 0, cv_phase = DInactive,
           cv_code = CodeInactive, cv_busy = False, cv_time = 0, cv_out = False, cv_released = []\<rparr>)"

definition cv_pending :: "convo \<Rightarrow> turn_token option" where
  "cv_pending c = map_option cr_token (cv_request c)"

definition cv_notice :: "convo \<Rightarrow> conv_notice option" where
  "cv_notice c = notice_init (map_option Some (cv_session_id c)) (cv_pending c)
     (if cv_intent c \<noteq> None then DStopping else cv_phase c) (cv_code c)"

datatype intent_call = CancelTurn | EndAll | Handoff

fun intent_code :: "intent_call \<Rightarrow> ccode" where
  "intent_code CancelTurn = CodeCanceled"
| "intent_code EndAll = CodeEnded"
| "intent_code Handoff = CodeHandoff"

datatype interference = Intend intent_call | Participant session_call

datatype factory_reply = FactoryRaises | FactoryNone | FactoryJob

datatype job_reply = JobRaises | JobPending | JobOther | JobResponse conv_response

record cmoment =
  cm_snapshot :: "conv_snapshot reply"
  cm_factory :: factory_reply
  cm_ok :: bool
  cm_poll :: job_reply
  cm_proven :: "bool reply"
  cm_between :: "interference list"

type_synonym cenvironment = "nat \<Rightarrow> cmoment"

text \<open>\<open>_invalidate\<close>.\<close>

definition owner_cancel :: "convo \<Rightarrow> convo" where
  "owner_cancel c = (case cv_lease c of None \<Rightarrow> c | Some g \<Rightarrow> c\<lparr>cv_owner := snd (session_cancel (VInt g) (cv_owner c))\<rparr>)"

definition cv_invalidate :: "ccode \<Rightarrow> convo \<Rightarrow> convo" where
  "cv_invalidate k c = owner_cancel
    (if cv_intent c = None \<or> cv_intent c = Some CodeCanceled \<or> k \<in> {CodeEnded, CodeHandoff}
     then c\<lparr>cv_intent := Some k\<rparr> else c)"

text \<open>A participant releases only what it owns.\<close>

definition participate :: "session_call \<Rightarrow> convo \<Rightarrow> convo" where
  "participate call c =
    (case call of
       Release g cleaned \<Rightarrow> if map_option VInt (cv_lease c) = Some g then c else c\<lparr>cv_owner := session_step call (cv_owner c)\<rparr>
     | _ \<Rightarrow> c\<lparr>cv_owner := session_step call (cv_owner c)\<rparr>)"

fun interfere :: "interference \<Rightarrow> convo \<Rightarrow> convo" where
  "interfere (Intend i) c = cv_invalidate (intent_code i) c"
| "interfere (Participant call) c = participate call c"

definition cv_tick :: "cenvironment \<Rightarrow> convo \<Rightarrow> cmoment \<times> convo" where
  "cv_tick E c = (let m = E (cv_time c) in (m, fold interfere (cm_between m) (c\<lparr>cv_time := Suc (cv_time c)\<rparr>)))"

text \<open>A gap while the gate is held: only the session owner, which has a lock of its own, can change.\<close>

definition participants :: "interference list \<Rightarrow> interference list" where
  "participants = filter (\<lambda>i. case i of Participant call \<Rightarrow> True | Intend k \<Rightarrow> False)"

definition cv_gated_tick :: "cenvironment \<Rightarrow> convo \<Rightarrow> convo" where
  "cv_gated_tick E c = fold interfere (participants (cm_between (E (cv_time c)))) (c\<lparr>cv_time := Suc (cv_time c)\<rparr>)"

definition cv_gap :: "cenvironment \<Rightarrow> convo \<Rightarrow> convo" where
  "cv_gap E c = snd (cv_tick E c)"

section \<open>Exceptions\<close>

datatype cv_exc = ConvBusy string | ConvValue string | ConvOwner session_error

datatype cstop = Halt ccode | Throw cv_exc

type_synonym 'a cact = "(convo, cstop, 'a) act"

section \<open>Samples and checks\<close>

definition cv_sample :: "cenvironment \<Rightarrow> conv_snapshot cact" where
  "cv_sample E c =
    (case cv_tick E c of (m, c) \<Rightarrow>
       (case cm_snapshot m of Gives s \<Rightarrow> (Inr s, c) | _ \<Rightarrow> (Inl (Halt CodeUnavailable), c)))"

definition eligible :: "conv_snapshot \<Rightarrow> ccode option" where
  "eligible s =
    (case cs_policy s of
       None \<Rightarrow> Some CodeDenied
     | Some y \<Rightarrow>
         let p = cs_profile s; x = cs_context s
         in if \<not> pro_enabled p \<or> \<not> pro_voice_enabled p \<or> cp_profile_id y \<noteq> pro_profile_id p
               \<or> cp_policy_id y \<noteq> pro_policy_id p
               \<or> cp_exit_key y \<in> set (su_occupied (cs_setup s)) \<union> set (su_reserved (cs_setup s)) then Some CodeDenied
            else if cx_state x = CtxUnavailable then Some CodeUnavailable
            else if int (length (cx_items x)) > cl_context_items (cp_limits y)
               \<or> chars (map ci_text (cx_items x)) > cl_context_chars (cp_limits y) then Some CodeLimit
            else None)"

definition lease_accepted :: "convo \<Rightarrow> bool" where
  "lease_accepted c = (case cv_lease c of None \<Rightarrow> False | Some g \<Rightarrow> session_accepts (VInt g) (cv_owner c))"

definition cv_check :: "cenvironment \<Rightarrow> unit cact" where
  "cv_check E = m_bind (cv_sample E) (\<lambda>current c.
    (case cv_intent c of
       Some k \<Rightarrow> (Inl (Halt k), c)
     | None \<Rightarrow> if Some current \<noteq> cv_snapshot c \<or> \<not> lease_accepted c then (Inl (Halt CodeStale), c) else (Inr (), c)))"

section \<open>Stopping\<close>

definition cv_cleanup :: "cenvironment \<Rightarrow> convo \<Rightarrow> bool \<times> convo" where
  "cv_cleanup E c =
    (case (if \<not> cv_job c then (\<not> cv_unknown c, c)
           else case cv_tick E c of (m, c) \<Rightarrow>
             if \<not> cm_ok m then (False, c)
             else (case cv_tick E c of (m, c) \<Rightarrow> (cm_proven m = Gives True \<and> \<not> cv_unknown c, c))) of
       (clean, c) \<Rightarrow> (clean, c\<lparr>cv_job := False, cv_unknown := \<not> clean, cv_out := cv_out c \<and> \<not> clean\<rparr>))"

text \<open>The region of \<open>_stop\<close> under the gate.\<close>

definition cv_retire :: "cenvironment \<Rightarrow> bool \<Rightarrow> convo \<Rightarrow> cv_exc option \<times> convo" where
  "cv_retire E clean c =
    (let code' = (case cv_intent c of None \<Rightarrow> CodeInactive | Some k \<Rightarrow> k); lease = cv_lease c; c = c\<lparr>cv_lease := None\<rparr>
     in (case (case lease of
                 None \<Rightarrow> (None, c)
               | Some g \<Rightarrow> (case session_release (VInt g) (VBool clean) (cv_owner c) of
                   (e, w) \<Rightarrow> (e, c\<lparr>cv_owner := w, cv_released := (g, clean, cv_out c) # cv_released c\<rparr>))) of
           (Some e, c) \<Rightarrow> (Some (ConvOwner e), c)
         | (None, c) \<Rightarrow>
             let c = c\<lparr>cv_phase := DInactive, cv_code := code'\<rparr>;
                 c = (if \<not> clean then c\<lparr>cv_phase := DFaulted, cv_code := CodeCleanup\<rparr>
                      else if code' = CodeCanceled \<and> lease \<noteq> None
                      then (let c = cv_gated_tick E c
                            in case session_begin (VStr ''conversation'') (cv_owner c) of
                                 (Inr g, w) \<Rightarrow> c\<lparr>cv_owner := w, cv_lease := Some g, cv_phase := DReady\<rparr>
                               | (Inl e, w) \<Rightarrow> c\<lparr>cv_owner := w, cv_code := CodeBusy\<rparr>)
                      else c)
             in (None, c\<lparr>cv_intent := None\<rparr>)))"

definition cv_stop :: "cenvironment \<Rightarrow> convo \<Rightarrow> cv_exc option \<times> convo" where
  "cv_stop E c =
    (case cv_cleanup E (c\<lparr>cv_phase := DStopping\<rparr>) of (clean, c) \<Rightarrow>
     let c = (if clean \<and> cv_intent c = Some CodeCanceled \<and> cv_snapshot c \<noteq> None
              then (case cv_sample E c of
                      (Inr s, c) \<Rightarrow> if Some s \<noteq> cv_snapshot c then cv_invalidate CodeStale c else c
                    | (Inl (Halt k), c) \<Rightarrow> cv_invalidate k c
                    | (Inl (Throw e), c) \<Rightarrow> c)
              else c);
         c = cv_gap E (c\<lparr>cv_request := None\<rparr>)
     in (case cv_retire E clean c of
           (Some e, c) \<Rightarrow> (Some e, c)
         | (None, c) \<Rightarrow> (None, if cv_phase c \<noteq> DReady then c\<lparr>cv_history := [], cv_snapshot := None, cv_session_id := None\<rparr> else c)))"

text \<open>\<open>_run\<close>: the value of the operation, if it returned one, and whether the conversation was stopped after it.\<close>

definition cv_run :: "cenvironment \<Rightarrow> 'a cact \<Rightarrow> convo \<Rightarrow> (cv_exc + 'a option \<times> bool) \<times> convo" where
  "cv_run E operation c =
    (if cv_busy c then (Inl (ConvBusy ''conversation.transition-active''), c)
     else case operation (c\<lparr>cv_busy := True\<rparr>) of (r, c) \<Rightarrow>
       let c = (case r of Inl (Halt k) \<Rightarrow> cv_invalidate k c | _ \<Rightarrow> c);
           thrown = (case r of Inl (Throw e) \<Rightarrow> Some e | _ \<Rightarrow> None);
           value = (case r of Inr x \<Rightarrow> Some x | Inl e \<Rightarrow> None);
           c = cv_gap E c
       in if cv_intent c = None
          then ((case thrown of Some e \<Rightarrow> Inl e | None \<Rightarrow> Inr (value, False)), c\<lparr>cv_busy := False\<rparr>)
          else (case cv_stop E c of
            (Some e, c) \<Rightarrow> (Inl e, c\<lparr>cv_busy := False\<rparr>)
          | (None, c) \<Rightarrow> ((case thrown of Some e \<Rightarrow> Inl e | None \<Rightarrow> Inr (value, True)), c\<lparr>cv_busy := False\<rparr>)))"

definition cv_result :: "(cv_exc + 'a option \<times> bool) \<times> convo \<Rightarrow> (cv_exc + 'a option) \<times> convo" where
  "cv_result r = (case r of (Inl e, c) \<Rightarrow> (Inl e, c) | (Inr (v, stopped), c) \<Rightarrow> (Inr (if stopped then None else v), c))"

section \<open>Entering\<close>

definition live_phases :: "display list" where
  "live_phases = [DReady, DProcessing, DClarifying]"

definition cv_begin :: "unit cact" where
  "cv_begin c =
    (case cv_intent c of
       Some k \<Rightarrow> (Inl (Halt k), c)
     | None \<Rightarrow>
         (case session_begin (VStr ''conversation'') (cv_owner c) of
            (Inl e, w) \<Rightarrow> (Inl (Throw (ConvOwner e)), c\<lparr>cv_owner := w\<rparr>)
          | (Inr g, w) \<Rightarrow> (Inr (), c\<lparr>cv_owner := w, cv_lease := Some g,
              cv_session_id := Some (so_session_id w @ '':'' @ digits (nat g))\<rparr>)))"

definition enter_body :: "cenvironment \<Rightarrow> conv_entry \<Rightarrow> bool cact" where
  "enter_body E channel =
     m_then (m_read (\<lambda>c. m_unless (cv_phase c \<noteq> DInactive) (Throw (ConvBusy ''conversation.not-inactive''))))
     (m_bind (cv_sample E) (\<lambda>snapshot.
      case (eligible snapshot, cs_policy snapshot) of
        (Some k, y) \<Rightarrow> m_raise (Halt k)
      | (None, None) \<Rightarrow> m_raise (Halt CodeDenied)
      | (None, Some y) \<Rightarrow>
          m_then (m_unless (channel \<notin> set (cp_entries y)) (Halt CodeDenied))
          (m_then cv_begin
          (m_then (m_set (\<lambda>c. c\<lparr>cv_snapshot := Some snapshot, cv_history := [], cv_turn := 0, cv_phase := DReady, cv_code := CodeReady\<rparr>))
          (m_then (cv_check E) (m_ret True))))))"

text \<open>\<open>channel\<close> is \<open>None\<close> when it is no \<open>Entry\<close>.\<close>

definition conversation_enter :: "cenvironment \<Rightarrow> conv_entry option \<Rightarrow> convo \<Rightarrow> (cv_exc + bool option) \<times> convo" where
  "conversation_enter E channel c =
    (case channel of
       None \<Rightarrow> (Inl (ConvValue ''conversation.invalid-conv_entry''), c)
     | Some e \<Rightarrow> cv_result (cv_run E (enter_body E e) c))"

section \<open>Turns\<close>

definition context_size :: "convo \<Rightarrow> int" where
  "context_size c =
     (case cv_snapshot c of None \<Rightarrow> 0 | Some s \<Rightarrow> chars (map ci_text (cx_items (cs_context s))))
     + sum_list (map (\<lambda>x. int (length (ex_text x)) + int (length (ex_response x))) (cv_history c))"

text \<open>\<open>_start\<close>: an exception that is no stop becomes one.\<close>

definition cv_allocate :: "cenvironment \<Rightarrow> unit cact" where
  "cv_allocate E c =
    (case cv_tick E (c\<lparr>cv_unknown := True, cv_out := True\<rparr>) of (m, c) \<Rightarrow>
       (case cm_factory m of
          FactoryJob \<Rightarrow> (Inr (), c\<lparr>cv_job := True, cv_unknown := False\<rparr>)
        | _ \<Rightarrow> (Inl (Halt CodeUnavailable), c)))"

definition cv_launch :: "cenvironment \<Rightarrow> unit cact" where
  "cv_launch E c = (case cv_tick E c of (m, c) \<Rightarrow> (if cm_ok m then Inr () else Inl (Halt CodeUnavailable), c))"

definition cv_start :: "cenvironment \<Rightarrow> unit cact" where
  "cv_start E =
     m_then (m_set (\<lambda>c. c\<lparr>cv_phase := DProcessing, cv_code := CodeProcessing, cv_polls := 0\<rparr>))
     (m_then (cv_allocate E) (m_then (cv_check E) (m_then (cv_launch E) (cv_check E))))"

definition next_token :: "convo \<Rightarrow> conv_snapshot \<Rightarrow> conv_policy \<Rightarrow> turn_token option" where
  "next_token c s y = token_init (cv_session_id c) (VInt (cv_turn c)) (case cv_lease c of None \<Rightarrow> VNone | Some g \<Rightarrow> VInt g)
     (Some (cp_profile_id y)) (VInt (cs_snapshot_revision s)) (VInt (cp_revision y)) (VInt (cx_revision (cs_context s)))"

definition invalid :: cstop where
  "invalid = Throw (ConvValue ''conversation.invalid-record'')"

text \<open>The policy of the snapshot a live conversation keeps; without one, Python raises \<open>AttributeError\<close>.\<close>

definition cv_policy :: "convo \<Rightarrow> (conv_snapshot \<times> conv_policy) option" where
  "cv_policy c = do { s \<leftarrow> cv_snapshot c; y \<leftarrow> cs_policy s; Some (s, y) }"

definition no_policy :: cstop where
  "no_policy = Throw (ConvValue ''attribute'')"

definition new_turn :: "cenvironment \<Rightarrow> conv_snapshot \<Rightarrow> codepoints \<Rightarrow> turn_token \<Rightarrow> turn_token cact" where
  "new_turn E s value token =
     m_bind (m_read (\<lambda>c. m_demand invalid (conv_request_init (Some token) (Some value) (Some (cs_context s))
       (Some (map Some (cv_history c))) None)))
     (\<lambda>request. m_then (m_set (\<lambda>c. c\<lparr>cv_request := Some request\<rparr>))
       (m_then (if cx_state (cs_context s) = Conflicting
                 then m_set (\<lambda>c. c\<lparr>cv_phase := DClarifying, cv_code := CodeConflict\<rparr>)
                 else cv_start E)
       (m_ret token)))"

definition submit_body :: "cenvironment \<Rightarrow> codepoints \<Rightarrow> turn_token cact" where
  "submit_body E value =
     m_then (m_read (\<lambda>c. m_unless (cv_phase c \<notin> set live_phases) (Throw (ConvBusy ''conversation.not-active''))))
     (m_then (cv_check E)
     (m_bind (m_read (\<lambda>c. m_demand no_policy (cv_policy c))) (\<lambda>(s, y).
        m_then (m_unless (\<not> text_ok (cl_text_chars (cp_limits y)) value) invalid)
        (m_then (m_unless (value = cp_exit_phrase y) (Halt CodeEnded))
        (m_then (m_read (\<lambda>c. m_unless (cv_phase c \<noteq> DReady) (Throw (ConvBusy ''conversation.turn-active''))))
        (m_then (m_read (\<lambda>c. m_unless (cv_turn c \<ge> cl_turns (cp_limits y)
              \<or> context_size c + int (length value) > cl_context_chars (cp_limits y)) (Halt CodeLimit)))
        (m_then (m_set (\<lambda>c. c\<lparr>cv_turn := cv_turn c + 1\<rparr>))
        (m_bind (m_read (\<lambda>c. m_demand invalid (next_token c s y))) (new_turn E s value)))))))))"

definition conversation_submit :: "cenvironment \<Rightarrow> codepoints option \<Rightarrow> convo \<Rightarrow> (cv_exc + turn_token option) \<times> convo" where
  "conversation_submit E value c =
    (case text_in 16384 value of
       None \<Rightarrow> (Inl (ConvValue ''conversation.invalid-record''), c)
     | Some t \<Rightarrow> cv_result (cv_run E (submit_body E t) c))"

definition clarify_body :: "cenvironment \<Rightarrow> clarification \<Rightarrow> bool cact" where
  "clarify_body E q = m_read (\<lambda>c.
     if cv_phase c \<noteq> DClarifying then m_ret False
     else m_then (cv_check E) (m_read (\<lambda>c.
       case cv_request c of
         None \<Rightarrow> m_ret False
       | Some r \<Rightarrow>
           if cq_token q \<noteq> cr_token r \<or> Some (cq_conflict_id q) \<noteq> cx_conflict_id (cr_context r) then m_ret False
           else if cq_use_current q then
             m_then (m_set (\<lambda>c. c\<lparr>cv_request := Some (r\<lparr>cr_resolved := Some (cq_conflict_id q)\<rparr>)\<rparr>))
               (m_then (cv_start E) (m_ret True))
           else m_then (m_set (\<lambda>c. c\<lparr>cv_request := None, cv_phase := DReady, cv_code := CodeCanceled\<rparr>)) (m_ret True))))"

definition conversation_clarify :: "cenvironment \<Rightarrow> clarification option \<Rightarrow> convo \<Rightarrow> (cv_exc + bool option) \<times> convo" where
  "conversation_clarify E q c =
    (case q of
       None \<Rightarrow> (Inl (ConvValue ''conversation.invalid-clarification''), c)
     | Some q \<Rightarrow> cv_result (cv_run E (clarify_body E q) c))"

section \<open>Polling\<close>

definition poll_job_reply :: "cenvironment \<Rightarrow> job_reply cact" where
  "poll_job_reply E c =
    (case cv_tick E c of (m, c) \<Rightarrow>
       (case (cv_job c, cm_poll m) of
          (True, JobPending) \<Rightarrow> (Inr JobPending, c)
        | (True, JobOther) \<Rightarrow> (Inr JobOther, c)
        | (True, JobResponse r) \<Rightarrow> (Inr (JobResponse r), c)
        | _ \<Rightarrow> (Inl (Halt CodeUnavailable), c)))"

definition cv_clean_job :: "cenvironment \<Rightarrow> unit cact" where
  "cv_clean_job E c = (case cv_cleanup E c of (clean, c) \<Rightarrow> (if clean then Inr () else Inl (Halt CodeCleanup), c))"

text \<open>The region under the gate where a response is published.\<close>

definition cv_publish :: "exchange \<Rightarrow> unit cact" where
  "cv_publish x c =
    (case cv_intent c of
       Some k \<Rightarrow> (Inl (Halt k), c)
     | None \<Rightarrow>
         if \<not> lease_accepted c then (Inl (Halt CodeStale), c)
         else (Inr (), c\<lparr>cv_history := cv_history c @ [x], cv_request := None, cv_phase := DReady, cv_code := CodeReady\<rparr>))"

definition receive_response :: "cenvironment \<Rightarrow> conv_limits \<Rightarrow> conv_request \<Rightarrow> conv_response \<Rightarrow> conv_response option cact" where
  "receive_response E l q r =
     m_then (m_unless (re_token r \<noteq> cr_token q) (Halt CodeInvalidResult))
     (m_then (m_read (\<lambda>c. m_unless (int (length (re_text r)) > cl_text_chars l
          \<or> context_size c + int (length (cr_text q)) + int (length (re_text r)) > cl_context_chars l) (Halt CodeLimit)))
     (m_then (cv_clean_job E)
     (m_then (cv_check E)
     (m_bind (m_demand invalid (exchange_init (Some (re_token r)) (Some (cr_text q)) (Some (re_text r)) (map_option Some (cr_resolved q))))
       (\<lambda>x. m_then (m_set (cv_gap E)) (m_then (cv_publish x) (m_ret (Some r))))))))"

text \<open>\<open>_poll\<close> after the job has answered.\<close>

definition reply_body :: "cenvironment \<Rightarrow> job_reply \<Rightarrow> conv_response option cact" where
  "reply_body E reply = m_read (\<lambda>c.
     case (cv_policy c, cv_request c) of
       (Some (s, y), Some q) \<Rightarrow>
         (case reply of
            JobPending \<Rightarrow> m_then (m_unless (cv_polls c \<ge> cl_polls (cp_limits y)) (Halt CodeLimit)) (m_ret None)
          | JobResponse r \<Rightarrow> receive_response E (cp_limits y) q r
          | _ \<Rightarrow> m_raise (Halt CodeInvalidResult))
     | _ \<Rightarrow> m_raise no_policy)"

definition poll_body :: "cenvironment \<Rightarrow> conv_response option cact" where
  "poll_body E = m_read (\<lambda>c.
     if cv_phase c \<notin> set live_phases then m_ret None
     else m_then (cv_check E) (m_read (\<lambda>c.
       if cv_phase c \<noteq> DProcessing then m_ret None
       else m_then (m_set (\<lambda>c. c\<lparr>cv_polls := cv_polls c + 1\<rparr>))
         (m_bind (poll_job_reply E) (\<lambda>reply. m_then (cv_check E) (reply_body E reply))))))"

definition conversation_poll :: "cenvironment \<Rightarrow> convo \<Rightarrow> (cv_exc + conv_response option) \<times> convo" where
  "conversation_poll E c =
    (case cv_result (cv_run E (poll_body E) c) of
       (Inl e, c) \<Rightarrow> (Inl e, c)
     | (Inr r, c) \<Rightarrow> (Inr (Option.bind r (\<lambda>x. x)), c))"

section \<open>Leaving\<close>

definition exit_body :: "cenvironment \<Rightarrow> codepoints \<Rightarrow> bool cact" where
  "exit_body E key = m_read (\<lambda>c.
     if cv_phase c \<notin> set live_phases then m_ret False
     else m_then (cv_check E) (m_bind (m_read (\<lambda>c. m_demand no_policy (cv_policy c))) (\<lambda>(s, y).
       if key \<noteq> cp_exit_key y then m_ret False
       else m_then (m_set (cv_invalidate CodeEnded)) (m_ret True))))"

text \<open>A match is reported though the conversation stops.\<close>

definition conversation_exit_key :: "cenvironment \<Rightarrow> codepoints option \<Rightarrow> convo \<Rightarrow> (cv_exc + bool) \<times> convo" where
  "conversation_exit_key E key c =
    (case text_in 128 key of
       None \<Rightarrow> (Inl (ConvValue ''conversation.invalid-record''), c)
     | Some k \<Rightarrow> (case cv_run E (exit_body E k) c of
         (Inl e, c) \<Rightarrow> (Inl e, c)
       | (Inr (v, stopped), c) \<Rightarrow> (Inr (v = Some True), c)))"

text \<open>\<open>cancel_turn\<close>, \<open>end\<close> and \<open>handoff\<close>; the tail is what waits for the lock.\<close>

definition cv_settle :: "cenvironment \<Rightarrow> convo \<Rightarrow> (cv_exc + unit option) \<times> convo" where
  "cv_settle E c = cv_result (cv_run E (m_ret ()) c)"

definition conversation_cancel :: "cenvironment \<Rightarrow> intent_call \<Rightarrow> convo \<Rightarrow> (cv_exc + unit option) \<times> convo" where
  "conversation_cancel E i c =
    (if cv_lease c = None \<and> \<not> cv_busy c then (Inr None, c)
     else let c = cv_gap E (cv_invalidate (intent_code i) (cv_gap E c))
          in if cv_busy c then (Inr None, c) else cv_settle E c)"

section \<open>Runs\<close>

text \<open>Between the calls another thread may leave an intent and settle it later, and participants use the owner.\<close>

datatype cv_op =
    CvEnter "conv_entry option"
  | CvSubmit "codepoints option"
  | CvClarify "clarification option"
  | CvPoll
  | CvExit "codepoints option"
  | CvCancel intent_call
  | CvSettle
  | CvBetween interference

fun conversation_do :: "cenvironment \<Rightarrow> cv_op \<Rightarrow> convo \<Rightarrow> convo" where
  "conversation_do E (CvEnter e) c = snd (conversation_enter E e c)"
| "conversation_do E (CvSubmit v) c = snd (conversation_submit E v c)"
| "conversation_do E (CvClarify q) c = snd (conversation_clarify E q c)"
| "conversation_do E CvPoll c = snd (conversation_poll E c)"
| "conversation_do E (CvExit k) c = snd (conversation_exit_key E k c)"
| "conversation_do E (CvCancel i) c = snd (conversation_cancel E i c)"
| "conversation_do E CvSettle c = snd (cv_settle E c)"
| "conversation_do E (CvBetween i) c = interfere i c"

definition conversation_run :: "cenvironment \<Rightarrow> cv_op list \<Rightarrow> convo \<Rightarrow> convo" where
  "conversation_run E ops c = fold (conversation_do E) ops c"

end
