(* ===== verification/Conversation_Safety.thy ===== *)
theory Conversation_Safety
  imports Conversation
begin

text \<open>
  What a conversation keeps over every run: its hold on the session owner, its claims of cleanup, its bounds, and
  what it publishes. The proofs use weakest preconditions of the actions.
\<close>

section \<open>Interference\<close>

definition leased :: "convo \<Rightarrow> bool" where
  "leased c \<longleftrightarrow> session_inv (cv_owner c)
     \<and> (\<forall>g. cv_lease c = Some g \<longrightarrow> so_owner (cv_owner c) = Some g \<and> so_state (cv_owner c) \<noteq> Faulted)"

definition final_intent :: "ccode option \<Rightarrow> bool" where
  "final_intent i \<longleftrightarrow> i \<in> {Some CodeEnded, Some CodeHandoff}"

text \<open>\<open>drift c d\<close>: only the intent, the owner and the time may differ, and what the conversation relies on stands.\<close>

definition drift :: "convo \<Rightarrow> convo \<Rightarrow> bool" where
  "drift c d \<longleftrightarrow> (\<exists>i w t. d = c\<lparr>cv_intent := i, cv_owner := w, cv_time := t\<rparr>) \<and> (leased c \<longrightarrow> leased d)
     \<and> (cv_intent c \<noteq> None \<longrightarrow> cv_intent d \<noteq> None) \<and> (final_intent (cv_intent c) \<longrightarrow> final_intent (cv_intent d))
     \<and> (so_state (cv_owner c) = Faulted \<longrightarrow> so_state (cv_owner d) = Faulted)"

lemma drift_refl [simp, intro]: "drift c c"
  unfolding drift_def by (auto intro!: exI[of _ "cv_intent c"] exI[of _ "cv_owner c"] exI[of _ "cv_time c"])

lemma drift_trans: "drift c d \<Longrightarrow> drift d e \<Longrightarrow> drift c e"
  unfolding drift_def by (elim conjE exE) (intro conjI, auto)

lemma drift_fields:
  assumes "drift c d"
  shows "cv_lease d = cv_lease c" "cv_snapshot d = cv_snapshot c" "cv_session_id d = cv_session_id c"
    "cv_request d = cv_request c" "cv_job d = cv_job c" "cv_unknown d = cv_unknown c" "cv_history d = cv_history c"
    "cv_turn d = cv_turn c" "cv_polls d = cv_polls c" "cv_phase d = cv_phase c" "cv_code d = cv_code c"
    "cv_busy d = cv_busy c" "cv_out d = cv_out c" "cv_released d = cv_released c"
  using assms unfolding drift_def by (elim conjE exE; simp)+

lemma drift_more:
  assumes "drift c d"
  shows "leased c \<Longrightarrow> leased d" "cv_intent c \<noteq> None \<Longrightarrow> cv_intent d \<noteq> None" "final_intent (cv_intent c) \<Longrightarrow> final_intent (cv_intent d)"
    "so_state (cv_owner c) = Faulted \<Longrightarrow> so_state (cv_owner d) = Faulted"
  using assms unfolding drift_def by blast+

lemma leased_step:
  assumes "leased c" "\<And>b. cv_lease c \<noteq> None \<Longrightarrow> call \<noteq> Release (VInt (the (cv_lease c))) b"
  shows "leased (c\<lparr>cv_owner := session_step call (cv_owner c)\<rparr>)"
proof -
  have inv: "session_inv (session_step call (cv_owner c))" using session_step_inv assms(1) by (auto simp: leased_def)
  have "so_owner (session_step call (cv_owner c)) = Some g \<and> so_state (session_step call (cv_owner c)) \<noteq> Faulted"
    if "cv_lease c = Some g" for g
  proof -
    from assms(1) that have o: "so_owner (cv_owner c) = Some g" "so_state (cv_owner c) \<noteq> Faulted" "so_state (cv_owner c) \<noteq> Idle"
      by (auto simp: leased_def session_inv_def)
    show ?thesis
    proof (cases call)
      case (Release h b)
      with assms(2)[of b] that have "h \<noteq> VInt g" by auto
      with Release o show ?thesis by (auto simp: session_release_def split: option.splits pyv.splits)
    qed (use o in \<open>auto simp: session_begin_def session_cancel_def Let_def\<close>)
  qed
  with inv show ?thesis by (simp add: leased_def)
qed

lemma drift_step:
  assumes "\<And>b. cv_lease c \<noteq> None \<Longrightarrow> call \<noteq> Release (VInt (the (cv_lease c))) b"
  shows "drift c (c\<lparr>cv_owner := session_step call (cv_owner c)\<rparr>)"
  unfolding drift_def
  using leased_step[OF _ assms] session_step_faulted[of "cv_owner c" call]
  by (auto intro!: exI[of _ "cv_intent c"] exI[of _ "session_step call (cv_owner c)"] exI[of _ "cv_time c"])

lemma drift_owner_cancel: "drift c (owner_cancel c)"
  using drift_step[of c "Cancel (VInt _)"] by (auto simp: owner_cancel_def split: option.splits)

lemma drift_intent: "(cv_intent c \<noteq> None \<longrightarrow> i \<noteq> None) \<Longrightarrow> (final_intent (cv_intent c) \<longrightarrow> final_intent i) \<Longrightarrow> drift c (c\<lparr>cv_intent := i\<rparr>)"
  unfolding drift_def by (auto simp: leased_def intro!: exI[of _ i] exI[of _ "cv_owner c"] exI[of _ "cv_time c"])

lemma drift_invalidate: "drift c (cv_invalidate k c)"
proof -
  let ?d = "if cv_intent c = None \<or> cv_intent c = Some CodeCanceled \<or> k \<in> {CodeEnded, CodeHandoff} then c\<lparr>cv_intent := Some k\<rparr> else c"
  have "drift c ?d" by (auto intro!: drift_intent simp: final_intent_def)
  from drift_trans[OF this drift_owner_cancel] show ?thesis by (simp add: cv_invalidate_def)
qed

lemma invalidate_intent: "cv_intent (cv_invalidate k c) \<noteq> None"
  "k \<in> {CodeEnded, CodeHandoff} \<Longrightarrow> final_intent (cv_intent (cv_invalidate k c))"
  by (auto simp: cv_invalidate_def owner_cancel_def final_intent_def split: option.splits)

lemma invalidated: "(cv_intent (cv_invalidate k c) = None) = False" "\<exists>y. cv_intent (cv_invalidate k c) = Some y"
  using invalidate_intent(1)[of k c] by auto

lemma drift_participate: "drift c (participate call c)"
proof (cases call)
  case (Release g b)
  then show ?thesis using drift_step[of c call] by (cases "cv_lease c") (auto simp: participate_def)
qed (use drift_step[of c call] in \<open>auto simp: participate_def\<close>)

lemma drift_interfere: "drift c (interfere i c)"
  by (cases i) (simp_all add: drift_invalidate drift_participate)

lemma drift_fold: "drift c (fold interfere is c)"
  by (induction "is" arbitrary: c) (auto intro: drift_trans drift_interfere)

lemma drift_time: "drift c (c\<lparr>cv_time := t\<rparr>)"
  unfolding drift_def by (auto simp: leased_def intro!: exI[of _ "cv_intent c"] exI[of _ "cv_owner c"] exI[of _ t])

lemma drift_tick: "cv_tick E c = (m, d) \<Longrightarrow> drift c d"
  using drift_trans[OF drift_time drift_fold] by (auto simp: cv_tick_def Let_def)

lemma drift_gap: "drift c (cv_gap E c)"
  using drift_tick[of E c "fst (cv_tick E c)"] by (simp add: cv_gap_def)

lemma drift_gated: "drift c (cv_gated_tick E c)"
  using drift_trans[OF drift_time drift_fold] by (auto simp: cv_gated_tick_def)

lemma drift_sample: "cv_sample E c = (r, d) \<Longrightarrow> drift c d \<and> (\<forall>t. r \<noteq> Inl (Throw t))"
  by (auto simp: cv_sample_def split: prod.splits reply.splits dest!: drift_tick)

section \<open>Weakest preconditions\<close>

lemma wp_sample:
  assumes "\<And>s d. drift c d \<Longrightarrow> Q s d" "\<And>k d. drift c d \<Longrightarrow> X (Halt k) d"
  shows "wp (cv_sample E) Q X c"
proof -
  obtain r d where r: "cv_sample E c = (r, d)" by fastforce
  with drift_sample[OF r] assms show ?thesis by (auto simp: wp_def split: sum.split) (metis cstop.exhaust)
qed

lemma wp_check:
  assumes "\<And>d. drift c d \<Longrightarrow> cv_intent d = None \<Longrightarrow> lease_accepted d \<Longrightarrow> Q () d" "\<And>k d. drift c d \<Longrightarrow> X (Halt k) d"
  shows "wp (cv_check E) Q X c"
  unfolding cv_check_def wp_bind
  by (rule wp_sample) (use assms in \<open>auto simp: wp_def split: option.splits\<close>)

section \<open>The invariant\<close>

definition pending_chars :: "convo \<Rightarrow> int" where
  "pending_chars c = (case cv_request c of None \<Rightarrow> 0 | Some q \<Rightarrow> int (length (cr_text q)))"

definition fits :: "convo \<Rightarrow> bool" where
  "fits c \<longleftrightarrow> (case cv_snapshot c of
     None \<Rightarrow> True
   | Some s \<Rightarrow> (case cs_policy s of
       None \<Rightarrow> False
     | Some y \<Rightarrow> eligible s = None \<and> 0 \<le> cv_turn c \<and> cv_turn c \<le> max 0 (cl_turns (cp_limits y))
         \<and> int (length (cv_history c)) + (if cv_request c = None then 0 else 1) \<le> cv_turn c
         \<and> context_size c + pending_chars c \<le> cl_context_chars (cp_limits y)))"

lemma fits_less: "fits c \<Longrightarrow> cv_snapshot d = cv_snapshot c \<Longrightarrow> cv_history d = cv_history c \<Longrightarrow> cv_turn d = cv_turn c
    \<Longrightarrow> cv_request d = None \<Longrightarrow> fits d"
  by (cases "cv_snapshot c"; cases "cv_request c") (auto simp: fits_def pending_chars_def context_size_def split: option.splits)

definition owner_faulted :: "convo \<Rightarrow> bool" where
  "owner_faulted c \<longleftrightarrow> so_state (cv_owner c) = Faulted"

definition sound :: "convo \<Rightarrow> bool" where
  "sound c \<longleftrightarrow> leased c \<and> fits c \<and> (cv_lease c \<noteq> None \<longrightarrow> cv_snapshot c \<noteq> None)
     \<and> (cv_out c \<longrightarrow> cv_job c \<or> cv_unknown c) \<and> (cv_job c \<or> cv_unknown c \<longrightarrow> cv_lease c \<noteq> None \<or> owner_faulted c)
     \<and> (\<forall>(g, clean, out) \<in> set (cv_released c). clean \<longrightarrow> \<not> out)
     \<and> (cv_phase c \<in> set live_phases \<longrightarrow> cv_lease c \<noteq> None) \<and> (cv_phase c = DFaulted \<longrightarrow> owner_faulted c)
     \<and> (cv_job c \<longrightarrow> cv_phase c \<in> {DProcessing, DStopping})"

text \<open>Between operations.\<close>

definition cv_rest :: "convo \<Rightarrow> bool" where
  "cv_rest c \<longleftrightarrow> sound c \<and> cv_phase c \<noteq> DStopping \<and> (cv_unknown c \<longrightarrow> cv_phase c = DFaulted)
     \<and> (cv_request c \<noteq> None \<longleftrightarrow> cv_phase c \<in> {DProcessing, DClarifying})
     \<and> (if cv_lease c = None then cv_snapshot c = None \<and> cv_history c = [] else cv_phase c \<in> set live_phases)"

lemma context_size_cong: "cv_snapshot d = cv_snapshot c \<Longrightarrow> cv_history d = cv_history c \<Longrightarrow> context_size d = context_size c"
  by (simp add: context_size_def)

lemma fits_cong: "cv_snapshot d = cv_snapshot c \<Longrightarrow> cv_history d = cv_history c \<Longrightarrow> cv_turn d = cv_turn c \<Longrightarrow> cv_request d = cv_request c
    \<Longrightarrow> fits d = fits c"
  using context_size_cong[of d c] by (simp add: fits_def pending_chars_def cong: option.case_cong)

lemma drift_faulted: "drift c d \<Longrightarrow> owner_faulted c \<Longrightarrow> owner_faulted d"
  by (simp add: owner_faulted_def drift_more)

lemma sound_drift: "drift c d \<Longrightarrow> sound c \<Longrightarrow> sound d"
  using drift_more(1)[of c d] drift_faulted[of c d] fits_cong[of d c]
  unfolding sound_def by (simp add: drift_fields) blast

lemma cv_rest_drift: "drift c d \<Longrightarrow> cv_rest c \<Longrightarrow> cv_rest d"
  using sound_drift[of c d] unfolding cv_rest_def by (simp add: drift_fields)

definition halting :: "cstop \<Rightarrow> convo \<Rightarrow> bool" where
  "halting e c \<longleftrightarrow> (case e of Halt k \<Rightarrow> sound c | Throw t \<Rightarrow> cv_rest c \<and> e \<noteq> no_policy)"

lemma halting_simps [simp]: "halting (Halt k) c = sound c" "halting (Throw t) c \<longleftrightarrow> cv_rest c \<and> Throw t \<noteq> no_policy"
  by (simp_all add: halting_def)

lemma halting_throw [simp]: "halting invalid c = cv_rest c" "Throw (ConvBusy t) \<noteq> no_policy" "Throw (ConvOwner w) \<noteq> no_policy"
  by (simp_all add: invalid_def no_policy_def)

lemma cv_rest_sound: "cv_rest c \<Longrightarrow> sound c"
  by (simp add: cv_rest_def)

lemma sound_busy [simp]: "sound (c\<lparr>cv_busy := b\<rparr>) = sound c" "cv_rest (c\<lparr>cv_busy := b\<rparr>) = cv_rest c"
  using fits_cong[of "c\<lparr>cv_busy := b\<rparr>" c] by (simp_all add: sound_def cv_rest_def leased_def owner_faulted_def)

section \<open>Stopping\<close>

lemma cleanup_facts:
  assumes "cv_cleanup E c = (clean, d)"
  shows "\<exists>e. drift c e \<and> d = e\<lparr>cv_job := False, cv_unknown := \<not> clean, cv_out := cv_out e \<and> \<not> clean\<rparr>
    \<and> (clean \<longrightarrow> \<not> cv_unknown c) \<and> (\<not> clean \<longrightarrow> cv_job c \<or> cv_unknown c)"
proof (cases "cv_job c")
  case False
  with assms show ?thesis by (auto simp: cv_cleanup_def intro!: exI[of _ c])
next
  case True
  obtain m x where m: "cv_tick E c = (m, x)" by fastforce
  obtain n y where n: "cv_tick E x = (n, y)" by fastforce
  note x = drift_tick[OF m] and y = drift_trans[OF drift_tick[OF m] drift_tick[OF n]]
  show ?thesis
  proof (cases "cm_ok m")
    case True
    with assms \<open>cv_job c\<close> m n y show ?thesis by (auto simp: cv_cleanup_def drift_fields[OF y] intro!: exI[of _ y])
  next
    case False
    with assms \<open>cv_job c\<close> m x show ?thesis by (auto simp: cv_cleanup_def intro!: exI[of _ x])
  qed
qed

lemma release_facts:
  assumes "leased c" "cv_lease c = Some g"
  shows "\<exists>w. session_release (VInt g) (VBool clean) (cv_owner c) = (None, w) \<and> session_inv w \<and> (\<not> clean \<longrightarrow> so_state w = Faulted)"
proof -
  have o: "session_inv (cv_owner c)" "so_owner (cv_owner c) = Some g" "so_state (cv_owner c) \<noteq> Faulted" "0 < g"
    using assms by (auto simp: leased_def session_inv_def)
  from session_step_inv[OF o(1), of "Release (VInt g) (VBool clean)"] o(2-4) show ?thesis
    by (auto simp: session_release_def positive_def split: option.splits if_splits)
qed

lemma begin_facts:
  assumes "session_inv w" "session_begin (VStr ''conversation'') w = (r, v)"
  shows "session_inv v \<and> (case r of Inl e \<Rightarrow> v = w | Inr g \<Rightarrow> so_owner v = Some g \<and> so_state v = Owned)"
  using session_step_inv[OF assms(1), of "Begin (VStr ''conversation'')"] assms(2)
  by (auto simp: session_begin_def Let_def split: if_splits)

definition cleaned :: "bool \<Rightarrow> convo \<Rightarrow> bool" where
  "cleaned clean c \<longleftrightarrow> leased c \<and> fits c \<and> (cv_lease c \<noteq> None \<longrightarrow> cv_snapshot c \<noteq> None)
     \<and> (\<forall>(g, k, out) \<in> set (cv_released c). k \<longrightarrow> \<not> out) \<and> cv_request c = None \<and> \<not> cv_job c \<and> cv_unknown c = (\<not> clean)
     \<and> (cv_out c \<longrightarrow> \<not> clean) \<and> (\<not> clean \<longrightarrow> cv_lease c \<noteq> None \<or> owner_faulted c)"

definition cleared :: "convo \<Rightarrow> convo" where
  "cleared c = (if cv_phase c \<noteq> DReady then c\<lparr>cv_history := [], cv_snapshot := None, cv_session_id := None\<rparr> else c)"

definition cv_stopped :: "convo \<Rightarrow> bool" where
  "cv_stopped c \<longleftrightarrow> cv_rest c \<and> cv_intent c = None \<and> cv_request c = None \<and> \<not> cv_job c
     \<and> cv_phase c \<in> {DReady, DInactive, DFaulted}"

lemma cv_stopped_off:
  assumes "session_inv (cv_owner d)" "cv_lease d = None" "cv_request d = None" "\<not> cv_job d" "cv_intent d = None"
    "\<forall>(g, k, out) \<in> set (cv_released d). k \<longrightarrow> \<not> out" "cv_out d \<longrightarrow> cv_unknown d"
    "if cv_unknown d then cv_phase d = DFaulted \<and> owner_faulted d else cv_phase d = DInactive"
  shows "cv_stopped (cleared d)"
  using assms
  by (auto simp: cv_stopped_def cleared_def cv_rest_def sound_def leased_def fits_def owner_faulted_def live_phases_def split: if_splits)

lemma retire_sound:
  assumes "cleaned clean c" "cv_retire E clean c = (e, d)"
  shows "e = None \<and> cv_stopped (cleared d) \<and> cv_busy d = cv_busy c \<and> (final_intent (cv_intent c) \<longrightarrow> cv_lease d = None)"
proof -
  note c = assms(1)[unfolded cleaned_def]
  define k where "k = (case cv_intent c of None \<Rightarrow> CodeInactive | Some k \<Rightarrow> k)"
  show ?thesis
  proof (cases "cv_lease c")
    case None
    let ?d = "c\<lparr>cv_lease := None, cv_phase := if clean then DInactive else DFaulted, cv_code := if clean then k else CodeCleanup, cv_intent := None\<rparr>"
    have d: "e = None" "d = ?d" using assms(2) None by (auto simp: cv_retire_def Let_def k_def)
    have "cv_stopped (cleared ?d)" by (rule cv_stopped_off) (use c None in \<open>auto simp: leased_def owner_faulted_def\<close>)
    with d show ?thesis by simp
  next
    case (Some g)
    from release_facts[of c g clean] c Some obtain w where w: "session_release (VInt g) (VBool clean) (cv_owner c) = (None, w)"
        "session_inv w" "\<not> clean \<longrightarrow> so_state w = Faulted" by blast
    let ?r = "c\<lparr>cv_lease := None, cv_owner := w, cv_released := (g, clean, cv_out c) # cv_released c\<rparr>"
    let ?off = "?r\<lparr>cv_phase := if clean then DInactive else DFaulted, cv_code := if clean then k else CodeCleanup, cv_intent := None\<rparr>"
    have off: "cv_stopped (cleared ?off)" by (rule cv_stopped_off) (use c w in \<open>auto simp: owner_faulted_def\<close>)
    show ?thesis
    proof (cases "clean \<and> k = CodeCanceled")
      case False
      then have "e = None" "d = ?off" using assms(2) Some w(1) by (auto simp: cv_retire_def Let_def k_def split: if_splits)
      with off show ?thesis by simp
    next
      case True
      let ?i = "?r\<lparr>cv_phase := DInactive, cv_code := k\<rparr>"
      define x where "x = cv_gated_tick E ?i"
      have x: "drift ?i x" unfolding x_def by (rule drift_gated)
      have "leased ?i" using w(2) by (simp add: leased_def)
      then have inv: "session_inv (cv_owner x)" using drift_more(1)[OF x] by (simp add: leased_def)
      obtain b v where b: "session_begin (VStr ''conversation'') (cv_owner x) = (b, v)" by fastforce
      note v = begin_facts[OF inv b]
      have ready: "\<not> final_intent (cv_intent c)" using True by (auto simp: k_def final_intent_def split: option.splits)
      note f = drift_fields[OF x, simplified]
      show ?thesis
      proof (cases b)
        case (Inl err)
        let ?d = "x\<lparr>cv_owner := v, cv_code := CodeBusy, cv_intent := None\<rparr>"
        have d: "e = None" "d = ?d" using assms(2) Some w(1) True b Inl
          by (auto simp: cv_retire_def Let_def k_def[symmetric] x_def)
        have "cv_stopped (cleared ?d)" by (rule cv_stopped_off) (use c True f v Inl inv in \<open>auto\<close>)
        with d ready f show ?thesis by simp
      next
        case (Inr h)
        let ?d = "x\<lparr>cv_owner := v, cv_lease := Some h, cv_phase := DReady, cv_intent := None\<rparr>"
        have d: "e = None" "d = ?d" using assms(2) Some w(1) True b Inr
          by (auto simp: cv_retire_def Let_def k_def[symmetric] x_def)
        have "fits ?d = fits c" by (rule fits_cong) (simp_all add: f)
        moreover have "leased ?d" using v Inr by (simp add: leased_def)
        ultimately have "cv_stopped ?d" using c True f Some
          by (auto simp: cv_stopped_def cv_rest_def sound_def live_phases_def)
        with d ready f show ?thesis by (simp add: cleared_def)
      qed
    qed
  qed
qed

lemma stop_sound:
  assumes "sound c" "cv_stop E c = (e, d)"
  shows "e = None \<and> cv_stopped d \<and> cv_busy d = cv_busy c \<and> (final_intent (cv_intent c) \<longrightarrow> cv_lease d = None)"
proof -
  note c = assms(1)[unfolded sound_def]
  let ?c = "c\<lparr>cv_phase := DStopping\<rparr>"
  obtain clean x where x: "cv_cleanup E ?c = (clean, x)" by fastforce
  from cleanup_facts[OF x] obtain y where y: "drift ?c y"
      "x = y\<lparr>cv_job := False, cv_unknown := \<not> clean, cv_out := cv_out y \<and> \<not> clean\<rparr>"
      "\<not> clean \<longrightarrow> cv_job c \<or> cv_unknown c" by auto
  note f = drift_fields[OF y(1), simplified]
  define z where "z = (if clean \<and> cv_intent x = Some CodeCanceled \<and> cv_snapshot x \<noteq> None
      then (case cv_sample E x of
              (Inr s, c) \<Rightarrow> if Some s \<noteq> cv_snapshot c then cv_invalidate CodeStale c else c
            | (Inl (Halt k), c) \<Rightarrow> cv_invalidate k c
            | (Inl (Throw e), c) \<Rightarrow> c)
      else x)"
  have z: "drift x z"
  proof -
    obtain r s where r: "cv_sample E x = (r, s)" by fastforce
    from drift_sample[OF r] have "drift x s" by blast
    then have "drift x (cv_invalidate k s)" for k by (rule drift_trans) (rule drift_invalidate)
    with r \<open>drift x s\<close> show ?thesis by (auto simp: z_def split: sum.split cstop.split)
  qed
  let ?q = "z\<lparr>cv_request := None\<rparr>"
  define u where "u = cv_gap E ?q"
  have u: "drift ?q u" unfolding u_def by (rule drift_gap)
  note g = drift_fields[OF z, simplified] drift_fields[OF u, simplified]
  have "leased y" using drift_more(1)[OF y(1)] c by (simp add: leased_def)
  then have "leased x" by (simp add: y(2) leased_def)
  then have "leased ?q" using drift_more(1)[OF z] by (simp add: leased_def)
  then have "leased u" by (rule drift_more(1)[OF u])
  moreover have "fits u" by (rule fits_less[of c]) (use c in \<open>simp_all add: g y(2) f\<close>)
  moreover have "owner_faulted c \<Longrightarrow> owner_faulted u"
  proof -
    assume "owner_faulted c"
    then have "owner_faulted y" using drift_faulted[OF y(1)] by (simp add: owner_faulted_def)
    then have "owner_faulted x" by (simp add: y(2) owner_faulted_def)
    then have "owner_faulted ?q" using drift_faulted[OF z] by (simp add: owner_faulted_def)
    then show "owner_faulted u" by (rule drift_faulted[OF u])
  qed
  ultimately have cl: "cleaned clean u" using c y(3) by (auto simp: cleaned_def g y(2) f)
  obtain e' v where v: "cv_retire E clean u = (e', v)" by fastforce
  note r = retire_sound[OF cl v]
  have st: "cv_stop E c = (e', if e' = None then cleared v else v)"
    unfolding cv_stop_def x prod.case Let_def z_def[symmetric] u_def[symmetric] v by (cases e') (simp_all add: cleared_def)
  have "final_intent (cv_intent c) \<Longrightarrow> final_intent (cv_intent u)"
  proof -
    assume "final_intent (cv_intent c)"
    then have "final_intent (cv_intent x)" using drift_more(3)[OF y(1)] by (simp add: y(2))
    then have "final_intent (cv_intent ?q)" using drift_more(3)[OF z] by simp
    then show "final_intent (cv_intent u)" by (rule drift_more(3)[OF u])
  qed
  with r st assms(2) show ?thesis by (auto simp: cleared_def g y(2) f)
qed

section \<open>Operations\<close>

lemma cv_rest_off: "cv_rest c \<Longrightarrow> cv_phase c = DInactive \<Longrightarrow>
    cv_lease c = None \<and> cv_snapshot c = None \<and> cv_request c = None \<and> \<not> cv_job c \<and> \<not> cv_unknown c \<and> \<not> cv_out c"
  by (auto simp: cv_rest_def sound_def live_phases_def split: if_splits)

lemma cv_rest_on: "cv_rest c \<Longrightarrow> cv_phase c \<in> set live_phases \<Longrightarrow>
    \<exists>g s y. cv_lease c = Some g \<and> cv_policy c = Some (s, y) \<and> cv_snapshot c = Some s \<and> cs_policy s = Some y \<and> \<not> cv_unknown c"
  by (auto simp: cv_rest_def sound_def live_phases_def fits_def cv_policy_def split: if_splits option.splits)

lemma lease_accepted_leased: "lease_accepted c \<Longrightarrow> leased c \<Longrightarrow> cv_lease c \<noteq> None"
  by (auto simp: lease_accepted_def split: option.splits)

lemma fits_upd [simp]:
  "fits (c\<lparr>cv_phase := a\<rparr>) = fits c" "fits (c\<lparr>cv_code := k\<rparr>) = fits c" "fits (c\<lparr>cv_polls := n\<rparr>) = fits c"
  "fits (c\<lparr>cv_job := b\<rparr>) = fits c" "fits (c\<lparr>cv_unknown := b\<rparr>) = fits c" "fits (c\<lparr>cv_out := b\<rparr>) = fits c"
  by (rule fits_cong; simp)+

lemma leased_upd [simp]:
  "leased (c\<lparr>cv_phase := a\<rparr>) = leased c" "leased (c\<lparr>cv_code := k\<rparr>) = leased c" "leased (c\<lparr>cv_polls := n\<rparr>) = leased c"
  "leased (c\<lparr>cv_job := b\<rparr>) = leased c" "leased (c\<lparr>cv_unknown := b\<rparr>) = leased c" "leased (c\<lparr>cv_out := b\<rparr>) = leased c"
  "leased (c\<lparr>cv_request := q\<rparr>) = leased c" "leased (c\<lparr>cv_turn := t\<rparr>) = leased c" "leased (c\<lparr>cv_history := h\<rparr>) = leased c"
  "leased (c\<lparr>cv_snapshot := z\<rparr>) = leased c" "leased (c\<lparr>cv_session_id := i\<rparr>) = leased c"
  by (simp_all add: leased_def)

lemma faulted_upd [simp]:
  "owner_faulted (c\<lparr>cv_phase := a\<rparr>) = owner_faulted c" "owner_faulted (c\<lparr>cv_code := k\<rparr>) = owner_faulted c"
  "owner_faulted (c\<lparr>cv_polls := n\<rparr>) = owner_faulted c" "owner_faulted (c\<lparr>cv_job := b\<rparr>) = owner_faulted c"
  "owner_faulted (c\<lparr>cv_unknown := b\<rparr>) = owner_faulted c" "owner_faulted (c\<lparr>cv_out := b\<rparr>) = owner_faulted c"
  "owner_faulted (c\<lparr>cv_request := q\<rparr>) = owner_faulted c" "owner_faulted (c\<lparr>cv_turn := t\<rparr>) = owner_faulted c"
  "owner_faulted (c\<lparr>cv_history := h\<rparr>) = owner_faulted c"
  by (simp_all add: owner_faulted_def)

definition readied :: "conv_snapshot \<Rightarrow> convo \<Rightarrow> convo" where
  "readied s c = c\<lparr>cv_snapshot := Some s, cv_history := [], cv_turn := 0, cv_phase := DReady, cv_code := CodeReady\<rparr>"

lemma eligible_policy: "eligible s = None \<Longrightarrow> \<exists>y. cs_policy s = Some y \<and> chars (map ci_text (cx_items (cs_context s))) \<le> cl_context_chars (cp_limits y)"
  by (auto simp: eligible_def Let_def split: option.splits if_splits)

lemma readied_cv_rest:
  assumes "cv_rest c" "cv_phase c = DInactive" "eligible s = None" "session_begin (VStr ''conversation'') (cv_owner c) = (Inr g, w)"
  shows "cv_rest (readied s (c\<lparr>cv_owner := w, cv_lease := Some g, cv_session_id := n\<rparr>))"
proof -
  note off = cv_rest_off[OF assms(1,2)]
  have "session_inv (cv_owner c)" using assms(1) by (simp add: cv_rest_def sound_def leased_def)
  from begin_facts[OF this assms(4)] have w: "session_inv w" "so_owner w = Some g" "so_state w = Owned" by auto
  from eligible_policy[OF assms(3)] have "fits (readied s (c\<lparr>cv_owner := w, cv_lease := Some g, cv_session_id := n\<rparr>))"
    using off assms(3) by (auto simp: fits_def readied_def context_size_def pending_chars_def)
  then show ?thesis using assms(1) off w
    by (auto simp: cv_rest_def sound_def leased_def readied_def live_phases_def)
qed

lemma wp_begin:
  assumes "cv_rest c" "cv_phase c = DInactive" "eligible s = None" "\<And>d. cv_rest (readied s d) \<Longrightarrow> Q (readied s d)"
  shows "wp cv_begin (\<lambda>u d. Q (readied s d)) halting c"
proof -
  have inv: "session_inv (cv_owner c)" using assms(1) by (simp add: cv_rest_def sound_def leased_def)
  obtain r w where r: "session_begin (VStr ''conversation'') (cv_owner c) = (r, w)" by fastforce
  note w = begin_facts[OF inv r]
  show ?thesis
  proof (cases r)
    case (Inl e)
    with w r assms(1) show ?thesis by (auto simp: wp_def cv_begin_def no_policy_def cv_rest_sound split: option.split)
  next
    case (Inr g)
    with readied_cv_rest[OF assms(1-3)] r assms(1) show ?thesis
      by (auto simp: wp_def cv_begin_def cv_rest_sound split: option.split intro!: assms(4))
  qed
qed

lemma wp_cv_rest_check:
  assumes "cv_rest c" "\<And>d. drift c d \<Longrightarrow> cv_rest d \<Longrightarrow> Q () d"
  shows "wp (cv_check E) Q halting c"
  by (rule wp_check) (use assms in \<open>auto dest: cv_rest_drift cv_rest_sound\<close>)

lemma enter_sound:
  assumes "cv_rest c"
  shows "wp (enter_body E e) (\<lambda>x. cv_rest) halting c"
proof (cases "cv_phase c = DInactive")
  case False
  with assms show ?thesis by (simp add: enter_body_def no_policy_def)
next
  case True
  have bg: "wp cv_begin (\<lambda>u d. wp (cv_check E) (\<lambda>u. cv_rest) halting (readied s d)) halting d"
    if "drift c d" "eligible s = None" for d s
    by (rule wp_begin) (use that cv_rest_drift[OF that(1) assms] True in \<open>auto simp: drift_fields intro!: wp_cv_rest_check\<close>)
  show ?thesis unfolding enter_body_def
    by (simp add: True, rule wp_sample)
      (use assms bg in \<open>auto simp: readied_def cv_rest_drift cv_rest_sound split: option.split\<close>)
qed

lemma start_cv_rest:
  assumes "cv_rest c" "cv_phase c \<in> set live_phases" "cv_request c \<noteq> None"
  shows "cv_rest (c\<lparr>cv_phase := DProcessing, cv_code := k, cv_polls := n\<rparr>)"
  using assms by (auto simp: cv_rest_def sound_def live_phases_def split: if_splits)

lemma wp_allocate:
  assumes "cv_rest c" "cv_phase c = DProcessing" "\<And>d. cv_rest d \<Longrightarrow> cv_phase d = DProcessing \<Longrightarrow> Q () d"
  shows "wp (cv_allocate E) Q halting c"
proof -
  obtain m d where m: "cv_tick E (c\<lparr>cv_unknown := True, cv_out := True\<rparr>) = (m, d)" by fastforce
  note d = drift_tick[OF m]
  have "sound (c\<lparr>cv_unknown := True, cv_out := True\<rparr>)" using assms(1,2)
    by (auto simp: cv_rest_def sound_def live_phases_def split: if_splits)
  then have s: "sound d" by (rule sound_drift[OF d])
  then have "sound (d\<lparr>cv_job := True, cv_unknown := False\<rparr>)" using assms(2)
    by (auto simp: sound_def drift_fields[OF d])
  with assms(1,2) have "cv_rest (d\<lparr>cv_job := True, cv_unknown := False\<rparr>)"
    by (auto simp: cv_rest_def drift_fields[OF d] split: if_splits)
  with s m assms(2) drift_fields[OF d] show ?thesis
    by (auto simp: wp_def cv_allocate_def split: factory_reply.split intro!: assms(3))
qed

lemma wp_launch:
  assumes "cv_rest c" "\<And>d. drift c d \<Longrightarrow> cv_rest d \<Longrightarrow> Q () d"
  shows "wp (cv_launch E) Q halting c"
proof -
  obtain m d where m: "cv_tick E c = (m, d)" by fastforce
  with drift_tick[OF m] cv_rest_drift[OF drift_tick[OF m] assms(1)] assms(2) show ?thesis
    by (auto simp: wp_def cv_launch_def cv_rest_sound)
qed

lemma wp_start:
  assumes "cv_rest (c\<lparr>cv_phase := DProcessing, cv_code := CodeProcessing, cv_polls := 0\<rparr>)" "\<And>d. cv_rest d \<Longrightarrow> Q () d"
  shows "wp (cv_start E) Q halting c"
  unfolding cv_start_def wp_then wp_simps
  by (rule wp_allocate) (use assms in \<open>auto intro!: wp_cv_rest_check wp_launch\<close>)

lemma cv_rest_upd [simp]:
  "cv_rest (c\<lparr>cv_code := k\<rparr>) = cv_rest c" "cv_rest (c\<lparr>cv_polls := n\<rparr>) = cv_rest c"
  "sound (c\<lparr>cv_code := k\<rparr>) = sound c" "sound (c\<lparr>cv_polls := n\<rparr>) = sound c"
  by (simp_all add: cv_rest_def sound_def)

lemma policy_some: "cv_policy c = Some (s, y) \<longleftrightarrow> cv_snapshot c = Some s \<and> cs_policy s = Some y"
  by (auto simp: cv_policy_def split: option.splits Option.bind_splits)

lemma next_turn:
  assumes "cv_rest c" "cv_phase c = DReady" "cv_policy c = Some (s, y)" "cv_turn c < cl_turns (cp_limits y)"
  shows "cv_rest (c\<lparr>cv_turn := cv_turn c + 1\<rparr>)"
    "context_size c + int (length (cr_text q)) \<le> cl_context_chars (cp_limits y) \<Longrightarrow> p \<in> {DProcessing, DClarifying}
      \<Longrightarrow> cv_rest (c\<lparr>cv_turn := cv_turn c + 1, cv_request := Some q, cv_phase := p\<rparr>)"
  using assms
  by (auto simp: cv_rest_def sound_def policy_some fits_def pending_chars_def live_phases_def context_size_def split: if_splits)

lemma request_init_text: "conv_request_init (Some t) (Some v) (Some x) (Some (map Some h)) None = Some q \<Longrightarrow> cr_text q = v \<and> cr_token q = t"
  by (auto simp: conv_request_init_def text_in_def require_def split: Option.bind_splits if_splits option.splits)

lemma wp_new_turn:
  assumes "cv_rest c" "cv_phase c = DReady" "cv_policy c = Some (s, y)" "cv_turn c < cl_turns (cp_limits y)"
    "context_size c + int (length v) \<le> cl_context_chars (cp_limits y)"
  shows "wp (new_turn E s v t) (\<lambda>x. cv_rest) halting (c\<lparr>cv_turn := cv_turn c + 1\<rparr>)"
proof -
  have start: "wp (cv_start E) (\<lambda>u. cv_rest) halting (c\<lparr>cv_turn := cv_turn c + 1, cv_request := Some q\<rparr>)"
    if "cr_text q = v" for q
    by (rule wp_start) (use next_turn(2)[OF assms(1-4), of q DProcessing] that assms(5) in simp_all)
  have clarify: "cv_rest (c\<lparr>cv_turn := cv_turn c + 1, cv_request := Some q, cv_phase := DClarifying\<rparr>)"
    if "cr_text q = v" for q
    using next_turn(2)[OF assms(1-4), of q DClarifying] that assms(5) by simp
  show ?thesis unfolding new_turn_def
    by (auto split: option.split dest!: request_init_text intro: next_turn(1)[OF assms(1-4)] start clarify)
qed

lemma submit_sound:
  assumes "cv_rest c"
  shows "wp (submit_body E v) (\<lambda>x. cv_rest) halting c"
proof (cases "cv_phase c \<in> set live_phases")
  case False
  with assms show ?thesis by (simp add: submit_body_def)
next
  case True
  show ?thesis unfolding submit_body_def
    apply (simp add: True)
    apply (rule wp_cv_rest_check[OF assms])
    subgoal for d
      using cv_rest_on[of d] next_turn(1)[of d] wp_new_turn[of d] True
      by (auto simp: drift_fields cv_rest_sound split: option.split)
    done
qed

lemma resolve_settled:
  assumes "cv_rest c" "cv_phase c = DClarifying" "cv_request c = Some r"
  shows "cv_rest (c\<lparr>cv_request := Some (r\<lparr>cr_resolved := k\<rparr>), cv_phase := DProcessing\<rparr>)"
    "cv_rest (c\<lparr>cv_request := None, cv_phase := DReady\<rparr>)"
  using assms
  by (auto simp: cv_rest_def sound_def fits_def pending_chars_def live_phases_def context_size_def split: if_splits option.splits)

lemma clarify_sound:
  assumes "cv_rest c"
  shows "wp (clarify_body E q) (\<lambda>x. cv_rest) halting c"
proof (cases "cv_phase c = DClarifying")
  case False
  with assms show ?thesis by (simp add: clarify_body_def)
next
  case True
  show ?thesis unfolding clarify_body_def
    apply (simp add: True)
    apply (rule wp_cv_rest_check[OF assms])
    subgoal for d
      using resolve_settled[of d] True
      by (auto simp: drift_fields split: option.split intro!: wp_start)
    done
qed

lemma exit_sound:
  assumes "cv_rest c"
  shows "wp (exit_body E k) (\<lambda>x. cv_rest) halting c"
proof (cases "cv_phase c \<in> set live_phases")
  case False
  with assms show ?thesis by (simp add: exit_body_def)
next
  case True
  show ?thesis unfolding exit_body_def
    apply (simp add: True)
    apply (rule wp_cv_rest_check[OF assms])
    subgoal for d
      using cv_rest_on[of d] True cv_rest_drift[OF drift_invalidate, of d]
      by (auto simp: drift_fields split: option.split)
    done
qed

text \<open>What a poll gives: nothing, or the response of the pending request, published with its job gone.\<close>

definition polled :: "convo \<Rightarrow> conv_response option \<Rightarrow> convo \<Rightarrow> bool" where
  "polled c v d \<longleftrightarrow> (case v of
     None \<Rightarrow> cv_history d = cv_history c
   | Some r \<Rightarrow> (case cv_request c of
       None \<Rightarrow> False
     | Some q \<Rightarrow> re_token r = cr_token q \<and> cv_request d = None \<and> \<not> cv_job d \<and> \<not> cv_out d \<and> cv_phase d = DReady
         \<and> cv_history d = cv_history c @ [\<lparr>ex_token = re_token r, ex_text = cr_text q, ex_response = re_text r, ex_resolved = cr_resolved q\<rparr>]))"

lemma wp_clean_job:
  assumes "cv_rest c" "cv_phase c = DProcessing"
    "\<And>d. drift c d \<Longrightarrow> cv_rest (d\<lparr>cv_job := False, cv_unknown := False, cv_out := False\<rparr>) \<Longrightarrow>
       Q () (d\<lparr>cv_job := False, cv_unknown := False, cv_out := False\<rparr>)"
  shows "wp (cv_clean_job E) Q halting c"
proof -
  obtain clean x where x: "cv_cleanup E c = (clean, x)" by fastforce
  from cleanup_facts[OF x] obtain d where d: "drift c d"
      "x = d\<lparr>cv_job := False, cv_unknown := \<not> clean, cv_out := cv_out d \<and> \<not> clean\<rparr>" by blast
  from cv_rest_drift[OF d(1) assms(1)] have r: "cv_rest d" .
  have p: "cv_phase d = DProcessing" using assms(2) by (simp add: drift_fields(10)[OF d(1)])
  have "sound (d\<lparr>cv_job := False, cv_unknown := True\<rparr>)"
    using r p by (auto simp: cv_rest_def sound_def live_phases_def split: if_splits)
  moreover have "cv_rest (d\<lparr>cv_job := False, cv_unknown := False, cv_out := False\<rparr>)"
    using r p by (auto simp: cv_rest_def sound_def live_phases_def split: if_splits)
  ultimately show ?thesis using assms(3)[OF d(1)] x d(2) by (cases clean) (simp_all add: wp_def cv_clean_job_def)
qed

lemma exchange_init_some: "exchange_init (Some k) (Some t) (Some r) (map_option Some z) = Some x \<Longrightarrow>
    x = \<lparr>ex_token = k, ex_text = t, ex_response = r, ex_resolved = z\<rparr>"
  by (cases z) (auto simp: exchange_init_def text_in_def optional_id_def id_text_def split: Option.bind_splits if_splits)

lemma publish_cv_rest:
  assumes "cv_rest c" "cv_phase c = DProcessing" "\<not> cv_job c" "cv_request c = Some q" "cv_policy c = Some (s, y)"
    "context_size c + int (length (ex_text x)) + int (length (ex_response x)) \<le> cl_context_chars (cp_limits y)"
  shows "cv_rest (c\<lparr>cv_history := cv_history c @ [x], cv_request := None, cv_phase := DReady\<rparr>)"
  using assms
  by (auto simp: cv_rest_def sound_def policy_some fits_def pending_chars_def live_phases_def context_size_def split: if_splits)

lemma wp_publish:
  assumes "cv_rest c" "cv_phase c = DProcessing" "\<not> cv_job c" "cv_request c = Some q" "cv_policy c = Some (s, y)"
    "context_size c + int (length (ex_text x)) + int (length (ex_response x)) \<le> cl_context_chars (cp_limits y)"
    "\<And>d. cv_rest d \<Longrightarrow> d = c\<lparr>cv_history := cv_history c @ [x], cv_request := None, cv_phase := DReady, cv_code := CodeReady\<rparr> \<Longrightarrow> Q () d"
  shows "wp (cv_publish x) Q halting c"
  using publish_cv_rest[OF assms(1-6)] assms(1,7)
  by (auto simp: wp_def cv_publish_def cv_rest_sound split: option.split)

lemma receive_sound:
  assumes "cv_rest c" "cv_phase c = DProcessing" "cv_request c = Some q" "cv_policy c = Some (s, y)"
  shows "wp (receive_response E (cp_limits y) q r) (\<lambda>v d. cv_rest d \<and> polled c v d) halting c"
proof -
  have publish: "wp (cv_publish x) (\<lambda>u d. cv_rest d \<and> polled c (Some r) d) halting d"
    if "x = \<lparr>ex_token = re_token r, ex_text = cr_text q, ex_response = re_text r, ex_resolved = cr_resolved q\<rparr>"
      "re_token r = cr_token q" "cv_rest d" "\<not> cv_job d" "\<not> cv_out d"
      "cv_phase d = DProcessing" "cv_request d = Some q" "cv_policy d = Some (s, y)" "cv_history d = cv_history c" "cv_snapshot d = cv_snapshot c"
      "context_size c + int (length (cr_text q)) + int (length (re_text r)) \<le> cl_context_chars (cp_limits y)" for x d
    by (rule wp_publish[OF that(3,6,4,7,8)]) (use that assms(3) context_size_cong[of d c] in \<open>auto simp: polled_def\<close>)
  show ?thesis unfolding receive_response_def
    apply (clarsimp simp: cv_rest_sound assms(1))
    apply (rule wp_clean_job[OF assms(1,2)])
    apply (rule wp_cv_rest_check, assumption)
    subgoal for d e
      using drift_gap[of e E] cv_rest_drift[OF drift_gap[of e E]] assms
      by (auto simp: drift_fields policy_some split: option.split dest!: exchange_init_some intro!: publish)
    done
qed

lemma wp_job_reply:
  assumes "cv_rest c" "\<And>r d. drift c d \<Longrightarrow> cv_rest d \<Longrightarrow> Q r d"
  shows "wp (poll_job_reply E) Q halting c"
proof -
  obtain m d where m: "cv_tick E c = (m, d)" by fastforce
  with drift_tick[OF m] cv_rest_drift[OF drift_tick[OF m] assms(1)] assms(2) show ?thesis
    by (cases "cv_job d"; cases "cm_poll m") (simp_all add: wp_def poll_job_reply_def cv_rest_sound)
qed

lemma cv_rest_request: "cv_rest c \<Longrightarrow> cv_phase c = DProcessing \<Longrightarrow> \<exists>q. cv_request c = Some q"
  by (auto simp: cv_rest_def)

lemma polled_from: "polled d v e \<Longrightarrow> cv_history d = cv_history c \<Longrightarrow> cv_request d = cv_request c \<Longrightarrow> polled c v e"
  by (simp add: polled_def split: option.splits)

lemma reply_body_sound:
  assumes "cv_rest c" "cv_phase c = DProcessing"
  shows "wp (reply_body E reply) (\<lambda>v d. cv_rest d \<and> polled c v d) halting c"
proof -
  have "cv_phase c \<in> set live_phases" using assms(2) by (simp add: live_phases_def)
  from cv_rest_on[OF assms(1) this] cv_rest_request[OF assms] obtain s y q where
    p: "cv_policy c = Some (s, y)" "cv_request c = Some q" by blast
  from receive_sound[OF assms p(2,1)] p assms(1) show ?thesis
    by (auto simp: reply_body_def cv_rest_sound polled_def split: job_reply.split)
qed

lemma poll_sound:
  assumes "cv_rest c"
  shows "wp (poll_body E) (\<lambda>v d. cv_rest d \<and> polled c v d) halting c"
proof (cases "cv_phase c \<in> set live_phases")
  case False
  with assms show ?thesis by (simp add: poll_body_def polled_def)
next
  case True
  have step: "wp (poll_job_reply E) (\<lambda>r. wp (cv_check E) (\<lambda>u. wp (reply_body E r) (\<lambda>v d. cv_rest d \<and> polled c v d) halting) halting)
      halting (d\<lparr>cv_polls := n\<rparr>)"
    if d: "drift c d" "cv_rest d" "cv_phase d = DProcessing" for d n
  proof (rule wp_job_reply)
    fix r e
    assume e: "drift (d\<lparr>cv_polls := n\<rparr>) e" "cv_rest e"
    show "wp (cv_check E) (\<lambda>u. wp (reply_body E r) (\<lambda>v d. cv_rest d \<and> polled c v d) halting) halting e"
    proof (rule wp_cv_rest_check[OF e(2)])
      fix f
      assume f: "drift e f" "cv_rest f"
      have p: "cv_phase f = DProcessing" "cv_history f = cv_history c" "cv_request f = cv_request c"
        using d(3) drift_fields[OF d(1)] drift_fields[OF e(1)] drift_fields[OF f(1)] by simp_all
      show "wp (reply_body E r) (\<lambda>v d. cv_rest d \<and> polled c v d) halting f"
        by (rule wp_mono[OF reply_body_sound[OF f(2) p(1)]]) (use p(2,3) in \<open>auto intro: polled_from\<close>)
    qed
  qed (simp add: d(2))
  show ?thesis unfolding poll_body_def
    apply (simp add: True)
    apply (rule wp_cv_rest_check[OF assms])
    subgoal for d using step[of d] by (auto simp: drift_fields polled_def)
    done
qed

section \<open>Operations and runs\<close>

lemma cv_stopped_busy [simp]: "cv_stopped (c\<lparr>cv_busy := b\<rparr>) = cv_stopped c"
  by (simp add: cv_stopped_def)

text \<open>The end of \<open>_run\<close>, from the state \<open>d\<close> after the operation and the intent it may have left.\<close>

lemma finish_facts:
  assumes d: "sound d" "cv_intent d = None \<longrightarrow> cv_rest d"
    and e: "e = cv_gap E d"
    and z: "if cv_intent e = None then s = False \<and> x = None \<and> z = e\<lparr>cv_busy := False\<rparr>
            else s = True \<and> (\<exists>y. cv_stop E e = (x, y) \<and> z = y\<lparr>cv_busy := False\<rparr>)"
  shows "cv_rest z \<and> \<not> cv_busy z \<and> cv_intent z = None \<and> x = None \<and> (s \<longrightarrow> cv_stopped z) \<and> (\<not> s \<longrightarrow> drift d e \<and> z = e\<lparr>cv_busy := False\<rparr>)
    \<and> (final_intent (cv_intent d) \<longrightarrow> s \<and> cv_lease z = None)"
proof -
  have g: "drift d e" unfolding e by (rule drift_gap)
  have s: "sound e" by (rule sound_drift[OF g d(1)])
  show ?thesis
  proof (cases "cv_intent e = None")
    case True
    with drift_more(2)[OF g] have "cv_intent d = None" by blast
    with d(2) cv_rest_drift[OF g] have "cv_rest e" by blast
    with True z g \<open>cv_intent d = None\<close> show ?thesis by (simp add: final_intent_def)
  next
    case False
    with z obtain y where y: "cv_stop E e = (x, y)" "z = y\<lparr>cv_busy := False\<rparr>" "s" by auto
    from stop_sound[OF s y(1)] y drift_more(3)[OF g] show ?thesis by (auto simp: cv_stopped_def)
  qed
qed

lemma run_facts:
  assumes "cv_rest c" "\<not> cv_busy c" "wp operation (\<lambda>v d. cv_rest d \<and> P v d) halting (c\<lparr>cv_busy := True\<rparr>)"
    "cv_run E operation c = (r, z)"
  shows "cv_rest z \<and> \<not> cv_busy z \<and> cv_intent z = None \<and>
    (case r of
       Inl t \<Rightarrow> Throw t \<noteq> no_policy
     | Inr (v, s) \<Rightarrow> (s \<longrightarrow> cv_stopped z)
         \<and> (\<not> s \<longrightarrow> (\<exists>x d e. v = Some x \<and> P x d \<and> drift d e \<and> z = e\<lparr>cv_busy := False\<rparr>))
         \<and> (\<forall>x. v = Some x \<longrightarrow> (\<exists>d. P x d \<and> (final_intent (cv_intent d) \<longrightarrow> s \<and> cv_lease z = None))))
    \<and> (\<forall>x d. operation (c\<lparr>cv_busy := True\<rparr>) = (Inr x, d) \<longrightarrow> (\<exists>s. r = Inr (Some x, s)))"
proof -
  obtain a d where a: "operation (c\<lparr>cv_busy := True\<rparr>) = (a, d)" by fastforce
  show ?thesis
  proof (cases a)
    case (Inr x)
    with assms(3) a have d: "cv_rest d" "P x d" by (auto simp: wp_def)
    obtain y w where y: "cv_stop E (cv_gap E d) = (y, w)" by fastforce
    note fin = finish_facts[OF cv_rest_sound[OF d(1)] _ refl, of E]
    show ?thesis
    proof (cases "cv_intent (cv_gap E d) = None")
      case True
      from fin[of False None] True d assms(2,4) a Inr show ?thesis by (auto simp: cv_run_def Let_def) blast+
    next
      case False
      from fin[of True y] False d assms(2,4) a Inr y show ?thesis by (auto simp: cv_run_def Let_def) blast+
    qed
  next
    case (Inl t)
    define x where "x = (case t of Halt k \<Rightarrow> cv_invalidate k d | Throw u \<Rightarrow> d)"
    have d: "sound x" "cv_intent x = None \<longrightarrow> cv_rest x" "t \<noteq> no_policy" "(\<exists>u. t = Throw u) \<or> cv_intent x \<noteq> None"
      using assms(3) a Inl sound_drift[OF drift_invalidate]
      by (auto simp: wp_def invalidated cv_rest_sound no_policy_def x_def split: cstop.splits)
    obtain y w where y: "cv_stop E (cv_gap E x) = (y, w)" by fastforce
    note fin = finish_facts[OF d(1,2) refl, of E]
    have run: "(r, z) = (if cv_intent (cv_gap E x) = None
          then (case t of Throw u \<Rightarrow> Inl u | Halt k \<Rightarrow> Inr (None, False), (cv_gap E x)\<lparr>cv_busy := False\<rparr>)
          else case y of Some e \<Rightarrow> (Inl e, w\<lparr>cv_busy := False\<rparr>)
             | None \<Rightarrow> (case t of Throw u \<Rightarrow> Inl u | Halt k \<Rightarrow> Inr (None, True), w\<lparr>cv_busy := False\<rparr>))"
      using a Inl assms(2,4) y by (cases t; cases y) (auto simp: cv_run_def Let_def x_def)
    show ?thesis
    proof (cases "cv_intent (cv_gap E x) = None")
      case True
      with drift_more(2)[OF drift_gap[of x E]] d(4) obtain u where "t = Throw u" by blast
      with fin[of False None] True d(3) a Inl run show ?thesis by simp
    next
      case False
      with fin[of True y] y have w: "cv_rest w" "cv_intent w = None" "y = None" "cv_stopped w" by simp_all
      from run[unfolded if_not_P[OF False] w(3)] w d(3) a Inl show ?thesis by (cases t) simp_all
    qed
  qed
qed

lemma result_state [simp]: "snd (cv_result r) = snd r"
  by (auto simp: cv_result_def split: prod.split sum.split)

lemma conv_run_rest:
  assumes "cv_rest c" "\<not> cv_busy c" "wp operation (\<lambda>v. cv_rest) halting (c\<lparr>cv_busy := True\<rparr>)"
  shows "cv_rest (snd (cv_run E operation c)) \<and> \<not> cv_busy (snd (cv_run E operation c)) \<and> fst (cv_run E operation c) \<noteq> Inl (ConvValue ''attribute'')"
proof -
  obtain r z where r: "cv_run E operation c = (r, z)" by fastforce
  from run_facts[OF assms(1,2) _ r, of "\<lambda>v d. True"] assms(3) r show ?thesis
    by (auto simp: no_policy_def split: sum.splits)
qed

lemma conv_cancel_rest:
  assumes "cv_rest c" "\<not> cv_busy c" "conversation_cancel E i c = (r, z)"
  shows "cv_rest z \<and> \<not> cv_busy z \<and> r \<noteq> Inl (ConvValue ''attribute'') \<and> (i \<noteq> CancelTurn \<longrightarrow> r = Inr None \<and> cv_lease z = None)"
proof (cases "cv_lease c = None")
  case True
  with assms show ?thesis by (auto simp: conversation_cancel_def)
next
  case False
  let ?v = "cv_invalidate (intent_code i) (cv_gap E c)"
  let ?d = "cv_gap E ?v"
  have d: "drift c ?d" by (rule drift_trans[OF drift_gap drift_trans[OF drift_invalidate drift_gap]])
  have rest: "cv_rest ?d" "\<not> cv_busy ?d" using cv_rest_drift[OF d assms(1)] assms(2) drift_fields(12)[OF d] by auto
  have i: "cv_intent ?d \<noteq> None" "i \<noteq> CancelTurn \<longrightarrow> final_intent (cv_intent ?d)"
    using drift_more(2,3)[OF drift_gap, of ?v E] invalidate_intent[of "intent_code i" "cv_gap E c"] by (cases i; simp)+
  obtain q y where q: "cv_run E (m_ret ()) ?d = (q, y)" by fastforce
  have "wp (m_ret ()) (\<lambda>v e. cv_rest e \<and> cv_intent e = cv_intent ?d) halting (?d\<lparr>cv_busy := True\<rparr>)" using rest by simp
  from run_facts[OF rest this q] i have f: "cv_rest y \<and> \<not> cv_busy y \<and> (case q of Inl t \<Rightarrow> t \<noteq> ConvValue ''attribute'' | Inr (v, s) \<Rightarrow>
      (\<forall>x. v = Some x \<longrightarrow> i \<noteq> CancelTurn \<longrightarrow> s \<and> cv_lease y = None))"
    by (auto simp: no_policy_def split: sum.splits)
  from run_facts[OF rest \<open>wp _ _ _ _\<close> q] have p: "\<exists>s. q = Inr (Some (), s)" by (simp add: m_ret_def)
  from assms(2,3) False q rest(2) f p show ?thesis
    by (auto simp: conversation_cancel_def cv_settle_def cv_result_def Let_def split: sum.splits if_splits)
qed

lemma exit_final:
  assumes "cv_rest c"
  shows "wp (exit_body E k) (\<lambda>v d. cv_rest d \<and> (v \<longrightarrow> final_intent (cv_intent d))) halting c"
proof (cases "cv_phase c \<in> set live_phases")
  case False
  with assms show ?thesis by (simp add: exit_body_def)
next
  case True
  show ?thesis unfolding exit_body_def
    apply (simp add: True)
    apply (rule wp_cv_rest_check[OF assms])
    subgoal for d
      using cv_rest_on[of d] True cv_rest_drift[OF drift_invalidate, of d] invalidate_intent(2)[of CodeEnded d]
      by (auto simp: drift_fields split: option.split)
    done
qed

lemma exit_rest:
  assumes "cv_rest c" "\<not> cv_busy c" "conversation_exit_key E k c = (r, z)"
  shows "cv_rest z \<and> \<not> cv_busy z \<and> r \<noteq> Inl (ConvValue ''attribute'') \<and> (r = Inr True \<longrightarrow> cv_lease z = None)"
proof (cases "text_in 128 k")
  case None
  with assms show ?thesis by (auto simp: conversation_exit_key_def)
next
  case (Some t)
  obtain q y where q: "cv_run E (exit_body E t) c = (q, y)" by fastforce
  have "wp (exit_body E t) (\<lambda>v d. cv_rest d \<and> (v \<longrightarrow> final_intent (cv_intent d))) halting (c\<lparr>cv_busy := True\<rparr>)"
    by (rule exit_final) (simp add: assms(1))
  from run_facts[OF assms(1,2) this q] q assms(3) Some show ?thesis
    by (auto simp: conversation_exit_key_def no_policy_def split: sum.splits)
qed

lemma polled_drift: "polled c v d \<Longrightarrow> drift d e \<Longrightarrow> polled c v (e\<lparr>cv_busy := b\<rparr>)"
  by (simp add: polled_def drift_fields split: option.splits)

lemma poll_result: "conversation_poll E c = (case cv_run E (poll_body E) c of
    (Inl e, d) \<Rightarrow> (Inl e, d) | (Inr (v, s), d) \<Rightarrow> (Inr (if s then None else Option.bind v (\<lambda>x. x)), d))"
  by (simp add: conversation_poll_def cv_result_def split: prod.split sum.split)

lemma conv_poll_rest:
  assumes "cv_rest c" "\<not> cv_busy c" "conversation_poll E c = (r, z)"
  shows "cv_rest z \<and> \<not> cv_busy z \<and> r \<noteq> Inl (ConvValue ''attribute'') \<and> (\<forall>x. r = Inr (Some x) \<longrightarrow> polled c (Some x) z)"
proof -
  obtain q y where q: "cv_run E (poll_body E) c = (q, y)" by fastforce
  have "wp (poll_body E) (\<lambda>v d. cv_rest d \<and> polled c v d) halting (c\<lparr>cv_busy := True\<rparr>)"
    using poll_sound[of "c\<lparr>cv_busy := True\<rparr>" E] assms(1) by (simp add: polled_def cong: option.case_cong)
  note f = run_facts[OF assms(1,2) this q]
  show ?thesis
  proof (cases q)
    case (Inl t)
    with f q assms(3) show ?thesis by (auto simp: poll_result no_policy_def)
  next
    case (Inr vs)
    obtain v s where vs: "vs = (v, s)" by fastforce
    have z: "y = z" "r = Inr (if s then None else Option.bind v (\<lambda>x. x))" using assms(3) q Inr vs by (simp_all add: poll_result)
    have "polled c (Some x) z" if "r = Inr (Some x)" for x
    proof -
      from that z(2) have "\<not> s" "v = Some (Some x)" by (auto split: if_splits Option.bind_splits)
      with f Inr vs z(1) obtain d e where "polled c (Some x) d" "drift d e" "z = e\<lparr>cv_busy := False\<rparr>" by auto
      then show ?thesis by (simp add: polled_drift)
    qed
    with f z show ?thesis by auto
  qed
qed

lemma do_rest:
  assumes "cv_rest c" "\<not> cv_busy c"
  shows "cv_rest (conversation_do E act c) \<and> \<not> cv_busy (conversation_do E act c)"
proof (cases act)
  case (CvEnter e)
  with assms conv_run_rest[OF assms enter_sound, of E E "the e"] show ?thesis
    by (cases e) (auto simp: conversation_enter_def)
next
  case (CvSubmit v)
  with assms conv_run_rest[OF assms submit_sound, of E E] show ?thesis
    by (cases "text_in 16384 v") (auto simp: conversation_submit_def)
next
  case (CvClarify q)
  with assms conv_run_rest[OF assms clarify_sound, of E E "the q"] show ?thesis
    by (cases q) (auto simp: conversation_clarify_def)
next
  case CvPoll
  with conv_poll_rest[OF assms] show ?thesis by (metis conversation_do.simps(4) prod.collapse)
next
  case (CvExit k)
  with exit_rest[OF assms] show ?thesis by (metis conversation_do.simps(5) prod.collapse)
next
  case (CvCancel i)
  with conv_cancel_rest[OF assms] show ?thesis by (metis conversation_do.simps(6) prod.collapse)
next
  case CvSettle
  with conv_run_rest[OF assms, of "m_ret ()" E] assms show ?thesis by (simp add: cv_settle_def)
next
  case (CvBetween i)
  with cv_rest_drift[OF drift_interfere assms(1)] drift_fields(12)[OF drift_interfere] assms(2) show ?thesis by simp
qed

lemma conv_init_rest:
  assumes "convo_init (Some w) True True = Inr c" "session_inv w"
  shows "cv_rest c \<and> \<not> cv_busy c"
  using assms by (auto simp: convo_init_def cv_rest_def sound_def leased_def fits_def live_phases_def)

lemma conversation_rest:
  assumes "convo_init (Some w) True True = Inr c" "session_inv w"
  shows "cv_rest (conversation_run E ops c) \<and> \<not> cv_busy (conversation_run E ops c)"
proof -
  have "cv_rest d \<and> \<not> cv_busy d \<Longrightarrow> cv_rest (fold (conversation_do E) ops d) \<and> \<not> cv_busy (fold (conversation_do E) ops d)" for d
    by (induction ops arbitrary: d) (simp_all add: do_rest)
  with conv_init_rest[OF assms] show ?thesis by (simp add: conversation_run_def)
qed

section \<open>Properties\<close>


text \<open>C23: A live conversation stays within the limits of its policy: the turns, the characters of the context, the history
  and the pending request together, at most one exchange per turn; and nothing of it is kept once it holds no lease.\<close>

theorem conversation_bounded:
  assumes "convo_init (Some w) True True = Inr c0" "session_inv w" "c = conversation_run E ops c0"
  shows "case cv_policy c of
      None \<Rightarrow> cv_lease c = None \<and> cv_snapshot c = None \<and> cv_history c = [] \<and> cv_request c = None
    | Some (s, y) \<Rightarrow> eligible s = None \<and> 0 \<le> cv_turn c \<and> cv_turn c \<le> max 0 (cl_turns (cp_limits y))
        \<and> int (length (cv_history c)) \<le> cv_turn c \<and> context_size c + pending_chars c \<le> cl_context_chars (cp_limits y)"
proof -
  have r: "cv_rest c" unfolding assms(3) using conversation_rest[OF assms(1,2)] by blast
  show ?thesis
  proof (cases "cv_snapshot c")
    case None
    with r show ?thesis by (auto simp: cv_rest_def sound_def cv_policy_def live_phases_def split: if_splits)
  next
    case (Some s)
    with r show ?thesis
      by (auto simp: cv_rest_def sound_def fits_def cv_policy_def split: option.splits if_splits)
  qed
qed

text \<open>C24: A poll publishes a response only for the pending request: its token is that of the turn, the exchange is added
  to the history, nothing is pending any more, and the job is cleaned up.\<close>

theorem conversation_publishes:
  assumes "convo_init (Some w) True True = Inr c0" "session_inv w" "conversation_poll E (conversation_run E ops c0) = (Inr (Some r), d)"
  shows "\<exists>q. cv_request (conversation_run E ops c0) = Some q \<and> re_token r = cr_token q
    \<and> cv_history d = cv_history (conversation_run E ops c0)
        @ [\<lparr>ex_token = cr_token q, ex_text = cr_text q, ex_response = re_text r, ex_resolved = cr_resolved q\<rparr>]
    \<and> cv_request d = None \<and> \<not> cv_job d \<and> \<not> cv_out d"
  using conv_poll_rest[OF _ _ assms(3)] conversation_rest[OF assms(1,2), of E ops]
  by (auto simp: polled_def split: option.splits)

text \<open>\<open>end\<close> and \<open>handoff\<close> end a conversation at once, whatever the callbacks answer, and so does a matching exit key:
  no exception, no lease, no job, no history.\<close>

theorem conversation_ends:
  assumes "convo_init (Some w) True True = Inr c0" "session_inv w" "c = conversation_run E ops c0"
    "i \<noteq> CancelTurn \<and> conversation_cancel E i c = (r, d) \<or> conversation_exit_key E k c = (Inr True, d) \<and> r = Inr None"
  shows "r = Inr None \<and> cv_lease d = None \<and> \<not> cv_job d \<and> cv_history d = [] \<and> cv_snapshot d = None
    \<and> (cv_phase d = DInactive \<or> cv_phase d = DFaulted \<and> so_state (cv_owner d) = Faulted)"
proof -
  have c: "cv_rest c" "\<not> cv_busy c" unfolding assms(3) using conversation_rest[OF assms(1,2)] by blast+
  from assms(4) have d: "cv_rest d \<and> r = Inr None \<and> cv_lease d = None" using conv_cancel_rest[OF c] exit_rest[OF c] by auto
  then have "cv_phase d \<notin> set live_phases" "cv_phase d \<noteq> DStopping" by (auto simp: cv_rest_def sound_def)
  then have "cv_phase d = DInactive \<or> cv_phase d = DFaulted" by (cases "cv_phase d") (simp_all add: live_phases_def)
  with d show ?thesis by (auto simp: cv_rest_def sound_def owner_faulted_def live_phases_def)
qed

section \<open>Witnesses\<close>

definition sample_conv_snapshot :: conv_snapshot where
  "sample_conv_snapshot = \<lparr>cs_profile = \<lparr>pro_version = 1, pro_profile_id = ''p'', pro_policy_id = ''q'', pro_enabled = True, pro_voice_enabled = True\<rparr>,
     cs_snapshot_revision = 1,
     cs_policy = Some \<lparr>cp_profile_id = ''p'', cp_policy_id = ''q'', cp_revision = 1, cp_entries = [EntryKeyboard], cp_exit_phrase = [98],
       cp_exit_key = [99], cp_limits = \<lparr>cl_turns = 2, cl_text_chars = 8, cl_context_chars = 16, cl_context_items = 1, cl_polls = 4\<rparr>\<rparr>,
     cs_setup = \<lparr>su_revision = 1, su_occupied = [], su_reserved = []\<rparr>,
     cs_context = \<lparr>cx_revision = 1, cx_state = Empty, cx_items = [], cx_conflict_id = None\<rparr>\<rparr>"

definition sample_turn_token :: turn_token where
  "sample_turn_token = \<lparr>tt_session_id = ''s:1'', tt_turn = 1, tt_generation = 1, tt_profile_id = ''p'', tt_profile_revision = 1,
     tt_policy_revision = 1, tt_context_revision = 1\<rparr>"

definition sample_convo_moment :: cmoment where
  "sample_convo_moment = \<lparr>cm_snapshot = Gives sample_conv_snapshot, cm_factory = FactoryJob, cm_ok = True,
     cm_poll = JobResponse \<lparr>re_token = sample_turn_token, re_text = [101]\<rparr>, cm_proven = Gives True, cm_between = []\<rparr>"

definition sample_convo :: convo where
  "sample_convo = (case convo_init (Some (session_init ''s'')) True True of Inr c \<Rightarrow> c | Inl e \<Rightarrow> undefined)"

definition sample_talk :: "cv_op list" where
  "sample_talk = [CvEnter (Some EntryKeyboard), CvSubmit (Some [97])]"

lemma sample_convo_init: "convo_init (Some (session_init ''s'')) True True = Inr sample_convo" "session_inv (session_init ''s'')"
  by (simp_all add: sample_convo_def convo_init_def session_inv_def session_init_def)


theorem conversation_bounded_witness:
  "cv_turn (conversation_run (\<lambda>n. sample_convo_moment) sample_talk sample_convo) \<le> 2"
proof -
  have "map_option (\<lambda>(s, y). cl_turns (cp_limits y)) (cv_policy (conversation_run (\<lambda>n. sample_convo_moment) sample_talk sample_convo)) = Some 2"
    by code_simp
  with conversation_bounded[OF sample_convo_init refl, of "\<lambda>n. sample_convo_moment" sample_talk] show ?thesis
    by (auto split: option.splits)
qed

theorem conversation_publishes_witness:
  "\<exists>d. conversation_poll (\<lambda>n. sample_convo_moment) (conversation_run (\<lambda>n. sample_convo_moment) sample_talk sample_convo)
      = (Inr (Some \<lparr>re_token = sample_turn_token, re_text = [101]\<rparr>), d) \<and> \<not> cv_job d"
proof -
  have "fst (conversation_poll (\<lambda>n. sample_convo_moment) (conversation_run (\<lambda>n. sample_convo_moment) sample_talk sample_convo))
      = Inr (Some \<lparr>re_token = sample_turn_token, re_text = [101]\<rparr>)" by code_simp
  then obtain d where d: "conversation_poll (\<lambda>n. sample_convo_moment) (conversation_run (\<lambda>n. sample_convo_moment) sample_talk sample_convo)
      = (Inr (Some \<lparr>re_token = sample_turn_token, re_text = [101]\<rparr>), d)" by (metis prod.collapse)
  from conversation_publishes[OF sample_convo_init d] d show ?thesis by blast
qed

theorem conversation_ends_witness:
  "cv_job (conversation_run (\<lambda>n. sample_convo_moment) sample_talk sample_convo)
    \<and> cv_lease (snd (conversation_cancel (\<lambda>n. sample_convo_moment) EndAll (conversation_run (\<lambda>n. sample_convo_moment) sample_talk sample_convo))) = None"
proof -
  have j: "cv_job (conversation_run (\<lambda>n. sample_convo_moment) sample_talk sample_convo)" by code_simp
  obtain r d where d: "conversation_cancel (\<lambda>n. sample_convo_moment) EndAll (conversation_run (\<lambda>n. sample_convo_moment) sample_talk sample_convo) = (r, d)"
    by fastforce
  with conversation_ends[OF sample_convo_init refl, of EndAll "\<lambda>n. sample_convo_moment" sample_talk r d] j show ?thesis by simp
qed

end
