(* ===== verification/Tts_Records.thy ===== *)
theory Tts_Records
  imports Conversation_Records Provider_Configuration
begin

text \<open>
  The closed values of speech output, \<open>src/runtime/voice/tts_records.py\<close>, and \<open>admit\<close>, the pure crossing from an
  utterance to a request the gateway can carry. As in the conversation, a constructor is a function to an option,
  \<open>None\<close> when it raises, and an argument of another class is \<open>None\<close>. Spoken text is a \<open>string\<close>, as on the wire. The
  active configuration is its revision with its candidate, \<open>None\<close> when it is disabled.
\<close>

section \<open>Codes\<close>

datatype tts_event = EventResponse | EventStatus

datatype tts_phase = TtsIdle | Synthesizing | Playing | TtsStopping | TtsFaulted

datatype tcode =
    TcIdle | TcStarted | TcPlaying | TcPlayed | TcDegraded | TcMuted | TcSilent | TcDenied | TcStale | TcUnavailable
  | TcInvalidAudio | TcLimit | TcCanceled | TcBusy | TcReplay | TcCleanup

definition tts_id :: "string option \<Rightarrow> string option" where
  "tts_id v = Option.bind v (\<lambda>s. if id_pattern s then Some s else None)"

definition max53 :: int where
  "max53 = 9007199254740991"

section \<open>Policy\<close>

datatype mix_intent = Unchanged | Duck int | Pause

definition duck_init :: "pyv \<Rightarrow> mix_intent option" where
  "duck_init gain = (case gain of VInt g \<Rightarrow> if 0 \<le> g \<and> g < 1000 then Some (Duck g) else None | _ \<Rightarrow> None)"

record route_voice =
  rv_provider_id :: string
  rv_model_version :: string
  rv_voice :: string

definition route_voice_init :: "string option \<Rightarrow> string option \<Rightarrow> string option \<Rightarrow> route_voice option" where
  "route_voice_init provider model voice = do {
     p \<leftarrow> tts_id provider; m \<leftarrow> tts_id model; v \<leftarrow> tts_id voice;
     Some \<lparr>rv_provider_id = p, rv_model_version = m, rv_voice = v\<rparr> }"

datatype audio_rule = Spoken tts_event string mix_intent | Silent tts_event

fun rule_event :: "audio_rule \<Rightarrow> tts_event" where
  "rule_event (Spoken e v x) = e"
| "rule_event (Silent e) = e"

definition spoken_init :: "tts_event option \<Rightarrow> string option \<Rightarrow> mix_intent option \<Rightarrow> audio_rule option" where
  "spoken_init event voice mix = do { e \<leftarrow> event; x \<leftarrow> mix; v \<leftarrow> tts_id voice; Some (Spoken e v x) }"

definition silent_init :: "tts_event option \<Rightarrow> audio_rule option" where
  "silent_init event = map_option Silent event"

record tts_limits =
  tl_text_chars :: int
  tl_synthesis_ms :: int
  tl_synthesis_polls :: int
  tl_playback_polls :: int

definition tts_limits_init :: "pyv \<Rightarrow> pyv \<Rightarrow> pyv \<Rightarrow> pyv \<Rightarrow> tts_limits option" where
  "tts_limits_init text_chars synthesis_ms synthesis_polls playback_polls = do {
     a \<leftarrow> number_in 16384 text_chars; b \<leftarrow> number_in 30000 synthesis_ms; c \<leftarrow> number_in 1024 synthesis_polls;
     d \<leftarrow> number_in 1024 playback_polls;
     Some \<lparr>tl_text_chars = a, tl_synthesis_ms = b, tl_synthesis_polls = c, tl_playback_polls = d\<rparr> }"

record audio_policy =
  ap_profile_id :: string
  ap_policy_id :: string
  ap_revision :: int
  ap_configuration_revision :: int
  ap_rules :: "audio_rule list"
  ap_voices :: "route_voice list"
  ap_limits :: tts_limits

definition audio_policy_init ::
  "string option \<Rightarrow> string option \<Rightarrow> pyv \<Rightarrow> pyv \<Rightarrow> audio_rule option list option \<Rightarrow> route_voice option list option \<Rightarrow> tts_limits option
    \<Rightarrow> audio_policy option" where
  "audio_policy_init profile_id policy_id revision configuration_revision rules voices limits = do {
     p \<leftarrow> tts_id profile_id; q \<leftarrow> tts_id policy_id; r \<leftarrow> number_in max53 revision; k \<leftarrow> number_in max53 configuration_revision;
     l \<leftarrow> limits; rs \<leftarrow> Option.bind rules those; vs \<leftarrow> Option.bind voices those;
     require (length rs \<le> 2 \<and> distinct (map rule_event rs) \<and> length vs \<le> 4 \<and> distinct vs)
       (Some \<lparr>ap_profile_id = p, ap_policy_id = q, ap_revision = r, ap_configuration_revision = k, ap_rules = rs,
         ap_voices = vs, ap_limits = l\<rparr>) }"

section \<open>What is spoken\<close>

record audio_snapshot =
  as_conversation :: conv_snapshot
  as_current_turn :: "turn_token option"
  as_policy :: "audio_policy option"
  as_muted :: bool

record utterance =
  ut_token :: turn_token
  ut_event :: tts_event
  ut_text :: string

definition points :: "string \<Rightarrow> codepoints" where
  "points s = map (\<lambda>c. int (code c)) s"

definition utterance_init :: "turn_token option \<Rightarrow> tts_event option \<Rightarrow> string option \<Rightarrow> utterance option" where
  "utterance_init token event text = do {
     k \<leftarrow> token; e \<leftarrow> event; t \<leftarrow> text;
     require (text_ok 16384 (points t)) (Some \<lparr>ut_token = k, ut_event = e, ut_text = t\<rparr>) }"

record completion =
  cpl_code :: tcode
  cpl_provider_id :: "string option"
  cpl_model_version :: "string option"
  cpl_failures :: "failure list"

definition failure_named :: "failure \<Rightarrow> bool" where
  "failure_named f \<longleftrightarrow> id_pattern (fl_provider_id f) \<and> id_pattern (fl_model_version f) \<and> gateway_error (fl_code f) = fl_code f"

declare option.pred_inject [code]

definition completion_init :: "tcode \<Rightarrow> string option \<Rightarrow> string option \<Rightarrow> failure list \<Rightarrow> completion option" where
  "completion_init c provider model failures =
    require ((provider = None) = (model = None) \<and> pred_option id_pattern provider \<and> pred_option id_pattern model
        \<and> length failures \<le> 3 \<and> list_all failure_named failures)
      (Some \<lparr>cpl_code = c, cpl_provider_id = provider, cpl_model_version = model, cpl_failures = failures\<rparr>)"

datatype tts_admission = TtsDenied tcode | TtsReady gateway_request mix_intent

definition ready_init :: "codec \<Rightarrow> gateway_request \<Rightarrow> mix_intent \<Rightarrow> tts_admission option" where
  "ready_init cd q x =
    (case parsed_request cd (Some q) of
       Inl e \<Rightarrow> None
     | Inr p \<Rightarrow> (case gq_payload p of SpeechInput t v \<Rightarrow> Some (TtsReady p x) | _ \<Rightarrow> None))"

section \<open>Admission\<close>

fun event_value :: "tts_event \<Rightarrow> string" where
  "event_value EventResponse = ''response''"
| "event_value EventStatus = ''status''"

definition token_dict :: "turn_token \<Rightarrow> pyv" where
  "token_dict t = VDict [(''session_id'', VStr (tt_session_id t)), (''turn'', VInt (tt_turn t)),
     (''generation'', VInt (tt_generation t)), (''profile_id'', VStr (tt_profile_id t)),
     (''profile_revision'', VInt (tt_profile_revision t)), (''policy_revision'', VInt (tt_policy_revision t)),
     (''context_revision'', VInt (tt_context_revision t))]"

definition tts_request_id :: "(pyv \<Rightarrow> string) \<Rightarrow> turn_token \<Rightarrow> tts_event \<Rightarrow> string" where
  "tts_request_id sha t e = ''tts-'' @ sha (VList [VInt 1, token_dict t, VStr (event_value e)])"

text \<open>Whether some voice of a route is not among the voices of the policy; \<open>None\<close> when a constructor raises first.\<close>

fun unvoiced :: "route_voice list \<Rightarrow> (string \<times> string \<times> string) list \<Rightarrow> bool option" where
  "unvoiced vs [] = Some False"
| "unvoiced vs ((p, m, v) # rs) =
    (case route_voice_init (Some p) (Some m) (Some v) of
       None \<Rightarrow> None
     | Some r \<Rightarrow> if r \<notin> set vs then Some True else unvoiced vs rs)"

definition rule_voices :: "audio_rule list \<Rightarrow> string list" where
  "rule_voices rs = concat (map (\<lambda>r. case r of Spoken e v x \<Rightarrow> [v] | Silent e \<Rightarrow> []) rs)"

definition voiced_routes :: "audio_policy \<Rightarrow> config_candidate \<Rightarrow> (string \<times> string \<times> string) list" where
  "voiced_routes p c = concat (map (\<lambda>v. map (\<lambda>r. (prv_provider_id r, prv_model_version r, v))
     (route_providers (cn_host c) (cn_local c))) (rule_voices (ap_rules p)))"

text \<open>The checks of \<open>admit\<close> up to the configuration.\<close>

definition speakable ::
  "utterance \<Rightarrow> audio_snapshot \<Rightarrow> (int \<times> config_candidate) option \<Rightarrow> tcode + audio_policy \<times> string \<times> mix_intent \<times> config_candidate" where
  "speakable u s active =
    (if as_muted s then Inl TcMuted
     else let c = as_conversation s; f = cs_profile c; t = ut_token u
     in (case (as_policy s, cs_policy c) of
       (Some p, Some y) \<Rightarrow>
         if \<not> pro_enabled f \<or> \<not> pro_voice_enabled f \<or> ap_profile_id p \<noteq> pro_profile_id f \<or> ap_policy_id p \<noteq> pro_policy_id f
            \<or> cp_profile_id y \<noteq> pro_profile_id f \<or> cp_policy_id y \<noteq> pro_policy_id f then Inl TcDenied
         else if cx_state (cs_context c) = CtxUnavailable then Inl TcUnavailable
         else if Some t \<noteq> as_current_turn s \<or> tt_profile_id t \<noteq> pro_profile_id f
            \<or> tt_profile_revision t \<noteq> cs_snapshot_revision c \<or> tt_policy_revision t \<noteq> cp_revision y
            \<or> tt_context_revision t \<noteq> cx_revision (cs_context c) then Inl TcStale
         else (case find (\<lambda>r. rule_event r = ut_event u) (ap_rules p) of
           Some (Spoken e v x) \<Rightarrow>
             (case active of
                None \<Rightarrow> Inl TcUnavailable
              | Some (r, n) \<Rightarrow> if ap_configuration_revision p \<noteq> r then Inl TcDenied else Inr (p, v, x, n))
         | _ \<Rightarrow> Inl TcSilent)
     | _ \<Rightarrow> Inl TcDenied))"

definition speech_request ::
  "(pyv \<Rightarrow> string) \<Rightarrow> utterance \<Rightarrow> audio_policy \<Rightarrow> string \<Rightarrow> config_candidate \<Rightarrow> int \<Rightarrow> gateway_request" where
  "speech_request sha u p v n catalog =
    \<lparr>gq_request_id = tts_request_id sha (ut_token u) (ut_event u), gq_provider_id = prv_provider_id (ho_provider (cn_host n)),
     gq_model_version = prv_model_version (ho_provider (cn_host n)), gq_catalog_version = catalog,
     gq_budget_ms = tl_synthesis_ms (ap_limits p), gq_payload = SpeechInput (ut_text u) v\<rparr>"

text \<open>\<open>admit\<close>; \<open>None\<close> when it raises.\<close>

definition tts_admit ::
  "(pyv \<Rightarrow> string) \<Rightarrow> codec \<Rightarrow> utterance \<Rightarrow> audio_snapshot \<Rightarrow> (int \<times> config_candidate) option \<Rightarrow> int \<Rightarrow> tts_admission option" where
  "tts_admit sha cd u s active catalog =
    (case speakable u s active of
       Inl k \<Rightarrow> Some (TtsDenied k)
     | Inr (p, v, x, n) \<Rightarrow>
         (case unvoiced (ap_voices p) (voiced_routes p n) of
            None \<Rightarrow> None
          | Some True \<Rightarrow> Some (TtsDenied TcDenied)
          | Some False \<Rightarrow>
              if int (length (ut_text u)) > tl_text_chars (ap_limits p) then Some (TtsDenied TcLimit)
              else (case ready_init cd (speech_request sha u p v n catalog) x of
                      None \<Rightarrow> Some (TtsDenied TcLimit)
                    | Some r \<Rightarrow> Some r)))"

end
