(* ===== verification/Tts_Output.thy ===== *)
theory Tts_Output
  imports Tts_Records Provider_Safety Voice_Session Stop_Monad
begin

text \<open>
  Speech output, \<open>TtsOutput\<close> of \<open>src/runtime/voice/tts.py\<close>, over the models of the session owner, of the gateway client
  and of the configuration that owns the gateway. The injected callbacks answer through a stream of moments; a moment
  also lists what came between two regions under a lock: invalidations by \<open>cancel\<close>, calls of other participants to
  the session owner, and operations on the configuration and the gateway. Fields no code reads: \<open>to_held\<close> counts the
  players and mixes that were asked for and not proven gone, \<open>to_effects\<close> records what was requested, delivered, mixed and
  played, and whether the call was then valid and its turn accepted.
\<close>

section \<open>State and environment\<close>

record tts_call =
  tc_snapshot :: audio_snapshot
  tc_request :: gateway_request
  tc_mix_intent :: mix_intent
  tc_epoch :: nat
  tc_gateway_owned :: bool
  tc_synthesis_clean :: bool
  tc_unknown :: bool
  tc_player :: bool
  tc_mix :: bool
  tc_polls :: int
  tc_provider_id :: "string option"
  tc_model_version :: "string option"
  tc_failures :: "failure list"
  tc_success :: tcode

datatype speech_effect =
    Requested gateway_request
  | Delivered gateway_request "byte list"
  | Mixed gateway_request mix_intent bool
  | Played gateway_request "byte list" bool

record tts =
  to_owner :: session_owner
  to_config :: config
  to_gateway :: gclient
  to_catalog :: int
  to_epoch :: nat
  to_busy :: bool
  to_fault :: bool
  to_call :: "tts_call option"
  to_terminal :: "completion option"
  to_phase :: tts_phase
  to_code :: tcode
  to_time :: nat
  to_held :: nat
  to_effects :: "speech_effect list"

text \<open>\<open>owner\<close> and the configured gateway are \<open>None\<close> when they are of another class.\<close>

definition tts_init :: "session_owner option \<Rightarrow> (config \<times> gclient) option \<Rightarrow> pyv \<Rightarrow> bool \<Rightarrow> string + tts" where
  "tts_init owner binding catalog_version all_callable =
    (case (owner, binding) of
       (Some w, Some (k, g)) \<Rightarrow>
         if \<not> all_callable then Inl ''tts.invalid-binding''
         else (case catalog_revision catalog_version of
           Inl e \<Rightarrow> Inl e
         | Inr v \<Rightarrow> Inr \<lparr>to_owner = w, to_config = k, to_gateway = g, to_catalog = v, to_epoch = 0, to_busy = False, to_fault = False,
             to_call = None, to_terminal = None, to_phase = TtsIdle, to_code = TcIdle, to_time = 0, to_held = 0, to_effects = []\<rparr>)
     | _ \<Rightarrow> Inl ''tts.invalid-binding'')"

definition tts_notice :: "tts \<Rightarrow> tts_phase \<times> tcode" where
  "tts_notice t = (to_phase t, to_code t)"

definition tts_cleanup_proven :: "tts \<Rightarrow> bool" where
  "tts_cleanup_proven t \<longleftrightarrow> to_call t = None \<and> \<not> to_busy t \<and> \<not> to_fault t"

datatype maker_reply = MakerRaises | MakerNone | MakerOther | MakerHandle

datatype playback_reply = PlaybackRaises | PlaybackPending | PlaybackComplete | PlaybackOther

datatype tts_interference = TtsInvalidate | TtsParticipant session_call | TtsSystem cop

record tmoment =
  tm_snapshot :: "audio_snapshot reply"
  tm_maker :: maker_reply
  tm_ok :: bool
  tm_playback :: playback_reply
  tm_proven :: "bool reply"
  tm_between :: "tts_interference list"

record tts_world =
  tw_sha :: "pyv \<Rightarrow> string"
  tw_codec :: codec
  tw_gateway :: genvironment
  tw_moment :: "nat \<Rightarrow> tmoment"

definition tts_invalidate :: "tts \<Rightarrow> tts" where
  "tts_invalidate t = t\<lparr>to_epoch := Suc (to_epoch t)\<rparr>"

fun tts_interfere :: "tts_world \<Rightarrow> tts_interference \<Rightarrow> tts \<Rightarrow> tts" where
  "tts_interfere W TtsInvalidate t = tts_invalidate t"
| "tts_interfere W (TtsParticipant call) t = t\<lparr>to_owner := session_step call (to_owner t)\<rparr>"
| "tts_interfere W (TtsSystem act) t =
     (case config_do (tw_sha W) (tw_codec W) (tw_gateway W) act (to_config t, to_gateway t) of
        (k, g) \<Rightarrow> t\<lparr>to_config := k, to_gateway := g\<rparr>)"

definition tts_tick :: "tts_world \<Rightarrow> tts \<Rightarrow> tmoment \<times> tts" where
  "tts_tick W t = (let m = tw_moment W (to_time t)
     in (m, fold (tts_interfere W) (tm_between m) (t\<lparr>to_time := Suc (to_time t)\<rparr>)))"

definition tts_gap :: "tts_world \<Rightarrow> tts \<Rightarrow> tts" where
  "tts_gap W t = snd (tts_tick W t)"

section \<open>Checks\<close>

text \<open>A \<open>_Stop\<close> with its code, or any other exception.\<close>

datatype tstop = TtsStop tcode | TtsThrow

type_synonym 'a tact = "(tts, tstop, 'a) act"

definition gateway_tcode :: "string \<Rightarrow> tcode" where
  "gateway_tcode k =
    (if k = ''replay'' then TcReplay else if k = ''busy'' then TcBusy else if k = ''cleanup'' then TcCleanup
     else if k \<in> {''exhausted'', ''timeout''} then TcLimit else if k = ''invalid_response'' then TcInvalidAudio else TcUnavailable)"

definition the_call :: "(tts_call \<Rightarrow> 'a tact) \<Rightarrow> 'a tact" where
  "the_call f = m_read (\<lambda>t. case to_call t of None \<Rightarrow> m_raise TtsThrow | Some c \<Rightarrow> f c)"

definition set_call :: "(tts_call \<Rightarrow> tts_call) \<Rightarrow> unit tact" where
  "set_call f = m_set (\<lambda>t. t\<lparr>to_call := map_option f (to_call t)\<rparr>)"

definition log_effect :: "speech_effect \<Rightarrow> unit tact" where
  "log_effect e = m_set (\<lambda>t. t\<lparr>to_effects := to_effects t @ [e]\<rparr>)"

definition tts_sample :: "tts_world \<Rightarrow> audio_snapshot tact" where
  "tts_sample W t =
    (case tts_tick W t of (m, t) \<Rightarrow>
       (case tm_snapshot m of Gives s \<Rightarrow> Inr s | Other \<Rightarrow> Inl (TtsStop TcUnavailable) | Raises \<Rightarrow> Inl TtsThrow, t))"

definition decimal :: "string \<Rightarrow> nat option" where
  "decimal s = (if s \<noteq> [] \<and> list_all is_digit s then Some (foldl (\<lambda>n c. 10 * n + (code c - 48)) 0 s) else None)"

definition belongs :: "session_owner \<Rightarrow> turn_token \<Rightarrow> bool" where
  "belongs w k =
    (let prefix = so_session_id w @ '':''
     in take (length prefix) (tt_session_id k) = prefix
        \<and> (case decimal (drop (length prefix) (tt_session_id k)) of
             None \<Rightarrow> False
           | Some n \<Rightarrow> 0 < n \<and> int n \<le> tt_generation k \<and> session_accepts (VInt (tt_generation k)) w))"

text \<open>\<open>Configuration.state\<close>, which a transaction of the gateway guards.\<close>

definition configuration_state :: "config \<Rightarrow> gclient \<Rightarrow> (string + config_state)" where
  "configuration_state k g = fst (transaction (inside (\<lambda>k. (Inr (cg_state k), k))) k g)"

definition tts_state :: "tts_world \<Rightarrow> (int \<times> config_candidate) option tact" where
  "tts_state W t =
    (case configuration_state (to_config t) (to_gateway t) of
       Inl e \<Rightarrow> (Inl TtsThrow, t)
     | Inr st \<Rightarrow> (Inr (case st of Active r i \<Rightarrow> Some (r, cg_objects (to_config t) ! i) | Disabled r p \<Rightarrow> None), tts_gap W t))"

text \<open>The region of \<open>_check\<close> under the gate.\<close>

definition tts_current :: "audio_snapshot \<Rightarrow> (int \<times> config_candidate) option \<Rightarrow> tts_call \<Rightarrow> tts \<Rightarrow> tstop option" where
  "tts_current current active c t =
    (if tc_epoch c \<noteq> to_epoch t then Some (TtsStop TcCanceled)
     else if current \<noteq> tc_snapshot c then Some (TtsStop TcStale)
     else (case as_current_turn current of
       None \<Rightarrow> Some TtsThrow
     | Some k \<Rightarrow>
         if \<not> belongs (to_owner t) k then Some (TtsStop TcStale)
         else (case (active, as_policy (tc_snapshot c)) of
           (None, _) \<Rightarrow> Some (TtsStop TcStale)
         | (_, None) \<Rightarrow> Some TtsThrow
         | (Some (r, n), Some p) \<Rightarrow> if r \<noteq> ap_configuration_revision p then Some (TtsStop TcStale) else None)))"

definition tts_check :: "tts_world \<Rightarrow> unit tact" where
  "tts_check W = m_bind (tts_sample W) (\<lambda>current. m_bind (tts_state W) (\<lambda>active. the_call (\<lambda>c. m_read (\<lambda>t.
     case tts_current current active c t of None \<Rightarrow> m_ret () | Some e \<Rightarrow> m_raise e))))"

definition call_live :: "tts_call \<Rightarrow> tts \<Rightarrow> bool" where
  "call_live c t \<longleftrightarrow> tc_epoch c = to_epoch t
     \<and> (case as_current_turn (tc_snapshot c) of None \<Rightarrow> False | Some k \<Rightarrow> belongs (to_owner t) k)"

section \<open>Retiring a call\<close>

definition gateway_failures :: "gateway_result option \<Rightarrow> failure list option" where
  "gateway_failures r = (case r of Some (Failed fs) \<Rightarrow> Some fs | _ \<Rightarrow> None)"

text \<open>The part of \<open>_cleanup\<close> that ends a request the gateway still owns.\<close>

definition tts_cancel_gateway :: "tts_world \<Rightarrow> tts_call \<Rightarrow> tts \<Rightarrow> bool \<times> tts_call \<times> tts" where
  "tts_cancel_gateway W c t =
    (if \<not> tc_gateway_owned c then (True, c, t)
     else let t = tts_gap W (t\<lparr>to_gateway := gateway_cancel (tw_codec W) (tw_gateway W) (to_gateway t)\<rparr>)
     in (case gateway_poll (tw_codec W) (tw_gateway W) (to_gateway t) of (r, g) \<Rightarrow>
           let t = tts_gap W (t\<lparr>to_gateway := g\<rparr>)
           in (client_cleanup_proven (to_gateway t),
               c\<lparr>tc_failures := (case gateway_failures r of None \<Rightarrow> tc_failures c | Some fs \<Rightarrow> fs), tc_gateway_owned := False\<rparr>, t)))"

text \<open>\<open>cancel\<close> of a player or \<open>restore\<close> of a mix.\<close>

definition tts_drop :: "tts_world \<Rightarrow> bool \<Rightarrow> tts \<Rightarrow> bool \<times> tts" where
  "tts_drop W present t =
    (if \<not> present then (True, t)
     else case tts_tick W t of (m, t) \<Rightarrow>
       (if tm_proven m = Gives True then (True, t\<lparr>to_held := to_held t - 1\<rparr>) else (False, t)))"

definition tts_cleanup :: "tts_world \<Rightarrow> tts_call \<Rightarrow> tts \<Rightarrow> bool \<times> tts_call \<times> tts" where
  "tts_cleanup W c t =
    (case tts_cancel_gateway W c t of (proven, c, t) \<Rightarrow>
       (case tts_drop W (tc_player c) t of (stopped, t) \<Rightarrow>
          (case tts_drop W (tc_mix c) t of (restored, t) \<Rightarrow>
             (\<not> tc_unknown c \<and> tc_synthesis_clean c \<and> proven \<and> stopped \<and> restored,
              c\<lparr>tc_player := False, tc_mix := False\<rparr>, t))))"

definition call_generation :: "tts_call \<Rightarrow> int option" where
  "call_generation c = map_option tt_generation (as_current_turn (tc_snapshot c))"

text \<open>The region of \<open>_retire\<close> under the gate.\<close>

definition tts_conclude :: "bool \<Rightarrow> int \<Rightarrow> completion \<Rightarrow> tts_call \<Rightarrow> tts \<Rightarrow> tts" where
  "tts_conclude clean generation r c t =
    (let r = (if clean \<and> tc_epoch c \<noteq> to_epoch t then r\<lparr>cpl_code := TcCanceled\<rparr>
              else if clean \<and> \<not> session_accepts (VInt generation) (to_owner t) then r\<lparr>cpl_code := TcStale\<rparr> else r)
     in t\<lparr>to_terminal := Some r, to_call := None, to_phase := (if to_fault t then TtsFaulted else TtsIdle), to_code := cpl_code r\<rparr>)"

definition tts_retire :: "tts_world \<Rightarrow> tcode \<Rightarrow> unit tact" where
  "tts_retire W k = the_call (\<lambda>c t.
    (case tts_cleanup W c (t\<lparr>to_phase := TtsStopping\<rparr>) of (clean, c, t) \<Rightarrow>
       (case tts_check W (t\<lparr>to_call := Some c\<rparr>) of (r, t) \<Rightarrow>
          let k = (case r of Inr u \<Rightarrow> k | Inl (TtsStop s) \<Rightarrow> s | Inl TtsThrow \<Rightarrow> TcUnavailable);
              k = (if clean then k else TcCleanup);
              t = (if clean then t else t\<lparr>to_fault := True\<rparr>)
          in (case call_generation c of
                None \<Rightarrow> (Inl TtsThrow, t)
              | Some g \<Rightarrow>
                  (case (if clean then (None, to_owner t) else session_release (VInt g) (VBool False) (to_owner t)) of (e, w) \<Rightarrow>
                     if e = Some InvalidGeneration then (Inl TtsThrow, t)
                     else let t = tts_gap W (t\<lparr>to_owner := w\<rparr>)
                     in (case completion_init k (tc_provider_id c) (tc_model_version c) (tc_failures c) of
                           None \<Rightarrow> (Inl TtsThrow, t)
                         | Some r \<Rightarrow> (Inr (), tts_conclude clean g r c t)))))))"

definition stop_or_notice :: "tts_world \<Rightarrow> tcode \<Rightarrow> unit tact" where
  "stop_or_notice W k = m_read (\<lambda>t. if to_call t \<noteq> None then tts_retire W k else m_set (\<lambda>t. t\<lparr>to_code := k\<rparr>))"

text \<open>\<open>_run\<close>; \<open>None\<close> when an exception escapes.\<close>

definition tts_run :: "tts_world \<Rightarrow> 'a \<Rightarrow> 'a tact \<Rightarrow> tts \<Rightarrow> 'a option \<times> tts" where
  "tts_run W refused operation t =
    (if to_busy t then (Some refused, t)
     else case operation (t\<lparr>to_busy := True\<rparr>) of
       (Inr x, t) \<Rightarrow> (Some x, t\<lparr>to_busy := False\<rparr>)
     | (Inl e, t) \<Rightarrow>
         (case stop_or_notice W (case e of TtsStop k \<Rightarrow> k | TtsThrow \<Rightarrow> TcUnavailable) t of
            (r, t) \<Rightarrow> (case r of Inr u \<Rightarrow> Some refused | Inl s \<Rightarrow> None, t\<lparr>to_busy := False\<rparr>)))"

section \<open>Starting\<close>

definition request_speech :: "tts_world \<Rightarrow> gateway_request \<Rightarrow> string option tact" where
  "request_speech W q t =
    (case gateway_start (tw_codec W) (tw_gateway W) (Some q) (to_gateway t) of
       (e, g) \<Rightarrow> (Inr e, tts_gap W (t\<lparr>to_gateway := g, to_effects := to_effects t @ (if e = None then [Requested q] else [])\<rparr>)))"

definition new_call :: "audio_snapshot \<Rightarrow> gateway_request \<Rightarrow> mix_intent \<Rightarrow> nat \<Rightarrow> tts_call" where
  "new_call s q x epoch = \<lparr>tc_snapshot = s, tc_request = q, tc_mix_intent = x, tc_epoch = epoch, tc_gateway_owned = False,
     tc_synthesis_clean = True, tc_unknown = False, tc_player = False, tc_mix = False, tc_polls = 0, tc_provider_id = None,
     tc_model_version = None, tc_failures = [], tc_success = TcPlayed\<rparr>"

definition start_call :: "tts_world \<Rightarrow> turn_token \<Rightarrow> nat \<Rightarrow> audio_snapshot \<Rightarrow> gateway_request \<Rightarrow> mix_intent \<Rightarrow> bool tact" where
  "start_call W token epoch s q x =
     m_then (m_read (\<lambda>t. m_unless (\<not> belongs (to_owner t) token) (TtsStop TcStale)))
     (m_then (m_set (\<lambda>t. t\<lparr>to_call := Some (new_call s q x epoch)\<rparr>))
     (m_then (tts_check W)
     (m_bind (request_speech W q) (\<lambda>e. case e of
        Some k \<Rightarrow> m_then (m_set (\<lambda>t. t\<lparr>to_call := None, to_code := gateway_tcode k\<rparr>)) (m_ret False)
      | None \<Rightarrow>
          m_then (set_call (\<lambda>c. c\<lparr>tc_gateway_owned := True\<rparr>))
          (m_then (m_set (\<lambda>t. t\<lparr>to_phase := Synthesizing, to_code := TcStarted\<rparr>))
          (m_then (tts_check W) (m_ret True)))))))"

definition start_speech :: "tts_world \<Rightarrow> utterance \<Rightarrow> bool tact" where
  "start_speech W u = m_bind (m_read (\<lambda>t. m_ret (to_epoch t))) (\<lambda>epoch.
     m_bind (tts_sample W) (\<lambda>s.
     m_bind (tts_state W) (\<lambda>active.
     m_bind (m_read (\<lambda>t. m_demand TtsThrow (tts_admit (tw_sha W) (tw_codec W) u s active (to_catalog t)))) (\<lambda>r.
       case r of
         TtsDenied k \<Rightarrow> m_then (m_set (\<lambda>t. t\<lparr>to_code := k\<rparr>)) (m_ret False)
       | TtsReady q x \<Rightarrow> start_call W (ut_token u) epoch s q x))))"

text \<open>\<open>start\<close>; the outer \<open>Inl\<close> is an exception, for an argument of another class or out of a collaborator.\<close>

definition tts_start :: "tts_world \<Rightarrow> utterance option \<Rightarrow> tts \<Rightarrow> (string + bool) \<times> tts" where
  "tts_start W utterance t =
    (case utterance of
       None \<Rightarrow> (Inl ''tts.invalid-utterance'', t)
     | Some u \<Rightarrow>
         if to_fault t \<or> to_call t \<noteq> None \<or> to_terminal t \<noteq> None then (Inr False, t)
         else (case tts_run W False (start_speech W u) t of
           (None, t) \<Rightarrow> (Inl ''tts.invalid-record'', t)
         | (Some b, t) \<Rightarrow> (Inr b, t)))"

section \<open>Playing\<close>

text \<open>A factory with \<open>_contract\<close>: until the object it returns is known to have its methods, what exists is unknown.\<close>

definition tts_make :: "tts_world \<Rightarrow> (bool \<Rightarrow> tts_call \<Rightarrow> tts_call) \<Rightarrow> unit tact" where
  "tts_make W keep =
     m_then (set_call (\<lambda>c. c\<lparr>tc_unknown := True\<rparr>))
     (m_then (m_set (\<lambda>t. t\<lparr>to_held := Suc (to_held t)\<rparr>))
     (m_bind (\<lambda>t. case tts_tick W t of (m, t) \<Rightarrow> (Inr (tm_maker m), t)) (\<lambda>r.
        case r of
          MakerRaises \<Rightarrow> m_raise TtsThrow
        | MakerNone \<Rightarrow> m_then (set_call (keep False)) (m_raise (TtsStop TcCleanup))
        | MakerOther \<Rightarrow> m_then (set_call (keep True)) (m_raise (TtsStop TcCleanup))
        | MakerHandle \<Rightarrow> set_call (\<lambda>c. (keep True c)\<lparr>tc_unknown := False\<rparr>))))"

definition tts_call_out :: "tts_world \<Rightarrow> unit tact" where
  "tts_call_out W t = (case tts_tick W t of (m, t) \<Rightarrow> (if tm_ok m then Inr () else Inl TtsThrow, t))"

definition tts_acquire :: "tts_world \<Rightarrow> (bool \<Rightarrow> tts_call \<Rightarrow> tts_call) \<Rightarrow> unit tact" where
  "tts_acquire W keep = m_then (tts_make W keep) (tts_check W)"

definition tts_effect :: "tts_world \<Rightarrow> (tts_call \<Rightarrow> bool \<Rightarrow> speech_effect) \<Rightarrow> unit tact" where
  "tts_effect W e = m_then (the_call (\<lambda>c. m_read (\<lambda>t. log_effect (e c (call_live c t))))) (m_then (tts_call_out W) (tts_check W))"

definition tts_play :: "tts_world \<Rightarrow> byte list \<Rightarrow> unit tact" where
  "tts_play W pcm =
     m_then (tts_acquire W (\<lambda>b c. c\<lparr>tc_mix := b\<rparr>))
     (m_then (tts_effect W (\<lambda>c. Mixed (tc_request c) (tc_mix_intent c)))
     (m_then (tts_acquire W (\<lambda>b c. c\<lparr>tc_player := b\<rparr>))
     (m_then (tts_effect W (\<lambda>c. Played (tc_request c) pcm))
     (m_then (set_call (\<lambda>c. c\<lparr>tc_polls := 0\<rparr>))
     (m_set (\<lambda>t. t\<lparr>to_phase := Playing, to_code := TcPlaying\<rparr>))))))"

section \<open>Polling\<close>

definition poll_speech :: "tts_world \<Rightarrow> gateway_result option tact" where
  "poll_speech W t =
    (case gateway_poll (tw_codec W) (tw_gateway W) (to_gateway t) of (r, g) \<Rightarrow>
       let t = tts_gap W (t\<lparr>to_gateway := g\<rparr>)
       in (Inr r, if r = None then t
         else t\<lparr>to_call := map_option (\<lambda>c. c\<lparr>tc_gateway_owned := False, tc_synthesis_clean := client_cleanup_proven (to_gateway t)\<rparr>) (to_call t)\<rparr>))"

text \<open>A success, or the success inside a degraded result.\<close>

definition accept_speech :: "tts_world \<Rightarrow> gateway_reply \<Rightarrow> string \<Rightarrow> string \<Rightarrow> unit tact" where
  "accept_speech W r provider model =
    (case r of
       SpeechOutput pcm \<Rightarrow>
         m_then (set_call (\<lambda>c. c\<lparr>tc_provider_id := Some provider, tc_model_version := Some model\<rparr>))
         (m_then (the_call (\<lambda>c. m_unless (\<not> tc_synthesis_clean c) (TtsStop TcCleanup)))
         (m_then (tts_check W)
         (m_then (the_call (\<lambda>c. log_effect (Delivered (tc_request c) pcm)))
         (tts_play W pcm))))
     | _ \<Rightarrow> m_raise (TtsStop TcInvalidAudio))"

definition deliver_speech :: "tts_world \<Rightarrow> gateway_result \<Rightarrow> unit tact" where
  "deliver_speech W r =
    (case r of
       Failed fs \<Rightarrow> m_then (set_call (\<lambda>c. c\<lparr>tc_failures := fs\<rparr>))
         (m_raise (if fs = [] then TtsThrow else TtsStop (gateway_tcode (fl_code (last fs)))))
     | Degraded reply provider model f \<Rightarrow>
         m_then (set_call (\<lambda>c. c\<lparr>tc_failures := [f], tc_success := TcDegraded\<rparr>)) (accept_speech W reply provider model)
     | Success reply provider model \<Rightarrow> accept_speech W reply provider model)"

definition poll_limit :: "(tts_limits \<Rightarrow> int) \<Rightarrow> unit tact" where
  "poll_limit f = the_call (\<lambda>c. case as_policy (tc_snapshot c) of
     None \<Rightarrow> m_raise TtsThrow
   | Some p \<Rightarrow> m_unless (tc_polls c \<ge> f (ap_limits p)) (TtsStop TcLimit))"

definition poll_player :: "tts_world \<Rightarrow> playback_reply tact" where
  "poll_player W = the_call (\<lambda>c t. case tts_tick W t of (m, t) \<Rightarrow>
     (if \<not> tc_player c \<or> tm_playback m = PlaybackRaises then Inl TtsThrow else Inr (tm_playback m), t))"

definition advance_synthesis :: "tts_world \<Rightarrow> unit tact" where
  "advance_synthesis W = m_bind (poll_speech W) (\<lambda>r. case r of
     Some result \<Rightarrow> deliver_speech W result
   | None \<Rightarrow> m_then (tts_check W) (poll_limit tl_synthesis_polls))"

definition advance_playback :: "tts_world \<Rightarrow> unit tact" where
  "advance_playback W = m_bind (poll_player W) (\<lambda>r. m_then (tts_check W) (case r of
     PlaybackComplete \<Rightarrow> the_call (\<lambda>c. tts_retire W (tc_success c))
   | PlaybackPending \<Rightarrow> poll_limit tl_playback_polls
   | _ \<Rightarrow> m_raise (TtsStop TcUnavailable)))"

definition tts_advance :: "tts_world \<Rightarrow> unit tact" where
  "tts_advance W = m_read (\<lambda>t.
     if to_call t = None then m_ret ()
     else m_then (tts_check W) (m_then (set_call (\<lambda>c. c\<lparr>tc_polls := tc_polls c + 1\<rparr>)) (m_read (\<lambda>t.
       case to_phase t of
         Synthesizing \<Rightarrow> advance_synthesis W
       | Playing \<Rightarrow> advance_playback W
       | _ \<Rightarrow> m_ret ()))))"

text \<open>\<open>poll\<close>; the outer \<open>None\<close> is an exception, which leaves the terminal where it is.\<close>

definition tts_poll :: "tts_world \<Rightarrow> tts \<Rightarrow> completion option option \<times> tts" where
  "tts_poll W t =
    (if to_busy t then (Some None, t)
     else case tts_run W () (tts_advance W) t of
       (None, t) \<Rightarrow> (None, t)
     | (Some u, t) \<Rightarrow> (Some (to_terminal t), t\<lparr>to_terminal := None\<rparr>))"

text \<open>\<open>cancel\<close>; the tail is what waits for the lock.\<close>

definition tts_settle :: "tts_world \<Rightarrow> tts \<Rightarrow> unit option \<times> tts" where
  "tts_settle W t = (if to_call t \<noteq> None \<and> \<not> to_busy t then tts_run W () (tts_retire W TcCanceled) t else (Some (), t))"

definition tts_cancel :: "tts_world \<Rightarrow> tts \<Rightarrow> unit option \<times> tts" where
  "tts_cancel W t = tts_settle W (tts_gap W (tts_invalidate t))"

section \<open>Runs\<close>

datatype tts_op =
    TtsStart "utterance option"
  | TtsPoll
  | TtsCancel
  | TtsSettle
  | TtsBetween tts_interference

fun tts_do :: "tts_world \<Rightarrow> tts_op \<Rightarrow> tts \<Rightarrow> tts" where
  "tts_do W (TtsStart u) t = snd (tts_start W u t)"
| "tts_do W TtsPoll t = snd (tts_poll W t)"
| "tts_do W TtsCancel t = snd (tts_cancel W t)"
| "tts_do W TtsSettle t = snd (tts_settle W t)"
| "tts_do W (TtsBetween i) t = tts_interfere W i t"

definition tts_steps :: "tts_world \<Rightarrow> tts_op list \<Rightarrow> tts \<Rightarrow> tts" where
  "tts_steps W ops t = fold (tts_do W) ops t"

end
