(* ===== verification/Tts_Safety.thy ===== *)
theory Tts_Safety
  imports Tts_Output "HOL-Library.Multiset"
begin

text \<open>
  What speech output keeps over every run: requests are admitted and made at most once, audio is mixed and played only
  in the order of its protocol while its turn is accepted, and cleanup is claimed only when no handle is left.
\<close>

section \<open>The gateway remembers its requests\<close>

lemma ids_moved: "moved es c d \<Longrightarrow> gc_ids d = gc_ids c"
  by (simp add: moved_def)

lemma ids_begin_effect: "begin_effect cd E q c = (v, d) \<Longrightarrow> gc_ids d = gc_ids c"
proof (cases "gc_active c")
  case (Some a)
  assume "begin_effect cd E q c = (v, d)"
  from begin_effect_cases[OF this Some] show ?thesis by (auto dest!: ids_moved)
qed (simp add: begin_effect_def)

lemma ids_begin_core: "begin_core cd E c = (v, d) \<Longrightarrow> gc_ids d = gc_ids c"
proof (cases "gc_active c")
  case (Some a)
  assume "begin_core cd E c = (v, d)"
  from begin_core_cases[OF this Some] show ?thesis by (auto dest!: ids_moved ids_begin_effect)
next
  case None
  assume d: "begin_core cd E c = (v, d)"
  obtain i x where i: "interruption E c = (i, x)" by fastforce
  with moved_interruption[OF i] None have "gc_active x = None" by (simp add: moved_def)
  with d i ids_moved[OF moved_interruption[OF i]] show ?thesis by (auto simp: begin_core_def split: option.splits)
qed

lemma ids_conclude: "conclude i v clean a c = (b, d) \<Longrightarrow> gc_ids d = gc_ids c"
  by (auto simp: conclude_def Let_def split: if_splits outcome_value.splits)

lemma ids_finish_core: "finish_core E v c = (b, d) \<Longrightarrow> gc_ids d = gc_ids c"
proof (cases "gc_active c")
  case (Some a)
  assume "finish_core E v c = (b, d)"
  from finish_core_cases[OF this Some] show ?thesis by (auto dest!: ids_moved ids_conclude[OF sym])
next
  case None
  assume d: "finish_core E v c = (b, d)"
  obtain p x where x: "retire E c = (p, x)" by fastforce
  then have x': "x = c" using None by (simp add: retire_def)
  obtain i y where y: "interruption E (x\<lparr>gc_unclean := \<not> (p \<and> v \<noteq> Fails ''cleanup'')\<rparr>) = (i, y)" by fastforce
  from moved_interruption[OF y] x' None have "gc_active y = None" by (simp add: moved_def)
  with d x y x' ids_moved[OF moved_interruption[OF y]] show ?thesis by (simp add: finish_core_def)
qed

lemma ids_finish_call: "gc_ids (finish_call cd E v c) = gc_ids c"
proof (induction cd E v c rule: finish_call.induct)
  case (1 cd E v c)
  obtain b d where d: "finish_core E v c = (b, d)" by fastforce
  obtain w e where e: "begin_core cd E d = (w, e)" by fastforce
  note ids = ids_finish_core[OF d] ids_begin_core[OF e]
  show ?case
    using "1.IH"[OF d[symmetric] _ e[symmetric]] d e ids
    by (subst finish_call.simps) (auto split: bool.split option.split)
qed

lemma ids_begin_call: "gc_ids (begin_call cd E c) = gc_ids c"
  by (auto simp: begin_call_def ids_finish_call split: prod.split option.split dest: ids_begin_core)

lemma ids_cancel: "gc_ids (gateway_cancel cd E c) = gc_ids c"
  by (simp add: gateway_cancel_def ids_finish_call mark_canceled_def)

lemma ids_poll: "gc_ids (snd (gateway_poll cd E c)) = gc_ids c"
proof -
  obtain v d where d: "poll_job cd E c = (v, d)" by fastforce
  with ids_moved[OF moved_poll_job[OF d]] show ?thesis
    by (auto simp: gateway_poll_def Let_def ids_finish_call split: option.split)
qed

lemma ids_start:
  assumes "gateway_start cd E (Some q) c = (e, d)"
  shows "if e = None then \<exists>p. parsed_request cd (Some q) = Inr p \<and> gq_request_id p \<notin> set (gc_ids c) \<and> gc_ids d = gq_request_id p # gc_ids c
    else gc_ids d = gc_ids c"
  using assms by (cases "gc_fault c"; cases e) (auto simp: gateway_start_def ids_begin_call claim_def split: if_splits sum.splits)

lemma ids_gateway_do: "set (gc_ids c) \<subseteq> set (gc_ids (gateway_do cd E act c))"
proof (cases act)
  case (OpStart q)
  show ?thesis
  proof (cases q)
    case (Some p)
    obtain e d where d: "gateway_start cd E (Some p) c = (e, d)" by fastforce
    from ids_start[OF d] d OpStart Some show ?thesis by (auto split: if_splits)
  qed (auto simp: OpStart gateway_start_def parsed_request_def split: option.split)
qed (auto simp: ids_poll ids_cancel gateway_disable_def claim_configuration_def enter_configuration_def reconfigure_def
    leave_configuration_def split: option.split)

lemma ids_transaction:
  assumes "\<And>k g. set (gc_ids g) \<subseteq> set (gc_ids (snd (snd (body k g))))"
  shows "set (gc_ids g) \<subseteq> set (gc_ids (snd (snd (transaction body k g))))"
proof -
  obtain e h where h: "enter_configuration (Some (cg_token k)) g = (e, h)" by fastforce
  then have "gc_ids h = gc_ids g" by (auto simp: enter_configuration_def split: if_splits)
  with assms[of h k] h show ?thesis by (auto simp: transaction_def leave_configuration_def split: option.split prod.split)
qed

lemma ids_config_do: "set (gc_ids g) \<subseteq> set (gc_ids (snd (config_do sha cd E act (k, g))))"
proof (cases act)
  case (CActivate ref receipt now)
  have "gc_ids (snd (snd (activate_inner sha ref receipt now k g))) = gc_ids g" for k g
    by (auto simp: activate_inner_def activate_checked_def reconfigure_def Let_def split: option.split prod.split sum.split)
  then show ?thesis using CActivate by (auto simp: config_activate_def intro!: ids_transaction)
next
  case CDisable
  have "gc_ids (snd (snd (config_disable_inner cd E k g))) = gc_ids g" for k g
    by (auto simp: config_disable_inner_def gateway_disable_def Let_def ids_cancel split: option.split prod.split sum.split)
  then show ?thesis using CDisable by (auto simp: config_disable_def intro!: ids_transaction)
next
  case (CGateway op)
  then show ?thesis by (simp add: ids_gateway_do)
qed (auto simp: stage_def provider_observe_def approve_def reject_def restore_def inside_def split: prod.split intro!: ids_transaction)

section \<open>The protocol of the effects\<close>

datatype tts_stage = SpQuiet | SpAsked gateway_request | SpGiven gateway_request "byte list" | SpMixing gateway_request "byte list"

fun stage_step :: "tts_stage \<Rightarrow> speech_effect \<Rightarrow> tts_stage option" where
  "stage_step s (Requested q) = Some (SpAsked q)"
| "stage_step (SpAsked p) (Delivered q pcm) = (if p = q then Some (SpGiven q pcm) else None)"
| "stage_step (SpGiven p pcm) (Mixed q x ok) = (if p = q \<and> ok then Some (SpMixing q pcm) else None)"
| "stage_step (SpMixing p pcm) (Played q b ok) = (if p = q \<and> b = pcm \<and> ok then Some SpQuiet else None)"
| "stage_step s e = None"

fun stages :: "tts_stage \<Rightarrow> speech_effect list \<Rightarrow> tts_stage option" where
  "stages s [] = Some s"
| "stages s (e # es) = Option.bind (stage_step s e) (\<lambda>s. stages s es)"

lemma stages_append: "stages s (es @ fs) = Option.bind (stages s es) (\<lambda>s. stages s fs)"
  by (induction es arbitrary: s) (auto split: Option.bind_splits)

fun asked :: "speech_effect \<Rightarrow> string list" where
  "asked (Requested q) = [gq_request_id q]"
| "asked _ = []"

definition asked_ids :: "speech_effect list \<Rightarrow> string list" where
  "asked_ids es = concat (map asked es)"

definition turn_ok :: "audio_snapshot \<Rightarrow> bool" where
  "turn_ok s \<longleftrightarrow> (case as_current_turn s of None \<Rightarrow> False | Some k \<Rightarrow> 0 < tt_generation k)"

definition admitted_as :: "tts_world \<Rightarrow> int \<Rightarrow> audio_snapshot \<Rightarrow> gateway_request \<Rightarrow> mix_intent \<Rightarrow> bool" where
  "admitted_as W v s q x \<longleftrightarrow> turn_ok s \<and> (\<exists>u a. tts_admit (tw_sha W) (tw_codec W) u s a v = Some (TtsReady q x))"

fun admitted_effect :: "tts_world \<Rightarrow> int \<Rightarrow> speech_effect \<Rightarrow> bool" where
  "admitted_effect W v (Requested q) \<longleftrightarrow> (\<exists>s x. admitted_as W v s q x)"
| "admitted_effect W v (Mixed q x ok) \<longleftrightarrow> (\<exists>s. admitted_as W v s q x)"
| "admitted_effect W v e \<longleftrightarrow> True"

definition speech_log :: "tts_world \<Rightarrow> tts \<Rightarrow> bool" where
  "speech_log W t \<longleftrightarrow> stages SpQuiet (to_effects t) \<noteq> None \<and> distinct (asked_ids (to_effects t))
     \<and> set (asked_ids (to_effects t)) \<subseteq> set (gc_ids (to_gateway t))
     \<and> list_all (admitted_effect W (to_catalog t)) (to_effects t)"

section \<open>Interference\<close>

definition tdrift :: "tts \<Rightarrow> tts \<Rightarrow> bool" where
  "tdrift t u \<longleftrightarrow> (\<exists>w k g n m. u = t\<lparr>to_owner := w, to_config := k, to_gateway := g, to_epoch := n, to_time := m\<rparr>
     \<and> to_epoch t \<le> n \<and> set (gc_ids (to_gateway t)) \<subseteq> set (gc_ids g))"

lemma tdriftI: "u = t\<lparr>to_owner := w, to_config := k, to_gateway := g, to_epoch := n, to_time := m\<rparr> \<Longrightarrow> to_epoch t \<le> n \<Longrightarrow>
    set (gc_ids (to_gateway t)) \<subseteq> set (gc_ids g) \<Longrightarrow> tdrift t u"
  unfolding tdrift_def by blast

lemma tdrift_refl [simp, intro]: "tdrift t t"
  by (rule tdriftI[where w="to_owner t" and k="to_config t" and g="to_gateway t" and n="to_epoch t" and m="to_time t"]) simp_all

lemma tdrift_trans: "tdrift t u \<Longrightarrow> tdrift u v \<Longrightarrow> tdrift t v"
  unfolding tdrift_def
  by (elim exE conjE, rule_tac x=wa in exI, rule_tac x=ka in exI, rule_tac x=ga in exI, rule_tac x=na in exI, rule_tac x=ma in exI) auto

lemma tdrift_same:
  assumes "tdrift t u"
  shows "to_catalog u = to_catalog t" "to_busy u = to_busy t" "to_fault u = to_fault t" "to_call u = to_call t"
    "to_terminal u = to_terminal t" "to_phase u = to_phase t" "to_code u = to_code t" "to_held u = to_held t"
    "to_effects u = to_effects t" "to_epoch t \<le> to_epoch u" "set (gc_ids (to_gateway t)) \<subseteq> set (gc_ids (to_gateway u))"
  using assms unfolding tdrift_def by auto

lemmas tdrift_fields = tdrift_same(1-9)

lemma tdrift_owner: "tdrift t (t\<lparr>to_owner := w\<rparr>)"
  by (rule tdriftI[where w=w and k="to_config t" and g="to_gateway t" and n="to_epoch t" and m="to_time t"]) simp_all

lemma tdrift_gateway: "set (gc_ids (to_gateway t)) \<subseteq> set (gc_ids g) \<Longrightarrow> tdrift t (t\<lparr>to_gateway := g\<rparr>)"
  by (rule tdriftI[where w="to_owner t" and k="to_config t" and g=g and n="to_epoch t" and m="to_time t"]) simp_all

lemma tdrift_interfere: "tdrift t (tts_interfere W i t)"
proof (cases i)
  case TtsInvalidate
  then show ?thesis
    by (simp add: tts_invalidate_def)
      (rule tdriftI[where w="to_owner t" and k="to_config t" and g="to_gateway t" and n="Suc (to_epoch t)" and m="to_time t"], simp_all)
next
  case (TtsParticipant call)
  then show ?thesis by (simp add: tdrift_owner)
next
  case (TtsSystem act)
  obtain k g where g: "config_do (tw_sha W) (tw_codec W) (tw_gateway W) act (to_config t, to_gateway t) = (k, g)" by fastforce
  with ids_config_do[of "to_gateway t" "tw_sha W" "tw_codec W" "tw_gateway W" act "to_config t"] TtsSystem show ?thesis
    by simp (rule tdriftI[where w="to_owner t" and k=k and g=g and n="to_epoch t" and m="to_time t"], simp_all)
qed

lemma tdrift_fold: "tdrift t (fold (tts_interfere W) is t)"
  by (induction "is" arbitrary: t) (auto intro: tdrift_trans tdrift_interfere)

lemma tdrift_tick: "tts_tick W t = (m, u) \<Longrightarrow> tdrift t u"
proof -
  assume u: "tts_tick W t = (m, u)"
  have "tdrift t (t\<lparr>to_time := Suc (to_time t)\<rparr>)"
    by (rule tdriftI[where w="to_owner t" and k="to_config t" and g="to_gateway t" and n="to_epoch t" and m="Suc (to_time t)"]) simp_all
  from tdrift_trans[OF this tdrift_fold] u show ?thesis by (auto simp: tts_tick_def Let_def)
qed

lemma tdrift_gap: "tdrift t (tts_gap W t)"
  using tdrift_tick[of W t "fst (tts_tick W t)"] by (simp add: tts_gap_def)

lemma tdrift_then_gap: "tdrift t u \<Longrightarrow> tdrift t (tts_gap W u)"
  using tdrift_trans[OF _ tdrift_gap] .

lemma wp_tts_sample: "(\<And>r d. tdrift t d \<Longrightarrow> Q r d) \<Longrightarrow> (\<And>e d. tdrift t d \<Longrightarrow> X e d) \<Longrightarrow> wp (tts_sample W) Q X t"
  by (auto simp: wp_def tts_sample_def split: prod.splits reply.splits dest!: tdrift_tick)

lemma wp_tts_state: "(\<And>r d. tdrift t d \<Longrightarrow> Q r d) \<Longrightarrow> X TtsThrow t \<Longrightarrow> wp (tts_state W) Q X t"
  by (auto simp: wp_def tts_state_def tdrift_gap split: sum.splits)

lemma wp_the_call: "wp (the_call f) Q X = (\<lambda>t. case to_call t of None \<Rightarrow> X TtsThrow t | Some c \<Rightarrow> wp (f c) Q X t)"
  by (auto simp: the_call_def fun_eq_iff split: option.split)

lemma wp_set_call [simp]: "wp (set_call f) Q X = (\<lambda>t. Q () (t\<lparr>to_call := map_option f (to_call t)\<rparr>))"
  by (simp add: set_call_def)

lemma wp_log [simp]: "wp (log_effect e) Q X = (\<lambda>t. Q () (t\<lparr>to_effects := to_effects t @ [e]\<rparr>))"
  by (simp add: log_effect_def)

lemma wp_tick: "wp (\<lambda>t. case tts_tick W t of (m, u) \<Rightarrow> (f m, u)) Q X =
    (\<lambda>t. case tts_tick W t of (m, u) \<Rightarrow> (case f m of Inl e \<Rightarrow> X e u | Inr r \<Rightarrow> Q r u))"
  by (auto simp: wp_def fun_eq_iff split: prod.split)

lemma current_live: "tts_current s active c t = None \<Longrightarrow> call_live c t"
  by (auto simp: tts_current_def call_live_def split: if_splits option.splits prod.splits)

lemma wp_tts_check:
  assumes "\<And>d c. tdrift t d \<Longrightarrow> to_call d = Some c \<Longrightarrow> call_live c d \<Longrightarrow> Q () d" "\<And>e d. tdrift t d \<Longrightarrow> X e d"
  shows "wp (tts_check W) Q X t"
  unfolding tts_check_def wp_bind
  by (rule wp_tts_sample, rule wp_tts_state)
    (auto simp: wp_the_call split: option.split intro: assms tdrift_trans current_live)

section \<open>The invariant\<close>

definition handles :: "tts_call \<Rightarrow> nat" where
  "handles c = (if tc_player c then 1 else 0) + (if tc_mix c then 1 else 0)"

definition core :: "tts_world \<Rightarrow> tts \<Rightarrow> bool" where
  "core W t \<longleftrightarrow> speech_log W t \<and> (case to_call t of
     None \<Rightarrow> (to_fault t \<or> to_held t = 0) \<and> to_phase t = (if to_fault t then TtsFaulted else TtsIdle)
   | Some c \<Rightarrow> admitted_as W (to_catalog t) (tc_snapshot c) (tc_request c) (tc_mix_intent c) \<and> tc_epoch c \<le> to_epoch t
       \<and> to_terminal t = None \<and> (to_fault t \<or> tc_unknown c \<or> to_held t = handles c))"

definition in_limit :: "(tts_limits \<Rightarrow> int) \<Rightarrow> tts_call \<Rightarrow> bool" where
  "in_limit f c \<longleftrightarrow> (case as_policy (tc_snapshot c) of None \<Rightarrow> False | Some p \<Rightarrow> tc_polls c < max 1 (f (ap_limits p)))"

text \<open>Between operations.\<close>

definition call_rest :: "tts_phase \<Rightarrow> bool \<Rightarrow> speech_effect list \<Rightarrow> tts_call \<Rightarrow> bool" where
  "call_rest p fault es c \<longleftrightarrow> (case p of
     Synthesizing \<Rightarrow> \<not> fault \<and> \<not> tc_unknown c \<and> \<not> tc_player c \<and> \<not> tc_mix c
       \<and> stages SpQuiet es = Some (SpAsked (tc_request c)) \<and> in_limit tl_synthesis_polls c
   | Playing \<Rightarrow> \<not> fault \<and> \<not> tc_unknown c \<and> tc_player c \<and> tc_mix c \<and> in_limit tl_playback_polls c
   | TtsStopping \<Rightarrow> True
   | _ \<Rightarrow> False)"

definition tts_rest :: "tts_world \<Rightarrow> tts \<Rightarrow> bool" where
  "tts_rest W t \<longleftrightarrow> core W t
     \<and> (case to_call t of None \<Rightarrow> True | Some c \<Rightarrow> call_rest (to_phase t) (to_fault t) (to_effects t) c)"

text \<open>While a call is worked on: the stage its effects have reached.\<close>

definition mid :: "tts_world \<Rightarrow> tts_call \<Rightarrow> tts_stage \<Rightarrow> tts \<Rightarrow> bool" where
  "mid W c \<sigma> t \<longleftrightarrow> core W t \<and> to_call t = Some c \<and> \<not> to_fault t \<and> \<not> tc_unknown c \<and> stages SpQuiet (to_effects t) = Some \<sigma>"

lemma mid_iff: "mid W c \<sigma> t \<longleftrightarrow> speech_log W t \<and> to_call t = Some c \<and> \<not> to_fault t \<and> \<not> tc_unknown c
    \<and> stages SpQuiet (to_effects t) = Some \<sigma> \<and> admitted_as W (to_catalog t) (tc_snapshot c) (tc_request c) (tc_mix_intent c)
    \<and> tc_epoch c \<le> to_epoch t \<and> to_terminal t = None \<and> to_held t = handles c"
  by (auto simp: mid_def core_def)

lemma speech_log_drift: "tdrift t u \<Longrightarrow> speech_log W t \<Longrightarrow> speech_log W u"
proof -
  assume d: "tdrift t u" and l: "speech_log W t"
  from tdrift_same(11)[OF d] l show ?thesis by (auto simp: speech_log_def tdrift_fields[OF d])
qed

lemma core_drift: "tdrift t u \<Longrightarrow> core W t \<Longrightarrow> core W u"
proof -
  assume d: "tdrift t u" and c: "core W t"
  from c have "speech_log W u" by (simp add: core_def speech_log_drift[OF d])
  with c tdrift_same(10)[OF d] show ?thesis by (auto simp: core_def tdrift_fields[OF d] split: option.splits)
qed

lemma rest_drift: "tdrift t u \<Longrightarrow> tts_rest W t \<Longrightarrow> tts_rest W u"
  using core_drift[of t u W] by (auto simp: tts_rest_def tdrift_fields split: option.splits)

lemma mid_drift: "tdrift t u \<Longrightarrow> mid W c \<sigma> t \<Longrightarrow> mid W c \<sigma> u"
  using core_drift[of t u W] unfolding mid_def by (simp add: tdrift_fields)

lemma mid_core: "mid W c \<sigma> t \<Longrightarrow> core W t"
  by (simp add: mid_def)

lemma log_upd [simp]:
  "speech_log W (t\<lparr>to_call := c\<rparr>) = speech_log W t" "speech_log W (t\<lparr>to_held := n\<rparr>) = speech_log W t"
  "speech_log W (t\<lparr>to_phase := p\<rparr>) = speech_log W t" "speech_log W (t\<lparr>to_code := k\<rparr>) = speech_log W t"
  "speech_log W (t\<lparr>to_busy := b\<rparr>) = speech_log W t" "speech_log W (t\<lparr>to_fault := b\<rparr>) = speech_log W t"
  "speech_log W (t\<lparr>to_terminal := r\<rparr>) = speech_log W t"
  by (simp_all add: speech_log_def)

lemma core_upd [simp]: "core W (t\<lparr>to_code := k\<rparr>) = core W t" "core W (t\<lparr>to_busy := b\<rparr>) = core W t"
  "tts_rest W (t\<lparr>to_code := k\<rparr>) = tts_rest W t" "tts_rest W (t\<lparr>to_busy := b\<rparr>) = tts_rest W t"
  by (cases "to_call t"; simp add: core_def tts_rest_def)+

text \<open>A change of the call that no clause of \<open>core\<close> reads.\<close>

lemma mid_call:
  assumes "mid W c \<sigma> t" "tc_snapshot d = tc_snapshot c" "tc_request d = tc_request c" "tc_mix_intent d = tc_mix_intent c"
    "tc_epoch d = tc_epoch c" "tc_unknown d = tc_unknown c" "tc_player d = tc_player c" "tc_mix d = tc_mix c"
  shows "mid W d \<sigma> (t\<lparr>to_call := Some d\<rparr>)"
  using assms by (auto simp: mid_def core_def handles_def)

lemma wp_mid_check:
  assumes "mid W c \<sigma> t" "\<And>d. mid W c \<sigma> d \<Longrightarrow> tdrift t d \<Longrightarrow> call_live c d \<Longrightarrow> Q () d"
  shows "wp (tts_check W) Q (\<lambda>e. core W) t"
proof (rule wp_tts_check)
  fix d x assume d: "tdrift t d" "to_call d = Some x" "call_live x d"
  have m: "mid W c \<sigma> d" by (rule mid_drift[OF d(1) assms(1)])
  with d(2) have "x = c" by (simp add: mid_def)
  with assms(2)[OF m d(1)] d(3) show "Q () d" by simp
qed (use assms(1) mid_core core_drift in blast)

lemma wp_mid_make:
  assumes "mid W c \<sigma> t" "handles (keep True c) = Suc (handles c)"
    "\<And>b c. tc_snapshot (keep b c) = tc_snapshot c \<and> tc_request (keep b c) = tc_request c \<and> tc_mix_intent (keep b c) = tc_mix_intent c
      \<and> tc_epoch (keep b c) = tc_epoch c \<and> tc_unknown (keep b c) = tc_unknown c"
    "\<And>b c. keep b (c\<lparr>tc_unknown := True\<rparr>) = (keep b c)\<lparr>tc_unknown := True\<rparr>"
    "\<And>d. mid W (keep True c) \<sigma> d \<Longrightarrow> to_phase d = to_phase t \<Longrightarrow> Q () d"
  shows "wp (tts_make W keep) Q (\<lambda>e. core W) t"
proof -
  note c = assms(1)[unfolded mid_iff]
  let ?u = "t\<lparr>to_call := Some (c\<lparr>tc_unknown := True\<rparr>), to_held := Suc (to_held t)\<rparr>"
  obtain m d where m: "tts_tick W ?u = (m, d)" by fastforce
  note d = tdrift_tick[OF m]
  have u: "core W ?u" using c by (simp add: core_def)
  have core: "core W d" by (rule core_drift[OF d u])
  then have kept: "core W (d\<lparr>to_call := Some (keep b (c\<lparr>tc_unknown := True\<rparr>))\<rparr>)" for b
    using assms(3) by (simp add: core_def tdrift_fields[OF d])
  have h: "handles (x\<lparr>tc_unknown := v\<rparr>) = handles x" for x v by (simp add: handles_def)
  have e: "(keep True c)\<lparr>tc_unknown := True, tc_unknown := False\<rparr> = keep True c"
    using assms(3)[of True c] c by (cases "keep True c") simp
  have "mid W (keep True c) \<sigma> (d\<lparr>to_call := Some (keep True c)\<rparr>)"
    using core c assms(2,3) tdrift_same(10)[OF d] by (auto simp: mid_iff core_def tdrift_fields[OF d])
  from assms(5)[OF this] have q: "Q () (d\<lparr>to_call := Some (keep True c)\<rparr>)" by (simp add: tdrift_fields[OF d])
  show ?thesis unfolding tts_make_def
    using c m core kept q e assms(4) by (simp add: wp_def[of "\<lambda>t. case tts_tick W t of (m, t) \<Rightarrow> (Inr (tm_maker m), t)"]
        tdrift_fields[OF d] split: maker_reply.split)
qed

lemma wp_mid_out:
  assumes "mid W c \<sigma> t" "\<And>d. mid W c \<sigma> d \<Longrightarrow> tdrift t d \<Longrightarrow> Q () d"
  shows "wp (tts_call_out W) Q (\<lambda>e. core W) t"
proof -
  obtain m d where m: "tts_tick W t = (m, d)" by fastforce
  with assms(2)[OF mid_drift[OF tdrift_tick[OF m] assms(1)] tdrift_tick[OF m]] mid_core[OF mid_drift[OF tdrift_tick[OF m] assms(1)]]
  show ?thesis by (simp add: wp_def tts_call_out_def)
qed

lemma mid_log:
  assumes "mid W c \<sigma> t" "stage_step \<sigma> e = Some \<tau>" "asked e = []" "admitted_effect W (to_catalog t) e"
  shows "mid W c \<tau> (t\<lparr>to_effects := to_effects t @ [e]\<rparr>)"
  using assms by (auto simp: mid_def core_def speech_log_def stages_append asked_ids_def split: option.splits)

section \<open>Playing\<close>

lemma speakable_policy: "speakable u s a = Inr (p, v, x, n) \<Longrightarrow> as_policy s = Some p"
  by (auto simp: speakable_def Let_def split: if_splits option.splits audio_rule.splits)

lemma admit_ready:
  assumes "tts_admit sha cd u s a v = Some (TtsReady q x)"
  shows "\<exists>p w n. speakable u s a = Inr (p, w, x, n) \<and> unvoiced (ap_voices p) (voiced_routes p n) = Some False
    \<and> int (length (ut_text u)) \<le> tl_text_chars (ap_limits p) \<and> parsed_request cd (Some (speech_request sha u p w n v)) = Inr q
    \<and> (\<exists>t y. gq_payload q = SpeechInput t y)"
  using assms by (auto simp: tts_admit_def ready_init_def split: sum.splits option.splits bool.splits if_splits gateway_payload.splits)

lemma admitted_policy: "admitted_as W v s q x \<Longrightarrow> \<exists>p. as_policy s = Some p"
  by (auto simp: admitted_as_def dest!: admit_ready speakable_policy)

lemma wp_mid_acquire:
  assumes "mid W c \<sigma> t" "handles (keep True c) = Suc (handles c)"
    "\<And>b c. tc_snapshot (keep b c) = tc_snapshot c \<and> tc_request (keep b c) = tc_request c \<and> tc_mix_intent (keep b c) = tc_mix_intent c
      \<and> tc_epoch (keep b c) = tc_epoch c \<and> tc_unknown (keep b c) = tc_unknown c"
    "\<And>b c. keep b (c\<lparr>tc_unknown := True\<rparr>) = (keep b c)\<lparr>tc_unknown := True\<rparr>"
    "\<And>d. mid W (keep True c) \<sigma> d \<Longrightarrow> call_live (keep True c) d \<Longrightarrow> Q () d"
  shows "wp (tts_acquire W keep) Q (\<lambda>e. core W) t"
  unfolding tts_acquire_def wp_then
proof (rule wp_mid_make[where keep = keep, OF assms(1,2)])
  fix d assume "mid W (keep True c) \<sigma> d"
  then show "wp (tts_check W) Q (\<lambda>e. core W) d" by (rule wp_mid_check) (use assms(5) in blast)
qed (use assms(3,4) in blast)+

lemma wp_mid_effect:
  assumes "mid W c \<sigma> t" "call_live c t" "stage_step \<sigma> (e c True) = Some \<tau>" "asked (e c True) = []"
    "admitted_effect W (to_catalog t) (e c True)" "\<And>d. mid W c \<tau> d \<Longrightarrow> Q () d"
  shows "wp (tts_effect W e) Q (\<lambda>e. core W) t"
proof -
  from mid_log[OF assms(1,3-5)] have "wp (tts_call_out W) (\<lambda>u. wp (tts_check W) Q (\<lambda>e. core W)) (\<lambda>e. core W)
      (t\<lparr>to_effects := to_effects t @ [e c True]\<rparr>)"
    by (rule wp_mid_out, elim wp_mid_check) (use assms(6) in blast)
  moreover have "to_call t = Some c" using assms(1) by (simp add: mid_def)
  ultimately show ?thesis using assms(2) by (simp add: tts_effect_def wp_the_call)
qed

lemma playing_rest:
  assumes "mid W c SpQuiet t" "tc_player c" "tc_mix c"
  shows "tts_rest W (t\<lparr>to_call := Some (c\<lparr>tc_polls := 0\<rparr>), to_phase := Playing\<rparr>)"
proof -
  have "\<exists>p. as_policy (tc_snapshot c) = Some p" using assms(1) by (auto simp: mid_iff dest: admitted_policy)
  with assms show ?thesis by (auto simp: mid_iff tts_rest_def core_def call_rest_def in_limit_def handles_def)
qed

lemma wp_play:
  assumes "mid W c (SpGiven (tc_request c) pcm) t" "\<not> tc_player c" "\<not> tc_mix c"
  shows "wp (tts_play W pcm) (\<lambda>u. tts_rest W) (\<lambda>e. core W) t"
  unfolding tts_play_def wp_then
proof (rule wp_mid_acquire[OF assms(1)])
  let ?m = "c\<lparr>tc_mix := True\<rparr>"
  fix d assume d: "mid W ?m (SpGiven (tc_request c) pcm) d" "call_live ?m d"
  have ad: "\<exists>s. admitted_as W (to_catalog d) s (tc_request c) (tc_mix_intent c)" using d(1) by (auto simp: mid_iff)
  show "wp (tts_effect W (\<lambda>c. Mixed (tc_request c) (tc_mix_intent c))) (\<lambda>u. wp (tts_acquire W (\<lambda>b c. c\<lparr>tc_player := b\<rparr>))
      (\<lambda>u. wp (tts_effect W (\<lambda>c. Played (tc_request c) pcm)) (\<lambda>u. wp (set_call (\<lambda>c. c\<lparr>tc_polls := 0\<rparr>))
        (\<lambda>u. wp (m_set (\<lambda>t. t\<lparr>to_phase := Playing, to_code := TcPlaying\<rparr>)) (\<lambda>u. tts_rest W) (\<lambda>e. core W)) (\<lambda>e. core W)) (\<lambda>e. core W))
      (\<lambda>e. core W)) (\<lambda>e. core W) d"
  proof (rule wp_mid_effect[OF d, where \<tau> = "SpMixing (tc_request c) pcm"])
    fix e assume e: "mid W ?m (SpMixing (tc_request c) pcm) e"
    show "wp (tts_acquire W (\<lambda>b c. c\<lparr>tc_player := b\<rparr>))
      (\<lambda>u. wp (tts_effect W (\<lambda>c. Played (tc_request c) pcm)) (\<lambda>u. wp (set_call (\<lambda>c. c\<lparr>tc_polls := 0\<rparr>))
        (\<lambda>u. wp (m_set (\<lambda>t. t\<lparr>to_phase := Playing, to_code := TcPlaying\<rparr>)) (\<lambda>u. tts_rest W) (\<lambda>e. core W)) (\<lambda>e. core W)) (\<lambda>e. core W))
      (\<lambda>e. core W) e"
    proof (rule wp_mid_acquire[OF e])
      let ?p = "?m\<lparr>tc_player := True\<rparr>"
      fix f assume f: "mid W ?p (SpMixing (tc_request c) pcm) f" "call_live ?p f"
      show "wp (tts_effect W (\<lambda>c. Played (tc_request c) pcm)) (\<lambda>u. wp (set_call (\<lambda>c. c\<lparr>tc_polls := 0\<rparr>))
        (\<lambda>u. wp (m_set (\<lambda>t. t\<lparr>to_phase := Playing, to_code := TcPlaying\<rparr>)) (\<lambda>u. tts_rest W) (\<lambda>e. core W)) (\<lambda>e. core W)) (\<lambda>e. core W) f"
        by (rule wp_mid_effect[OF f, where \<tau> = SpQuiet])
          (use playing_rest in \<open>auto simp: mid_def\<close>)
    qed (use assms(2) in \<open>simp_all add: handles_def\<close>)
  qed (use ad in simp_all)
qed (use assms in \<open>simp_all add: handles_def\<close>)

section \<open>Advancing\<close>

definition like :: "tts_call \<Rightarrow> tts_call \<Rightarrow> bool" where
  "like c d \<longleftrightarrow> tc_snapshot d = tc_snapshot c \<and> tc_request d = tc_request c \<and> tc_mix_intent d = tc_mix_intent c \<and> tc_epoch d = tc_epoch c
     \<and> tc_unknown d = tc_unknown c \<and> tc_player d = tc_player c \<and> tc_mix d = tc_mix c"

lemma mid_like: "mid W c \<sigma> t \<Longrightarrow> like c d \<Longrightarrow> mid W d \<sigma> (t\<lparr>to_call := Some d\<rparr>)"
  by (rule mid_call) (simp_all add: like_def)

lemma wp_mid_set:
  assumes "mid W c \<sigma> t" "like c (f c)" "mid W (f c) \<sigma> (t\<lparr>to_call := Some (f c)\<rparr>) \<Longrightarrow> Q () (t\<lparr>to_call := Some (f c)\<rparr>)"
  shows "wp (set_call f) Q X t"
  using assms(3)[OF mid_like[OF assms(1,2)]] assms(1) by (simp add: mid_def)

lemma wp_poll_speech:
  assumes "mid W c \<sigma> t" "\<And>r d e. mid W e \<sigma> d \<Longrightarrow> like c e \<Longrightarrow> tc_polls e = tc_polls c \<Longrightarrow> to_phase d = to_phase t \<Longrightarrow> Q r d"
  shows "wp (poll_speech W) Q X t"
proof -
  obtain r g where g: "gateway_poll (tw_codec W) (tw_gateway W) (to_gateway t) = (r, g)" by fastforce
  have "gc_ids g = gc_ids (to_gateway t)" using ids_poll[of "tw_codec W" "tw_gateway W" "to_gateway t"] g by simp
  then have d: "tdrift t (tts_gap W (t\<lparr>to_gateway := g\<rparr>))" by (intro tdrift_then_gap tdrift_gateway) simp
  let ?d = "tts_gap W (t\<lparr>to_gateway := g\<rparr>)"
  let ?e = "c\<lparr>tc_gateway_owned := False, tc_synthesis_clean := client_cleanup_proven (to_gateway ?d)\<rparr>"
  have m: "mid W c \<sigma> ?d" by (rule mid_drift[OF d assms(1)])
  have l: "like c c" "like c ?e" by (simp_all add: like_def)
  from assms(2)[OF m l(1)] assms(2)[OF mid_like[OF m l(2)] l(2)] m g show ?thesis
    by (simp add: wp_def poll_speech_def Let_def tdrift_fields[OF d] mid_def)
qed

lemma wp_accept:
  assumes "mid W c (SpAsked (tc_request c)) t" "\<not> tc_player c" "\<not> tc_mix c"
  shows "wp (accept_speech W r p m) (\<lambda>u. tts_rest W) (\<lambda>e. core W) t"
proof (cases r)
  case (SpeechOutput pcm)
  let ?c = "c\<lparr>tc_provider_id := Some p, tc_model_version := Some m\<rparr>"
  have l: "like c ?c" by (simp add: like_def)
  note m = mid_like[OF assms(1) l]
  have play: "wp (tts_play W pcm) (\<lambda>u. tts_rest W) (\<lambda>e. core W) (d\<lparr>to_effects := to_effects d @ [Delivered (tc_request c) pcm]\<rparr>)"
    if d: "mid W ?c (SpAsked (tc_request c)) d" for d
  proof (rule wp_play[where c = ?c])
    show "mid W ?c (SpGiven (tc_request ?c) pcm) (d\<lparr>to_effects := to_effects d @ [Delivered (tc_request c) pcm]\<rparr>)"
      by (rule mid_log[OF d]) simp_all
  qed (use assms in simp_all)
  have "wp (tts_check W) (\<lambda>u. wp (the_call (\<lambda>c. log_effect (Delivered (tc_request c) pcm))) (\<lambda>u. wp (tts_play W pcm) (\<lambda>u. tts_rest W) (\<lambda>e. core W))
      (\<lambda>e. core W)) (\<lambda>e. core W) (t\<lparr>to_call := Some ?c\<rparr>)"
    by (rule wp_mid_check[OF m]) (use play in \<open>auto simp: wp_the_call mid_def\<close>)
  with SpeechOutput m mid_core[OF m] assms(1) show ?thesis by (simp add: accept_speech_def wp_the_call mid_def)
qed (use mid_core[OF assms(1)] in \<open>simp_all add: accept_speech_def\<close>)

lemma wp_deliver:
  assumes "mid W c (SpAsked (tc_request c)) t" "\<not> tc_player c" "\<not> tc_mix c"
  shows "wp (deliver_speech W r) (\<lambda>u. tts_rest W) (\<lambda>e. core W) t"
proof (cases r)
  case (Failed fs)
  have "like c (c\<lparr>tc_failures := fs\<rparr>)" by (simp add: like_def)
  from mid_core[OF mid_like[OF assms(1) this]] Failed assms(1) show ?thesis by (simp add: deliver_speech_def mid_def)
next
  case (Degraded reply p m f)
  let ?c = "c\<lparr>tc_failures := [f], tc_success := TcDegraded\<rparr>"
  have "like c ?c" by (simp add: like_def)
  from wp_accept[of W ?c "t\<lparr>to_call := Some ?c\<rparr>" reply p m] mid_like[OF assms(1) this] assms Degraded show ?thesis
    by (simp add: deliver_speech_def mid_def)
qed (use wp_accept[OF assms] in \<open>simp add: deliver_speech_def\<close>)

lemma wp_advance_synthesis:
  assumes "mid W c (SpAsked (tc_request c)) t" "\<not> tc_player c" "\<not> tc_mix c" "to_phase t = Synthesizing"
  shows "wp (advance_synthesis W) (\<lambda>u. tts_rest W) (\<lambda>e. core W) t"
  unfolding advance_synthesis_def wp_bind
proof (rule wp_poll_speech[OF assms(1)])
  fix r d e
  assume d: "mid W e (SpAsked (tc_request c)) d" "like c e" "to_phase d = to_phase t"
  have e: "tc_request e = tc_request c" "\<not> tc_player e" "\<not> tc_mix e" using d(2) assms(2,3) by (simp_all add: like_def)
  have lim: "wp (poll_limit tl_synthesis_polls) (\<lambda>u. tts_rest W) (\<lambda>e. core W) f"
    if f: "mid W e (SpAsked (tc_request c)) f" "tdrift d f" for f
    using f(1) d(3) assms(4) e mid_core[OF f(1)]
    by (auto simp: poll_limit_def wp_the_call tts_rest_def call_rest_def in_limit_def mid_def tdrift_fields[OF f(2)] split: option.split)
  show "wp (case r of None \<Rightarrow> m_then (tts_check W) (poll_limit tl_synthesis_polls) | Some result \<Rightarrow> deliver_speech W result)
      (\<lambda>u. tts_rest W) (\<lambda>e. core W) d"
  proof (cases r)
    case None
    then show ?thesis using wp_mid_check[OF d(1)] lim by simp
  next
    case (Some x)
    with wp_deliver[of W e d x] d(1) e show ?thesis by simp
  qed
qed

section \<open>Retiring\<close>

lemma tdrift_held: "tdrift t u \<Longrightarrow> tdrift (t\<lparr>to_held := n\<rparr>) (u\<lparr>to_held := n\<rparr>)"
proof -
  assume "tdrift t u"
  then obtain w k g e m where u: "u = t\<lparr>to_owner := w, to_config := k, to_gateway := g, to_epoch := e, to_time := m\<rparr>"
      "to_epoch t \<le> e" "set (gc_ids (to_gateway t)) \<subseteq> set (gc_ids g)" unfolding tdrift_def by blast
  then show ?thesis by (intro tdriftI[where w = w and k = k and g = g and n = e and m = m]) simp_all
qed

lemma drop_facts:
  assumes "tts_drop W present t = (ok, u)"
  shows "tdrift (t\<lparr>to_held := to_held t - (if present \<and> ok then 1 else 0)\<rparr>) u \<and> (\<not> present \<longrightarrow> ok)"
proof (cases present)
  case True
  obtain m v where m: "tts_tick W t = (m, v)" by fastforce
  have v: "v\<lparr>to_held := to_held t\<rparr> = v" using tdrift_same(8)[OF tdrift_tick[OF m]] by (cases v) simp
  from tdrift_held[OF tdrift_tick[OF m], of "to_held t - 1"] tdrift_held[OF tdrift_tick[OF m], of "to_held t"] v m assms True
    tdrift_same(8)[OF tdrift_tick[OF m]]
  show ?thesis by (auto simp: tts_drop_def split: if_splits)
qed (use assms in \<open>auto simp: tts_drop_def\<close>)

definition emptied :: "tts_call \<Rightarrow> tts_call \<Rightarrow> bool" where
  "emptied c d \<longleftrightarrow> tc_snapshot d = tc_snapshot c \<and> tc_request d = tc_request c \<and> tc_mix_intent d = tc_mix_intent c \<and> tc_epoch d = tc_epoch c
     \<and> handles d = 0 \<and> \<not> tc_gateway_owned d"

lemma cancel_gateway_facts:
  assumes "tts_cancel_gateway W c t = (p, d, u)"
  shows "tdrift t u \<and> like c d \<and> \<not> tc_gateway_owned d \<and> (\<not> tc_gateway_owned c \<longrightarrow> d = c)"
proof (cases "tc_gateway_owned c")
  case True
  let ?v = "tts_gap W (t\<lparr>to_gateway := gateway_cancel (tw_codec W) (tw_gateway W) (to_gateway t)\<rparr>)"
  have v: "tdrift t ?v" by (intro tdrift_then_gap tdrift_gateway) (simp add: ids_cancel)
  obtain r g where g: "gateway_poll (tw_codec W) (tw_gateway W) (to_gateway ?v) = (r, g)" by fastforce
  with ids_poll[of "tw_codec W" "tw_gateway W" "to_gateway ?v"] have "tdrift ?v (tts_gap W (?v\<lparr>to_gateway := g\<rparr>))"
    by (intro tdrift_then_gap tdrift_gateway) simp
  from tdrift_trans[OF v this] True g assms show ?thesis by (auto simp: tts_cancel_gateway_def Let_def like_def)
qed (use assms in \<open>auto simp: tts_cancel_gateway_def like_def\<close>)

text \<open>An exception leaves \<open>_retire\<close> only when the completion cannot be named.\<close>

definition unnamed :: "tts_call \<Rightarrow> bool" where
  "unnamed c \<longleftrightarrow> completion_init TcIdle (tc_provider_id c) (tc_model_version c) (tc_failures c) = None"

lemma tts_cleanup_facts:
  assumes "tts_cleanup W c t = (clean, d, u)"
  shows "\<exists>n. tdrift (t\<lparr>to_held := n\<rparr>) u \<and> emptied c d \<and> (clean \<longrightarrow> \<not> tc_unknown c \<and> n = to_held t - handles c)
    \<and> (\<not> tc_gateway_owned c \<and> unnamed c \<longrightarrow> unnamed d)"
proof -
  obtain p e v where e: "tts_cancel_gateway W c t = (p, e, v)" by (cases "tts_cancel_gateway W c t") auto
  obtain a x where x: "tts_drop W (tc_player e) v = (a, x)" by fastforce
  obtain b y where y: "tts_drop W (tc_mix e) x = (b, y)" by fastforce
  note ef = cancel_gateway_facts[OF e] and xf = drop_facts[OF x] and yf = drop_facts[OF y]
  let ?i = "if tc_player e \<and> a then 1 else 0 :: nat" and ?j = "if tc_mix e \<and> b then 1 else 0 :: nat"
  have hx: "to_held v = to_held t" "to_held x = to_held t - ?i" using tdrift_same(8) ef xf by fastforce+
  have 1: "tdrift (t\<lparr>to_held := to_held t - ?i - ?j\<rparr>) (v\<lparr>to_held := to_held t - ?i - ?j\<rparr>)" using ef by (simp add: tdrift_held)
  have 2: "tdrift (v\<lparr>to_held := to_held t - ?i - ?j\<rparr>) (x\<lparr>to_held := to_held t - ?i - ?j\<rparr>)"
    using tdrift_held[OF conjunct1[OF xf], of "to_held t - ?i - ?j"] by simp
  have 3: "tdrift (x\<lparr>to_held := to_held t - ?i - ?j\<rparr>) y" using yf hx by simp
  from tdrift_trans[OF tdrift_trans[OF 1 2] 3] have "tdrift (t\<lparr>to_held := to_held t - ?i - ?j\<rparr>) y" .
  moreover have "u = y" "d = e\<lparr>tc_player := False, tc_mix := False\<rparr>"
      "clean \<longleftrightarrow> \<not> tc_unknown e \<and> tc_synthesis_clean e \<and> p \<and> a \<and> b"
    using assms e x y by (auto simp: tts_cleanup_def)
  moreover have "clean \<longrightarrow> to_held t - ?i - ?j = to_held t - handles c" using calculation(4) ef by (auto simp: like_def handles_def)
  ultimately show ?thesis using ef by (intro exI[of _ "to_held t - ?i - ?j"]) (auto simp: emptied_def like_def handles_def unnamed_def)
qed

definition tts_calm :: "tts \<Rightarrow> tts \<Rightarrow> bool" where
  "tts_calm t d \<longleftrightarrow> to_effects d = to_effects t \<and> (to_fault t \<longrightarrow> to_fault d)"

definition retired :: "tts_world \<Rightarrow> tts \<Rightarrow> tts_call \<Rightarrow> tts \<Rightarrow> bool" where
  "retired W t c d \<longleftrightarrow> core W d \<and> tts_calm t d \<and> to_call d = None
     \<and> (\<exists>r. to_terminal d = Some r \<and> (tc_epoch c < to_epoch t \<longrightarrow> cpl_code r \<in> {TcCanceled, TcCleanup}))"

definition stuck :: "tts_world \<Rightarrow> tts \<Rightarrow> tts \<Rightarrow> bool" where
  "stuck W t d \<longleftrightarrow> core W d \<and> tts_calm t d \<and> to_phase d = TtsStopping \<and> (\<exists>c. to_call d = Some c \<and> unnamed c \<and> \<not> tc_gateway_owned c)"

lemma wp_retire:
  assumes "core W t" "to_call t = Some c"
  shows "wp (tts_retire W k) (\<lambda>u d. retired W t c d \<and> \<not> (unnamed c \<and> \<not> tc_gateway_owned c)) (\<lambda>e. stuck W t) t"
proof -
  note t = assms(1)[unfolded core_def assms(2)]
  obtain clean d u where u: "tts_cleanup W c (t\<lparr>to_phase := TtsStopping\<rparr>) = (clean, d, u)"
    by (cases "tts_cleanup W c (t\<lparr>to_phase := TtsStopping\<rparr>)") auto
  from tts_cleanup_facts[OF u] obtain n where n: "tdrift (t\<lparr>to_phase := TtsStopping, to_held := n\<rparr>) u" "emptied c d"
      "clean \<longrightarrow> \<not> tc_unknown c \<and> n = to_held t - handles c" "\<not> tc_gateway_owned c \<and> unnamed c \<longrightarrow> unnamed d" by auto
  obtain r v where v: "tts_check W (u\<lparr>to_call := Some d\<rparr>) = (r, v)" by fastforce
  have vd: "tdrift (u\<lparr>to_call := Some d\<rparr>) v"
    using wp_tts_check[of "u\<lparr>to_call := Some d\<rparr>" "\<lambda>x. tdrift (u\<lparr>to_call := Some d\<rparr>)" "\<lambda>e. tdrift (u\<lparr>to_call := Some d\<rparr>)" W] v
    by (auto simp: wp_def split: sum.splits)
  define w where "w = (if clean then v else v\<lparr>to_fault := True\<rparr>)"
  have lu: "speech_log W u" using speech_log_drift[OF n(1)] t by simp
  have lw: "speech_log W w" using speech_log_drift[OF vd] lu by (simp add: w_def)
  have w: "to_catalog w = to_catalog t" "to_call w = Some d" "to_terminal w = None" "to_phase w = TtsStopping"
      "to_fault w \<or> to_held w = 0" "to_epoch t \<le> to_epoch w" "tts_calm t w"
    using tdrift_fields[OF n(1)] tdrift_fields[OF vd] tdrift_same(10)[OF n(1)] tdrift_same(10)[OF vd] n(3) t by (auto simp: w_def tts_calm_def)
  have d: "admitted_as W (to_catalog t) (tc_snapshot d) (tc_request d) (tc_mix_intent d)" "tc_epoch d = tc_epoch c" "handles d = 0"
    using n(2) t by (auto simp: emptied_def)
  have sw: "unnamed d \<Longrightarrow> stuck W t w" using lw w d t n(2) by (auto simp: stuck_def core_def emptied_def)
  have gone: "retired W t c (tts_conclude clean g x d y)" if y: "tdrift w y" and x: "\<not> clean \<longrightarrow> cpl_code x = TcCleanup" for g x y
  proof -
    have "speech_log W y" by (rule speech_log_drift[OF y lw])
    moreover have "to_fault y \<or> to_held y = 0" "to_epoch t \<le> to_epoch y" using w(5,6) tdrift_fields[OF y] tdrift_same(10)[OF y] by auto
    moreover have "tts_calm t y" using w(7) tdrift_fields[OF y] by (simp add: tts_calm_def)
    then have "tts_calm t (tts_conclude clean g x d y)" by (simp add: tts_calm_def tts_conclude_def Let_def)
    ultimately show ?thesis using x d(2) by (auto simp: retired_def core_def tts_conclude_def Let_def)
  qed
  have sgap: "stuck W t y" if y: "tdrift w y" "unnamed d" for y
    using core_drift[OF y(1), of W] sw[OF y(2)] tdrift_fields[OF y(1)] by (auto simp: stuck_def tts_calm_def)
  show ?thesis
  proof (cases "call_generation d")
    case None
    with d(1) show ?thesis by (auto simp: admitted_as_def turn_ok_def call_generation_def split: option.splits)
  next
    case (Some g)
    obtain e y where e: "(if clean then (None, to_owner w) else session_release (VInt g) (VBool False) (to_owner w)) = (e, y)" by fastforce
    let ?k = "if clean then (case r of Inr u \<Rightarrow> k | Inl (TtsStop s) \<Rightarrow> s | Inl TtsThrow \<Rightarrow> TcUnavailable) else TcCleanup"
    define z where "z = tts_gap W (w\<lparr>to_owner := y\<rparr>)"
    have z: "tdrift w z" unfolding z_def by (rule tdrift_then_gap[OF tdrift_owner])
    have "tts_retire W k t = (if e = Some InvalidGeneration then (Inl TtsThrow, w)
        else case completion_init ?k (tc_provider_id d) (tc_model_version d) (tc_failures d) of
          None \<Rightarrow> (Inl TtsThrow, z) | Some x \<Rightarrow> (Inr (), tts_conclude clean g x d z))"
      by (simp only: tts_retire_def the_call_def m_read_def assms(2) option.case u prod.case v Let_def w_def[symmetric] Some e z_def[symmetric])
    moreover have "cpl_code x = ?k" if "completion_init ?k (tc_provider_id d) (tc_model_version d) (tc_failures d) = Some x" for x
      using that by (auto simp: completion_init_def require_def split: if_splits)
    moreover have "e \<noteq> Some InvalidGeneration"
      using e Some d(1) by (auto simp: admitted_as_def turn_ok_def call_generation_def session_release_def positive_def split: if_splits option.splits)
    moreover have "completion_init ?k (tc_provider_id d) (tc_model_version d) (tc_failures d) = None \<Longrightarrow> unnamed d"
      by (auto simp: unnamed_def completion_init_def require_def split: if_splits)
    moreover have "completion_init ?k (tc_provider_id d) (tc_model_version d) (tc_failures d) \<noteq> None \<Longrightarrow> \<not> unnamed d"
      by (auto simp: unnamed_def completion_init_def require_def split: if_splits)
    ultimately show ?thesis using sw sgap[OF z] gone[OF z] n(4) by (auto simp: wp_def split: option.split)
  qed
qed

lemma stuck_rest: "stuck W d t \<Longrightarrow> tts_rest W t"
  by (auto simp: stuck_def tts_rest_def call_rest_def)

lemma retired_rest: "retired W t c d \<Longrightarrow> tts_rest W d"
  by (auto simp: retired_def tts_rest_def)

lemma idle_rest: "core W t \<Longrightarrow> to_call t = None \<Longrightarrow> tts_rest W t"
  by (simp add: tts_rest_def)

section \<open>Operations\<close>

lemma wp_advance_playback:
  assumes "mid W c \<sigma> t" "tc_player c" "tc_mix c" "to_phase t = Playing"
  shows "wp (advance_playback W) (\<lambda>u. tts_rest W) (\<lambda>e. core W) t"
proof -
  have finish: "wp (case r of PlaybackComplete \<Rightarrow> the_call (\<lambda>c. tts_retire W (tc_success c)) | PlaybackPending \<Rightarrow> poll_limit tl_playback_polls
      | _ \<Rightarrow> m_raise (TtsStop TcUnavailable)) (\<lambda>u. tts_rest W) (\<lambda>e. core W) d"
    if d: "mid W c \<sigma> d" "to_phase d = Playing" for d r
  proof -
    have "wp (tts_retire W k) (\<lambda>u. tts_rest W) (\<lambda>e. core W) d" for k
      by (rule wp_mono[OF wp_retire[OF mid_core[OF d(1)], of c k]]) (use d(1) in \<open>auto simp: mid_def retired_rest stuck_def\<close>)
    with d assms mid_core[OF d(1)] show ?thesis
      by (auto simp: wp_the_call poll_limit_def mid_def tts_rest_def call_rest_def in_limit_def split: playback_reply.split option.split)
  qed
  obtain m u where m: "tts_tick W t = (m, u)" by fastforce
  have u: "mid W c \<sigma> u" "to_phase u = Playing" using mid_drift[OF tdrift_tick[OF m] assms(1)] assms(4) tdrift_fields[OF tdrift_tick[OF m]] by auto
  have "wp (tts_check W) (\<lambda>x. wp (case r of PlaybackComplete \<Rightarrow> the_call (\<lambda>c. tts_retire W (tc_success c))
      | PlaybackPending \<Rightarrow> poll_limit tl_playback_polls | _ \<Rightarrow> m_raise (TtsStop TcUnavailable)) (\<lambda>u. tts_rest W) (\<lambda>e. core W)) (\<lambda>e. core W) u" for r
    by (rule wp_mid_check[OF u(1)]) (use finish u(2) in \<open>auto simp: tdrift_fields\<close>)
  with m assms(1) mid_core[OF u(1)] show ?thesis
    by (simp add: advance_playback_def poll_player_def wp_the_call wp_tick mid_def)
qed

lemma wp_advance:
  assumes "tts_rest W t"
  shows "wp (tts_advance W) (\<lambda>u. tts_rest W) (\<lambda>e. core W) t"
proof (cases "to_call t")
  case None
  with assms show ?thesis by (simp add: tts_advance_def)
next
  case (Some c)
  have "wp (tts_check W) (\<lambda>u. wp (set_call (\<lambda>c. c\<lparr>tc_polls := tc_polls c + 1\<rparr>)) (\<lambda>u. wp (m_read (\<lambda>t.
       case to_phase t of Synthesizing \<Rightarrow> advance_synthesis W | Playing \<Rightarrow> advance_playback W | _ \<Rightarrow> m_ret ())) (\<lambda>u. tts_rest W) (\<lambda>e. core W))
      (\<lambda>e. core W)) (\<lambda>e. core W) t"
  proof (rule wp_tts_check)
    fix e d assume d: "tdrift t d"
    show "core W d" using core_drift[OF d] assms by (simp add: tts_rest_def)
  next
    fix d x assume d: "tdrift t d" "to_call d = Some x"
    let ?x = "x\<lparr>tc_polls := tc_polls x + 1\<rparr>"
    have r: "tts_rest W d" by (rule rest_drift[OF d(1) assms])
    then have c: "core W d" "call_rest (to_phase d) (to_fault d) (to_effects d) x" using d(2) by (simp_all add: tts_rest_def)
    have mid: "mid W x \<sigma> d \<Longrightarrow> mid W ?x \<sigma> (d\<lparr>to_call := Some ?x\<rparr>)" for \<sigma> by (rule mid_like) (simp_all add: like_def)
    have "wp (case to_phase d of Synthesizing \<Rightarrow> advance_synthesis W | Playing \<Rightarrow> advance_playback W | _ \<Rightarrow> m_ret ())
        (\<lambda>u. tts_rest W) (\<lambda>e. core W) (d\<lparr>to_call := Some ?x\<rparr>)"
    proof (cases "to_phase d")
      case Synthesizing
      with c d(2) have "mid W x (SpAsked (tc_request x)) d" by (simp add: mid_def call_rest_def)
      from wp_advance_synthesis[of W ?x "d\<lparr>to_call := Some ?x\<rparr>"] mid[OF this] Synthesizing c(2) show ?thesis by (simp add: call_rest_def)
    next
      case Playing
      obtain \<sigma> where "stages SpQuiet (to_effects d) = Some \<sigma>" using c(1) by (auto simp: core_def speech_log_def)
      with c d(2) Playing have "mid W x \<sigma> d" by (simp add: mid_def call_rest_def)
      from wp_advance_playback[OF mid[OF this]] Playing c(2) show ?thesis by (simp add: call_rest_def)
    qed (use c d(2) in \<open>auto simp: call_rest_def tts_rest_def core_def handles_def\<close>)
    with d(2) show "wp (set_call (\<lambda>c. c\<lparr>tc_polls := tc_polls c + 1\<rparr>)) (\<lambda>u. wp (m_read (\<lambda>t.
       case to_phase t of Synthesizing \<Rightarrow> advance_synthesis W | Playing \<Rightarrow> advance_playback W | _ \<Rightarrow> m_ret ())) (\<lambda>u. tts_rest W) (\<lambda>e. core W))
      (\<lambda>e. core W) d" by simp
  qed
  with Some show ?thesis by (simp add: tts_advance_def)
qed

section \<open>Starting\<close>

definition lawful :: "tts_world \<Rightarrow> bool" where
  "lawful W \<longleftrightarrow> json_codec (cd_dumps (tw_codec W)) (cd_parse (tw_codec W))"

lemma parsed_same: "lawful W \<Longrightarrow> parsed_request (tw_codec W) (Some q) = Inr p \<Longrightarrow> p = q"
  by (auto simp: lawful_def parsed_request_def split: sum.splits dest: request_roundtrip)

lemma wp_request:
  assumes "lawful W" "mid W c \<sigma> t" "tc_request c = q"
    "\<And>d. mid W c (SpAsked q) d \<Longrightarrow> to_phase d = to_phase t \<Longrightarrow> Q None d"
    "\<And>k d. mid W c \<sigma> d \<Longrightarrow> to_phase d = to_phase t \<Longrightarrow> Q (Some k) d"
  shows "wp (request_speech W q) Q X t"
proof -
  note t = assms(2)[unfolded mid_iff]
  obtain e g where g: "gateway_start (tw_codec W) (tw_gateway W) (Some q) (to_gateway t) = (e, g)" by fastforce
  note ids = ids_start[OF g]
  show ?thesis
  proof (cases e)
    case (Some k)
    with ids have "tdrift t (tts_gap W (t\<lparr>to_gateway := g\<rparr>))" by (intro tdrift_then_gap tdrift_gateway) simp
    from assms(5)[OF mid_drift[OF this assms(2)]] tdrift_fields[OF this] g Some show ?thesis by (simp add: wp_def request_speech_def)
  next
    case None
    with ids obtain p where p: "parsed_request (tw_codec W) (Some q) = Inr p" "gq_request_id p \<notin> set (gc_ids (to_gateway t))"
        "gc_ids g = gq_request_id p # gc_ids (to_gateway t)" by auto
    have pq: "p = q" by (rule parsed_same[OF assms(1) p(1)])
    let ?u = "t\<lparr>to_gateway := g, to_effects := to_effects t @ [Requested q]\<rparr>"
    have "speech_log W ?u" using t p(2,3) assms(3)
      by (auto simp: speech_log_def stages_append asked_ids_def pq)
    then have u: "mid W c (SpAsked q) ?u" using t by (simp add: mid_iff stages_append)
    from assms(4)[OF mid_drift[OF tdrift_gap u]] tdrift_fields[OF tdrift_gap[of ?u W]] g None show ?thesis
      by (simp add: wp_def request_speech_def)
  qed
qed

definition idle_now :: "tts_world \<Rightarrow> tts \<Rightarrow> bool" where
  "idle_now W t \<longleftrightarrow> core W t \<and> to_call t = None \<and> \<not> to_fault t \<and> to_terminal t = None"

lemma idle_drift: "tdrift t u \<Longrightarrow> idle_now W t \<Longrightarrow> idle_now W u"
  using core_drift[of t u W] by (auto simp: idle_now_def tdrift_fields)

lemma admit_turn: "tts_admit sha cd u s a v = Some (TtsReady q x) \<Longrightarrow> as_current_turn s = Some (ut_token u)"
  by (auto dest!: admit_ready simp: speakable_def Let_def split: if_splits option.splits audio_rule.splits)

lemma belongs_positive: "belongs w k \<Longrightarrow> 0 < tt_generation k"
  by (auto simp: belongs_def Let_def session_accepts_def positive_def split: option.splits if_splits)

lemma wp_start_belonging:
  assumes "lawful W" "idle_now W t" "admitted_as W (to_catalog t) s q x" "n \<le> to_epoch t" "belongs (to_owner t) k"
  shows "wp (start_call W k n s q x) (\<lambda>b. tts_rest W) (\<lambda>e. core W) t"
proof -
  let ?c = "new_call s q x n"
  have t: "core W t" "speech_log W t" "to_call t = None" "\<not> to_fault t" "to_terminal t = None" "to_held t = 0" "to_phase t = TtsIdle"
    using assms(2) by (auto simp: idle_now_def core_def)
  obtain \<sigma> where \<sigma>: "stages SpQuiet (to_effects t) = Some \<sigma>" using t(2) by (auto simp: speech_log_def)
  have m: "mid W ?c \<sigma> (t\<lparr>to_call := Some ?c\<rparr>)" using t \<sigma> assms(3,4) by (simp add: mid_iff new_call_def handles_def)
  have pol: "\<exists>p. as_policy s = Some p" using admitted_policy[OF assms(3)] .
  have refused: "core W (d\<lparr>to_call := None, to_code := z\<rparr>)" if "mid W ?c \<sigma> d" "to_phase d = TtsIdle" for d z
    using that by (simp add: mid_iff core_def new_call_def handles_def)
  have started: "wp (set_call (\<lambda>c. c\<lparr>tc_gateway_owned := True\<rparr>)) (\<lambda>u. wp (m_set (\<lambda>t. t\<lparr>to_phase := Synthesizing, to_code := TcStarted\<rparr>))
      (\<lambda>u. wp (tts_check W) (\<lambda>u. tts_rest W) (\<lambda>e. core W)) (\<lambda>e. core W)) (\<lambda>e. core W) d"
    if d: "mid W ?c (SpAsked q) d" for d
  proof -
    let ?o = "?c\<lparr>tc_gateway_owned := True\<rparr>"
    have "mid W ?o (SpAsked q) (d\<lparr>to_call := Some ?o\<rparr>)" by (rule mid_like[OF d]) (simp add: like_def)
    then have o: "mid W ?o (SpAsked q) (d\<lparr>to_call := Some ?o, to_phase := Synthesizing, to_code := TcStarted\<rparr>)" by (simp add: mid_iff)
    have "wp (tts_check W) (\<lambda>u. tts_rest W) (\<lambda>e. core W) (d\<lparr>to_call := Some ?o, to_phase := Synthesizing, to_code := TcStarted\<rparr>)"
      by (rule wp_mid_check[OF o])
        (use pol in \<open>auto simp: mid_def tts_rest_def call_rest_def in_limit_def new_call_def tdrift_fields\<close>)
    with d show ?thesis by (simp add: mid_def)
  qed
  have "wp (tts_check W) (\<lambda>u. wp (request_speech W q) (\<lambda>e. wp (case e of
        Some k \<Rightarrow> m_then (m_set (\<lambda>t. t\<lparr>to_call := None, to_code := gateway_tcode k\<rparr>)) (m_ret False)
      | None \<Rightarrow>
          m_then (set_call (\<lambda>c. c\<lparr>tc_gateway_owned := True\<rparr>))
          (m_then (m_set (\<lambda>t. t\<lparr>to_phase := Synthesizing, to_code := TcStarted\<rparr>))
          (m_then (tts_check W) (m_ret True)))) (\<lambda>b. tts_rest W) (\<lambda>e. core W)) (\<lambda>e. core W)) (\<lambda>e. core W) (t\<lparr>to_call := Some ?c\<rparr>)"
  proof (rule wp_mid_check[OF m])
    fix d assume d: "mid W ?c \<sigma> d" "tdrift (t\<lparr>to_call := Some ?c\<rparr>) d"
    have p: "to_phase d = TtsIdle" using tdrift_fields[OF d(2)] t(7) by simp
    show "wp (request_speech W q) (\<lambda>e. wp (case e of
        Some k \<Rightarrow> m_then (m_set (\<lambda>t. t\<lparr>to_call := None, to_code := gateway_tcode k\<rparr>)) (m_ret False)
      | None \<Rightarrow>
          m_then (set_call (\<lambda>c. c\<lparr>tc_gateway_owned := True\<rparr>))
          (m_then (m_set (\<lambda>t. t\<lparr>to_phase := Synthesizing, to_code := TcStarted\<rparr>))
          (m_then (tts_check W) (m_ret True)))) (\<lambda>b. tts_rest W) (\<lambda>e. core W)) (\<lambda>e. core W) d"
      by (rule wp_request[OF assms(1) d(1)])
        (use started refused p in \<open>auto simp: new_call_def intro!: idle_rest\<close>)
  qed
  with t(1) assms(5) show ?thesis by (simp add: start_call_def)
qed

lemma wp_start_call:
  assumes "lawful W" "idle_now W t" "tts_admit (tw_sha W) (tw_codec W) u s a (to_catalog t) = Some (TtsReady q x)" "n \<le> to_epoch t"
  shows "wp (start_call W (ut_token u) n s q x) (\<lambda>b. tts_rest W) (\<lambda>e. core W) t"
proof (cases "belongs (to_owner t) (ut_token u)")
  case True
  have "admitted_as W (to_catalog t) s q x"
    using assms(3) admit_turn[OF assms(3)] belongs_positive[OF True] by (auto simp: admitted_as_def turn_ok_def)
  from wp_start_belonging[OF assms(1,2) this assms(4) True] show ?thesis .
next
  case False
  with assms(2) show ?thesis by (simp add: start_call_def idle_now_def)
qed

lemma wp_start_speech:
  assumes "lawful W" "idle_now W t"
  shows "wp (start_speech W u) (\<lambda>b. tts_rest W) (\<lambda>e. core W) t"
proof -
  have "wp (tts_state W) (\<lambda>a. wp (m_read (\<lambda>t. m_demand TtsThrow (tts_admit (tw_sha W) (tw_codec W) u s a (to_catalog t))))
      (\<lambda>r. wp (case r of TtsDenied k \<Rightarrow> m_then (m_set (\<lambda>t. t\<lparr>to_code := k\<rparr>)) (m_ret False)
       | TtsReady q x \<Rightarrow> start_call W (ut_token u) (to_epoch t) s q x) (\<lambda>b. tts_rest W) (\<lambda>e. core W)) (\<lambda>e. core W)) (\<lambda>e. core W) d"
    if d: "tdrift t d" for d s
  proof (rule wp_tts_state)
    show "core W d" using idle_drift[OF d assms(2)] by (simp add: idle_now_def)
    fix a e assume e: "tdrift d e"
    have i: "idle_now W e" "to_epoch t \<le> to_epoch e" using idle_drift[OF tdrift_trans[OF d e] assms(2)] tdrift_same(10)[OF tdrift_trans[OF d e]] by auto
    have ready: "wp (start_call W (ut_token u) (to_epoch t) s q x) (\<lambda>b. tts_rest W) (\<lambda>e. core W) e"
      if "tts_admit (tw_sha W) (tw_codec W) u s a (to_catalog e) = Some (TtsReady q x)" for q x
      by (rule wp_start_call[OF assms(1) i(1) that i(2)])
    show "wp (m_read (\<lambda>t. m_demand TtsThrow (tts_admit (tw_sha W) (tw_codec W) u s a (to_catalog t))))
      (\<lambda>r. wp (case r of TtsDenied k \<Rightarrow> m_then (m_set (\<lambda>t. t\<lparr>to_code := k\<rparr>)) (m_ret False)
       | TtsReady q x \<Rightarrow> start_call W (ut_token u) (to_epoch t) s q x) (\<lambda>b. tts_rest W) (\<lambda>e. core W)) (\<lambda>e. core W) e"
      using i(1) ready by (auto simp: idle_now_def intro: idle_rest split: option.split tts_admission.split)
  qed
  then show ?thesis unfolding start_speech_def using core_drift[of t _ W] assms(2)
    by (auto simp: idle_now_def intro!: wp_tts_sample)
qed

section \<open>Runs\<close>

lemma tts_calm_trans: "tts_calm t u \<Longrightarrow> tts_calm u v \<Longrightarrow> tts_calm t v"
  by (simp add: tts_calm_def)

lemma calm_drift: "tdrift t u \<Longrightarrow> tts_calm t u"
  by (simp add: tts_calm_def tdrift_fields)

lemma core_parts: "core W (t\<lparr>to_busy := b\<rparr>) = core W t" "tts_calm (t\<lparr>to_busy := b\<rparr>) d = tts_calm t d" "tts_calm t (d\<lparr>to_busy := b\<rparr>) = tts_calm t d"
  by (simp_all add: tts_calm_def)

text \<open>\<open>_stop_or_notice\<close>: a call that cannot be named is not retired the second time either.\<close>

definition unnamable :: "tts \<Rightarrow> bool" where
  "unnamable t \<longleftrightarrow> (\<exists>c. to_call t = Some c \<and> unnamed c \<and> \<not> tc_gateway_owned c)"

lemma wp_notice:
  assumes "core W t"
  shows "wp (stop_or_notice W k) (\<lambda>u d. tts_rest W d \<and> tts_calm t d \<and> to_call d = None \<and> \<not> unnamable t) (\<lambda>e. stuck W t) t"
proof (cases "to_call t")
  case None
  with assms show ?thesis by (simp add: stop_or_notice_def idle_rest tts_calm_def unnamable_def)
next
  case (Some c)
  have "wp (tts_retire W k) (\<lambda>u d. tts_rest W d \<and> tts_calm t d \<and> to_call d = None \<and> \<not> unnamable t) (\<lambda>e. stuck W t) t"
    by (rule wp_mono[OF wp_retire[OF assms Some, of k]]) (use Some in \<open>auto simp: retired_def idle_rest unnamable_def\<close>)
  with Some show ?thesis by (simp add: stop_or_notice_def)
qed

lemma tts_run_facts:
  assumes "\<not> to_busy t" "wp operation (\<lambda>x d. tts_rest W d \<and> P x d) (\<lambda>e d. core W d \<and> R d) (t\<lparr>to_busy := True\<rparr>)"
    "tts_run W refused operation t = (r, z)"
  shows "tts_rest W z \<and> \<not> to_busy z \<and> ((\<exists>x d. r = Some x \<and> P x d \<and> z = d\<lparr>to_busy := False\<rparr>)
    \<or> (\<exists>d. R d \<and> tts_calm d z \<and> (if r = None then \<exists>c. to_call z = Some c \<and> unnamed c else r = Some refused \<and> to_call z = None \<and> \<not> unnamable d)))"
proof -
  obtain a d where a: "operation (t\<lparr>to_busy := True\<rparr>) = (a, d)" by fastforce
  show ?thesis
  proof (cases a)
    case (Inr x)
    with assms a show ?thesis by (auto simp: wp_def tts_run_def)
  next
    case (Inl e)
    have d: "core W d" "R d" using assms(2) a Inl by (auto simp: wp_def)
    obtain b y where y: "stop_or_notice W (case e of TtsStop k \<Rightarrow> k | TtsThrow \<Rightarrow> TcUnavailable) d = (b, y)" by fastforce
    have z: "z = y\<lparr>to_busy := False\<rparr>" "r = (case b of Inr u \<Rightarrow> Some refused | Inl s \<Rightarrow> None)"
      using assms(1,3) a Inl y by (auto simp: tts_run_def)
    from wp_notice[OF d(1), of "case e of TtsStop k \<Rightarrow> k | TtsThrow \<Rightarrow> TcUnavailable"] y d(2) z show ?thesis
      by (cases b) (auto simp: wp_def core_parts stuck_rest[of W d] stuck_def intro!: exI[of _ d])
  qed
qed

lemma rest_core: "tts_rest W t \<Longrightarrow> core W t"
  by (simp add: tts_rest_def)

lemma taken_rest: "tts_rest W t \<Longrightarrow> tts_rest W (t\<lparr>to_terminal := None\<rparr>)"
  by (cases "to_call t") (auto simp: tts_rest_def core_def)

lemma start_rest:
  assumes "lawful W" "tts_rest W t" "\<not> to_busy t"
  shows "tts_rest W (snd (tts_start W u t)) \<and> \<not> to_busy (snd (tts_start W u t))"
proof (cases "u = None \<or> to_fault t \<or> to_call t \<noteq> None \<or> to_terminal t \<noteq> None")
  case True
  with assms show ?thesis by (auto simp: tts_start_def split: option.split)
next
  case False
  then obtain v where v: "u = Some v" by auto
  have "idle_now W (t\<lparr>to_busy := True\<rparr>)" using False assms(2) by (auto simp: idle_now_def rest_core)
  from wp_start_speech[OF assms(1) this, of v]
  have w: "wp (start_speech W v) (\<lambda>x d. tts_rest W d \<and> True) (\<lambda>e d. core W d \<and> True) (t\<lparr>to_busy := True\<rparr>)" by simp
  obtain r z where z: "tts_run W False (start_speech W v) t = (r, z)" by fastforce
  from tts_run_facts[OF assms(3) w z] z False v show ?thesis by (auto simp: tts_start_def split: option.split)
qed

lemma tts_poll_rest:
  assumes "tts_rest W t" "\<not> to_busy t"
  shows "tts_rest W (snd (tts_poll W t)) \<and> \<not> to_busy (snd (tts_poll W t))"
proof -
  have w: "wp (tts_advance W) (\<lambda>x d. tts_rest W d \<and> True) (\<lambda>e d. core W d \<and> True) (t\<lparr>to_busy := True\<rparr>)"
    using wp_advance[of W "t\<lparr>to_busy := True\<rparr>"] assms(1) by simp
  obtain r z where z: "tts_run W () (tts_advance W) t = (r, z)" by fastforce
  from tts_run_facts[OF assms(2) w z] z assms(2) show ?thesis by (auto simp: tts_poll_def taken_rest split: option.split)
qed

lemma settle_facts:
  assumes "tts_rest W t" "\<not> to_busy t" "to_call t = Some c" "tts_settle W t = (r, z)"
  shows "tts_rest W z \<and> \<not> to_busy z \<and> tts_calm t z \<and> (case r of
      Some u \<Rightarrow> to_call z = None \<and> (tc_epoch c < to_epoch t \<longrightarrow> (\<exists>x. to_terminal z = Some x \<and> cpl_code x \<in> {TcCanceled, TcCleanup}))
    | None \<Rightarrow> \<exists>d. to_call z = Some d \<and> unnamed d)"
proof -
  let ?P = "\<lambda>x d. retired W (t\<lparr>to_busy := True\<rparr>) c d" and ?R = "\<lambda>d. stuck W (t\<lparr>to_busy := True\<rparr>) d"
  have w: "wp (tts_retire W TcCanceled) (\<lambda>x d. tts_rest W d \<and> ?P x d) (\<lambda>e d. core W d \<and> ?R d) (t\<lparr>to_busy := True\<rparr>)"
    by (rule wp_mono[OF wp_retire[of W "t\<lparr>to_busy := True\<rparr>" c]])
      (use assms in \<open>auto simp: rest_core retired_rest stuck_def\<close>)
  have run: "tts_run W () (tts_retire W TcCanceled) t = (r, z)" using assms by (simp add: tts_settle_def)
  from tts_run_facts[OF assms(2) w run] consider
      (ended) d where "r = Some ()" "tts_rest W z" "retired W (t\<lparr>to_busy := True\<rparr>) c d" "z = d\<lparr>to_busy := False\<rparr>"
    | (again) d where "tts_rest W z" "\<not> to_busy z" "stuck W (t\<lparr>to_busy := True\<rparr>) d" "tts_calm d z"
        "if r = None then \<exists>c. to_call z = Some c \<and> unnamed c else r = Some () \<and> to_call z = None \<and> \<not> unnamable d" by auto
  then show ?thesis
  proof cases
    case ended
    then show ?thesis by (auto simp: retired_def tts_calm_def)
  next
    case again
    have "unnamable d" using again(3) by (auto simp: stuck_def unnamable_def)
    with again show ?thesis by (auto simp: stuck_def tts_calm_def split: if_splits option.split)
  qed
qed

lemma tdrift_invalidate: "tdrift t (tts_gap W (tts_invalidate t))"
  using tdrift_trans[OF tdrift_interfere[of t W TtsInvalidate] tdrift_gap] by simp

lemma tts_settle_rest:
  assumes "tts_rest W t" "\<not> to_busy t"
  shows "tts_rest W (snd (tts_settle W t)) \<and> \<not> to_busy (snd (tts_settle W t)) \<and> tts_calm t (snd (tts_settle W t))"
proof (cases "to_call t")
  case (Some c)
  obtain r z where "tts_settle W t = (r, z)" by fastforce
  with settle_facts[OF assms Some] show ?thesis by simp
qed (use assms in \<open>simp add: tts_settle_def tts_calm_def\<close>)

lemma tts_cancel_rest:
  assumes "tts_rest W t" "\<not> to_busy t"
  shows "tts_rest W (snd (tts_cancel W t)) \<and> \<not> to_busy (snd (tts_cancel W t)) \<and> tts_calm t (snd (tts_cancel W t))"
proof -
  let ?u = "tts_gap W (tts_invalidate t)"
  have u: "tts_rest W ?u" "\<not> to_busy ?u" "tts_calm t ?u"
    using rest_drift[OF tdrift_invalidate assms(1)] tdrift_fields[OF tdrift_invalidate[of t W]] assms(2) by (simp_all add: tts_calm_def)
  from tts_settle_rest[OF u(1,2)] tts_calm_trans[OF u(3)] show ?thesis by (auto simp: tts_cancel_def)
qed

lemma tts_do_rest:
  assumes "lawful W" "tts_rest W t" "\<not> to_busy t"
  shows "tts_rest W (tts_do W act t) \<and> \<not> to_busy (tts_do W act t)"
proof (cases act)
  case (TtsBetween i)
  then show ?thesis using rest_drift[OF tdrift_interfere assms(2)] tdrift_fields(2)[OF tdrift_interfere] assms(3) by simp
qed (use start_rest[OF assms] tts_poll_rest[OF assms(2,3)] tts_cancel_rest[OF assms(2,3)] tts_settle_rest[OF assms(2,3)] in simp_all)

lemma wp_advance_faulted:
  assumes "tts_rest W t" "to_fault t"
  shows "wp (tts_advance W) (\<lambda>u d. tts_rest W d \<and> tts_calm t d) (\<lambda>e d. core W d \<and> tts_calm t d) t"
proof (cases "to_call t")
  case None
  with assms show ?thesis by (simp add: tts_advance_def tts_calm_def)
next
  case (Some c)
  have stop: "to_phase t = TtsStopping" using assms Some by (auto simp: tts_rest_def call_rest_def split: tts_phase.splits)
  have "wp (tts_check W) (\<lambda>u. wp (set_call (\<lambda>c. c\<lparr>tc_polls := tc_polls c + 1\<rparr>)) (\<lambda>u. wp (m_read (\<lambda>t.
       case to_phase t of Synthesizing \<Rightarrow> advance_synthesis W | Playing \<Rightarrow> advance_playback W | _ \<Rightarrow> m_ret ()))
       (\<lambda>u d. tts_rest W d \<and> tts_calm t d) (\<lambda>e d. core W d \<and> tts_calm t d)) (\<lambda>e d. core W d \<and> tts_calm t d)) (\<lambda>e d. core W d \<and> tts_calm t d) t"
  proof (rule wp_tts_check)
    fix e d assume d: "tdrift t d"
    show "core W d \<and> tts_calm t d" using core_drift[OF d rest_core[OF assms(1)]] calm_drift[OF d] by simp
  next
    fix d x assume d: "tdrift t d" "to_call d = Some x"
    have "core W d" "to_phase d = TtsStopping" "tts_calm t d"
      using core_drift[OF d(1) rest_core[OF assms(1)]] calm_drift[OF d(1)] tdrift_fields[OF d(1)] stop by simp_all
    with d(2) show "wp (set_call (\<lambda>c. c\<lparr>tc_polls := tc_polls c + 1\<rparr>)) (\<lambda>u. wp (m_read (\<lambda>t.
       case to_phase t of Synthesizing \<Rightarrow> advance_synthesis W | Playing \<Rightarrow> advance_playback W | _ \<Rightarrow> m_ret ()))
       (\<lambda>u d. tts_rest W d \<and> tts_calm t d) (\<lambda>e d. core W d \<and> tts_calm t d)) (\<lambda>e d. core W d \<and> tts_calm t d) d"
      by (auto simp: tts_rest_def core_def call_rest_def handles_def tts_calm_def)
  qed
  with Some show ?thesis by (simp add: tts_advance_def)
qed

lemma poll_faulted:
  assumes "tts_rest W t" "\<not> to_busy t" "to_fault t"
  shows "tts_calm t (snd (tts_poll W t))"
proof -
  have "tts_rest W (t\<lparr>to_busy := True\<rparr>)" "to_fault (t\<lparr>to_busy := True\<rparr>)" using assms by simp_all
  note w = wp_advance_faulted[OF this]
  obtain r z where z: "tts_run W () (tts_advance W) t = (r, z)" by fastforce
  from tts_run_facts[OF assms(2) w z] have "tts_calm t z" by (auto simp: core_parts tts_calm_def)
  with z assms(2) show ?thesis by (auto simp: tts_poll_def tts_calm_def split: option.split)
qed

lemma do_faulted:
  assumes "tts_rest W t" "\<not> to_busy t" "to_fault t"
  shows "tts_calm t (tts_do W act t)"
proof (cases act)
  case (TtsStart u)
  with assms show ?thesis by (auto simp: tts_start_def tts_calm_def split: option.split)
next
  case (TtsBetween i)
  then show ?thesis using calm_drift[OF tdrift_interfere] by simp
qed (use poll_faulted[OF assms] tts_cancel_rest[OF assms(1,2)] tts_settle_rest[OF assms(1,2)] in simp_all)

lemma tts_init_rest:
  assumes "tts_init (Some w) (Some (k, g)) v True = Inr t"
  shows "tts_rest W t \<and> \<not> to_busy t"
  using assms by (auto simp: tts_init_def tts_rest_def core_def speech_log_def asked_ids_def split: sum.splits)

lemma tts_steps_rest:
  assumes "lawful W" "tts_rest W t" "\<not> to_busy t"
  shows "tts_rest W (tts_steps W ops t) \<and> \<not> to_busy (tts_steps W ops t)"
  using assms(2,3) unfolding tts_steps_def
  by (induction ops arbitrary: t) (simp_all add: tts_do_rest[OF assms(1)])

section \<open>What the log says\<close>

lemma stage_last:
  "stages SpQuiet es = Some \<sigma> \<Longrightarrow> (case \<sigma> of
     SpQuiet \<Rightarrow> True
   | SpAsked q \<Rightarrow> \<exists>fs. es = fs @ [Requested q]
   | SpGiven q pcm \<Rightarrow> \<exists>fs. es = fs @ [Requested q, Delivered q pcm]
   | SpMixing q pcm \<Rightarrow> \<exists>fs x. es = fs @ [Requested q, Delivered q pcm, Mixed q x True])"
proof (induction es arbitrary: \<sigma> rule: rev_induct)
  case (snoc e es)
  then obtain \<tau> where t: "stages SpQuiet es = Some \<tau>" "stage_step \<tau> e = Some \<sigma>"
    by (auto simp: stages_append split: Option.bind_splits)
  from snoc.IH[OF t(1)] t(2) show ?case by (cases \<tau>; cases e) (auto split: if_splits)
qed simp

lemma stages_played:
  assumes "stages SpQuiet (es @ Played q pcm ok # fs) \<noteq> None"
  shows "ok \<and> (\<exists>gs x. es = gs @ [Requested q, Delivered q pcm, Mixed q x True])"
proof -
  obtain \<sigma> where s: "stages SpQuiet es = Some \<sigma>" "stage_step \<sigma> (Played q pcm ok) \<noteq> None"
    using assms by (auto simp: stages_append split: Option.bind_splits)
  then show ?thesis using stage_last[OF s(1)] by (cases \<sigma>) (auto split: if_splits)
qed

fun played :: "speech_effect \<Rightarrow> string list" where
  "played (Played q pcm ok) = [gq_request_id q]"
| "played _ = []"

definition played_ids :: "speech_effect list \<Rightarrow> string list" where
  "played_ids es = concat (map played es)"

fun pending_id :: "tts_stage \<Rightarrow> string multiset" where
  "pending_id SpQuiet = {#}"
| "pending_id (SpAsked q) = {#gq_request_id q#}"
| "pending_id (SpGiven q pcm) = {#gq_request_id q#}"
| "pending_id (SpMixing q pcm) = {#gq_request_id q#}"

lemma played_asked:
  "stages SpQuiet es = Some \<sigma> \<Longrightarrow> mset (played_ids es) + pending_id \<sigma> \<subseteq># mset (asked_ids es)"
proof (induction es arbitrary: \<sigma> rule: rev_induct)
  case (snoc e es)
  then obtain \<tau> where t: "stages SpQuiet es = Some \<tau>" "stage_step \<tau> e = Some \<sigma>"
    by (auto simp: stages_append split: Option.bind_splits)
  note ih = snoc.IH[OF t(1)]
  then have weak: "mset (played_ids es) \<subseteq># mset (asked_ids es)" by (rule mset_subset_eq_add_left[THEN subset_mset.order_trans])
  from t(2) ih weak show ?case by (cases \<tau>; cases e) (auto simp: played_ids_def asked_ids_def split: if_splits)
qed (simp add: played_ids_def asked_ids_def)

lemma played_distinct: "stages SpQuiet es = Some \<sigma> \<Longrightarrow> distinct (asked_ids es) \<Longrightarrow> distinct (played_ids es)"
proof -
  assume s: "stages SpQuiet es = Some \<sigma>" and d: "distinct (asked_ids es)"
  have "mset (played_ids es) \<subseteq># mset (asked_ids es)"
    by (rule mset_subset_eq_add_left[THEN subset_mset.order_trans]) (rule played_asked[OF s])
  then obtain M where "mset (asked_ids es) = mset (played_ids es) + M" by (auto simp: mset_subset_eq_exists_conv)
  moreover obtain ys where "mset ys = M" using ex_mset by blast
  ultimately have "mset (played_ids es @ ys) = mset (asked_ids es)" by simp
  with d have "distinct (played_ids es @ ys)" using mset_eq_imp_distinct_iff by blast
  then show ?thesis by simp
qed

section \<open>Properties\<close>



text \<open>A \<open>cancel\<close> ends the call at once, whatever the callbacks answer: no call is left and the completion waiting says
  canceled, or that the cleanup was not proven; an exception leaves it only when the completion cannot be built
  from what the gateway named.\<close>

theorem tts_cancel_ends:
  assumes "tts_init (Some w) (Some (k, g)) v True = Inr t0" "lawful W" "t = tts_steps W ops t0" "to_call t \<noteq> None"
    "tts_cancel W t = (r, d)"
  shows "case r of
      Some u \<Rightarrow> to_call d = None \<and> (\<exists>x. to_terminal d = Some x \<and> cpl_code x \<in> {TcCanceled, TcCleanup})
    | None \<Rightarrow> (\<exists>c. to_call d = Some c \<and> completion_init TcIdle (tc_provider_id c) (tc_model_version c) (tc_failures c) = None)"
proof -
  have t: "tts_rest W t" "\<not> to_busy t" unfolding assms(3) using tts_steps_rest[OF assms(2)] tts_init_rest[OF assms(1)] by blast+
  obtain c where c: "to_call t = Some c" using assms(4) by auto
  let ?i = "tts_invalidate t" and ?u = "tts_gap W (tts_invalidate t)"
  have u: "tts_rest W ?u" "\<not> to_busy ?u" "to_call ?u = Some c"
    using rest_drift[OF tdrift_invalidate t(1)] tdrift_fields[OF tdrift_invalidate[of t W]] t(2) c by simp_all
  have "tc_epoch c \<le> to_epoch t" using t(1) c by (simp add: tts_rest_def core_def)
  moreover have "to_epoch ?i \<le> to_epoch ?u" by (rule tdrift_same(10)[OF tdrift_gap])
  ultimately have "tc_epoch c < to_epoch ?u" by (simp add: tts_invalidate_def)
  with settle_facts[OF u, of r d] assms(5) show ?thesis by (auto simp: tts_cancel_def unnamed_def split: option.splits)
qed

text \<open>Once a cleanup was not proven, speech output stays faulted: nothing more is requested, mixed or played, every
  start is refused, and its cleanup is never reported as proven again.\<close>

theorem tts_fault_final:
  assumes "tts_init (Some w) (Some (k, g)) v True = Inr t0" "lawful W" "t = tts_steps W ops t0" "to_fault t"
  shows "to_effects (tts_steps W later t) = to_effects t \<and> \<not> tts_cleanup_proven (tts_steps W later t)
    \<and> fst (tts_start W (Some u) (tts_steps W later t)) = Inr False"
proof -
  have t: "tts_rest W t" "\<not> to_busy t" unfolding assms(3) using tts_steps_rest[OF assms(2)] tts_init_rest[OF assms(1)] by blast+
  have "tts_calm t (fold (tts_do W) later t)"
    using t assms(4)
  proof (induction later arbitrary: t)
    case (Cons e es)
    have r: "tts_rest W (tts_do W e t)" "\<not> to_busy (tts_do W e t)" using tts_do_rest[OF assms(2) Cons.prems(1,2)] by blast+
    have c: "tts_calm t (tts_do W e t)" by (rule do_faulted[OF Cons.prems])
    then have "to_fault (tts_do W e t)" using Cons.prems(3) by (simp add: tts_calm_def)
    from tts_calm_trans[OF c Cons.IH[OF r this]] show ?case by simp
  qed (simp add: tts_calm_def)
  with assms(4) show ?thesis by (simp add: tts_calm_def tts_steps_def tts_cleanup_proven_def tts_start_def)
qed

section \<open>Witnesses\<close>

definition sample_turn :: turn_token where
  "sample_turn = \<lparr>tt_session_id = ''s:1'', tt_turn = 1, tt_generation = 1, tt_profile_id = ''p'', tt_profile_revision = 1,
     tt_policy_revision = 1, tt_context_revision = 1\<rparr>"

definition sample_audio_policy :: audio_policy where
  "sample_audio_policy = \<lparr>ap_profile_id = ''p'', ap_policy_id = ''q'', ap_revision = 1, ap_configuration_revision = 1,
     ap_rules = [Spoken EventResponse ''v1'' Pause], ap_voices = [\<lparr>rv_provider_id = ''p1'', rv_model_version = ''m1'', rv_voice = ''v1''\<rparr>],
     ap_limits = \<lparr>tl_text_chars = 8, tl_synthesis_ms = 100, tl_synthesis_polls = 4, tl_playback_polls = 4\<rparr>\<rparr>"

definition sample_audio_snapshot :: audio_snapshot where
  "sample_audio_snapshot = \<lparr>as_conversation = \<lparr>
       cs_profile = \<lparr>pro_version = 1, pro_profile_id = ''p'', pro_policy_id = ''q'', pro_enabled = True, pro_voice_enabled = True\<rparr>,
       cs_snapshot_revision = 1,
       cs_policy = Some \<lparr>cp_profile_id = ''p'', cp_policy_id = ''q'', cp_revision = 1, cp_entries = [EntryKeyboard], cp_exit_phrase = [98],
         cp_exit_key = [99], cp_limits = \<lparr>cl_turns = 2, cl_text_chars = 8, cl_context_chars = 16, cl_context_items = 1, cl_polls = 4\<rparr>\<rparr>,
       cs_setup = \<lparr>su_revision = 1, su_occupied = [], su_reserved = []\<rparr>,
       cs_context = \<lparr>cx_revision = 1, cx_state = Empty, cx_items = [], cx_conflict_id = None\<rparr>\<rparr>,
     as_current_turn = Some sample_turn, as_policy = Some sample_audio_policy, as_muted = False\<rparr>"

definition sample_utterance :: utterance where
  "sample_utterance = \<lparr>ut_token = sample_turn, ut_event = EventResponse, ut_text = ''hi''\<rparr>"

definition sample_speech :: gateway_request where
  "sample_speech = \<lparr>gq_request_id = ''tts-d'', gq_provider_id = ''p1'', gq_model_version = ''m1'', gq_catalog_version = 1,
     gq_budget_ms = 100, gq_payload = SpeechInput ''hi'' ''v1''\<rparr>"

definition speech_codec :: codec where
  "speech_codec = \<lparr>
     cd_dumps = (\<lambda>v. if v = request_doc sample_speech then Some [65]
       else if v = response_doc sample_speech (SpeechOutput [1, 2, 255, 0]) then Some [66] else None),
     cd_parse = (\<lambda>t. if t = [65] then Some (json_of (request_doc sample_speech))
       else if t = [66] then Some (json_of (response_doc sample_speech (SpeechOutput [1, 2, 255, 0]))) else None)\<rparr>"

definition sample_tts_moment :: tmoment where
  "sample_tts_moment = \<lparr>tm_snapshot = Gives sample_audio_snapshot, tm_maker = MakerHandle, tm_ok = True,
     tm_playback = PlaybackPending, tm_proven = Gives True, tm_between = []\<rparr>"

definition speech_world :: tts_world where
  "speech_world = \<lparr>tw_sha = sample_sha, tw_codec = speech_codec, tw_gateway = (\<lambda>n. sample_moment), tw_moment = (\<lambda>n. sample_tts_moment)\<rparr>"

definition sample_tts :: tts where
  "sample_tts = \<lparr>to_owner = snd (session_begin (VStr ''conversation'') (session_init ''s'')),
     to_config = \<lparr>cg_state = Active 1 0, cg_objects = [\<lparr>cn_baseline = 0, cn_manifests = [], cn_host = sample_route, cn_local = None,
         cn_policy = Provider_Records.sample_policy, cn_evidence = []\<rparr>], cg_staged = [], cg_approvals = [], cg_next_receipt = 0,
       cg_history = [], cg_health = [], cg_last_time = 0, cg_clock_fault = False, cg_token = 0\<rparr>,
     to_gateway = sample_client\<lparr>gc_owner := Some 0\<rparr>, to_catalog = 1, to_epoch = 0, to_busy = False, to_fault = False,
     to_call = None, to_terminal = None, to_phase = TtsIdle, to_code = TcIdle, to_time = 0, to_held = 0, to_effects = []\<rparr>"

lemma sample_tts_init: "tts_init (Some (to_owner sample_tts)) (Some (to_config sample_tts, to_gateway sample_tts)) (VInt 1) True = Inr sample_tts"
proof -
  have "catalog_revision (VInt 1) = Inr 1" by code_simp
  then show ?thesis by (simp add: tts_init_def sample_tts_def)
qed

lemma speech_world_lawful: "lawful speech_world"
  by (auto simp: lawful_def json_codec_def speech_world_def speech_codec_def split: if_splits)

definition sample_talking :: "tts_op list" where
  "sample_talking = [TtsStart (Some sample_utterance), TtsPoll]"

lemma sample_talking:
  "to_effects (tts_steps speech_world sample_talking sample_tts) = [Requested sample_speech, Delivered sample_speech [1, 2, 255, 0],
     Mixed sample_speech Pause True] @ Played sample_speech [1, 2, 255, 0] True # []
   \<and> to_phase (tts_steps speech_world sample_talking sample_tts) = Playing"
  by code_simp



theorem tts_cancel_ends_witness:
  "to_call (tts_steps speech_world sample_talking sample_tts) \<noteq> None
    \<and> fst (tts_cancel speech_world (tts_steps speech_world sample_talking sample_tts)) = Some ()
    \<and> to_call (snd (tts_cancel speech_world (tts_steps speech_world sample_talking sample_tts))) = None"
proof -
  let ?t = "tts_steps speech_world sample_talking sample_tts"
  have c: "to_call ?t \<noteq> None" by code_simp
  moreover have r: "fst (tts_cancel speech_world ?t) = Some ()" by code_simp
  moreover have "tts_cancel speech_world ?t = (Some (), snd (tts_cancel speech_world ?t))" using r by (metis prod.collapse)
  note tts_cancel_ends[OF sample_tts_init speech_world_lawful refl c this]
  ultimately show ?thesis by simp
qed

end
