(* ===== verification/Work_Routing.thy ===== *)
theory Work_Routing
  imports Py_Prelude "HOL-Library.Sublist" "HOL-Library.Product_Lexorder"
begin

text \<open>
  The routing of tickets to models, \<open>src/ops/orchestration/routing.py\<close>: a pure function of a decoded export of the
  backlog. An issue is a record of the keys the code reads, \<open>None\<close> where a key is absent and its absence shows; a key
  that is only tested for truth is a \<open>bool\<close>. Issues are looked up by identifier in the list, which is the dictionary
  once duplicates are refused. Dictionaries whose keys have other types make the code raise \<open>TypeError\<close>, which its
  caller answers with a rejection; they are outside the model.
\<close>

section \<open>The backlog\<close>

record issue =
  is_id :: string
  is_title :: "string option"
  is_description :: "string option"
  is_labels :: "string list"
  is_status :: "string option"
  is_kind :: "string option"
  is_rank :: string
  is_archived :: bool
  is_deleted :: bool

record relation =
  rel_type :: string
  rel_src :: string
  rel_dst :: string

record backlog =
  bk_version :: "pyv option"
  bk_issues :: "issue list"
  bk_relations :: "relation list"

definition issue_at :: "issue list \<Rightarrow> string \<Rightarrow> issue option" where
  "issue_at issues k = find (\<lambda>i. is_id i = k) issues"

lemma issue_at_Some: "issue_at issues k = Some i \<Longrightarrow> i \<in> set issues \<and> is_id i = k"
  by (auto simp: issue_at_def find_Some_iff)

lemma issue_at_None: "issue_at issues k = None \<longleftrightarrow> k \<notin> is_id ` set issues"
  by (auto simp: issue_at_def find_None_iff)

lemma issue_at_in: "k \<in> is_id ` set issues \<Longrightarrow> \<exists>i. issue_at issues k = Some i \<and> i \<in> set issues \<and> is_id i = k"
  using issue_at_None[of issues k] issue_at_Some[of issues k] by (cases "issue_at issues k") auto

lemma issue_at_id: "distinct (map is_id issues) \<Longrightarrow> i \<in> set issues \<Longrightarrow> issue_at issues (is_id i) = Some i"
  by (induction issues) (auto simp: issue_at_def)

text \<open>\<open>data.get("version") != 2\<close> compares as Python does.\<close>

definition equals_two :: "pyv option \<Rightarrow> bool" where
  "equals_two v \<longleftrightarrow> v \<in> {Some (VInt 2), Some (VFloat (Fin 2))}"

fun parent_map :: "string list \<Rightarrow> (string \<times> string) list \<Rightarrow> relation list \<Rightarrow> string + (string \<times> string) list" where
  "parent_map known ps [] = Inr ps"
| "parent_map known ps (r # rs) =
    (if rel_type r \<noteq> ''parent-child'' then parent_map known ps rs
     else if rel_src r \<notin> set known \<or> rel_dst r \<notin> set known \<or> rel_src r \<in> set (map fst ps) then Inl ''invalid parent relationship''
     else parent_map known (ps @ [(rel_src r, rel_dst r)]) rs)"

function ancestor_chain :: "issue list \<Rightarrow> (string \<times> string) list \<Rightarrow> string list \<Rightarrow> string \<Rightarrow> string + issue list" where
  "ancestor_chain issues ps seen current =
    (case map_of ps current of
       None \<Rightarrow> Inr []
     | Some p \<Rightarrow>
         if p \<in> set seen then Inl ''parent cycle''
         else (case issue_at issues p of
           None \<Rightarrow> Inl ''KeyError''
         | Some i \<Rightarrow> bind_res (ancestor_chain issues ps (p # seen) p) (\<lambda>is. Inr (i # is))))"
  by pat_completeness auto
termination
proof (relation "measure (\<lambda>(issues, ps, seen, current). card (snd ` set ps - set seen))", goal_cases)
  case (2 issues ps seen current p i)
  then have "p \<in> snd ` set ps" by (force dest: map_of_SomeD)
  with 2 have "snd ` set ps - set (p # seen) \<subset> snd ` set ps - set seen" by auto
  then show ?case by (auto intro!: psubset_card_mono)
qed simp

declare ancestor_chain.simps [simp del]

fun all_chains :: "issue list \<Rightarrow> (string \<times> string) list \<Rightarrow> string list \<Rightarrow> string + (string \<times> issue list) list" where
  "all_chains issues ps [] = Inr []"
| "all_chains issues ps (k # ks) =
    bind_res (ancestor_chain issues ps [k] k) (\<lambda>c. bind_res (all_chains issues ps ks) (\<lambda>cs. Inr ((k, c) # cs)))"

record bindex =
  ix_issues :: "issue list"
  ix_parents :: "(string \<times> string) list"
  ix_ancestors :: "(string \<times> issue list) list"

definition index_backlog :: "backlog \<Rightarrow> string + bindex" where
  "index_backlog data =
    (if \<not> equals_two (bk_version data) then Inl ''unsupported LIT export version''
     else if \<not> distinct (map is_id (bk_issues data)) then Inl ''duplicate issue id''
     else bind_res (parent_map (map is_id (bk_issues data)) [] (bk_relations data)) (\<lambda>ps.
       bind_res (all_chains (bk_issues data) ps (map is_id (bk_issues data))) (\<lambda>cs.
         Inr \<lparr>ix_issues = bk_issues data, ix_parents = ps, ix_ancestors = cs\<rparr>)))"

definition chain_of :: "bindex \<Rightarrow> string \<Rightarrow> issue list" where
  "chain_of ix k = the (map_of (ix_ancestors ix) k)"

text \<open>\<open>all\<close> stops at the first \<open>False\<close>; \<open>None\<close> is an exception.\<close>

fun all_of :: "('a \<Rightarrow> bool option) \<Rightarrow> 'a list \<Rightarrow> bool option" where
  "all_of f [] = Some True"
| "all_of f (x # xs) = (case f x of None \<Rightarrow> None | Some False \<Rightarrow> Some False | Some True \<Rightarrow> all_of f xs)"

definition live_child :: "issue list \<Rightarrow> string \<Rightarrow> bool" where
  "live_child issues k \<longleftrightarrow> (case issue_at issues k of None \<Rightarrow> False | Some i \<Rightarrow> \<not> is_archived i \<and> \<not> is_deleted i)"

definition children_of :: "issue list \<Rightarrow> (string \<times> string) list \<Rightarrow> string \<Rightarrow> string list" where
  "children_of issues ps k = filter (live_child issues) (map fst (filter (\<lambda>e. snd e = k) ps))"

text \<open>The first argument bounds the depth of the recursion; \<open>None\<close> is an exception.\<close>

primrec is_complete :: "nat \<Rightarrow> issue list \<Rightarrow> (string \<times> string) list \<Rightarrow> string \<Rightarrow> bool option" where
  "is_complete 0 issues ps k = None"
| "is_complete (Suc n) issues ps k =
    (case issue_at issues k of
       None \<Rightarrow> None
     | Some i \<Rightarrow>
         if is_status i = Some ''closed'' then Some True
         else if is_kind i \<noteq> Some ''epic'' then Some False
         else if children_of issues ps k = [] then Some False
         else all_of (is_complete n issues ps) (children_of issues ps k))"

definition depth_bound :: "bindex \<Rightarrow> nat" where
  "depth_bound ix = Suc (length (ix_issues ix))"

section \<open>Routing an issue\<close>

definition HIGH :: "string list" where
  "HIGH = [''architecture'', ''contracts'', ''security'', ''cross-cutting'', ''session-lifecycle'', ''model-routing'',
     ''orchestration'', ''debugging'', ''high-risk-review'']"

definition BOUNDED :: "string list" where
  "BOUNDED = [''exploration'', ''inventory'', ''tests'', ''fixtures'', ''documentation'', ''bounded-implementation'',
     ''validation'', ''independent-review'']"

definition MODELS :: "(string \<times> string \<times> string) list" where
  "MODELS = [(''astra'', ''gpt-6-astra'', ''high''), (''terra'', ''gpt-5.6-terra'', ''medium'')]"

definition STOPS :: "string list" where
  "STOPS = [''hil-required'', ''needs-design'', ''privileged'', ''destructive'', ''external-credentials'', ''external-network'']"

record route_result =
  ro_ticket :: string
  ro_model :: "string option"
  ro_effort :: "string option"
  ro_role :: "string option"
  ro_capability :: "string option"
  ro_ready :: bool
  ro_stop_reason :: "string option"
  ro_source :: "string option"
  ro_blocked_by :: "string list"

definition route_stop :: "string \<Rightarrow> route_result \<Rightarrow> route_result" where
  "route_stop reason r = r\<lparr>ro_stop_reason := Some reason\<rparr>"

definition allowed_fields :: "(string \<times> string list) list" where
  "allowed_fields = [(''model'', map fst MODELS), (''effort'', [''high'', ''medium'']),
     (''role'', [''implement'', ''review'', ''validate'', ''explore'']), (''capability'', HIGH @ BOUNDED)]"

definition labelled :: "string \<Rightarrow> string list \<Rightarrow> string list" where
  "labelled key labels = remdups (map (drop (Suc (length key))) (filter (prefix (key @ '':'')) labels))"

text \<open>\<open>None\<close> is a conflict.\<close>

definition field_of :: "string list \<Rightarrow> string \<times> string list \<Rightarrow> string option option" where
  "field_of labels f =
    (let found = labelled (fst f) labels
     in if length found > 1 \<or> \<not> set found \<subseteq> set (snd f) then None
        else Some (case found of [] \<Rightarrow> None | v # vs \<Rightarrow> Some v))"

definition label_fields :: "string list \<Rightarrow> string option list option" where
  "label_fields labels = those (map (field_of labels) allowed_fields)"

text \<open>\<open>str.lower\<close> and the class \<open>\w\<close> below code point 256.\<close>

definition lower_char :: "char \<Rightarrow> char" where
  "lower_char c = (let n = code c
     in if 65 \<le> n \<and> n \<le> 90 \<or> 192 \<le> n \<and> n \<le> 222 \<and> n \<noteq> 215 then char_of (n + 32) else c)"

definition word_char :: "char \<Rightarrow> bool" where
  "word_char c = (let n = code c
     in is_alnum c \<or> n = 95 \<or> n \<in> {170, 178, 179, 181, 185, 186, 188, 189, 190} \<or> 192 \<le> n \<and> n \<noteq> 215 \<and> n \<noteq> 247)"

text \<open>The alternatives of the patterns: a literal, two literals around any character but a newline, a literal that starts a
  word, and a whole word.\<close>

datatype title_pattern = Lit string | Around string string | Begins string | Whole string

definition at_boundary :: "char option \<Rightarrow> bool" where
  "at_boundary c = (case c of None \<Rightarrow> True | Some d \<Rightarrow> \<not> word_char d)"

definition first_of :: "'a list \<Rightarrow> 'a option" where
  "first_of xs = (case xs of [] \<Rightarrow> None | x # ys \<Rightarrow> Some x)"

fun matches_at :: "title_pattern \<Rightarrow> char option \<Rightarrow> string \<Rightarrow> bool" where
  "matches_at (Lit s) before t = prefix s t"
| "matches_at (Around a b) before t =
    (prefix a t \<and> (case drop (length a) t of [] \<Rightarrow> False | c # r \<Rightarrow> code c \<noteq> 10 \<and> prefix b r))"
| "matches_at (Begins s) before t = (at_boundary before \<and> prefix s t)"
| "matches_at (Whole s) before t = (at_boundary before \<and> prefix s t \<and> at_boundary (first_of (drop (length s) t)))"

fun searched :: "title_pattern \<Rightarrow> char option \<Rightarrow> string \<Rightarrow> bool" where
  "searched p before [] = matches_at p before []"
| "searched p before (c # cs) = (matches_at p before (c # cs) \<or> searched p (Some c) cs)"

definition title_rules :: "(title_pattern list \<times> string) list" where
  "title_rules =
    [([Lit ''contract'', Lit ''schema'', Lit ''protocol''], ''contracts''),
     ([Lit ''security'', Lit ''permission'', Lit ''authenticat'', Lit ''policy'', Lit ''redact'', Lit ''sandbox''], ''security''),
     ([Lit ''architecture'', Lit ''stack'', Lit ''boundar''], ''architecture''),
     ([Lit ''lifecycle'', Lit ''session'', Lit ''handoff''], ''session-lifecycle''),
     ([Around ''model'' ''routing''], ''model-routing''),
     ([Lit ''orchestrat'', Lit ''continuation'', Around ''circle'' ''back'', Lit ''reconcile''], ''orchestration''),
     ([Lit ''inventory'', Lit ''discover''], ''inventory''),
     ([Begins ''test'', Lit ''fixture'', Lit ''replay''], ''tests''),
     ([Lit ''documentation'', Whole ''docs''], ''documentation''),
     ([Lit ''explor'', Lit ''inspect''], ''exploration''),
     ([Lit ''validat'', Around ''dry'' ''run''], ''validation''),
     ([Lit ''review''], ''independent-review'')]"

definition title_capability :: "string \<Rightarrow> string option" where
  "title_capability title =
    map_option snd (find (\<lambda>r. list_ex (\<lambda>p. searched p None (map lower_char title)) (fst r)) title_rules)"

text \<open>The capability of an issue without an explicit one; the outer \<open>None\<close> is a conflict.\<close>

definition implied_capability :: "string list \<Rightarrow> string \<Rightarrow> string option option" where
  "implied_capability labels title =
    (let high = filter (\<lambda>c. c \<in> set labels) HIGH
     in if length high > 1 then None
        else if high \<noteq> [] then Some (Some (hd (sort high)))
        else if ''validation'' \<in> set labels then Some (Some ''validation'')
        else if ''session-continuity'' \<in> set labels then Some (Some ''session-lifecycle'')
        else if ''workflow'' \<in> set labels \<or> ''circle-back'' \<in> set labels then Some (Some ''orchestration'')
        else Some (title_capability title))"

definition capability_of :: "string list \<Rightarrow> string list \<Rightarrow> string option \<Rightarrow> string \<Rightarrow> (string option \<times> string) option" where
  "capability_of labels inherited explicit title =
    (if {''security'', ''high-risk''} \<inter> (set labels \<union> set inherited) \<noteq> {} then Some (Some ''security'', ''risk-floor'')
     else (case explicit of
       Some c \<Rightarrow> Some (Some c, ''explicit'')
     | None \<Rightarrow> map_option (\<lambda>c. (c, ''default'')) (implied_capability labels title)))"

definition default_role :: "string \<Rightarrow> string" where
  "default_role capability =
    (case map_of [(''independent-review'', ''review''), (''high-risk-review'', ''review''), (''validation'', ''validate''),
       (''exploration'', ''explore'')] capability of None \<Rightarrow> ''implement'' | Some r \<Rightarrow> r)"

definition unrouted :: "string \<Rightarrow> route_result" where
  "unrouted k = \<lparr>ro_ticket = k, ro_model = None, ro_effort = None, ro_role = None, ro_capability = None, ro_ready = False,
     ro_stop_reason = None, ro_source = None, ro_blocked_by = []\<rparr>"

text \<open>The part that follows the choice of the capability.\<close>

definition assigned :: "string list \<Rightarrow> string option \<Rightarrow> string option \<Rightarrow> string option \<Rightarrow> string \<Rightarrow> string \<Rightarrow> route_result \<Rightarrow> route_result" where
  "assigned labels model effort role capability source r =
    (let class = (if capability \<in> set HIGH then ''astra'' else ''terra'')
     in if class = ''astra'' \<and> model = Some ''terra'' then route_stop ''routing-conflict'' r
        else (case the (map_of MODELS (case model of None \<Rightarrow> class | Some m \<Rightarrow> m)) of (name, strength) \<Rightarrow>
          if effort \<noteq> None \<and> effort \<noteq> Some strength then route_stop ''routing-conflict'' r
          else let r = r\<lparr>ro_model := Some name, ro_effort := Some strength,
                 ro_role := Some (case role of None \<Rightarrow> default_role capability | Some x \<Rightarrow> x),
                 ro_capability := Some capability, ro_source := Some source\<rparr>
          in if ''autonomous-safe'' \<notin> set labels then route_stop ''autonomy-unclassified'' r else r\<lparr>ro_ready := True\<rparr>))"

definition title_of :: "issue \<Rightarrow> string" where
  "title_of i = (case is_title i of None \<Rightarrow> [] | Some t \<Rightarrow> t)"

definition route_issue :: "issue \<Rightarrow> issue list \<Rightarrow> route_result" where
  "route_issue i ancestors =
    (let labels = is_labels i; inherited = concat (map is_labels ancestors); r = unrouted (is_id i)
     in case find (\<lambda>m. m \<in> set labels \<union> set inherited) STOPS of
          Some m \<Rightarrow> route_stop m r
        | None \<Rightarrow>
            (case label_fields labels of
               Some [model, effort, role, explicit] \<Rightarrow>
                 (case capability_of labels inherited explicit (title_of i) of
                    None \<Rightarrow> route_stop ''routing-conflict'' r
                  | Some (None, source) \<Rightarrow> route_stop ''routing-ambiguous'' r
                  | Some (Some c, source) \<Rightarrow> assigned labels model effort role c source r)
             | _ \<Rightarrow> route_stop ''routing-conflict'' r))"

section \<open>Routing the backlog\<close>

definition is_leaf :: "bindex \<Rightarrow> issue \<Rightarrow> bool" where
  "is_leaf ix i \<longleftrightarrow> is_id i \<notin> snd ` set (ix_parents ix) \<and> is_kind i \<noteq> Some ''epic'' \<and> is_status i \<noteq> Some ''closed''
     \<and> \<not> is_archived i \<and> \<not> is_deleted i"

text \<open>What blocks a scope, or the exception.\<close>

fun blockers :: "bindex \<Rightarrow> string list \<Rightarrow> relation list \<Rightarrow> string + string list" where
  "blockers ix scope [] = Inr []"
| "blockers ix scope (r # rs) =
    (if rel_type r \<noteq> ''blocks'' then blockers ix scope rs
     else if issue_at (ix_issues ix) (rel_src r) = None \<or> issue_at (ix_issues ix) (rel_dst r) = None
       then Inl ''invalid dependency relationship''
     else if rel_src r \<notin> set scope then blockers ix scope rs
     else (case is_complete (depth_bound ix) (ix_issues ix) (ix_parents ix) (rel_dst r) of
       None \<Rightarrow> Inl ''RecursionError''
     | Some True \<Rightarrow> blockers ix scope rs
     | Some False \<Rightarrow> map_sum id (\<lambda>bs. rel_dst r # bs) (blockers ix scope rs)))"

definition scope_of :: "bindex \<Rightarrow> issue \<Rightarrow> string list" where
  "scope_of ix i = is_id i # map is_id (chain_of ix (is_id i))"

definition route_leaf :: "backlog \<Rightarrow> bindex \<Rightarrow> issue \<Rightarrow> string + route_result" where
  "route_leaf data ix i = bind_res (blockers ix (scope_of ix i) (bk_relations data)) (\<lambda>bs.
     let r = (route_issue i (chain_of ix (is_id i)))\<lparr>ro_blocked_by := sort (remdups bs)\<rparr>
     in Inr (if bs \<noteq> [] \<and> ro_ready r then r\<lparr>ro_ready := False, ro_stop_reason := Some ''blocked''\<rparr> else r))"

fun route_leaves :: "backlog \<Rightarrow> bindex \<Rightarrow> issue list \<Rightarrow> string + route_result list" where
  "route_leaves data ix [] = Inr []"
| "route_leaves data ix (i # is) = bind_res (route_leaf data ix i) (\<lambda>r. map_sum id ((#) r) (route_leaves data ix is))"

definition route_backlog :: "backlog \<Rightarrow> string + route_result list" where
  "route_backlog data = bind_res (index_backlog data) (\<lambda>ix.
     route_leaves data ix (sort_key (\<lambda>i. (is_rank i, is_id i)) (filter (is_leaf ix) (ix_issues ix))))"

section \<open>The ancestors\<close>

lemma ancestor_chain_weaken:
  "ancestor_chain issues ps seen k = Inr c \<Longrightarrow> set seen' \<subseteq> set seen \<Longrightarrow> ancestor_chain issues ps seen' k = Inr c"
proof (induction issues ps seen k arbitrary: c seen' rule: ancestor_chain.induct)
  case (1 issues ps seen k)
  show ?case
  proof (cases "map_of ps k")
    case None
    with 1 show ?thesis by (simp add: ancestor_chain.simps)
  next
    case (Some p)
    with "1.prems" obtain i d where i: "p \<notin> set seen" "issue_at issues p = Some i"
        "ancestor_chain issues ps (p # seen) p = Inr d" "c = i # d"
      by (subst (asm) ancestor_chain.simps) (auto simp: bind_res_def split: if_splits option.splits sum.splits)
    have "ancestor_chain issues ps (p # seen') p = Inr d" by (rule "1.IH"[OF Some i(1,2,3)]) (use "1.prems"(2) in auto)
    with "1.prems"(2) Some i show ?thesis by (subst ancestor_chain.simps) (auto simp: bind_res_def)
  qed
qed

lemma ancestor_chain_distinct:
  "ancestor_chain issues ps seen k = Inr c \<Longrightarrow> distinct (map is_id c) \<and> set c \<subseteq> set issues \<and> is_id ` set c \<inter> set seen = {}"
proof (induction issues ps seen k arbitrary: c rule: ancestor_chain.induct)
  case (1 issues ps seen k)
  show ?case
  proof (cases "map_of ps k")
    case None
    with 1 show ?thesis by (simp add: ancestor_chain.simps)
  next
    case (Some p)
    with "1.prems" obtain i d where i: "p \<notin> set seen" "issue_at issues p = Some i"
        "ancestor_chain issues ps (p # seen) p = Inr d" "c = i # d"
      by (subst (asm) ancestor_chain.simps) (auto simp: bind_res_def split: if_splits option.splits sum.splits)
    from "1.IH"[OF Some i(1,2,3)] i issue_at_Some[OF i(2)] show ?thesis by auto
  qed
qed

lemma all_chains_at: "all_chains issues ps ks = Inr cs \<Longrightarrow> map fst cs = ks \<and> (\<forall>k c. map_of cs k = Some c \<longrightarrow> ancestor_chain issues ps [k] k = Inr c)"
  by (induction ks arbitrary: cs) (auto simp: bind_res_def split: sum.splits if_splits)

lemma parent_map_known:
  "parent_map known ps rs = Inr qs \<Longrightarrow> set ps \<subseteq> set known \<times> set known \<Longrightarrow> distinct (map fst ps) \<Longrightarrow>
     set qs \<subseteq> set known \<times> set known \<and> distinct (map fst qs)"
  by (induction known ps rs rule: parent_map.induct) (auto split: if_splits)

lemma parent_map_mono: "parent_map known ps rs = Inr qs \<Longrightarrow> set ps \<subseteq> set qs"
  by (induction known ps rs rule: parent_map.induct) (auto split: if_splits)

lemma parent_map_edges:
  "parent_map known ps rs = Inr qs \<Longrightarrow>
     set qs = set ps \<union> {(rel_src r, rel_dst r) | r. r \<in> set rs \<and> rel_type r = ''parent-child''}"
  by (induction known ps rs rule: parent_map.induct) (auto split: if_splits)

definition tree_ok :: "bindex \<Rightarrow> bool" where
  "tree_ok ix \<longleftrightarrow> distinct (map is_id (ix_issues ix)) \<and> distinct (map fst (ix_parents ix))
     \<and> set (ix_parents ix) \<subseteq> (is_id ` set (ix_issues ix)) \<times> (is_id ` set (ix_issues ix))
     \<and> (\<forall>i \<in> set (ix_issues ix). ancestor_chain (ix_issues ix) (ix_parents ix) [is_id i] (is_id i) = Inr (chain_of ix (is_id i)))"

lemma index_tree: "index_backlog data = Inr ix \<Longrightarrow> tree_ok ix \<and> ix_issues ix = bk_issues data"
proof -
  assume "index_backlog data = Inr ix"
  then obtain ps cs where i: "distinct (map is_id (bk_issues data))" "parent_map (map is_id (bk_issues data)) [] (bk_relations data) = Inr ps"
      "all_chains (bk_issues data) ps (map is_id (bk_issues data)) = Inr cs"
      "ix = \<lparr>ix_issues = bk_issues data, ix_parents = ps, ix_ancestors = cs\<rparr>"
    by (auto simp: index_backlog_def bind_res_def split: if_splits sum.splits)
  have "\<exists>c. map_of cs (is_id x) = Some c" if "x \<in> set (bk_issues data)" for x
    using all_chains_at[OF i(3)] that weak_map_of_SomeI by (metis image_eqI list.set_map map_of_eq_None_iff not_None_eq)
  with all_chains_at[OF i(3)] parent_map_known[OF i(2)] i(1,4) show ?thesis
    by (auto simp: tree_ok_def chain_of_def)
qed

lemma chain_root: "tree_ok ix \<Longrightarrow> i \<in> set (ix_issues ix) \<Longrightarrow> is_id i \<notin> set (map fst (ix_parents ix)) \<Longrightarrow> chain_of ix (is_id i) = []"
  by (force simp: tree_ok_def ancestor_chain.simps split: option.splits dest: map_of_SomeD)

lemma chain_child:
  assumes "tree_ok ix" "(k, p) \<in> set (ix_parents ix)"
  shows "\<exists>i \<in> set (ix_issues ix). is_id i = p \<and> chain_of ix k = i # chain_of ix p"
proof -
  have m: "map_of (ix_parents ix) k = Some p" using assms by (simp add: tree_ok_def)
  obtain j where j: "j \<in> set (ix_issues ix)" "is_id j = k" using assms by (auto simp: tree_ok_def)
  then have "ancestor_chain (ix_issues ix) (ix_parents ix) [k] k = Inr (chain_of ix k)" using assms(1) by (auto simp: tree_ok_def)
  with m obtain i d where i: "issue_at (ix_issues ix) p = Some i" "ancestor_chain (ix_issues ix) (ix_parents ix) [p, k] p = Inr d"
      "chain_of ix k = i # d"
    by (subst (asm) ancestor_chain.simps) (auto simp: bind_res_def split: if_splits option.splits sum.splits)
  have "ancestor_chain (ix_issues ix) (ix_parents ix) [p] p = Inr d" by (rule ancestor_chain_weaken[OF i(2)]) simp
  moreover have "ancestor_chain (ix_issues ix) (ix_parents ix) [p] p = Inr (chain_of ix p)"
    using assms(1) issue_at_Some[OF i(1)] by (auto simp: tree_ok_def)
  ultimately show ?thesis using i issue_at_Some[OF i(1)] by auto
qed

lemma chain_bound:
  assumes "tree_ok ix" "i \<in> set (ix_issues ix)"
  shows "distinct (is_id i # map is_id (chain_of ix (is_id i))) \<and> set (chain_of ix (is_id i)) \<subseteq> set (ix_issues ix)
    \<and> length (chain_of ix (is_id i)) < length (ix_issues ix)"
proof -
  have c: "distinct (map is_id (chain_of ix (is_id i)))" "set (chain_of ix (is_id i)) \<subseteq> set (ix_issues ix)"
      "is_id i \<notin> is_id ` set (chain_of ix (is_id i))"
    using ancestor_chain_distinct[of "ix_issues ix" "ix_parents ix" "[is_id i]" "is_id i"] assms by (auto simp: tree_ok_def)
  then have d: "distinct (i # chain_of ix (is_id i))" by (auto simp: distinct_map)
  have "length (i # chain_of ix (is_id i)) = card (set (i # chain_of ix (is_id i)))" using d by (metis distinct_card)
  also have "\<dots> \<le> card (set (ix_issues ix))" using c(2) assms(2) by (intro card_mono) auto
  finally show ?thesis using c card_length[of "ix_issues ix"] by simp
qed

section \<open>Completeness\<close>

inductive finished :: "bindex \<Rightarrow> string \<Rightarrow> bool" for ix where
  closed: "issue_at (ix_issues ix) k = Some i \<Longrightarrow> is_status i = Some ''closed'' \<Longrightarrow> finished ix k"
| epic: "issue_at (ix_issues ix) k = Some i \<Longrightarrow> is_kind i = Some ''epic'' \<Longrightarrow> children_of (ix_issues ix) (ix_parents ix) k \<noteq> [] \<Longrightarrow>
    (\<And>c. c \<in> set (children_of (ix_issues ix) (ix_parents ix) k) \<Longrightarrow> finished ix c) \<Longrightarrow> finished ix k"

lemma children_edge: "c \<in> set (children_of issues ps k) \<Longrightarrow> (c, k) \<in> set ps"
  by (auto simp: children_of_def)

lemma all_of_Some: "(\<And>x. x \<in> set xs \<Longrightarrow> f x = Some (P x)) \<Longrightarrow> all_of f xs = Some (\<forall>x \<in> set xs. P x)"
  by (induction xs) (auto split: bool.split)

lemma finished_iff:
  "issue_at (ix_issues ix) k = Some i \<Longrightarrow> finished ix k \<longleftrightarrow> is_status i = Some ''closed'' \<or>
     is_kind i = Some ''epic'' \<and> children_of (ix_issues ix) (ix_parents ix) k \<noteq> []
     \<and> (\<forall>c \<in> set (children_of (ix_issues ix) (ix_parents ix) k). finished ix c)"
  by (subst finished.simps) auto

lemma is_complete_at:
  assumes "tree_ok ix"
  shows "k \<in> is_id ` set (ix_issues ix) \<Longrightarrow> n + length (chain_of ix k) > length (ix_issues ix) \<Longrightarrow>
    is_complete n (ix_issues ix) (ix_parents ix) k = Some (finished ix k)"
proof (induction n arbitrary: k)
  case 0
  with chain_bound[OF assms] show ?case by fastforce
next
  case (Suc n)
  obtain i where i: "issue_at (ix_issues ix) k = Some i" using issue_at_in[OF Suc.prems(1)] by blast
  have "is_complete n (ix_issues ix) (ix_parents ix) c = Some (finished ix c)"
    if "c \<in> set (children_of (ix_issues ix) (ix_parents ix) k)" for c
  proof (rule Suc.IH)
    note e = children_edge[OF that]
    show "c \<in> is_id ` set (ix_issues ix)" using e assms by (auto simp: tree_ok_def)
    show "length (ix_issues ix) < n + length (chain_of ix c)" using chain_child[OF assms e] Suc.prems(2) by auto
  qed
  then have "all_of (is_complete n (ix_issues ix) (ix_parents ix)) (children_of (ix_issues ix) (ix_parents ix) k)
      = Some (\<forall>c \<in> set (children_of (ix_issues ix) (ix_parents ix) k). finished ix c)"
    by (rule all_of_Some)
  with i show ?case by (auto simp: finished_iff[OF i])
qed


section \<open>What is ready\<close>

lemma assigned_ready:
  assumes "ro_ready (assigned labels model effort role c source r)" "\<not> ro_ready r" "pred_option (\<lambda>m. m \<in> fst ` set MODELS) model"
  shows "''autonomous-safe'' \<in> set labels \<and> ro_capability (assigned labels model effort role c source r) = Some c
    \<and> (\<exists>m \<in> set MODELS. ro_model (assigned labels model effort role c source r) = Some (fst (snd m))
        \<and> ro_effort (assigned labels model effort role c source r) = Some (snd (snd m)) \<and> (c \<in> set HIGH \<longrightarrow> fst m = ''astra''))"
  using assms by (auto simp: assigned_def route_stop_def Let_def MODELS_def split: if_splits option.splits)

lemma assigned_ticket: "ro_ticket (assigned labels model effort role c source r) = ro_ticket r"
  by (auto simp: assigned_def route_stop_def Let_def split: prod.split)

lemma assigned_reason: "\<not> ro_ready r \<Longrightarrow> ro_stop_reason r = None \<Longrightarrow>
    (ro_stop_reason (assigned labels model effort role c source r) = None) = ro_ready (assigned labels model effort role c source r)"
  by (auto simp: assigned_def route_stop_def Let_def split: prod.split)

lemma field_of_allowed: "field_of labels f = Some v \<Longrightarrow> pred_option (\<lambda>m. m \<in> set (snd f)) v"
  by (auto simp: field_of_def Let_def split: if_splits list.splits)

lemma label_fields_model: "label_fields labels = Some [model, effort, role, explicit] \<Longrightarrow> pred_option (\<lambda>m. m \<in> fst ` set MODELS) model"
  using field_of_allowed[of labels "(''model'', map fst MODELS)" model]
  by (auto simp: label_fields_def allowed_fields_def split: option.splits)

lemma unrouted_simps [simp]: "\<not> ro_ready (unrouted k)" "ro_stop_reason (unrouted k) = None" "ro_ticket (unrouted k) = k"
  by (simp_all add: unrouted_def)

lemma route_stop_simps [simp]: "ro_ready (route_stop m r) = ro_ready r" "ro_ticket (route_stop m r) = ro_ticket r" "ro_stop_reason (route_stop m r) = Some m"
  by (simp_all add: route_stop_def)

lemma route_cases:
  "(\<exists>m. route_issue i as = route_stop m (unrouted (is_id i)))
   \<or> (\<exists>model effort role explicit c source. set STOPS \<inter> (set (is_labels i) \<union> (\<Union>a \<in> set as. set (is_labels a))) = {}
      \<and> label_fields (is_labels i) = Some [model, effort, role, explicit]
      \<and> capability_of (is_labels i) (concat (map is_labels as)) explicit (title_of i) = Some (Some c, source)
      \<and> route_issue i as = assigned (is_labels i) model effort role c source (unrouted (is_id i)))"
proof (cases "find (\<lambda>m. m \<in> set (is_labels i) \<union> set (concat (map is_labels as))) STOPS")
  case None
  then have "set STOPS \<inter> (set (is_labels i) \<union> (\<Union>a \<in> set as. set (is_labels a))) = {}" by (auto simp: find_None_iff)
  with None show ?thesis by (auto simp: route_issue_def Let_def split: option.split list.split)
qed (auto simp: route_issue_def Let_def)

lemma route_ticket: "ro_ticket (route_issue i as) = is_id i"
  using route_cases[of i as] by (auto simp: assigned_ticket)

lemma route_reason: "(ro_stop_reason (route_issue i as) = None) = ro_ready (route_issue i as)"
  using route_cases[of i as] by (auto simp: assigned_reason)

lemma capability_floor:
  "capability_of labels inherited explicit title = Some (Some c, source) \<Longrightarrow>
     ''security'' \<in> set labels \<union> set inherited \<or> ''high-risk'' \<in> set labels \<union> set inherited \<Longrightarrow> c = ''security''"
  by (auto simp: capability_of_def split: if_splits)

definition fit :: "issue \<Rightarrow> issue list \<Rightarrow> route_result \<Rightarrow> bool" where
  "fit i as r \<longleftrightarrow> ''autonomous-safe'' \<in> set (is_labels i)
     \<and> (\<forall>j \<in> insert i (set as). set (is_labels j) \<inter> set STOPS = {})
     \<and> (\<exists>c m. ro_capability r = Some c \<and> m \<in> set MODELS \<and> ro_model r = Some (fst (snd m)) \<and> ro_effort r = Some (snd (snd m))
         \<and> (c \<in> set HIGH \<longrightarrow> fst m = ''astra'')
         \<and> ((\<exists>j \<in> insert i (set as). ''security'' \<in> set (is_labels j) \<or> ''high-risk'' \<in> set (is_labels j)) \<longrightarrow> c = ''security''))"

lemma route_fit:
  assumes "ro_ready (route_issue i as)"
  shows "fit i as (route_issue i as)"
proof -
  from route_cases[of i as] assms obtain model effort role explicit c source where
    r: "set STOPS \<inter> (set (is_labels i) \<union> (\<Union>a \<in> set as. set (is_labels a))) = {}"
      "label_fields (is_labels i) = Some [model, effort, role, explicit]"
      "capability_of (is_labels i) (concat (map is_labels as)) explicit (title_of i) = Some (Some c, source)"
      "route_issue i as = assigned (is_labels i) model effort role c source (unrouted (is_id i))"
    by auto
  note a = assigned_ready[OF assms[unfolded r(4)] _ label_fields_model[OF r(2)]]
  have "c = ''security''" if "\<exists>j \<in> insert i (set as). ''security'' \<in> set (is_labels j) \<or> ''high-risk'' \<in> set (is_labels j)"
    using capability_floor[OF r(3)] that by auto
  with a r(1) show ?thesis unfolding fit_def r(4) by (auto 0 3)
qed

lemma complete_known:
  assumes "tree_ok ix" "issue_at (ix_issues ix) k = Some i"
  shows "is_complete (depth_bound ix) (ix_issues ix) (ix_parents ix) k = Some (finished ix k)"
  using issue_at_Some[OF assms(2)] by (intro is_complete_at[OF assms(1)]) (auto simp: depth_bound_def)

lemma blockers_found:
  assumes "tree_ok ix"
  shows "blockers ix scope rs = Inr bs \<Longrightarrow>
    set bs = {rel_dst e | e. e \<in> set rs \<and> rel_type e = ''blocks'' \<and> rel_src e \<in> set scope \<and> \<not> finished ix (rel_dst e)}"
  by (induction rs arbitrary: bs) (auto simp: complete_known[OF assms] map_sum_def split: if_splits option.splits bool.splits sum.splits)

lemma route_leaf_ready:
  assumes "tree_ok ix" "route_leaf data ix i = Inr r"
  shows "ro_ticket r = is_id i \<and> (ro_stop_reason r = None) = ro_ready r
    \<and> (ro_ready r \<longrightarrow> fit i (chain_of ix (is_id i)) r
        \<and> (\<forall>e \<in> set (bk_relations data). rel_type e = ''blocks'' \<and> rel_src e \<in> set (scope_of ix i) \<longrightarrow> finished ix (rel_dst e)))"
proof -
  let ?q = "route_issue i (chain_of ix (is_id i))"
  obtain bs where b: "blockers ix (scope_of ix i) (bk_relations data) = Inr bs"
      "r = (let r = ?q\<lparr>ro_blocked_by := sort (remdups bs)\<rparr>
         in if bs \<noteq> [] \<and> ro_ready r then r\<lparr>ro_ready := False, ro_stop_reason := Some ''blocked''\<rparr> else r)"
    using assms(2) by (auto simp: route_leaf_def bind_res_def Let_def split: sum.splits)
  have "fit i (chain_of ix (is_id i)) (?q\<lparr>ro_blocked_by := x\<rparr>)" if "ro_ready ?q" for x
    using route_fit[OF that] by (simp add: fit_def)
  with b route_ticket[of i "chain_of ix (is_id i)"] route_reason[of i "chain_of ix (is_id i)"] blockers_found[OF assms(1) b(1)]
  show ?thesis by (auto simp: Let_def split: if_splits)
qed

lemma list_all2_right: "list_all2 P xs ys \<Longrightarrow> y \<in> set ys \<Longrightarrow> \<exists>x \<in> set xs. P x y"
  by (induction rule: list_all2_induct) auto

lemma route_leaves_each:
  "route_leaves data ix is = Inr rs \<Longrightarrow> list_all2 (\<lambda>i r. route_leaf data ix i = Inr r) is rs"
  by (induction "is" arbitrary: rs) (auto simp: bind_res_def map_sum_def split: sum.splits)

lemma route_backlog_leaves:
  assumes "route_backlog data = Inr rs"
  obtains ix ls where "index_backlog data = Inr ix" "tree_ok ix"
    "ls = sort_key (\<lambda>i. (is_rank i, is_id i)) (filter (is_leaf ix) (bk_issues data))"
    "list_all2 (\<lambda>i r. route_leaf data ix i = Inr r) ls rs"
proof -
  obtain ix where ix: "index_backlog data = Inr ix"
      "route_leaves data ix (sort_key (\<lambda>i. (is_rank i, is_id i)) (filter (is_leaf ix) (ix_issues ix))) = Inr rs"
    using assms by (auto simp: route_backlog_def bind_res_def split: sum.splits)
  with index_tree[OF ix(1)] route_leaves_each[OF ix(2)] that show ?thesis by auto
qed

section \<open>Properties\<close>

text \<open>C35: Whatever the backlog says, a ticket is routed as ready only when it is an open leaf of the backlog that is labelled
  as safe to run alone, when neither it nor an ancestor carries a stop marker, when it gets a model with the effort that
  belongs to it, the strong one for a high-risk capability, and the security capability wherever it or an ancestor is
  marked for security, and when everything that blocks it or an ancestor is complete.\<close>

theorem routed_ready:
  assumes "route_backlog data = Inr rs" "r \<in> set rs" "ro_ready r"
  shows "\<exists>ix i. index_backlog data = Inr ix \<and> i \<in> set (bk_issues data) \<and> is_leaf ix i \<and> ro_ticket r = is_id i
    \<and> fit i (chain_of ix (is_id i)) r
    \<and> (\<forall>e \<in> set (bk_relations data). rel_type e = ''blocks'' \<and> rel_src e \<in> set (scope_of ix i) \<longrightarrow> finished ix (rel_dst e))"
proof -
  obtain ix ls where ix: "index_backlog data = Inr ix" "tree_ok ix"
      "ls = sort_key (\<lambda>i. (is_rank i, is_id i)) (filter (is_leaf ix) (bk_issues data))"
      "list_all2 (\<lambda>i r. route_leaf data ix i = Inr r) ls rs"
    by (rule route_backlog_leaves[OF assms(1)])
  obtain i where i: "i \<in> set ls" "route_leaf data ix i = Inr r" using list_all2_right[OF ix(4) assms(2)] by blast
  with route_leaf_ready[OF ix(2) i(2)] assms(3) ix(1,3) show ?thesis by auto
qed

text \<open>The answer has one routing for each open leaf, in the order of rank and identifier, and a routing either is ready or
  says why not.\<close>

theorem routed_leaves:
  assumes "route_backlog data = Inr rs"
  shows "(\<exists>ix. index_backlog data = Inr ix
      \<and> map ro_ticket rs = map is_id (sort_key (\<lambda>i. (is_rank i, is_id i)) (filter (is_leaf ix) (bk_issues data))))
    \<and> (\<forall>r \<in> set rs. (ro_stop_reason r = None) = ro_ready r)"
proof -
  obtain ix ls where ix: "index_backlog data = Inr ix" "tree_ok ix"
      "ls = sort_key (\<lambda>i. (is_rank i, is_id i)) (filter (is_leaf ix) (bk_issues data))"
      "list_all2 (\<lambda>i r. route_leaf data ix i = Inr r) ls rs"
    by (rule route_backlog_leaves[OF assms(1)])
  have "map ro_ticket rs = map is_id ls"
    using ix(4) by (intro nth_equalityI) (auto simp: list_all2_conv_all_nth dest!: route_leaf_ready[OF ix(2)])
  moreover have "\<forall>r \<in> set rs. (ro_stop_reason r = None) = ro_ready r"
    using list_all2_right[OF ix(4)] route_leaf_ready[OF ix(2)] by blast
  ultimately show ?thesis using ix(1,3) by blast
qed

section \<open>Witnesses\<close>

definition sample_issue :: "string \<Rightarrow> string \<Rightarrow> string list \<Rightarrow> string \<Rightarrow> string \<Rightarrow> issue" where
  "sample_issue k title labels status kind = \<lparr>is_id = k, is_title = Some title, is_description = None, is_labels = labels,
     is_status = Some status, is_kind = Some kind, is_rank = [], is_archived = False, is_deleted = False\<rparr>"

definition sample_backlog :: backlog where
  "sample_backlog = \<lparr>bk_version = Some (VInt 2),
     bk_issues = [sample_issue ''e'' ''Epic'' [] ''open'' ''epic'', sample_issue ''a'' ''Dry-run check'' [''autonomous-safe''] ''open'' ''task'',
       sample_issue ''b'' ''Schema'' [] ''closed'' ''task''],
     bk_relations = [\<lparr>rel_type = ''parent-child'', rel_src = ''a'', rel_dst = ''e''\<rparr>,
       \<lparr>rel_type = ''blocks'', rel_src = ''a'', rel_dst = ''b''\<rparr>]\<rparr>"

definition sample_routing :: route_result where
  "sample_routing = \<lparr>ro_ticket = ''a'', ro_model = Some ''gpt-5.6-terra'', ro_effort = Some ''medium'', ro_role = Some ''validate'',
     ro_capability = Some ''validation'', ro_ready = True, ro_stop_reason = None, ro_source = Some ''default'', ro_blocked_by = []\<rparr>"

lemma sample_routed: "route_backlog sample_backlog = Inr [sample_routing]"
  by code_simp

definition sample_index :: bindex where
  "sample_index = \<lparr>ix_issues = bk_issues sample_backlog, ix_parents = [(''a'', ''e'')],
     ix_ancestors = [(''e'', []), (''a'', [sample_issue ''e'' ''Epic'' [] ''open'' ''epic'']), (''b'', [])]\<rparr>"

lemma sample_indexed: "index_backlog sample_backlog = Inr sample_index"
  by code_simp


theorem routed_ready_witness:
  "\<exists>ix i. index_backlog sample_backlog = Inr ix \<and> i \<in> set (bk_issues sample_backlog) \<and> is_leaf ix i \<and> ''a'' = is_id i
    \<and> fit i (chain_of ix (is_id i)) sample_routing"
proof -
  have "ro_ready sample_routing" "ro_ticket sample_routing = ''a''" by (simp_all add: sample_routing_def)
  with routed_ready[OF sample_routed, of sample_routing] show ?thesis by auto
qed

theorem routed_leaves_witness: "map ro_ticket [sample_routing] = [''a'']"
proof -
  obtain ix where "index_backlog sample_backlog = Inr ix"
      "map ro_ticket [sample_routing] = map is_id (sort_key (\<lambda>i. (is_rank i, is_id i)) (filter (is_leaf ix) (bk_issues sample_backlog)))"
    using routed_leaves[OF sample_routed] by blast
  moreover have "map is_id (sort_key (\<lambda>i. (is_rank i, is_id i)) (filter (is_leaf sample_index) (bk_issues sample_backlog))) = [''a'']"
    by code_simp
  ultimately show ?thesis using sample_indexed by auto
qed

end
