(* ===== verification/Work_Ownership.thy ===== *)
theory Work_Ownership
  imports Py_Prelude "HOL-Library.Sublist"
begin

text \<open>
  Reservations of checkouts, paths and scarce resources, \<open>src/ops/orchestration/ownership.py\<close>. A record is parsed from a
  decoded dictionary; frozen sets are sets, and \<open>Path.resolve\<close>, which reads the file system, is the argument \<open>resolve\<close>.
  Shown: whatever is reserved and released through the one decision on conflicts, what is active at the same time never
  shares a checkout, a file or a resource, and no author reviews.
\<close>

section \<open>Reservations\<close>

datatype reservation =
    Writer (re_key: string) (re_owner: string) (re_reviewer: string) (re_worktree: string) (re_paths: "string set") (re_resources: "string set")
  | Hold (re_key: string) (re_owner: string) (re_resources: "string set")
  | Preserved (re_key: string) (re_worktree: string) (re_paths: "string set")

fun worktrees :: "reservation \<Rightarrow> string set" where
  "worktrees (Writer k w v t ps rs) = {t}"
| "worktrees (Hold k w rs) = {}"
| "worktrees (Preserved k t ps) = {t}"

fun writes :: "reservation \<Rightarrow> string set" where
  "writes (Writer k w v t ps rs) = ps"
| "writes (Hold k w rs) = {}"
| "writes (Preserved k t ps) = {}"

fun declared_dirty :: "reservation \<Rightarrow> string set" where
  "declared_dirty (Writer k w v t ps rs) = ps"
| "declared_dirty (Hold k w rs) = {}"
| "declared_dirty (Preserved k t ps) = ps"

fun held_resources :: "reservation \<Rightarrow> string set" where
  "held_resources (Writer k w v t ps rs) = rs"
| "held_resources (Hold k w rs) = rs"
| "held_resources (Preserved k t ps) = {}"

section \<open>Parsing\<close>

definition invalid_reservation :: "string \<Rightarrow> string" where
  "invalid_reservation name = ''invalid reservation: '' @ name"

definition res_text :: "bag \<Rightarrow> string \<Rightarrow> string + string" where
  "res_text record name =
    (case map_of record name of
       Some (VStr s) \<Rightarrow> if s = [] then Inl (invalid_reservation name) else Inr s
     | _ \<Rightarrow> Inl (invalid_reservation name))"

fun name_in :: "pyv \<Rightarrow> string option" where
  "name_in (VStr s) = (if s = [] then None else Some s)"
| "name_in v = None"

definition res_names :: "bag \<Rightarrow> string \<Rightarrow> string + string set" where
  "res_names record name =
    (case map_of record name of
       Some (VList vs) \<Rightarrow> (case those (map name_in vs) of None \<Rightarrow> Inl (invalid_reservation name) | Some ns \<Rightarrow> Inr (set ns))
     | _ \<Rightarrow> Inl (invalid_reservation name))"

text \<open>\<open>PurePosixPath\<close>: the components between the slashes without the empty ones and the single dots.\<close>

fun split_slash :: "string \<Rightarrow> string list" where
  "split_slash [] = [[]]"
| "split_slash (c # cs) = (if c = CHR ''/'' then [] # split_slash cs
     else (case split_slash cs of [] \<Rightarrow> [[c]] | p # ps \<Rightarrow> (c # p) # ps))"

definition path_parts :: "string \<Rightarrow> string list" where
  "path_parts s = filter (\<lambda>p. p \<notin> {[], ''.''}) (split_slash s)"

fun join_slash :: "string list \<Rightarrow> string" where
  "join_slash [] = []"
| "join_slash [p] = p"
| "join_slash (p # ps) = p @ ''/'' @ join_slash ps"

definition is_absolute :: "string \<Rightarrow> bool" where
  "is_absolute s = prefix ''/'' s"

definition is_tree :: "string \<Rightarrow> bool" where
  "is_tree s = suffix ''/'' s"

definition path_ok :: "string \<Rightarrow> bool" where
  "path_ok s \<longleftrightarrow> \<not> is_absolute s \<and> path_parts s \<noteq> [] \<and> ''..'' \<notin> set (path_parts s)
     \<and> s = join_slash (path_parts s) @ (if is_tree s then ''/'' else [])"

definition res_paths :: "bag \<Rightarrow> string + string set" where
  "res_paths record = bind_res (res_names record ''paths'') (\<lambda>ps.
     if \<forall>p \<in> ps. path_ok p then Inr ps else Inl (invalid_reservation ''path''))"

definition res_worktree :: "(string \<Rightarrow> string) \<Rightarrow> bag \<Rightarrow> string + string" where
  "res_worktree resolve record = bind_res (res_text record ''worktree'') (\<lambda>t.
     if is_absolute t then Inr (resolve t) else Inl (invalid_reservation ''worktree must be absolute''))"

definition parse_writer :: "(string \<Rightarrow> string) \<Rightarrow> bag \<Rightarrow> string + reservation" where
  "parse_writer resolve d = bind_res (res_text d ''key'') (\<lambda>k. bind_res (res_text d ''owner'') (\<lambda>w.
     bind_res (res_text d ''reviewer'') (\<lambda>v. bind_res (res_worktree resolve d) (\<lambda>t. bind_res (res_paths d) (\<lambda>ps.
     bind_res (res_names d ''resources'') (\<lambda>rs. Inr (Writer k w v t ps rs)))))))"

definition parse_hold :: "bag \<Rightarrow> string + reservation" where
  "parse_hold d = bind_res (res_text d ''key'') (\<lambda>k. bind_res (res_text d ''owner'') (\<lambda>w.
     bind_res (res_names d ''resources'') (\<lambda>rs. Inr (Hold k w rs))))"

definition parse_preserved :: "(string \<Rightarrow> string) \<Rightarrow> bag \<Rightarrow> string + reservation" where
  "parse_preserved resolve d = bind_res (res_text d ''key'') (\<lambda>k. bind_res (res_worktree resolve d) (\<lambda>t.
     bind_res (res_paths d) (\<lambda>ps. Inr (Preserved k t ps))))"

text \<open>A \<open>kind\<close> that is no string is refused with the same class of error or, when it cannot be hashed, with \<open>TypeError\<close>.\<close>

definition parse_reservation :: "(string \<Rightarrow> string) \<Rightarrow> pyv \<Rightarrow> string + reservation" where
  "parse_reservation resolve record =
    (case record of
       VDict d \<Rightarrow>
         (case map_of d ''kind'' of
            Some (VStr k) \<Rightarrow>
              if k = ''writer'' then parse_writer resolve d
              else if k = ''hold'' then parse_hold d
              else if k = ''preserved'' then parse_preserved resolve d
              else Inl (invalid_reservation ''kind'')
          | Some (VList vs) \<Rightarrow> Inl ''TypeError''
          | Some (VDict e) \<Rightarrow> Inl ''TypeError''
          | _ \<Rightarrow> Inl (invalid_reservation ''kind''))
     | _ \<Rightarrow> Inl (invalid_reservation ''kind''))"

section \<open>Conflicts\<close>

text \<open>A declared path names one file, or with a trailing slash a tree.\<close>

definition covers :: "string set \<Rightarrow> string \<Rightarrow> bool" where
  "covers declared p \<longleftrightarrow> (\<exists>d \<in> declared. p = d \<or> is_tree d \<and> prefix d p)"

definition overlap :: "string set \<Rightarrow> string set \<Rightarrow> bool" where
  "overlap left right \<longleftrightarrow> (\<exists>p \<in> right. covers left p) \<or> (\<exists>p \<in> left. covers right p)"

definition reasons_of :: "(string \<times> bool) list \<Rightarrow> string list" where
  "reasons_of cs = map fst (filter snd cs)"

definition clash_reasons :: "reservation \<Rightarrow> reservation \<Rightarrow> string list" where
  "clash_reasons candidate other = reasons_of
    [(''duplicate-reservation'', re_key other = re_key candidate),
     (''worktree-conflict'', worktrees other \<inter> worktrees candidate \<noteq> {}),
     (''path-conflict'', overlap (writes other) (writes candidate)),
     (''resource-conflict'', held_resources other \<inter> held_resources candidate \<noteq> {})]"

definition writers :: "reservation list \<Rightarrow> reservation list" where
  "writers rs = filter is_Writer rs"

definition independence_reasons :: "reservation list \<Rightarrow> reservation \<Rightarrow> string list" where
  "independence_reasons active candidate =
    (case candidate of
       Writer k w v t ps rs \<Rightarrow> reasons_of
         [(''reviewer-not-independent'', v = w),
          (''reviewer-is-active-author'', v \<in> re_owner ` set (writers active)),
          (''author-reserved-as-reviewer'', w \<in> re_reviewer ` set (writers active))]
     | _ \<Rightarrow> [])"

definition conflicts :: "reservation list \<Rightarrow> reservation \<Rightarrow> string list" where
  "conflicts active candidate =
    sort (remdups (concat (map (clash_reasons candidate) active) @ independence_reasons active candidate))"

definition undeclared :: "(string \<Rightarrow> string) \<Rightarrow> reservation list \<Rightarrow> string \<Rightarrow> string set \<Rightarrow> string set" where
  "undeclared resolve active worktree dirty =
    {p \<in> dirty. \<not> covers (\<Union>r \<in> {r \<in> set active. resolve worktree \<in> worktrees r}. declared_dirty r) p}"

section \<open>The active set\<close>

text \<open>\<open>Loop.reserve\<close> and \<open>Loop.release\<close> on the reservations of the journal.\<close>

definition reserve_in :: "reservation \<Rightarrow> reservation list \<Rightarrow> (string list + string) \<times> reservation list" where
  "reserve_in r active = (if conflicts active r \<noteq> [] then (Inl (conflicts active r), active) else (Inr (re_key r), active @ [r]))"

definition release_in :: "string \<Rightarrow> reservation list \<Rightarrow> (string list + string) \<times> reservation list" where
  "release_in k active =
    (let kept = filter (\<lambda>r. re_key r \<noteq> k) active
     in if length kept = length active then (Inl [''no reservation''], active) else (Inr k, kept))"

datatype own_op = Reserve reservation | Release string

fun own_do :: "own_op \<Rightarrow> reservation list \<Rightarrow> reservation list" where
  "own_do (Reserve r) active = snd (reserve_in r active)"
| "own_do (Release k) active = snd (release_in k active)"

definition apart :: "reservation \<Rightarrow> reservation \<Rightarrow> bool" where
  "apart r s \<longleftrightarrow> re_key r \<noteq> re_key s \<and> worktrees r \<inter> worktrees s = {} \<and> held_resources r \<inter> held_resources s = {}
     \<and> (\<nexists>p. covers (writes r) p \<and> covers (writes s) p)
     \<and> (is_Writer r \<and> is_Writer s \<longrightarrow> re_owner r \<noteq> re_reviewer s \<and> re_owner s \<noteq> re_reviewer r)"

definition independent :: "reservation \<Rightarrow> bool" where
  "independent r \<longleftrightarrow> (is_Writer r \<longrightarrow> re_owner r \<noteq> re_reviewer r)"

definition exclusive :: "reservation list \<Rightarrow> bool" where
  "exclusive rs \<longleftrightarrow> sorted_wrt apart rs \<and> list_all independent rs"

lemma prefix_comparable: "prefix a p \<Longrightarrow> prefix b p \<Longrightarrow> prefix a b \<or> prefix b a"
  by (metis prefix_same_cases)

lemma overlap_iff: "overlap left right \<longleftrightarrow> (\<exists>p. covers left p \<and> covers right p)"
proof
  assume "overlap left right"
  then show "\<exists>p. covers left p \<and> covers right p" by (auto simp: overlap_def covers_def)
next
  assume "\<exists>p. covers left p \<and> covers right p"
  then obtain p d e where p: "d \<in> left" "p = d \<or> is_tree d \<and> prefix d p" "e \<in> right" "p = e \<or> is_tree e \<and> prefix e p"
    by (auto simp: covers_def)
  then have "prefix d e \<and> (d = e \<or> is_tree d) \<or> prefix e d \<and> (d = e \<or> is_tree e)" using prefix_comparable[of d p e] by auto
  with p(1,3) show "overlap left right" unfolding overlap_def covers_def by blast
qed

lemma reasons_none: "reasons_of cs = [] \<longleftrightarrow> (\<forall>c \<in> set cs. \<not> snd c)"
  by (auto simp: reasons_of_def filter_empty_conv)

lemma sort_remdups_Nil [simp]: "sort (remdups xs) = [] \<longleftrightarrow> xs = []"
  by (metis remdups_eq_nil_iff set_empty set_sort)

lemma conflicts_none:
  "conflicts active r = [] \<longleftrightarrow> (\<forall>s \<in> set active. clash_reasons r s = []) \<and> independence_reasons active r = []"
  by (auto simp: conflicts_def concat_eq_Nil_conv)

lemma no_clash: "clash_reasons r s = [] \<longleftrightarrow> re_key s \<noteq> re_key r \<and> worktrees s \<inter> worktrees r = {} \<and> held_resources s \<inter> held_resources r = {}
    \<and> (\<nexists>p. covers (writes s) p \<and> covers (writes r) p)"
  by (auto simp: clash_reasons_def reasons_none overlap_iff)

lemma independence_none:
  "independence_reasons active r = [] \<longleftrightarrow> independent r \<and> (is_Writer r \<longrightarrow>
     (\<forall>s \<in> set active. is_Writer s \<longrightarrow> re_owner s \<noteq> re_reviewer r \<and> re_owner r \<noteq> re_reviewer s))"
  by (cases r) (auto simp: independence_reasons_def reasons_none independent_def writers_def)

lemma conflicts_apart: "conflicts active r = [] \<longleftrightarrow> (\<forall>s \<in> set active. apart s r) \<and> independent r"
  unfolding conflicts_none no_clash independence_none apart_def by blast

lemma exclusive_snoc: "exclusive (active @ [r]) \<longleftrightarrow> exclusive active \<and> conflicts active r = []"
  by (auto simp: exclusive_def sorted_wrt_append conflicts_apart)

lemma exclusive_filter: "exclusive active \<Longrightarrow> exclusive (filter P active)"
  by (auto simp: exclusive_def sorted_wrt_filter list_all_iff)

lemma exclusive_do: "exclusive active \<Longrightarrow> exclusive (own_do act active)"
  by (cases act) (auto simp: reserve_in_def release_in_def Let_def exclusive_snoc exclusive_filter)

text \<open>The one decision on conflicts is exact: a candidate is refused with no reason precisely when everything active
  with it would still be exclusive, that is, no two reservations share an identifier, a checkout, a resource or a file
  that both may write, and nobody reviews what an active author writes.\<close>

theorem conflicts_exact:
  assumes "exclusive active"
  shows "(conflicts active r = []) = exclusive (active @ [r])"
  using assms by (simp add: exclusive_snoc)

text \<open>Whatever is reserved and released in any order, the active reservations are exclusive.\<close>

theorem reservations_exclusive: "exclusive (fold own_do ops [])"
proof -
  have "exclusive active \<Longrightarrow> exclusive (fold own_do ops active)" for active
    by (induction ops arbitrary: active) (auto simp: exclusive_do)
  moreover have "exclusive []" by (simp add: exclusive_def)
  ultimately show ?thesis by blast
qed

theorem conflicts_exact_witness:
  "conflicts [Writer ''t1'' ''a'' ''b'' ''/w'' {''ops/''} {}] (Writer ''t2'' ''c'' ''d'' ''/x'' {''ops/y.py''} {}) = [''path-conflict'']
   \<and> \<not> exclusive ([Writer ''t1'' ''a'' ''b'' ''/w'' {''ops/''} {}] @ [Writer ''t2'' ''c'' ''d'' ''/x'' {''ops/y.py''} {}])"
proof -
  let ?a = "[Writer ''t1'' ''a'' ''b'' ''/w'' {''ops/''} {}]" and ?r = "Writer ''t2'' ''c'' ''d'' ''/x'' {''ops/y.py''} {}"
  have e: "exclusive ?a" by (simp add: exclusive_def independent_def)
  have "conflicts ?a ?r = [''path-conflict'']" by code_simp
  with conflicts_exact[OF e, of ?r] show ?thesis by simp
qed

end
