(* ===== verification/Work_Supervisor.thy ===== *)
theory Work_Supervisor
  imports Work_Handoff Stop_Monad
begin

text \<open>
  The bounded supervisor of work sessions, \<open>src/ops/orchestration/continuation.py\<close>: the selection of a ticket, the
  receipt of a worker, the revalidation before every effect, and \<open>continue_work\<close>. The adapter, the worker, the clock and
  the file of the handoff answer through a stream of moments; every call may raise \<open>Stop\<close> with a reason or another
  exception. \<open>sv_saved\<close> is the handoff on disk; no code reads \<open>sv_log\<close>, the effects in order.
\<close>

section \<open>Selecting a ticket\<close>

definition is_line_break :: "char \<Rightarrow> bool" where
  "is_line_break c \<longleftrightarrow> code c \<in> {10, 11, 12, 13, 28, 29, 30, 133}"

text \<open>The first words of the lines that have one.\<close>

fun first_words :: "bool \<Rightarrow> string \<Rightarrow> string list" where
  "first_words fresh [] = []"
| "first_words fresh (c # cs) =
    (if is_line_break c then first_words True cs
     else if \<not> fresh \<or> is_space c then first_words fresh cs
     else (c # takeWhile (\<lambda>x. \<not> is_space x) cs) # first_words False cs)"

definition named_issues :: "bindex \<Rightarrow> string \<Rightarrow> string list" where
  "named_issues ix text = filter (\<lambda>w. issue_at (ix_issues ix) w \<noteq> None) (first_words True text)"

definition open_issue :: "issue \<Rightarrow> bool" where
  "open_issue i \<longleftrightarrow> is_status i \<noteq> Some ''closed'' \<and> \<not> is_archived i \<and> \<not> is_deleted i"

definition child_issues :: "bindex \<Rightarrow> string \<Rightarrow> issue list" where
  "child_issues ix k = List.map_filter (issue_at (ix_issues ix)) (map fst (filter (\<lambda>e. snd e = k) (ix_parents ix)))"

text \<open>The descent to the first unfinished leaf; the first argument bounds its depth.\<close>

primrec descend :: "nat \<Rightarrow> bindex \<Rightarrow> issue \<Rightarrow> string + issue" where
  "descend 0 ix i = Inl ''no end''"
| "descend (Suc n) ix i =
    (let children = child_issues ix (is_id i); unfinished = filter open_issue children
     in if children \<noteq> [] \<and> unfinished = [] then Inl ''container-needs-reconciliation''
        else if unfinished = [] then Inr i
        else descend n ix (hd (sort_key (\<lambda>i. (is_rank i, is_id i)) unfinished)))"

text \<open>A \<open>Stop\<close> with its reason, or another exception.\<close>

datatype halt = Halted string | Broken string

fun unblocked :: "bindex \<Rightarrow> string list \<Rightarrow> relation list \<Rightarrow> halt option" where
  "unblocked ix scope [] = None"
| "unblocked ix scope (r # rs) =
    (if rel_type r \<noteq> ''blocks'' \<or> rel_src r \<notin> set scope then unblocked ix scope rs
     else if issue_at (ix_issues ix) (rel_dst r) = None then Some (Halted ''blocked'')
     else (case is_complete (depth_bound ix) (ix_issues ix) (ix_parents ix) (rel_dst r) of
       None \<Rightarrow> Some (Broken ''RecursionError'')
     | Some b \<Rightarrow> if b then unblocked ix scope rs else Some (Halted ''blocked'')))"

definition select_leaf :: "backlog \<Rightarrow> bindex \<Rightarrow> issue \<Rightarrow> halt + (issue \<times> issue list)" where
  "select_leaf data ix start =
    (case descend (depth_bound ix) ix start of
       Inl r \<Rightarrow> Inl (Halted r)
     | Inr i \<Rightarrow>
         if \<not> open_issue i then Inl (Halted ''stale-lit-next'')
         else (case unblocked ix (scope_of ix i) (bk_relations data) of
           Some e \<Rightarrow> Inl e
         | None \<Rightarrow> Inr (i, chain_of ix (is_id i))))"

definition select_ticket :: "backlog \<Rightarrow> string \<Rightarrow> halt + (issue \<times> issue list) option" where
  "select_ticket data text =
    (case index_backlog data of
       Inl e \<Rightarrow> Inl (Broken e)
     | Inr ix \<Rightarrow>
         (case remdups (named_issues ix text) of
            [] \<Rightarrow> if blank text then Inr None else Inl (Halted ''no-workable-ticket'')
          | [k] \<Rightarrow> map_sum id Some (select_leaf data ix (the (issue_at (ix_issues ix) k)))
          | _ \<Rightarrow> Inl (Halted ''ambiguous-lit-next'')))"

section \<open>Receipts\<close>

fun truthy :: "pyv \<Rightarrow> bool" where
  "truthy VNone = False"
| "truthy (VBool b) = b"
| "truthy (VInt n) = (n \<noteq> 0)"
| "truthy (VFloat f) = (f \<noteq> Fin 0)"
| "truthy (VStr s) = (s \<noteq> [])"
| "truthy (VList vs) = (vs \<noteq> [])"
| "truthy (VTuple vs) = (vs \<noteq> [])"
| "truthy (VDict d) = (d \<noteq> [])"
| "truthy (VProxy d) = (d \<noteq> [])"
| "truthy VOpaque = True"

definition file_ok :: "string \<Rightarrow> bool" where
  "file_ok s \<longleftrightarrow> s \<noteq> [] \<and> \<not> has_nul s \<and> char_of (10::nat) \<notin> set s \<and> \<not> is_absolute s
     \<and> {''..'', ''.git'', ''.worktrees''} \<inter> set (path_parts s) = {} \<and> \<not> prefix ''-'' s \<and> path_parts s \<noteq> []"

fun file_value :: "pyv \<Rightarrow> string option" where
  "file_value (VStr s) = (if file_ok s then Some s else None)"
| "file_value v = None"

record receipt =
  rc_files :: "string list"
  rc_summary :: string
  rc_risks :: "string list"

fun note_of :: "pyv \<Rightarrow> string option" where
  "note_of (VStr s) = (if blank s then None else Some s)"
| "note_of v = None"

definition receipt_files :: "pyv \<Rightarrow> halt + receipt" where
  "receipt_files v =
    (case v of
       VDict d \<Rightarrow>
         (case map_of d ''stop_reason'' of
            Some (VStr (c # cs)) \<Rightarrow> Inl (Halted (c # cs))
          | r \<Rightarrow>
              if (case r of None \<Rightarrow> False | Some x \<Rightarrow> truthy x) then Inl (Halted ''invalid-worker-receipt'')
              else (case (map_of d ''files'', map_of d ''summary'', map_of d ''risks'') of
                   (Some (VList fs), Some (VStr m), Some (VList rs)) \<Rightarrow>
                     (case (those (map file_value fs), those (map note_of rs)) of
                        (Some ns, Some ks) \<Rightarrow>
                          if ns = [] \<or> blank m then Inl (Halted ''invalid-worker-receipt'')
                          else Inr \<lparr>rc_files = ns, rc_summary = m, rc_risks = ks\<rparr>
                      | _ \<Rightarrow> Inl (Halted ''invalid-worker-receipt''))
                 | _ \<Rightarrow> Inl (Halted ''invalid-worker-receipt'')))
     | _ \<Rightarrow> Inl (Halted ''invalid-worker-receipt''))"

section \<open>State\<close>

record handoff =
  hf_active_ticket :: string
  hf_parent_epic :: string
  hf_branch :: string
  hf_worktree :: string
  hf_model :: string
  hf_effort :: string
  hf_role :: string
  hf_goal :: string
  hf_completed :: "string list"
  hf_verification :: "string list"
  hf_risks :: "string list"
  hf_next_ticket :: "string option"
  hf_stop_reason :: "string option"
  hf_worker_stop :: bool
  hf_recovery :: bool
  hf_resolutions :: "pyv list option"

definition optional_doc :: "string option \<Rightarrow> pyv" where
  "optional_doc v = (case v of None \<Rightarrow> VNone | Some s \<Rightarrow> VStr s)"

definition handoff_doc :: "handoff \<Rightarrow> bag" where
  "handoff_doc h = [(''version'', VInt 1), (''active_ticket'', VStr (hf_active_ticket h)), (''parent_epic'', VStr (hf_parent_epic h)),
     (''branch'', VStr (hf_branch h)), (''worktree'', VStr (hf_worktree h)), (''model'', VStr (hf_model h)), (''effort'', VStr (hf_effort h)),
     (''role'', VStr (hf_role h)), (''goal'', VStr (hf_goal h)), (''completed_work'', VList (map VStr (hf_completed h))),
     (''verification'', VList (map VStr (hf_verification h))), (''risks'', VList (map VStr (hf_risks h))),
     (''next_ticket'', optional_doc (hf_next_ticket h)), (''stop_reason'', optional_doc (hf_stop_reason h)),
     (''worker_stop'', VBool (hf_worker_stop h)), (''recovery_required'', VBool (hf_recovery h))]
     @ (case hf_resolutions h of None \<Rightarrow> [] | Some rs \<Rightarrow> [(''resolutions'', VList rs)])"

record worktree =
  wt_branch :: string
  wt_worktree :: string
  wt_head :: string

datatype 'a wreply = WGives 'a | WStops string | WRaises string

text \<open>\<open>wm_replaced\<close> says whether a handoff whose writing failed had already taken its place.\<close>

record wmoment =
  wm_clock :: rat
  wm_next :: "string wreply"
  wm_export :: "backlog wreply"
  wm_tree :: "worktree wreply"
  wm_done :: "unit wreply"
  wm_shown :: "string wreply"
  wm_receipt :: "pyv wreply"
  wm_verified :: "(bool \<times> string) wreply"
  wm_commit :: "string wreply"
  wm_replaced :: bool

datatype work_effect =
    Saved handoff
  | Started string route_result
  | Worked string pyv
  | Verified string bool
  | Committing string "string list"
  | Committed string string
  | Closed string

record supervision =
  sv_record :: handoff
  sv_saved :: "handoff option"
  sv_time :: nat
  sv_log :: "work_effect list"

record work_world =
  ww_moment :: "nat \<Rightarrow> wmoment"
  ww_size :: "pyv \<Rightarrow> nat"
  ww_path :: string
  ww_began :: rat
  ww_seconds :: rat
  ww_ceiling :: nat

type_synonym 'a work = "(supervision, halt, 'a) act"

definition ask :: "work_world \<Rightarrow> (wmoment \<Rightarrow> 'a wreply) \<Rightarrow> 'a work" where
  "ask W f s =
    (let u = s\<lparr>sv_time := Suc (sv_time s)\<rparr>
     in case f (ww_moment W (sv_time s)) of
          WGives x \<Rightarrow> (Inr x, u) | WStops r \<Rightarrow> (Inl (Halted r), u) | WRaises e \<Rightarrow> (Inl (Broken e), u))"

definition set_record :: "(handoff \<Rightarrow> handoff) \<Rightarrow> unit work" where
  "set_record f = m_set (\<lambda>s. s\<lparr>sv_record := f (sv_record s)\<rparr>)"

definition log_work :: "work_effect \<Rightarrow> unit work" where
  "log_work e = m_set (\<lambda>s. s\<lparr>sv_log := sv_log s @ [e]\<rparr>)"

definition m_result :: "halt + 'a \<Rightarrow> 'a work" where
  "m_result r = (case r of Inl e \<Rightarrow> m_raise e | Inr x \<Rightarrow> m_ret x)"

text \<open>\<open>write_handoff\<close> of the current record.\<close>

definition save_handoff :: "work_world \<Rightarrow> unit work" where
  "save_handoff W s =
    (case handoff_error (handoff_doc (sv_record s)) of
       Some e \<Rightarrow> (Inl (Broken e), s)
     | None \<Rightarrow>
         let m = ww_moment W (sv_time s); u = s\<lparr>sv_time := Suc (sv_time s)\<rparr>;
             v = u\<lparr>sv_saved := Some (sv_record s), sv_log := sv_log s @ [Saved (sv_record s)]\<rparr>
         in case wm_done m of
              WGives x \<Rightarrow> (Inr (), v)
            | WStops r \<Rightarrow> (Inl (Broken r), if wm_replaced m then v else u)
            | WRaises e \<Rightarrow> (Inl (Broken e), if wm_replaced m then v else u))"

section \<open>A unit of work\<close>

definition assigned_fields :: "route_result \<Rightarrow> string option list" where
  "assigned_fields r = [ro_model r, ro_effort r, ro_role r, ro_capability r]"

definition same_scope :: "issue \<Rightarrow> issue \<Rightarrow> bool" where
  "same_scope i j \<longleftrightarrow> is_title i = is_title j \<and> is_description i = is_description j \<and> is_kind i = is_kind j"

definition revalidate :: "work_world \<Rightarrow> issue \<Rightarrow> issue list \<Rightarrow> route_result \<Rightarrow> unit work" where
  "revalidate W original ancestors assignment =
     m_bind (ask W wm_export) (\<lambda>data. m_bind (m_result (select_ticket data (is_id original @ '' active''))) (\<lambda>r.
     case r of
       None \<Rightarrow> m_raise (Halted ''ticket-state-changed'')
     | Some (current, chain) \<Rightarrow>
         m_then (m_unless (is_status current \<noteq> Some ''in_progress'') (Halted ''ticket-state-changed''))
         (let again = route_issue current chain in
          m_then (if ro_ready again then m_ret ()
                  else m_raise (Halted (case ro_stop_reason again of None \<Rightarrow> ''None'' | Some x \<Rightarrow> x)))
         (m_then (m_unless (assigned_fields again \<noteq> assigned_fields assignment) (Halted ''assignment-changed''))
         (m_then (m_unless (map is_id chain \<noteq> map is_id ancestors \<or> \<not> same_scope current original) (Halted ''ticket-scope-changed''))
         (ask W wm_done))))))"

definition last_n :: "nat \<Rightarrow> 'a list \<Rightarrow> 'a list" where
  "last_n n xs = drop (length xs - n) xs"

definition list_at :: "bag \<Rightarrow> string \<Rightarrow> pyv list" where
  "list_at d k = (case map_of d k of Some (VList vs) \<Rightarrow> vs | _ \<Rightarrow> [])"

definition bounded_context :: "work_world \<Rightarrow> bag \<Rightarrow> bag option" where
  "bounded_context W context =
    (if ww_size W (VDict context) \<le> ww_ceiling W then Some context
     else let counts = map (\<lambda>k. (k, VInt (int (length (list_at context k))))) list_fields;
              compact = put ''history_counts'' (VDict counts) (put ''history_reference'' (VStr (ww_path W))
                (put ''verification'' (VList (last_n 2 (list_at context ''verification'')))
                (put ''completed_work'' (VList (last_n 3 (list_at context ''completed_work''))) context)))
     in if ww_size W (VDict compact) \<le> ww_ceiling W then Some compact
        else let bare = put ''risks'' (VList []) (put ''verification'' (VList []) (put ''completed_work'' (VList []) compact))
        in if ww_size W (VDict bare) > ww_ceiling W then None else Some bare)"

definition supervisor_note :: string where
  "supervisor_note = ''Implement only this unit. Return JSON files/summary/risks/stop_reason. ''
     @ ''Do not claim, close, commit, push, launch other agents or change live configuration. ''
     @ ''Supervisor owns LIT/Git transitions and fresh verification.''"

definition work_context :: "handoff \<Rightarrow> string \<Rightarrow> string \<Rightarrow> bag" where
  "work_context h ticket_body epic_body =
     handoff_doc (h\<lparr>hf_stop_reason := None\<rparr>) @ [(''ticket_body'', VStr ticket_body), (''epic_body'', VStr epic_body), (''supervisor'', VStr supervisor_note)]"

definition epic_of :: "issue list \<Rightarrow> string \<Rightarrow> string" where
  "epic_of ancestors k = (case find (\<lambda>i. is_kind i = Some ''epic'') ancestors of None \<Rightarrow> k | Some i \<Rightarrow> is_id i)"

text \<open>What a receipt that stops leaves in the record.\<close>

definition note_stop :: "pyv \<Rightarrow> handoff \<Rightarrow> handoff" where
  "note_stop v h =
    (case v of
       VDict d \<Rightarrow>
         if (case map_of d ''stop_reason'' of None \<Rightarrow> False | Some x \<Rightarrow> truthy x) then
           h\<lparr>hf_recovery := False, hf_worker_stop := True,
             hf_risks := hf_risks h
               @ (case map_of d ''summary'' of Some (VStr m) \<Rightarrow> if blank m then [] else [''Worker stop: '' @ m] | _ \<Rightarrow> [])
               @ (case map_of d ''risks'' of Some (VList rs) \<Rightarrow> List.map_filter note_of rs | _ \<Rightarrow> [])\<rparr>
         else h
     | _ \<Rightarrow> h)"

definition wt_matches :: "handoff option \<Rightarrow> worktree \<Rightarrow> bool" where
  "wt_matches prior t \<longleftrightarrow> (case prior of None \<Rightarrow> True
     | Some p \<Rightarrow> hf_branch p = ''uninspected'' \<or> wt_worktree t = hf_worktree p \<and> wt_branch t = hf_branch p)"

definition take_ticket :: "work_world \<Rightarrow> string \<Rightarrow> (issue \<times> issue list) work" where
  "take_ticket W pending = m_bind (ask W (\<lambda>m. WGives (wm_clock m))) (\<lambda>now.
     m_then (m_unless (now - ww_began W \<ge> ww_seconds W) (Halted ''time-limit''))
     (m_bind (ask W wm_export) (\<lambda>data. m_bind (m_result (select_ticket data pending)) (\<lambda>r. m_demand (Halted ''queue-empty'') r))))"

definition note_ticket :: "issue \<Rightarrow> issue list \<Rightarrow> handoff \<Rightarrow> handoff" where
  "note_ticket i ancestors h =
     h\<lparr>hf_active_ticket := is_id i, hf_next_ticket := Some (is_id i), hf_parent_epic := epic_of ancestors (is_id i)\<rparr>"

definition note_assignment :: "route_result \<Rightarrow> handoff \<Rightarrow> handoff" where
  "note_assignment a h = h\<lparr>hf_model := the (ro_model a), hf_effort := the (ro_effort a), hf_role := the (ro_role a)\<rparr>"

definition require_ready :: "route_result \<Rightarrow> unit work" where
  "require_ready a = (if ro_ready a then m_ret () else m_raise (Halted (case ro_stop_reason a of None \<Rightarrow> ''None'' | Some x \<Rightarrow> x)))"

text \<open>From the assignment to the durable intent.\<close>

definition intend_ticket :: "work_world \<Rightarrow> handoff option \<Rightarrow> issue \<Rightarrow> issue list \<Rightarrow> unit work" where
  "intend_ticket W prior i ancestors =
     m_then (set_record (note_ticket i ancestors))
     (m_then (require_ready (route_issue i ancestors))
     (m_then (set_record (note_assignment (route_issue i ancestors)))
     (m_bind (ask W wm_tree) (\<lambda>t.
      m_then (m_unless (\<not> wt_matches prior t) (Halted ''handoff-worktree-mismatch''))
      (m_then (set_record (\<lambda>h. h\<lparr>hf_branch := wt_branch t, hf_worktree := wt_worktree t, hf_stop_reason := Some ''interrupted''\<rparr>))
      (save_handoff W))))))"

text \<open>The claim; returns the bodies of the epic and of the ticket.\<close>

definition open_ticket :: "work_world \<Rightarrow> issue \<Rightarrow> issue list \<Rightarrow> (string \<times> string) work" where
  "open_ticket W i ancestors =
     m_then (ask W wm_done)
     (m_bind (ask W wm_shown) (\<lambda>epic_body. m_bind (ask W wm_shown) (\<lambda>ticket_body.
      m_then (m_bind (ask W wm_tree) (\<lambda>t. m_ret ()))
      (m_then (revalidate W i ancestors (route_issue i ancestors)) (m_ret (epic_body, ticket_body))))))"

definition claim_ticket :: "work_world \<Rightarrow> handoff option \<Rightarrow> issue \<Rightarrow> issue list \<Rightarrow> (string \<times> string) work" where
  "claim_ticket W prior i ancestors = m_then (intend_ticket W prior i ancestors)
     (m_then (log_work (Started (is_id i) (route_issue i ancestors))) (open_ticket W i ancestors))"

definition run_worker :: "work_world \<Rightarrow> issue \<Rightarrow> issue list \<Rightarrow> string \<times> string \<Rightarrow> receipt work" where
  "run_worker W i ancestors bodies = m_read (\<lambda>s.
     m_bind (m_demand (Halted ''context-limit'') (bounded_context W (work_context (sv_record s) (snd bodies) (fst bodies)))) (\<lambda>c.
     m_then (set_record (\<lambda>h. h\<lparr>hf_recovery := True\<rparr>))
     (m_then (log_work (Worked (is_id i) (VDict c)))
     (m_bind (ask W wm_receipt) (\<lambda>v.
      m_then (set_record (note_stop v))
      (m_bind (m_result (receipt_files v)) (\<lambda>r.
       m_then (set_record (\<lambda>h. h\<lparr>hf_recovery := False, hf_risks := hf_risks h @ rc_risks r\<rparr>))
       (m_then (m_bind (ask W wm_tree) (\<lambda>t. m_ret ()))
       (m_then (revalidate W i ancestors (route_issue i ancestors)) (m_ret r))))))))))"

definition verify_once :: "work_world \<Rightarrow> string \<Rightarrow> bool work" where
  "verify_once W k = m_bind (ask W wm_verified) (\<lambda>r.
     m_then (set_record (\<lambda>h. h\<lparr>hf_verification := hf_verification h @ [k @ '': '' @ snd r]\<rparr>))
     (m_then (log_work (Verified k (fst r))) (m_ret (fst r))))"

definition verify_twice :: "work_world \<Rightarrow> string \<Rightarrow> unit work" where
  "verify_twice W k = m_bind (verify_once W k) (\<lambda>ok. if ok then m_ret () else
     m_bind (verify_once W k) (\<lambda>ok. m_unless (\<not> ok) (Halted ''verification-failed-twice'')))"

text \<open>An inspection of the worktree with the revalidation that follows it.\<close>

definition recheck :: "work_world \<Rightarrow> issue \<Rightarrow> issue list \<Rightarrow> unit work" where
  "recheck W i ancestors = m_then (m_bind (ask W wm_tree) (\<lambda>t. m_ret ())) (revalidate W i ancestors (route_issue i ancestors))"

definition commit_unit :: "work_world \<Rightarrow> issue \<Rightarrow> issue list \<Rightarrow> receipt \<Rightarrow> unit work" where
  "commit_unit W i ancestors r =
     m_then (recheck W i ancestors)
     (m_then (ask W wm_done)
     (m_then (set_record (\<lambda>h. h\<lparr>hf_recovery := True\<rparr>))
     (m_then (save_handoff W)
     (m_then (log_work (Committing (is_id i) (rc_files r)))
     (m_bind (ask W wm_commit) (\<lambda>c.
      m_then (log_work (Committed (is_id i) c))
      (m_then (set_record (\<lambda>h. h\<lparr>hf_completed := hf_completed h @ [is_id i @ '': '' @ c @ '': '' @ rc_summary r]\<rparr>))
      (m_then (save_handoff W)
      (m_then (recheck W i ancestors)
      (m_then (log_work (Closed (is_id i)))
      (m_then (ask W wm_done)
      (m_then (set_record (\<lambda>h. h\<lparr>hf_stop_reason := None, hf_next_ticket := None, hf_recovery := False\<rparr>))
      (m_then (save_handoff W) (ask W wm_done))))))))))))))"

definition queue_next :: "work_world \<Rightarrow> string work" where
  "queue_next W = m_bind (ask W wm_next) (\<lambda>pending. m_bind (ask W wm_export) (\<lambda>data.
     m_bind (m_result (select_ticket data pending)) (\<lambda>r.
     m_then (set_record (\<lambda>h. h\<lparr>hf_next_ticket := map_option (is_id \<circ> fst) r\<rparr>))
     (m_then (save_handoff W) (m_ret pending)))))"

definition work_unit :: "work_world \<Rightarrow> handoff option \<Rightarrow> string \<Rightarrow> string work" where
  "work_unit W prior pending = m_bind (take_ticket W pending) (\<lambda>(i, ancestors).
     m_bind (claim_ticket W prior i ancestors) (\<lambda>bodies.
     m_bind (run_worker W i ancestors bodies) (\<lambda>r.
     m_then (verify_twice W (is_id i))
     (m_then (commit_unit W i ancestors r)
     (queue_next W)))))"

primrec work_units :: "nat \<Rightarrow> work_world \<Rightarrow> handoff option \<Rightarrow> string \<Rightarrow> unit work" where
  "work_units 0 W prior pending = m_raise (Halted ''ticket-limit'')"
| "work_units (Suc n) W prior pending = m_bind (work_unit W prior pending) (work_units n W prior)"

section \<open>The supervisor\<close>

definition fresh_handoff :: "string \<Rightarrow> string \<Rightarrow> handoff" where
  "fresh_handoff goal cwd = \<lparr>hf_active_ticket = ''none'', hf_parent_epic = ''none'', hf_branch = ''uninspected'', hf_worktree = cwd,
     hf_model = ''gpt-6-astra'', hf_effort = ''high'', hf_role = ''implement'', hf_goal = goal, hf_completed = [], hf_verification = [],
     hf_risks = [], hf_next_ticket = None, hf_stop_reason = None, hf_worker_stop = False, hf_recovery = False, hf_resolutions = None\<rparr>"

definition resumed :: "string \<Rightarrow> handoff \<Rightarrow> handoff" where
  "resumed goal p = p\<lparr>hf_goal := goal, hf_stop_reason := None, hf_worker_stop := False, hf_recovery := False\<rparr>"

definition work_body :: "work_world \<Rightarrow> nat \<Rightarrow> handoff option \<Rightarrow> unit work" where
  "work_body W limit prior =
    m_then
     (case prior of
        None \<Rightarrow> m_ret ()
      | Some p \<Rightarrow>
          if hf_recovery p then
            m_then (set_record (\<lambda>h. h\<lparr>hf_recovery := True\<rparr>)) (m_raise (Halted ''recovery-required''))
          else if hf_worker_stop p then
            m_then (set_record (\<lambda>h. h\<lparr>hf_worker_stop := True\<rparr>))
              (m_raise (Halted (case hf_stop_reason p of None \<Rightarrow> ''worker-resolution-required'' | Some x \<Rightarrow> x)))
          else if hf_stop_reason p = Some ''interrupted'' then
            m_then (set_record (\<lambda>h. h\<lparr>hf_recovery := True\<rparr>)) (m_raise (Halted ''recovery-required''))
          else m_ret ())
     (m_bind (ask W wm_next) (work_units limit W prior))"

definition note_halt :: "halt \<Rightarrow> handoff \<Rightarrow> handoff" where
  "note_halt e h = (case e of
     Halted r \<Rightarrow> h\<lparr>hf_stop_reason := Some r\<rparr>
   | Broken x \<Rightarrow> h\<lparr>hf_stop_reason := Some ''adapter-error'', hf_risks := hf_risks h @ [x]\<rparr>)"

text \<open>\<open>continue_work\<close>: the record, or the exception that escapes. The last comment is made and its failure swallowed.\<close>

definition continue_work :: "work_world \<Rightarrow> string \<Rightarrow> string \<Rightarrow> int \<Rightarrow> handoff option \<Rightarrow> nat \<Rightarrow> (string + handoff) \<times> supervision option" where
  "continue_work W goal cwd limit prior time =
    (if \<not> (1 \<le> limit \<and> limit \<le> 100) \<or> ww_seconds W \<le> 0 \<or> ww_ceiling W < 1024 then (Inl ''finite positive bounds required (1..100 tickets)'', None)
     else case Option.bind prior (\<lambda>p. handoff_error (handoff_doc p)) of
       Some e \<Rightarrow> (Inl e, None)
     | None \<Rightarrow>
         let s = \<lparr>sv_record = (case prior of None \<Rightarrow> fresh_handoff goal cwd | Some p \<Rightarrow> resumed goal p), sv_saved = prior,
               sv_time = time, sv_log = []\<rparr>
         in (case work_body W (nat limit) prior s of (r, s) \<Rightarrow>
           let s = (case r of Inl e \<Rightarrow> s\<lparr>sv_record := note_halt e (sv_record s)\<rparr> | Inr u \<Rightarrow> s)
           in (case save_handoff W s of
                 (Inl (Broken e), s) \<Rightarrow> (Inl e, Some s)
               | (Inl (Halted e), s) \<Rightarrow> (Inl e, Some s)
               | (Inr u, s) \<Rightarrow> (Inr (sv_record s), Some (s\<lparr>sv_time := Suc (sv_time s)\<rparr>)))))"

end
