(* ===== verification/Work_Safety.thy ===== *)
theory Work_Safety
  imports Work_Supervisor
begin

text \<open>
  What the supervisor keeps over every run: the order of its effects, the durable intent before each of them, and the end.
\<close>

section \<open>The selection ends\<close>

lemma child_issue: "tree_ok ix \<Longrightarrow> j \<in> set (child_issues ix k) \<Longrightarrow> j \<in> set (ix_issues ix) \<and> (is_id j, k) \<in> set (ix_parents ix)"
  by (auto simp: child_issues_def map_filter_def dest: issue_at_Some)

lemma sort_key_hd: "xs \<noteq> [] \<Longrightarrow> hd (sort_key f xs) \<in> set xs"
  by (metis hd_in_set set_empty set_sort)

lemma descend_ends:
  assumes "tree_ok ix"
  shows "i \<in> set (ix_issues ix) \<Longrightarrow> n + length (chain_of ix (is_id i)) > length (ix_issues ix) \<Longrightarrow> descend n ix i = r \<Longrightarrow>
    r \<noteq> Inl ''no end'' \<and> (\<forall>j. r = Inr j \<longrightarrow> j \<in> set (ix_issues ix) \<and> child_issues ix (is_id j) = [])"
proof (induction n arbitrary: i)
  case 0
  with chain_bound[OF assms] show ?case by fastforce
next
  case (Suc n)
  let ?u = "filter open_issue (child_issues ix (is_id i))"
  let ?j = "hd (sort_key (\<lambda>i. (is_rank i, is_id i)) ?u)"
  show ?case
  proof (cases "?u = []")
    case True
    with Suc.prems show ?thesis by (auto simp: Let_def split: if_splits)
  next
    case False
    from sort_key_hd[OF this] have "?j \<in> set (child_issues ix (is_id i))" by auto
    from child_issue[OF assms this] have j: "?j \<in> set (ix_issues ix)" "(is_id ?j, is_id i) \<in> set (ix_parents ix)" by auto
    have "length (chain_of ix (is_id ?j)) = Suc (length (chain_of ix (is_id i)))" using chain_child[OF assms j(2)] by auto
    then have n: "length (ix_issues ix) < n + length (chain_of ix (is_id ?j))" using Suc.prems(2) by simp
    have "child_issues ix (is_id i) \<noteq> []" using False by auto
    with False Suc.prems(3) have "descend n ix ?j = r" by (simp only: descend.simps Let_def if_False simp_thms)
    then show ?thesis by (rule Suc.IH[OF j(1) n])
  qed
qed

lemma unblocked_known:
  assumes "tree_ok ix"
  shows "unblocked ix scope rs \<notin> {Some (Broken ''RecursionError''), Some (Halted ''no end'')}
    \<and> (unblocked ix scope rs = None \<longrightarrow> (\<forall>e \<in> set rs. rel_type e = ''blocks'' \<and> rel_src e \<in> set scope \<longrightarrow> finished ix (rel_dst e)))"
  by (induction rs) (auto simp: complete_known[OF assms] split: option.split)

lemma select_leaf_found:
  assumes "tree_ok ix" "i \<in> set (ix_issues ix)"
  shows "select_leaf data ix i \<notin> {Inl (Halted ''no end''), Inl (Broken ''RecursionError'')}
    \<and> (\<forall>j as. select_leaf data ix i = Inr (j, as) \<longrightarrow> j \<in> set (ix_issues ix) \<and> open_issue j \<and> child_issues ix (is_id j) = []
        \<and> as = chain_of ix (is_id j)
        \<and> (\<forall>e \<in> set (bk_relations data). rel_type e = ''blocks'' \<and> rel_src e \<in> set (scope_of ix j) \<longrightarrow> finished ix (rel_dst e)))"
proof -
  have b: "length (ix_issues ix) < depth_bound ix + length (chain_of ix (is_id i))" by (simp add: depth_bound_def)
  show ?thesis
  proof (cases "descend (depth_bound ix) ix i")
    case (Inl r)
    with descend_ends[OF assms b Inl] show ?thesis by (simp add: select_leaf_def)
  next
    case (Inr j)
    with descend_ends[OF assms b Inr] unblocked_known[OF assms(1), of "scope_of ix j" "bk_relations data"] show ?thesis
      by (cases "unblocked ix (scope_of ix j) (bk_relations data)") (simp_all add: select_leaf_def)
  qed
qed

lemma chain_errors: "ancestor_chain issues ps seen k = Inl e \<Longrightarrow> e \<in> {''parent cycle'', ''KeyError''}"
proof (induction issues ps seen k rule: ancestor_chain.induct)
  case (1 issues ps seen k)
  show ?case
  proof (cases "map_of ps k")
    case None
    with "1.prems" show ?thesis by (simp add: ancestor_chain.simps)
  next
    case (Some p)
    with "1.prems" "1.IH"[OF Some] show ?thesis
      by (subst (asm) ancestor_chain.simps) (auto simp: bind_res_def split: if_splits option.splits sum.splits)
  qed
qed

lemma all_chains_errors: "all_chains issues ps ks = Inl e \<Longrightarrow> e \<in> {''parent cycle'', ''KeyError''}"
proof (induction ks)
  case (Cons k ks)
  then show ?case using chain_errors[of issues ps "[k]" k e] by (auto simp: bind_res_def split: sum.splits)
qed simp

lemma parent_map_errors: "parent_map known ps rs = Inl e \<Longrightarrow> e = ''invalid parent relationship''"
  by (induction known ps rs rule: parent_map.induct) (auto split: if_splits)

lemma index_errors: "index_backlog data = Inl e \<Longrightarrow> e \<noteq> ''RecursionError''"
proof
  assume "index_backlog data = Inl e" "e = ''RecursionError''"
  then show False using parent_map_errors[of _ _ _ e] all_chains_errors[of _ _ _ e]
    by (auto simp: index_backlog_def bind_res_def split: if_splits sum.splits)
qed


section \<open>The protocol of a unit\<close>

datatype work_stage =
    WsRest | WsIntent string | WsStarted string | WsWorked string | WsFailed string | WsPassed string | WsReady string
  | WsCommitting string | WsCommitted string | WsRecorded string | WsClosed string | WsFinished | WsDead

definition intent_for :: "string \<Rightarrow> handoff \<Rightarrow> bool" where
  "intent_for k h \<longleftrightarrow> hf_active_ticket h = k \<and> hf_stop_reason h = Some ''interrupted''"

fun work_step :: "work_stage \<Rightarrow> work_effect \<Rightarrow> work_stage option" where
  "work_step WsRest (Saved h) = (if hf_stop_reason h = Some ''interrupted'' then Some (WsIntent (hf_active_ticket h)) else None)"
| "work_step (WsIntent k) (Started i a) = (if i = k \<and> ro_ready a \<and> ro_ticket a = k then Some (WsStarted k) else None)"
| "work_step (WsStarted k) (Worked i c) = (if i = k then Some (WsWorked k) else None)"
| "work_step (WsWorked k) (Verified i b) = (if i = k then Some (if b then WsPassed k else WsFailed k) else None)"
| "work_step (WsFailed k) (Verified i b) = (if i = k then Some (if b then WsPassed k else WsDead) else None)"
| "work_step (WsPassed k) (Saved h) = (if intent_for k h \<and> hf_recovery h then Some (WsReady k) else None)"
| "work_step (WsReady k) (Committing i fs) = (if i = k then Some (WsCommitting k) else None)"
| "work_step (WsCommitting k) (Committed i c) = (if i = k then Some (WsCommitted k) else None)"
| "work_step (WsCommitted k) (Saved h) = (if intent_for k h \<and> hf_recovery h \<and> hf_completed h \<noteq> [] then Some (WsRecorded k) else None)"
| "work_step (WsRecorded k) (Closed i) = (if i = k then Some (WsClosed k) else None)"
| "work_step (WsClosed k) (Saved h) = Some WsFinished"
| "work_step WsFinished (Saved h) = Some WsRest"
| "work_step s e = None"

fun work_steps :: "work_stage \<Rightarrow> work_effect list \<Rightarrow> work_stage option" where
  "work_steps s [] = Some s"
| "work_steps s (e # es) = Option.bind (work_step s e) (\<lambda>s. work_steps s es)"

lemma work_steps_append: "work_steps s (es @ fs) = Option.bind (work_steps s es) (\<lambda>s. work_steps s fs)"
  by (induction es arbitrary: s) (auto split: Option.bind_splits)

fun is_started :: "work_effect \<Rightarrow> bool" where
  "is_started (Started k a) = True"
| "is_started e = False"

definition starts :: "work_effect list \<Rightarrow> nat" where
  "starts es = length (filter is_started es)"

fun risky :: "work_stage \<Rightarrow> bool" where
  "risky (WsCommitting k) = True"
| "risky (WsCommitted k) = True"
| "risky (WsRecorded k) = True"
| "risky s = False"

definition at_stage :: "nat \<Rightarrow> work_stage \<Rightarrow> supervision \<Rightarrow> bool" where
  "at_stage n \<sigma> s \<longleftrightarrow> work_steps WsRest (sv_log s) = Some \<sigma> \<and> starts (sv_log s) \<le> n \<and> (risky \<sigma> \<longrightarrow> hf_recovery (sv_record s))"

definition somewhere :: "nat \<Rightarrow> supervision \<Rightarrow> bool" where
  "somewhere n s \<longleftrightarrow> (\<exists>\<sigma>. at_stage n \<sigma> s)"

lemma somewhereI: "at_stage n \<sigma> s \<Longrightarrow> somewhere n s"
  by (auto simp: somewhere_def)

text \<open>What the steps between two effects may change.\<close>

definition quietly :: "supervision \<Rightarrow> supervision \<Rightarrow> bool" where
  "quietly s u \<longleftrightarrow> sv_log u = sv_log s \<and> sv_record u = sv_record s"

lemma quietly_stage: "quietly s u \<Longrightarrow> at_stage n \<sigma> u = at_stage n \<sigma> s"
  by (simp add: quietly_def at_stage_def)

lemma quietly_somewhere: "quietly s u \<Longrightarrow> somewhere n u = somewhere n s"
  by (simp add: somewhere_def quietly_stage)

lemma quietly_refl [simp]: "quietly s s"
  by (simp add: quietly_def)

lemma quietly_trans [trans]: "quietly s u \<Longrightarrow> quietly u v \<Longrightarrow> quietly s v"
  by (simp add: quietly_def)

lemma wp_ask:
  assumes "\<And>x u. quietly s u \<Longrightarrow> Q x u" "\<And>e u. quietly s u \<Longrightarrow> X e u"
  shows "wp (ask W f) Q X s"
  using assms by (auto simp: wp_def ask_def quietly_def Let_def split: wreply.split)

lemma wp_result: "wp (m_result r) Q X s = (case r of Inl e \<Rightarrow> X e s | Inr x \<Rightarrow> Q x s)"
  by (simp add: m_result_def split: sum.split)

lemma wp_set_record [simp]: "wp (set_record f) Q X = (\<lambda>s. Q () (s\<lparr>sv_record := f (sv_record s)\<rparr>))"
  by (simp add: set_record_def)

lemma wp_log_work [simp]: "wp (log_work e) Q X = (\<lambda>s. Q () (s\<lparr>sv_log := sv_log s @ [e]\<rparr>))"
  by (simp add: log_work_def)

text \<open>A step that is followed by another one whatever it answers, and that does not move the stage.\<close>

definition still :: "'a work \<Rightarrow> bool" where
  "still m \<longleftrightarrow> (\<forall>s. wp m (\<lambda>x. quietly s) (\<lambda>e. quietly s) s)"

lemma still_wp:
  assumes "still m" "\<And>x u. quietly s u \<Longrightarrow> Q x u" "\<And>e u. quietly s u \<Longrightarrow> X e u"
  shows "wp m Q X s"
  by (rule wp_mono[OF assms(1)[unfolded still_def, rule_format]]) (use assms(2,3) in auto)

lemma still_ask [simp, intro]: "still (ask W f)"
  by (auto simp: still_def intro!: wp_ask)

lemma still_ret [simp, intro]: "still (m_ret x)" and still_raise [simp, intro]: "still (m_raise e)"
  and still_unless [simp, intro]: "still (m_unless b e)" and still_result [simp, intro]: "still (m_result r)"
  and still_demand [simp, intro]: "still (m_demand e v)"
  by (auto simp: still_def wp_result split: sum.split option.split)

lemma still_bind [intro]: "still m \<Longrightarrow> (\<And>x. still (f x)) \<Longrightarrow> still (m_bind m f)"
  unfolding still_def wp_bind
proof (intro allI, goal_cases)
  case (1 s)
  from 1(1)[rule_format, of s] show ?case
    by (rule wp_mono) (auto intro: wp_mono[OF 1(2)[rule_format]] quietly_trans)
qed

lemma still_then [intro]: "still m \<Longrightarrow> still n \<Longrightarrow> still (m_then m n)"
  by (simp add: m_then_def still_bind)

lemma still_revalidate [simp, intro]: "still (revalidate W i as a)"
  unfolding revalidate_def Let_def by (auto intro!: still_bind still_then split: option.split)

lemma still_recheck [simp, intro]: "still (recheck W i as)"
  unfolding recheck_def by (auto intro!: still_bind still_then)

lemma still_take [simp, intro]: "still (take_ticket W pending)"
  unfolding take_ticket_def by (auto intro!: still_bind still_then)

lemma stage_record: "at_stage n \<sigma> s \<Longrightarrow> \<not> risky \<sigma> \<or> hf_recovery h \<Longrightarrow> at_stage n \<sigma> (s\<lparr>sv_record := h\<rparr>)"
  by (auto simp: at_stage_def)

lemma stage_log:
  assumes "at_stage n \<sigma> s" "work_step \<sigma> e = Some \<tau>" "\<not> risky \<tau> \<or> hf_recovery (sv_record s)"
  shows "at_stage (if is_started e then Suc n else n) \<tau> (s\<lparr>sv_log := sv_log s @ [e]\<rparr>)"
  using assms by (auto simp: at_stage_def work_steps_append starts_def)

lemma stage_weaken: "at_stage n \<sigma> s \<Longrightarrow> n \<le> m \<Longrightarrow> at_stage m \<sigma> s"
  by (auto simp: at_stage_def)

lemma somewhere_weaken: "somewhere n s \<Longrightarrow> n \<le> m \<Longrightarrow> somewhere m s"
  by (auto simp: somewhere_def intro: stage_weaken)

text \<open>A stage of the unit of \<open>k\<close>, whose intent is on record.\<close>

definition unit_at :: "nat \<Rightarrow> string \<Rightarrow> work_stage \<Rightarrow> supervision \<Rightarrow> bool" where
  "unit_at n k \<sigma> s \<longleftrightarrow> at_stage n \<sigma> s \<and> intent_for k (sv_record s)"

lemma unit_quiet: "quietly s u \<Longrightarrow> unit_at n k \<sigma> u = unit_at n k \<sigma> s"
  by (simp add: unit_at_def quietly_stage) (simp add: quietly_def)

lemma unit_somewhere: "unit_at n k \<sigma> s \<Longrightarrow> somewhere n s"
  by (auto simp: unit_at_def intro: somewhereI)

lemma unit_record: "unit_at n k \<sigma> s \<Longrightarrow> \<not> risky \<sigma> \<or> hf_recovery h \<Longrightarrow> intent_for k h \<Longrightarrow> unit_at n k \<sigma> (s\<lparr>sv_record := h\<rparr>)"
  by (simp add: unit_at_def stage_record)

lemma unit_log:
  "unit_at n k \<sigma> s \<Longrightarrow> work_step \<sigma> e = Some \<tau> \<Longrightarrow> \<not> risky \<tau> \<or> hf_recovery (sv_record s) \<Longrightarrow> \<not> is_started e \<Longrightarrow>
     unit_at n k \<tau> (s\<lparr>sv_log := sv_log s @ [e]\<rparr>)"
  using stage_log[of n \<sigma> s e \<tau>] by (simp add: unit_at_def)

lemma wp_save:
  assumes "at_stage n \<sigma> s" "work_step \<sigma> (Saved (sv_record s)) = Some \<tau>" "\<not> risky \<tau> \<or> hf_recovery (sv_record s)"
    "\<And>u. at_stage n \<tau> u \<Longrightarrow> sv_record u = sv_record s \<Longrightarrow> Q () u" "\<And>e u. somewhere n u \<Longrightarrow> X e u"
  shows "wp (save_handoff W) Q X s"
proof -
  let ?v = "s\<lparr>sv_log := sv_log s @ [Saved (sv_record s)]\<rparr>"
  have v: "at_stage n \<tau> ?v" using stage_log[OF assms(1-3)] by simp
  have q: "quietly s (s\<lparr>sv_time := m\<rparr>)" "quietly ?v (s\<lparr>sv_time := m, sv_saved := h, sv_log := sv_log s @ [Saved (sv_record s)]\<rparr>)" for m h
    by (simp_all add: quietly_def)
  have "somewhere n (s\<lparr>sv_time := m\<rparr>)" "somewhere n (s\<lparr>sv_time := m, sv_saved := h, sv_log := sv_log s @ [Saved (sv_record s)]\<rparr>)"
      "at_stage n \<tau> (s\<lparr>sv_time := m, sv_saved := h, sv_log := sv_log s @ [Saved (sv_record s)]\<rparr>)" for m h
    using somewhereI[OF assms(1)] somewhereI[OF v] v by (simp_all add: quietly_somewhere[OF q(1)] quietly_somewhere[OF q(2)] quietly_stage[OF q(2)])
  with assms(4,5) somewhereI[OF assms(1)] show ?thesis
    by (auto simp: wp_def save_handoff_def Let_def split: option.split wreply.split)
qed

lemma wp_unit_save:
  assumes "unit_at n k \<sigma> s" "work_step \<sigma> (Saved (sv_record s)) = Some \<tau>" "\<not> risky \<tau> \<or> hf_recovery (sv_record s)"
    "\<And>u. unit_at n k \<tau> u \<Longrightarrow> sv_record u = sv_record s \<Longrightarrow> Q () u" "\<And>e u. somewhere n u \<Longrightarrow> X e u"
  shows "wp (save_handoff W) Q X s"
  using assms by (intro wp_save[of n \<sigma> s \<tau>]) (auto simp: unit_at_def)

lemma wp_still_unit:
  assumes "still m" "unit_at n k \<sigma> s" "\<And>x u. unit_at n k \<sigma> u \<Longrightarrow> sv_record u = sv_record s \<Longrightarrow> Q x u" "\<And>e u. somewhere n u \<Longrightarrow> X e u"
  shows "wp m Q X s"
proof (rule still_wp[OF assms(1)])
  fix x u
  assume q: "quietly s u"
  then have "sv_record u = sv_record s" by (simp add: quietly_def)
  with assms(2,3) q show "Q x u" by (simp add: unit_quiet)
qed (use assms(2,4) in \<open>auto simp: quietly_somewhere unit_somewhere\<close>)

section \<open>The steps of a unit\<close>

lemma still_open [simp, intro]: "still (open_ticket W i as)"
  unfolding open_ticket_def by (auto intro!: still_bind still_then)

lemma intend_stage:
  assumes "at_stage n WsRest s"
  shows "wp (intend_ticket W prior i as) (\<lambda>r u. unit_at n (is_id i) (WsIntent (is_id i)) u \<and> ro_ready (route_issue i as)) (\<lambda>e. somewhere n) s"
proof -
  have save: "wp (save_handoff W) (\<lambda>x. unit_at n (is_id i) (WsIntent (is_id i))) (\<lambda>e. somewhere n) u"
    if "at_stage n WsRest u" "intent_for (is_id i) (sv_record u)" for u
    using that by (intro wp_save[OF that(1), where \<tau>="WsIntent (is_id i)"]) (auto simp: intent_for_def unit_at_def)
  have keep: "at_stage n WsRest (u\<lparr>sv_record := h\<rparr>)" "somewhere n u" if "at_stage n WsRest u" for u h
    using that by (auto intro: stage_record somewhereI)
  let ?s = "s\<lparr>sv_record := note_assignment (route_issue i as) (note_ticket i as (sv_record s))\<rparr>"
  have "wp (m_bind (ask W wm_tree) (\<lambda>t. m_then (m_unless (\<not> wt_matches prior t) (Halted ''handoff-worktree-mismatch''))
        (m_then (set_record (\<lambda>h. h\<lparr>hf_branch := wt_branch t, hf_worktree := wt_worktree t, hf_stop_reason := Some ''interrupted''\<rparr>)) (save_handoff W))))
      (\<lambda>r u. unit_at n (is_id i) (WsIntent (is_id i)) u \<and> ro_ready (route_issue i as)) (\<lambda>e. somewhere n) ?s" if r: "ro_ready (route_issue i as)"
    unfolding wp_bind
  proof (rule wp_ask)
    fix t u
    assume "quietly ?s u"
    then have u: "at_stage n WsRest u" "hf_active_ticket (sv_record u) = is_id i"
      using keep(1)[OF assms] by (simp_all add: quietly_stage) (simp add: quietly_def note_ticket_def note_assignment_def)
    then show "wp (m_then (m_unless (\<not> wt_matches prior t) (Halted ''handoff-worktree-mismatch''))
        (m_then (set_record (\<lambda>h. h\<lparr>hf_branch := wt_branch t, hf_worktree := wt_worktree t, hf_stop_reason := Some ''interrupted''\<rparr>)) (save_handoff W)))
      (\<lambda>r u. unit_at n (is_id i) (WsIntent (is_id i)) u \<and> ro_ready (route_issue i as)) (\<lambda>e. somewhere n) u"
      using keep r by (auto intro!: save simp: intent_for_def)
  next
    fix e u
    assume "quietly ?s u"
    then show "somewhere n u" using keep(2)[OF keep(1)[OF assms]] by (simp add: quietly_somewhere)
  qed
  with keep(2)[OF keep(1)[OF assms]] show ?thesis
    by (cases "ro_ready (route_issue i as)") (simp_all add: intend_ticket_def require_ready_def)
qed

lemma claim_stage:
  assumes "at_stage n WsRest s"
  shows "wp (claim_ticket W prior i as) (\<lambda>r. unit_at (Suc n) (is_id i) (WsStarted (is_id i))) (\<lambda>e. somewhere (Suc n)) s"
proof -
  have "wp (open_ticket W i as) (\<lambda>r. unit_at (Suc n) (is_id i) (WsStarted (is_id i))) (\<lambda>e. somewhere (Suc n))
      (u\<lparr>sv_log := sv_log u @ [Started (is_id i) (route_issue i as)]\<rparr>)"
    if "unit_at n (is_id i) (WsIntent (is_id i)) u" "ro_ready (route_issue i as)" for u
  proof (rule wp_still_unit[OF still_open])
    show "unit_at (Suc n) (is_id i) (WsStarted (is_id i)) (u\<lparr>sv_log := sv_log u @ [Started (is_id i) (route_issue i as)]\<rparr>)"
      using that stage_log[of n "WsIntent (is_id i)" u "Started (is_id i) (route_issue i as)" "WsStarted (is_id i)"]
      by (simp add: unit_at_def route_ticket)
  qed auto
  then show ?thesis unfolding claim_ticket_def
    by (auto intro!: wp_mono[OF intend_stage[OF assms]] intro: somewhere_weaken)
qed

lemma intent_note_stop [simp]: "intent_for k (note_stop v h) = intent_for k h"
  by (auto simp: note_stop_def intent_for_def split: pyv.split)

lemma worker_stage:
  assumes "unit_at n (is_id i) (WsStarted (is_id i)) s"
  shows "wp (run_worker W i as bodies) (\<lambda>r. unit_at n (is_id i) (WsWorked (is_id i))) (\<lambda>e. somewhere n) s"
proof -
  let ?k = "is_id i"
  have tail: "wp (m_then (m_bind (ask W wm_tree) (\<lambda>t. m_ret ())) (m_then (revalidate W i as (route_issue i as)) (m_ret r)))
      (\<lambda>r. unit_at n ?k (WsWorked ?k)) (\<lambda>e. somewhere n) u" if "unit_at n ?k (WsWorked ?k) u" for u r
    by (rule wp_still_unit[OF _ that]) (auto intro!: still_bind still_then)
  have rest: "wp (m_bind (ask W wm_receipt) (\<lambda>v. m_then (set_record (note_stop v)) (m_bind (m_result (receipt_files v)) (\<lambda>r.
       m_then (set_record (\<lambda>h. h\<lparr>hf_recovery := False, hf_risks := hf_risks h @ rc_risks r\<rparr>))
       (m_then (m_bind (ask W wm_tree) (\<lambda>t. m_ret ())) (m_then (revalidate W i as (route_issue i as)) (m_ret r)))))))
      (\<lambda>r. unit_at n ?k (WsWorked ?k)) (\<lambda>e. somewhere n) u" if u: "unit_at n ?k (WsWorked ?k) u" for u
    unfolding wp_bind wp_then wp_set_record wp_result
  proof (rule wp_still_unit[OF still_ask u], goal_cases)
    case (1 v w)
    then have "unit_at n ?k (WsWorked ?k) (w\<lparr>sv_record := note_stop v (sv_record w)\<rparr>)"
      by (intro unit_record) (auto simp: unit_at_def)
    note w = this
    show ?case
    proof (cases "receipt_files v")
      case (Inl e)
      with w show ?thesis by (simp add: unit_somewhere)
    next
      case (Inr r)
      let ?h = "note_stop v (sv_record w)"
      have "intent_for ?k (?h\<lparr>hf_recovery := False, hf_risks := hf_risks ?h @ rc_risks r\<rparr>)"
        using w by (simp add: unit_at_def intent_for_def)
      from unit_record[OF w _ this] Inr tail show ?thesis by simp
    qed
  qed
  let ?b = "bounded_context W (work_context (sv_record s) (snd bodies) (fst bodies))"
  show ?thesis
  proof (cases ?b)
    case (Some c)
    have "unit_at n ?k (WsStarted ?k) (s\<lparr>sv_record := sv_record s\<lparr>hf_recovery := True\<rparr>\<rparr>)"
      using assms by (intro unit_record) (auto simp: unit_at_def intent_for_def)
    from unit_log[OF this, of "Worked ?k (VDict c)" "WsWorked ?k"] rest Some show ?thesis by (simp add: run_worker_def)
  qed (use assms in \<open>simp add: run_worker_def unit_somewhere\<close>)
qed

lemma verify_stage:
  assumes "unit_at n k \<sigma> s" "\<And>b. work_step \<sigma> (Verified k b) = Some (f b)" "\<And>b. \<not> risky (f b)"
  shows "wp (verify_once W k) (\<lambda>b. unit_at n k (f b)) (\<lambda>e. somewhere n) s"
  unfolding verify_once_def wp_bind
proof (rule wp_still_unit[OF still_ask assms(1)], goal_cases)
  case (1 r u)
  have "\<not> risky \<sigma>" using assms(2)[of True] by (cases \<sigma>) auto
  then have "unit_at n k \<sigma> (u\<lparr>sv_record := sv_record u\<lparr>hf_verification := hf_verification (sv_record u) @ [k @ '': '' @ snd r]\<rparr>\<rparr>)"
    using 1 by (intro unit_record) (auto simp: unit_at_def intent_for_def)
  from unit_log[OF this assms(2)[of "fst r"]] assms(3) show ?case by simp
qed

lemma verify_twice_stage:
  assumes "unit_at n k (WsWorked k) s"
  shows "wp (verify_twice W k) (\<lambda>x. unit_at n k (WsPassed k)) (\<lambda>e. somewhere n) s"
proof -
  have second: "wp (m_bind (verify_once W k) (\<lambda>ok. m_unless (\<not> ok) (Halted ''verification-failed-twice'')))
      (\<lambda>x. unit_at n k (WsPassed k)) (\<lambda>e. somewhere n) u" if "unit_at n k (WsFailed k) u" for u
    unfolding wp_bind
    by (rule wp_mono[OF verify_stage[OF that, where f="\<lambda>b. if b then WsPassed k else WsDead"]]) (auto intro: unit_somewhere split: if_splits)
  show ?thesis
    unfolding verify_twice_def wp_bind
    by (rule wp_mono[OF verify_stage[OF assms, where f="\<lambda>b. if b then WsPassed k else WsFailed k"]])
      (auto simp del: wp_bind intro: second split: if_splits)
qed

lemma commit_stage:
  assumes "unit_at n (is_id i) (WsPassed (is_id i)) s"
  shows "wp (commit_unit W i as r) (\<lambda>x. at_stage n WsFinished) (\<lambda>e. somewhere n) s"
proof -
  let ?k = "is_id i" and ?Q = "\<lambda>x. at_stage n WsFinished" and ?X = "\<lambda>e. somewhere n"
  have finish: "wp (m_then (ask W wm_done) (m_then (set_record (\<lambda>h. h\<lparr>hf_stop_reason := None, hf_next_ticket := None, hf_recovery := False\<rparr>))
      (m_then (save_handoff W) (ask W wm_done)))) ?Q ?X u" if "unit_at n ?k (WsClosed ?k) u" for u
    unfolding wp_then wp_set_record
  proof (rule wp_still_unit[OF still_ask that], goal_cases)
    case (1 x u)
    have "at_stage n (WsClosed ?k) (u\<lparr>sv_record := h\<rparr>)" for h using 1 by (auto simp: unit_at_def intro: stage_record)
    then show ?case
      by (rule wp_save[where \<tau>=WsFinished]) (auto intro!: wp_ask simp: quietly_stage quietly_somewhere intro: somewhereI)
  qed
  have close: "wp (m_then (recheck W i as) (m_then (log_work (Closed ?k)) (m_then (ask W wm_done)
      (m_then (set_record (\<lambda>h. h\<lparr>hf_stop_reason := None, hf_next_ticket := None, hf_recovery := False\<rparr>))
      (m_then (save_handoff W) (ask W wm_done)))))) ?Q ?X u" if "unit_at n ?k (WsRecorded ?k) u" for u
    unfolding wp_then[of "recheck W i as"] wp_then[of "log_work (Closed ?k)"] wp_log_work
    by (rule wp_still_unit[OF still_recheck that]) (auto simp del: wp_then intro!: finish unit_log)
  have book: "wp (m_then (set_record (\<lambda>h. h\<lparr>hf_completed := hf_completed h @ [x]\<rparr>)) (m_then (save_handoff W)
      (m_then (recheck W i as) (m_then (log_work (Closed ?k)) (m_then (ask W wm_done)
      (m_then (set_record (\<lambda>h. h\<lparr>hf_stop_reason := None, hf_next_ticket := None, hf_recovery := False\<rparr>))
      (m_then (save_handoff W) (ask W wm_done)))))))) ?Q ?X u" if u: "unit_at n ?k (WsCommitted ?k) u" for u x
  proof -
    have h: "hf_recovery (sv_record u)" "intent_for ?k (sv_record u)" using u by (simp_all add: unit_at_def at_stage_def)
    then have "unit_at n ?k (WsCommitted ?k) (u\<lparr>sv_record := sv_record u\<lparr>hf_completed := hf_completed (sv_record u) @ [x]\<rparr>\<rparr>)"
      by (intro unit_record[OF u]) (simp_all add: intent_for_def)
    then show ?thesis
      unfolding wp_then[of "set_record f" for f] wp_set_record wp_then[of "save_handoff W" "m_then (recheck W i as) b" for b]
      by (rule wp_unit_save[where \<tau>="WsRecorded ?k"]) (use h in \<open>auto simp del: wp_then simp: intent_for_def intro!: close\<close>)
  qed
  have recovery: "hf_recovery (sv_record u)" if "unit_at n ?k \<sigma> u" "risky \<sigma>" for u \<sigma> using that by (simp add: unit_at_def at_stage_def)
  have commit: "wp (m_bind (ask W wm_commit) (\<lambda>c. m_then (log_work (Committed ?k c))
      (m_then (set_record (\<lambda>h. h\<lparr>hf_completed := hf_completed h @ [f c]\<rparr>)) (m_then (save_handoff W)
      (m_then (recheck W i as) (m_then (log_work (Closed ?k)) (m_then (ask W wm_done)
      (m_then (set_record (\<lambda>h. h\<lparr>hf_stop_reason := None, hf_next_ticket := None, hf_recovery := False\<rparr>))
      (m_then (save_handoff W) (ask W wm_done)))))))))) ?Q ?X u" if "unit_at n ?k (WsCommitting ?k) u" for u f
    unfolding wp_bind wp_then[of "log_work e" for e] wp_log_work
    by (rule wp_still_unit[OF still_ask that]) (auto simp del: wp_then intro!: book unit_log recovery)
  show ?thesis
    unfolding commit_unit_def wp_then[of "recheck W i as" "m_then (ask W wm_done) b" for b] wp_then[of "ask W wm_done" "m_then (set_record f) b" for f b]
      wp_then[of "set_record (\<lambda>h. h\<lparr>hf_recovery := True\<rparr>)"] wp_set_record
  proof (rule wp_still_unit[OF still_recheck assms], goal_cases)
    case (1 x u)
    show ?case
    proof (rule wp_still_unit[OF still_ask 1(1)], goal_cases)
      case (1 x u)
      have "unit_at n ?k (WsPassed ?k) (u\<lparr>sv_record := sv_record u\<lparr>hf_recovery := True\<rparr>\<rparr>)"
        using 1(1) by (intro unit_record) (auto simp: unit_at_def intent_for_def)
      then show ?case
        unfolding wp_then[of "save_handoff W" "m_then (log_work e) b" for e b] wp_then[of "log_work e" for e] wp_log_work
        by (rule wp_unit_save[where \<tau>="WsReady ?k"])
          (use 1(1) in \<open>simp add: unit_at_def intent_for_def\<close>, auto simp del: wp_then wp_bind simp: unit_at_def[of n ?k "WsPassed ?k"] intro!: commit unit_log)
    qed
  qed
qed

lemma queue_stage:
  assumes "at_stage n WsFinished s"
  shows "wp (queue_next W) (\<lambda>x. at_stage n WsRest) (\<lambda>e. somewhere n) s"
proof -
  have save: "wp (m_then (save_handoff W) (m_ret p)) (\<lambda>x. at_stage n WsRest) (\<lambda>e. somewhere n) (u\<lparr>sv_record := h\<rparr>)"
    if "at_stage n WsFinished u" for u h p
    unfolding wp_then using stage_record[OF that] by (intro wp_save[of n WsFinished _ WsRest]) auto
  show ?thesis
    unfolding queue_next_def wp_bind wp_result
  proof (rule wp_ask, goal_cases)
    case (1 p u)
    show ?case
    proof (rule wp_ask, goal_cases)
      case (1 data v)
      with \<open>quietly s u\<close> assms have "at_stage n WsFinished v" by (simp add: quietly_stage)
      then show ?case using save by (auto simp del: wp_then simp: wp_then[of "set_record f" for f] intro: somewhereI split: sum.split)
    qed (use 1 assms in \<open>simp add: quietly_somewhere somewhereI\<close>)
  qed (use assms in \<open>simp add: quietly_somewhere somewhereI\<close>)
qed

lemma unit_stage:
  assumes "at_stage n WsRest s"
  shows "wp (work_unit W prior pending) (\<lambda>x. at_stage (Suc n) WsRest) (\<lambda>e. somewhere (Suc n)) s"
  unfolding work_unit_def wp_bind
proof (rule still_wp[OF still_take], goal_cases)
  case (1 r u)
  obtain i as where r: "r = (i, as)" by fastforce
  have "at_stage n WsRest u" using 1 assms by (simp add: quietly_stage)
  note claim = claim_stage[OF this, of W prior i as]
  show ?case
    unfolding r prod.case wp_bind wp_then
    by (rule wp_mono[OF claim], rule wp_mono[OF worker_stage], assumption, rule wp_mono[OF verify_twice_stage], assumption,
        rule wp_mono[OF commit_stage], assumption, rule queue_stage, assumption)
next
  case (2 e u)
  with assms show ?case by (auto simp: quietly_somewhere intro: somewhere_weaken somewhereI)
qed

lemma units_stage: "at_stage n WsRest s \<Longrightarrow> wp (work_units m W prior pending) (\<lambda>x u. False) (\<lambda>e. somewhere (n + m)) s"
proof (induction m arbitrary: n s pending)
  case (Suc m)
  show ?case
    unfolding work_units.simps wp_bind
    by (rule wp_mono[OF unit_stage[OF Suc.prems]]) (use Suc.IH[of "Suc n"] in \<open>auto intro: somewhere_weaken\<close>)
qed (simp add: somewhereI)

lemma body_stage:
  assumes "sv_log s = []"
  shows "wp (work_body W m prior) (\<lambda>x u. False) (\<lambda>e. somewhere m) s"
proof -
  have s: "at_stage 0 WsRest (s\<lparr>sv_record := h\<rparr>)" "at_stage 0 WsRest s" for h using assms by (simp_all add: at_stage_def starts_def)
  have "wp (m_bind (ask W wm_next) (work_units m W prior)) (\<lambda>x u. False) (\<lambda>e. somewhere m) s"
    unfolding wp_bind
    by (rule wp_ask) (use s(2) units_stage[of 0 _ m W prior] in \<open>auto simp: quietly_stage quietly_somewhere intro: somewhere_weaken somewhereI\<close>)
  moreover have "somewhere m (s\<lparr>sv_record := h\<rparr>)" for h using somewhereI[OF s(1)] by (rule somewhere_weaken) simp
  ultimately show ?thesis unfolding work_body_def by (auto split: option.split)
qed

section \<open>What the log says\<close>

definition opened :: "string \<Rightarrow> work_effect list \<Rightarrow> bool" where
  "opened k es \<longleftrightarrow> (\<exists>gs h a c. es = gs @ [Saved h, Started k a, Worked k c] \<and> intent_for k h \<and> ro_ready a \<and> ro_ticket a = k)"

definition checked :: "string \<Rightarrow> work_effect list \<Rightarrow> bool" where
  "checked k es \<longleftrightarrow> (\<exists>ds vs. es = ds @ vs \<and> opened k ds \<and> vs \<in> {[Verified k True], [Verified k False, Verified k True]})"

definition intended :: "string \<Rightarrow> work_effect list \<Rightarrow> bool" where
  "intended k es \<longleftrightarrow> (\<exists>ds h. es = ds @ [Saved h] \<and> checked k ds \<and> intent_for k h \<and> hf_recovery h)"

definition recorded :: "string \<Rightarrow> work_effect list \<Rightarrow> bool" where
  "recorded k es \<longleftrightarrow> (\<exists>ds fs c h. es = ds @ [Committing k fs, Committed k c, Saved h] \<and> intended k ds \<and> intent_for k h \<and> hf_recovery h)"

lemma opened_last: "opened k ds \<Longrightarrow> ds \<noteq> []"
  by (auto simp: opened_def)

lemma work_stage_last:
  "work_steps WsRest es = Some \<sigma> \<Longrightarrow> (case \<sigma> of
     WsIntent k \<Rightarrow> (\<exists>gs h. es = gs @ [Saved h] \<and> intent_for k h)
   | WsStarted k \<Rightarrow> (\<exists>gs h a. es = gs @ [Saved h, Started k a] \<and> intent_for k h \<and> ro_ready a \<and> ro_ticket a = k)
   | WsWorked k \<Rightarrow> opened k es
   | WsFailed k \<Rightarrow> (\<exists>ds. es = ds @ [Verified k False] \<and> opened k ds)
   | WsPassed k \<Rightarrow> checked k es
   | WsReady k \<Rightarrow> intended k es
   | WsCommitting k \<Rightarrow> (\<exists>ds fs. es = ds @ [Committing k fs] \<and> intended k ds)
   | WsCommitted k \<Rightarrow> (\<exists>ds fs c. es = ds @ [Committing k fs, Committed k c] \<and> intended k ds)
   | WsRecorded k \<Rightarrow> recorded k es
   | WsClosed k \<Rightarrow> (\<exists>ds. es = ds @ [Closed k] \<and> recorded k ds)
   | _ \<Rightarrow> True)"
proof (induction es arbitrary: \<sigma> rule: rev_induct)
  case (snoc e es)
  then obtain \<tau> where t: "work_steps WsRest es = Some \<tau>" "work_step \<tau> e = Some \<sigma>"
    by (auto simp: work_steps_append split: Option.bind_splits)
  note ih = snoc.IH[OF t(1)]
  have first: "checked k (ds @ [Verified k True])" if "opened k ds" for k ds using that by (auto simp: checked_def)
  have second: "checked k ((ds @ [Verified k False]) @ [Verified k True])" if "opened k ds" for k ds
    unfolding checked_def using that by (intro exI[of _ ds] exI[of _ "[Verified k False, Verified k True]"]) simp
  from t(2) ih show ?case
  proof (cases \<tau>)
    case (WsStarted k)
    with t(2) ih show ?thesis by (cases e) (auto simp: opened_def split: if_splits)
  next
    case (WsWorked k)
    with t(2) ih first show ?thesis by (cases e) (auto split: if_splits)
  next
    case (WsFailed k)
    with t(2) ih second show ?thesis by (cases e) (auto split: if_splits)
  next
    case (WsPassed k)
    with t(2) ih show ?thesis by (cases e) (auto simp: intended_def split: if_splits)
  next
    case (WsCommitted k)
    with t(2) ih show ?thesis by (cases e) (auto simp: recorded_def split: if_splits)
  qed (cases e; auto simp: intent_for_def split: if_splits)+
qed simp

lemma work_steps_at:
  assumes "work_steps WsRest (pre @ e # post) \<noteq> None"
  obtains \<sigma> where "work_steps WsRest pre = Some \<sigma>" "work_step \<sigma> e \<noteq> None"
  using assms that by (auto simp: work_steps_append split: Option.bind_splits)

lemma stage_effects:
  assumes "work_steps WsRest (pre @ e # post) \<noteq> None"
  shows "(\<forall>k a. e = Started k a \<longrightarrow> ro_ready a \<and> ro_ticket a = k \<and> (\<exists>gs h. pre = gs @ [Saved h] \<and> intent_for k h))
    \<and> (\<forall>k fs. e = Committing k fs \<longrightarrow> intended k pre) \<and> (\<forall>k. e = Closed k \<longrightarrow> recorded k pre)"
proof -
  from work_steps_at[OF assms] obtain \<sigma> where s: "work_steps WsRest pre = Some \<sigma>" "work_step \<sigma> e \<noteq> None" by blast
  with work_stage_last[OF s(1)] show ?thesis by (cases \<sigma>; cases e) (auto split: if_splits)
qed

lemma risky_stays: "work_steps \<sigma> es = Some \<tau> \<Longrightarrow> risky \<sigma> \<Longrightarrow> \<forall>k. Closed k \<notin> set es \<Longrightarrow> risky \<tau>"
proof (induction es arbitrary: \<sigma>)
  case (Cons e es)
  then obtain \<rho> where r: "work_step \<sigma> e = Some \<rho>" "work_steps \<rho> es = Some \<tau>" by (auto split: Option.bind_splits)
  have "risky \<rho>" using r(1) Cons.prems(2,3) by (cases \<sigma>; cases e) (auto split: if_splits)
  with Cons r(2) show ?case by auto
qed simp

section \<open>The whole run\<close>

lemma continued:
  assumes "continue_work W goal cwd limit prior time = (r, Some s)"
  shows "\<exists>x. somewhere (nat limit) x \<and> hf_stop_reason (sv_record x) \<noteq> None \<and> (case r of
      Inr h \<Rightarrow> h = sv_record x \<and> sv_saved s = Some h \<and> sv_log s = sv_log x @ [Saved h]
    | Inl e \<Rightarrow> sv_log s \<in> {sv_log x, sv_log x @ [Saved (sv_record x)]})"
proof -
  let ?s = "\<lparr>sv_record = (case prior of None \<Rightarrow> fresh_handoff goal cwd | Some p \<Rightarrow> resumed goal p), sv_saved = prior,
     sv_time = time, sv_log = []\<rparr>"
  obtain q t where b: "work_body W (nat limit) prior ?s = (q, t)" by fastforce
  from body_stage[of ?s W "nat limit" prior] b obtain e where e: "q = Inl e" "somewhere (nat limit) t"
    by (auto simp: wp_def split: sum.splits)
  let ?x = "t\<lparr>sv_record := note_halt e (sv_record t)\<rparr>"
  have "somewhere (nat limit) ?x" using e(2) by (auto simp: somewhere_def at_stage_def note_halt_def split: halt.split)
  moreover have "hf_stop_reason (sv_record ?x) \<noteq> None" by (simp add: note_halt_def split: halt.split)
  moreover have "case r of Inr h \<Rightarrow> h = sv_record ?x \<and> sv_saved s = Some h \<and> sv_log s = sv_log ?x @ [Saved h]
      | Inl e \<Rightarrow> sv_log s \<in> {sv_log ?x, sv_log ?x @ [Saved (sv_record ?x)]}"
    using assms b e(1)
    by (auto simp: continue_work_def save_handoff_def Let_def split: if_splits option.splits wreply.splits)
  ultimately show ?thesis by blast
qed


text \<open>C33: Every run ends after at most the given number of tickets, and the record it returns is the one on disk and says why it
  route_stop. When a commit was begun and its ticket not closed, the record asks for recovery.\<close>

theorem supervised_ends:
  assumes "continue_work W goal cwd limit prior time = (Inr h, Some s)"
  shows "sv_saved s = Some h \<and> hf_stop_reason h \<noteq> None \<and> int (starts (sv_log s)) \<le> limit
    \<and> (sv_log s = pre @ Committing k fs # post \<and> (\<forall>j. Closed j \<notin> set post) \<longrightarrow> hf_recovery h)"
proof -
  from continued[OF assms] obtain x where x: "somewhere (nat limit) x" "hf_stop_reason (sv_record x) \<noteq> None"
      "h = sv_record x" "sv_saved s = Some h" "sv_log s = sv_log x @ [Saved h]" by auto
  then obtain \<sigma> where g: "work_steps WsRest (sv_log x) = Some \<sigma>" "starts (sv_log x) \<le> nat limit" "risky \<sigma> \<longrightarrow> hf_recovery h"
    by (auto simp: somewhere_def at_stage_def)
  have "1 \<le> limit" using assms by (auto simp: continue_work_def split: if_splits)
  moreover have "starts (sv_log s) = starts (sv_log x)" by (simp add: x(5) starts_def)
  moreover have "hf_recovery h" if c: "sv_log s = pre @ Committing k fs # post" "\<forall>j. Closed j \<notin> set post"
  proof -
    from c(1) x(5) obtain zs where z: "sv_log x = pre @ Committing k fs # zs" "post = zs @ [Saved h]"
      by (cases post rule: rev_cases) auto
    with g(1) obtain \<rho> \<tau> where t: "work_steps WsRest pre = Some \<rho>" "work_step \<rho> (Committing k fs) = Some \<tau>" "work_steps \<tau> zs = Some \<sigma>"
      by (auto simp: work_steps_append split: Option.bind_splits)
    from t(2) have "risky \<tau>" by (cases \<rho>) (auto split: if_splits)
    from risky_stays[OF t(3) this] c(2) z(2) g(3) show ?thesis by auto
  qed
  ultimately show ?thesis using x g(2) by auto
qed

section \<open>Witnesses\<close>

definition tiny_backlog :: "string \<Rightarrow> backlog" where
  "tiny_backlog status = \<lparr>bk_version = Some (VInt 2), bk_issues = [\<lparr>is_id = ''a'', is_title = None, is_description = None,
     is_labels = [''autonomous-safe'', ''capability:tests''], is_status = Some status, is_kind = None, is_rank = [], is_archived = False,
     is_deleted = False\<rparr>], bk_relations = []\<rparr>"

definition sample_receipt :: pyv where
  "sample_receipt = VDict [(''files'', VList [VStr ''ops/x.py'']), (''summary'', VStr ''ok''), (''risks'', VList [])]"

definition work_moment :: "backlog \<Rightarrow> string \<Rightarrow> wmoment" where
  "work_moment data queue = \<lparr>wm_clock = 0, wm_next = WGives queue, wm_export = WGives data,
     wm_tree = WGives \<lparr>wt_branch = ''main'', wt_worktree = ''/w'', wt_head = ''h''\<rparr>, wm_done = WGives (), wm_shown = WGives ''body'',
     wm_receipt = WGives sample_receipt, wm_verified = WGives (True, ''tests''), wm_commit = WGives ''c'', wm_replaced = False\<rparr>"

definition sample_work :: work_world where
  "sample_work = \<lparr>ww_moment = (\<lambda>n. work_moment (tiny_backlog (if n \<le> 2 then ''open'' else ''in_progress'')) (if n = 0 then ''a'' else [])),
     ww_size = (\<lambda>v. 0), ww_path = ''/h'', ww_began = 0, ww_seconds = 10, ww_ceiling = 1024\<rparr>"

definition sample_continued :: "(string + handoff) \<times> supervision option" where
  "sample_continued = continue_work sample_work ''goal'' ''/w'' 1 None 0"

lemma sample_returned: "\<exists>h s. sample_continued = (Inr h, Some s) \<and> sv_log s ! 8 = Closed ''a'' \<and> 8 < length (sv_log s)"
proof -
  have "(case sample_continued of (Inr h, Some s) \<Rightarrow> (case drop 8 (sv_log s) of Closed k # es \<Rightarrow> k = ''a'' | _ \<Rightarrow> False) | _ \<Rightarrow> False)" by code_simp
  then obtain h s es where "sample_continued = (Inr h, Some s)" "drop 8 (sv_log s) = Closed ''a'' # es"
    by (auto split: prod.splits sum.splits option.splits list.splits work_effect.splits)
  then show ?thesis by (metis drop_all leI list.discI nth_via_drop)
qed


theorem supervised_ends_witness:
  "\<exists>h s. sample_continued = (Inr h, Some s) \<and> sv_saved s = Some h \<and> hf_stop_reason h \<noteq> None \<and> int (starts (sv_log s)) \<le> 1"
proof -
  obtain h s where s: "sample_continued = (Inr h, Some s)" using sample_returned by blast
  from supervised_ends[OF s[unfolded sample_continued_def]] s show ?thesis by blast
qed


end
