(* ===== verification/Work_Records.thy ===== *)
theory Work_Records
  imports Py_Prelude Stop_Monad
begin

text \<open>
  Durable JSON records, \<open>src/ops/orchestration/records.py\<close> and \<open>write_handoff\<close> of \<open>handoff.py\<close>, over a model of what
  one path can hold: the record, the residue \<open>.publication-uncertain\<close> beside it, and a temporary file. Every call of the
  operating system is one step that is done, fails with \<open>OSError\<close>, or never returns because the process or the machine
  died there; nothing of the code runs after that. A record is the text that was written; \<open>None\<close> for a value that
  \<open>json.dump\<close> refuses. No code reads \<open>dk_synced\<close>: whether the last rename has reached the disk. Shown: whatever fails,
  a reader sees the last acknowledged record or one whose publication was tried since, or is refused.
\<close>

section \<open>The disk\<close>

record disk =
  dk_record :: "string option"
  dk_residue :: "string option"
  dk_temporary :: bool
  dk_synced :: bool
  dk_time :: nat

datatype os_answer = OsDone | OsFails | OsDies

datatype os_stop = Raised string | Died

type_synonym 'a os_act = "(disk, os_stop, 'a) act"

type_synonym os_world = "nat \<Rightarrow> os_answer"

definition os_call :: "os_world \<Rightarrow> string \<Rightarrow> (disk \<Rightarrow> disk) \<Rightarrow> unit os_act" where
  "os_call E name f d =
    (let u = d\<lparr>dk_time := Suc (dk_time d)\<rparr>
     in case E (dk_time d) of
          OsDone \<Rightarrow> (Inr (), f u)
        | OsFails \<Rightarrow> (Inl (Raised name), u)
        | OsDies \<Rightarrow> (Inl Died, u))"

text \<open>\<open>except\<close> and \<open>finally\<close>.\<close>

definition m_except :: "'a os_act \<Rightarrow> (string \<Rightarrow> 'a os_act) \<Rightarrow> 'a os_act" where
  "m_except m h d = (case m d of (Inl (Raised e), u) \<Rightarrow> h e u | r \<Rightarrow> r)"

definition m_finally :: "'a os_act \<Rightarrow> unit os_act \<Rightarrow> 'a os_act" where
  "m_finally m f d =
    (case m d of
       (Inl Died, u) \<Rightarrow> (Inl Died, u)
     | (r, u) \<Rightarrow> (case f u of (Inl s, v) \<Rightarrow> (Inl s, v) | (Inr x, v) \<Rightarrow> (r, v)))"

lemma wp_except [simp]: "wp (m_except m h) Q X = wp m Q (\<lambda>s d. case s of Raised e \<Rightarrow> wp (h e) Q X d | Died \<Rightarrow> X Died d)"
  by (auto simp: fun_eq_iff wp_def m_except_def split: prod.splits sum.splits os_stop.splits)

lemma wp_finally [simp]: "wp (m_finally m f) Q X =
    wp m (\<lambda>r. wp f (\<lambda>u. Q r) X) (\<lambda>s d. case s of Raised e \<Rightarrow> wp f (\<lambda>u. X s) X d | Died \<Rightarrow> X Died d)"
  by (auto simp: fun_eq_iff wp_def m_finally_def split: prod.splits sum.splits os_stop.splits)

section \<open>Records\<close>

definition refuse_uncertain :: "unit os_act" where
  "refuse_uncertain = m_read (\<lambda>d. m_unless (dk_residue d \<noteq> None) (Raised ''uncertain publication''))"

definition read_json :: "os_world \<Rightarrow> string os_act" where
  "read_json E = m_then (os_call E ''record path'' id) (m_then refuse_uncertain
     (m_then (os_call E ''read'' id) (m_read (\<lambda>d. m_demand (Raised ''FileNotFoundError'') (dk_record d)))))"

definition sync_directory :: "os_world \<Rightarrow> unit os_act" where
  "sync_directory E = os_call E ''fsync'' (\<lambda>d. d\<lparr>dk_synced := True\<rparr>)"

text \<open>Dumping, flushing and syncing the temporary file.\<close>

definition write_temporary :: "os_world \<Rightarrow> string option \<Rightarrow> string os_act" where
  "write_temporary E content = m_then (os_call E ''write'' id) (m_demand (Raised ''TypeError'') content)"

definition move_into_place :: "os_world \<Rightarrow> string \<Rightarrow> unit os_act" where
  "move_into_place E t = os_call E ''replace'' (\<lambda>d. d\<lparr>dk_record := Some t, dk_temporary := False, dk_synced := False\<rparr>)"

definition quarantine_record :: "os_world \<Rightarrow> unit os_act" where
  "quarantine_record E = m_then (os_call E ''replace'' (\<lambda>d. d\<lparr>dk_residue := dk_record d, dk_record := None, dk_synced := False\<rparr>))
     (sync_directory E)"

definition after_replacement :: "os_world \<Rightarrow> unit os_act" where
  "after_replacement E = m_except (sync_directory E) (\<lambda>e.
     m_then (m_except (quarantine_record E) (\<lambda>f. m_raise (Raised ''publication and quarantine failed''))) (m_raise (Raised e)))"

definition drop_temporary :: "os_world \<Rightarrow> unit os_act" where
  "drop_temporary E = m_read (\<lambda>d. if dk_temporary d then os_call E ''unlink'' (\<lambda>d. d\<lparr>dk_temporary := False\<rparr>) else m_ret ())"

definition make_temporary :: "os_world \<Rightarrow> unit os_act" where
  "make_temporary E = os_call E ''mkstemp'' (\<lambda>d. d\<lparr>dk_temporary := True\<rparr>)"

definition atomic_json :: "os_world \<Rightarrow> string option \<Rightarrow> unit os_act" where
  "atomic_json E content = m_then (os_call E ''record path'' id) (m_then refuse_uncertain (m_then (make_temporary E)
     (m_finally (m_bind (write_temporary E content) (\<lambda>t. m_then (move_into_place E t) (after_replacement E))) (drop_temporary E))))"

text \<open>\<open>write_handoff\<close> after its validation, which comes before any change.\<close>

definition write_handoff :: "os_world \<Rightarrow> string option \<Rightarrow> unit os_act" where
  "write_handoff E content = m_then (os_call E ''handoff path'' id)
     (m_bind (m_demand (Raised ''TypeError'') content) (\<lambda>t. m_then (make_temporary E)
       (m_finally (m_then (os_call E ''write'' id) (m_then (move_into_place E t) (sync_directory E))) (drop_temporary E))))"

section \<open>What can be on the disk\<close>

lemma wp_os_call: "wp (os_call E name f) Q X d \<longleftrightarrow>
    (let u = d\<lparr>dk_time := Suc (dk_time d)\<rparr> in case E (dk_time d) of OsDone \<Rightarrow> Q () (f u) | OsFails \<Rightarrow> X (Raised name) u | OsDies \<Rightarrow> X Died u)"
  by (auto simp: wp_def os_call_def Let_def split: os_answer.split)

text \<open>A step that leaves the record and the residue where they are.\<close>

definition unmoved :: "disk \<Rightarrow> disk \<Rightarrow> bool" where
  "unmoved d u \<longleftrightarrow> dk_record u = dk_record d \<and> dk_residue u = dk_residue d"

lemma unmoved_refl [simp]: "unmoved d d"
  by (simp add: unmoved_def)

lemma wp_os_id:
  assumes "\<And>u. unmoved d u \<Longrightarrow> dk_temporary u = dk_temporary d \<Longrightarrow> Q () u" "\<And>s u. unmoved d u \<Longrightarrow> X s u"
  shows "wp (os_call E name id) Q X d"
  using assms by (simp add: wp_os_call Let_def unmoved_def split: os_answer.split)

lemma wp_make_temporary:
  assumes "\<And>u. unmoved d u \<Longrightarrow> Q () u" "\<And>s u. unmoved d u \<Longrightarrow> X s u"
  shows "wp (make_temporary E) Q X d"
  using assms by (simp add: make_temporary_def wp_os_call Let_def unmoved_def split: os_answer.split)

lemma wp_write_temporary:
  assumes "\<And>u t. unmoved d u \<Longrightarrow> content = Some t \<Longrightarrow> Q t u" "\<And>s u. unmoved d u \<Longrightarrow> X s u"
  shows "wp (write_temporary E content) Q X d"
  using assms by (auto simp: write_temporary_def split: option.split intro!: wp_os_id)

lemma wp_move_into_place:
  assumes "\<And>u. dk_record u = Some t \<Longrightarrow> dk_residue u = dk_residue d \<Longrightarrow> \<not> dk_temporary u \<Longrightarrow> Q () u" "\<And>s u. unmoved d u \<Longrightarrow> X s u"
  shows "wp (move_into_place E t) Q X d"
  using assms by (simp add: move_into_place_def wp_os_call Let_def unmoved_def split: os_answer.split)

lemma wp_sync_directory:
  assumes "\<And>u. unmoved d u \<Longrightarrow> dk_synced u \<Longrightarrow> dk_temporary u = dk_temporary d \<Longrightarrow> Q () u"
    "\<And>s u. unmoved d u \<Longrightarrow> dk_temporary u = dk_temporary d \<Longrightarrow> X s u"
  shows "wp (sync_directory E) Q X d"
  using assms by (simp add: sync_directory_def wp_os_call Let_def unmoved_def split: os_answer.split)

lemma wp_drop_temporary:
  assumes "\<And>u. unmoved d u \<Longrightarrow> dk_synced u = dk_synced d \<Longrightarrow> Q () u" "\<And>s u. unmoved d u \<Longrightarrow> dk_temporary d \<Longrightarrow> X s u"
  shows "wp (drop_temporary E) Q X d"
  using assms by (simp add: drop_temporary_def wp_os_call Let_def unmoved_def split: os_answer.split)

text \<open>How a publication can leave the disk: a call that returned leaves the record, synced and alone; a call that raised
  leaves what was there, or a residue that keeps readers and writers away; only a process that died or an error that
  says so may leave a new record nobody acknowledged.\<close>

definition unsure :: "os_stop \<Rightarrow> bool" where
  "unsure s \<longleftrightarrow> s = Died \<or> s = Raised ''publication and quarantine failed''"

definition left_by :: "string option \<Rightarrow> disk \<Rightarrow> os_stop \<Rightarrow> disk \<Rightarrow> bool" where
  "left_by content d s u \<longleftrightarrow> unmoved d u \<or> dk_residue d = None \<and> content \<noteq> None
     \<and> (dk_record u = None \<and> dk_residue u = content \<or> unsure s \<and> dk_record u = content \<and> dk_residue u = None)"

definition acknowledged :: "string option \<Rightarrow> disk \<Rightarrow> bool" where
  "acknowledged content u \<longleftrightarrow> content \<noteq> None \<and> dk_record u = content \<and> dk_residue u = None \<and> dk_synced u"

lemma wp_quarantine:
  assumes "\<And>u. dk_record u = None \<Longrightarrow> dk_residue u = dk_record d \<Longrightarrow> dk_temporary u = dk_temporary d \<Longrightarrow> Q () u"
    "\<And>s u. dk_record u = None \<Longrightarrow> dk_residue u = dk_record d \<Longrightarrow> dk_temporary u = dk_temporary d \<Longrightarrow> X s u"
    "\<And>s u. unmoved d u \<Longrightarrow> dk_temporary u = dk_temporary d \<Longrightarrow> X s u"
  shows "wp (quarantine_record E) Q X d"
  using assms by (simp add: quarantine_record_def sync_directory_def wp_os_call Let_def unmoved_def split: os_answer.split)

lemma wp_after_replacement:
  assumes "\<And>u. unmoved d u \<Longrightarrow> dk_synced u \<Longrightarrow> dk_temporary u = dk_temporary d \<Longrightarrow> Q () u"
    "\<And>s u. dk_record u = None \<Longrightarrow> dk_residue u = dk_record d \<Longrightarrow> dk_temporary u = dk_temporary d \<Longrightarrow> X s u"
    "\<And>s u. unmoved d u \<Longrightarrow> unsure s \<Longrightarrow> dk_temporary u = dk_temporary d \<Longrightarrow> X s u"
  shows "wp (after_replacement E) Q X d"
  unfolding after_replacement_def wp_except wp_then
proof (intro wp_sync_directory, goal_cases)
  case (2 s u)
  show ?case
  proof (cases s)
    case (Raised e)
    have "wp (quarantine_record E) (\<lambda>x. X (Raised e))
        (\<lambda>s d. case s of Raised f \<Rightarrow> X (Raised ''publication and quarantine failed'') d | Died \<Rightarrow> X Died d) u"
      using 2 assms(2,3) by (intro wp_quarantine) (auto simp: unmoved_def unsure_def split: os_stop.split)
    with Raised show ?thesis by (simp cong: os_stop.case_cong)
  qed (use 2 assms(3) in \<open>simp add: unsure_def\<close>)
qed (use assms(1) in simp)

lemma publication:
  "wp (atomic_json E content) (\<lambda>r u. acknowledged content u \<and> dk_residue d = None) (left_by content d) d"
  unfolding atomic_json_def refuse_uncertain_def
  by (auto simp: left_by_def acknowledged_def unmoved_def split: os_stop.split option.split
      intro!: wp_os_id wp_make_temporary wp_write_temporary wp_move_into_place wp_after_replacement wp_drop_temporary)

section \<open>Sequences of publications\<close>

text \<open>What may stand in the record: an acknowledged publication settles it, a call that raised changes nothing a reader
  takes for a record, and only an unsure one leaves its value as a second possibility.\<close>

definition publish_next :: "os_world \<Rightarrow> string option \<Rightarrow> string option set \<times> disk \<Rightarrow> string option set \<times> disk" where
  "publish_next E content = (\<lambda>(S, d). case atomic_json E content d of
     (Inr x, u) \<Rightarrow> ({content}, u)
   | (Inl s, u) \<Rightarrow> (if unsure s then insert content S else S, u))"

definition publish_all :: "os_world \<Rightarrow> string option list \<Rightarrow> disk \<Rightarrow> string option set \<times> disk" where
  "publish_all E contents d = fold (publish_next E) contents ({dk_record d}, d)"

definition held :: "string option set \<times> disk \<Rightarrow> bool" where
  "held = (\<lambda>(S, d). dk_residue d = None \<longrightarrow> dk_record d \<in> S)"

lemma held_next: "held p \<Longrightarrow> held (publish_next E content p)"
proof (cases p)
  case (Pair S d)
  assume "held p"
  with Pair publication[of E content d] show ?thesis
    by (auto simp: held_def publish_next_def wp_def left_by_def unmoved_def acknowledged_def split: prod.splits sum.splits)
qed

lemma held_all: "held (publish_all E contents d)"
proof -
  have "held p \<Longrightarrow> held (fold (publish_next E) contents p)" for p
    by (induction contents arbitrary: p) (simp_all add: held_next)
  then show ?thesis by (simp add: publish_all_def held_def)
qed

lemma wp_read_json:
  "wp (read_json E) (\<lambda>t u. unmoved d u \<and> dk_record d = Some t \<and> dk_residue d = None)
     (\<lambda>s u. unmoved d u \<and> (s = Raised ''FileNotFoundError'' \<longrightarrow> dk_record d = None \<and> dk_residue d = None)) d"
  unfolding read_json_def refuse_uncertain_def
  by (auto simp: wp_os_call Let_def unmoved_def split: os_answer.split option.split)

text \<open>C40: Whatever calls of the operating system fail and wherever the process dies, over any sequence of publications: a
  reader gets the last acknowledged record, or one that a later publication could neither finish nor take back, and
  never part of one; it finds no record only if none was acknowledged; and a record is acknowledged only when it is in
  place and synced.\<close>

theorem records_honest:
  "(case read_json E (snd (publish_all E contents d)) of
      (Inr t, u) \<Rightarrow> Some t \<in> fst (publish_all E contents d)
    | (Inl s, u) \<Rightarrow> s = Raised ''FileNotFoundError'' \<longrightarrow> None \<in> fst (publish_all E contents d))
   \<and> (case atomic_json E content (snd (publish_all E contents d)) of
      (Inr x, u) \<Rightarrow> content \<noteq> None \<and> dk_record u = content \<and> dk_residue u = None \<and> dk_synced u
    | (Inl s, u) \<Rightarrow> unsure s \<or> dk_residue u \<noteq> None \<or> dk_record u = dk_record (snd (publish_all E contents d)))"
proof
  obtain S x where p: "publish_all E contents d = (S, x)" by fastforce
  show "case read_json E (snd (publish_all E contents d)) of
      (Inr t, u) \<Rightarrow> Some t \<in> fst (publish_all E contents d)
    | (Inl s, u) \<Rightarrow> s = Raised ''FileNotFoundError'' \<longrightarrow> None \<in> fst (publish_all E contents d)"
    using wp_read_json[of E x] held_all[of E contents d] p by (auto simp: wp_def held_def split: prod.splits sum.splits)
  show "case atomic_json E content (snd (publish_all E contents d)) of
      (Inr x, u) \<Rightarrow> content \<noteq> None \<and> dk_record u = content \<and> dk_residue u = None \<and> dk_synced u
    | (Inl s, u) \<Rightarrow> unsure s \<or> dk_residue u \<noteq> None \<or> dk_record u = dk_record (snd (publish_all E contents d))"
    using publication[of E content x] p
    by (auto simp: wp_def acknowledged_def left_by_def unmoved_def split: prod.splits sum.splits)
qed

text \<open>A handoff is written the same way without a quarantine: whatever happens, the record is the old or the new one, and
  it is the new one, synced, when the call returns.\<close>

theorem handoff_atomic:
  "case write_handoff E content d of
     (Inr x, u) \<Rightarrow> content \<noteq> None \<and> dk_record u = content \<and> dk_synced u
   | (Inl s, u) \<Rightarrow> dk_record u = dk_record d \<or> content \<noteq> None \<and> dk_record u = content"
proof -
  have "wp (write_handoff E content) (\<lambda>x u. content \<noteq> None \<and> dk_record u = content \<and> dk_synced u)
      (\<lambda>s u. dk_record u = dk_record d \<or> content \<noteq> None \<and> dk_record u = content) d"
    unfolding write_handoff_def
    by (auto simp: unmoved_def split: os_stop.split option.split
        intro!: wp_os_id wp_make_temporary wp_move_into_place wp_sync_directory wp_drop_temporary)
  then show ?thesis by (auto simp: wp_def split: prod.splits sum.splits)
qed

section \<open>Witness\<close>

definition blank_disk :: disk where
  "blank_disk = \<lparr>dk_record = None, dk_residue = None, dk_temporary = False, dk_synced = True, dk_time = 0\<rparr>"

theorem records_honest_witness:
  "fst (read_json (\<lambda>n. OsDone) (snd (publish_all (\<lambda>n. OsDone) [Some ''a''] blank_disk))) = Inr ''a''
   \<and> Some ''a'' \<in> fst (publish_all (\<lambda>n. OsDone) [Some ''a''] blank_disk)"
proof -
  have "fst (read_json (\<lambda>n. OsDone) (snd (publish_all (\<lambda>n. OsDone) [Some ''a''] blank_disk))) = Inr ''a''" by code_simp
  with records_honest[of "\<lambda>n. OsDone" "[Some ''a'']" blank_disk None] show ?thesis
    by (cases "read_json (\<lambda>n. OsDone) (snd (publish_all (\<lambda>n. OsDone) [Some ''a''] blank_disk))") auto
qed

end
