(* ===== verification/Work_Scope.thy ===== *)
theory Work_Scope
  imports Work_Handoff
begin

text \<open>
  The scope of a ticket in a native export, the functions of \<open>src/ops/orchestration/loop.py\<close> over the relations, and the
  closeout record. An export holds dictionaries, of which only the digest reads every key; their identifiers are text,
  as in every export. Each \<open>while\<close> loop that expands a scope until nothing is added is \<open>reach\<close> over the edges it
  follows. The text of a document with sorted keys and SHA-256 are the arguments \<open>dumps\<close> and \<open>sha\<close>.
\<close>

section \<open>Closure\<close>

definition targets :: "(string \<times> string) list \<Rightarrow> string list \<Rightarrow> string list" where
  "targets edges scope = map snd (filter (\<lambda>e. fst e \<in> set scope) edges)"

function reach :: "(string \<times> string) list \<Rightarrow> string list \<Rightarrow> string list" where
  "reach edges scope =
    (if set (targets edges scope) \<subseteq> set scope then scope else reach edges (remdups (scope @ targets edges scope)))"
  by pat_completeness auto
termination
proof (relation "measure (\<lambda>(edges, scope). card (snd ` set edges - set scope))", goal_cases)
  case (2 edges scope)
  then obtain x where "x \<in> set (targets edges scope)" "x \<notin> set scope" by blast
  moreover have "set (targets edges scope) \<subseteq> snd ` set edges" by (auto simp: targets_def)
  ultimately have "snd ` set edges - set (remdups (scope @ targets edges scope)) \<subset> snd ` set edges - set scope" by auto
  then show ?case by (auto intro!: psubset_card_mono)
qed simp

declare reach.simps [simp del]

text \<open>The loop that expands a scope ends for every graph, also with cycles, and collects exactly what can be reached.\<close>

theorem reach_exact: "set (reach edges scope) = {y. \<exists>x \<in> set scope. (x, y) \<in> (set edges)\<^sup>*}"
proof (induction edges scope rule: reach.induct)
  case (1 edges scope)
  show ?case
  proof (cases "set (targets edges scope) \<subseteq> set scope")
    case True
    have "y \<in> set scope" if "(x, y) \<in> (set edges)\<^sup>*" "x \<in> set scope" for x y
      using that
    proof (induction rule: rtrancl_induct)
      case (step y z)
      then have "z \<in> set (targets edges scope)" by (force simp: targets_def)
      with True show ?case by blast
    qed simp
    with True show ?thesis by (subst reach.simps) auto
  next
    case False
    have "x \<in> set scope \<or> (\<exists>w \<in> set scope. (w, x) \<in> set edges)" if "x \<in> set (remdups (scope @ targets edges scope))" for x
      using that by (auto simp: targets_def)
    then have "{y. \<exists>x \<in> set (remdups (scope @ targets edges scope)). (x, y) \<in> (set edges)\<^sup>*} = {y. \<exists>x \<in> set scope. (x, y) \<in> (set edges)\<^sup>*}"
      by (auto intro: converse_rtrancl_into_rtrancl)
    with 1[OF False] False show ?thesis by (subst reach.simps) simp
  qed
qed

section \<open>The export\<close>

record lit_data =
  ld_issues :: "bag list"
  ld_comments :: "bag list"
  ld_relations :: "bag list"

definition edges_of :: "string set \<Rightarrow> lit_data \<Rightarrow> (string \<times> string) list" where
  "edges_of kinds data = map (\<lambda>r. (text_at r ''src_id'', text_at r ''dst_id''))
     (filter (\<lambda>r. text_at r ''type'' \<in> kinds) (ld_relations data))"

definition turned :: "('a \<times> 'b) list \<Rightarrow> ('b \<times> 'a) list" where
  "turned es = map (\<lambda>e. (snd e, fst e)) es"

definition issues_named :: "lit_data \<Rightarrow> string \<Rightarrow> bag list" where
  "issues_named data k = filter (\<lambda>i. text_at i ''id'' = k) (ld_issues data)"

definition doc_closed :: "bag \<Rightarrow> bool" where
  "doc_closed i \<longleftrightarrow> map_of i ''status'' = Some (VStr ''closed'')"

definition doc_flag :: "bag \<Rightarrow> string \<Rightarrow> bool" where
  "doc_flag i k = (case map_of i k of None \<Rightarrow> False | Some v \<Rightarrow> v \<notin> {VNone, VBool False, VStr [], VInt 0})"

definition doc_label :: "bag \<Rightarrow> string \<Rightarrow> bool" where
  "doc_label i l = (case map_of i ''labels'' of Some (VList ls) \<Rightarrow> VStr l \<in> set ls | _ \<Rightarrow> False)"

definition fingerprint :: "(pyv \<Rightarrow> string) \<Rightarrow> (string \<Rightarrow> string) \<Rightarrow> lit_data \<Rightarrow> string \<Rightarrow> string \<Rightarrow> string" where
  "fingerprint dumps sha data ticket goal =
    (let scope = reach (edges_of {''parent-child'', ''blocks''} data) [ticket, goal]
     in sha (dumps (VDict
       [(''issues'', VList (map VDict (sort_key (\<lambda>i. text_at i ''id'') (filter (\<lambda>i. text_at i ''id'' \<in> set scope) (ld_issues data))))),
        (''comments'', VList (map VDict (sort_key (\<lambda>c. text_at c ''id'') (filter (\<lambda>c. text_at c ''issue_id'' \<in> set scope) (ld_comments data))))),
        (''relations'', VList (map VDict (sort_key (\<lambda>r. dumps (VDict r))
          (filter (\<lambda>r. text_at r ''src_id'' \<in> set scope \<or> text_at r ''dst_id'' \<in> set scope) (ld_relations data)))))])))"

definition PROGRESS :: "string list" where
  "PROGRESS = [''status'', ''assignee'', ''updated_at'', ''closed_at'']"

definition beside :: "lit_data \<Rightarrow> string \<Rightarrow> string list \<Rightarrow> lit_data" where
  "beside data ticket known = data\<lparr>
     ld_issues := map (\<lambda>i. if text_at i ''id'' \<noteq> ticket then i else filter (\<lambda>e. fst e \<notin> set PROGRESS) i) (ld_issues data),
     ld_comments := filter (\<lambda>c. text_at c ''issue_id'' \<noteq> ticket \<or> text_at c ''id'' \<in> set known) (ld_comments data)\<rparr>"

definition excluded_scope :: "lit_data \<Rightarrow> string list \<Rightarrow> string list" where
  "excluded_scope data quarantined = reach (turned (edges_of {''blocks'', ''parent-child''} data)) quarantined"

definition prerequisites :: "lit_data \<Rightarrow> string \<Rightarrow> string list" where
  "prerequisites data ticket = targets (edges_of {''blocks''} data) (reach (edges_of {''parent-child''} data) [ticket])"

definition closed_ids :: "lit_data \<Rightarrow> string list" where
  "closed_ids data = map (\<lambda>i. text_at i ''id'') (filter doc_closed (ld_issues data))"

definition open_dependencies :: "lit_data \<Rightarrow> string \<Rightarrow> string list" where
  "open_dependencies data ticket = sort (remdups (filter (\<lambda>k. k \<notin> set (closed_ids data)) (prerequisites data ticket)))"

lemma open_dependencies_none: "open_dependencies data ticket = [] \<longleftrightarrow> set (prerequisites data ticket) \<subseteq> set (closed_ids data)"
  by (auto simp: open_dependencies_def filter_empty_conv)

section \<open>Clearances\<close>

definition preparation_operations :: "string list" where
  "preparation_operations = [''artifact-inspection'', ''environment-work'', ''review-context-preparation'', ''test-preparation'']"

datatype clearance = Implementation | Preparation (cl_named: "string list") (cl_cited: string)

definition cl_operations :: "clearance \<Rightarrow> string list" where
  "cl_operations c = (case c of
     Implementation \<Rightarrow> sort (''implementation'' # preparation_operations)
   | Preparation os r \<Rightarrow> sort (remdups os))"

definition cl_release :: "clearance \<Rightarrow> string option" where
  "cl_release c = (case c of Implementation \<Rightarrow> None | Preparation os r \<Rightarrow> Some r)"

definition parse_preparation :: "string list \<Rightarrow> pyv \<Rightarrow> string + clearance" where
  "parse_preparation operations release =
    (if operations = [] \<or> \<not> set operations \<subseteq> set preparation_operations then Inl ''preparation-operation-refused''
     else case release of
       VStr (c # cs) \<Rightarrow> Inr (Preparation operations (c # cs))
     | _ \<Rightarrow> Inl ''preparation requires the controlling release comment'')"

definition HUMAN_GATE :: string where
  "HUMAN_GATE = ''role:human''"

text \<open>The issue of an identifier; \<open>None\<close> is a \<open>KeyError\<close>. The dictionary keeps the last one.\<close>

definition issue_doc :: "lit_data \<Rightarrow> string \<Rightarrow> bag option" where
  "issue_doc data k = (case rev (issues_named data k) of [] \<Rightarrow> None | i # is \<Rightarrow> Some i)"

definition human_gates :: "lit_data \<Rightarrow> string \<Rightarrow> string list option" where
  "human_gates data ticket =
    (if \<exists>g \<in> set (prerequisites data ticket). issue_doc data g = None then None
     else Some (remdups (filter (\<lambda>g. doc_label (the (issue_doc data g)) HUMAN_GATE) (prerequisites data ticket))))"

text \<open>The first of the comments of a gate with the latest time up to its closure; \<open>moment\<close> parses a time stamp.\<close>

fun latest :: "(bag \<Rightarrow> int) \<Rightarrow> bag list \<Rightarrow> bag option" where
  "latest f [] = None"
| "latest f (c # cs) = (case latest f cs of None \<Rightarrow> Some c | Some d \<Rightarrow> if f d > f c then Some d else Some c)"

definition closing_record :: "(string \<Rightarrow> int) \<Rightarrow> lit_data \<Rightarrow> bag \<Rightarrow> bag option" where
  "closing_record moment data gate = latest (\<lambda>c. moment (text_at c ''created_at''))
     (filter (\<lambda>c. text_at c ''issue_id'' = text_at gate ''id'' \<and> moment (text_at c ''created_at'') \<le> moment (text_at gate ''closed_at''))
       (ld_comments data))"

definition released_by :: "(string \<Rightarrow> int) \<Rightarrow> lit_data \<Rightarrow> string \<Rightarrow> string \<Rightarrow> string option" where
  "released_by moment data ticket release =
    (case human_gates data ticket of
       None \<Rightarrow> Some ''KeyError''
     | Some gates \<Rightarrow>
         if \<exists>g \<in> set gates. \<not> doc_closed (the (issue_doc data g)) then Some ''hold-retained''
         else (case filter (\<lambda>c. text_at c ''id'' = release) (ld_comments data) of
           [c] \<Rightarrow>
             if text_at c ''issue_id'' \<notin> set gates then Some ''release-unverified''
             else (case closing_record moment data (the (issue_doc data (text_at c ''issue_id''))) of
               None \<Rightarrow> Some ''release-unverified''
             | Some l \<Rightarrow> if text_at l ''id'' \<noteq> release then Some ''release-unverified'' else None)
         | _ \<Rightarrow> Some ''release-unverified''))"

definition clearance_admits :: "(string \<Rightarrow> int) \<Rightarrow> clearance \<Rightarrow> lit_data \<Rightarrow> string \<Rightarrow> string list \<Rightarrow> string option" where
  "clearance_admits moment c data ticket blocked =
    (case c of
       Implementation \<Rightarrow> if blocked \<noteq> [] then Some ''dependency-open'' else None
     | Preparation os release \<Rightarrow> released_by moment data ticket release)"

section \<open>The closeout\<close>

record closeout =
  co_worktrees :: "(string \<times> string) list"
  co_required_open :: "string list"
  co_pending :: "string list"

definition worktree_fields :: "string list" where
  "worktree_fields = [''disposition'', ''owner'', ''path'', ''branch'', ''head'', ''protected'', ''reason'']"

definition obligation_fields :: "string list" where
  "obligation_fields = [''name'', ''state'', ''owner'', ''next_action'']"

definition TRIAL_CLOSURE :: "string list" where
  "TRIAL_CLOSURE = [''deliverables'', ''review'', ''own_main'', ''installed_acceptance'', ''ownership'', ''evidence'', ''lit_state'']"

definition text_given :: "bag \<Rightarrow> string \<Rightarrow> bool" where
  "text_given d k \<longleftrightarrow> text_at d k \<noteq> []"

definition worktree_entry :: "pyv \<Rightarrow> (string \<times> string) option" where
  "worktree_entry v = (case v of
     VDict d \<Rightarrow>
       if set (keys d) = set worktree_fields \<and> text_at d ''disposition'' \<in> {''retained'', ''removed'', ''held''}
          \<and> (case map_of d ''protected'' of Some (VList ps) \<Rightarrow> True | _ \<Rightarrow> False)
          \<and> list_all (text_given d) (filter (\<lambda>k. k \<noteq> ''protected'') worktree_fields)
       then Some (text_at d ''path'', text_at d ''disposition'') else None
   | _ \<Rightarrow> None)"

definition obligation_entry :: "pyv \<Rightarrow> (string \<times> string) option" where
  "obligation_entry v = (case v of
     VDict d \<Rightarrow>
       if set (keys d) = set obligation_fields \<and> list_all (text_given d) obligation_fields \<and> text_at d ''state'' \<in> {''met'', ''open''}
       then Some (text_at d ''name'', text_at d ''state'') else None
   | _ \<Rightarrow> None)"

fun obligations_of :: "(string \<times> string) list \<Rightarrow> pyv list \<Rightarrow> (string \<times> string) list option" where
  "obligations_of states [] = Some states"
| "obligations_of states (v # vs) =
    (case obligation_entry v of
       None \<Rightarrow> None
     | Some (name, st) \<Rightarrow> if name \<in> set (map fst states) then None else obligations_of (states @ [(name, st)]) vs)"

definition parse_closeout :: "pyv option \<Rightarrow> string \<Rightarrow> string + closeout" where
  "parse_closeout doc ticket =
    (case doc of
       Some (VDict d) \<Rightarrow>
         (case (map_of d ''worktrees'', map_of d ''obligations'') of
            (Some (VList ws), Some (VList obs)) \<Rightarrow>
              if text_at d ''record_type'' \<noteq> ''closeout'' \<or> map_of d ''schema_version'' \<notin> {Some (VInt 1), Some (VBool True), Some (VFloat (Fin 1))}
                 \<or> map_of d ''ticket'' \<noteq> Some (VStr ticket) then Inl ''closeout record''
              else (case those (map worktree_entry ws) of
                None \<Rightarrow> Inl ''invalid closeout worktree disposition''
              | Some trees \<Rightarrow>
                  (case obligations_of [] obs of
                    None \<Rightarrow> Inl ''invalid closeout obligation''
                  | Some states \<Rightarrow>
                      if \<not> set TRIAL_CLOSURE \<subseteq> set (map fst states) then Inl ''closeout omits required obligation''
                      else Inr \<lparr>co_worktrees = fold (\<lambda>(p, d) m. AList.update p d m) trees [],
                        co_required_open = filter (\<lambda>n. map_of states n = Some ''open'') TRIAL_CLOSURE,
                        co_pending = map fst (filter (\<lambda>(n, st). n \<notin> set TRIAL_CLOSURE \<and> st = ''open'') states)\<rparr>))
          | _ \<Rightarrow> Inl ''closeout record'')
     | _ \<Rightarrow> Inl ''closeout record'')"

end
