(* ===== verification/Work_Review.thy ===== *)
theory Work_Review
  imports Py_Prelude
begin

text \<open>
  The scheduling ceiling of reviews, \<open>evaluate\<close> of \<open>src/ops/orchestration/review_budget.py\<close>.
  The reducer of the product repository that reads the review log is code of another repository: what its functions
  answer about the log is the argument \<open>gate_view\<close>. Shown: the decision is consistent with its lists, a review is admitted
  only below the ceiling, and the passes seen never get fewer when the result is fed back.
\<close>

section \<open>What the reducer answers\<close>

record finding =
  fi_id :: string
  fi_severity :: string
  fi_producer :: string

record pass_run =
  pr_pass :: string
  pr_head :: string
  pr_digest :: string
  pr_complete :: bool
  pr_findings :: "finding list"

record gate_view =
  gv_runs :: "pass_run list"
  gv_disposed :: "(string \<times> string) list"
  gv_next :: "string option"
  gv_unfixed :: int

record impact =
  im_finding :: string
  im_impact :: string
  im_actor :: string
  im_producer :: string
  im_evidenced :: bool

type_synonym review_binding = "string list"

section \<open>Evaluation\<close>

definition binding_ok :: "review_binding \<Rightarrow> bool" where
  "binding_ok b \<longleftrightarrow> length b = 4 \<and> list_all (\<lambda>v. v \<noteq> []) b"

definition run_binding :: "string \<Rightarrow> pass_run \<Rightarrow> review_binding" where
  "run_binding arc r = [arc, pr_pass r, pr_head r, pr_digest r]"

definition all_bindings :: "gate_view \<Rightarrow> string \<Rightarrow> review_binding list \<Rightarrow> review_binding list" where
  "all_bindings g arc observed = remdups (observed @ map (run_binding arc) (filter pr_complete (gv_runs g)))"

text \<open>The dictionary of findings: the last one of an identifier counts.\<close>

definition findings_of :: "pass_run list \<Rightarrow> finding list" where
  "findings_of rs = concat (map pr_findings rs)"

definition finding_at :: "gate_view \<Rightarrow> string \<Rightarrow> finding option" where
  "finding_at g k = find (\<lambda>f. fi_id f = k) (rev (findings_of (gv_runs g)))"

definition impact_ok :: "gate_view \<Rightarrow> impact \<Rightarrow> bool" where
  "impact_ok g i \<longleftrightarrow> (case finding_at g (im_finding i) of
     None \<Rightarrow> False
   | Some f \<Rightarrow> im_impact i = ''prose_no_behavior'' \<and> im_actor i \<noteq> fi_producer f \<and> im_producer i = fi_producer f
       \<and> im_evidenced i \<and> fi_severity f \<in> {''P2'', ''P3''})"

definition disposition :: "gate_view \<Rightarrow> string \<Rightarrow> string option" where
  "disposition g k = map_of (gv_disposed g) k"

definition undisposed :: "gate_view \<Rightarrow> string list" where
  "undisposed g = sort (remdups (filter (\<lambda>k. disposition g k \<notin> {Some ''accepted'', Some ''rejected'', Some ''suppressed''})
     (map fi_id (findings_of (gv_runs g)))))"

definition blocks_at :: "gate_view \<Rightarrow> string list \<Rightarrow> pass_run \<Rightarrow> finding \<Rightarrow> bool" where
  "blocks_at g prose r f \<longleftrightarrow> disposition g (fi_id f) = Some ''accepted''
     \<and> (fi_severity f = ''P1'' \<or> fi_severity f = ''P2'' \<and> pr_pass r \<noteq> ''3'' \<and> fi_id f \<notin> set prose)"

definition follows_up :: "gate_view \<Rightarrow> string list \<Rightarrow> pass_run \<Rightarrow> finding \<Rightarrow> bool" where
  "follows_up g prose r f \<longleftrightarrow> disposition g (fi_id f) = Some ''accepted''
     \<and> (fi_severity f = ''P3'' \<or> fi_id f \<in> set prose \<or> fi_severity f = ''P2'' \<and> pr_pass r = ''3'')"

definition picked :: "(pass_run \<Rightarrow> finding \<Rightarrow> bool) \<Rightarrow> pass_run list \<Rightarrow> string list" where
  "picked P rs = sort (remdups (concat (map (\<lambda>r. map fi_id (filter (P r) (pr_findings r))) rs)))"

record review_result =
  rr_decision :: string
  rr_passes :: nat
  rr_observed :: "review_binding list"
  rr_admit :: bool
  rr_next :: "string option"
  rr_blocking :: "string list"
  rr_followups :: "string list"
  rr_undisposed :: "string list"
  rr_earlier_stop :: bool

definition decide :: "bool \<Rightarrow> nat \<Rightarrow> string list \<Rightarrow> string list \<Rightarrow> string option \<Rightarrow> string" where
  "decide earlier_stop count open_findings blocking remaining =
    (if earlier_stop \<or> count > 5 then ''quarantine''
     else if open_findings \<noteq> [] then (if count \<ge> 5 then ''quarantine'' else ''adjudication_required'')
     else if blocking \<noteq> [] then (if count \<ge> 5 then ''quarantine'' else ''fix_required'')
     else if remaining = None then ''code_verified''
     else if count \<ge> 5 then ''quarantine'' else ''review_required'')"

definition evaluate_review :: "gate_view \<Rightarrow> string \<Rightarrow> string \<Rightarrow> review_binding list \<Rightarrow> impact list \<Rightarrow> string + review_result" where
  "evaluate_review g arc head observed impacts =
    (if \<not> list_all binding_ok observed then Inl ''invalid prior review bindings''
     else if \<not> list_all (impact_ok g) impacts then Inl ''prose impact requires independent P2/P3 adjudication evidence''
     else let prose = map im_finding impacts;
              blocking = picked (blocks_at g prose) (filter (\<lambda>r. pr_head r = head) (gv_runs g));
              bindings = all_bindings g arc observed; count = length bindings; stop = gv_unfixed g \<ge> 2;
              decision = decide stop count (undisposed g) blocking (gv_next g)
     in Inr \<lparr>rr_decision = decision, rr_passes = count, rr_observed = sort bindings,
          rr_admit = (count < 5 \<and> \<not> stop \<and> decision = ''review_required''), rr_next = gv_next g, rr_blocking = blocking,
          rr_followups = picked (follows_up g prose) (gv_runs g), rr_undisposed = undisposed g, rr_earlier_stop = stop\<rparr>)"

section \<open>Properties\<close>

lemma picked_in: "k \<in> set (picked P rs) \<longleftrightarrow> (\<exists>r \<in> set rs. \<exists>f \<in> set (pr_findings r). P r f \<and> fi_id f = k)"
  by (auto simp: picked_def)

lemma impact_independent: "impact_ok g i \<Longrightarrow> im_actor i \<noteq> im_producer i"
  by (auto simp: impact_ok_def split: option.splits)

lemma undisposed_none:
  assumes "undisposed g = []" "r \<in> set (gv_runs g)" "f \<in> set (pr_findings r)"
  shows "disposition g (fi_id f) \<in> {Some ''accepted'', Some ''rejected'', Some ''suppressed''}"
proof -
  have "fi_id f \<in> set (map fi_id (findings_of (gv_runs g)))" using assms(2,3) by (auto simp: findings_of_def)
  moreover have "fi_id f \<notin> set (undisposed g)" using assms(1) by simp
  ultimately show ?thesis unfolding undisposed_def by simp blast?
qed

lemma decide_verified: "decide stop n us bs r = ''code_verified'' \<longleftrightarrow> \<not> stop \<and> n \<le> 5 \<and> us = [] \<and> bs = [] \<and> r = None"
  by (auto simp: decide_def)

lemma decide_review: "decide stop n us bs r = ''review_required'' \<longleftrightarrow> \<not> stop \<and> n < 5 \<and> us = [] \<and> bs = [] \<and> r \<noteq> None"
  by (auto simp: decide_def)

text \<open>An evaluation says that the code is verified only when the reducer asks for no further pass, every finding was
  decided on, no accepted finding of the present head blocks, a P1 always and a P2 before the third pass unless its
  independent adjudicator called it prose, and at most five passes were used. It admits a review exactly when it requires
  one, and then fewer than five were used; from the sixth pass on everything is quarantined.\<close>

theorem review_decided:
  assumes "evaluate_review g arc head observed impacts = Inr v"
  shows "(rr_decision v = ''code_verified'' \<longrightarrow> gv_next g = None \<and> rr_passes v \<le> 5
      \<and> (\<forall>r \<in> set (gv_runs g). \<forall>f \<in> set (pr_findings r).
          disposition g (fi_id f) \<in> {Some ''accepted'', Some ''rejected'', Some ''suppressed''}
          \<and> (pr_head r = head \<and> disposition g (fi_id f) = Some ''accepted'' \<longrightarrow> fi_severity f \<noteq> ''P1''
             \<and> (fi_severity f = ''P2'' \<and> pr_pass r \<noteq> ''3'' \<longrightarrow> (\<exists>i \<in> set impacts. im_finding i = fi_id f \<and> im_actor i \<noteq> im_producer i)))))
    \<and> rr_admit v = (rr_decision v = ''review_required'') \<and> (rr_admit v \<longrightarrow> rr_passes v < 5)
    \<and> (rr_passes v > 5 \<longrightarrow> rr_decision v = ''quarantine'')"
proof -
  let ?prose = "map im_finding impacts"
  let ?b = "picked (blocks_at g ?prose) (filter (\<lambda>r. pr_head r = head) (gv_runs g))"
  have v: "list_all (impact_ok g) impacts" "rr_decision v = decide (gv_unfixed g \<ge> 2) (rr_passes v) (undisposed g) ?b (gv_next g)"
      "rr_admit v = (rr_passes v < 5 \<and> \<not> gv_unfixed g \<ge> 2 \<and> rr_decision v = ''review_required'')"
    using assms by (auto simp: evaluate_review_def Let_def split: if_splits)
  have p: "\<exists>i \<in> set impacts. im_finding i = k \<and> im_actor i \<noteq> im_producer i" if k: "k \<in> set ?prose" for k
    using k v(1) impact_independent by (auto simp: list_all_iff)
  have "disposition g (fi_id f) \<in> {Some ''accepted'', Some ''rejected'', Some ''suppressed''}
      \<and> (pr_head r = head \<and> disposition g (fi_id f) = Some ''accepted'' \<longrightarrow> fi_severity f \<noteq> ''P1''
         \<and> (fi_severity f = ''P2'' \<and> pr_pass r \<noteq> ''3'' \<longrightarrow> (\<exists>i \<in> set impacts. im_finding i = fi_id f \<and> im_actor i \<noteq> im_producer i)))"
    if "undisposed g = []" "?b = []" "r \<in> set (gv_runs g)" "f \<in> set (pr_findings r)" for r f
  proof -
    have "disposition g (fi_id f) \<in> {Some ''accepted'', Some ''rejected'', Some ''suppressed''}"
      using undisposed_none[OF that(1,3,4)] .
    moreover have "\<not> blocks_at g ?prose r f" if "pr_head r = head"
    proof
      assume "blocks_at g ?prose r f"
      with that \<open>r \<in> set (gv_runs g)\<close> \<open>f \<in> set (pr_findings r)\<close> have "fi_id f \<in> set ?b" unfolding picked_in by auto
      with \<open>?b = []\<close> show False by simp
    qed
    ultimately show ?thesis using p[of "fi_id f"] unfolding blocks_at_def by blast
  qed
  note each = this
  have verified: "\<not> gv_unfixed g \<ge> 2 \<and> rr_passes v \<le> 5 \<and> undisposed g = [] \<and> ?b = [] \<and> gv_next g = None"
    if "rr_decision v = ''code_verified''"
    using that unfolding v(2) decide_verified .
  have "rr_admit v = (rr_decision v = ''review_required'')" unfolding v(3) unfolding v(2) decide_review by blast
  moreover have "rr_passes v > 5 \<Longrightarrow> rr_decision v = ''quarantine''" unfolding v(2) by (simp add: decide_def)
  moreover have "rr_admit v \<Longrightarrow> rr_passes v < 5" unfolding v(3) by blast
  ultimately show ?thesis using verified each by blast
qed

text \<open>When a result is fed back into the next evaluation, no pass it counted is forgotten: the count never falls, and once five
  passes were seen no review is admitted any more.\<close>

theorem review_budget_final:
  assumes "evaluate_review g arc head observed impacts = Inr v" "evaluate_review g' arc' head' (rr_observed v) impacts' = Inr v'"
  shows "set (rr_observed v) \<subseteq> set (rr_observed v') \<and> rr_passes v \<le> rr_passes v' \<and> (5 \<le> rr_passes v \<longrightarrow> \<not> rr_admit v')"
proof -
  have o: "set (rr_observed v) \<subseteq> set (rr_observed v')" using assms(2)
    by (auto simp: evaluate_review_def Let_def all_bindings_def split: if_splits)
  have c: "rr_passes u = card (set (rr_observed u))" if "evaluate_review h a k ob im = Inr u" for u h a k ob im
    using that by (auto simp: evaluate_review_def Let_def all_bindings_def length_remdups_card_conv split: if_splits)
  have "rr_passes v \<le> rr_passes v'" using o c[OF assms(1)] c[OF assms(2)] by (simp add: card_mono)
  moreover have "rr_admit v' \<longrightarrow> rr_passes v' < 5" using assms(2) by (auto simp: evaluate_review_def Let_def split: if_splits)
  ultimately show ?thesis using o by auto
qed

definition sample_gate :: gate_view where
  "sample_gate = \<lparr>gv_runs = [\<lparr>pr_pass = ''1'', pr_head = ''h'', pr_digest = ''d'', pr_complete = True,
       pr_findings = [\<lparr>fi_id = ''f'', fi_severity = ''P2'', fi_producer = ''p''\<rparr>]\<rparr>],
     gv_disposed = [(''f'', ''accepted'')], gv_next = None, gv_unfixed = 0\<rparr>"

definition sample_impact :: impact where
  "sample_impact = \<lparr>im_finding = ''f'', im_impact = ''prose_no_behavior'', im_actor = ''q'', im_producer = ''p'', im_evidenced = True\<rparr>"

theorem review_decided_witness:
  "\<exists>v. evaluate_review sample_gate ''arc'' ''h'' [] [sample_impact] = Inr v \<and> rr_decision v = ''code_verified'' \<and> rr_passes v \<le> 5"
proof -
  have "(case evaluate_review sample_gate ''arc'' ''h'' [] [sample_impact] of Inl e \<Rightarrow> False | Inr v \<Rightarrow> rr_decision v = ''code_verified'')"
    by code_simp
  then obtain v where v: "evaluate_review sample_gate ''arc'' ''h'' [] [sample_impact] = Inr v" "rr_decision v = ''code_verified''"
    by (auto split: sum.splits)
  from review_decided[OF v(1)] v show ?thesis by blast
qed

end
