(* ===== verification/Work_Loop.thy ===== *)
theory Work_Loop
  imports Work_Scope Work_Review Stop_Monad
begin

text \<open>
  The loop journal and its operations, class \<open>Loop\<close> of \<open>src/ops/orchestration/loop.py\<close>. Every operation holds the kernel
  lease, reads the journal, decides, and publishes the journal it changed; what stands outside is one \<open>loop_world\<close> of
  answers per operation: the control file and, read separately, its digest; the native exports; identities, packages and
  receipts that were verified or not; and how each publication of the journal ended. \<open>dumps\<close> and \<open>sha\<close> are the digests of
  \<open>fingerprint\<close>, \<open>moment\<close> the parser of time stamps and \<open>resolve\<close> that of paths. The lists \<open>lp_minted\<close>, \<open>lp_moved\<close> and
  \<open>lp_counted\<close> record decisions and are read by no operation.
\<close>

section \<open>The journal\<close>

record grant =
  gr_id :: string
  gr_ticket :: string
  gr_fingerprint :: string
  gr_control :: string
  gr_maintenance :: bool
  gr_iteration :: nat
  gr_unit :: "string option"
  gr_reservation :: pyv
  gr_operations :: "string list"
  gr_blockers :: "string list"
  gr_issuer :: string
  gr_release :: "string option"

record completion_record =
  cm_evidence :: string
  cm_epoch :: nat
  cm_closeout :: "closeout option"

record clear_reset =
  cr_previous :: string
  cr_inherited :: "string option"
  cr_automatic :: bool

record loop_journal =
  lj_session :: string
  lj_goal :: string
  lj_epoch :: nat
  lj_epoch_start :: nat
  lj_completed :: "(string \<times> completion_record) list"
  lj_reviews :: "(string \<times> review_result) list"
  lj_quarantine :: "string list"
  lj_unit_quarantine :: "string list"
  lj_admissions :: "(string \<times> grant) list"
  lj_arc_units :: "(string \<times> string) list"
  lj_admission :: "grant option"
  lj_reservations :: "pyv list"
  lj_iteration :: nat
  lj_reset :: "clear_reset option"
  lj_reset_requested :: bool
  lj_requests :: "pyv list"
  lj_pending_bootstrap :: "string option"
  lj_awaiting :: bool
  lj_startup_required :: bool
  lj_startup_epoch :: "nat option"
  lj_maintenance_only :: bool
  lj_recovering :: "string option"
  lj_recovered :: "string option"

text \<open>\<open>Stranded\<close>: a publication left only its residue, and no journal is read until it is resolved.\<close>

datatype journal_file = Missing | Stranded | Stored loop_journal

section \<open>The world of an operation\<close>

datatype save_answer = Saves | SaveKeeps | SaveStrands | SaveUnsure

datatype startup_answer = WithinBudget | OverBudget | NoBudget

record review_answer =
  ra_view :: gate_view
  ra_head :: string
  ra_terminal :: "string option"
  ra_landed :: bool

record loop_world =
  lw_lease :: bool
  lw_control :: "pyv option"
  lw_digest :: "string option"
  lw_export :: "pyv option"
  lw_after :: "pyv option"
  lw_write :: bool
  lw_saves :: "nat \<Rightarrow> save_answer"
  lw_identity :: "string option"
  lw_holder :: bool
  lw_budget :: startup_answer
  lw_id :: string
  lw_evidence :: "string option"
  lw_closeout :: "pyv option"
  lw_membership :: "string + string"
  lw_review :: "review_answer option"
  lw_commands :: "bool list"
  lw_bound :: bool
  lw_verified :: bool
  lw_idle :: bool
  lw_proof :: "(string \<times> nat) option"
  lw_timely :: bool
  lw_accepted :: bool

record minted =
  mi_grant :: grant
  mi_clearance :: clearance
  mi_journal :: loop_journal
  mi_data :: lit_data
  mi_paused :: bool

record loop_move =
  mv_ticket :: string
  mv_goal :: string
  mv_before :: lit_data
  mv_after :: lit_data

record counted =
  cu_ticket :: string
  cu_journal :: loop_journal
  cu_data :: lit_data
  cu_closeout :: "closeout option"

record loop_desk =
  lp_file :: journal_file
  lp_minted :: "minted list"
  lp_moved :: "loop_move list"
  lp_counted :: "counted list"

type_synonym 'a loop_act = "(loop_desk, string, 'a) act"

definition l_result :: "string + 'a \<Rightarrow> 'a loop_act" where
  "l_result r = (case r of Inl e \<Rightarrow> m_raise e | Inr x \<Rightarrow> m_ret x)"

definition loop_load :: "loop_journal loop_act" where
  "loop_load = m_read (\<lambda>d. case lp_file d of Stored j \<Rightarrow> m_ret j | _ \<Rightarrow> m_raise ''FileNotFoundError'')"

definition l_store :: "journal_file \<Rightarrow> unit loop_act" where
  "l_store f = m_set (\<lambda>d. d\<lparr>lp_file := f\<rparr>)"

definition loop_save :: "save_answer \<Rightarrow> loop_journal \<Rightarrow> unit loop_act" where
  "loop_save a j = (case a of
     Saves \<Rightarrow> l_store (Stored j)
   | SaveKeeps \<Rightarrow> m_raise ''OSError''
   | SaveStrands \<Rightarrow> m_then (l_store Stranded) (m_raise ''OSError'')
   | SaveUnsure \<Rightarrow> m_then (l_store (Stored j)) (m_raise ''OSError''))"

definition under_lease :: "loop_world \<Rightarrow> 'a loop_act \<Rightarrow> 'a loop_act" where
  "under_lease w m = m_then (m_unless (\<not> lw_lease w) ''lease-conflict'') m"

section \<open>Reading the control file and the export\<close>

record control =
  ct_paused :: bool
  ct_buford :: string
  ct_others :: "string list"

fun dict_item :: "pyv \<Rightarrow> bag option" where
  "dict_item (VDict d) = Some d"
| "dict_item v = None"

definition loop_control :: "pyv option \<Rightarrow> string + control" where
  "loop_control doc = (case doc of
     Some (VDict d) \<Rightarrow>
       (case (map_of d ''repair_paused'', map_of d ''sessions'') of
          (Some (VBool p), Some (VList ss)) \<Rightarrow>
            (case those (map dict_item ss) of
               None \<Rightarrow> Inl ''TypeError''
             | Some rows \<Rightarrow>
                 (case filter (\<lambda>s. text_at s ''role'' = ''buford'') rows of
                    [b] \<Rightarrow> Inr \<lparr>ct_paused = p, ct_buford = text_at b ''session_id'',
                      ct_others = map (\<lambda>s. text_at s ''session_id'') (filter (\<lambda>s. text_at s ''role'' \<noteq> ''buford'') rows)\<rparr>
                  | _ \<Rightarrow> Inl ''one Buford routing record required''))
        | (Some (VBool p), _) \<Rightarrow> Inl ''KeyError''
        | _ \<Rightarrow> Inl ''invalid pause control'')
   | _ \<Rightarrow> Inl ''control'')"

definition lit_read :: "pyv option \<Rightarrow> string \<Rightarrow> string + lit_data" where
  "lit_read doc ticket = (case doc of
     Some (VDict d) \<Rightarrow>
       if map_of d ''version'' \<notin> {Some (VInt 2), Some (VFloat (Fin 2))} then Inl ''invalid LIT ticket/export''
       else (case (map_of d ''issues'', map_of d ''comments'', map_of d ''relations'') of
          (Some (VList is), Some (VList cs), Some (VList rs)) \<Rightarrow>
            (case (those (map dict_item is), those (map dict_item cs), those (map dict_item rs)) of
               (Some is', Some cs', Some rs') \<Rightarrow>
                 (let data = \<lparr>ld_issues = is', ld_comments = cs', ld_relations = rs'\<rparr>
                  in if length (issues_named data ticket) \<noteq> 1 then Inl ''invalid LIT ticket/export'' else Inr data)
             | _ \<Rightarrow> Inl ''TypeError'')
        | _ \<Rightarrow> Inl ''invalid LIT ticket/export'')
   | _ \<Rightarrow> Inl ''LIT read/write failed'')"

definition the_issue :: "lit_data \<Rightarrow> string \<Rightarrow> bag" where
  "the_issue data ticket = hd (issues_named data ticket)"

definition doc_gone :: "bag \<Rightarrow> bool" where
  "doc_gone i \<longleftrightarrow> doc_flag i ''deleted_at'' \<or> doc_flag i ''archived_at''"

definition is_parent :: "lit_data \<Rightarrow> string \<Rightarrow> bool" where
  "is_parent data ticket \<longleftrightarrow> ticket \<in> snd ` set (edges_of {''parent-child''} data)"

section \<open>Grants\<close>

definition res_field :: "pyv \<Rightarrow> string \<Rightarrow> string" where
  "res_field r k = (case r of VDict d \<Rightarrow> text_at d k | _ \<Rightarrow> [])"

text \<open>Equality of two dictionaries does not depend on the order of their keys.\<close>

definition same_record :: "pyv \<Rightarrow> pyv \<Rightarrow> bool" where
  "same_record r s \<longleftrightarrow> (case (r, s) of (VDict a, VDict b) \<Rightarrow> set a = set b | _ \<Rightarrow> False)"

definition recorded_writer :: "loop_journal \<Rightarrow> string \<Rightarrow> string + pyv" where
  "recorded_writer j ticket =
    (case filter (\<lambda>r. res_field r ''key'' = ticket \<and> res_field r ''kind'' = ''writer'') (lj_reservations j) of
       [] \<Rightarrow> Inl ''reservation-required''
     | r # rs \<Rightarrow> Inr r)"

definition granted :: "loop_journal \<Rightarrow> string \<Rightarrow> string + grant" where
  "granted j admission = (case lj_admission j of
     None \<Rightarrow> Inl ''fresh LIT admission required''
   | Some g \<Rightarrow> if gr_id g \<noteq> admission then Inl ''fresh LIT admission required'' else Inr g)"

definition clear_grant :: "loop_journal \<Rightarrow> string \<Rightarrow> string \<Rightarrow> string list \<Rightarrow> string + grant" where
  "clear_grant j admission operation tickets = bind_res (granted j admission) (\<lambda>g.
     if \<not> set tickets \<subseteq> {gr_ticket g} then Inl ''grant-ticket-mismatch''
     else if operation \<notin> set (gr_operations g) then Inl ''operation-not-admitted''
     else bind_res (recorded_writer j (gr_ticket g)) (\<lambda>r.
       if \<not> same_record r (gr_reservation g) then Inl ''reservation changed; begin again'' else Inr g))"

definition current_grant :: "(pyv \<Rightarrow> string) \<Rightarrow> (string \<Rightarrow> string) \<Rightarrow> loop_world \<Rightarrow> loop_journal \<Rightarrow> string \<Rightarrow> string \<Rightarrow> string list
    \<Rightarrow> string + grant \<times> lit_data" where
  "current_grant dumps sha w j admission operation tickets = bind_res (clear_grant j admission operation tickets) (\<lambda>g.
     bind_res (lit_read (lw_export w) (gr_ticket g)) (\<lambda>data.
       if fingerprint dumps sha data (gr_ticket g) (lj_goal j) \<noteq> gr_fingerprint g then Inl ''LIT changed or pause/routing changed''
       else (case lw_digest w of
           None \<Rightarrow> Inl ''OSError''
         | Some c \<Rightarrow> if c \<noteq> gr_control g then Inl ''LIT changed or pause/routing changed'' else Inr (g, data))))"

section \<open>Admission\<close>

definition unit_key :: "string \<Rightarrow> string option \<Rightarrow> string" where
  "unit_key ticket unit = (case unit of None \<Rightarrow> ticket | Some u \<Rightarrow> ticket @ ''::'' @ u)"

definition epoch_completed :: "loop_journal \<Rightarrow> int" where
  "epoch_completed j = int (length (lj_completed j)) - int (lj_epoch_start j)"

definition unreconciled :: "loop_journal \<Rightarrow> lit_data \<Rightarrow> bool" where
  "unreconciled j data \<longleftrightarrow> (\<exists>t \<in> set (map fst (lj_admissions j)). t \<in> set (closed_ids data) \<and> t \<notin> set (map fst (lj_completed j)))"

definition unit_held :: "loop_journal \<Rightarrow> string \<Rightarrow> string option \<Rightarrow> bool" where
  "unit_held j ticket unit \<longleftrightarrow> unit_key ticket unit \<in> set (lj_unit_quarantine j)
     \<or> unit = None \<and> (\<exists>x \<in> set (lj_unit_quarantine j). prefix (ticket @ ''::'') x)"

text \<open>The budget of a fresh context, before its first admission.\<close>

definition startup_budget :: "loop_world \<Rightarrow> loop_journal \<Rightarrow> unit loop_act" where
  "startup_budget w j = (case lw_budget w of
     WithinBudget \<Rightarrow> m_ret ()
   | OverBudget \<Rightarrow> m_then (loop_save (lw_saves w 0) (j\<lparr>lj_reset_requested := True\<rparr>)) (m_raise ''startup budget'')
   | NoBudget \<Rightarrow> m_raise ''startup measurement'')"

definition startup_gate :: "loop_world \<Rightarrow> loop_journal \<Rightarrow> unit loop_act" where
  "startup_gate w j =
    (if \<not> lj_startup_required j then m_ret ()
     else m_then (m_unless (lj_startup_epoch j \<noteq> Some (lj_epoch j)) ''verified startup context receipt required'') (startup_budget w j))"

definition admit_issuer :: "loop_world \<Rightarrow> clearance \<Rightarrow> string \<Rightarrow> string + string" where
  "admit_issuer w c session = (case c of
     Implementation \<Rightarrow> Inr session
   | Preparation os r \<Rightarrow>
       if lw_identity w \<noteq> Some session then Inl ''caller-not-issuer''
       else if \<not> lw_holder w then Inl ''caller-not-issuer'' else Inr session)"

definition context_full :: "loop_journal \<Rightarrow> bool \<Rightarrow> bool \<Rightarrow> bool" where
  "context_full j maintenance headroom \<longleftrightarrow> epoch_completed j \<ge> 5 \<or> lj_reset j \<noteq> None
     \<or> lj_reset_requested j \<and> \<not> (maintenance \<and> lj_maintenance_only j) \<or> \<not> headroom"

definition headroom_gate :: "loop_world \<Rightarrow> loop_journal \<Rightarrow> bool \<Rightarrow> bool \<Rightarrow> unit loop_act" where
  "headroom_gate w j maintenance headroom =
    (if \<not> context_full j maintenance headroom then m_ret ()
     else m_then (if headroom then m_ret () else loop_save (lw_saves w 0) (j\<lparr>lj_reset_requested := True\<rparr>)) (m_raise ''context-reset-required''))"

definition refuse_when :: "(bool \<times> string) list \<Rightarrow> unit loop_act" where
  "refuse_when cs = (case find fst cs of None \<Rightarrow> m_ret () | Some (b, e) \<Rightarrow> m_raise e)"

definition mint_grant :: "(pyv \<Rightarrow> string) \<Rightarrow> (string \<Rightarrow> string) \<Rightarrow> loop_world \<Rightarrow> loop_journal \<Rightarrow> lit_data \<Rightarrow> string \<Rightarrow> bool \<Rightarrow> string option
    \<Rightarrow> clearance \<Rightarrow> pyv \<Rightarrow> string \<Rightarrow> string \<Rightarrow> grant" where
  "mint_grant dumps sha w j data ticket maintenance unit c r issuer digest =
    \<lparr>gr_id = lw_id w, gr_ticket = ticket, gr_fingerprint = fingerprint dumps sha data ticket (lj_goal j), gr_control = digest,
      gr_maintenance = maintenance, gr_iteration = Suc (lj_iteration j), gr_unit = unit, gr_reservation = r,
      gr_operations = cl_operations c, gr_blockers = open_dependencies data ticket, gr_issuer = issuer, gr_release = cl_release c\<rparr>"

definition grant_admitted :: "loop_journal \<Rightarrow> grant \<Rightarrow> loop_journal" where
  "grant_admitted j g = j\<lparr>lj_iteration := gr_iteration g, lj_admission := Some g, lj_startup_required := False,
     lj_admissions := (if ''implementation'' \<in> set (gr_operations g) then AList.update (gr_ticket g) g (lj_admissions j) else lj_admissions j)\<rparr>"

text \<open>What follows the checks of the lane: quarantine, clearance, issuer, reservation and the state of the ticket.\<close>

definition ticket_gate :: "(string \<Rightarrow> int) \<Rightarrow> loop_world \<Rightarrow> loop_journal \<Rightarrow> lit_data \<Rightarrow> string \<Rightarrow> string option \<Rightarrow> clearance \<Rightarrow> (string \<times> pyv) loop_act" where
  "ticket_gate moment w j data ticket unit c = m_then (refuse_when
      [(ticket \<in> set (excluded_scope data (lj_quarantine j)), ''ticket quarantined or dependent on quarantine''),
       (unit_held j ticket unit, ''review unit quarantined'')])
    (m_then (case clearance_admits moment c data ticket (open_dependencies data ticket) of Some e \<Rightarrow> m_raise e | None \<Rightarrow> m_ret ())
    (m_bind (l_result (admit_issuer w c (lj_session j))) (\<lambda>issuer.
     m_bind (l_result (recorded_writer j ticket)) (\<lambda>r.
     m_then (m_unless (doc_closed (the_issue data ticket) \<or> doc_gone (the_issue data ticket)) ''ticket is not active'')
       (m_ret (issuer, r))))))"

definition loop_begin :: "(pyv \<Rightarrow> string) \<Rightarrow> (string \<Rightarrow> string) \<Rightarrow> (string \<Rightarrow> int) \<Rightarrow> loop_world \<Rightarrow> string \<Rightarrow> bool \<Rightarrow> bool \<Rightarrow> string option
    \<Rightarrow> clearance \<Rightarrow> grant loop_act" where
  "loop_begin dumps sha moment w ticket maintenance headroom unit c =
    m_bind loop_load (\<lambda>j. m_bind (l_result (loop_control (lw_control w))) (\<lambda>ct.
    m_bind (l_result (lit_read (lw_export w) ticket)) (\<lambda>data.
    m_then (m_unless (lj_awaiting j) ''verified native reset receipt required'')
    (m_then (startup_gate w j)
    (m_then (refuse_when
      [(lj_maintenance_only j \<and> \<not> maintenance, ''maintenance recovery requires a genuine native reset''),
       (unreconciled j data, ''completion-reconciliation-required''),
       (ct_paused ct \<and> \<not> maintenance, ''production-paused''),
       (ct_buford ct \<noteq> lj_session j, ''Buford identity changed'')])
    (m_then (headroom_gate w j maintenance headroom)
    (m_bind (ticket_gate moment w j data ticket unit c) (\<lambda>(issuer, r).
     m_bind (m_demand ''OSError'' (lw_digest w)) (\<lambda>digest.
     let g = mint_grant dumps sha w j data ticket maintenance unit c r issuer digest
     in m_then (m_set (\<lambda>d. d\<lparr>lp_minted := \<lparr>mi_grant = g, mi_clearance = c, mi_journal = j, mi_data = data, mi_paused = ct_paused ct\<rparr> # lp_minted d\<rparr>))
       (m_then (loop_save (lw_saves w 0) (grant_admitted j g)) (m_ret g)))))))))))"

section \<open>Effects\<close>

definition loop_check :: "(pyv \<Rightarrow> string) \<Rightarrow> (string \<Rightarrow> string) \<Rightarrow> loop_world \<Rightarrow> string \<Rightarrow> string \<Rightarrow> string list \<Rightarrow> grant loop_act" where
  "loop_check dumps sha w admission operation tickets = m_bind loop_load (\<lambda>j.
     m_bind (l_result (current_grant dumps sha w j admission operation tickets)) (\<lambda>(g, data). m_ret g))"

definition loop_transition :: "(pyv \<Rightarrow> string) \<Rightarrow> (string \<Rightarrow> string) \<Rightarrow> loop_world \<Rightarrow> string \<Rightarrow> string \<Rightarrow> string \<Rightarrow> unit loop_act" where
  "loop_transition dumps sha w admission operation ticket = m_bind loop_load (\<lambda>j.
     m_bind (l_result (current_grant dumps sha w j admission operation [ticket])) (\<lambda>(g, before).
     m_then (m_unless (\<not> lw_write w) ''write'')
     (m_bind (l_result (lit_read (lw_after w) ticket)) (\<lambda>after.
      let known = map (\<lambda>c. text_at c ''id'') (ld_comments before)
      in m_then (m_unless (fingerprint dumps sha (beside after ticket known) ticket (lj_goal j)
            \<noteq> fingerprint dumps sha (beside before ticket known) ticket (lj_goal j)) ''LIT changed beside this run's transition'')
        (m_then (m_set (\<lambda>d. d\<lparr>lp_moved := \<lparr>mv_ticket = ticket, mv_goal = lj_goal j, mv_before = before, mv_after = after\<rparr> # lp_moved d\<rparr>))
          (loop_save (lw_saves w 0) (j\<lparr>lj_admission := Some (g\<lparr>gr_fingerprint := fingerprint dumps sha after ticket (lj_goal j)\<rparr>)\<rparr>)))))))"

definition loop_selection :: "loop_world \<Rightarrow> string \<Rightarrow> string list loop_act" where
  "loop_selection w admission = m_bind loop_load (\<lambda>j. m_bind (l_result (granted j admission)) (\<lambda>g.
     m_bind (l_result (lit_read (lw_export w) (gr_ticket g))) (\<lambda>data.
       m_ret (if doc_closed (the_issue data (gr_ticket g)) then [] else [gr_ticket g]))))"

section \<open>Completion\<close>

definition completion_closeout :: "loop_world \<Rightarrow> string \<Rightarrow> bool \<Rightarrow> (closeout option) loop_act" where
  "completion_closeout w ticket given = m_bind (l_result (lw_membership w)) (\<lambda>profile.
     if profile = ''trial'' then
       m_then (m_unless (\<not> given) ''trial completion requires its closeout record'')
       (m_bind (l_result (parse_closeout (lw_closeout w) ticket)) (\<lambda>p.
        m_then (m_unless (co_required_open p \<noteq> []) ''required obligation open'')
        (m_then (m_unless (\<not> lw_bound w) ''OSError'') (m_ret (Some p)))))
     else if profile \<noteq> ''legacy'' then m_raise ''membership holds completion''
     else m_then (m_unless given ''a closeout record is trial bookkeeping'') (m_ret None))"

definition completed_with :: "loop_journal \<Rightarrow> string \<Rightarrow> completion_record \<Rightarrow> loop_journal" where
  "completed_with j ticket m = j\<lparr>lj_completed := lj_completed j @ [(ticket, m)],
     lj_admission := (case lj_admission j of None \<Rightarrow> None | Some g \<Rightarrow> if gr_ticket g = ticket then None else Some g),
     lj_reservations := filter (\<lambda>r. res_field r ''key'' \<noteq> ticket) (lj_reservations j)\<rparr>"

definition count_leaf :: "loop_world \<Rightarrow> loop_journal \<Rightarrow> lit_data \<Rightarrow> string \<Rightarrow> bool \<Rightarrow> loop_journal loop_act" where
  "count_leaf w j data ticket given = m_then (refuse_when
      [(case map_of (lj_admissions j) ticket of None \<Rightarrow> True | Some g \<Rightarrow> gr_ticket g \<noteq> ticket, ''completion requires this ticket admission''),
       (ticket \<in> set (excluded_scope data (lj_quarantine j)), ''quarantined work cannot complete'')])
    (m_bind (m_demand ''OSError'' (lw_evidence w)) (\<lambda>e. m_bind (completion_closeout w ticket given) (\<lambda>p.
     let after = completed_with j ticket \<lparr>cm_evidence = e, cm_epoch = lj_epoch j, cm_closeout = p\<rparr>
     in m_then (m_set (\<lambda>d. d\<lparr>lp_counted := \<lparr>cu_ticket = ticket, cu_journal = j, cu_data = data, cu_closeout = p\<rparr> # lp_counted d\<rparr>))
       (m_then (loop_save (lw_saves w 0) after) (m_ret after)))))"

definition loop_complete :: "loop_world \<Rightarrow> string \<Rightarrow> bool \<Rightarrow> int loop_act" where
  "loop_complete w ticket given = m_bind loop_load (\<lambda>j. m_bind (l_result (lit_read (lw_export w) ticket)) (\<lambda>data.
    m_then (refuse_when
      [(\<not> doc_closed (the_issue data ticket) \<or> doc_gone (the_issue data ticket), ''LIT ticket must actually be closed''),
       (is_parent data ticket, ''completed parent/epic is not a completed leaf'')])
    (m_bind (if ticket \<in> set (map fst (lj_completed j)) then m_ret j else count_leaf w j data ticket given) (\<lambda>after.
     m_ret (epoch_completed after)))))"

section \<open>Reviews\<close>

definition reviewed_head :: "review_answer \<Rightarrow> string" where
  "reviewed_head v = (case ra_terminal v of None \<Rightarrow> ra_head v | Some h \<Rightarrow> if h \<noteq> ra_head v \<and> ra_landed v then h else ra_head v)"

definition append_new :: "'a \<Rightarrow> 'a list \<Rightarrow> 'a list" where
  "append_new x xs = (if x \<in> set xs then xs else xs @ [x])"

definition hold_reviewed :: "loop_journal \<Rightarrow> string \<Rightarrow> string option \<Rightarrow> loop_journal" where
  "hold_reviewed j ticket unit = (case unit of
     None \<Rightarrow> j\<lparr>lj_quarantine := append_new ticket (lj_quarantine j)\<rparr>
   | Some u \<Rightarrow> j\<lparr>lj_unit_quarantine := append_new (unit_key ticket unit) (lj_unit_quarantine j)\<rparr>)"

text \<open>The label of a quarantined ticket and the comment, in the order they are written.\<close>

definition commands_done :: "loop_world \<Rightarrow> nat \<Rightarrow> bool" where
  "commands_done w n \<longleftrightarrow> length (lw_commands w) \<ge> n \<and> list_all id (take n (lw_commands w))"

definition loop_review :: "loop_world \<Rightarrow> string \<Rightarrow> string \<Rightarrow> impact list \<Rightarrow> string option \<Rightarrow> review_result loop_act" where
  "loop_review w ticket arc impacts unit = m_bind loop_load (\<lambda>j.
     m_bind (l_result (lit_read (lw_export w) ticket)) (\<lambda>data. m_bind (m_demand ''canonical review history missing'' (lw_review w)) (\<lambda>v.
     let key = unit_key ticket unit;
         observed = (case map_of (lj_reviews j) key of None \<Rightarrow> [] | Some r \<Rightarrow> rr_observed r)
     in m_then (m_unless (case map_of (lj_arc_units j) arc of None \<Rightarrow> False | Some k \<Rightarrow> k \<noteq> key) ''stable review unit cannot be renamed'')
       (m_bind (l_result (evaluate_review (ra_view v) arc (reviewed_head v) observed impacts)) (\<lambda>r.
        let k = j\<lparr>lj_arc_units := AList.update arc key (lj_arc_units j), lj_reviews := AList.update key r (lj_reviews j)\<rparr>;
            held = rr_decision r = ''quarantine''
        in m_then (loop_save (lw_saves w 0) (if held then hold_reviewed k ticket unit else k))
          (m_then (m_unless (\<not> commands_done w (if held then 2 else 1)) ''LIT read/write failed'') (m_ret r)))))))"

section \<open>Reservations and resets\<close>

fun fold_result :: "('a \<Rightarrow> 'e + 'b) \<Rightarrow> 'a list \<Rightarrow> 'e + 'b list" where
  "fold_result f [] = Inr []"
| "fold_result f (x # xs) = bind_res (f x) (\<lambda>y. bind_res (fold_result f xs) (\<lambda>ys. Inr (y # ys)))"

definition journal_reservations :: "(string \<Rightarrow> string) \<Rightarrow> loop_journal \<Rightarrow> string + reservation list" where
  "journal_reservations resolve j = fold_result (parse_reservation resolve) (lj_reservations j)"

definition loop_reserve :: "(string \<Rightarrow> string) \<Rightarrow> loop_world \<Rightarrow> pyv \<Rightarrow> string loop_act" where
  "loop_reserve resolve w r = m_bind (l_result (parse_reservation resolve r)) (\<lambda>candidate. under_lease w (m_bind loop_load (\<lambda>j.
     m_bind (l_result (journal_reservations resolve j)) (\<lambda>active.
     m_then (m_unless (conflicts active candidate \<noteq> []) ''reservation-held'')
     (m_then (loop_save (lw_saves w 0) (j\<lparr>lj_reservations := lj_reservations j @ [r]\<rparr>)) (m_ret (re_key candidate)))))))"

definition loop_release :: "loop_world \<Rightarrow> string \<Rightarrow> string loop_act" where
  "loop_release w key = m_bind loop_load (\<lambda>j.
     let kept = filter (\<lambda>r. res_field r ''key'' \<noteq> key) (lj_reservations j)
     in m_then (m_unless (length kept = length (lj_reservations j)) ''no reservation to release'')
       (m_then (loop_save (lw_saves w 0) (j\<lparr>lj_reservations := kept\<rparr>)) (m_ret key)))"

definition loop_request_reset :: "loop_world \<Rightarrow> pyv \<Rightarrow> unit loop_act" where
  "loop_request_reset w evidence = m_bind loop_load (\<lambda>j. loop_save (lw_saves w 0)
     (j\<lparr>lj_requests := append_new evidence (lj_requests j), lj_reset_requested := True\<rparr>))"

definition loop_finish_startup :: "loop_world \<Rightarrow> unit loop_act" where
  "loop_finish_startup w = m_bind loop_load (\<lambda>j. m_bind (l_result (loop_control (lw_control w))) (\<lambda>ct.
     m_then (m_unless (ct_buford ct \<noteq> lj_session j \<or> lj_awaiting j) ''native bootstrap required before startup measurement'')
     (m_then (startup_budget w j) (m_bind (m_demand ''OSError'' (lw_digest w)) (\<lambda>digest.
       loop_save (lw_saves w 0) (j\<lparr>lj_startup_epoch := Some (lj_epoch j)\<rparr>))))))"

definition fresh_journal :: "string \<Rightarrow> string \<Rightarrow> loop_journal" where
  "fresh_journal session goal = \<lparr>lj_session = session, lj_goal = goal, lj_epoch = 0, lj_epoch_start = 0, lj_completed = [], lj_reviews = [],
     lj_quarantine = [], lj_unit_quarantine = [], lj_admissions = [], lj_arc_units = [], lj_admission = None, lj_reservations = [],
     lj_iteration = 0, lj_reset = None, lj_reset_requested = False, lj_requests = [], lj_pending_bootstrap = None, lj_awaiting = False,
     lj_startup_required = False, lj_startup_epoch = None, lj_maintenance_only = False, lj_recovering = None, lj_recovered = None\<rparr>"

definition loop_initialize :: "loop_world \<Rightarrow> string \<Rightarrow> string \<Rightarrow> unit loop_act" where
  "loop_initialize w session goal = m_read (\<lambda>d. m_then (m_unless (lp_file d \<noteq> Missing) ''journal already initialized'')
     (m_bind (l_result (loop_control (lw_control w))) (\<lambda>ct.
      m_then (m_unless (ct_buford ct \<noteq> session) ''Buford routing identity mismatch'')
      (m_bind (m_demand ''OSError'' (lw_evidence w)) (\<lambda>handoff. loop_save (lw_saves w 0) (fresh_journal session goal))))))"

section \<open>Epochs\<close>

text \<open>\<open>lw_verified\<close> is the answer of the checks on files that another process wrote: the sealed package and its bindings, the
  released writers, the model and the first message of the fresh transcript, the receipt, the recovery authority.\<close>

definition loop_prepare_clear :: "loop_world \<Rightarrow> string option \<Rightarrow> bool \<Rightarrow> unit loop_act" where
  "loop_prepare_clear w outgoing automatic = m_bind loop_load (\<lambda>j.
     m_bind (l_result (lit_read (lw_export w) (lj_goal j))) (\<lambda>data. m_bind (l_result (loop_control (lw_control w))) (\<lambda>ct.
     let previous = (case outgoing of None \<Rightarrow> lj_session j | Some thread \<Rightarrow> thread)
     in m_then (m_unless (\<not> lw_verified w) ''package'')
       (loop_save (lw_saves w 0) (j\<lparr>lj_reset := Some \<lparr>cr_previous = previous,
          cr_inherited = (if previous \<noteq> lj_session j then Some (lj_session j) else None), cr_automatic = automatic\<rparr>, lj_admission := None\<rparr>)))))"

definition bootstrapped :: "loop_journal \<Rightarrow> string \<Rightarrow> bool \<Rightarrow> loop_journal" where
  "bootstrapped j session automatic =
    (if automatic then j\<lparr>lj_startup_required := True, lj_startup_epoch := None, lj_admission := None, lj_awaiting := True\<rparr>
     else j\<lparr>lj_admission := None, lj_awaiting := False, lj_session := session, lj_epoch := Suc (lj_epoch j),
       lj_epoch_start := length (lj_completed j), lj_reset := None, lj_pending_bootstrap := None, lj_reset_requested := False\<rparr>)"

definition loop_bootstrap :: "loop_world \<Rightarrow> unit loop_act" where
  "loop_bootstrap w = m_bind loop_load (\<lambda>j. m_bind (m_demand ''sealed clear package changed'' (lj_reset j)) (\<lambda>r.
     m_bind (m_demand ''native context must have a fresh identity'' (lw_identity w)) (\<lambda>session.
     m_then (m_unless (\<not> lw_verified w) ''handoff-bound native lane evidence required'')
     (m_then (m_unless (session = [] \<or> session = cr_previous r \<or> cr_inherited r = Some session) ''native context must have a fresh identity'')
     (m_bind (l_result (loop_control (lw_control w))) (\<lambda>ct.
     m_then (refuse_when
       [(session \<in> set (ct_others ct), ''handoff-bound native lane evidence required''),
        (lj_pending_bootstrap j \<notin> {None, Some session}, ''bootstrap recovery identity differs from durable intent''),
        (\<not> cr_automatic r \<and> lj_pending_bootstrap j = None \<and> \<not> lw_idle w, ''native clear requires an idle matching lane'')])
     (m_bind (l_result (lit_read (lw_export w) (lj_goal j))) (\<lambda>data.
     m_then (refuse_when
       [(\<not> lw_timely w, ''bootstrap deadline exceeded''),
        (ct_buford ct \<notin> {lj_session j, session}, ''Buford routing changed by another owner'')])
     (let k = j\<lparr>lj_pending_bootstrap := Some session\<rparr>
      in m_then (loop_save (lw_saves w 0) k) (m_then (m_unless (\<not> lw_write w) ''OSError'')
        (loop_save (lw_saves w 1) (bootstrapped k session (cr_automatic r)))))))))))))"

definition loop_acknowledge :: "loop_world \<Rightarrow> unit loop_act" where
  "loop_acknowledge w = m_bind loop_load (\<lambda>j. m_bind (m_demand ''native reset acceptance receipt mismatch'' (lw_proof w)) (\<lambda>(session, epoch).
     m_then (refuse_when
       [(\<not> lw_verified w \<or> lj_pending_bootstrap j \<noteq> Some session \<or> epoch \<noteq> Suc (lj_epoch j) \<or> lj_reset j = None,
         ''native reset acceptance receipt mismatch''),
        (\<not> lw_timely w, ''native reset deadline exceeded before acceptance'')])
     (m_then (loop_save (lw_saves w 0) j) (m_then (m_unless (\<not> lw_accepted w) ''native reset deadline exceeded before acceptance'')
       (loop_save (lw_saves w 1) (j\<lparr>lj_session := session, lj_epoch := epoch, lj_epoch_start := length (lj_completed j), lj_reset := None,
          lj_reset_requested := False, lj_pending_bootstrap := None, lj_awaiting := False, lj_maintenance_only := False\<rparr>))))))"

definition loop_recover :: "loop_world \<Rightarrow> string \<Rightarrow> string \<Rightarrow> unit loop_act" where
  "loop_recover w binding session = m_bind loop_load (\<lambda>j. m_bind (l_result (loop_control (lw_control w))) (\<lambda>ct.
     m_then (refuse_when
       [(lj_recovering j \<notin> {None, Some binding}, ''maintenance recovery intent changed''),
        (lj_recovered j = Some binding \<and> lj_session j \<noteq> session, ''maintenance recovery identity changed''),
        (\<not> lw_verified w, ''failed journal changed before recovery''),
        (\<not> ct_paused ct \<and> \<not> lw_idle w, ''maintenance recovery requires unchanged paused protected routing''),
        (session \<in> set (ct_others ct), ''recovery identity mismatch'')])
     (if lj_recovered j = Some binding then m_ret ()
      else m_bind (l_result (lit_read (lw_export w) (lj_goal j))) (\<lambda>data.
        m_then (if lj_recovering j = None then loop_save (lw_saves w 0) (j\<lparr>lj_recovering := Some binding\<rparr>) else m_ret ())
        (m_then (m_unless (\<not> lw_write w) ''OSError'')
          (loop_save (lw_saves w 1) (j\<lparr>lj_session := session, lj_reset := None, lj_reset_requested := True, lj_admission := None,
             lj_maintenance_only := True, lj_recovering := None, lj_pending_bootstrap := None, lj_awaiting := False,
             lj_recovered := Some binding\<rparr>)))))))"

section \<open>Histories\<close>

datatype loop_op =
    Initialize string string
  | Begin string bool bool "string option" "(string list \<times> pyv) option"
  | RequestReset pyv
  | FinishStartup
  | Check string string "string list"
  | Transition string string string
  | Selection string
  | Complete string bool
  | Review string string "impact list" "string option"
  | ReserveOp pyv
  | ReleaseOp string
  | PrepareClear "string option" bool
  | Bootstrap
  | Acknowledge
  | Recover string string

text \<open>The clearance the command line asks for.\<close>

definition clearance_of :: "(string list \<times> pyv) option \<Rightarrow> string + clearance" where
  "clearance_of c = (case c of None \<Rightarrow> Inr Implementation | Some (operations, release) \<Rightarrow> parse_preparation operations release)"

definition m_void :: "'a loop_act \<Rightarrow> unit loop_act" where
  "m_void m = m_bind m (\<lambda>x. m_ret ())"

fun loop_do :: "(pyv \<Rightarrow> string) \<Rightarrow> (string \<Rightarrow> string) \<Rightarrow> (string \<Rightarrow> int) \<Rightarrow> (string \<Rightarrow> string) \<Rightarrow> loop_world \<Rightarrow> loop_op \<Rightarrow> unit loop_act" where
  "loop_do dumps sha moment resolve w (Initialize session goal) = under_lease w (loop_initialize w session goal)"
| "loop_do dumps sha moment resolve w (Begin t mt hr u c) =
    m_bind (l_result (clearance_of c)) (\<lambda>cl. under_lease w (m_void (loop_begin dumps sha moment w t mt hr u cl)))"
| "loop_do dumps sha moment resolve w (RequestReset e) = under_lease w (loop_request_reset w e)"
| "loop_do dumps sha moment resolve w FinishStartup = under_lease w (loop_finish_startup w)"
| "loop_do dumps sha moment resolve w (Check a p ts) = under_lease w (m_void (loop_check dumps sha w a p ts))"
| "loop_do dumps sha moment resolve w (Transition a p t) = under_lease w (loop_transition dumps sha w a p t)"
| "loop_do dumps sha moment resolve w (Selection a) = under_lease w (m_void (loop_selection w a))"
| "loop_do dumps sha moment resolve w (Complete t given) = under_lease w (m_void (loop_complete w t given))"
| "loop_do dumps sha moment resolve w (Review t a is u) = under_lease w (m_void (loop_review w t a is u))"
| "loop_do dumps sha moment resolve w (ReserveOp r) = m_void (loop_reserve resolve w r)"
| "loop_do dumps sha moment resolve w (ReleaseOp k) = under_lease w (m_void (loop_release w k))"
| "loop_do dumps sha moment resolve w (PrepareClear out automatic) = under_lease w (loop_prepare_clear w out automatic)"
| "loop_do dumps sha moment resolve w Bootstrap = under_lease w (loop_bootstrap w)"
| "loop_do dumps sha moment resolve w Acknowledge = under_lease w (loop_acknowledge w)"
| "loop_do dumps sha moment resolve w (Recover b s) = under_lease w (loop_recover w b s)"

definition new_desk :: loop_desk where
  "new_desk = \<lparr>lp_file = Missing, lp_minted = [], lp_moved = [], lp_counted = []\<rparr>"

definition loop_history :: "(pyv \<Rightarrow> string) \<Rightarrow> (string \<Rightarrow> string) \<Rightarrow> (string \<Rightarrow> int) \<Rightarrow> (string \<Rightarrow> string) \<Rightarrow> (loop_world \<times> loop_op) list \<Rightarrow> loop_desk" where
  "loop_history dumps sha moment resolve ops = fold (\<lambda>(w, p) d. snd (loop_do dumps sha moment resolve w p d)) ops new_desk"

end
