(* ===== verification/Loop_Safety.thy ===== *)
theory Loop_Safety
  imports Work_Loop
begin

text \<open>
  What every history of the loop journal keeps, whatever the files and the native exports answer and however a
  publication of the journal ends: grants stand on an admission that was justified, completions are earned, and the
  reservations in the journal exclude each other.
\<close>

section \<open>What is kept\<close>

definition justified :: "(pyv \<Rightarrow> string) \<Rightarrow> (string \<Rightarrow> string) \<Rightarrow> (string \<Rightarrow> int) \<Rightarrow> minted \<Rightarrow> bool" where
  "justified dumps sha moment m \<longleftrightarrow>
    (let g = mi_grant m; j = mi_journal m; data = mi_data m; t = gr_ticket g
     in (mi_paused m \<longrightarrow> gr_maintenance g)
      \<and> (''implementation'' \<in> set (gr_operations g) \<longrightarrow> set (prerequisites data t) \<subseteq> set (closed_ids data))
      \<and> (\<forall>r. gr_release g = Some r \<longrightarrow> released_by moment data t r = None)
      \<and> length (issues_named data t) = 1 \<and> \<not> doc_closed (the_issue data t) \<and> \<not> doc_gone (the_issue data t)
      \<and> t \<notin> set (excluded_scope data (lj_quarantine j)) \<and> \<not> unit_held j t (gr_unit g)
      \<and> epoch_completed j < 5 \<and> lj_reset j = None \<and> \<not> lj_awaiting j \<and> \<not> unreconciled j data
      \<and> gr_reservation g \<in> set (lj_reservations j) \<and> res_field (gr_reservation g) ''key'' = t
      \<and> res_field (gr_reservation g) ''kind'' = ''writer''
      \<and> gr_fingerprint g = fingerprint dumps sha data t (lj_goal j))"

definition sound_move :: "(pyv \<Rightarrow> string) \<Rightarrow> (string \<Rightarrow> string) \<Rightarrow> loop_move \<Rightarrow> bool" where
  "sound_move dumps sha v \<longleftrightarrow>
    (let known = map (\<lambda>c. text_at c ''id'') (ld_comments (mv_before v))
     in fingerprint dumps sha (beside (mv_after v) (mv_ticket v) known) (mv_ticket v) (mv_goal v)
      = fingerprint dumps sha (beside (mv_before v) (mv_ticket v) known) (mv_ticket v) (mv_goal v))"

definition moves_of :: "(pyv \<Rightarrow> string) \<Rightarrow> (string \<Rightarrow> string) \<Rightarrow> loop_move list \<Rightarrow> string \<Rightarrow> (string \<times> string) set" where
  "moves_of dumps sha vs ticket =
    (\<lambda>v. (fingerprint dumps sha (mv_before v) ticket (mv_goal v), fingerprint dumps sha (mv_after v) ticket (mv_goal v)))
      ` {v \<in> set vs. mv_ticket v = ticket}"

text \<open>A grant stands on the one that was minted when only the run's own transitions loop_move its fingerprint.\<close>

definition stands_on :: "(pyv \<Rightarrow> string) \<Rightarrow> (string \<Rightarrow> string) \<Rightarrow> loop_move list \<Rightarrow> grant \<Rightarrow> minted \<Rightarrow> bool" where
  "stands_on dumps sha vs g m \<longleftrightarrow> g = (mi_grant m)\<lparr>gr_fingerprint := gr_fingerprint g\<rparr>
     \<and> (gr_fingerprint (mi_grant m), gr_fingerprint g) \<in> (moves_of dumps sha vs (gr_ticket g))\<^sup>*"

definition implements :: "string \<Rightarrow> grant \<Rightarrow> bool" where
  "implements ticket g \<longleftrightarrow> gr_ticket g = ticket \<and> ''implementation'' \<in> set (gr_operations g)"

definition earned :: "minted list \<Rightarrow> counted \<Rightarrow> bool" where
  "earned ms c \<longleftrightarrow>
    (let data = cu_data c; t = cu_ticket c
     in doc_closed (the_issue data t) \<and> \<not> doc_gone (the_issue data t) \<and> \<not> is_parent data t
      \<and> t \<notin> set (excluded_scope data (lj_quarantine (cu_journal c))) \<and> (\<exists>m \<in> set ms. implements t (mi_grant m))
      \<and> (\<forall>p. cu_closeout c = Some p \<longrightarrow> co_required_open p = []))"

definition grants_ok :: "(pyv \<Rightarrow> string) \<Rightarrow> (string \<Rightarrow> string) \<Rightarrow> loop_desk \<Rightarrow> loop_journal \<Rightarrow> bool" where
  "grants_ok dumps sha d j \<longleftrightarrow> (\<forall>g. lj_admission j = Some g \<longrightarrow> (\<exists>m \<in> set (lp_minted d). stands_on dumps sha (lp_moved d) g m))
     \<and> (\<forall>(t, g) \<in> set (lj_admissions j). implements t g \<and> g \<in> mi_grant ` set (lp_minted d))"

definition counts_ok :: "loop_desk \<Rightarrow> loop_journal \<Rightarrow> bool" where
  "counts_ok d j \<longleftrightarrow> distinct (map fst (lj_completed j))
     \<and> (\<forall>(t, k) \<in> set (lj_completed j). \<exists>c \<in> set (lp_counted d). cu_ticket c = t \<and> cu_closeout c = cm_closeout k)"

definition held_apart :: "(string \<Rightarrow> string) \<Rightarrow> loop_journal \<Rightarrow> bool" where
  "held_apart resolve j \<longleftrightarrow> (case journal_reservations resolve j of Inl e \<Rightarrow> False | Inr rs \<Rightarrow> exclusive rs)"

definition journal_ok :: "(pyv \<Rightarrow> string) \<Rightarrow> (string \<Rightarrow> string) \<Rightarrow> (string \<Rightarrow> string) \<Rightarrow> loop_desk \<Rightarrow> loop_journal \<Rightarrow> bool" where
  "journal_ok dumps sha resolve d j \<longleftrightarrow> grants_ok dumps sha d j \<and> counts_ok d j \<and> held_apart resolve j"

definition records_ok :: "(pyv \<Rightarrow> string) \<Rightarrow> (string \<Rightarrow> string) \<Rightarrow> (string \<Rightarrow> int) \<Rightarrow> loop_desk \<Rightarrow> bool" where
  "records_ok dumps sha moment d \<longleftrightarrow> list_all (justified dumps sha moment) (lp_minted d) \<and> list_all (sound_move dumps sha) (lp_moved d)
     \<and> list_all (earned (lp_minted d)) (lp_counted d)"

definition loop_ok :: "(pyv \<Rightarrow> string) \<Rightarrow> (string \<Rightarrow> string) \<Rightarrow> (string \<Rightarrow> int) \<Rightarrow> (string \<Rightarrow> string) \<Rightarrow> loop_desk \<Rightarrow> bool" where
  "loop_ok dumps sha moment resolve d \<longleftrightarrow> records_ok dumps sha moment d
     \<and> (case lp_file d of Stored j \<Rightarrow> journal_ok dumps sha resolve d j | _ \<Rightarrow> True)"

section \<open>Reservations of the journal\<close>

lemma bind_Inr: "bind_res r f = Inr x \<longleftrightarrow> (\<exists>y. r = Inr y \<and> f y = Inr x)"
  by (cases r) auto

lemma res_text_at: "res_text d k = Inr s \<Longrightarrow> text_at d k = s"
  by (auto simp: res_text_def text_at_def split: option.splits pyv.splits if_splits)

lemma parsed_key: "parse_reservation resolve r = Inr s \<Longrightarrow> res_field r ''key'' = re_key s"
  by (auto simp: parse_reservation_def parse_writer_def parse_hold_def parse_preserved_def bind_Inr res_field_def
      dest!: res_text_at split: pyv.splits option.splits if_splits)

lemma fold_result_snoc: "fold_result f (xs @ [x]) = bind_res (fold_result f xs) (\<lambda>ys. bind_res (f x) (\<lambda>y. Inr (ys @ [y])))"
proof (induction xs)
  case (Cons a xs)
  then show ?case by (cases "f a"; cases "fold_result f xs"; cases "f x") auto
qed (cases "f x"; simp)

lemma fold_result_filter:
  assumes "\<And>x y. f x = Inr y \<Longrightarrow> P x = R y"
  shows "fold_result f xs = Inr ys \<Longrightarrow> fold_result f (filter P xs) = Inr (filter R ys)"
  by (induction xs arbitrary: ys) (auto simp: bind_Inr assms)

lemma apart_nil: "held_apart resolve (fresh_journal s g)"
  by (simp add: held_apart_def journal_reservations_def fresh_journal_def exclusive_def)

lemma apart_same: "lj_reservations k = lj_reservations j \<Longrightarrow> held_apart resolve k = held_apart resolve j"
  by (simp add: held_apart_def journal_reservations_def)

lemma apart_filter:
  assumes "held_apart resolve j" "lj_reservations k = filter (\<lambda>r. res_field r ''key'' \<noteq> key) (lj_reservations j)"
  shows "held_apart resolve k"
proof -
  obtain rs where rs: "fold_result (parse_reservation resolve) (lj_reservations j) = Inr rs" "exclusive rs"
    using assms(1) by (auto simp: held_apart_def journal_reservations_def split: sum.splits)
  have "fold_result (parse_reservation resolve) (lj_reservations k) = Inr (filter (\<lambda>r. re_key r \<noteq> key) rs)"
    unfolding assms(2) by (rule fold_result_filter[OF _ rs(1)]) (simp add: parsed_key)
  with rs(2) show ?thesis by (simp add: held_apart_def journal_reservations_def exclusive_filter)
qed

lemma apart_snoc:
  assumes "held_apart resolve j" "journal_reservations resolve j = Inr active" "parse_reservation resolve r = Inr candidate"
    "conflicts active candidate = []"
  shows "held_apart resolve (j\<lparr>lj_reservations := lj_reservations j @ [r]\<rparr>)"
  using assms by (simp add: held_apart_def journal_reservations_def fold_result_snoc exclusive_snoc)

section \<open>One journal to the next\<close>

lemmas desk_defs = journal_ok_def grants_ok_def counts_ok_def

lemma journal_ok_cong:
  assumes "lp_minted e = lp_minted d" "lp_moved e = lp_moved d" "lp_counted e = lp_counted d"
  shows "journal_ok dumps sha resolve e j = journal_ok dumps sha resolve d j"
  using assms by (simp add: desk_defs)

lemma stands_more: "stands_on dumps sha vs g m \<Longrightarrow> stands_on dumps sha (v # vs) g m"
proof -
  have "moves_of dumps sha vs t \<subseteq> moves_of dumps sha (v # vs) t" for t by (auto simp: moves_of_def)
  then show "stands_on dumps sha vs g m \<Longrightarrow> stands_on dumps sha (v # vs) g m"
    by (auto simp: stands_on_def dest: rtrancl_mono[THEN subsetD])
qed

lemma grants_more:
  assumes "grants_ok dumps sha d j" "set (lp_minted d) \<subseteq> set (lp_minted e)" "lp_moved e = lp_moved d \<or> (\<exists>v. lp_moved e = v # lp_moved d)"
  shows "grants_ok dumps sha e j"
  using assms stands_more unfolding grants_ok_def by fastforce

lemma counts_more:
  assumes "counts_ok d j" "set (lp_counted d) \<subseteq> set (lp_counted e)"
  shows "counts_ok e j"
  using assms unfolding counts_ok_def by fast

lemma stands_step:
  assumes "stands_on dumps sha vs g m" "(gr_fingerprint g, x) \<in> moves_of dumps sha vs (gr_ticket g)"
  shows "stands_on dumps sha vs (g\<lparr>gr_fingerprint := x\<rparr>) m"
proof -
  obtain f where g: "g = (mi_grant m)\<lparr>gr_fingerprint := f\<rparr>" and s: "(gr_fingerprint (mi_grant m), f) \<in> (moves_of dumps sha vs (gr_ticket g))\<^sup>*"
    using assms(1) unfolding stands_on_def by metis
  from s assms(2) have "(gr_fingerprint (mi_grant m), x) \<in> (moves_of dumps sha vs (gr_ticket g))\<^sup>*"
    unfolding g by (simp add: rtrancl_into_rtrancl)
  then show ?thesis unfolding g stands_on_def by simp
qed

text \<open>A change of the other fields.\<close>

definition same_claims :: "loop_journal \<Rightarrow> loop_journal \<Rightarrow> bool" where
  "same_claims j k \<longleftrightarrow> (lj_admission k = lj_admission j \<or> lj_admission k = None) \<and> lj_admissions k = lj_admissions j
     \<and> lj_completed k = lj_completed j \<and> lj_reservations k = lj_reservations j"

lemma journal_ok_same: "journal_ok dumps sha resolve d j \<Longrightarrow> same_claims j k \<Longrightarrow> journal_ok dumps sha resolve d k"
  using apart_same[of k j resolve] by (auto simp: desk_defs same_claims_def)

lemma earned_more: "earned ms c \<Longrightarrow> set ms \<subseteq> set ns \<Longrightarrow> earned ns c"
  by (auto simp: earned_def Let_def)

section \<open>Publications\<close>

definition keeps :: "(loop_desk \<Rightarrow> bool) \<Rightarrow> 'a loop_act \<Rightarrow> bool" where
  "keeps I m \<longleftrightarrow> (\<forall>d. I d \<longrightarrow> wp m (\<lambda>x. I) (\<lambda>e. I) d)"

lemma wp_l_result [simp]: "wp (l_result r) Q X d = (case r of Inl e \<Rightarrow> X e d | Inr x \<Rightarrow> Q x d)"
  by (simp add: l_result_def split: sum.split)

lemma wp_load: "wp loop_load Q X d = (case lp_file d of Stored j \<Rightarrow> Q j d | f \<Rightarrow> X ''FileNotFoundError'' d)"
  by (simp add: loop_load_def split: journal_file.split)

lemma wp_refuse [simp]: "wp (refuse_when cs) Q X d = (case find fst cs of None \<Rightarrow> Q () d | Some (b, e) \<Rightarrow> X e d)"
  by (simp add: refuse_when_def split: option.split prod.split)

lemma wp_lease [simp]: "wp (under_lease w m) Q X d = (if lw_lease w then wp m Q X d else X ''lease-conflict'' d)"
  by (simp add: under_lease_def)

lemma wp_void [simp]: "wp (m_void m) Q X = wp m (\<lambda>x. Q ()) X"
  by (simp add: m_void_def)

lemma loop_ok_file: "records_ok dumps sha moment d \<Longrightarrow> journal_ok dumps sha resolve d j \<Longrightarrow> loop_ok dumps sha moment resolve (d\<lparr>lp_file := Stored j\<rparr>)"
  by (simp add: loop_ok_def records_ok_def journal_ok_cong[of "d\<lparr>lp_file := Stored j\<rparr>" d])

lemma loop_ok_strand: "loop_ok dumps sha moment resolve d \<Longrightarrow> loop_ok dumps sha moment resolve (d\<lparr>lp_file := Stranded\<rparr>)"
  by (simp add: loop_ok_def records_ok_def)

lemma wp_loop_save:
  assumes "loop_ok dumps sha moment resolve d" "journal_ok dumps sha resolve d k"
    "\<And>u. loop_ok dumps sha moment resolve u \<Longrightarrow> journal_ok dumps sha resolve u k \<Longrightarrow> Q () u"
    "\<And>e u. loop_ok dumps sha moment resolve u \<Longrightarrow> X e u"
  shows "wp (loop_save a k) Q X d"
proof -
  have r: "records_ok dumps sha moment d" using assms(1) by (simp add: loop_ok_def)
  have "journal_ok dumps sha resolve (d\<lparr>lp_file := f\<rparr>) k" for f
    using assms(2) by (simp add: journal_ok_cong[of "d\<lparr>lp_file := f\<rparr>" d])
  with assms loop_ok_file[OF r assms(2)] loop_ok_strand[OF assms(1)] show ?thesis
    by (simp add: loop_save_def l_store_def split: save_answer.split)
qed

text \<open>Operations that change nothing the claims are about.\<close>

lemma keeps_load:
  assumes "\<And>j d. loop_ok dumps sha moment resolve d \<Longrightarrow> journal_ok dumps sha resolve d j \<Longrightarrow> lp_file d = Stored j
    \<Longrightarrow> wp (f j) (\<lambda>x. loop_ok dumps sha moment resolve) (\<lambda>e. loop_ok dumps sha moment resolve) d"
  shows "keeps (loop_ok dumps sha moment resolve) (m_bind loop_load f)"
  using assms by (auto simp: keeps_def wp_load loop_ok_def split: journal_file.split)

lemma wp_save_same:
  assumes "loop_ok dumps sha moment resolve d" "journal_ok dumps sha resolve d j" "same_claims j k"
    "\<And>u. loop_ok dumps sha moment resolve u \<Longrightarrow> journal_ok dumps sha resolve u j \<Longrightarrow> Q () u"
    "\<And>e u. loop_ok dumps sha moment resolve u \<Longrightarrow> X e u"
  shows "wp (loop_save a k) Q X d"
proof -
  have r: "records_ok dumps sha moment d" using assms(1) by (simp add: loop_ok_def)
  have k: "journal_ok dumps sha resolve d k" by (rule journal_ok_same[OF assms(2,3)])
  have "journal_ok dumps sha resolve (d\<lparr>lp_file := f\<rparr>) j" for f
    using assms(2) by (simp add: journal_ok_cong[of "d\<lparr>lp_file := f\<rparr>" d])
  with assms loop_ok_file[OF r k] loop_ok_strand[OF assms(1)] show ?thesis
    by (simp add: loop_save_def l_store_def split: save_answer.split)
qed

lemma keeps_request: "keeps (loop_ok dumps sha moment resolve) (loop_request_reset w e)"
  unfolding loop_request_reset_def by (rule keeps_load) (auto simp: same_claims_def intro!: wp_save_same)

lemma keeps_review: "keeps (loop_ok dumps sha moment resolve) (loop_review w t arc imps u)"
  unfolding loop_review_def
  by (rule keeps_load) (auto simp: Let_def same_claims_def hold_reviewed_def split: sum.split option.split intro!: wp_save_same)

lemma wp_budget:
  assumes "loop_ok dumps sha moment resolve d" "journal_ok dumps sha resolve d j" "Q () d" "\<And>e u. loop_ok dumps sha moment resolve u \<Longrightarrow> X e u"
  shows "wp (startup_budget w j) Q X d"
  using assms by (auto simp: startup_budget_def same_claims_def split: startup_answer.split intro!: wp_save_same)

lemma keeps_startup: "keeps (loop_ok dumps sha moment resolve) (loop_finish_startup w)"
  unfolding loop_finish_startup_def
  by (rule keeps_load) (auto simp: same_claims_def split: sum.split option.split intro!: wp_save_same wp_budget)

lemma keeps_check: "keeps (loop_ok dumps sha moment resolve) (loop_check dumps sha w a p ts)"
  unfolding loop_check_def by (rule keeps_load) (auto split: sum.split)

lemma keeps_selection: "keeps (loop_ok dumps sha moment resolve) (loop_selection w a)"
  unfolding loop_selection_def by (rule keeps_load) (auto split: sum.split)

lemma keeps_prepare: "keeps (loop_ok dumps sha moment resolve) (loop_prepare_clear w out automatic)"
  unfolding loop_prepare_clear_def
  by (rule keeps_load) (auto simp: Let_def same_claims_def split: sum.split option.split intro!: wp_save_same)

lemma keeps_bootstrap: "keeps (loop_ok dumps sha moment resolve) (loop_bootstrap w)"
  unfolding loop_bootstrap_def
  by (rule keeps_load) (auto simp: Let_def same_claims_def bootstrapped_def split: sum.split option.split intro!: wp_save_same)

lemma keeps_acknowledge: "keeps (loop_ok dumps sha moment resolve) (loop_acknowledge w)"
  unfolding loop_acknowledge_def
  by (rule keeps_load) (auto simp: same_claims_def split: option.split intro!: wp_save_same)

lemma keeps_recover: "keeps (loop_ok dumps sha moment resolve) (loop_recover w b s)"
  unfolding loop_recover_def
  by (rule keeps_load) (auto simp: same_claims_def split: sum.split option.split intro!: wp_save_same)

lemma keeps_release: "keeps (loop_ok dumps sha moment resolve) (loop_release w key)"
  unfolding loop_release_def
proof (rule keeps_load, goal_cases)
  case (1 j d)
  let ?k = "j\<lparr>lj_reservations := filter (\<lambda>r. res_field r ''key'' \<noteq> key) (lj_reservations j)\<rparr>"
  have "journal_ok dumps sha resolve d ?k"
    using 1 apart_filter[of resolve j ?k key] by (simp add: desk_defs)
  with 1 show ?case by (auto simp: Let_def intro!: wp_loop_save)
qed

lemma keeps_reserve: "keeps (loop_ok dumps sha moment resolve) (loop_reserve resolve w r)"
proof (cases "parse_reservation resolve r")
  case (Inr c)
  have "keeps (loop_ok dumps sha moment resolve) (m_bind loop_load (\<lambda>j.
     m_bind (l_result (journal_reservations resolve j)) (\<lambda>active.
     m_then (m_unless (conflicts active c \<noteq> []) ''reservation-held'')
     (m_then (loop_save (lw_saves w 0) (j\<lparr>lj_reservations := lj_reservations j @ [r]\<rparr>)) (m_ret (re_key c))))))"
  proof (rule keeps_load, goal_cases)
    case (1 j d)
    have "journal_ok dumps sha resolve d (j\<lparr>lj_reservations := lj_reservations j @ [r]\<rparr>)"
      if "journal_reservations resolve j = Inr active" "conflicts active c = []" for active
      using 1 apart_snoc[OF _ that(1) Inr that(2)] by (simp add: desk_defs)
    with 1 show ?case by (auto split: sum.split intro!: wp_loop_save)
  qed
  with Inr show ?thesis by (simp add: keeps_def loop_reserve_def)
qed (simp add: keeps_def loop_reserve_def)

lemma keeps_initialize: "keeps (loop_ok dumps sha moment resolve) (loop_initialize w s g)"
proof -
  have "journal_ok dumps sha resolve d (fresh_journal s g)" for d
    using apart_nil[of resolve s g] by (simp add: desk_defs fresh_journal_def)
  then show ?thesis by (auto simp: keeps_def loop_initialize_def split: sum.split option.split intro!: wp_loop_save)
qed

section \<open>Counting, admitting, moving\<close>

lemma journal_ok_counted:
  assumes "journal_ok dumps sha resolve d j" "ticket \<notin> set (map fst (lj_completed j))" "cu_ticket c = ticket" "cu_closeout c = cm_closeout m"
  shows "journal_ok dumps sha resolve (d\<lparr>lp_counted := c # lp_counted d\<rparr>) (completed_with j ticket m)"
proof -
  let ?k = "completed_with j ticket m"
  have "held_apart resolve ?k" using assms(1) apart_filter[of resolve j ?k ticket] by (simp add: desk_defs completed_with_def)
  with assms show ?thesis by (auto simp: desk_defs completed_with_def split: option.splits if_splits)
qed

lemma wp_closeout:
  assumes "\<And>p. (\<forall>q. p = Some q \<longrightarrow> co_required_open q = []) \<Longrightarrow> Q p d" "\<And>e. X e d"
  shows "wp (completion_closeout w ticket given) Q X d"
  using assms by (auto simp: completion_closeout_def split: sum.split)

lemma records_counted:
  assumes "records_ok dumps sha moment d" "earned (lp_minted d) c"
  shows "records_ok dumps sha moment (d\<lparr>lp_counted := c # lp_counted d\<rparr>)"
  using assms by (simp add: records_ok_def)

lemma earned_intro:
  assumes "grants_ok dumps sha d j" "map_of (lj_admissions j) ticket = Some g" "gr_ticket g = ticket"
    "ticket \<notin> set (excluded_scope data (lj_quarantine j))" "doc_closed (the_issue data ticket)" "\<not> doc_gone (the_issue data ticket)"
    "\<not> is_parent data ticket" "\<forall>q. p = Some q \<longrightarrow> co_required_open q = []"
  shows "earned (lp_minted d) \<lparr>cu_ticket = ticket, cu_journal = j, cu_data = data, cu_closeout = p\<rparr>"
proof -
  have "implements ticket g" "g \<in> mi_grant ` set (lp_minted d)"
    using map_of_SomeD[OF assms(2)] assms(1) by (auto simp: grants_ok_def)
  with assms(4-8) show ?thesis by (auto simp: earned_def)
qed

lemma wp_count:
  assumes "loop_ok dumps sha moment resolve d" "journal_ok dumps sha resolve d j" "ticket \<notin> set (map fst (lj_completed j))"
    "doc_closed (the_issue data ticket)" "\<not> doc_gone (the_issue data ticket)" "\<not> is_parent data ticket"
  shows "wp (count_leaf w j data ticket given) (\<lambda>x. loop_ok dumps sha moment resolve) (\<lambda>e. loop_ok dumps sha moment resolve) d"
proof -
  have save: "wp (loop_save a (completed_with j ticket m)) (\<lambda>x. loop_ok dumps sha moment resolve) (\<lambda>e. loop_ok dumps sha moment resolve)
      (d\<lparr>lp_counted := c # lp_counted d\<rparr>)"
    if "map_of (lj_admissions j) ticket = Some g" "gr_ticket g = ticket" "ticket \<notin> set (excluded_scope data (lj_quarantine j))"
      "\<forall>q. cm_closeout m = Some q \<longrightarrow> co_required_open q = []"
      "c = \<lparr>cu_ticket = ticket, cu_journal = j, cu_data = data, cu_closeout = cm_closeout m\<rparr>" for a m c g
  proof -
    have "grants_ok dumps sha d j" using assms(2) by (simp add: journal_ok_def)
    from earned_intro[OF this that(1-3) assms(4-6) that(4)] have "earned (lp_minted d) c" using that(5) by simp
    then have r: "records_ok dumps sha moment (d\<lparr>lp_counted := c # lp_counted d\<rparr>)" using assms(1) by (simp add: records_counted loop_ok_def)
    have "journal_ok dumps sha resolve (d\<lparr>lp_counted := c # lp_counted d\<rparr>) k" if "journal_ok dumps sha resolve d k" for k
      using that counts_more[of d k "d\<lparr>lp_counted := c # lp_counted d\<rparr>"] by (auto simp: journal_ok_def grants_ok_def)
    then have "loop_ok dumps sha moment resolve (d\<lparr>lp_counted := c # lp_counted d\<rparr>)"
      using r assms(1) by (auto simp: loop_ok_def split: journal_file.split)
    then show ?thesis using journal_ok_counted[OF assms(2,3), of c m] that(5) by (auto intro!: wp_loop_save)
  qed
  show ?thesis
  proof (cases "\<exists>g. map_of (lj_admissions j) ticket = Some g \<and> gr_ticket g = ticket")
    case True
    then obtain g where g: "map_of (lj_admissions j) ticket = Some g" "gr_ticket g = ticket" by blast
    show ?thesis unfolding count_leaf_def
      by (simp add: assms(1) Let_def g split: option.split) (auto intro!: wp_closeout save[OF g] simp: assms(1))
  qed (use assms(1) in \<open>auto simp: count_leaf_def split: option.split\<close>)
qed

lemma keeps_complete: "keeps (loop_ok dumps sha moment resolve) (loop_complete w ticket given)"
  unfolding loop_complete_def by (rule keeps_load) (auto simp: wp_count split: sum.split)

lemma set_update: "set (AList.update k v al) \<subseteq> insert (k, v) (set al)"
  by (induction al) auto

definition proper :: "clearance \<Rightarrow> bool" where
  "proper c \<longleftrightarrow> (case c of Implementation \<Rightarrow> True | Preparation os r \<Rightarrow> set os \<subseteq> set preparation_operations)"

lemma clearance_proper: "clearance_of x = Inr c \<Longrightarrow> proper c"
  by (auto simp: clearance_of_def parse_preparation_def proper_def split: option.splits prod.splits if_splits pyv.splits list.splits)

lemma proper_implementation: "proper c \<Longrightarrow> ''implementation'' \<in> set (cl_operations c) \<Longrightarrow> c = Implementation"
  by (cases c) (auto simp: proper_def cl_operations_def preparation_operations_def)

lemma wp_ticket_gate:
  assumes "\<And>issuer r. ticket \<notin> set (excluded_scope data (lj_quarantine j)) \<Longrightarrow> \<not> unit_held j ticket unit
      \<Longrightarrow> clearance_admits moment c data ticket (open_dependencies data ticket) = None \<Longrightarrow> recorded_writer j ticket = Inr r
      \<Longrightarrow> \<not> doc_closed (the_issue data ticket) \<Longrightarrow> \<not> doc_gone (the_issue data ticket) \<Longrightarrow> Q (issuer, r) d"
    "\<And>e. X e d"
  shows "wp (ticket_gate moment w j data ticket unit c) Q X d"
  using assms by (simp add: ticket_gate_def split: option.split sum.split)

lemma writer_recorded: "recorded_writer j ticket = Inr r \<Longrightarrow>
    r \<in> set (lj_reservations j) \<and> res_field r ''key'' = ticket \<and> res_field r ''kind'' = ''writer''"
  by (auto simp: recorded_writer_def filter_eq_Cons_iff split: list.splits)

lemma read_one: "lit_read doc ticket = Inr data \<Longrightarrow> length (issues_named data ticket) = 1"
  by (auto simp: lit_read_def Let_def split: option.splits pyv.splits if_splits)

lemma mint_justified:
  assumes "ticket \<notin> set (excluded_scope data (lj_quarantine j))" "\<not> unit_held j ticket unit"
    "clearance_admits moment c data ticket (open_dependencies data ticket) = None" "recorded_writer j ticket = Inr r"
    "\<not> doc_closed (the_issue data ticket)" "\<not> doc_gone (the_issue data ticket)" "proper c" "lit_read doc ticket = Inr data"
    "paused \<longrightarrow> maintenance" "\<not> unreconciled j data" "\<not> lj_awaiting j" "\<not> context_full j maintenance headroom"
  shows "justified dumps sha moment \<lparr>mi_grant = mint_grant dumps sha w j data ticket maintenance unit c r issuer digest,
    mi_clearance = c, mi_journal = j, mi_data = data, mi_paused = paused\<rparr>"
proof -
  have "set (prerequisites data ticket) \<subseteq> set (closed_ids data)" if "''implementation'' \<in> set (cl_operations c)"
    using proper_implementation[OF assms(7) that] assms(3) by (simp add: clearance_admits_def open_dependencies_none split: if_splits)
  moreover have "released_by moment data ticket x = None" if "cl_release c = Some x" for x
    using that assms(3) by (simp add: cl_release_def clearance_admits_def split: clearance.splits)
  ultimately show ?thesis
    using assms writer_recorded[OF assms(4)] read_one[OF assms(8)]
    by (simp add: justified_def mint_grant_def context_full_def)
qed

lemma journal_ok_admitted:
  assumes "journal_ok dumps sha resolve d j" "mi_grant m = g"
  shows "journal_ok dumps sha resolve (d\<lparr>lp_minted := m # lp_minted d\<rparr>) (grant_admitted j g)"
proof -
  let ?e = "d\<lparr>lp_minted := m # lp_minted d\<rparr>"
  have "grants_ok dumps sha ?e j" using assms(1) by (auto simp: journal_ok_def intro: grants_more)
  moreover have "stands_on dumps sha (lp_moved ?e) g m" using assms(2) by (auto simp: stands_on_def)
  ultimately have "grants_ok dumps sha ?e (grant_admitted j g)"
    using set_update[of "gr_ticket g" g "lj_admissions j"] assms(2) by (auto simp: grants_ok_def grant_admitted_def implements_def)
  with assms(1) apart_same[of "grant_admitted j g" j resolve] show ?thesis by (simp add: journal_ok_def counts_ok_def grant_admitted_def)
qed

lemma loop_ok_minted:
  assumes "loop_ok dumps sha moment resolve d" "justified dumps sha moment m"
  shows "loop_ok dumps sha moment resolve (d\<lparr>lp_minted := m # lp_minted d\<rparr>)"
proof -
  let ?e = "d\<lparr>lp_minted := m # lp_minted d\<rparr>"
  have "records_ok dumps sha moment ?e"
    using assms by (auto simp: loop_ok_def records_ok_def list_all_iff intro: earned_more)
  moreover have "journal_ok dumps sha resolve ?e j" if "journal_ok dumps sha resolve d j" for j
    using that by (auto simp: journal_ok_def counts_ok_def intro: grants_more)
  ultimately show ?thesis using assms(1) by (auto simp: loop_ok_def split: journal_file.split)
qed

lemma wp_startup_gate:
  assumes "loop_ok dumps sha moment resolve d" "journal_ok dumps sha resolve d j" "Q () d" "\<And>e u. loop_ok dumps sha moment resolve u \<Longrightarrow> X e u"
  shows "wp (startup_gate w j) Q X d"
  using assms by (auto simp: startup_gate_def intro!: wp_budget)

lemma wp_headroom_gate:
  assumes "loop_ok dumps sha moment resolve d" "journal_ok dumps sha resolve d j" "\<not> context_full j mt hr \<Longrightarrow> Q () d"
    "\<And>e u. loop_ok dumps sha moment resolve u \<Longrightarrow> X e u"
  shows "wp (headroom_gate w j mt hr) Q X d"
  using assms by (auto simp: headroom_gate_def same_claims_def intro!: wp_save_same)

lemma keeps_begin:
  assumes "proper c"
  shows "keeps (loop_ok dumps sha moment resolve) (loop_begin dumps sha moment w t mt hr u c)"
  unfolding loop_begin_def
proof (rule keeps_load, goal_cases)
  case (1 j d)
  have save: "wp (loop_save a (grant_admitted j g)) (\<lambda>x. loop_ok dumps sha moment resolve) (\<lambda>e. loop_ok dumps sha moment resolve)
      (d\<lparr>lp_minted := m # lp_minted d\<rparr>)" if "justified dumps sha moment m" "mi_grant m = g" for a m g
    using loop_ok_minted[OF 1(1) that(1)] journal_ok_admitted[OF 1(2) that(2)] by (auto intro!: wp_loop_save)
  from 1 show ?case
    by (auto simp: Let_def split: sum.split option.split
        intro!: wp_startup_gate wp_headroom_gate wp_ticket_gate save mint_justified[OF _ _ _ _ _ _ assms, where headroom = hr])
qed

text \<open>A transition.\<close>

lemma current_facts:
  assumes "current_grant dumps sha w j a p ts = Inr (g, data)"
  shows "lj_admission j = Some g" "gr_id g = a" "set ts \<subseteq> {gr_ticket g}" "p \<in> set (gr_operations g)"
    "\<exists>r \<in> set (lj_reservations j). res_field r ''key'' = gr_ticket g \<and> res_field r ''kind'' = ''writer'' \<and> same_record r (gr_reservation g)"
    "lit_read (lw_export w) (gr_ticket g) = Inr data" "gr_fingerprint g = fingerprint dumps sha data (gr_ticket g) (lj_goal j)"
    "lw_digest w = Some (gr_control g)"
  using assms writer_recorded
  by (fastforce simp: current_grant_def clear_grant_def granted_def bind_Inr split: option.splits if_splits)+

lemma keeps_transition: "keeps (loop_ok dumps sha moment resolve) (loop_transition dumps sha w a p t)"
  unfolding loop_transition_def
proof (rule keeps_load, goal_cases)
  case (1 j d)
  have save: "wp (loop_save sv (j\<lparr>lj_admission := Some (g\<lparr>gr_fingerprint := fingerprint dumps sha after t (lj_goal j)\<rparr>)\<rparr>))
      (\<lambda>x. loop_ok dumps sha moment resolve) (\<lambda>e. loop_ok dumps sha moment resolve) (d\<lparr>lp_moved := v # lp_moved d\<rparr>)"
    if c: "current_grant dumps sha w j a p [t] = Inr (g, before)" and m: "sound_move dumps sha v"
      and v: "v = \<lparr>mv_ticket = t, mv_goal = lj_goal j, mv_before = before, mv_after = after\<rparr>" for sv g before after v
  proof -
    let ?e = "d\<lparr>lp_moved := v # lp_moved d\<rparr>" and ?g = "g\<lparr>gr_fingerprint := fingerprint dumps sha after t (lj_goal j)\<rparr>"
    have t: "gr_ticket g = t" "gr_fingerprint g = fingerprint dumps sha before t (lj_goal j)" using current_facts(3,7)[OF c] by auto
    have more: "grants_ok dumps sha ?e k" if "grants_ok dumps sha d k" for k using that by (auto intro: grants_more)
    obtain x where x: "x \<in> set (lp_minted d)" "stands_on dumps sha (lp_moved d) g x"
      using 1(2) current_facts(1)[OF c] by (auto simp: desk_defs)
    have "(gr_fingerprint g, gr_fingerprint ?g) \<in> moves_of dumps sha (v # lp_moved d) t"
      unfolding moves_of_def using t v by (intro image_eqI[of _ _ v]) simp_all
    with stands_step[OF stands_more[OF x(2), of v]] t(1) have "stands_on dumps sha (lp_moved ?e) ?g x" by simp
    with more[of j] x(1) 1(2) have "journal_ok dumps sha resolve ?e (j\<lparr>lj_admission := Some ?g\<rparr>)"
      using apart_same[of "j\<lparr>lj_admission := Some ?g\<rparr>" j resolve] by (auto simp: journal_ok_def counts_ok_def grants_ok_def)
    moreover have "loop_ok dumps sha moment resolve ?e"
      using 1(1) m more by (auto simp: loop_ok_def records_ok_def journal_ok_def counts_ok_def split: journal_file.split)
    ultimately show ?thesis by (auto intro!: wp_loop_save)
  qed
  from 1 show ?case by (auto simp: Let_def sound_move_def split: sum.split intro!: save)
qed

section \<open>Histories\<close>

lemma keeps_do: "keeps (loop_ok dumps sha moment resolve) (loop_do dumps sha moment resolve w p)"
proof -
  have k: "keeps I m \<Longrightarrow> keeps I (under_lease w (m_void m))" "keeps I n \<Longrightarrow> keeps I (under_lease w n)" for I and m :: "'x loop_act" and n
    by (simp_all add: keeps_def)
  show ?thesis
  proof (cases p)
    case (Begin t mt hr u c)
    then show ?thesis using keeps_begin[OF clearance_proper[of c]] by (auto simp: keeps_def split: sum.split)
  next
    case (ReserveOp r)
    then show ?thesis using keeps_reserve by (simp add: keeps_def)
  qed (simp_all add: keeps_initialize keeps_request keeps_startup keeps_check keeps_transition keeps_selection keeps_complete
      keeps_review keeps_release keeps_prepare keeps_bootstrap keeps_acknowledge keeps_recover k)
qed

lemma loop_history_ok: "loop_ok dumps sha moment resolve (loop_history dumps sha moment resolve ops)"
proof -
  have step: "loop_ok dumps sha moment resolve (snd (loop_do dumps sha moment resolve w p d))" if "loop_ok dumps sha moment resolve d" for w p d
    using keeps_do[of dumps sha moment resolve w p] that
    by (cases "loop_do dumps sha moment resolve w p d") (auto simp: keeps_def wp_def split: sum.splits)
  have "loop_ok dumps sha moment resolve d \<Longrightarrow> loop_ok dumps sha moment resolve (fold (\<lambda>(w, p) d. snd (loop_do dumps sha moment resolve w p d)) ops d)" for d
    by (induction ops arbitrary: d) (auto simp: step split: prod.split)
  moreover have "loop_ok dumps sha moment resolve new_desk" by (simp add: loop_ok_def records_ok_def new_desk_def)
  ultimately show ?thesis by (simp add: loop_history_def)
qed

text \<open>C37: Whatever happened before, an effect is cleared only under the journal's one grant, for its own ticket and an
  operation it names, with its writer still reserved, the routing file as it was bound and the ticket's scope as it was
  grant_admitted, up to transitions of the run itself that changed nothing beside them. That grant was minted when production
  was not paused or for maintenance, outside every quarantine, within the five tickets of an epoch, with nothing closed
  left uncounted, and for implementation only with every prerequisite closed, for preparation only under the
  release its human gate closed on.\<close>

theorem effects_admitted:
  "case loop_check dumps sha w admission operation tickets (loop_history dumps sha moment resolve ops) of
     (Inl e, d) \<Rightarrow> d = loop_history dumps sha moment resolve ops
   | (Inr g, d) \<Rightarrow> gr_id g = admission \<and> set tickets \<subseteq> {gr_ticket g} \<and> operation \<in> set (gr_operations g)
       \<and> lw_digest w = Some (gr_control g)
       \<and> (\<exists>j data. lp_file d = Stored j \<and> lit_read (lw_export w) (gr_ticket g) = Inr data
            \<and> gr_fingerprint g = fingerprint dumps sha data (gr_ticket g) (lj_goal j)
            \<and> (\<exists>r \<in> set (lj_reservations j). res_field r ''key'' = gr_ticket g \<and> res_field r ''kind'' = ''writer'' \<and> same_record r (gr_reservation g)))
       \<and> (\<exists>m \<in> set (lp_minted d). stands_on dumps sha (lp_moved d) g m \<and> justified dumps sha moment m)
       \<and> list_all (sound_move dumps sha) (lp_moved d)"
proof -
  let ?d = "loop_history dumps sha moment resolve ops"
  have ok: "loop_ok dumps sha moment resolve ?d" by (rule loop_history_ok)
  have "wp (loop_check dumps sha w admission operation tickets)
      (\<lambda>g d. d = ?d \<and> (\<exists>j data. lp_file d = Stored j \<and> current_grant dumps sha w j admission operation tickets = Inr (g, data))) (\<lambda>e d. d = ?d) ?d"
    by (auto simp: loop_check_def wp_load split: journal_file.split sum.split)
  moreover have "\<exists>m \<in> set (lp_minted ?d). stands_on dumps sha (lp_moved ?d) g m \<and> justified dumps sha moment m"
    if "lp_file ?d = Stored j" "lj_admission j = Some g" for j g
    using ok that unfolding loop_ok_def records_ok_def journal_ok_def grants_ok_def list_all_iff by fastforce
  moreover have "list_all (sound_move dumps sha) (lp_moved ?d)" using ok by (simp add: loop_ok_def records_ok_def)
  ultimately show ?thesis
    by (fastforce simp: wp_def dest: current_facts split: prod.splits sum.splits)
qed


text \<open>C39: In every journal the reservations exclude each other: whatever is reserved, released or completed in any order, no
  two share a checkout, a resource or a file both may write, and no author of active work reviews another's.\<close>

theorem journal_exclusive:
  "case lp_file (loop_history dumps sha moment resolve ops) of
     Stored j \<Rightarrow> (case journal_reservations resolve j of Inr rs \<Rightarrow> exclusive rs | Inl e \<Rightarrow> False)
   | _ \<Rightarrow> True"
  using loop_history_ok[of dumps sha moment resolve ops]
  by (auto simp: loop_ok_def journal_ok_def held_apart_def split: journal_file.splits sum.splits)

section \<open>Witnesses\<close>

text \<open>A digest that shows which issues are closed, enough for concrete histories.\<close>

definition shows_closed :: "pyv \<Rightarrow> string" where
  "shows_closed v = (case v of
     VDict ((k, VList is) # es) \<Rightarrow> concat (map (\<lambda>i. case i of VDict d \<Rightarrow> text_at d ''status'' | _ \<Rightarrow> []) is)
   | _ \<Rightarrow> [])"

definition demo_export :: "string \<Rightarrow> pyv" where
  "demo_export status = VDict [(''version'', VInt 2), (''comments'', VList []), (''relations'', VList []),
     (''issues'', VList [VDict [(''id'', VStr ''t1''), (''status'', VStr status)], VDict [(''id'', VStr ''g''), (''status'', VStr ''open'')]])]"

definition demo_control :: "bool \<Rightarrow> pyv" where
  "demo_control paused = VDict [(''repair_paused'', VBool paused),
     (''sessions'', VList [VDict [(''role'', VStr ''buford''), (''session_id'', VStr ''s1'')]])]"

definition demo_world :: "bool \<Rightarrow> string \<Rightarrow> string \<Rightarrow> loop_world" where
  "demo_world paused digest status = \<lparr>lw_lease = True, lw_control = Some (demo_control paused), lw_digest = Some digest,
     lw_export = Some (demo_export status), lw_after = Some (demo_export ''in_progress''), lw_write = True, lw_saves = (\<lambda>n. Saves), lw_identity = None,
     lw_holder = False, lw_budget = WithinBudget, lw_id = ''a1'', lw_evidence = Some ''e'', lw_closeout = None,
     lw_membership = Inr ''legacy'', lw_review = None, lw_commands = [True, True], lw_bound = True, lw_verified = True,
     lw_idle = True, lw_proof = None, lw_timely = True, lw_accepted = True\<rparr>"

definition demo_writer :: pyv where
  "demo_writer = VDict [(''kind'', VStr ''writer''), (''key'', VStr ''t1''), (''owner'', VStr ''a''), (''reviewer'', VStr ''b''),
     (''worktree'', VStr ''/w''), (''paths'', VList [VStr ''ops/x.py'']), (''resources'', VList [])]"

definition demo_history :: "(loop_world \<times> loop_op) list" where
  "demo_history = (let w = demo_world False ''c0'' ''open'' in
     [(w, Initialize ''s1'' ''g''), (w, ReserveOp demo_writer), (w, Begin ''t1'' False True None None),
      (w, Transition ''a1'' ''implementation'' ''t1'')])"

lemma demo_check:
  "case loop_check shows_closed id (demo_world False ''c0'' ''in_progress'') ''a1'' ''implementation'' [''t1'']
      (loop_history shows_closed id (\<lambda>s. 0) id demo_history) of
    (Inr g, d) \<Rightarrow> gr_ticket g = ''t1'' | _ \<Rightarrow> False"
  by code_simp

lemma demo_count:
  "case lp_file (loop_history shows_closed id (\<lambda>s. 0) id (demo_history @ [(demo_world False ''c0'' ''closed'', Complete ''t1'' False)])) of
    Stored j \<Rightarrow> map fst (lj_completed j) = [''t1''] \<and> lj_reservations j = [] | _ \<Rightarrow> False"
  by code_simp

theorem effects_admitted_witness:
  "\<exists>g d. loop_check shows_closed id (demo_world False ''c0'' ''in_progress'') ''a1'' ''implementation'' [''t1'']
      (loop_history shows_closed id (\<lambda>s. 0) id demo_history) = (Inr g, d)
    \<and> (\<exists>m \<in> set (lp_minted d). stands_on shows_closed id (lp_moved d) g m \<and> justified shows_closed id (\<lambda>s. 0) m)"
  using demo_check effects_admitted[where dumps = shows_closed and sha = id and w = "demo_world False ''c0'' ''in_progress''" and admission = "''a1''"
      and operation = "''implementation''" and tickets = "[''t1'']" and moment = "\<lambda>s. 0" and resolve = id and ops = demo_history]
  by (auto split: prod.splits sum.splits)


text \<open>A pause can be missed: \<open>begin\<close> reads the control file first and its digest only after the native export. A pause
  written between the two is part of the digest the grant is bound to, so the grant of an unpaused reading clears
  effects for as long as production stays paused.\<close>

theorem pause_missed:
  "case loop_check shows_closed id (demo_world True ''paused'' ''open'') ''a1'' ''implementation'' [''t1'']
      (loop_history shows_closed id (\<lambda>s. 0) id
        [(demo_world False ''unpaused'' ''open'', Initialize ''s1'' ''g''), (demo_world False ''unpaused'' ''open'', ReserveOp demo_writer),
         (demo_world False ''paused'' ''open'', Begin ''t1'' False True None None)]) of
    (Inr g, d) \<Rightarrow> \<not> gr_maintenance g \<and> (\<exists>m \<in> set (lp_minted d). mi_grant m = g \<and> \<not> mi_paused m) | _ \<Rightarrow> False"
  by code_simp

end
