(* ===== verification/Spec2Isabelle.thy ===== *)
theory Spec2Isabelle
  imports Authorization Projections Inventory_Catalog Voice_Candidates Voice_Session Voice_Dictation
    Voice_Control Coordinator_Safety Menu_Executor Provider_Safety
    Conversation_Safety Tts_Safety Work_Safety Work_Records Loop_Safety
begin

text \<open>
  \<^bold>\<open>Arhugula Omarchy: a verified model of the desktop runtime.\<close>

  The program under \<open>src/runtime/\<close> turns requests of a user, typed or spoken, into actions on the desktop
  under a policy. A \<^emph>\<open>control plane\<close> receives commands, decides whether the catalog, the profile and the
  policy allow them, runs them through an injected executor and records intent and completion in an
  append-only \<^emph>\<open>journal\<close>. Everything that crosses a boundary is a versioned \<^emph>\<open>record\<close> that is validated
  against a bundled JSON schema. A \<^emph>\<open>voice\<close> subsystem captures audio, has it transcribed by a worker
  process, matches the text against the known actions and hands the result to the control plane; it can
  also dictate text, speak prompts and be driven through a local socket. A \<^emph>\<open>gateway\<close> admits requests for
  models of a host.

  \<^bold>\<open>Theories and the code they model\<close>

  \<^item> \<open>Py_Prelude\<close>: Python values (\<open>pyv\<close>), exact floats, dictionaries as association lists, frozen
    copies, canonical values, text classes, and the lemmas all other theories share.
  \<^item> \<open>Contract_Schema\<close>, \<open>Contracts\<close> (\<open>contracts.py\<close>, \<open>schemas/\<close>): the schema checker, the tables of the
    bundled schema, the ten record types, \<open>decode\<close>, \<open>encode\<close>, \<open>loads\<close>. Shown: decoding is total and yields
    only records whose fields agree with the payload; what is encoded decodes to the frozen record.
  \<^item> \<open>Journal\<close> (\<open>journal.py\<close>): the memory journal and the SQLite file with its faults. The locale
    \<open>journal\<close> is the interface the control plane relies on; both journals interpret it. Shown: the file is
    append-only and refines the memory journal; a conflicting event is refused.
  \<^item> \<open>Control_Plane\<close>, \<open>Dispatch_Safety\<close>, \<open>Authorization\<close> (\<open>core.py\<close>): \<open>ControlPlane\<close> with dispatch,
    assessment, confirmation and catalog replacement, over any journal that keeps the interface. Shown:
    over several planes that share a journal, with restarts, a command identifier is executed at most
    once and every step refines a ledger of used identifiers; what is executed was authorized, intended
    in the journal and not previewed; a success is recorded; a confirmation runs the previewed command,
    once, before it expires; the guards never raise.
  \<^item> \<open>Projections\<close> (\<open>projections.py\<close>, \<open>views.py\<close>, \<open>observability_adapter.py\<close>): replay of the journal into a
    projection, and the views of it. Shown: the projection holds the latest event of each subject; no
    classified value is observable.
  \<^item> \<open>Inventory_Catalog\<close> (\<open>inventory.py\<close>, \<open>catalog.py\<close>), \<open>Evaluation\<close> (\<open>evaluation.py\<close>),
    \<open>Voice_Candidates\<close> (\<open>voice_candidates.py\<close>, \<open>voice_cloning.py\<close>): discovery, reviewed publication,
    promotion of a candidate, and the cloning workflow.
  \<^item> \<open>Voice_Session\<close> (\<open>voice/session.py\<close>), \<open>Voice_Audio\<close> (\<open>voice/pcm.py\<close>, \<open>voice/capture.py\<close>): the owner of
    the microphone, framing and level detection, and the capture of a command.
  \<^item> \<open>Voice_Process\<close> (\<open>voice/process.py\<close>), \<open>Voice_Workers\<close> (\<open>voice/transcription.py\<close>, \<open>voice/device.py\<close>): the
    supervisor of a worker process and its two clients. The locale \<open>worker_contract\<close> states what the
    clients rely on; \<open>OwnedProcess\<close> interprets it. Shown: results are final and honest, a claim of cleanup
    is true, captured audio is bounded and complete.
  \<^item> \<open>Voice_Dictation\<close>, \<open>Voice_Speech\<close>, \<open>Voice_Control\<close> (\<open>voice/dictation.py\<close>, \<open>voice/speech.py\<close>,
    \<open>voice/control.py\<close>): delivery of dictated text into the focused window, the single-slot prompt queue,
    and the local control socket.
  \<^item> \<open>Text_Match\<close>, \<open>Voice_Router\<close> (\<open>voice/router.py\<close>): normalisation and \<open>SequenceMatcher.ratio\<close>, and the
    route from a transcript to dispatch, preview or clarification. Shown: only an exact alias runs without
    a preview, and a confirmation runs only a preview of the same state.
  \<^item> \<open>Voice_Coordinator\<close>, \<open>Coordinator_Safety\<close> (\<open>voice/coordinator.py\<close>): the turn of a spoken command over
    the session owner, the capture, the speech queue and the workers. Shown: every turn ends with an
    honest claim of cleanup, the microphone is live only while capturing, and a cancellation always ends
    the turn.
  \<^item> \<open>Menu_Executor\<close> (\<open>voice/menu.py\<close>): the executor of one fixed command.
  \<^item> \<open>Gateway_Wire\<close>, \<open>Gateway_Admission\<close> (\<open>gateway/wire.py\<close>, \<open>gateway/admission.py\<close>): the schema checker of the
    gateway, the bounded JSON reader, printing and parsing of requests and responses with base64, and
    authentication with replay protection. Shown: what is printed is read back; a request is admitted
    once.

  \<^bold>\<open>Conventions of the model\<close>

  \<^item> A method is a function from its arguments and the state of the object to a result and the new state.
    An exception is a value of a sum type, one constructor per class the callers tell apart.
  \<^item> A lock makes a method atomic. Where another thread can act between two locked regions, or a callback
    can call back, the model has an argument that says what happens there: \<open>mid\<close> in the workers,
    \<open>interlude\<close> in the speech queue, the \<open>disturbance\<close> of a \<open>moment\<close> in the coordinator, explicit guards
    and several planes in the control plane.
  \<^item> Injected collaborators, clocks, the file system, sockets and processes are arguments that answer
    each call; the theorems hold for all answers.
  \<^item> A \<open>str\<close> is a \<open>string\<close> of code points below 256, except transcripts, which are lists of code points. A
    finite float is the rational it denotes; a clock reading of the supervisor is exact. An object of a
    type the code only rejects is \<open>VOpaque\<close>.
  \<^item> JSON text is a parameter where the code calls the library: \<open>parse\<close> answers the tree of a text and
    \<open>dumps\<close> the bytes of a value; a text that is only stored or compared is the sorted value it spells. SHA-256, the
    root of a mean, NFKC with case folding, the word class of regular expressions and float rounding are
    parameters too. UTF-8, WAV, base64, framing and sequence matching are written out.
  \<^item> Loops recurse on the finite data they consume: the bytes that come, the answers of the selector, the
    items of a list, the nodes of a document (at most 4096, so that \<open>walk\<close> ends). No function needs fuel.
  \<^item> \<open>RecursionError\<close>, \<open>MemoryError\<close> and signals are outside the model.

  \<^bold>\<open>Not modelled\<close>

  Planned, in this order: \<open>gateway/client.py\<close>, \<open>voice/conversation.py\<close> and \<open>voice/tts.py\<close> with their records,
  \<open>providers/\<close>, and the pure parts of \<open>ops/orchestration/\<close>. Not planned: the toolkit interface
  \<open>ui/voice_panel.py\<close>, the command line and the packaging and smoke scripts under \<open>ops/\<close>, which only wire
  the parts above to the host, vendored code, and the scripts under \<open>docs/\<close>.
\<close>

end
